(* ===== verification/Prelude.thy ===== *)
theory Prelude
  imports Complex_Main "HOL-Library.Sublist" "HOL-Library.Code_Target_Nat"
begin

text \<open>
  The part of JavaScript the frontend's pure code uses: strings, optional values, decimal
  printing and the array helpers.  Everything below is shared by the component theories.

  A JavaScript string is a sequence of UTF-16 code units, so \<open>jstring\<close> is a list of code
  units (natural numbers below 65536); \<open>length\<close>, \<open>take\<close> and \<open>drop\<close> then count what
  \<open>.length\<close> and \<open>.slice\<close> count.  A literal with only ASCII characters is written
  \<open>js ''abc''\<close>; the other characters the code prints are named units below.  A value that may
  be \<open>null\<close> or \<open>undefined\<close> is an \<open>option\<close>.  A JavaScript number is an \<open>int\<close> where the
  API sends an integer, a \<open>rat\<close> otherwise, and a \<open>jnum\<close> (a \<open>rat option\<close>, \<open>None\<close>
  being \<open>NaN\<close>) where the code can compute on \<open>NaN\<close>.
\<close>

section \<open>Strings\<close>

type_synonym jstring = "nat list"

definition js :: "string \<Rightarrow> jstring" where
  "js s = map of_char s"

abbreviation cu :: "char \<Rightarrow> nat" where
  "cu c \<equiv> of_char c"

lemma js_eq_iff [simp]: "js a = js b \<longleftrightarrow> a = b"
  unfolding js_def by (metis inj_map_eq_map inj_of_char)

lemma js_Nil [simp]: "js [] = []" and js_eq_Nil [simp]: "js a = [] \<longleftrightarrow> a = []"
  by (simp_all add: js_def)

lemma js_append: "js (a @ b) = js a @ js b"
  by (simp add: js_def)

lemma js_Cons: "js (c # s) = of_char c # js s"
  by (simp add: js_def)

lemma length_js [simp]: "length (js a) = length a"
  by (simp add: js_def)

lemma Nil_eq_js [simp]: "[] = js a \<longleftrightarrow> a = []"
  by (auto simp: js_def)

lemma js_ascii: "c \<in> set (js s) \<Longrightarrow> c < 256"
  by (auto simp: js_def)

text \<open>The code units outside ASCII that the code's own string literals contain.\<close>

definition middot :: nat where "middot = 0xB7"
definition emdash :: nat where "emdash = 0x2014"
definition ellipsis :: nat where "ellipsis = 0x2026"
definition rarrow :: nat where "rarrow = 0x2192"
definition ge_sign :: nat where "ge_sign = 0x2265"
definition le_sign :: nat where "le_sign = 0x2264"
definition ne_sign :: nat where "ne_sign = 0x2260"
definition delta_sign :: nat where "delta_sign = 0x394"
definition ldquo :: nat where "ldquo = 0x201C"
definition rdquo :: nat where "rdquo = 0x201D"

lemmas unit_defs = middot_def emdash_def ellipsis_def rarrow_def ge_sign_def le_sign_def
  ne_sign_def delta_sign_def ldquo_def rdquo_def

text \<open>\<open>/\s/\<close> and what \<open>trim\<close> removes: WhiteSpace and LineTerminator of ECMAScript.\<close>

definition is_space :: "nat \<Rightarrow> bool" where
  "is_space c \<longleftrightarrow> (9 \<le> c \<and> c \<le> 13) \<or> c = 32 \<or> c = 160 \<or> c = 0x1680
     \<or> (0x2000 \<le> c \<and> c \<le> 0x200A) \<or> c = 0x2028 \<or> c = 0x2029 \<or> c = 0x202F
     \<or> c = 0x205F \<or> c = 0x3000 \<or> c = 0xFEFF"

definition is_digit :: "nat \<Rightarrow> bool" where
  "is_digit c \<longleftrightarrow> 48 \<le> c \<and> c \<le> 57"

definition is_lower :: "nat \<Rightarrow> bool" where
  "is_lower c \<longleftrightarrow> 97 \<le> c \<and> c \<le> 122"

definition is_upper :: "nat \<Rightarrow> bool" where
  "is_upper c \<longleftrightarrow> 65 \<le> c \<and> c \<le> 90"

definition is_word :: "nat \<Rightarrow> bool" where
  "is_word c \<longleftrightarrow> is_digit c \<or> is_lower c \<or> is_upper c \<or> c = 95"

definition is_ascii :: "jstring \<Rightarrow> bool" where
  "is_ascii s \<longleftrightarrow> list_all (\<lambda>c. c < 128) s"

definition trim_start :: "jstring \<Rightarrow> jstring" where
  "trim_start s = dropWhile is_space s"

definition trim_end :: "jstring \<Rightarrow> jstring" where
  "trim_end s = rev (dropWhile is_space (rev s))"

definition trim :: "jstring \<Rightarrow> jstring" where
  "trim s = trim_end (trim_start s)"

definition starts_with :: "jstring \<Rightarrow> jstring \<Rightarrow> bool" where
  "starts_with s p \<longleftrightarrow> prefix p s"

definition ends_with :: "jstring \<Rightarrow> jstring \<Rightarrow> bool" where
  "ends_with s p \<longleftrightarrow> suffix p s"

definition str_includes :: "jstring \<Rightarrow> jstring \<Rightarrow> bool" where
  "str_includes s p \<longleftrightarrow> sublist p s"

fun index_of :: "nat \<Rightarrow> jstring \<Rightarrow> nat option" where
  "index_of c [] = None"
| "index_of c (x # xs) = (if x = c then Some 0 else map_option Suc (index_of c xs))"

text \<open>\<open>s.split(c)\<close> for a one-unit separator, and \<open>parts.join(sep)\<close>.\<close>

fun split_on :: "nat \<Rightarrow> jstring \<Rightarrow> jstring list" where
  "split_on c [] = [[]]"
| "split_on c (x # xs) =
     (if x = c then [] # split_on c xs
      else (case split_on c xs of [] \<Rightarrow> [[x]] | y # ys \<Rightarrow> (x # y) # ys))"

fun join :: "jstring \<Rightarrow> jstring list \<Rightarrow> jstring" where
  "join sep [] = []"
| "join sep [x] = x"
| "join sep (x # y # zs) = x @ sep @ join sep (y # zs)"

text \<open>
  Case conversion: exact on ASCII strings.  A string with other characters goes through
  \<open>uni\<close>, the Unicode conversion of the engine, a parameter of every definition that needs it.
\<close>

definition lower_unit :: "nat \<Rightarrow> nat" where
  "lower_unit c = (if is_upper c then c + 32 else c)"

definition upper_unit :: "nat \<Rightarrow> nat" where
  "upper_unit c = (if is_lower c then c - 32 else c)"

definition to_lower :: "(jstring \<Rightarrow> jstring) \<Rightarrow> jstring \<Rightarrow> jstring" where
  "to_lower uni s = (if is_ascii s then map lower_unit s else uni s)"

definition to_upper :: "(jstring \<Rightarrow> jstring) \<Rightarrow> jstring \<Rightarrow> jstring" where
  "to_upper uni s = (if is_ascii s then map upper_unit s else uni s)"

text \<open>\<open>s.replace(/[class]+/g, r)\<close>: every maximal run of the class becomes \<open>r\<close>.\<close>

function replace_runs :: "(nat \<Rightarrow> bool) \<Rightarrow> jstring \<Rightarrow> jstring \<Rightarrow> jstring" where
  "replace_runs p r [] = []"
| "replace_runs p r (x # xs) =
     (if p x then r @ replace_runs p r (dropWhile p xs) else x # replace_runs p r xs)"
  by pat_completeness auto
termination
  by (relation "measure (\<lambda>(p, r, s). length s)") (auto simp: le_imp_less_Suc length_dropWhile_le)

text \<open>\<open>s.replace(/^[class]+|[class]+$/g, "")\<close>.\<close>

definition strip_ends :: "(nat \<Rightarrow> bool) \<Rightarrow> jstring \<Rightarrow> jstring" where
  "strip_ends p s = rev (dropWhile p (rev (dropWhile p s)))"

section \<open>Optional values\<close>

text \<open>\<open>x ?? d\<close>, and the truthiness of an optional string, boolean and number.\<close>

definition coalesce :: "'a option \<Rightarrow> 'a \<Rightarrow> 'a" where
  "coalesce x d = (case x of None \<Rightarrow> d | Some v \<Rightarrow> v)"

lemma coalesce_simps [simp]: "coalesce None d = d" "coalesce (Some v) d = v"
  by (simp_all add: coalesce_def)

definition truthy_str :: "jstring option \<Rightarrow> bool" where
  "truthy_str s \<longleftrightarrow> (case s of None \<Rightarrow> False | Some v \<Rightarrow> v \<noteq> [])"

lemma truthy_str_simps [simp]: "truthy_str None = False" "truthy_str (Some s) = (s \<noteq> [])"
  by (simp_all add: truthy_str_def)

definition truthy_bool :: "bool option \<Rightarrow> bool" where
  "truthy_bool b \<longleftrightarrow> b = Some True"

lemma truthy_bool_simps [simp]: "truthy_bool None = False" "truthy_bool (Some b) = b"
  by (simp_all add: truthy_bool_def)

text \<open>\<open>a || b\<close> and \<open>a ?? ""\<close> on strings.\<close>

definition or_str :: "jstring option \<Rightarrow> jstring \<Rightarrow> jstring" where
  "or_str s d = (if truthy_str s then coalesce s [] else d)"

lemma or_str_simps [simp]:
  "or_str None d = d" "or_str (Some []) d = d" "v \<noteq> [] \<Longrightarrow> or_str (Some v) d = v"
  by (simp_all add: or_str_def)

section \<open>Numbers\<close>

type_synonym jnum = "rat option"

definition jadd :: "jnum \<Rightarrow> jnum \<Rightarrow> jnum" where
  "jadd a b = (case (a, b) of (Some x, Some y) \<Rightarrow> Some (x + y) | _ \<Rightarrow> None)"

definition jsub :: "jnum \<Rightarrow> jnum \<Rightarrow> jnum" where
  "jsub a b = (case (a, b) of (Some x, Some y) \<Rightarrow> Some (x - y) | _ \<Rightarrow> None)"

definition jlt :: "jnum \<Rightarrow> jnum \<Rightarrow> bool" where
  "jlt a b = (case (a, b) of (Some x, Some y) \<Rightarrow> x < y | _ \<Rightarrow> False)"

definition jle :: "jnum \<Rightarrow> jnum \<Rightarrow> bool" where
  "jle a b = (case (a, b) of (Some x, Some y) \<Rightarrow> x \<le> y | _ \<Rightarrow> False)"

text \<open>\<open>Math.min(...xs)\<close> and \<open>Math.max(...xs)\<close> of a non-empty list: \<open>NaN\<close> if any is.\<close>

fun jmin :: "jnum list \<Rightarrow> jnum" where
  "jmin [] = None"
| "jmin [x] = x"
| "jmin (x # y # zs) = (case (x, jmin (y # zs)) of (Some a, Some b) \<Rightarrow> Some (min a b) | _ \<Rightarrow> None)"

fun jmax :: "jnum list \<Rightarrow> jnum" where
  "jmax [] = None"
| "jmax [x] = x"
| "jmax (x # y # zs) = (case (x, jmax (y # zs)) of (Some a, Some b) \<Rightarrow> Some (max a b) | _ \<Rightarrow> None)"

lemma jnum_simps [simp]:
  "jadd (Some x) (Some y) = Some (x + y)" "jadd None b = None" "jadd a None = None"
  "jsub (Some x) (Some y) = Some (x - y)" "jsub None b = None" "jsub a None = None"
  "jlt (Some x) (Some y) = (x < y)" "jlt None b = False" "jlt a None = False"
  "jle (Some x) (Some y) = (x \<le> y)" "jle None b = False" "jle a None = False"
  by (simp_all add: jadd_def jsub_def jlt_def jle_def split: option.splits)

text \<open>\<open>String(n)\<close> of an integer below \<open>10 ^ 21\<close>, where JavaScript prints plain decimal.\<close>

fun show_nat :: "nat \<Rightarrow> jstring" where
  "show_nat n = (if n < 10 then [48 + n] else show_nat (n div 10) @ [48 + n mod 10])"

declare show_nat.simps [simp del]

definition show_int :: "int \<Rightarrow> jstring" where
  "show_int i = (if i < 0 then js ''-'' @ show_nat (nat (- i)) else show_nat (nat i))"

definition read_nat :: "jstring \<Rightarrow> nat" where
  "read_nat s = foldl (\<lambda>acc c. acc * 10 + (c - 48)) 0 s"

text \<open>\<open>s.padStart(n, "0")\<close>.\<close>

definition pad_start0 :: "nat \<Rightarrow> jstring \<Rightarrow> jstring" where
  "pad_start0 n s = replicate (n - length s) 48 @ s"

section \<open>Shared facts\<close>

named_theorems str_simps \<open>string helpers unfolded on concrete and structured arguments\<close>

lemma split_on_nonempty [simp]: "split_on c s \<noteq> []"
  by (induction s) (auto split: list.splits)

lemma split_on_no_sep: "c \<notin> set s \<Longrightarrow> split_on c s = [s]"
  by (induction s) auto

lemma split_on_append:
  "c \<notin> set a \<Longrightarrow> split_on c (a @ c # b) = a # split_on c b"
  by (induction a) auto

lemma split_on_join:
  "xs \<noteq> [] \<Longrightarrow> \<forall>x \<in> set xs. c \<notin> set x \<Longrightarrow> split_on c (join [c] xs) = xs"
  by (induction "[c]" xs rule: join.induct) (auto simp: split_on_no_sep split_on_append)

lemma join_Cons: "xs \<noteq> [] \<Longrightarrow> join sep (x # xs) = x @ sep @ join sep xs"
  by (cases xs) auto

lemma join_split_on: "join [c] (split_on c s) = s"
proof (induction s)
  case (Cons x xs)
  then show ?case
    by (cases "split_on c xs"; cases "tl (split_on c xs)") (auto simp: join_Cons)
qed simp

lemma set_split_on: "p \<in> set (split_on c s) \<Longrightarrow> c \<notin> set p \<and> set p \<subseteq> set s"
proof (induction s arbitrary: p)
  case (Cons x xs)
  then show ?case
    by (cases "split_on c xs") (fastforce split: if_splits)+
qed simp

lemma index_of_None_iff: "index_of c s = None \<longleftrightarrow> c \<notin> set s"
  by (induction s) auto

lemma index_of_Some_append: "c \<notin> set a \<Longrightarrow> index_of c (a @ c # b) = Some (length a)"
  by (induction a) auto

lemma index_of_SomeD:
  "index_of c s = Some i \<Longrightarrow> i < length s \<and> s ! i = c \<and> c \<notin> set (take i s)"
  by (induction s arbitrary: i) (auto split: if_splits)

lemma starts_with_Nil [simp]: "starts_with s []"
  by (simp add: starts_with_def)

lemma starts_with_append [simp]: "starts_with (p @ s) p"
  by (simp add: starts_with_def)

lemma ends_with_append [simp]: "ends_with (s @ p) p"
  by (simp add: ends_with_def suffix_def)

lemma dropWhile_hd_id: "s = [] \<or> \<not> P (hd s) \<Longrightarrow> dropWhile P s = s"
  by (cases s) auto

lemma trim_id:
  assumes "s = [] \<or> (\<not> is_space (hd s) \<and> \<not> is_space (last s))"
  shows "trim s = s"
proof -
  have "dropWhile is_space s = s" and "dropWhile is_space (rev s) = rev s"
    using assms by (intro dropWhile_hd_id; auto simp: hd_rev)+
  then show ?thesis by (simp add: trim_def trim_start_def trim_end_def)
qed

lemma trim_Nil [simp]: "trim [] = []"
  by (simp add: trim_def trim_start_def trim_end_def)

lemma show_nat_digits: "c \<in> set (show_nat n) \<Longrightarrow> is_digit c"
proof (induction n rule: show_nat.induct)
  case (1 n)
  then show ?case
    by (subst (asm) (2) show_nat.simps) (auto simp: is_digit_def split: if_splits)
qed

lemma show_nat_nonempty [simp]: "show_nat n \<noteq> []"
  by (subst show_nat.simps) simp

lemma read_nat_snoc: "read_nat (s @ [c]) = read_nat s * 10 + (c - 48)"
  by (simp add: read_nat_def)

lemma read_show_nat [simp]: "read_nat (show_nat n) = n"
proof (induction n rule: show_nat.induct)
  case (1 n)
  then show ?case
    by (simp add: show_nat.simps [of n] read_nat_snoc read_nat_def)
qed

lemma show_nat_inject [simp]: "show_nat a = show_nat b \<longleftrightarrow> a = b"
  by (metis read_show_nat)

lemma length_pad_start0: "length (pad_start0 n s) = max n (length s)"
  by (simp add: pad_start0_def)

end
