(* ===== verification/ApiTypes.thy ===== *)
theory ApiTypes
  imports Prelude
begin

text \<open>
  The wire types of \<open>frontend/src/api/types.ts\<close> the modelled components read, one record or
  datatype per interface or union, fields in the source's order with a short prefix per record.
  An optional field is an \<open>option\<close>, \<open>Record<string, string>\<close> is its list of entries, and a
  union of string literals is a datatype where the code switches on it.
\<close>

section \<open>Spans and flows\<close>

record span_event =
  se_timestamp :: jstring
  se_name :: jstring
  se_attributes :: "(jstring \<times> jstring) list option"

record span_link =
  sl_trace_id :: jstring
  sl_span_id :: jstring

record span_summary =
  ss_timestamp :: jstring
  ss_trace_id :: jstring
  ss_span_id :: jstring
  ss_parent_span_id :: "jstring option"
  ss_service_name :: jstring
  ss_span_name :: jstring
  ss_span_kind :: jstring
  ss_status_code :: jstring
  ss_status_message :: "jstring option"
  ss_duration_ms :: rat
  ss_attributes :: "(jstring \<times> jstring) list option"
  ss_resource_attributes :: "(jstring \<times> jstring) list option"
  ss_span_attributes :: "(jstring \<times> jstring) list option"
  ss_links :: "span_link list option"
  ss_links_total :: "nat option"
  ss_events :: "span_event list option"
  ss_events_total :: "nat option"

datatype service_status = StOk | StErrors | StQuiet | StUnhealthy

record flow_node =
  fn_service_name :: jstring
  fn_trace_count :: nat
  fn_error_trace_count :: nat
  fn_status :: "service_status option"

record flow_edge =
  fe_source :: jstring
  fe_target :: jstring
  fe_call_count :: nat
  fe_error_count :: nat
  fe_link :: bool

text \<open>One span with every optional field absent, for examples.\<close>

definition plain_span :: "jstring \<Rightarrow> jstring option \<Rightarrow> jstring \<Rightarrow> jstring \<Rightarrow> jstring \<Rightarrow> rat \<Rightarrow> span_summary" where
  "plain_span i p svc nm ts d = \<lparr>ss_timestamp = ts, ss_trace_id = js ''t'', ss_span_id = i,
     ss_parent_span_id = p, ss_service_name = svc, ss_span_name = nm, ss_span_kind = js ''Internal'',
     ss_status_code = js ''Unset'', ss_status_message = None, ss_duration_ms = d,
     ss_attributes = None, ss_resource_attributes = None, ss_span_attributes = None,
     ss_links = None, ss_links_total = None, ss_events = None, ss_events_total = None\<rparr>"

end
