(* ===== verification/Collections.thy ===== *)
theory Collections
  imports Prelude "HOL-Library.AList" "HOL-Library.Multiset"
begin

text \<open>
  JavaScript's \<open>Map\<close> and \<open>Set\<close>: insertion-ordered, updating in place.  A map is its list of
  entries, \<open>m.set(k, v)\<close> is \<open>AList.update\<close> (an existing key keeps its position, a new one goes
  to the end), \<open>m.get(k)\<close> is \<open>map_of\<close>, and iteration follows the list.  A set that is only
  tested is the list of what was added.

  The components use maps in two ways, and both contracts are locales here: a store (get after
  put, keys in first-insertion order), and a store of buckets (push onto the list of a key).  The
  facts about grouping a list by a key are proved once, in the locale.
\<close>

section \<open>First occurrences\<close>

fun dedupe_acc :: "'a list \<Rightarrow> 'a list \<Rightarrow> 'a list" where
  "dedupe_acc acc [] = acc"
| "dedupe_acc acc (x # xs) = dedupe_acc (if x \<in> set acc then acc else acc @ [x]) xs"

definition dedupe :: "'a list \<Rightarrow> 'a list" where
  "dedupe xs = dedupe_acc [] xs"

lemma set_dedupe_acc [simp]: "set (dedupe_acc acc xs) = set acc \<union> set xs"
  by (induction xs arbitrary: acc) auto

lemma set_dedupe [simp]: "set (dedupe xs) = set xs"
  by (simp add: dedupe_def)

lemma distinct_dedupe_acc: "distinct acc \<Longrightarrow> distinct (dedupe_acc acc xs)"
  by (induction xs arbitrary: acc) auto

lemma distinct_dedupe [simp]: "distinct (dedupe xs)"
  by (simp add: dedupe_def distinct_dedupe_acc)

lemma dedupe_acc_snoc:
  "dedupe_acc acc (xs @ [x]) =
     (if x \<in> set acc \<union> set xs then dedupe_acc acc xs else dedupe_acc acc xs @ [x])"
  by (induction xs arbitrary: acc) auto

lemma dedupe_snoc: "dedupe (xs @ [x]) = (if x \<in> set xs then dedupe xs else dedupe xs @ [x])"
  by (simp add: dedupe_def dedupe_acc_snoc)

lemma dedupe_Nil [simp]: "dedupe [] = []"
  by (simp add: dedupe_def)

lemma dedupe_eq_Nil [simp]: "dedupe xs = [] \<longleftrightarrow> xs = []"
  by (metis set_dedupe set_empty)

lemma dedupe_acc_distinct: "distinct (acc @ xs) \<Longrightarrow> dedupe_acc acc xs = acc @ xs"
  by (induction xs arbitrary: acc) auto

lemma dedupe_distinct: "distinct xs \<Longrightarrow> dedupe xs = xs"
  by (simp add: dedupe_def dedupe_acc_distinct)

lemma length_dedupe_le: "length (dedupe xs) \<le> length xs"
  by (metis card_length distinct_card distinct_dedupe set_dedupe)

section \<open>The store and bucket contracts\<close>

locale keyed_store =
  fixes empty :: "'m"
    and get :: "'m \<Rightarrow> 'k \<Rightarrow> 'v option"
    and put :: "'m \<Rightarrow> 'k \<Rightarrow> 'v \<Rightarrow> 'm"
    and keys :: "'m \<Rightarrow> 'k list"
  assumes get_empty: "get empty k = None"
    and get_put: "get (put m k v) k' = (if k' = k then Some v else get m k')"
    and keys_empty: "keys empty = []"
    and keys_put: "keys (put m k v) = (if k \<in> set (keys m) then keys m else keys m @ [k])"
begin

text \<open>\<open>new Map(xs.map(x => [f x, g x]))\<close>: the last entry of a key wins, at its first position.\<close>

definition of_list :: "('x \<Rightarrow> 'k) \<Rightarrow> ('x \<Rightarrow> 'v) \<Rightarrow> 'x list \<Rightarrow> 'm" where
  "of_list f g xs = foldl (\<lambda>m x. put m (f x) (g x)) empty xs"

lemma keys_of_list: "keys (of_list f g xs) = dedupe (map f xs)"
  unfolding of_list_def
  by (induction xs rule: rev_induct) (auto simp: keys_empty keys_put dedupe_snoc)

lemma get_of_list: "get (of_list f g xs) k = map_option g (find (\<lambda>x. f x = k) (rev xs))"
  unfolding of_list_def
  by (induction xs rule: rev_induct) (auto simp: get_empty get_put)

end

locale bucket_store = keyed_store empty get put keys
  for empty :: "'m" and get :: "'m \<Rightarrow> 'k \<Rightarrow> 'x list option"
    and put :: "'m \<Rightarrow> 'k \<Rightarrow> 'x list \<Rightarrow> 'm" and keys :: "'m \<Rightarrow> 'k list"
begin

definition push :: "'m \<Rightarrow> 'k \<Rightarrow> 'x \<Rightarrow> 'm" where
  "push m k x = put m k (coalesce (get m k) [] @ [x])"

definition group :: "('x \<Rightarrow> 'k) \<Rightarrow> 'x list \<Rightarrow> 'm" where
  "group f xs = foldl (\<lambda>m x. push m (f x) x) empty xs"

lemma group_Nil: "group f [] = empty"
  by (simp add: group_def)

lemma group_snoc: "group f (xs @ [x]) = push (group f xs) (f x) x"
  by (simp add: group_def)

text \<open>Each bucket holds exactly the elements with its key, in their order.\<close>

lemma get_group:
  "get (group f xs) k = (if k \<in> f ` set xs then Some (filter (\<lambda>x. f x = k) xs) else None)"
proof (induction xs rule: rev_induct)
  case (snoc x xs)
  have "filter (\<lambda>y. f y = f x) xs = []" if "f x \<notin> f ` set xs"
    using that by (intro filter_False) (metis image_eqI)
  with snoc show ?case
    by (auto simp: group_snoc push_def get_put)
qed (simp add: group_Nil get_empty)

lemma keys_group: "keys (group f xs) = dedupe (map f xs)"
  by (induction xs rule: rev_induct) (auto simp: group_Nil keys_empty group_snoc push_def keys_put dedupe_snoc)

lemma bucket_nonempty: "get (group f xs) k = Some b \<Longrightarrow> b \<noteq> []"
  by (auto simp: get_group filter_empty_conv split: if_splits)

end

section \<open>Entry lists\<close>

text \<open>The list model of a JavaScript \<open>Map\<close>, and the interpretation of both contracts on it.\<close>

definition map_values :: "('k \<times> 'v) list \<Rightarrow> 'v list" where
  "map_values m = map snd m"

definition map_push :: "('k \<times> 'x list) list \<Rightarrow> 'k \<Rightarrow> 'x \<Rightarrow> ('k \<times> 'x list) list" where
  "map_push m k x = AList.update k (coalesce (map_of m k) [] @ [x]) m"

definition group_by :: "('x \<Rightarrow> 'k) \<Rightarrow> 'x list \<Rightarrow> ('k \<times> 'x list) list" where
  "group_by f xs = foldl (\<lambda>m x. map_push m (f x) x) [] xs"

definition map_of_entries :: "('x \<Rightarrow> 'k) \<Rightarrow> ('x \<Rightarrow> 'v) \<Rightarrow> 'x list \<Rightarrow> ('k \<times> 'v) list" where
  "map_of_entries f g xs = foldl (\<lambda>m x. AList.update (f x) (g x) m) [] xs"

lemma keys_update: "map fst (AList.update k v m) =
    (if k \<in> set (map fst m) then map fst m else map fst m @ [k])"
  by (simp add: update_keys)

interpretation es: keyed_store "[]" map_of "\<lambda>m k v. AList.update k v m" "map fst"
  by unfold_locales (auto simp: update_conv keys_update)

interpretation eb: bucket_store "[]" map_of "\<lambda>m k v. AList.update k v m" "map fst"
  by unfold_locales

lemma map_push_eq: "map_push = eb.push"
  by (simp add: fun_eq_iff map_push_def eb.push_def)

lemma group_by_eq: "group_by = eb.group"
  by (simp add: fun_eq_iff group_by_def eb.group_def map_push_eq)

lemma map_of_entries_eq: "map_of_entries = es.of_list"
  by (simp add: fun_eq_iff map_of_entries_def es.of_list_def)

lemma map_of_group_by:
  "map_of (group_by f xs) k = (if k \<in> f ` set xs then Some (filter (\<lambda>x. f x = k) xs) else None)"
  by (simp only: group_by_eq eb.get_group)

lemma coalesce_group_by: "coalesce (map_of (group_by f xs) k) [] = filter (\<lambda>x. f x = k) xs"
  by (auto simp: map_of_group_by) (auto intro!: filter_False [symmetric])

lemma keys_group_by: "map fst (group_by f xs) = dedupe (map f xs)"
  by (simp only: group_by_eq eb.keys_group)

lemma map_of_map_of_entries:
  "map_of (map_of_entries f g xs) k = map_option g (find (\<lambda>x. f x = k) (rev xs))"
  by (simp only: map_of_entries_eq es.get_of_list)

lemma keys_map_of_entries: "map fst (map_of_entries f g xs) = dedupe (map f xs)"
  by (simp only: map_of_entries_eq es.keys_of_list)

lemma distinct_keys_group_by [simp]: "distinct (map fst (group_by f xs))"
  by (simp only: keys_group_by distinct_dedupe)

lemma distinct_keys_map_of_entries [simp]: "distinct (map fst (map_of_entries f g xs))"
  by (simp only: keys_map_of_entries distinct_dedupe)

lemma list_eq_map_of:
  assumes "distinct (map fst m)"
  shows "m = map (\<lambda>k. (k, the (map_of m k))) (map fst m)"
proof -
  have "map (\<lambda>p. (fst p, the (map_of m (fst p)))) m = m"
    using assms by (intro map_idI) auto
  then show ?thesis by (simp add: comp_def)
qed

text \<open>The whole grouping at once: the distinct keys in order, each with its elements.\<close>

lemma group_by_alt:
  "group_by f xs = map (\<lambda>k. (k, filter (\<lambda>x. f x = k) xs)) (dedupe (map f xs))"
proof -
  have "group_by f xs = map (\<lambda>k. (k, the (map_of (group_by f xs) k))) (map fst (group_by f xs))"
    by (rule list_eq_map_of) simp
  also have "\<dots> = map (\<lambda>k. (k, filter (\<lambda>x. f x = k) xs)) (dedupe (map f xs))"
    unfolding keys_group_by by (rule map_cong) (auto simp: map_of_group_by)
  finally show ?thesis .
qed

lemma values_group_by:
  "map_values (group_by f xs) = map (\<lambda>k. filter (\<lambda>x. f x = k) xs) (dedupe (map f xs))"
  by (simp add: map_values_def group_by_alt comp_def)

text \<open>No element is lost or duplicated by a grouping.\<close>

lemma concat_singletons_notin:
  "a \<notin> set ks \<Longrightarrow> concat (map (\<lambda>k. if a = k then [x] else []) ks) = []"
  by (induction ks) auto

lemma mset_concat_filter_keys:
  "distinct ks \<Longrightarrow> f ` set xs \<subseteq> set ks \<Longrightarrow>
     mset (concat (map (\<lambda>k. filter (\<lambda>x. f x = k) xs) ks)) = mset xs"
proof (induction xs)
  case (Cons x xs)
  have "mset (concat (map (\<lambda>k. filter (\<lambda>y. f y = k) (x # xs)) ks))
      = mset (concat (map (\<lambda>k. filter (\<lambda>y. f y = k) xs) ks)) + mset (concat (map (\<lambda>k. if f x = k then [x] else []) ks))"
    by (induction ks) auto
  moreover have "mset (concat (map (\<lambda>k. if f x = k then [x] else []) ks)) = {#x#}"
  proof -
    have "f x \<in> set ks" using Cons.prems by simp
    then obtain as bs where ks: "ks = as @ f x # bs" by (meson split_list)
    then have "f x \<notin> set as" "f x \<notin> set bs" using Cons.prems by auto
    with ks show ?thesis by (simp add: concat_singletons_notin)
  qed
  ultimately show ?case using Cons by simp
qed simp

lemma mset_values_group_by: "mset (concat (map_values (group_by f xs))) = mset xs"
  by (simp add: values_group_by mset_concat_filter_keys)

lemma sum_length_group_by: "sum_list (map length (map_values (group_by f xs))) = length xs"
  by (metis mset_values_group_by length_concat size_mset)

lemma length_group_by_le: "length (group_by f xs) \<le> length xs"
  by (metis keys_group_by length_dedupe_le length_map)

text \<open>With distinct keys a map is just the list of its entries.\<close>

lemma update_new_key: "k \<notin> set (map fst m) \<Longrightarrow> AList.update k v m = m @ [(k, v)]"
  by (induction m) auto

lemma map_of_entries_distinct:
  "distinct (map f xs) \<Longrightarrow> map_of_entries f g xs = map (\<lambda>x. (f x, g x)) xs"
proof (induction xs rule: rev_induct)
  case (snoc x xs)
  then have "f x \<notin> set (map fst (map (\<lambda>x. (f x, g x)) xs))" by auto
  with snoc show ?case by (simp add: map_of_entries_def update_new_key)
qed (simp add: map_of_entries_def)

lemma distinct_map_hd:
  "distinct (map f (concat gs)) \<Longrightarrow> \<forall>g \<in> set gs. g \<noteq> [] \<Longrightarrow> distinct (map (\<lambda>g. f (hd g)) gs)"
proof (induction gs)
  case (Cons g gs)
  have "f (hd g) \<notin> (\<lambda>g. f (hd g)) ` set gs"
  proof
    assume "f (hd g) \<in> (\<lambda>g. f (hd g)) ` set gs"
    then obtain h where h: "h \<in> set gs" "f (hd g) = f (hd h)" by auto
    with Cons.prems have "hd g \<in> set g" "hd h \<in> set (concat gs)" by (auto intro: hd_in_set)
    then have "f (hd h) \<in> f ` set g \<inter> f ` set (concat gs)" using h(2) by (metis IntI image_eqI)
    with Cons.prems(1) show False by (simp del: set_concat)
  qed
  with Cons show ?case by simp
qed simp

lemma nth_pair_filter_ex:
  "x \<in> set xs \<Longrightarrow> y \<in> set xs \<Longrightarrow> x \<noteq> y \<Longrightarrow>
     \<exists>i j. i < length xs \<and> j < length xs \<and> i \<noteq> j \<and> xs ! i = x \<and> xs ! j = y"
  by (metis in_set_conv_nth)

text \<open>Two keys that identify the same elements have equally many values.\<close>

lemma card_image_same_kernel:
  "finite A \<Longrightarrow> \<forall>x \<in> A. \<forall>y \<in> A. f x = f y \<longleftrightarrow> g x = g y \<Longrightarrow> card (f ` A) = card (g ` A)"
proof (induction A rule: finite_induct)
  case (insert x A)
  have "card (f ` A) = card (g ` A)" using insert.IH insert.prems by blast
  moreover have "f x \<in> f ` A \<longleftrightarrow> g x \<in> g ` A" using insert.prems by blast
  ultimately show ?case using insert.hyps(1) by (simp only: image_insert card_insert_if finite_imageI)
qed simp

text \<open>What \<open>find\<close> returns.\<close>

text \<open>\<open>xs.findIndex(p)\<close>: \<open>None\<close> is the result \<open>-1\<close>.\<close>

fun find_index :: "('a \<Rightarrow> bool) \<Rightarrow> 'a list \<Rightarrow> nat option" where
  "find_index P [] = None"
| "find_index P (x # xs) = (if P x then Some 0 else map_option Suc (find_index P xs))"

lemma find_index_SomeD: "find_index P xs = Some i \<Longrightarrow> i < length xs \<and> P (xs ! i) \<and> (\<forall>j < i. \<not> P (xs ! j))"
proof (induction xs arbitrary: i)
  case (Cons x xs)
  then show ?case by (cases "P x") (auto simp: nth_Cons' split: if_splits)
qed simp

lemma find_index_None_iff: "find_index P xs = None \<longleftrightarrow> (\<forall>x \<in> set xs. \<not> P x)"
  by (induction xs) auto

lemma find_SomeD: "find P xs = Some x \<Longrightarrow> P x \<and> x \<in> set xs"
  by (induction xs) (auto split: if_splits)

lemma find_None_ball: "find P xs = None \<longleftrightarrow> (\<forall>x \<in> set xs. \<not> P x)"
  by (auto simp: find_None_iff)

lemma list_all2_left: "list_all2 P xs ys \<Longrightarrow> x \<in> set xs \<Longrightarrow> \<exists>y \<in> set ys. P x y"
  by (induction rule: list_all2_induct) auto

lemma list_all2_right: "list_all2 P xs ys \<Longrightarrow> y \<in> set ys \<Longrightarrow> \<exists>x \<in> set xs. P x y"
  by (induction rule: list_all2_induct) auto

lemma distinct_mapI: "distinct (map f xs) \<Longrightarrow> distinct xs"
  by (simp add: distinct_map)

text \<open>Grouping a list that is already laid out in blocks gives the blocks back.\<close>

lemma map_push_run:
  "k \<notin> fst ` set m \<Longrightarrow> ys \<noteq> [] \<Longrightarrow> \<forall>y \<in> set ys. f y = k \<Longrightarrow>
     foldl (\<lambda>m x. map_push m (f x) x) m ys = m @ [(k, ys)]"
proof (induction ys rule: rev_induct)
  case (snoc y ys)
  show ?case
  proof (cases "ys = []")
    case True
    have "map_of m k = None" using snoc.prems(1) by (simp add: map_of_eq_None_iff)
    with True snoc.prems show ?thesis by (simp add: map_push_def update_new_key)
  next
    case False
    with snoc have "foldl (\<lambda>m x. map_push m (f x) x) m ys = m @ [(k, ys)]" by simp
    moreover have "map_of (m @ [(k, ys)]) k = Some ys"
      using snoc.prems(1) by (simp add: map_add_def map_of_eq_None_iff [THEN iffD2])
    moreover have "AList.update k zs (m @ [(k, ys)]) = m @ [(k, zs)]" for zs
      using snoc.prems(1) by (induction m) auto
    ultimately show ?thesis using snoc.prems by (simp add: map_push_def)
  qed
qed simp

lemma group_by_blocks:
  "distinct (map fst bs) \<Longrightarrow> \<forall>b \<in> set bs. snd b \<noteq> [] \<and> (\<forall>x \<in> set (snd b). f x = fst b) \<Longrightarrow>
     group_by f (concat (map snd bs)) = bs"
proof (induction bs rule: rev_induct)
  case (snoc b bs)
  then have "group_by f (concat (map snd bs)) = bs" by simp
  then have "group_by f (concat (map snd (bs @ [b]))) = foldl (\<lambda>m x. map_push m (f x) x) bs (snd b)"
    by (simp add: group_by_def)
  also have "\<dots> = bs @ [(fst b, snd b)]" using snoc.prems by (intro map_push_run) auto
  finally show ?case by simp
qed (simp add: group_by_def)

end
