(* ===== verification/JsSort.thy ===== *)
theory JsSort
  imports Prelude "HOL-Library.Multiset"
begin

text \<open>
  \<open>Array.prototype.sort\<close> with a comparator.  Since ECMAScript 2019 the sort is stable, and a
  consistent comparator then determines the result: \<open>js_sort_unique\<close> shows that every stable
  sorted rearrangement is the one \<open>js_sort\<close> computes.  What a consistent comparator is, is the
  locale \<open>js_comparator\<close>; the comparators of the components are interpretations of it.
\<close>

section \<open>The sort\<close>

fun js_insert :: "('a \<Rightarrow> 'a \<Rightarrow> 'n::linordered_idom) \<Rightarrow> 'a \<Rightarrow> 'a list \<Rightarrow> 'a list" where
  "js_insert cmp x [] = [x]"
| "js_insert cmp x (y # ys) = (if cmp x y \<le> 0 then x # y # ys else y # js_insert cmp x ys)"

fun js_sort :: "('a \<Rightarrow> 'a \<Rightarrow> 'n::linordered_idom) \<Rightarrow> 'a list \<Rightarrow> 'a list" where
  "js_sort cmp [] = []"
| "js_sort cmp (x # xs) = js_insert cmp x (js_sort cmp xs)"

lemma mset_js_insert [simp]: "mset (js_insert cmp x xs) = add_mset x (mset xs)"
  by (induction xs) auto

lemma mset_js_sort [simp]: "mset (js_sort cmp xs) = mset xs"
  by (induction xs) auto

lemma set_js_sort [simp]: "set (js_sort cmp xs) = set xs"
  by (metis mset_js_sort set_mset_mset)

lemma length_js_sort [simp]: "length (js_sort cmp xs) = length xs"
  by (metis mset_js_sort size_mset)

lemma distinct_js_sort [simp]: "distinct (js_sort cmp xs) = distinct xs"
  by (metis mset_js_sort mset_eq_imp_distinct_iff)

lemma js_sort_eq_Nil [simp]: "js_sort cmp xs = [] \<longleftrightarrow> xs = []"
  by (metis length_0_conv length_js_sort)

lemma js_insert_cong:
  "\<forall>y \<in> set xs. c x y = d x y \<Longrightarrow> js_insert c x xs = js_insert d x xs"
  by (induction xs) auto

lemma js_sort_cong:
  "\<forall>x \<in> set xs. \<forall>y \<in> set xs. c x y = d x y \<Longrightarrow> js_sort c xs = js_sort d xs"
  by (induction xs) (auto intro: js_insert_cong)

section \<open>Consistent comparators\<close>

locale js_comparator =
  fixes cmp :: "'a \<Rightarrow> 'a \<Rightarrow> 'n::linordered_idom"
  assumes cmp_sym: "sgn (cmp y x) = - sgn (cmp x y)"
    and cmp_trans: "cmp x y \<le> 0 \<Longrightarrow> cmp y z \<le> 0 \<Longrightarrow> cmp x z \<le> 0"
begin

lemma cmp_refl: "cmp x x = 0"
  using cmp_sym [of x x] by (simp add: sgn_0_0 equal_neg_zero)

lemma cmp_total: "\<not> cmp x y \<le> 0 \<Longrightarrow> cmp y x \<le> 0"
  using cmp_sym [of y x] by (auto simp: sgn_if split: if_splits)

lemma cmp_eq_sym: "cmp x y = 0 \<longleftrightarrow> cmp y x = 0"
  using cmp_sym [of x y] by (auto simp: sgn_if split: if_splits)

lemma cmp_eq_iff: "cmp x y = 0 \<longleftrightarrow> cmp x y \<le> 0 \<and> cmp y x \<le> 0"
  using cmp_sym [of x y] by (auto simp: sgn_if split: if_splits)

lemma cmp_eq_trans: "cmp x y = 0 \<Longrightarrow> cmp y z = 0 \<Longrightarrow> cmp x z = 0"
  by (meson cmp_eq_iff cmp_trans)

definition ordered :: "'a list \<Rightarrow> bool" where
  "ordered = sorted_wrt (\<lambda>x y. cmp x y \<le> 0)"

lemma ordered_js_insert: "ordered xs \<Longrightarrow> ordered (js_insert cmp x xs)"
proof (induction xs)
  case (Cons y ys)
  have "set (js_insert cmp x ys) = insert x (set ys)"
    by (metis mset_js_insert set_mset_add_mset_insert set_mset_mset)
  with Cons show ?case
    by (auto simp: ordered_def intro: cmp_trans cmp_total)
qed (simp add: ordered_def)

lemma ordered_js_sort: "ordered (js_sort cmp xs)"
  by (induction xs) (simp_all add: ordered_js_insert, simp add: ordered_def)

lemma filter_js_insert:
  "ordered xs \<Longrightarrow> filter (\<lambda>y. cmp a y = 0) (js_insert cmp x xs) =
     (if cmp a x = 0 then x # filter (\<lambda>y. cmp a y = 0) xs else filter (\<lambda>y. cmp a y = 0) xs)"
proof (induction xs)
  case (Cons y ys)
  then have IH: "filter (\<lambda>y. cmp a y = 0) (js_insert cmp x ys) =
     (if cmp a x = 0 then x # filter (\<lambda>y. cmp a y = 0) ys else filter (\<lambda>y. cmp a y = 0) ys)"
    by (simp add: ordered_def)
  have "cmp a y \<noteq> 0" if "\<not> cmp x y \<le> 0" "cmp a x = 0"
    using that by (metis cmp_eq_iff cmp_trans)
  with IH show ?case by auto
qed simp

text \<open>The sort is stable: elements that compare equal keep their order.\<close>

lemma js_sort_stable: "filter (\<lambda>y. cmp a y = 0) (js_sort cmp xs) = filter (\<lambda>y. cmp a y = 0) xs"
  by (induction xs) (auto simp: filter_js_insert ordered_js_sort)

lemma stable_ordered_unique:
  assumes "ordered ys" "ordered zs"
    and "\<And>a. filter (\<lambda>y. cmp a y = 0) ys = filter (\<lambda>y. cmp a y = 0) zs"
  shows "ys = zs"
  using assms
proof (induction ys arbitrary: zs)
  case Nil
  then have "filter (\<lambda>y. cmp z y = 0) zs = []" for z by (metis filter.simps(1))
  then have "z \<notin> set zs" for z by (metis (mono_tags) cmp_refl filter_empty_conv)
  then show ?case by (metis list.set_intros(1) neq_Nil_conv)
next
  case (Cons y ys)
  have "y \<in> set (filter (\<lambda>u. cmp y u = 0) zs)"
    using Cons.prems(3) [of y, symmetric] cmp_refl by simp
  then have "y \<in> set zs" by simp
  then obtain z zs' where zs: "zs = z # zs'" by (cases zs) auto
  have "z \<in> set (filter (\<lambda>u. cmp z u = 0) (y # ys))"
    unfolding Cons.prems(3) using cmp_refl by (simp add: zs)
  then have "z \<in> set (y # ys)" by (auto split: if_splits)
  then have "cmp y z \<le> 0" using Cons.prems(1) cmp_refl by (auto simp: ordered_def)
  moreover have "cmp z y \<le> 0" using \<open>y \<in> set zs\<close> Cons.prems(2) cmp_refl by (auto simp: ordered_def zs)
  ultimately have "cmp y z = 0" by (simp add: cmp_eq_iff)
  with Cons.prems(3) [of y] have "y = z" by (simp add: zs cmp_refl)
  have "ys = zs'"
  proof (rule Cons.IH)
    show "ordered ys" "ordered zs'" using Cons.prems by (simp_all add: ordered_def zs)
    show "filter (\<lambda>y. cmp a y = 0) ys = filter (\<lambda>y. cmp a y = 0) zs'" for a
      using Cons.prems(3) [of a] by (simp add: zs \<open>y = z\<close> split: if_splits)
  qed
  then show ?case by (simp add: zs \<open>y = z\<close>)
qed

lemma js_sort_unique:
  "ordered ys \<Longrightarrow> (\<And>a. filter (\<lambda>y. cmp a y = 0) ys = filter (\<lambda>y. cmp a y = 0) xs) \<Longrightarrow> ys = js_sort cmp xs"
  by (rule stable_ordered_unique) (simp_all add: ordered_js_sort js_sort_stable)

lemma js_sort_ordered_id: "ordered xs \<Longrightarrow> js_sort cmp xs = xs"
  using js_sort_unique [of xs xs] by simp

text \<open>The first element compares at most every other one.\<close>

lemma hd_js_sort_least: "x \<in> set xs \<Longrightarrow> cmp (hd (js_sort cmp xs)) x \<le> 0"
proof -
  assume x: "x \<in> set xs"
  then obtain y ys where "js_sort cmp xs = y # ys" by (cases "js_sort cmp xs") (auto dest: arg_cong [of _ _ set])
  moreover have "x \<in> set (js_sort cmp xs)" using x by simp
  ultimately show ?thesis
    using ordered_js_sort [of xs] cmp_refl by (auto simp: ordered_def)
qed

end

section \<open>Building comparators\<close>

text \<open>\<open>(a, b) => f(a) - f(b)\<close>, its reverse, and \<open>first || second\<close>.\<close>

definition cmp_by :: "('a \<Rightarrow> 'n::linordered_idom) \<Rightarrow> 'a \<Rightarrow> 'a \<Rightarrow> 'n" where
  "cmp_by f a b = f a - f b"

definition cmp_desc :: "('a \<Rightarrow> 'n::linordered_idom) \<Rightarrow> 'a \<Rightarrow> 'a \<Rightarrow> 'n" where
  "cmp_desc f a b = f b - f a"

definition cmp_then :: "('a \<Rightarrow> 'a \<Rightarrow> 'n::linordered_idom) \<Rightarrow> ('a \<Rightarrow> 'a \<Rightarrow> 'n) \<Rightarrow> 'a \<Rightarrow> 'a \<Rightarrow> 'n" where
  "cmp_then c d a b = (if c a b \<noteq> 0 then c a b else d a b)"

definition cmp_on :: "('a \<Rightarrow> 'b) \<Rightarrow> ('b \<Rightarrow> 'b \<Rightarrow> 'n::linordered_idom) \<Rightarrow> 'a \<Rightarrow> 'a \<Rightarrow> 'n" where
  "cmp_on f c a b = c (f a) (f b)"

lemma js_comparator_by: "js_comparator (cmp_by f)"
  by unfold_locales (auto simp: cmp_by_def sgn_if)

lemma js_comparator_desc: "js_comparator (cmp_desc f)"
  by unfold_locales (auto simp: cmp_desc_def sgn_if)

lemma js_comparator_on: "js_comparator c \<Longrightarrow> js_comparator (cmp_on f c)"
  unfolding js_comparator_def cmp_on_def by blast

lemma js_comparator_then:
  assumes "js_comparator c" "js_comparator d"
  shows "js_comparator (cmp_then c d)"
proof (rule js_comparator.intro)
  fix x y z
  show "sgn (cmp_then c d y x) = - sgn (cmp_then c d x y)"
    using js_comparator.cmp_sym [OF assms(1), of y x] js_comparator.cmp_eq_sym [OF assms(1), of x y]
      js_comparator.cmp_sym [OF assms(2), of y x]
    by (simp add: cmp_then_def)
  assume "cmp_then c d x y \<le> 0" "cmp_then c d y z \<le> 0"
  moreover have "c x z \<le> 0" if "c x y \<le> 0" "c y z \<le> 0"
    using that by (rule js_comparator.cmp_trans [OF assms(1)])
  moreover have "d x z \<le> 0" if "d x y \<le> 0" "d y z \<le> 0"
    using that by (rule js_comparator.cmp_trans [OF assms(2)])
  moreover have "c x y = 0 \<and> c y z = 0" if "c x z = 0" "c x y \<le> 0" "c y z \<le> 0"
    using that js_comparator.cmp_eq_iff [OF assms(1)] js_comparator.cmp_trans [OF assms(1)] by metis
  ultimately show "cmp_then c d x z \<le> 0"
    by (auto simp add: cmp_then_def split: if_splits)
qed

lemmas js_comparator_intros = js_comparator_by js_comparator_desc js_comparator_on js_comparator_then

interpretation by_key: js_comparator "cmp_by f" for f :: "'a \<Rightarrow> 'n::linordered_idom"
  by (rule js_comparator_by)

interpretation desc_key: js_comparator "cmp_desc f" for f :: "'a \<Rightarrow> 'n::linordered_idom"
  by (rule js_comparator_desc)

text \<open>
  \<open>a.localeCompare(b)\<close> is the engine's collation, a parameter \<open>coll\<close> of the definitions that
  sort by it.  What the code relies on is \<open>js_comparator coll\<close>; comparing code units is one.
\<close>

fun unit_compare :: "jstring \<Rightarrow> jstring \<Rightarrow> int" where
  "unit_compare [] [] = 0"
| "unit_compare [] (y # ys) = -1"
| "unit_compare (x # xs) [] = 1"
| "unit_compare (x # xs) (y # ys) = (if x < y then -1 else if y < x then 1 else unit_compare xs ys)"

lemma unit_compare_sym: "unit_compare y x = - unit_compare x y"
  by (induction x y rule: unit_compare.induct) auto

lemma unit_compare_trans: "unit_compare x y \<le> 0 \<Longrightarrow> unit_compare y z \<le> 0 \<Longrightarrow> unit_compare x z \<le> 0"
proof (induction x arbitrary: y z)
  case Nil
  then show ?case by (cases z) auto
next
  case (Cons a x)
  then obtain b y' where y: "y = b # y'" by (cases y) auto
  with Cons.prems obtain c z' where z: "z = c # z'" by (cases z) auto
  show ?case using Cons.prems Cons.IH [of y' z'] by (simp add: y z split: if_splits)
qed

interpretation units: js_comparator unit_compare
proof
  show "sgn (unit_compare y x) = - sgn (unit_compare x y)" for x y
    by (simp add: unit_compare_sym [of x y])
qed (rule unit_compare_trans)

text \<open>The contract's facts with the order written out.\<close>

lemma js_sort_id: "js_comparator c \<Longrightarrow> sorted_wrt (\<lambda>x y. c x y \<le> 0) xs \<Longrightarrow> js_sort c xs = xs"
  by (simp add: js_comparator.js_sort_ordered_id js_comparator.ordered_def)

lemma js_sort_sorted: "js_comparator c \<Longrightarrow> sorted_wrt (\<lambda>x y. c x y \<le> 0) (js_sort c xs)"
  using js_comparator.ordered_js_sort [of c xs] by (simp add: js_comparator.ordered_def)

end
