(* ===== verification/SpanGraph.thy ===== *)
theory SpanGraph
  imports ApiTypes Collections JsSort
begin

text \<open>
  \<open>frontend/src/lib/spanGraph.ts\<close>: folding the spans of a trace into the nodes of a drawable
  graph, with \<open>depths\<close> of \<open>components/SpanGraph.tsx\<close>, which places the nodes in columns.
  \<open>ms\<close> is \<open>iso => new Date(iso).getTime()\<close>: date parsing outside the ISO format is up to the
  engine, so it is a parameter (\<open>None\<close> is \<open>NaN\<close>), and the theorems hold for every parser.
\<close>

section \<open>Types\<close>

record span_node =
  sn_id :: jstring
  sn_spanIds :: "jstring list"
  sn_service :: jstring
  sn_name :: jstring
  sn_count :: nat
  sn_failed :: bool
  sn_startMs :: jnum
  sn_endMs :: jnum
  sn_parentId :: "jstring option"
  sn_overlapping :: bool

record graph_edge =
  ge_from :: jstring
  ge_to :: jstring

record handoff =
  ho_from :: jstring
  ho_traceId :: jstring
  ho_spanId :: jstring

record span_graph =
  sg_nodes :: "span_node list"
  sg_edges :: "graph_edge list"
  sg_handoffs :: "handoff list"
  sg_rawSpans :: nat
  sg_handoffsUnknown :: bool

definition MAX_DRAWABLE_NODES :: nat where
  "MAX_DRAWABLE_NODES = 60"

section \<open>Folding\<close>

definition fold_key :: "span_summary \<Rightarrow> jstring" where
  "fold_key s = coalesce (ss_parent_span_id s) [] @ [0] @ ss_service_name s @ [0] @ ss_span_name s"

text \<open>\<open>starts[a] - starts[b]\<close> as a comparator result: \<open>NaN\<close> counts as 0.\<close>

definition num_cmp :: "jnum \<Rightarrow> jnum \<Rightarrow> rat" where
  "num_cmp a b = coalesce (jsub a b) 0"

fun adjacent_overlap :: "(jnum \<times> jnum) list \<Rightarrow> bool" where
  "adjacent_overlap (p # q # rs) \<longleftrightarrow> jlt (fst q) (snd p) \<or> adjacent_overlap (q # rs)"
| "adjacent_overlap _ \<longleftrightarrow> False"

definition ranges_overlap :: "(jnum \<times> jnum) list \<Rightarrow> bool" where
  "ranges_overlap rs = adjacent_overlap (js_sort (cmp_on fst num_cmp) rs)"

definition span_failed :: "span_summary \<Rightarrow> bool" where
  "span_failed s \<longleftrightarrow> ss_status_code s = js ''Error'' \<or> ss_status_code s = js ''STATUS_CODE_ERROR''"

definition span_start :: "(jstring \<Rightarrow> jnum) \<Rightarrow> span_summary \<Rightarrow> jnum" where
  "span_start ms s = ms (ss_timestamp s)"

definition span_end :: "(jstring \<Rightarrow> jnum) \<Rightarrow> span_summary \<Rightarrow> jnum" where
  "span_end ms s = jadd (span_start ms s) (Some (ss_duration_ms s))"

text \<open>The node of one group of spans; groups are never empty.\<close>

definition group_node :: "(jstring \<Rightarrow> jnum) \<Rightarrow> span_summary list \<Rightarrow> span_node" where
  "group_node ms g = \<lparr>
     sn_id = ss_span_id (hd g),
     sn_spanIds = map ss_span_id g,
     sn_service = ss_service_name (hd g),
     sn_name = ss_span_name (hd g),
     sn_count = length g,
     sn_failed = list_ex span_failed g,
     sn_startMs = jmin (map (span_start ms) g),
     sn_endMs = jmax (map (span_end ms) g),
     sn_parentId = None,
     sn_overlapping = ranges_overlap (map (\<lambda>s. (span_start ms s, span_end ms s)) g)\<rparr>"

definition fold_groups :: "span_summary list \<Rightarrow> span_summary list list" where
  "fold_groups spans = map_values (group_by fold_key spans)"

text \<open>\<open>nodes\<close> and \<open>nodeOfSpan\<close> after the folding loop.\<close>

definition folded_nodes :: "(jstring \<Rightarrow> jnum) \<Rightarrow> span_summary list \<Rightarrow> (jstring \<times> span_node) list" where
  "folded_nodes ms spans = map_of_entries sn_id (\<lambda>n. n) (map (group_node ms) (fold_groups spans))"

definition node_of_span :: "span_summary list \<Rightarrow> (jstring \<times> jstring) list" where
  "node_of_span spans = map_of_entries fst snd
     (concat (map (\<lambda>g. map (\<lambda>s. (ss_span_id s, ss_span_id (hd g))) g) (fold_groups spans)))"

section \<open>Edges\<close>

definition spans_by_id :: "span_summary list \<Rightarrow> (jstring \<times> span_summary) list" where
  "spans_by_id spans = map_of_entries ss_span_id (\<lambda>s. s) spans"

text \<open>The parent node an edge loop iteration finds for a node, if it does not \<open>continue\<close>.\<close>

definition parent_node :: "span_summary list \<Rightarrow> jstring \<Rightarrow> jstring option" where
  "parent_node spans nid =
     (case map_of (spans_by_id spans) nid of
        None \<Rightarrow> None
      | Some first \<Rightarrow>
          if \<not> truthy_str (ss_parent_span_id first) then None
          else (case map_of (node_of_span spans) (coalesce (ss_parent_span_id first) []) of
              None \<Rightarrow> None
            | Some p \<Rightarrow> if p = [] \<or> p = nid then None else Some p))"

definition edge_key :: "jstring \<Rightarrow> jstring \<Rightarrow> jstring" where
  "edge_key p n = p @ [0] @ n"

text \<open>One iteration over the node \<open>n\<close>: the linked node, and the edge set and list extended.\<close>

definition edge_step ::
  "span_summary list \<Rightarrow> span_node list \<times> jstring list \<times> graph_edge list \<Rightarrow> span_node
     \<Rightarrow> span_node list \<times> jstring list \<times> graph_edge list" where
  "edge_step spans st n = (case st of (ns, seen, es) \<Rightarrow>
     (case parent_node spans (sn_id n) of
        None \<Rightarrow> (ns @ [n], seen, es)
      | Some p \<Rightarrow>
          let n' = n\<lparr>sn_parentId := Some p\<rparr>; k = edge_key p (sn_id n)
          in if k \<in> set seen then (ns @ [n'], seen, es)
             else (ns @ [n'], seen @ [k], es @ [\<lparr>ge_from = p, ge_to = sn_id n\<rparr>])))"

definition span_handoffs :: "span_summary list \<Rightarrow> handoff list" where
  "span_handoffs spans = concat (map (\<lambda>s. concat (map (\<lambda>l.
       (case map_of (node_of_span spans) (ss_span_id s) of
          None \<Rightarrow> []
        | Some from \<Rightarrow> if from = [] then []
            else [\<lparr>ho_from = from, ho_traceId = sl_trace_id l, ho_spanId = sl_span_id l\<rparr>]))
     (coalesce (ss_links s) []))) spans)"

definition buildSpanGraph ::
  "(jstring \<Rightarrow> jnum) \<Rightarrow> span_summary list \<Rightarrow> jstring option \<Rightarrow> span_graph" where
  "buildSpanGraph ms spans linksRecordedSince =
     (let nodes = map_values (folded_nodes ms spans);
          (nodes', seen, edges) = foldl (edge_step spans) ([], [], []) nodes;
          handoffs = span_handoffs spans
      in \<lparr>sg_nodes = nodes', sg_edges = edges, sg_handoffs = handoffs,
          sg_rawSpans = length spans,
          sg_handoffsUnknown = (spans \<noteq> [] \<and> handoffs = [] \<and>
            (\<not> truthy_str linksRecordedSince \<or>
             jlt (jmax (map (\<lambda>s. ms (ss_timestamp s)) spans)) (ms (coalesce linksRecordedSince []))))\<rparr>)"

record graph_refusal =
  gr_reason :: jstring
  gr_fallback :: jstring

definition graphRefusal :: "span_graph \<Rightarrow> graph_refusal option" where
  "graphRefusal g =
     (if length (sg_nodes g) \<le> MAX_DRAWABLE_NODES then None
      else Some \<lparr>gr_reason = js ''This message has '' @ show_nat (length (sg_nodes g)) @
              js '' distinct steps even after folding repeats together, '' @
              js ''which usually means the producer is creating a span per item rather than per stage.'',
            gr_fallback = js ''The waterfall below shows every step in time order.''\<rparr>)"

section \<open>Column depths\<close>

definition nodes_by_id :: "span_node list \<Rightarrow> (jstring \<times> span_node) list" where
  "nodes_by_id nodes = map_of_entries sn_id (\<lambda>n. n) nodes"

function depth_walk ::
  "(jstring \<times> span_node) list \<Rightarrow> (jstring \<times> nat) list \<Rightarrow> jstring list \<Rightarrow> span_node
     \<Rightarrow> nat \<times> (jstring \<times> nat) list" where
  "depth_walk byId out guard n =
     (case map_of out (sn_id n) of
        Some d \<Rightarrow> (d, out)
      | None \<Rightarrow>
          if \<not> truthy_str (sn_parentId n) \<or> sn_id n \<in> set guard
          then (0, AList.update (sn_id n) 0 out)
          else (case map_of byId (coalesce (sn_parentId n) []) of
              None \<Rightarrow> (0, AList.update (sn_id n) 0 out)
            | Some p \<Rightarrow>
                let (d, out') = depth_walk byId out (sn_id n # guard) p
                in (d + 1, AList.update (sn_id n) (d + 1) out')))"
  by pat_completeness auto
termination
proof (relation "measures [\<lambda>(byId, out, guard, n). card (sn_id ` snd ` set byId - set guard),
    \<lambda>(byId, out, guard, n). if sn_id n \<in> sn_id ` snd ` set byId then 0 else 1]", goal_cases)
  case (2 byId out guard n p)
  let ?U = "sn_id ` snd ` set byId"
  have p: "sn_id p \<in> ?U"
    using 2(3) by (force dest: map_of_SomeD)
  show ?case
  proof (cases "sn_id n \<in> ?U")
    case True
    with 2(2) have "?U - set (sn_id n # guard) \<subset> ?U - set guard" by auto
    then have "card (?U - set (sn_id n # guard)) < card (?U - set guard)"
      by (intro psubset_card_mono) auto
    then show ?thesis by simp
  next
    case False
    then have "?U - set (sn_id n # guard) = ?U - set guard" by auto
    with p False show ?thesis by simp
  qed
qed simp

declare depth_walk.simps [simp del]

definition depths :: "span_node list \<Rightarrow> (jstring \<times> nat) list" where
  "depths nodes = foldl (\<lambda>out n. snd (depth_walk (nodes_by_id nodes) out [] n)) [] nodes"

section \<open>Well-formed traces\<close>

text \<open>
  Span ids are the non-empty hexadecimal strings of OpenTelemetry and are unique in a trace, and
  no name carries the NUL unit the code uses as its separator.
\<close>

definition nul_free :: "jstring \<Rightarrow> bool" where
  "nul_free s \<longleftrightarrow> 0 \<notin> set s"

definition clean_trace :: "span_summary list \<Rightarrow> bool" where
  "clean_trace spans \<longleftrightarrow> distinct (map ss_span_id spans) \<and>
     list_all (\<lambda>s. ss_span_id s \<noteq> [] \<and> nul_free (ss_span_id s) \<and> nul_free (coalesce (ss_parent_span_id s) [])
       \<and> nul_free (ss_service_name s) \<and> nul_free (ss_span_name s)) spans"

lemma clean_traceD:
  assumes "clean_trace spans"
  shows "distinct (map ss_span_id spans)"
    and "s \<in> set spans \<Longrightarrow> ss_span_id s \<noteq> []"
    and "s \<in> set spans \<Longrightarrow> nul_free (ss_span_id s)"
    and "s \<in> set spans \<Longrightarrow> nul_free (coalesce (ss_parent_span_id s) [])"
    and "s \<in> set spans \<Longrightarrow> nul_free (ss_service_name s)"
    and "s \<in> set spans \<Longrightarrow> nul_free (ss_span_name s)"
  using assms by (auto simp: clean_trace_def list_all_iff)

lemma nul_split_eq:
  "nul_free a \<Longrightarrow> nul_free b \<Longrightarrow> a @ 0 # x = b @ 0 # y \<longleftrightarrow> a = b \<and> x = y"
  by (induction a arbitrary: b) (case_tac b; auto simp: nul_free_def)+

lemma fold_key_eq_iff:
  assumes "clean_trace spans" "s \<in> set spans" "t \<in> set spans"
  shows "fold_key s = fold_key t \<longleftrightarrow>
    coalesce (ss_parent_span_id s) [] = coalesce (ss_parent_span_id t) []
    \<and> ss_service_name s = ss_service_name t \<and> ss_span_name s = ss_span_name t"
  using assms by (simp add: fold_key_def nul_split_eq clean_traceD)

section \<open>The groups\<close>

lemma mset_fold_groups: "mset (concat (fold_groups spans)) = mset spans"
  by (simp add: fold_groups_def mset_values_group_by)

lemma set_fold_groups: "set (concat (fold_groups spans)) = set spans"
  using mset_fold_groups by (metis mset_eq_setD)

lemma fold_groups_alt:
  "fold_groups spans = map (\<lambda>k. filter (\<lambda>s. fold_key s = k) spans) (dedupe (map fold_key spans))"
  by (simp add: fold_groups_def values_group_by)

lemma fold_group_nonempty: "g \<in> set (fold_groups spans) \<Longrightarrow> g \<noteq> []"
  by (auto simp: fold_groups_alt filter_empty_conv)

lemma fold_group_eq:
  "g \<in> set (fold_groups spans) \<Longrightarrow> s \<in> set g \<Longrightarrow> g = filter (\<lambda>t. fold_key t = fold_key s) spans"
  by (auto simp: fold_groups_alt)

lemma fold_group_sub: "g \<in> set (fold_groups spans) \<Longrightarrow> set g \<subseteq> set spans"
  by (auto simp: fold_groups_alt)

lemma fold_group_of: "s \<in> set spans \<Longrightarrow> filter (\<lambda>t. fold_key t = fold_key s) spans \<in> set (fold_groups spans)"
  by (auto simp: fold_groups_alt)

lemma length_fold_groups: "length (fold_groups spans) = card (fold_key ` set spans)"
  by (metis distinct_card distinct_dedupe fold_groups_alt length_map list.set_map set_dedupe)

lemma distinct_ids_concat:
  assumes "distinct (map ss_span_id spans)"
  shows "distinct (map ss_span_id (concat (fold_groups spans)))"
proof -
  have "mset (map ss_span_id (concat (fold_groups spans))) = mset (map ss_span_id spans)"
    by (simp only: mset_map mset_fold_groups)
  with assms show ?thesis by (metis mset_eq_imp_distinct_iff)
qed

lemma distinct_group_heads:
  "distinct (map ss_span_id spans) \<Longrightarrow> distinct (map (\<lambda>g. ss_span_id (hd g)) (fold_groups spans))"
  by (rule distinct_map_hd [OF distinct_ids_concat]) (auto dest: fold_group_nonempty)

lemma folded_nodes_eq:
  assumes "distinct (map ss_span_id spans)"
  shows "map_values (folded_nodes ms spans) = map (group_node ms) (fold_groups spans)"
proof -
  have "distinct (map sn_id (map (group_node ms) (fold_groups spans)))"
    using distinct_group_heads [OF assms] by (simp add: comp_def group_node_def)
  then show ?thesis
    unfolding folded_nodes_def map_values_def by (simp add: map_of_entries_distinct comp_def)
qed

lemma node_of_span_group:
  assumes "distinct (map ss_span_id spans)" "g \<in> set (fold_groups spans)" "s \<in> set g"
  shows "map_of (node_of_span spans) (ss_span_id s) = Some (ss_span_id (hd g))"
proof -
  let ?ps = "concat (map (\<lambda>g. map (\<lambda>s. (ss_span_id s, ss_span_id (hd g))) g) (fold_groups spans))"
  have "map fst ?ps = map ss_span_id (concat (fold_groups spans))"
    by (simp add: map_concat comp_def)
  then have d: "distinct (map fst ?ps)" using distinct_ids_concat [OF assms(1)] by simp
  have "node_of_span spans = ?ps"
    unfolding node_of_span_def by (simp add: map_of_entries_distinct [OF d])
  moreover have "(ss_span_id s, ss_span_id (hd g)) \<in> set ?ps" using assms(2,3) by auto
  ultimately show ?thesis using d by (simp add: map_of_is_SomeI)
qed

lemma keys_node_of_span: "set (map fst (node_of_span spans)) = ss_span_id ` set spans"
proof -
  have "set (map fst (node_of_span spans)) = ss_span_id ` set (concat (fold_groups spans))"
    unfolding node_of_span_def keys_map_of_entries by (auto simp: image_iff) blast
  then show ?thesis by (simp only: set_fold_groups)
qed

lemma node_of_span_dom:
  assumes "map_of (node_of_span spans) k = Some p"
  shows "k \<in> ss_span_id ` set spans"
proof -
  from assms have "k \<in> set (map fst (node_of_span spans))" by (force dest: map_of_SomeD)
  then show ?thesis by (simp only: keys_node_of_span)
qed

section \<open>The nodes and edges of the graph\<close>

definition link_node :: "span_summary list \<Rightarrow> span_node \<Rightarrow> span_node" where
  "link_node spans n = (case parent_node spans (sn_id n) of None \<Rightarrow> n | Some p \<Rightarrow> n\<lparr>sn_parentId := Some p\<rparr>)"

lemma link_node_fields [simp]:
  "sn_id (link_node spans n) = sn_id n" "sn_spanIds (link_node spans n) = sn_spanIds n"
  "sn_count (link_node spans n) = sn_count n" "sn_overlapping (link_node spans n) = sn_overlapping n"
  "sn_service (link_node spans n) = sn_service n" "sn_name (link_node spans n) = sn_name n"
  "sn_failed (link_node spans n) = sn_failed n"
  by (simp_all add: link_node_def split: option.splits)

lemma link_node_parent:
  "sn_parentId n = None \<Longrightarrow> sn_parentId (link_node spans n) = parent_node spans (sn_id n)"
  by (simp add: link_node_def split: option.splits)

definition edge_sig :: "graph_edge \<Rightarrow> jstring" where
  "edge_sig e = edge_key (ge_from e) (ge_to e)"

text \<open>The edge loop: every node is linked, and each key that occurs has exactly one edge.\<close>

definition parent_pairs :: "span_summary list \<Rightarrow> span_node list \<Rightarrow> (jstring \<times> jstring) set" where
  "parent_pairs spans nodes = {(p, sn_id n) | n p. n \<in> set nodes \<and> parent_node spans (sn_id n) = Some p}"

lemma parent_pairs_simps [simp]:
  "parent_pairs spans [] = {}"
  "parent_pairs spans (n # nodes) =
     (case parent_node spans (sn_id n) of None \<Rightarrow> {} | Some p \<Rightarrow> {(p, sn_id n)}) \<union> parent_pairs spans nodes"
  by (auto simp: parent_pairs_def split: option.splits)

definition edge_pair :: "graph_edge \<Rightarrow> jstring \<times> jstring" where
  "edge_pair e = (ge_from e, ge_to e)"

lemma edge_fold:
  assumes "foldl (edge_step spans) (ns, map edge_sig es, es) nodes = (ns', seen', es')"
    and "distinct (map edge_sig es)"
  shows "ns' = ns @ map (link_node spans) nodes \<and> distinct (map edge_sig es')
    \<and> edge_pair ` set es' \<subseteq> edge_pair ` set es \<union> parent_pairs spans nodes
    \<and> edge_sig ` set es' = edge_sig ` set es \<union> (\<lambda>(p, n). edge_key p n) ` parent_pairs spans nodes"
  using assms
proof (induction nodes arbitrary: ns es)
  case (Cons n nodes)
  define es1 where "es1 = (case parent_node spans (sn_id n) of None \<Rightarrow> es
     | Some p \<Rightarrow> if edge_key p (sn_id n) \<in> set (map edge_sig es) then es
                 else es @ [\<lparr>ge_from = p, ge_to = sn_id n\<rparr>])"
  have "edge_step spans (ns, map edge_sig es, es) n = (ns @ [link_node spans n], map edge_sig es1, es1)"
    by (auto simp: edge_step_def es1_def link_node_def edge_sig_def Let_def split: option.splits)
  then have prem: "foldl (edge_step spans) (ns @ [link_node spans n], map edge_sig es1, es1) nodes = (ns', seen', es')"
    using Cons.prems(1) by simp
  have d1: "distinct (map edge_sig es1)"
    using Cons.prems(2) by (simp add: es1_def split: option.splits) (simp add: edge_sig_def)
  have sub: "edge_pair ` set es1 \<subseteq> edge_pair ` set es \<union> parent_pairs spans [n]"
    by (auto simp: es1_def edge_pair_def split: option.splits)
  have sig: "edge_sig ` set es1 = edge_sig ` set es \<union> (\<lambda>(p, n). edge_key p n) ` parent_pairs spans [n]"
    by (auto simp: es1_def edge_sig_def split: option.splits)
  have pp: "parent_pairs spans (n # nodes) = parent_pairs spans [n] \<union> parent_pairs spans nodes"
    by (simp split: option.splits)
  from Cons.IH [OF prem d1] sub sig show ?case unfolding pp by (simp add: image_Un) blast
qed simp

lemma group_node_fields [simp]:
  "sn_id (group_node ms g) = ss_span_id (hd g)" "sn_spanIds (group_node ms g) = map ss_span_id g"
  "sn_count (group_node ms g) = length g" "sn_parentId (group_node ms g) = None"
  "sn_service (group_node ms g) = ss_service_name (hd g)" "sn_name (group_node ms g) = ss_span_name (hd g)"
  "sn_failed (group_node ms g) = list_ex span_failed g"
  "sn_overlapping (group_node ms g) = ranges_overlap (map (\<lambda>s. (span_start ms s, span_end ms s)) g)"
  by (simp_all add: group_node_def)

lemma buildSpanGraph_fields:
  "sg_nodes (buildSpanGraph ms spans since) = map (link_node spans) (map_values (folded_nodes ms spans))"
  "sg_rawSpans (buildSpanGraph ms spans since) = length spans"
  "sg_handoffs (buildSpanGraph ms spans since) = span_handoffs spans"
  "sg_handoffsUnknown (buildSpanGraph ms spans since) = (spans \<noteq> [] \<and> span_handoffs spans = [] \<and>
     (\<not> truthy_str since \<or> jlt (jmax (map (\<lambda>s. ms (ss_timestamp s)) spans)) (ms (coalesce since []))))"
proof -
  obtain ns sn es where f: "foldl (edge_step spans) ([], [], []) (map_values (folded_nodes ms spans)) = (ns, sn, es)"
    using prod_cases3 by blast
  with edge_fold [of spans "[]" "[]" "map_values (folded_nodes ms spans)" ns sn es]
  show "sg_nodes (buildSpanGraph ms spans since) = map (link_node spans) (map_values (folded_nodes ms spans))"
    by (simp add: buildSpanGraph_def Let_def)
  show "sg_rawSpans (buildSpanGraph ms spans since) = length spans"
    "sg_handoffs (buildSpanGraph ms spans since) = span_handoffs spans"
    "sg_handoffsUnknown (buildSpanGraph ms spans since) = (spans \<noteq> [] \<and> span_handoffs spans = [] \<and>
     (\<not> truthy_str since \<or> jlt (jmax (map (\<lambda>s. ms (ss_timestamp s)) spans)) (ms (coalesce since []))))"
    by (simp_all add: buildSpanGraph_def Let_def f)
qed

lemma graph_nodes_eq:
  "distinct (map ss_span_id spans) \<Longrightarrow>
     sg_nodes (buildSpanGraph ms spans since) = map (\<lambda>g. link_node spans (group_node ms g)) (fold_groups spans)"
  by (simp add: buildSpanGraph_fields folded_nodes_eq)

lemma graph_nodeE:
  assumes "distinct (map ss_span_id spans)" "n \<in> set (sg_nodes (buildSpanGraph ms spans since))"
  obtains g where "g \<in> set (fold_groups spans)" "n = link_node spans (group_node ms g)"
  using assms by (auto simp: graph_nodes_eq)

lemma graph_node_ids:
  "distinct (map ss_span_id spans) \<Longrightarrow> distinct (map sn_id (sg_nodes (buildSpanGraph ms spans since)))"
  using distinct_group_heads by (simp add: graph_nodes_eq comp_def)

lemma spans_by_id_get:
  assumes "distinct (map ss_span_id spans)" "s \<in> set spans"
  shows "map_of (spans_by_id spans) (ss_span_id s) = Some s"
proof -
  have "spans_by_id spans = map (\<lambda>s. (ss_span_id s, s)) spans"
    unfolding spans_by_id_def using assms(1) by (rule map_of_entries_distinct)
  with assms show ?thesis by (auto intro!: map_of_is_SomeI simp: comp_def)
qed

lemma node_of_span_eq_iff:
  assumes d: "distinct (map ss_span_id spans)" and g: "g \<in> set (fold_groups spans)"
  shows "map_of (node_of_span spans) k = Some (ss_span_id (hd g)) \<longleftrightarrow> k \<in> ss_span_id ` set g"
proof
  assume k: "map_of (node_of_span spans) k = Some (ss_span_id (hd g))"
  from node_of_span_dom [OF k] obtain s where s: "s \<in> set spans" "k = ss_span_id s" by auto
  then obtain h where h: "h \<in> set (fold_groups spans)" "s \<in> set h"
    using set_fold_groups [of spans] by auto
  from node_of_span_group [OF d h] k s have "ss_span_id (hd h) = ss_span_id (hd g)" by simp
  then have "h = g" using distinct_group_heads [OF d] g h(1)
    by (auto simp: distinct_map dest: inj_onD)
  with h s show "k \<in> ss_span_id ` set g" by auto
next
  assume "k \<in> ss_span_id ` set g"
  then show "map_of (node_of_span spans) k = Some (ss_span_id (hd g))"
    using node_of_span_group [OF d g] by auto
qed

lemma parent_node_group:
  assumes d: "distinct (map ss_span_id spans)" and g: "g \<in> set (fold_groups spans)"
  shows "parent_node spans (ss_span_id (hd g)) =
    (let q = coalesce (ss_parent_span_id (hd g)) [] in
     if q = [] then None else (case map_of (node_of_span spans) q of None \<Rightarrow> None
       | Some p \<Rightarrow> if p = [] \<or> p = ss_span_id (hd g) then None else Some p))"
proof -
  have "hd g \<in> set spans" using g fold_group_nonempty fold_group_sub by fastforce
  then have "map_of (spans_by_id spans) (ss_span_id (hd g)) = Some (hd g)"
    by (rule spans_by_id_get [OF d])
  then show ?thesis
    by (cases "ss_parent_span_id (hd g)") (auto simp: parent_node_def Let_def split: option.splits)
qed

text \<open>Parents are nodes, and a node is linked to the one its spans' common parent was folded into.\<close>

lemma node_of_span_value:
  assumes "distinct (map ss_span_id spans)" "map_of (node_of_span spans) k = Some p"
  shows "\<exists>g \<in> set (fold_groups spans). p = ss_span_id (hd g)"
proof -
  from node_of_span_dom [OF assms(2)] obtain s where s: "s \<in> set spans" "k = ss_span_id s" by auto
  then obtain g where "g \<in> set (fold_groups spans)" "s \<in> set g"
    using set_fold_groups [of spans] by auto
  with node_of_span_group [OF assms(1) this] s assms(2) show ?thesis by auto
qed

lemma group_head_clean:
  assumes "clean_trace spans" "g \<in> set (fold_groups spans)"
  shows "hd g \<in> set spans" "ss_span_id (hd g) \<noteq> []" "nul_free (ss_span_id (hd g))"
proof -
  show "hd g \<in> set spans" using assms(2) fold_group_nonempty fold_group_sub by fastforce
  then show "ss_span_id (hd g) \<noteq> []" "nul_free (ss_span_id (hd g))"
    using clean_traceD(2,3) [OF assms(1)] by auto
qed

lemma parent_node_group_iff:
  assumes c: "clean_trace spans" and g: "g \<in> set (fold_groups spans)" and h: "h \<in> set (fold_groups spans)"
    and s: "s \<in> set g"
  shows "parent_node spans (ss_span_id (hd g)) = Some (ss_span_id (hd h)) \<longleftrightarrow>
    coalesce (ss_parent_span_id s) [] \<in> ss_span_id ` set h \<and> ss_span_id (hd h) \<noteq> ss_span_id (hd g)"
proof -
  note d = clean_traceD(1) [OF c]
  have "fold_key s = fold_key (hd g)"
    using fold_group_eq [OF g s] hd_in_set [OF fold_group_nonempty [OF g]] by (metis (mono_tags, lifting) mem_Collect_eq set_filter)
  moreover have "s \<in> set spans" using s fold_group_sub [OF g] by auto
  ultimately have p: "coalesce (ss_parent_span_id s) [] = coalesce (ss_parent_span_id (hd g)) []"
    using fold_key_eq_iff [OF c] group_head_clean(1) [OF c g] by blast
  have "[] \<notin> ss_span_id ` set h" using clean_traceD(2) [OF c] fold_group_sub [OF h] by (metis imageE subsetD)
  then have "map_of (node_of_span spans) [] \<noteq> Some (ss_span_id (hd h))"
    using node_of_span_eq_iff [OF d h] by blast
  then show ?thesis
    using group_head_clean(2) [OF c h]
    unfolding parent_node_group [OF d g] p Let_def node_of_span_eq_iff [OF d h, symmetric]
    by (auto split: option.splits if_splits)
qed

section \<open>Properties of the graph\<close>

text \<open>C2: no span is lost or drawn twice by the folding: the span ids listed by the nodes are
  exactly the trace's span ids, each node's count is the number of ids it lists, and the counts
  add up to the raw span count the graph reports.\<close>

theorem span_graph_conserves_spans:
  assumes "distinct (map ss_span_id spans)"
  shows "mset (concat (map sn_spanIds (sg_nodes (buildSpanGraph ms spans since)))) = mset (map ss_span_id spans)
    \<and> (\<forall>n \<in> set (sg_nodes (buildSpanGraph ms spans since)). sn_count n = length (sn_spanIds n) \<and> sn_count n \<ge> 1)
    \<and> sum_list (map sn_count (sg_nodes (buildSpanGraph ms spans since))) = sg_rawSpans (buildSpanGraph ms spans since)"
proof -
  have "concat (map sn_spanIds (sg_nodes (buildSpanGraph ms spans since))) = map ss_span_id (concat (fold_groups spans))"
    by (simp add: graph_nodes_eq [OF assms] comp_def map_concat)
  then have m: "mset (concat (map sn_spanIds (sg_nodes (buildSpanGraph ms spans since)))) = mset (map ss_span_id spans)"
    by (simp only: mset_map mset_fold_groups)
  have "sum_list (map sn_count (sg_nodes (buildSpanGraph ms spans since))) = length (concat (fold_groups spans))"
    by (simp add: graph_nodes_eq [OF assms] comp_def length_concat)
  also have "\<dots> = length spans" by (metis mset_fold_groups size_mset)
  finally show ?thesis
    using fold_group_nonempty unfolding m
    by (auto simp: buildSpanGraph_fields(2) graph_nodes_eq [OF assms] Suc_le_eq)
qed

lemma graph_edges_eq:
  assumes "clean_trace spans"
  shows "distinct (sg_edges (buildSpanGraph ms spans since)) \<and>
    edge_pair ` set (sg_edges (buildSpanGraph ms spans since)) =
      parent_pairs spans (map_values (folded_nodes ms spans))"
proof -
  let ?nodes = "map_values (folded_nodes ms spans)"
  note d = clean_traceD(1) [OF assms]
  obtain ns sn es where f: "foldl (edge_step spans) ([], [], []) ?nodes = (ns, sn, es)"
    using prod_cases3 by blast
  then have es: "sg_edges (buildSpanGraph ms spans since) = es" by (simp add: buildSpanGraph_def Let_def)
  note ef = edge_fold [of spans "[]" "[]" ?nodes ns sn es, simplified, OF f]
  have clean: "nul_free p \<and> nul_free n" if "(p, n) \<in> parent_pairs spans ?nodes" for p n
  proof -
    from that obtain g where g: "g \<in> set (fold_groups spans)" "n = ss_span_id (hd g)"
      "parent_node spans n = Some p"
      by (auto simp: parent_pairs_def folded_nodes_eq [OF d])
    then have "\<exists>k. map_of (node_of_span spans) k = Some p"
      by (auto simp: parent_node_group [OF d] Let_def split: option.splits if_splits)
    then obtain h where "h \<in> set (fold_groups spans)" "p = ss_span_id (hd h)"
      using node_of_span_value [OF d] by blast
    with g group_head_clean(3) [OF assms] show ?thesis by auto
  qed
  have "parent_pairs spans ?nodes \<subseteq> edge_pair ` set es"
  proof (rule subrelI)
    fix p n assume pn: "(p, n) \<in> parent_pairs spans ?nodes"
    then have "edge_key p n \<in> edge_sig ` set es" using ef by force
    then obtain e where e: "e \<in> set es" "edge_key p n = edge_key (ge_from e) (ge_to e)"
      by (auto simp: edge_sig_def)
    then have "(ge_from e, ge_to e) \<in> parent_pairs spans ?nodes" using ef by (auto simp: edge_pair_def)
    with clean pn e(2) have "(p, n) = edge_pair e" by (simp add: edge_key_def nul_split_eq edge_pair_def)
    with e(1) show "(p, n) \<in> edge_pair ` set es" by blast
  qed
  with ef es show ?thesis by (auto simp: distinct_map)
qed

text \<open>C3: two spans are folded into the same node exactly when they share the parent, the service
  and the name: the same work, from the same caller, done again.\<close>

theorem span_graph_folds_repetitions:
  assumes "clean_trace spans" and "s \<in> set spans" and "t \<in> set spans"
  shows "(\<exists>n \<in> set (sg_nodes (buildSpanGraph ms spans since)).
      ss_span_id s \<in> set (sn_spanIds n) \<and> ss_span_id t \<in> set (sn_spanIds n)) \<longleftrightarrow>
    coalesce (ss_parent_span_id s) [] = coalesce (ss_parent_span_id t) []
    \<and> ss_service_name s = ss_service_name t \<and> ss_span_name s = ss_span_name t"
proof -
  note d = clean_traceD(1) [OF assms(1)]
  have inj: "u = v" if "ss_span_id u = ss_span_id v" "u \<in> set spans" "v \<in> set spans" for u v
    using d that by (auto simp: distinct_map dest: inj_onD)
  have "(\<exists>n \<in> set (sg_nodes (buildSpanGraph ms spans since)).
      ss_span_id s \<in> set (sn_spanIds n) \<and> ss_span_id t \<in> set (sn_spanIds n))
    \<longleftrightarrow> (\<exists>g \<in> set (fold_groups spans). s \<in> set g \<and> t \<in> set g)"
    using assms(2,3) fold_group_sub inj by (auto simp: graph_nodes_eq [OF d]; blast)
  also have "\<dots> \<longleftrightarrow> fold_key s = fold_key t"
    using assms(2,3) fold_group_of [OF assms(2)] by (auto simp: fold_groups_alt)
  finally show ?thesis using fold_key_eq_iff [OF assms] by simp
qed

lemma adjacent_overlap_sorted:
  assumes "sorted_wrt (\<lambda>p q. fst p \<le> fst q) rs"
  shows "adjacent_overlap (map (map_prod Some Some) rs) \<longleftrightarrow>
    (\<exists>i j. i < j \<and> j < length rs \<and> fst (rs ! j) < snd (rs ! i))"
  using assms
proof (induction rs)
  case (Cons p rs)
  show ?case
  proof (cases rs)
    case (Cons q qs)
    have "(\<exists>i j. i < j \<and> j < length (p # rs) \<and> fst ((p # rs) ! j) < snd ((p # rs) ! i)) \<longleftrightarrow>
        (\<exists>j < length rs. fst (rs ! j) < snd p) \<or> (\<exists>i j. i < j \<and> j < length rs \<and> fst (rs ! j) < snd (rs ! i))"
      (is "?L = ?R")
    proof
      assume ?L
      then obtain i j where ij: "i < j" "j < length (p # rs)" "fst ((p # rs) ! j) < snd ((p # rs) ! i)" by blast
      then show ?R by (cases i; cases j) auto
    next
      assume ?R
      then show ?L
      proof
        assume "\<exists>j < length rs. fst (rs ! j) < snd p"
        then obtain j where "j < length rs" "fst (rs ! j) < snd p" by blast
        then show ?L by (intro exI [of _ 0] exI [of _ "Suc j"]) simp
      next
        assume "\<exists>i j. i < j \<and> j < length rs \<and> fst (rs ! j) < snd (rs ! i)"
        then obtain i j where "i < j" "j < length rs" "fst (rs ! j) < snd (rs ! i)" by blast
        then show ?L by (intro exI [of _ "Suc i"] exI [of _ "Suc j"]) simp
      qed
    qed
    moreover have "(\<exists>j < length rs. fst (rs ! j) < snd p) \<longleftrightarrow> fst q < snd p"
    proof
      assume "\<exists>j < length rs. fst (rs ! j) < snd p"
      then obtain j where j: "j < length rs" "fst (rs ! j) < snd p" by blast
      have "fst q \<le> fst (rs ! j)"
        using Cons.prems Cons j(1) by (cases j) auto
      with j(2) show "fst q < snd p" by simp
    next
      assume "fst q < snd p"
      with Cons show "\<exists>j < length rs. fst (rs ! j) < snd p" by (intro exI [of _ 0]) simp
    qed
    ultimately show ?thesis using Cons.IH Cons.prems Cons by simp
  qed simp
qed simp

lemma js_comparator_num_cmp_on: "js_sort (cmp_on fst num_cmp) (map (map_prod Some Some) rs) =
    map (map_prod Some Some) (js_sort (cmp_by fst) (rs :: (rat \<times> rat) list))"
proof -
  have "js_insert (cmp_on fst num_cmp) (map_prod Some Some p) (map (map_prod Some Some) qs) =
      map (map_prod Some Some) (js_insert (cmp_by fst) p qs)" for p and qs :: "(rat \<times> rat) list"
    by (induction qs) (auto simp: cmp_on_def cmp_by_def num_cmp_def)
  then show ?thesis by (induction rs) simp_all
qed

text \<open>Whether two positions hold a related pair depends on the multiset only.\<close>

lemma pair_positions_mset:
  "(\<exists>i j. i < length xs \<and> j < length xs \<and> i \<noteq> j \<and> P (xs ! i) (xs ! j)) \<longleftrightarrow>
   (\<exists>x y M. mset xs = add_mset x (add_mset y M) \<and> P x y)"
proof
  assume "\<exists>i j. i < length xs \<and> j < length xs \<and> i \<noteq> j \<and> P (xs ! i) (xs ! j)"
  then obtain i j where ij: "i < length xs" "j < length xs" "i \<noteq> j" and P: "P (xs ! i) (xs ! j)" by blast
  have "mset xs = image_mset (nth xs) (mset_set {..<length xs})"
    by (metis map_nth mset_map mset_upt atLeast_upt lessThan_atLeast0)
  also have "{..<length xs} = insert i (insert j ({..<length xs} - {i, j}))" using ij by auto
  finally have "mset xs = add_mset (xs ! i) (add_mset (xs ! j) (image_mset (nth xs) (mset_set ({..<length xs} - {i, j}))))"
    using ij(3) by (simp add: mset_set.insert)
  with P show "\<exists>x y M. mset xs = add_mset x (add_mset y M) \<and> P x y" by blast
next
  assume "\<exists>x y M. mset xs = add_mset x (add_mset y M) \<and> P x y"
  then obtain x y M where m: "mset xs = add_mset x (add_mset y M)" and P: "P x y" by blast
  then have "x \<in> set xs" by (metis set_mset_mset union_single_eq_member)
  then obtain as bs where xs: "xs = as @ x # bs" by (auto simp: in_set_conv_decomp)
  with m have "y \<in> set as \<or> y \<in> set bs" by (metis Un_iff add_mset_remove_trivial mset_append
        mset.simps(2) set_append set_mset_mset union_mset_add_mset_right union_single_eq_member)
  then show "\<exists>i j. i < length xs \<and> j < length xs \<and> i \<noteq> j \<and> P (xs ! i) (xs ! j)"
  proof
    assume "y \<in> set as"
    then obtain k where "k < length as" "as ! k = y" by (auto simp: in_set_conv_nth)
    with P xs show ?thesis by (intro exI [of _ "length as"] exI [of _ k]) (auto simp: nth_append)
  next
    assume "y \<in> set bs"
    then obtain k where "k < length bs" "bs ! k = y" by (auto simp: in_set_conv_nth)
    with P xs show ?thesis
      by (intro exI [of _ "length as"] exI [of _ "length as + Suc k"]) (auto simp: nth_append)
  qed
qed

text \<open>The linear check over the sorted copy finds exactly the pairwise overlaps.\<close>

lemma ranges_overlap_iff:
  assumes "\<forall>p \<in> set rs. fst p < snd p"
  shows "ranges_overlap (map (map_prod Some Some) rs) \<longleftrightarrow>
    (\<exists>i j. i < length rs \<and> j < length rs \<and> i \<noteq> j \<and> fst (rs ! i) < snd (rs ! j) \<and> fst (rs ! j) < snd (rs ! i))"
    (is "_ \<longleftrightarrow> ?P rs")
proof -
  let ?ss = "js_sort (cmp_by fst) rs"
  have sorted: "sorted_wrt (\<lambda>p q. fst p \<le> fst q) ?ss"
    using by_key.ordered_js_sort [of fst rs] by (simp add: by_key.ordered_def cmp_by_def)
  have pos: "fst p < snd p" if "p \<in> set ?ss" for p using that assms by simp
  have "ranges_overlap (map (map_prod Some Some) rs) \<longleftrightarrow>
      (\<exists>i j. i < j \<and> j < length ?ss \<and> fst (?ss ! j) < snd (?ss ! i))"
    by (simp add: ranges_overlap_def js_comparator_num_cmp_on adjacent_overlap_sorted [OF sorted])
  also have "\<dots> \<longleftrightarrow> ?P ?ss"
  proof
    assume "\<exists>i j. i < j \<and> j < length ?ss \<and> fst (?ss ! j) < snd (?ss ! i)"
    then obtain i j where ij: "i < j" "j < length ?ss" "fst (?ss ! j) < snd (?ss ! i)" by blast
    have "fst (?ss ! i) \<le> fst (?ss ! j)" using sorted ij by (auto simp: sorted_wrt_iff_nth_less)
    also have "\<dots> < snd (?ss ! j)" using pos [OF nth_mem] ij(2) by simp
    finally show "?P ?ss" using ij by (intro exI [of _ i] exI [of _ j]) auto
  next
    assume "?P ?ss"
    then obtain i j where "i < length ?ss" "j < length ?ss" "i \<noteq> j"
      "fst (?ss ! i) < snd (?ss ! j)" "fst (?ss ! j) < snd (?ss ! i)" by blast
    then show "\<exists>i j. i < j \<and> j < length ?ss \<and> fst (?ss ! j) < snd (?ss ! i)"
      by (metis linorder_neqE_nat)
  qed
  also have "\<dots> \<longleftrightarrow> ?P rs"
    unfolding pair_positions_mset [of _ "\<lambda>x y. fst x < snd y \<and> fst y < snd x"] by simp
  finally show ?thesis .
qed

lemma map_nth_eq_distinct_pair:
  "distinct g \<Longrightarrow> (\<exists>i j. i < length g \<and> j < length g \<and> i \<noteq> j \<and> P (g ! i) (g ! j)) \<longleftrightarrow>
     (\<exists>s \<in> set g. \<exists>t \<in> set g. s \<noteq> t \<and> P s t)"
proof
  assume "distinct g" and "\<exists>i j. i < length g \<and> j < length g \<and> i \<noteq> j \<and> P (g ! i) (g ! j)"
  then obtain i j where "i < length g" "j < length g" "g ! i \<noteq> g ! j" "P (g ! i) (g ! j)"
    by (auto simp: nth_eq_iff_index_eq)
  then show "\<exists>s \<in> set g. \<exists>t \<in> set g. s \<noteq> t \<and> P s t" by (meson nth_mem)
next
  assume "\<exists>s \<in> set g. \<exists>t \<in> set g. s \<noteq> t \<and> P s t"
  then show "\<exists>i j. i < length g \<and> j < length g \<and> i \<noteq> j \<and> P (g ! i) (g ! j)"
    by (metis in_set_conv_nth)
qed

text \<open>a node says its spans overlapped in time exactly when two different spans folded into it
  were running at the same moment; the linear scan over the sorted copy misses no pair.\<close>

theorem span_graph_overlap_flag:
  assumes "clean_trace spans"
    and "\<forall>s \<in> set spans. ms (ss_timestamp s) \<noteq> None \<and> 0 < ss_duration_ms s"
    and "n \<in> set (sg_nodes (buildSpanGraph ms spans since))"
  shows "sn_overlapping n \<longleftrightarrow> (\<exists>s \<in> set spans. \<exists>t \<in> set spans. s \<noteq> t
    \<and> ss_span_id s \<in> set (sn_spanIds n) \<and> ss_span_id t \<in> set (sn_spanIds n)
    \<and> jlt (span_start ms s) (span_end ms t) \<and> jlt (span_start ms t) (span_end ms s))"
proof -
  note d = clean_traceD(1) [OF assms(1)]
  obtain g where g: "g \<in> set (fold_groups spans)" and n: "n = link_node spans (group_node ms g)"
    using assms(3) by (rule graph_nodeE [OF d])
  have ids: "s \<in> set g \<longleftrightarrow> s \<in> set spans \<and> ss_span_id s \<in> set (sn_spanIds n)" for s
    using fold_group_sub [OF g] d by (auto simp: n distinct_map dest: inj_onD)
  define iv where "iv s = (the (ms (ss_timestamp s)), the (ms (ss_timestamp s)) + ss_duration_ms s)" for s :: span_summary
  have iv: "(span_start ms s, span_end ms s) = map_prod Some Some (iv s)" if "s \<in> set g" for s
    using assms(2) fold_group_sub [OF g] that by (fastforce simp: span_start_def span_end_def iv_def)
  have "distinct g" using distinct_ids_concat [OF d] g by (auto simp: distinct_map distinct_concat_iff)
  note dg = map_nth_eq_distinct_pair [OF this, of "\<lambda>s t. fst (iv s) < snd (iv t) \<and> fst (iv t) < snd (iv s)"]
  have "sn_overlapping n \<longleftrightarrow> ranges_overlap (map (map_prod Some Some) (map iv g))"
    using iv by (simp add: n comp_def cong: map_cong)
  also have "\<dots> \<longleftrightarrow> (\<exists>i j. i < length g \<and> j < length g \<and> i \<noteq> j
      \<and> fst (iv (g ! i)) < snd (iv (g ! j)) \<and> fst (iv (g ! j)) < snd (iv (g ! i)))"
  proof -
    have "\<forall>p \<in> set (map iv g). fst p < snd p"
      using assms(2) fold_group_sub [OF g] by (auto simp: iv_def)
    from ranges_overlap_iff [OF this] show ?thesis by (simp cong: conj_cong)
  qed
  also have "\<dots> \<longleftrightarrow> (\<exists>s \<in> set g. \<exists>t \<in> set g. s \<noteq> t \<and> fst (iv s) < snd (iv t) \<and> fst (iv t) < snd (iv s))"
    by (rule dg)
  also have "\<dots> \<longleftrightarrow> (\<exists>s \<in> set g. \<exists>t \<in> set g. s \<noteq> t
      \<and> jlt (span_start ms s) (span_end ms t) \<and> jlt (span_start ms t) (span_end ms s))"
  proof (intro bex_cong conj_cong refl)
    have iv': "span_start ms s = Some (fst (iv s)) \<and> span_end ms s = Some (snd (iv s))" if "s \<in> set g" for s
      using iv [OF that] by (simp add: map_prod_def split_beta)
    fix s t assume st: "s \<in> set g" "t \<in> set g"
    show "fst (iv s) < snd (iv t) \<longleftrightarrow> jlt (span_start ms s) (span_end ms t)"
      and "fst (iv t) < snd (iv s) \<longleftrightarrow> jlt (span_start ms t) (span_end ms s)"
      using iv' [OF st(1)] iv' [OF st(2)] by simp_all
  qed
  also have "\<dots> \<longleftrightarrow> (\<exists>s. (s \<in> set spans \<and> ss_span_id s \<in> set (sn_spanIds n)) \<and>
      (\<exists>t. (t \<in> set spans \<and> ss_span_id t \<in> set (sn_spanIds n)) \<and> s \<noteq> t
      \<and> jlt (span_start ms s) (span_end ms t) \<and> jlt (span_start ms t) (span_end ms s)))"
    by (simp only: Bex_def ids)
  finally show ?thesis by (simp only: Bex_def conj_assoc) (intro arg_cong [where f = Ex] ext, iprover)
qed

lemma parent_pairs_folded:
  assumes "distinct (map ss_span_id spans)"
  shows "(p, n) \<in> parent_pairs spans (map_values (folded_nodes ms spans)) \<longleftrightarrow>
    (\<exists>g \<in> set (fold_groups spans). n = ss_span_id (hd g) \<and> parent_node spans n = Some p)" (is "?L \<longleftrightarrow> ?R")
proof
  assume ?R
  then show ?L unfolding parent_pairs_def folded_nodes_eq [OF assms] mem_Collect_eq
    by (metis group_node_fields(1) image_eqI list.set_map)
qed (auto simp: parent_pairs_def folded_nodes_eq [OF assms])

lemma edge_pair_image: "(p, n) \<in> edge_pair ` E \<longleftrightarrow> \<lparr>ge_from = p, ge_to = n\<rparr> \<in> E"
proof -
  have "edge_pair e = (p, n) \<longleftrightarrow> e = \<lparr>ge_from = p, ge_to = n\<rparr>" for e
    by (cases e) (auto simp: edge_pair_def)
  then show ?thesis by (metis image_iff)
qed

lemma graph_node_parent:
  assumes "clean_trace spans" "g \<in> set (fold_groups spans)"
  shows "sn_parentId (link_node spans (group_node ms g)) = parent_node spans (ss_span_id (hd g))"
  by (simp add: link_node_parent)

text \<open>C1: the edges are exactly the handovers between different steps: each edge is listed once,
  runs between two nodes of the graph, and there is an edge from one node to another exactly when
  some span folded into the second has its parent folded into the first; that first node is also
  the one the second records as its parent.\<close>

theorem span_graph_edges:
  assumes "clean_trace spans"
  shows "distinct (sg_edges (buildSpanGraph ms spans since))
    \<and> (\<forall>e \<in> set (sg_edges (buildSpanGraph ms spans since)). \<exists>m \<in> set (sg_nodes (buildSpanGraph ms spans since)).
        \<exists>n \<in> set (sg_nodes (buildSpanGraph ms spans since)). m \<noteq> n \<and> e = \<lparr>ge_from = sn_id m, ge_to = sn_id n\<rparr>)
    \<and> (\<forall>m \<in> set (sg_nodes (buildSpanGraph ms spans since)). \<forall>n \<in> set (sg_nodes (buildSpanGraph ms spans since)).
        (\<lparr>ge_from = sn_id m, ge_to = sn_id n\<rparr> \<in> set (sg_edges (buildSpanGraph ms spans since)) \<longleftrightarrow> sn_parentId n = Some (sn_id m))
        \<and> (sn_parentId n = Some (sn_id m) \<longleftrightarrow> m \<noteq> n \<and> (\<exists>s \<in> set spans. ss_span_id s \<in> set (sn_spanIds n)
              \<and> coalesce (ss_parent_span_id s) [] \<in> set (sn_spanIds m))))"
    (is "_ \<and> ?ends \<and> ?iff")
proof (intro conjI)
  let ?G = "buildSpanGraph ms spans since"
  note d = clean_traceD(1) [OF assms]
  note ge = graph_edges_eq [OF assms, of ms since]
  from ge show "distinct (sg_edges ?G)" by blast
  have edge: "\<lparr>ge_from = p, ge_to = n\<rparr> \<in> set (sg_edges ?G) \<longleftrightarrow>
      (\<exists>g \<in> set (fold_groups spans). n = ss_span_id (hd g) \<and> parent_node spans n = Some p)" for p n
  proof -
    have "\<lparr>ge_from = p, ge_to = n\<rparr> \<in> set (sg_edges ?G) \<longleftrightarrow> (p, n) \<in> edge_pair ` set (sg_edges ?G)"
      by (rule edge_pair_image [symmetric])
    also have "\<dots> \<longleftrightarrow> (\<exists>g \<in> set (fold_groups spans). n = ss_span_id (hd g) \<and> parent_node spans n = Some p)"
      using ge parent_pairs_folded [OF d] by blast
    finally show ?thesis .
  qed
  show ?ends
  proof
    fix e assume e: "e \<in> set (sg_edges ?G)"
    obtain p n where pn: "e = \<lparr>ge_from = p, ge_to = n\<rparr>" by (cases e) auto
    with e edge obtain g where g: "g \<in> set (fold_groups spans)" "n = ss_span_id (hd g)"
      "parent_node spans n = Some p" by auto
    then have "\<exists>k. map_of (node_of_span spans) k = Some p" and ne: "p \<noteq> n"
      by (auto simp: parent_node_group [OF d] Let_def split: option.splits if_splits)
    then obtain h where "h \<in> set (fold_groups spans)" "p = ss_span_id (hd h)"
      using node_of_span_value [OF d] by blast
    with g pn ne show "\<exists>m \<in> set (sg_nodes ?G). \<exists>n \<in> set (sg_nodes ?G). m \<noteq> n \<and>
        e = \<lparr>ge_from = sn_id m, ge_to = sn_id n\<rparr>"
      by (intro bexI [of _ "link_node spans (group_node ms h)"] bexI [of _ "link_node spans (group_node ms g)"])
        (auto simp: graph_nodes_eq [OF d] dest: arg_cong [of _ _ sn_id])
  qed
  show ?iff
  proof (intro ballI)
    fix m n assume "m \<in> set (sg_nodes ?G)" "n \<in> set (sg_nodes ?G)"
    then obtain h g where h: "h \<in> set (fold_groups spans)" "m = link_node spans (group_node ms h)"
      and g: "g \<in> set (fold_groups spans)" "n = link_node spans (group_node ms g)"
      by (meson graph_nodeE [OF d])
    have par: "sn_parentId n = Some (sn_id m) \<longleftrightarrow> parent_node spans (sn_id n) = Some (sn_id m)"
      using graph_node_parent [OF assms g(1)] by (simp add: g(2))
    have mn: "m \<noteq> n \<longleftrightarrow> ss_span_id (hd h) \<noteq> ss_span_id (hd g)"
    proof -
      have "ss_span_id (hd h) = ss_span_id (hd g) \<Longrightarrow> h = g"
        using distinct_group_heads [OF d] h(1) g(1) by (auto simp: distinct_map dest: inj_onD)
      then show ?thesis using h g by (auto dest: arg_cong [of _ _ sn_id])
    qed
    have "(\<exists>s \<in> set spans. ss_span_id s \<in> set (sn_spanIds n) \<and> coalesce (ss_parent_span_id s) [] \<in> set (sn_spanIds m))
        \<longleftrightarrow> (\<exists>s \<in> set g. coalesce (ss_parent_span_id s) [] \<in> ss_span_id ` set h)"
      using fold_group_sub [OF g(1)] d by (auto simp: g(2) h(2) distinct_map dest: inj_onD)
    then show "(\<lparr>ge_from = sn_id m, ge_to = sn_id n\<rparr> \<in> set (sg_edges ?G) \<longleftrightarrow> sn_parentId n = Some (sn_id m))
        \<and> (sn_parentId n = Some (sn_id m) \<longleftrightarrow> m \<noteq> n \<and> (\<exists>s \<in> set spans. ss_span_id s \<in> set (sn_spanIds n)
              \<and> coalesce (ss_parent_span_id s) [] \<in> set (sn_spanIds m)))"
      using edge par mn parent_node_group_iff [OF assms g(1) h(1)] fold_group_nonempty [OF g(1)] g h
      by (simp, metis hd_in_set)
  qed
qed

section \<open>Size, handoffs and depths\<close>

text \<open>the size of the drawing is the number of different steps, not of spans: the graph has one
  node per combination of parent, service and name, and drawing is refused exactly when there are
  more than sixty of those.\<close>

theorem span_graph_size_and_refusal:
  assumes "clean_trace spans"
  shows "length (sg_nodes (buildSpanGraph ms spans since)) =
      card ((\<lambda>s. (coalesce (ss_parent_span_id s) [], ss_service_name s, ss_span_name s)) ` set spans)
    \<and> (graphRefusal (buildSpanGraph ms spans since) = None \<longleftrightarrow>
      card ((\<lambda>s. (coalesce (ss_parent_span_id s) [], ss_service_name s, ss_span_name s)) ` set spans) \<le> 60)"
proof -
  let ?step = "\<lambda>s. (coalesce (ss_parent_span_id s) [], ss_service_name s, ss_span_name s)"
  have "card (fold_key ` set spans) = card (?step ` set spans)"
    using fold_key_eq_iff [OF assms] by (intro card_image_same_kernel ballI) simp_all
  then have "length (sg_nodes (buildSpanGraph ms spans since)) = card (?step ` set spans)"
    by (simp add: graph_nodes_eq [OF clean_traceD(1) [OF assms]] length_fold_groups)
  then show ?thesis by (simp add: graphRefusal_def MAX_DRAWABLE_NODES_def)
qed

lemma span_handoffs_found:
  assumes "clean_trace spans" "set ts \<subseteq> set spans"
  shows "concat (map (\<lambda>s. concat (map (\<lambda>l.
       (case map_of (node_of_span spans) (ss_span_id s) of
          None \<Rightarrow> []
        | Some from \<Rightarrow> if from = [] then []
            else [\<lparr>ho_from = from, ho_traceId = sl_trace_id l, ho_spanId = sl_span_id l\<rparr>]))
     (coalesce (ss_links s) []))) ts) =
   concat (map (\<lambda>s. map (\<lambda>l. \<lparr>ho_from = the (map_of (node_of_span spans) (ss_span_id s)),
       ho_traceId = sl_trace_id l, ho_spanId = sl_span_id l\<rparr>) (coalesce (ss_links s) [])) ts)"
proof -
  note d = clean_traceD(1) [OF assms(1)]
  have "\<exists>p. map_of (node_of_span spans) (ss_span_id s) = Some p \<and> p \<noteq> []" if "s \<in> set ts" for s
  proof -
    from that assms(2) have "s \<in> set spans" by auto
    then obtain g where g: "g \<in> set (fold_groups spans)" "s \<in> set g"
      using set_fold_groups [of spans] by auto
    from node_of_span_group [OF d g] group_head_clean(2) [OF assms(1) g(1)] show ?thesis by simp
  qed
  then show ?thesis by (intro arg_cong [where f = concat] map_cong refl) fastforce
qed

text \<open>every link a span recorded becomes one handoff, in order, drawn from the node that span
  was folded into; and the graph calls its handoffs unknown exactly when it has spans, none of them
  carries a link, and the links were not being recorded yet (or never) when the newest span began.\<close>

theorem span_graph_handoffs:
  assumes "clean_trace spans"
  shows "map (\<lambda>h. (ho_traceId h, ho_spanId h)) (sg_handoffs (buildSpanGraph ms spans since)) =
      concat (map (\<lambda>s. map (\<lambda>l. (sl_trace_id l, sl_span_id l)) (coalesce (ss_links s) [])) spans)
    \<and> (\<forall>h \<in> set (sg_handoffs (buildSpanGraph ms spans since)).
        \<exists>n \<in> set (sg_nodes (buildSpanGraph ms spans since)). \<exists>s \<in> set spans. \<exists>l \<in> set (coalesce (ss_links s) []).
          ho_from h = sn_id n \<and> ss_span_id s \<in> set (sn_spanIds n)
          \<and> ho_traceId h = sl_trace_id l \<and> ho_spanId h = sl_span_id l)
    \<and> (sg_handoffsUnknown (buildSpanGraph ms spans since) \<longleftrightarrow>
        spans \<noteq> [] \<and> (\<forall>s \<in> set spans. coalesce (ss_links s) [] = [])
        \<and> (\<not> truthy_str since \<or> jlt (jmax (map (\<lambda>s. ms (ss_timestamp s)) spans)) (ms (coalesce since []))))"
    (is "?order \<and> ?attributed \<and> ?unknown")
proof (intro conjI)
  let ?from = "\<lambda>s. the (map_of (node_of_span spans) (ss_span_id s))"
  note d = clean_traceD(1) [OF assms]
  have h: "span_handoffs spans = concat (map (\<lambda>s. map (\<lambda>l. \<lparr>ho_from = ?from s,
       ho_traceId = sl_trace_id l, ho_spanId = sl_span_id l\<rparr>) (coalesce (ss_links s) [])) spans)"
    unfolding span_handoffs_def by (rule span_handoffs_found [OF assms subset_refl])
  show ?order by (simp add: buildSpanGraph_fields h map_concat comp_def)
  show ?unknown by (auto simp: buildSpanGraph_fields h)
  show ?attributed
  proof
    fix x assume "x \<in> set (sg_handoffs (buildSpanGraph ms spans since))"
    then obtain s l where s: "s \<in> set spans" "l \<in> set (coalesce (ss_links s) [])"
      "x = \<lparr>ho_from = ?from s, ho_traceId = sl_trace_id l, ho_spanId = sl_span_id l\<rparr>"
      by (auto simp: buildSpanGraph_fields h)
    then obtain g where g: "g \<in> set (fold_groups spans)" "s \<in> set g"
      using set_fold_groups [of spans] by auto
    from node_of_span_group [OF d g] s g
    show "\<exists>n \<in> set (sg_nodes (buildSpanGraph ms spans since)). \<exists>s \<in> set spans. \<exists>l \<in> set (coalesce (ss_links s) []).
          ho_from x = sn_id n \<and> ss_span_id s \<in> set (sn_spanIds n)
          \<and> ho_traceId x = sl_trace_id l \<and> ho_spanId x = sl_span_id l"
      by (intro bexI [of _ "link_node spans (group_node ms g)"] bexI [of _ s] bexI [of _ l])
        (auto simp: graph_nodes_eq [OF d])
  qed
qed

text \<open>The length of a node's chain of parents inside the drawing.\<close>

inductive node_depth :: "span_node list \<Rightarrow> span_node \<Rightarrow> nat \<Rightarrow> bool" for nodes where
  root: "n \<in> set nodes \<Longrightarrow> \<forall>m \<in> set nodes. sn_parentId n \<noteq> Some (sn_id m) \<Longrightarrow> node_depth nodes n 0"
| child: "n \<in> set nodes \<Longrightarrow> m \<in> set nodes \<Longrightarrow> sn_parentId n = Some (sn_id m) \<Longrightarrow> node_depth nodes m d
    \<Longrightarrow> node_depth nodes n (Suc d)"

inductive_cases node_depthE: "node_depth nodes n d"

lemma node_depth_unique:
  "node_depth nodes n d \<Longrightarrow> distinct (map sn_id nodes) \<Longrightarrow> node_depth nodes n e \<Longrightarrow> d = e"
proof (induction arbitrary: e rule: node_depth.induct)
  case (root n)
  from root(4) show ?case using root(2) by (cases rule: node_depth.cases) auto
next
  case (child n m d)
  from child.prems(2) show ?case
  proof (cases rule: node_depth.cases)
    case (child m' d')
    then have "m' = m" using child.hyps child.prems(1) by (auto simp: distinct_map dest: inj_onD)
    with child child.IH child.prems(1) show ?thesis by auto
  qed (use child.hyps in auto)
qed

lemma nodes_by_id_get:
  assumes "distinct (map sn_id nodes)"
  shows "map_of (nodes_by_id nodes) k = Some m \<longleftrightarrow> m \<in> set nodes \<and> sn_id m = k"
proof -
  have e: "nodes_by_id nodes = map (\<lambda>n. (sn_id n, n)) nodes"
    unfolding nodes_by_id_def using assms by (rule map_of_entries_distinct)
  have "distinct (map fst (map (\<lambda>n. (sn_id n, n)) nodes))" using assms by (simp add: comp_def)
  from map_of_eq_Some_iff [OF this] show ?thesis unfolding e by auto
qed

definition depths_ok :: "span_node list \<Rightarrow> (jstring \<times> nat) list \<Rightarrow> bool" where
  "depths_ok nodes out \<longleftrightarrow> (\<forall>n \<in> set nodes. \<forall>d. map_of out (sn_id n) = Some d \<longrightarrow> node_depth nodes n d)"

lemma depths_ok_update:
  "distinct (map sn_id nodes) \<Longrightarrow> depths_ok nodes out \<Longrightarrow> n \<in> set nodes \<Longrightarrow> node_depth nodes n d \<Longrightarrow>
     depths_ok nodes (AList.update (sn_id n) d out)"
  by (auto simp: depths_ok_def update_conv distinct_map dest: inj_onD)

lemma depth_walk_correct:
  fixes rank :: "span_node \<Rightarrow> nat"
  assumes d: "distinct (map sn_id nodes)" and ne: "\<forall>n \<in> set nodes. sn_id n \<noteq> []"
    and acyclic: "\<forall>n \<in> set nodes. \<forall>m \<in> set nodes. sn_parentId n = Some (sn_id m) \<longrightarrow> rank m < rank n"
  shows "n \<in> set nodes \<Longrightarrow> depths_ok nodes out \<Longrightarrow>
    \<forall>m \<in> set nodes. sn_id m \<in> set guard \<longrightarrow> rank n < rank m \<Longrightarrow>
    depth_walk (nodes_by_id nodes) out guard n = (k, out') \<Longrightarrow>
    node_depth nodes n k \<and> depths_ok nodes out' \<and> map_of out' (sn_id n) = Some k
      \<and> dom (map_of out) \<subseteq> dom (map_of out')"
proof (induction "rank n" arbitrary: n out guard k out' rule: less_induct)
  case less
  show ?case
  proof (cases "map_of out (sn_id n)")
    case (Some j)
    with less.prems show ?thesis by (auto simp: depth_walk.simps [of _ _ _ n] depths_ok_def)
  next
    case None
    have ng: "sn_id n \<notin> set guard" using less.prems(1,3) by auto
    show ?thesis
    proof (cases "\<exists>m \<in> set nodes. sn_parentId n = Some (sn_id m)")
      case True
      then obtain m where m: "m \<in> set nodes" "sn_parentId n = Some (sn_id m)" by blast
      then have get: "map_of (nodes_by_id nodes) (sn_id m) = Some m" by (simp add: nodes_by_id_get [OF d])
      have lt: "rank m < rank n" using acyclic less.prems(1) m by blast
      obtain j o2 where w: "depth_walk (nodes_by_id nodes) out (sn_id n # guard) m = (j, o2)" by fastforce
      have "\<forall>x \<in> set nodes. sn_id x \<in> set (sn_id n # guard) \<longrightarrow> rank m < rank x"
      proof (intro ballI impI)
        fix x assume x: "x \<in> set nodes" "sn_id x \<in> set (sn_id n # guard)"
        then have "x = n \<or> sn_id x \<in> set guard"
          using d less.prems(1) by (auto simp: distinct_map dest: inj_onD)
        with lt less.prems(3) x(1) show "rank m < rank x" by (auto dest: less_trans)
      qed
      from less.hyps [OF lt m(1) less.prems(2) this w]
      have ih: "node_depth nodes m j" "depths_ok nodes o2" "dom (map_of out) \<subseteq> dom (map_of o2)" by auto
      have eq: "k = Suc j" "out' = AList.update (sn_id n) (Suc j) o2"
        using less.prems(4) None ng m w get ne by (auto simp: depth_walk.simps [of _ _ _ n])
      have "node_depth nodes n (Suc j)" using ih(1) less.prems(1) m by (intro node_depth.child)
      with eq ih less.prems(1) d show ?thesis by (auto simp: depths_ok_update update_conv)
    next
      case False
      then have "map_of (nodes_by_id nodes) (coalesce (sn_parentId n) []) = None \<or> \<not> truthy_str (sn_parentId n)"
        using nodes_by_id_get [OF d] by (cases "sn_parentId n") (auto simp: not_Some_eq [symmetric] simp del: not_Some_eq)
      then have eq: "k = 0" "out' = AList.update (sn_id n) 0 out"
        using less.prems(4) None by (auto simp: depth_walk.simps [of _ _ _ n] split: if_splits)
      have "node_depth nodes n 0" using False less.prems(1) by (intro node_depth.root) auto
      with eq less.prems(1,2) d show ?thesis by (auto simp: depths_ok_update update_conv)
    qed
  qed
qed

lemma depths_fold:
  fixes rank :: "span_node \<Rightarrow> nat"
  assumes "distinct (map sn_id nodes)" and "\<forall>n \<in> set nodes. sn_id n \<noteq> []"
    and "\<forall>n \<in> set nodes. \<forall>m \<in> set nodes. sn_parentId n = Some (sn_id m) \<longrightarrow> rank m < rank n"
  shows "set ns \<subseteq> set nodes \<Longrightarrow> depths_ok nodes out \<Longrightarrow>
    out' = foldl (\<lambda>out n. snd (depth_walk (nodes_by_id nodes) out [] n)) out ns \<Longrightarrow>
    depths_ok nodes out' \<and> sn_id ` set ns \<union> dom (map_of out) \<subseteq> dom (map_of out')"
proof (induction ns arbitrary: out)
  case (Cons n ns)
  obtain k o2 where w: "depth_walk (nodes_by_id nodes) out [] n = (k, o2)" by fastforce
  have "depths_ok nodes o2 \<and> map_of o2 (sn_id n) = Some k \<and> dom (map_of out) \<subseteq> dom (map_of o2)"
    using depth_walk_correct [OF assms _ _ _ w] Cons.prems by auto
  then have o2: "depths_ok nodes o2" "sn_id n \<in> dom (map_of o2)" "dom (map_of out) \<subseteq> dom (map_of o2)" by auto
  have "depths_ok nodes out' \<and> sn_id ` set ns \<union> dom (map_of o2) \<subseteq> dom (map_of out')"
    using Cons.prems o2(1) w by (intro Cons.IH) simp_all
  with o2 show ?case unfolding list.set image_insert by blast
qed auto

text \<open>the column of every node is one more than its parent's, and a node with no parent in the
  drawing is in column 0, whatever the order in which the nodes are visited, as long as the parent
  links have no cycle.\<close>

theorem depths_are_columns:
  fixes rank :: "span_node \<Rightarrow> nat"
  assumes "distinct (map sn_id nodes)" and "\<forall>n \<in> set nodes. sn_id n \<noteq> []"
    and "\<forall>n \<in> set nodes. \<forall>m \<in> set nodes. sn_parentId n = Some (sn_id m) \<longrightarrow> rank m < rank n"
    and "n \<in> set nodes"
  shows "((\<forall>m \<in> set nodes. sn_parentId n \<noteq> Some (sn_id m)) \<longrightarrow> map_of (depths nodes) (sn_id n) = Some 0)
    \<and> (\<forall>m \<in> set nodes. sn_parentId n = Some (sn_id m) \<longrightarrow>
        (\<exists>d. map_of (depths nodes) (sn_id m) = Some d \<and> map_of (depths nodes) (sn_id n) = Some (d + 1)))"
proof -
  have ok: "depths_ok nodes (depths nodes)" "sn_id ` set nodes \<subseteq> dom (map_of (depths nodes))"
    using depths_fold [OF assms(1-3), of nodes "[]" "depths nodes"]
    by (auto simp: depths_def depths_ok_def)
  have get: "\<exists>d. map_of (depths nodes) (sn_id m) = Some d \<and> node_depth nodes m d" if "m \<in> set nodes" for m
    using ok that by (force simp: depths_ok_def)
  note unique = node_depth_unique [OF _ assms(1)]
  obtain e where e: "map_of (depths nodes) (sn_id n) = Some e" "node_depth nodes n e" using get [OF assms(4)] by blast
  show ?thesis
  proof (intro conjI impI ballI)
    assume "\<forall>m \<in> set nodes. sn_parentId n \<noteq> Some (sn_id m)"
    then have "node_depth nodes n 0" using assms(4) by (rule node_depth.root [rotated])
    from unique [OF this e(2)] e(1) show "map_of (depths nodes) (sn_id n) = Some 0" by simp
  next
    fix m assume m: "m \<in> set nodes" "sn_parentId n = Some (sn_id m)"
    from get [OF m(1)] obtain d where d: "map_of (depths nodes) (sn_id m) = Some d" "node_depth nodes m d" by blast
    from unique [OF node_depth.child [OF assms(4) m d(2)] e(2)] e(1) d(1)
    show "\<exists>d. map_of (depths nodes) (sn_id m) = Some d \<and> map_of (depths nodes) (sn_id n) = Some (d + 1)" by simp
  qed
qed

section \<open>Examples\<close>

definition dec_ms :: "jstring \<Rightarrow> jnum" where
  "dec_ms s = Some (of_nat (read_nat s))"

text \<open>A poller, two overlapping reads it started, and a link from the second read.\<close>

definition demo_trace :: "span_summary list" where
  "demo_trace = [
     plain_span (js ''a'') None (js ''poller'') (js ''poll'') (js ''10'') 50,
     plain_span (js ''b'') (Some (js ''a'')) (js ''reader'') (js ''read'') (js ''12'') 20,
     (plain_span (js ''c'') (Some (js ''a'')) (js ''reader'') (js ''read'') (js ''20'') 5)
       \<lparr>ss_links := Some [\<lparr>sl_trace_id = js ''t2'', sl_span_id = js ''z''\<rparr>]\<rparr>]"

definition demo_nodes :: "span_node list" where
  "demo_nodes = [
     \<lparr>sn_id = js ''a'', sn_spanIds = [js ''a''], sn_service = js ''poller'', sn_name = js ''poll'', sn_count = 1,
       sn_failed = False, sn_startMs = Some 10, sn_endMs = Some 60, sn_parentId = None, sn_overlapping = False\<rparr>,
     \<lparr>sn_id = js ''b'', sn_spanIds = [js ''b'', js ''c''], sn_service = js ''reader'', sn_name = js ''read'', sn_count = 2,
       sn_failed = False, sn_startMs = Some 12, sn_endMs = Some 32, sn_parentId = Some (js ''a''), sn_overlapping = True\<rparr>]"

lemma demo_graph: "buildSpanGraph dec_ms demo_trace None = \<lparr>sg_nodes = demo_nodes,
    sg_edges = [\<lparr>ge_from = js ''a'', ge_to = js ''b''\<rparr>],
    sg_handoffs = [\<lparr>ho_from = js ''b'', ho_traceId = js ''t2'', ho_spanId = js ''z''\<rparr>],
    sg_rawSpans = 3, sg_handoffsUnknown = False\<rparr>"
  by code_simp

lemma demo_trace_clean: "clean_trace demo_trace"
  by code_simp

lemma span_graph_conserves_spans_ex:
  "distinct (map ss_span_id demo_trace) \<and> sg_rawSpans (buildSpanGraph dec_ms demo_trace None) = 3
    \<and> sum_list (map sn_count (sg_nodes (buildSpanGraph dec_ms demo_trace None))) = sg_rawSpans (buildSpanGraph dec_ms demo_trace None)"
proof -
  have d: "distinct (map ss_span_id demo_trace)" by code_simp
  have "sg_rawSpans (buildSpanGraph dec_ms demo_trace None) = 3" by (simp add: demo_graph)
  with d span_graph_conserves_spans [OF d, of dec_ms None] show ?thesis by blast
qed

lemma span_graph_folds_repetitions_ex:
  "clean_trace demo_trace \<and> (\<exists>n \<in> set (sg_nodes (buildSpanGraph dec_ms demo_trace None)).
     js ''b'' \<in> set (sn_spanIds n) \<and> js ''c'' \<in> set (sn_spanIds n))"
proof -
  have "demo_trace ! 1 \<in> set demo_trace" "demo_trace ! 2 \<in> set demo_trace" by code_simp+
  moreover have "ss_span_id (demo_trace ! 1) = js ''b''" "ss_span_id (demo_trace ! 2) = js ''c''"
    "coalesce (ss_parent_span_id (demo_trace ! 1)) [] = coalesce (ss_parent_span_id (demo_trace ! 2)) []
     \<and> ss_service_name (demo_trace ! 1) = ss_service_name (demo_trace ! 2)
     \<and> ss_span_name (demo_trace ! 1) = ss_span_name (demo_trace ! 2)" by code_simp+
  ultimately show ?thesis
    using span_graph_folds_repetitions [OF demo_trace_clean, of "demo_trace ! 1" "demo_trace ! 2" dec_ms None]
      demo_trace_clean by simp
qed

lemma span_graph_overlap_flag_ex: "sn_overlapping (demo_nodes ! 1)"
proof -
  have t: "\<forall>s \<in> set demo_trace. dec_ms (ss_timestamp s) \<noteq> None \<and> 0 < ss_duration_ms s" by code_simp
  have n: "demo_nodes ! 1 \<in> set (sg_nodes (buildSpanGraph dec_ms demo_trace None))"
    by (simp add: demo_graph demo_nodes_def)
  have in_trace: "demo_trace ! 1 \<in> set demo_trace" "demo_trace ! 2 \<in> set demo_trace" by code_simp+
  have "demo_trace ! 1 \<noteq> demo_trace ! 2
    \<and> ss_span_id (demo_trace ! 1) \<in> set (sn_spanIds (demo_nodes ! 1))
    \<and> ss_span_id (demo_trace ! 2) \<in> set (sn_spanIds (demo_nodes ! 1))
    \<and> jlt (span_start dec_ms (demo_trace ! 1)) (span_end dec_ms (demo_trace ! 2))
    \<and> jlt (span_start dec_ms (demo_trace ! 2)) (span_end dec_ms (demo_trace ! 1))"
    by code_simp
  with span_graph_overlap_flag [OF demo_trace_clean t n] in_trace show ?thesis by blast
qed

lemma span_graph_edges_ex:
  "clean_trace demo_trace \<and> distinct (sg_edges (buildSpanGraph dec_ms demo_trace None))
    \<and> sg_edges (buildSpanGraph dec_ms demo_trace None) = [\<lparr>ge_from = js ''a'', ge_to = js ''b''\<rparr>]"
  using span_graph_edges [OF demo_trace_clean, of dec_ms None] demo_trace_clean by (simp add: demo_graph)

lemma span_graph_size_and_refusal_ex:
  "card ((\<lambda>s. (coalesce (ss_parent_span_id s) [], ss_service_name s, ss_span_name s)) ` set demo_trace) = 2
    \<and> graphRefusal (buildSpanGraph dec_ms demo_trace None) = None"
  using span_graph_size_and_refusal [OF demo_trace_clean, of dec_ms None] by (simp add: demo_graph demo_nodes_def)

lemma span_graph_handoffs_ex:
  "clean_trace demo_trace \<and> concat (map (\<lambda>s. map (\<lambda>l. (sl_trace_id l, sl_span_id l)) (coalesce (ss_links s) [])) demo_trace)
     = [(js ''t2'', js ''z'')]"
  using span_graph_handoffs [OF demo_trace_clean, of dec_ms None] demo_trace_clean by (simp add: demo_graph)

lemma depths_are_columns_ex:
  "map_of (depths demo_nodes) (js ''a'') = Some 0 \<and> map_of (depths demo_nodes) (js ''b'') = Some 1"
proof -
  let ?rank = "\<lambda>n. sn_count n"
  have h: "distinct (map sn_id demo_nodes)" "\<forall>n \<in> set demo_nodes. sn_id n \<noteq> []"
    "\<forall>n \<in> set demo_nodes. \<forall>m \<in> set demo_nodes. sn_parentId n = Some (sn_id m) \<longrightarrow> ?rank m < ?rank n"
    by code_simp+
  have n: "demo_nodes ! 0 \<in> set demo_nodes" "demo_nodes ! 1 \<in> set demo_nodes" by code_simp+
  have a: "sn_id (demo_nodes ! 0) = js ''a''" "\<forall>m \<in> set demo_nodes. sn_parentId (demo_nodes ! 0) \<noteq> Some (sn_id m)"
    and b: "sn_id (demo_nodes ! 1) = js ''b''" "sn_parentId (demo_nodes ! 1) = Some (sn_id (demo_nodes ! 0))"
    by code_simp+
  show ?thesis
    using depths_are_columns [OF h n(1)] depths_are_columns [OF h n(2)] a b n by force
qed

end
