(* ===== verification/TraceTree.thy ===== *)
theory TraceTree
  imports SpanGraph
begin

text \<open>
  \<open>components/TraceWaterfall.tsx\<close>: the waterfall's rows (\<open>orderSpans\<close>, \<open>hops\<close>, the errors-only
  filter) and \<open>lib/spanSelection.ts\<close>, which picks the row a trace opens on.

  \<open>walk\<close> of the source recurses over the children of a span; \<open>order_walk\<close> is that recursion with
  its call stack made explicit: the head of the stack is the call about to run, the calls of the
  \<open>for\<close> loops still to come are below it.
\<close>

section \<open>Rows in tree order\<close>

definition by_start :: "(jstring \<Rightarrow> jnum) \<Rightarrow> span_summary \<Rightarrow> span_summary \<Rightarrow> rat" where
  "by_start ms a b = num_cmp (ms (ss_timestamp a)) (ms (ss_timestamp b))"

definition has_parent :: "span_summary list \<Rightarrow> span_summary \<Rightarrow> bool" where
  "has_parent spans s \<longleftrightarrow> truthy_str (ss_parent_span_id s)
     \<and> coalesce (ss_parent_span_id s) [] \<in> ss_span_id ` set spans
     \<and> ss_parent_span_id s \<noteq> Some (ss_span_id s)"

text \<open>The loop that files every span under its parent or among the roots.\<close>

definition file_span ::
  "span_summary list \<Rightarrow> (jstring \<times> span_summary list) list \<times> span_summary list \<Rightarrow> span_summary
     \<Rightarrow> (jstring \<times> span_summary list) list \<times> span_summary list" where
  "file_span spans st s = (case st of (children, roots) \<Rightarrow>
     if has_parent spans s then (map_push children (coalesce (ss_parent_span_id s) []) s, roots)
     else (children, roots @ [s]))"

definition tree_children :: "span_summary list \<Rightarrow> (jstring \<times> span_summary list) list" where
  "tree_children spans = fst (foldl (file_span spans) ([], []) spans)"

definition tree_roots :: "span_summary list \<Rightarrow> span_summary list" where
  "tree_roots spans = snd (foldl (file_span spans) ([], []) spans)"

definition children_at ::
  "(jstring \<Rightarrow> jnum) \<Rightarrow> (jstring \<times> span_summary list) list \<Rightarrow> jstring \<Rightarrow> span_summary list" where
  "children_at ms children i = js_sort (by_start ms) (coalesce (map_of children i) [])"

lemma children_at_sub:
  "set (children_at ms children i) \<subseteq> \<Union> (set ` snd ` set children)"
proof -
  have "set (coalesce (map_of children i) []) \<subseteq> \<Union> (set ` snd ` set children)"
    by (cases "map_of children i") (force dest: map_of_SomeD)+
  then show ?thesis by (auto simp: children_at_def)
qed

lemma diff_snoc_mono: "V \<subseteq> U \<Longrightarrow> V - set (xs @ [x]) \<subseteq> U - set xs - {x}"
  by auto

function order_walk ::
  "(jstring \<Rightarrow> jnum) \<Rightarrow> (jstring \<times> span_summary list) list \<Rightarrow> jstring list \<Rightarrow> (span_summary \<times> nat) list
     \<Rightarrow> (span_summary \<times> nat) list \<Rightarrow> jstring list \<times> (span_summary \<times> nat) list" where
  "order_walk ms children seen out [] = (seen, out)"
| "order_walk ms children seen out ((s, d) # stack) =
     (if ss_span_id s \<in> set seen then order_walk ms children seen out stack
      else order_walk ms children (seen @ [ss_span_id s]) (out @ [(s, d)])
        (map (\<lambda>c. (c, d + 1)) (children_at ms children (ss_span_id s)) @ stack))"
  by pat_completeness auto
termination
proof (relation "measures [\<lambda>(ms, children, seen, out, stack).
      card (ss_span_id ` (\<Union> (set ` snd ` set children) \<union> fst ` set stack) - set seen),
    \<lambda>(ms, children, seen, out, stack). length stack]", goal_cases)
  case (2 ms children seen out s d stack)
  have "card (ss_span_id ` (\<Union> (set ` snd ` set children) \<union> fst ` set stack) - set seen) \<le>
      card (ss_span_id ` (\<Union> (set ` snd ` set children) \<union> fst ` set ((s, d) # stack)) - set seen)"
    by (intro card_mono) auto
  then show ?case by auto
next
  case (3 ms children seen out s d stack)
  let ?U = "ss_span_id ` (\<Union> (set ` snd ` set children) \<union> fst ` set ((s, d) # stack))"
  let ?V = "ss_span_id ` (\<Union> (set ` snd ` set children) \<union>
    fst ` set (map (\<lambda>c. (c, d + 1)) (children_at ms children (ss_span_id s)) @ stack))"
  have "?V \<subseteq> ?U" using children_at_sub [of ms children "ss_span_id s"] by (auto simp: image_image)
  then have "?V - set (seen @ [ss_span_id s]) \<subseteq> ?U - set seen - {ss_span_id s}"
    by (rule diff_snoc_mono)
  then have "card (?V - set (seen @ [ss_span_id s])) \<le> card (?U - set seen - {ss_span_id s})"
    by (intro card_mono) auto
  also have "\<dots> < card (?U - set seen)" using 3 by (intro card_Diff1_less) auto
  finally show ?case by simp
qed simp

declare order_walk.simps [simp del]

definition orderSpans :: "(jstring \<Rightarrow> jnum) \<Rightarrow> span_summary list \<Rightarrow> (span_summary \<times> nat) list" where
  "orderSpans ms spans =
     (let (seen, out) = order_walk ms (tree_children spans) [] []
            (map (\<lambda>r. (r, 0)) (js_sort (by_start ms) (tree_roots spans)))
      in out @ map (\<lambda>s. (s, 0)) (filter (\<lambda>s. ss_span_id s \<notin> set seen) spans))"

section \<open>What the walk keeps\<close>

text \<open>The key siblings share: the parent's id, or \<open>None\<close> for the roots.\<close>

definition sibling_key :: "span_summary list \<Rightarrow> span_summary \<Rightarrow> jstring option" where
  "sibling_key spans s = (if has_parent spans s then ss_parent_span_id s else None)"

lemma file_span_fold:
  "foldl (file_span spans) ([], []) xs =
     (group_by (\<lambda>s. coalesce (ss_parent_span_id s) []) (filter (has_parent spans) xs),
      filter (\<lambda>s. \<not> has_parent spans s) xs)"
  by (induction xs rule: rev_induct) (auto simp: file_span_def group_by_def)

lemma tree_roots_eq: "tree_roots spans = filter (\<lambda>s. \<not> has_parent spans s) spans"
  by (simp add: tree_roots_def file_span_fold)

lemma children_at_eq:
  "children_at ms (tree_children spans) i =
     js_sort (by_start ms) (filter (\<lambda>s. has_parent spans s \<and> ss_parent_span_id s = Some i) spans)"
proof -
  have *: "has_parent spans s \<and> coalesce (ss_parent_span_id s) [] = i \<longleftrightarrow>
      has_parent spans s \<and> ss_parent_span_id s = Some i" for s
    by (cases "ss_parent_span_id s") (auto simp: has_parent_def)
  show ?thesis
    unfolding children_at_def tree_children_def file_span_fold fst_conv coalesce_group_by
    by (simp add: *)
qed

lemma in_children_at:
  "c \<in> set (children_at ms (tree_children spans) i) \<longleftrightarrow>
     c \<in> set spans \<and> has_parent spans c \<and> ss_parent_span_id c = Some i"
  by (auto simp: children_at_eq)

text \<open>
  A row is placed when it is a root at depth 0, or its parent is an earlier row one level up and
  every row since then is deeper than that parent: the row lies inside its parent's block.
\<close>

definition placed :: "span_summary list \<Rightarrow> (span_summary \<times> nat) list \<Rightarrow> span_summary \<times> nat \<Rightarrow> bool" where
  "placed spans rows e \<longleftrightarrow>
     (if has_parent spans (fst e)
      then \<exists>i < length rows. ss_parent_span_id (fst e) = Some (ss_span_id (fst (rows ! i)))
             \<and> snd e = Suc (snd (rows ! i)) \<and> (\<forall>k. i < k \<and> k < length rows \<longrightarrow> snd (rows ! i) < snd (rows ! k))
      else snd e = 0)"

lemma placed_snoc: "placed spans rows e \<Longrightarrow> snd e \<le> snd x \<Longrightarrow> placed spans (rows @ [x]) e"
  by (auto simp: placed_def nth_append less_Suc_eq split: if_splits)

lemma placed_child:
  "has_parent spans c \<Longrightarrow> ss_parent_span_id c = Some (ss_span_id (fst x)) \<Longrightarrow> placed spans (rows @ [x]) (c, Suc (snd x))"
  by (auto simp: placed_def intro!: exI [of _ "length rows"])

definition siblings_ordered :: "(jstring \<Rightarrow> jnum) \<Rightarrow> span_summary list \<Rightarrow> span_summary list \<Rightarrow> bool" where
  "siblings_ordered ms spans =
     sorted_wrt (\<lambda>a b. sibling_key spans a = sibling_key spans b \<longrightarrow> by_start ms a b \<le> 0)"

definition row_ids :: "(span_summary \<times> nat) list \<Rightarrow> jstring option set" where
  "row_ids rows = (\<lambda>e. Some (ss_span_id (fst e))) ` set rows"

lemma row_ids_simps [simp]:
  "row_ids [] = {}" "row_ids (xs @ ys) = row_ids xs \<union> row_ids ys"
  "row_ids (e # xs) = insert (Some (ss_span_id (fst e))) (row_ids xs)"
  by (auto simp: row_ids_def)

text \<open>
  The walk's invariant over the rows written and the stack: no row twice; parents are written
  before their children are stacked; the stack goes down in depth; every row, written or waiting,
  is placed; siblings are in start order; and no root or child of a written row is forgotten.
\<close>

definition walk_inv ::
  "(jstring \<Rightarrow> jnum) \<Rightarrow> span_summary list \<Rightarrow> (span_summary \<times> nat) list \<Rightarrow> (span_summary \<times> nat) list \<Rightarrow> bool" where
  "walk_inv ms spans out stack \<longleftrightarrow>
     distinct (map (\<lambda>e. ss_span_id (fst e)) out)
     \<and> (\<forall>e \<in> set out \<union> set stack. fst e \<in> set spans)
     \<and> (\<forall>e \<in> set out \<union> set stack. has_parent spans (fst e) \<longrightarrow> ss_parent_span_id (fst e) \<in> row_ids out)
     \<and> sorted_wrt (\<lambda>a b. snd b \<le> snd a) stack
     \<and> (\<forall>e \<in> set stack. placed spans out e)
     \<and> (\<forall>j < length out. placed spans (take j out) (out ! j))
     \<and> siblings_ordered ms spans (map fst out @ map fst stack)
     \<and> (\<forall>s \<in> set spans. \<not> has_parent spans s \<or> ss_parent_span_id s \<in> row_ids out
          \<longrightarrow> s \<in> fst ` (set out \<union> set stack))"

lemma walk_invD:
  assumes "walk_inv ms spans out stack"
  shows "distinct (map (\<lambda>e. ss_span_id (fst e)) out)"
    and "e \<in> set out \<union> set stack \<Longrightarrow> fst e \<in> set spans"
    and "e \<in> set out \<union> set stack \<Longrightarrow> has_parent spans (fst e) \<Longrightarrow> ss_parent_span_id (fst e) \<in> row_ids out"
    and "sorted_wrt (\<lambda>a b. snd b \<le> snd a) stack"
    and "e \<in> set stack \<Longrightarrow> placed spans out e"
    and "j < length out \<Longrightarrow> placed spans (take j out) (out ! j)"
    and "siblings_ordered ms spans (map fst out @ map fst stack)"
    and "s \<in> set spans \<Longrightarrow> \<not> has_parent spans s \<or> ss_parent_span_id s \<in> row_ids out
      \<Longrightarrow> s \<in> fst ` (set out \<union> set stack)"
  using assms unfolding walk_inv_def by blast+

lemma ordered_by_start:
  assumes "\<forall>s \<in> set spans. ms (ss_timestamp s) \<noteq> None" "set xs \<subseteq> set spans"
  shows "sorted_wrt (\<lambda>a b. by_start ms a b \<le> 0) (js_sort (by_start ms) xs)"
proof -
  let ?key = "\<lambda>s. the (ms (ss_timestamp s))"
  have eq: "by_start ms a b = cmp_by ?key a b" if ab: "a \<in> set xs" "b \<in> set xs" for a b
  proof -
    obtain x y where "ms (ss_timestamp a) = Some x" "ms (ss_timestamp b) = Some y"
      using ab assms by blast
    then show ?thesis by (simp add: by_start_def num_cmp_def cmp_by_def)
  qed
  then have "js_sort (by_start ms) xs = js_sort (cmp_by ?key) xs" by (intro js_sort_cong) blast
  moreover have "sorted_wrt (\<lambda>a b. cmp_by ?key a b \<le> 0) (js_sort (cmp_by ?key) xs)"
    using by_key.ordered_js_sort [of ?key xs] by (simp add: by_key.ordered_def)
  ultimately show ?thesis using eq by (metis (mono_tags, lifting) set_js_sort sorted_wrt_mono_rel)
qed

lemma walk_inv_skip:
  assumes inv: "walk_inv ms spans out (e # stack)" and dist: "distinct (map ss_span_id spans)"
    and old: "Some (ss_span_id (fst e)) \<in> row_ids out"
  shows "walk_inv ms spans out stack"
  unfolding walk_inv_def
proof (intro conjI ballI allI impI)
  obtain x where x: "x \<in> set out" "ss_span_id (fst x) = ss_span_id (fst e)" using old by (auto simp: row_ids_def)
  have "fst x \<in> set spans" "fst e \<in> set spans" using walk_invD(2) [OF inv] x(1) by auto
  with x(2) dist have xe: "fst x = fst e" by (auto simp: distinct_map dest: inj_onD)
  show "siblings_ordered ms spans (map fst out @ map fst stack)"
    using walk_invD(7) [OF inv] by (auto simp: siblings_ordered_def sorted_wrt_append)
  show "s \<in> fst ` (set out \<union> set stack)"
    if "s \<in> set spans" "\<not> has_parent spans s \<or> ss_parent_span_id s \<in> row_ids out" for s
    using walk_invD(8) [OF inv that] imageI [of x "set out" fst] x(1) xe by auto
qed (use walk_invD(1-6) [OF inv] in auto)

lemma walk_inv_step:
  assumes inv: "walk_inv ms spans out ((s, d) # stack)"
    and dated: "\<forall>s \<in> set spans. ms (ss_timestamp s) \<noteq> None"
    and new: "Some (ss_span_id s) \<notin> row_ids out"
  shows "walk_inv ms spans (out @ [(s, d)])
    (map (\<lambda>c. (c, Suc d)) (children_at ms (tree_children spans) (ss_span_id s)) @ stack)"
  unfolding walk_inv_def
proof (intro conjI ballI allI impI)
  let ?kids = "children_at ms (tree_children spans) (ss_span_id s)"
  note kids = in_children_at [of _ ms spans "ss_span_id s"]
  note low = walk_invD(4) [OF inv]
  show "distinct (map (\<lambda>e. ss_span_id (fst e)) (out @ [(s, d)]))"
    using walk_invD(1) [OF inv] new by (auto simp: row_ids_def)
  show "fst e \<in> set spans" if "e \<in> set (out @ [(s, d)]) \<union> set (map (\<lambda>c. (c, Suc d)) ?kids @ stack)" for e
    using that walk_invD(2) [OF inv, of e] by (auto simp: kids)
  show "ss_parent_span_id (fst e) \<in> row_ids (out @ [(s, d)])"
    if "e \<in> set (out @ [(s, d)]) \<union> set (map (\<lambda>c. (c, Suc d)) ?kids @ stack)" "has_parent spans (fst e)" for e
    using that walk_invD(3) [OF inv, of e] by (auto simp: kids)
  show "sorted_wrt (\<lambda>a b. snd b \<le> snd a) (map (\<lambda>c. (c, Suc d)) ?kids @ stack)"
    using low by (auto simp: sorted_wrt_append sorted_wrt_map)
  show "placed spans (out @ [(s, d)]) e" if "e \<in> set (map (\<lambda>c. (c, Suc d)) ?kids @ stack)" for e
  proof (cases "e \<in> set stack")
    case True
    with low walk_invD(5) [OF inv, of e] show ?thesis by (intro placed_snoc) auto
  next
    case False
    with that obtain c where "e = (c, Suc d)" "c \<in> set ?kids" by auto
    with placed_child [of spans c "(s, d)" out] show ?thesis by (simp add: kids)
  qed
  show "placed spans (take j (out @ [(s, d)])) ((out @ [(s, d)]) ! j)" if "j < length (out @ [(s, d)])" for j
    using that walk_invD(5) [OF inv, of "(s, d)"] walk_invD(6) [OF inv, of j]
    by (cases "j = length out") (auto simp: nth_append)
  have old: "sibling_key spans (fst x) \<noteq> Some (ss_span_id s)" if "x \<in> set out \<union> set ((s, d) # stack)" for x
    using walk_invD(3) [OF inv that] new by (auto simp: sibling_key_def)
  have kid_key: "sibling_key spans c = Some (ss_span_id s)" if "c \<in> set ?kids" for c
    using that by (simp add: kids sibling_key_def)
  have "sorted_wrt (\<lambda>a b. by_start ms a b \<le> 0) ?kids"
    unfolding children_at_eq by (rule ordered_by_start [OF dated]) auto
  then have "siblings_ordered ms spans ?kids"
    unfolding siblings_ordered_def by (rule sorted_wrt_mono_rel [rotated]) simp
  moreover have "siblings_ordered ms spans (map fst out @ s # map fst stack)" using walk_invD(7) [OF inv] by simp
  ultimately show "siblings_ordered ms spans (map fst (out @ [(s, d)]) @ map fst (map (\<lambda>c. (c, Suc d)) ?kids @ stack))"
    using old kid_key
    by (auto simp: siblings_ordered_def sorted_wrt_append comp_def ball_Un)
      (metis UnI1 UnI2 fst_conv insertI1 insertI2)+
  show "t \<in> fst ` (set (out @ [(s, d)]) \<union> set (map (\<lambda>c. (c, Suc d)) ?kids @ stack))"
    if "t \<in> set spans" "\<not> has_parent spans t \<or> ss_parent_span_id t \<in> row_ids (out @ [(s, d)])" for t
  proof (cases "has_parent spans t \<and> ss_parent_span_id t = Some (ss_span_id s)")
    case True
    with that(1) have "t \<in> set ?kids" by (simp add: kids)
    then show ?thesis by force
  next
    case False
    with that walk_invD(8) [OF inv, of t] show ?thesis by auto
  qed
qed

lemma order_walk_inv:
  assumes "walk_inv ms spans out stack" "distinct (map ss_span_id spans)"
    and "\<forall>s \<in> set spans. ms (ss_timestamp s) \<noteq> None"
    and "seen = map (\<lambda>e. ss_span_id (fst e)) out"
    and "order_walk ms (tree_children spans) seen out stack = (seen', out')"
  shows "walk_inv ms spans out' [] \<and> seen' = map (\<lambda>e. ss_span_id (fst e)) out'"
  using assms
proof (induction ms "tree_children spans" seen out stack rule: order_walk.induct)
  case (1 ms seen out)
  then show ?case by (auto simp: order_walk.simps)
next
  case (2 ms seen out s d stack)
  have mem: "ss_span_id s \<in> set seen \<longleftrightarrow> Some (ss_span_id s) \<in> row_ids out"
    using 2(6) by (auto simp: row_ids_def)
  show ?case
  proof (cases "ss_span_id s \<in> set seen")
    case True
    have "walk_inv ms spans out stack"
      by (rule walk_inv_skip [OF 2(3,4)]) (use True mem in simp)
    with 2 True show ?thesis by (simp add: order_walk.simps)
  next
    case False
    have "walk_inv ms spans (out @ [(s, d)])
        (map (\<lambda>c. (c, Suc d)) (children_at ms (tree_children spans) (ss_span_id s)) @ stack)"
      by (rule walk_inv_step [OF 2(3,5)]) (use False mem in simp)
    with 2 False show ?thesis by (simp add: order_walk.simps)
  qed
qed

lemma walk_inv_start:
  assumes "\<forall>s \<in> set spans. ms (ss_timestamp s) \<noteq> None"
  shows "walk_inv ms spans [] (map (\<lambda>r. (r, 0)) (js_sort (by_start ms) (tree_roots spans)))"
proof -
  have "sorted_wrt (\<lambda>a b. by_start ms a b \<le> 0) (js_sort (by_start ms) (tree_roots spans))"
    unfolding tree_roots_eq by (rule ordered_by_start [OF assms]) auto
  then have "siblings_ordered ms spans (js_sort (by_start ms) (tree_roots spans))"
    unfolding siblings_ordered_def by (rule sorted_wrt_mono_rel [rotated]) simp
  then show ?thesis
    by (auto simp: walk_inv_def tree_roots_eq placed_def sorted_wrt_map comp_def image_image sorted_wrt_iff_nth_less)
qed

text \<open>The rows of the walk, before the spans a cycle kept out are added.\<close>

definition walk_rows :: "(jstring \<Rightarrow> jnum) \<Rightarrow> span_summary list \<Rightarrow> (span_summary \<times> nat) list" where
  "walk_rows ms spans = snd (order_walk ms (tree_children spans) [] []
     (map (\<lambda>r. (r, 0)) (js_sort (by_start ms) (tree_roots spans))))"

lemma orderSpans_rows:
  assumes "distinct (map ss_span_id spans)" "\<forall>s \<in> set spans. ms (ss_timestamp s) \<noteq> None"
  shows "walk_inv ms spans (walk_rows ms spans) []"
    and "orderSpans ms spans = walk_rows ms spans @
      map (\<lambda>s. (s, 0)) (filter (\<lambda>s. Some (ss_span_id s) \<notin> row_ids (walk_rows ms spans)) spans)"
proof -
  obtain seen out where w: "order_walk ms (tree_children spans) [] []
     (map (\<lambda>r. (r, 0)) (js_sort (by_start ms) (tree_roots spans))) = (seen, out)" by fastforce
  have *: "walk_inv ms spans out [] \<and> seen = map (\<lambda>e. ss_span_id (fst e)) out"
    by (rule order_walk_inv [OF walk_inv_start [OF assms(2)] assms _ w]) simp
  then show "walk_inv ms spans (walk_rows ms spans) []" by (simp add: walk_rows_def w)
  show "orderSpans ms spans = walk_rows ms spans @
      map (\<lambda>s. (s, 0)) (filter (\<lambda>s. Some (ss_span_id s) \<notin> row_ids (walk_rows ms spans)) spans)"
    using * by (simp add: orderSpans_def walk_rows_def w row_ids_def image_iff)
qed

text \<open>C4: the waterfall lists every span of the trace exactly once, whatever its parent links say:
  a malformed, even cyclic, parent chain can misplace a row but never lose or repeat one.\<close>

theorem orderSpans_permutes_spans:
  assumes "distinct (map ss_span_id spans)" and "\<forall>s \<in> set spans. ms (ss_timestamp s) \<noteq> None"
  shows "mset (map fst (orderSpans ms spans)) = mset spans"
proof -
  let ?W = "walk_rows ms spans"
  note inv = orderSpans_rows(1) [OF assms]
  note d = walk_invD(1) [OF inv]
  have dr: "distinct (map fst ?W)" using d by (auto simp: distinct_map inj_on_def)
  have ds: "distinct spans" using assms(1) by (simp add: distinct_map)
  have sub: "set (map fst ?W) \<subseteq> set spans" using walk_invD(2) [OF inv] by auto
  have "Some (ss_span_id s) \<in> row_ids ?W \<longleftrightarrow> s \<in> set (map fst ?W)" if "s \<in> set spans" for s
    using that sub assms(1) by (force simp: row_ids_def distinct_map dest: inj_onD)
  then have "map fst (orderSpans ms spans) = map fst ?W @ filter (\<lambda>s. s \<notin> set (map fst ?W)) spans"
    unfolding orderSpans_rows(2) [OF assms] by (simp add: comp_def cong: filter_cong)
  moreover have "distinct (map fst ?W @ filter (\<lambda>s. s \<notin> set (map fst ?W)) spans)" using dr ds by auto
  moreover have "set (map fst ?W @ filter (\<lambda>s. s \<notin> set (map fst ?W)) spans) = set spans" using sub by auto
  ultimately show ?thesis using ds by (metis set_eq_iff_mset_eq_distinct)
qed

text \<open>Without a cycle the walk reaches every span.\<close>

lemma walk_rows_complete:
  fixes rank :: "span_summary \<Rightarrow> nat"
  assumes "distinct (map ss_span_id spans)" "\<forall>s \<in> set spans. ms (ss_timestamp s) \<noteq> None"
    and acyclic: "\<forall>s \<in> set spans. \<forall>p \<in> set spans. has_parent spans s \<and> ss_parent_span_id s = Some (ss_span_id p) \<longrightarrow> rank p < rank s"
  shows "s \<in> set spans \<Longrightarrow> Some (ss_span_id s) \<in> row_ids (walk_rows ms spans)"
proof (induction "rank s" arbitrary: s rule: less_induct)
  case less
  note inv = orderSpans_rows(1) [OF assms(1,2)]
  have "\<not> has_parent spans s \<or> ss_parent_span_id s \<in> row_ids (walk_rows ms spans)"
  proof (cases "has_parent spans s")
    case True
    then obtain p where p: "p \<in> set spans" "ss_parent_span_id s = Some (ss_span_id p)"
      by (cases "ss_parent_span_id s") (auto simp: has_parent_def)
    with True acyclic less.prems have "rank p < rank s" by blast
    from less.hyps [OF this p(1)] p(2) show ?thesis by simp
  qed simp
  from walk_invD(8) [OF inv less.prems this] show ?case by (auto simp: row_ids_def)
qed

text \<open>C5: in a trace without parent cycles the rows are in tree order: each row is either a root at
  depth 0, or comes after its parent, one level deeper, with only rows of that parent's subtree
  (deeper than the parent) in between; and rows with the same parent are in start order.\<close>

theorem orderSpans_tree_order:
  fixes rank :: "span_summary \<Rightarrow> nat"
  assumes "distinct (map ss_span_id spans)" and "\<forall>s \<in> set spans. ms (ss_timestamp s) \<noteq> None"
    and "\<forall>s \<in> set spans. \<forall>p \<in> set spans. has_parent spans s \<and> ss_parent_span_id s = Some (ss_span_id p) \<longrightarrow> rank p < rank s"
  shows "(\<forall>j < length (orderSpans ms spans). placed spans (take j (orderSpans ms spans)) (orderSpans ms spans ! j))
    \<and> sorted_wrt (\<lambda>a b. sibling_key spans a = sibling_key spans b \<longrightarrow> by_start ms a b \<le> 0) (map fst (orderSpans ms spans))"
proof -
  note inv = orderSpans_rows(1) [OF assms(1,2)]
  have "filter (\<lambda>s. Some (ss_span_id s) \<notin> row_ids (walk_rows ms spans)) spans = []"
    using walk_rows_complete [OF assms] by (simp add: filter_empty_conv)
  then have "orderSpans ms spans = walk_rows ms spans" using orderSpans_rows(2) [OF assms(1,2)] by simp
  then show ?thesis using walk_invD(6,7) [OF inv] by (simp add: siblings_ordered_def)
qed

section \<open>The time ruler\<close>

record hop =
  hop_span :: span_summary
  hop_startMs :: jnum
  hop_durationMs :: rat
  hop_depth :: nat

record hop_list =
  hl_hops :: "hop list"
  hl_total :: rat
  hl_t0 :: rat

text \<open>\<open>t0\<close> starts at \<open>Infinity\<close> and \<open>tn\<close> at \<open>-Infinity\<close> (\<open>None\<close>); a \<open>NaN\<close> moves neither.\<close>

definition hops_step :: "(jstring \<Rightarrow> jnum) \<Rightarrow> rat option \<times> rat option \<Rightarrow> span_summary \<Rightarrow> rat option \<times> rat option" where
  "hops_step ms st s = (case st of (t0, tn) \<Rightarrow>
     (case ms (ss_timestamp s) of
        None \<Rightarrow> (t0, tn)
      | Some t \<Rightarrow>
          (if t0 = None \<or> t < the t0 then Some t else t0,
           if tn = None \<or> the tn < t + ss_duration_ms s then Some (t + ss_duration_ms s) else tn)))"

definition hops :: "(jstring \<Rightarrow> jnum) \<Rightarrow> span_summary list \<Rightarrow> hop_list" where
  "hops ms spans = (case foldl (hops_step ms) (None, None) spans of
     (Some t0, Some tn) \<Rightarrow>
       if tn \<le> t0 then \<lparr>hl_hops = [], hl_total = 1, hl_t0 = 0\<rparr>
       else \<lparr>hl_hops = map (\<lambda>(s, d). \<lparr>hop_span = s, hop_startMs = jsub (ms (ss_timestamp s)) (Some t0),
               hop_durationMs = ss_duration_ms s, hop_depth = d\<rparr>) (orderSpans ms spans),
             hl_total = tn - t0, hl_t0 = t0\<rparr>
   | _ \<Rightarrow> \<lparr>hl_hops = [], hl_total = 1, hl_t0 = 0\<rparr>)"

definition visible_hops :: "hop list \<Rightarrow> bool \<Rightarrow> jstring list option \<Rightarrow> hop list" where
  "visible_hops hs errorsOnly matchedSpanIds =
     (if errorsOnly
      then filter (\<lambda>h. ss_status_code (hop_span h) = js ''Error''
             \<or> ss_span_id (hop_span h) \<in> set (coalesce matchedSpanIds [])) hs
      else hs)"

section \<open>The initial selection\<close>

definition pickInitialSpan :: "span_summary list \<Rightarrow> jstring list option \<Rightarrow> jstring option" where
  "pickInitialSpan spans matchedSpanIds =
     (case spans of
        [] \<Rightarrow> None
      | s0 # _ \<Rightarrow>
          (let firstMatch = (case matchedSpanIds of
                None \<Rightarrow> None
              | Some ms \<Rightarrow> find (\<lambda>i. i \<in> ss_span_id ` set spans) ms);
               fallback = Some (ss_span_id (coalesce (find (\<lambda>s. ss_status_code s = js ''Error'') spans) s0))
           in if truthy_str firstMatch then firstMatch else fallback))"

section \<open>The ruler holds every bar, and the selection is in the trace\<close>

definition fits :: "(jstring \<Rightarrow> jnum) \<Rightarrow> rat \<Rightarrow> rat \<Rightarrow> span_summary \<Rightarrow> bool" where
  "fits ms t0 tn s \<longleftrightarrow> (case ms (ss_timestamp s) of None \<Rightarrow> False
     | Some t \<Rightarrow> t0 \<le> t \<and> t + ss_duration_ms s \<le> tn)"

lemma fits_mono: "fits ms t0 tn s \<Longrightarrow> t1 \<le> t0 \<Longrightarrow> tn \<le> tm \<Longrightarrow> fits ms t1 tm s"
  by (auto simp: fits_def split: option.splits)

lemma hops_fold:
  assumes "\<forall>s \<in> set spans. ms (ss_timestamp s) \<noteq> None" "spans \<noteq> []"
  shows "\<exists>t0 tn. foldl (hops_step ms) (None, None) spans = (Some t0, Some tn) \<and> (\<forall>s \<in> set spans. fits ms t0 tn s)"
  using assms
proof (induction spans rule: rev_induct)
  case (snoc s spans)
  then obtain t where t: "ms (ss_timestamp s) = Some t" by auto
  show ?case
  proof (cases "spans = []")
    case True
    with t show ?thesis by (simp add: hops_step_def fits_def)
  next
    case False
    with snoc obtain t0 tn where f: "foldl (hops_step ms) (None, None) spans = (Some t0, Some tn)"
      and r: "\<forall>s \<in> set spans. fits ms t0 tn s" by auto
    have "foldl (hops_step ms) (None, None) (spans @ [s]) = (Some (min t t0), Some (max tn (t + ss_duration_ms s)))"
      using t f by (auto simp: hops_step_def min_def max_def)
    moreover have "fits ms (min t t0) (max tn (t + ss_duration_ms s)) u" if "u \<in> set (spans @ [s])" for u
      using that r t by (auto simp: fits_def [of _ _ _ s] intro: fits_mono)
    ultimately show ?thesis by blast
  qed
qed simp

text \<open>every bar of the waterfall lies inside its ruler: a trace whose spans have readable start
  times and some extent yields one bar per span, starting at 0 or later and ending at the total or
  earlier.\<close>

theorem hops_inside_ruler:
  assumes "distinct (map ss_span_id spans)" and "\<forall>s \<in> set spans. ms (ss_timestamp s) \<noteq> None"
    and "\<exists>s \<in> set spans. 0 < ss_duration_ms s"
  shows "length (hl_hops (hops ms spans)) = length spans \<and> 0 < hl_total (hops ms spans)
    \<and> (\<forall>h \<in> set (hl_hops (hops ms spans)). \<exists>t. hop_startMs h = Some t \<and> 0 \<le> t
        \<and> t + hop_durationMs h \<le> hl_total (hops ms spans))"
proof -
  have "spans \<noteq> []" using assms(3) by auto
  then obtain t0 tn where f: "foldl (hops_step ms) (None, None) spans = (Some t0, Some tn)"
    and r: "\<forall>s \<in> set spans. fits ms t0 tn s"
    using hops_fold [of spans ms] assms(2) by blast
  obtain u where "u \<in> set spans" "0 < ss_duration_ms u" using assms(3) by blast
  with r have lt: "t0 < tn" by (auto simp: fits_def split: option.splits dest!: bspec [of _ _ u])
  note perm = orderSpans_permutes_spans [OF assms(1,2)]
  have len: "length (orderSpans ms spans) = length spans" using perm by (metis length_map size_mset)
  have bar: "\<exists>t. jsub (ms (ss_timestamp s)) (Some t0) = Some t \<and> 0 \<le> t \<and> t + ss_duration_ms s \<le> tn - t0"
    if "(s, d) \<in> set (orderSpans ms spans)" for s d
  proof -
    have "s \<in> set spans" using that perm by (metis fst_conv image_eqI list.set_map mset_eq_setD)
    then have "fits ms t0 tn s" using r by blast
    then show ?thesis by (auto simp: fits_def split: option.splits)
  qed
  have h: "hops ms spans = \<lparr>hl_hops = map (\<lambda>(s, d). \<lparr>hop_span = s, hop_startMs = jsub (ms (ss_timestamp s)) (Some t0),
      hop_durationMs = ss_duration_ms s, hop_depth = d\<rparr>) (orderSpans ms spans), hl_total = tn - t0, hl_t0 = t0\<rparr>"
    using lt by (simp add: hops_def f)
  show ?thesis unfolding h using len lt bar by (simp add: split_beta image_iff Ball_def) force
qed

text \<open>the span a trace opens on is in the trace: none is selected only for an empty trace; a
  search match that is in the trace wins, else the first failed span, else the first span.\<close>

theorem pickInitialSpan_selects:
  assumes "\<forall>s \<in> set spans. ss_span_id s \<noteq> []"
  shows "(pickInitialSpan spans matched = None \<longleftrightarrow> spans = [])
    \<and> (\<forall>i. pickInitialSpan spans matched = Some i \<longrightarrow> i \<in> ss_span_id ` set spans
        \<and> ((\<exists>m \<in> set (coalesce matched []). m \<in> ss_span_id ` set spans) \<longrightarrow> i \<in> set (coalesce matched []))
        \<and> ((\<forall>m \<in> set (coalesce matched []). m \<notin> ss_span_id ` set spans) \<and> (\<exists>s \<in> set spans. ss_status_code s = js ''Error'')
            \<longrightarrow> (\<exists>s \<in> set spans. ss_span_id s = i \<and> ss_status_code s = js ''Error'')))"
proof (cases spans)
  case (Cons s0 ss)
  define hit where "hit = find (\<lambda>i. i \<in> ss_span_id ` set spans) (coalesce matched [])"
  define err where "err = find (\<lambda>s. ss_status_code s = js ''Error'') spans"
  have eq: "pickInitialSpan spans matched =
      (if truthy_str hit then hit else Some (ss_span_id (coalesce err s0)))"
    by (cases matched) (simp_all add: pickInitialSpan_def Cons hit_def err_def Let_def)
  have hit: "i \<in> ss_span_id ` set spans \<and> i \<in> set (coalesce matched [])" if "hit = Some i" for i
    using find_SomeD [OF that [unfolded hit_def]] .
  have err: "e \<in> set spans \<and> ss_status_code e = js ''Error''" if "err = Some e" for e
    using find_SomeD [OF that [unfolded err_def]] by simp
  show ?thesis
  proof (cases hit)
    case None
    have no: "\<forall>m \<in> set (coalesce matched []). m \<notin> ss_span_id ` set spans"
      using None unfolding hit_def find_None_ball .
    have pick: "pickInitialSpan spans matched = Some (ss_span_id (coalesce err s0))" using eq None by simp
    show ?thesis
    proof (cases err)
      case None
      then have "\<forall>s \<in> set spans. ss_status_code s \<noteq> js ''Error''" unfolding err_def find_None_ball .
      with no None Cons show ?thesis unfolding pick by auto
    next
      case (Some e)
      with no err [OF Some] Cons show ?thesis unfolding pick by auto
    qed
  next
    case (Some i)
    with hit [OF Some] assms have "pickInitialSpan spans matched = Some i" by (auto simp: eq)
    with hit [OF Some] Cons show ?thesis by auto
  qed
qed (simp add: pickInitialSpan_def)

section \<open>Examples\<close>

lemma demo_trace_dated: "\<forall>s \<in> set demo_trace. dec_ms (ss_timestamp s) \<noteq> None"
  by (simp add: dec_ms_def)

text \<open>A trace whose parent links form a cycle beside an ordinary root.\<close>

definition cyclic_trace :: "span_summary list" where
  "cyclic_trace = [
     plain_span (js ''x'') (Some (js ''y'')) (js ''s'') (js ''n'') (js ''3'') 1,
     plain_span (js ''y'') (Some (js ''x'')) (js ''s'') (js ''m'') (js ''4'') 1,
     plain_span (js ''r'') None (js ''s'') (js ''k'') (js ''5'') 1]"

lemma orderSpans_permutes_spans_ex:
  "mset (map fst (orderSpans dec_ms cyclic_trace)) = mset cyclic_trace"
proof -
  have "distinct (map ss_span_id cyclic_trace)" by code_simp
  then show ?thesis by (rule orderSpans_permutes_spans) (simp add: dec_ms_def)
qed

lemma orderSpans_tree_order_ex: "placed demo_trace (take 1 (orderSpans dec_ms demo_trace)) (orderSpans dec_ms demo_trace ! 1)"
proof -
  have d: "distinct (map ss_span_id demo_trace)" by code_simp
  have r: "\<forall>s \<in> set demo_trace. \<forall>p \<in> set demo_trace. has_parent demo_trace s \<and> ss_parent_span_id s = Some (ss_span_id p)
      \<longrightarrow> length (coalesce (ss_parent_span_id p) []) < length (coalesce (ss_parent_span_id s) [])" by code_simp
  have "1 < length (orderSpans dec_ms demo_trace)"
    using orderSpans_permutes_spans [OF d demo_trace_dated] by (auto simp: demo_trace_def dest: arg_cong [of _ _ size])
  with orderSpans_tree_order [OF d demo_trace_dated r] show ?thesis by blast
qed

lemma hops_inside_ruler_ex: "length (hl_hops (hops dec_ms demo_trace)) = 3 \<and> 0 < hl_total (hops dec_ms demo_trace)"
proof -
  have d: "distinct (map ss_span_id demo_trace)" by code_simp
  have "\<exists>s \<in> set demo_trace. 0 < ss_duration_ms s" by code_simp
  from hops_inside_ruler [OF d demo_trace_dated this] show ?thesis by (simp add: demo_trace_def)
qed

lemma pickInitialSpan_selects_ex:
  "pickInitialSpan demo_trace (Some [js ''gone'', js ''c'']) = Some (js ''c'') \<and> js ''c'' \<in> ss_span_id ` set demo_trace"
proof -
  have n: "\<forall>s \<in> set demo_trace. ss_span_id s \<noteq> []" by code_simp
  have "pickInitialSpan demo_trace (Some [js ''gone'', js ''c'']) = Some (js ''c'')" by code_simp
  with pickInitialSpan_selects [OF n, of "Some [js ''gone'', js ''c'']"] show ?thesis by simp
qed

end
