(* ===== verification/ServiceFlow.thy ===== *)
theory ServiceFlow
  imports SpanGraph
begin

text \<open>
  \<open>lib/serviceFlow.ts\<close> (the service graph of one trace), \<open>lib/serviceSignature.ts\<close> (the one-line
  shape of an integration) and \<open>lib/traceNodeVisual.ts\<close> (how one message's position reads on the
  flow graph).
\<close>

section \<open>The service graph of one trace\<close>

record service_flow =
  sf_nodes :: "flow_node list"
  sf_edges :: "flow_edge list"

text \<open>The loop's state: \<open>nodeMap\<close> (trace and error counts by service) and \<open>edgeMap\<close>.\<close>

type_synonym flow_state = "(jstring \<times> nat \<times> nat) list \<times> (jstring \<times> flow_edge) list"

definition is_error_span :: "span_summary \<Rightarrow> bool" where
  "is_error_span s \<longleftrightarrow> ss_status_code s = js ''Error''"

definition flow_node_step :: "(jstring \<times> nat \<times> nat) list \<Rightarrow> span_summary \<Rightarrow> (jstring \<times> nat \<times> nat) list" where
  "flow_node_step nodeMap s =
     (let n = coalesce (map_of nodeMap (ss_service_name s)) (1, 0)
      in AList.update (ss_service_name s) (fst n, if is_error_span s then 1 else snd n) nodeMap)"

text \<open>The parent span an iteration counts an edge for, if it does not \<open>continue\<close>.\<close>

definition flow_parent :: "(jstring \<times> span_summary) list \<Rightarrow> span_summary \<Rightarrow> span_summary option" where
  "flow_parent spanById s =
     (if \<not> truthy_str (ss_parent_span_id s) then None
      else (case map_of spanById (coalesce (ss_parent_span_id s) []) of
          None \<Rightarrow> None
        | Some p \<Rightarrow> if ss_service_name p = ss_service_name s then None else Some p))"

definition flow_edge_step ::
  "(jstring \<times> span_summary) list \<Rightarrow> (jstring \<times> flow_edge) list \<Rightarrow> span_summary \<Rightarrow> (jstring \<times> flow_edge) list" where
  "flow_edge_step spanById edgeMap s =
     (case flow_parent spanById s of
        None \<Rightarrow> edgeMap
      | Some p \<Rightarrow>
          let key = edge_key (ss_service_name p) (ss_service_name s);
              e = coalesce (map_of edgeMap key) \<lparr>fe_source = ss_service_name p, fe_target = ss_service_name s,
                    fe_call_count = 0, fe_error_count = 0, fe_link = False\<rparr>
          in AList.update key (e\<lparr>fe_call_count := fe_call_count e + 1,
               fe_error_count := if is_error_span s \<or> is_error_span p then 1 else fe_error_count e\<rparr>) edgeMap)"

definition flow_step :: "(jstring \<times> span_summary) list \<Rightarrow> flow_state \<Rightarrow> span_summary \<Rightarrow> flow_state" where
  "flow_step spanById st s = (flow_node_step (fst st) s, flow_edge_step spanById (snd st) s)"

definition flowFromSpans :: "span_summary list \<Rightarrow> service_flow" where
  "flowFromSpans spans =
     (let (nodeMap, edgeMap) = foldl (flow_step (spans_by_id spans)) ([], []) spans
      in \<lparr>sf_nodes = map (\<lambda>(name, v). \<lparr>fn_service_name = name, fn_trace_count = fst v,
             fn_error_trace_count = snd v, fn_status = None\<rparr>) nodeMap,
          sf_edges = map_values edgeMap\<rparr>)"

section \<open>Signatures\<close>

record service_facet_ref =
  sfr_slug :: jstring
  sfr_name :: jstring

text \<open>The glyph of a facet and the order in which facets are preferred, as one table.\<close>

definition FACET_PRIORITY :: "(jstring \<times> jstring) list" where
  "FACET_PRIORITY = [
     (js ''file-input'', js ''file''), (js ''file-output'', js ''file''),
     (js ''queue-input'', js ''queue''), (js ''queue-output'', js ''queue''),
     (js ''http-input'', js ''http''), (js ''http-output'', js ''http''),
     (js ''db-output'', js ''db''), (js ''email-output'', js ''email''), (js ''worker'', js ''worker'')]"

text \<open>A service as the signature reads it: its name and its facets, when present.\<close>

definition glyphFor :: "jstring \<Rightarrow> service_facet_ref list option \<Rightarrow> jstring" where
  "glyphFor name facets =
     (case facets of
        None \<Rightarrow> name
      | Some fs \<Rightarrow> (case find (\<lambda>(slug, glyph). slug \<in> sfr_slug ` set fs) FACET_PRIORITY of
            None \<Rightarrow> name | Some (slug, glyph) \<Rightarrow> glyph))"

definition push_glyph :: "jstring list \<Rightarrow> jstring \<Rightarrow> jstring list" where
  "push_glyph sq g = (if sq \<noteq> [] \<and> last sq = g then sq else sq @ [g])"

definition serviceSignature :: "(jstring \<times> service_facet_ref list option) list option \<Rightarrow> jstring" where
  "serviceSignature services =
     (case services of
        None \<Rightarrow> [emdash]
      | Some ss \<Rightarrow> if ss = [] then [emdash]
          else join [rarrow] (foldl (\<lambda>sq (name, facets). push_glyph sq (glyphFor name facets)) [] ss))"

definition shortName :: "jstring \<Rightarrow> jstring" where
  "shortName name =
     (let base = (if ends_with name (js ''-svc'') then take (length name - 4) name else name);
          cleaned = last (split_on (cu CHR ''.'') base)
      in if 12 < length cleaned then take 12 cleaned @ [ellipsis] else cleaned)"

text \<open>\<open>incoming\<close> and \<open>adjacency\<close>: the optional chaining drops edges of unknown services.\<close>

definition link_map :: "(flow_edge \<Rightarrow> jstring) \<Rightarrow> (flow_edge \<Rightarrow> jstring) \<Rightarrow> flow_node list \<Rightarrow> flow_edge list
    \<Rightarrow> (jstring \<times> jstring list) list" where
  "link_map key val nodes edges =
     foldl (\<lambda>m e. case map_of m (key e) of None \<Rightarrow> m | Some xs \<Rightarrow> AList.update (key e) (xs @ [val e]) m)
       (map_of_entries fn_service_name (\<lambda>_. []) nodes) edges"

function signature_bfs :: "(jstring \<times> jstring list) list \<Rightarrow> jstring list \<Rightarrow> jstring list \<Rightarrow> jstring list" where
  "signature_bfs adjacency order [] = order"
| "signature_bfs adjacency order (cur # queue) =
     (if cur \<in> set order then signature_bfs adjacency order queue
      else signature_bfs adjacency (order @ [cur]) (queue @ coalesce (map_of adjacency cur) []))"
  by pat_completeness auto
termination
proof (relation "measures [\<lambda>(adjacency, order, queue). card (\<Union> (set ` snd ` set adjacency) \<union> set queue - set order),
    \<lambda>(adjacency, order, queue). length queue]", goal_cases)
  case (2 adjacency order cur queue)
  then have "\<Union> (set ` snd ` set adjacency) \<union> set (cur # queue) - set order =
      \<Union> (set ` snd ` set adjacency) \<union> set queue - set order" by auto
  then show ?case by simp
next
  case (3 adjacency order cur queue)
  let ?U = "\<Union> (set ` snd ` set adjacency)"
  have "set (coalesce (map_of adjacency cur) []) \<subseteq> ?U"
    by (cases "map_of adjacency cur") (force dest: map_of_SomeD)+
  then have "?U \<union> set (queue @ coalesce (map_of adjacency cur) []) - set (order @ [cur]) \<subseteq>
      ?U \<union> set (cur # queue) - set order - {cur}" by auto
  then have "card (?U \<union> set (queue @ coalesce (map_of adjacency cur) []) - set (order @ [cur])) \<le>
      card (?U \<union> set (cur # queue) - set order - {cur})" by (intro card_mono) auto
  also have "\<dots> < card (?U \<union> set (cur # queue) - set order)" using 3 by (intro card_Diff1_less) auto
  finally show ?case by simp
qed simp

declare signature_bfs.simps [simp del]

definition flow_order :: "flow_node list \<Rightarrow> flow_edge list \<Rightarrow> jstring list" where
  "flow_order nodes edges =
     (let incoming = link_map fe_target fe_source nodes edges;
          adjacency = link_map fe_source fe_target nodes edges;
          sources = filter (\<lambda>n. coalesce (map_of incoming n) [] = []) (map fn_service_name nodes);
          order = signature_bfs adjacency [] sources
      in order @ filter (\<lambda>n. n \<notin> set order) (map fn_service_name nodes))"

definition signatureFromFlow :: "flow_node list \<Rightarrow> flow_edge list \<Rightarrow> jstring" where
  "signatureFromFlow nodes edges =
     (if nodes = [] then [emdash] else join [rarrow] (map shortName (flow_order nodes edges)))"

section \<open>One message on the flow graph\<close>

datatype trace_node_kind = TnReached | TnFailed | TnNext | TnNotReached

record trace_node_state =
  tn_service_name :: jstring
  tn_state :: trace_node_kind
  tn_span_count :: nat
  tn_error_count :: nat
  tn_first_seen :: "jstring option"
  tn_last_seen :: "jstring option"
  tn_after_service :: "jstring option"

datatype node_tone = ToneOk | ToneErr | ToneNext | ToneIdle

record trace_node_visual =
  tv_label :: jstring
  tv_detail :: jstring
  tv_tone :: node_tone
  tv_dimmed :: bool

text \<open>\<open>wall\<close> is the engine's local wall-clock rendering of an instant.\<close>

definition clock :: "(jstring \<Rightarrow> jnum) \<Rightarrow> (jstring \<Rightarrow> jstring) \<Rightarrow> jstring option \<Rightarrow> jstring" where
  "clock ms wall t =
     (if \<not> truthy_str t then []
      else if ms (coalesce t []) = None then [] else wall (coalesce t []))"

definition PLURAL :: "nat \<Rightarrow> jstring \<Rightarrow> jstring" where
  "PLURAL n one = show_nat n @ js '' '' @ one @ (if n = 1 then [] else js ''s'')"

definition traceNodeVisual ::
  "(jstring \<Rightarrow> jnum) \<Rightarrow> (jstring \<Rightarrow> jstring) \<Rightarrow> trace_node_state option \<Rightarrow> trace_node_visual option" where
  "traceNodeVisual ms wall st =
     (case st of None \<Rightarrow> None | Some s \<Rightarrow>
       (let tm = clock ms wall (tn_first_seen s) in
        Some (case tn_state s of
          TnFailed \<Rightarrow> \<lparr>
            tv_label = (if tm \<noteq> [] then js ''failed here '' @ [middot] @ js '' '' @ tm else js ''failed here''),
            tv_detail = js ''The message reached this service and '' @ PLURAL (tn_error_count s) (js ''span'')
              @ js '' failed. This is usually where it stopped.'',
            tv_tone = ToneErr, tv_dimmed = False\<rparr>
        | TnReached \<Rightarrow> \<lparr>
            tv_label = (if tm \<noteq> [] then js ''reached '' @ [middot] @ js '' '' @ tm else js ''reached''),
            tv_detail = js ''The message reached this service ('' @ PLURAL (tn_span_count s) (js ''span'') @ js '').'',
            tv_tone = ToneOk, tv_dimmed = False\<rparr>
        | TnNext \<Rightarrow> \<lparr>
            tv_label = (if truthy_str (tn_after_service s)
              then js ''expected after '' @ coalesce (tn_after_service s) [] else js ''expected next''),
            tv_detail = (if truthy_str (tn_after_service s)
              then js ''The message reached '' @ coalesce (tn_after_service s) []
                @ js '', and this is what follows. ''
                @ js ''No span has arrived from this service, so it either has not run, has not ''
                @ js ''finished, or never reported. This is where to look.''
              else js ''The message has not arrived here, and it directly follows somewhere it reached.''),
            tv_tone = ToneNext, tv_dimmed = False\<rparr>
        | TnNotReached \<Rightarrow> \<lparr>
            tv_label = js ''not reached'',
            tv_detail = js ''The message has no span here, and nothing directly upstream of it was reached either.'',
            tv_tone = ToneIdle, tv_dimmed = True\<rparr>)))"

definition traceStatesByService :: "trace_node_state list option \<Rightarrow> (jstring \<times> trace_node_state) list" where
  "traceStatesByService nodes = map_of_entries tn_service_name (\<lambda>n. n) (coalesce nodes [])"

definition traceSummaryLine :: "jstring option \<Rightarrow> trace_node_state list option \<Rightarrow> jstring" where
  "traceSummaryLine lastReached nodes =
     (let xs = coalesce nodes [];
          failed = filter (\<lambda>n. tn_state n = TnFailed) xs;
          nxt = filter (\<lambda>n. tn_state n = TnNext) xs;
          names = (\<lambda>ns. join (js '', '') (map tn_service_name ns));
          at_last = coalesce lastReached []
      in if \<not> truthy_str lastReached then js ''This message has no spans on any service in this integration.''
         else if failed \<noteq> [] then js ''Failed at '' @ names failed @ js ''. Last activity was on '' @ at_last @ js ''.''
         else if nxt = [] then js ''Reached '' @ at_last @ js '', which is the end of the flow as drawn.''
         else js ''Last seen on '' @ at_last @ js ''. Not yet on '' @ names nxt @ js ''. That is where to look.'')"

section \<open>The graph counts the calls\<close>

text \<open>The spans that are one call from the first service to the second.\<close>

definition calls_between :: "span_summary list \<Rightarrow> jstring \<Rightarrow> jstring \<Rightarrow> span_summary list" where
  "calls_between spans a b = filter (\<lambda>s. ss_service_name s = b \<and> a \<noteq> b \<and>
     (\<exists>p \<in> set spans. ss_parent_span_id s = Some (ss_span_id p) \<and> ss_service_name p = a)) spans"

lemma flow_fold_split:
  "foldl (flow_step byId) (n, e) spans = (foldl flow_node_step n spans, foldl (flow_edge_step byId) e spans)"
  by (induction spans arbitrary: n e) (simp_all add: flow_step_def)

lemma flow_parent_iff:
  assumes "clean_trace spans"
  shows "flow_parent (spans_by_id spans) s = Some p \<longleftrightarrow>
    p \<in> set spans \<and> ss_parent_span_id s = Some (ss_span_id p) \<and> ss_service_name p \<noteq> ss_service_name s"
proof -
  note d = clean_traceD(1) [OF assms]
  have get: "map_of (spans_by_id spans) k = Some p \<longleftrightarrow> p \<in> set spans \<and> ss_span_id p = k" for k
  proof
    assume "map_of (spans_by_id spans) k = Some p"
    then show "p \<in> set spans \<and> ss_span_id p = k"
      by (auto simp: spans_by_id_def map_of_map_of_entries dest: find_SomeD)
  qed (use spans_by_id_get [OF d] in auto)
  show ?thesis
  proof (cases "ss_parent_span_id s")
    case (Some q)
    then show ?thesis using get [of q] clean_traceD(2) [OF assms, of p]
      by (auto simp: flow_parent_def split: option.splits)
  qed (simp add: flow_parent_def)
qed

text \<open>Over the spans done so far: the entry of a key is its pair, the number of calls, and whether
  any of them failed.\<close>

definition call_key :: "(jstring \<times> span_summary) list \<Rightarrow> span_summary \<Rightarrow> jstring option" where
  "call_key byId s = map_option (\<lambda>p. edge_key (ss_service_name p) (ss_service_name s)) (flow_parent byId s)"

definition call_failed :: "(jstring \<times> span_summary) list \<Rightarrow> span_summary \<Rightarrow> bool" where
  "call_failed byId s \<longleftrightarrow> is_error_span s \<or> (case flow_parent byId s of None \<Rightarrow> False | Some p \<Rightarrow> is_error_span p)"

lemma flow_edge_fold:
  "map_of (foldl (flow_edge_step byId) [] spans) k =
     (let cs = filter (\<lambda>s. call_key byId s = Some k) spans in
      if cs = [] then None
      else Some \<lparr>fe_source = ss_service_name (the (flow_parent byId (hd cs))), fe_target = ss_service_name (hd cs),
             fe_call_count = length cs, fe_error_count = (if list_ex (call_failed byId) cs then 1 else 0), fe_link = False\<rparr>)"
proof (induction spans rule: rev_induct)
  case (snoc s spans)
  show ?case
  proof (cases "flow_parent byId s")
    case None
    with snoc show ?thesis by (simp add: flow_edge_step_def call_key_def)
  next
    case (Some p)
    then have key: "call_key byId s = Some (edge_key (ss_service_name p) (ss_service_name s))" by (simp add: call_key_def)
    let ?cs = "filter (\<lambda>s. call_key byId s = Some k) spans"
    show ?thesis
    proof (cases "k = edge_key (ss_service_name p) (ss_service_name s)")
      case True
      show ?thesis
        using snoc Some key True
        by (cases "?cs = []") (auto simp: flow_edge_step_def Let_def update_conv call_failed_def)
    next
      case False
      with snoc Some key show ?thesis by (simp add: flow_edge_step_def Let_def update_conv)
    qed
  qed
qed simp

lemma flow_edge_keys: "distinct (map fst (foldl (flow_edge_step byId) [] spans))"
proof (induction spans rule: rev_induct)
  case (snoc s spans)
  then show ?case by (auto simp: flow_edge_step_def Let_def keys_update split: option.splits)
qed simp

lemma calls_between_nul_free: "clean_trace spans \<Longrightarrow> calls_between spans a b \<noteq> [] \<Longrightarrow> nul_free a"
  using clean_traceD(5) by (auto simp: calls_between_def filter_empty_conv)

lemma calls_between_filter:
  assumes c: "clean_trace spans" and a: "nul_free a"
  shows "filter (\<lambda>s. call_key (spans_by_id spans) s = Some (edge_key a b)) spans = calls_between spans a b"
  unfolding calls_between_def
proof (rule filter_cong [OF refl])
  fix s assume s: "s \<in> set spans"
  have "call_key (spans_by_id spans) s = Some (edge_key a b) \<longleftrightarrow>
      (\<exists>p. flow_parent (spans_by_id spans) s = Some p \<and> ss_service_name p = a \<and> ss_service_name s = b)"
    using a clean_traceD(5) [OF c] by (auto simp: call_key_def edge_key_def nul_split_eq flow_parent_iff [OF c])
  then show "call_key (spans_by_id spans) s = Some (edge_key a b) \<longleftrightarrow> ss_service_name s = b \<and> a \<noteq> b \<and>
      (\<exists>p \<in> set spans. ss_parent_span_id s = Some (ss_span_id p) \<and> ss_service_name p = a)"
    by (auto simp: flow_parent_iff [OF c])
qed

lemma flow_edge_entry:
  assumes c: "clean_trace spans" and ke: "(k, e) \<in> set (foldl (flow_edge_step (spans_by_id spans)) [] spans)"
  shows "k = edge_key (fe_source e) (fe_target e)" "nul_free (fe_source e)"
    and "calls_between spans (fe_source e) (fe_target e) \<noteq> []"
    and "fe_call_count e = length (calls_between spans (fe_source e) (fe_target e))"
    and "fe_error_count e = (if list_ex (call_failed (spans_by_id spans)) (calls_between spans (fe_source e) (fe_target e)) then 1 else 0)"
proof -
  let ?by = "spans_by_id spans"
  have m: "map_of (foldl (flow_edge_step ?by) [] spans) k = Some e" using ke flow_edge_keys by (simp add: map_of_is_SomeI)
  define cs where "cs = filter (\<lambda>s. call_key ?by s = Some k) spans"
  from m flow_edge_fold [of ?by spans k] have ne: "cs \<noteq> []"
    and e: "e = \<lparr>fe_source = ss_service_name (the (flow_parent ?by (hd cs))), fe_target = ss_service_name (hd cs),
           fe_call_count = length cs, fe_error_count = (if list_ex (call_failed ?by) cs then 1 else 0), fe_link = False\<rparr>"
    unfolding cs_def Let_def by (simp_all split: if_splits)
  have h: "hd cs \<in> set spans" "call_key ?by (hd cs) = Some k" using hd_in_set [OF ne] by (auto simp: cs_def)
  then obtain p where p: "flow_parent ?by (hd cs) = Some p" "k = edge_key (ss_service_name p) (ss_service_name (hd cs))"
    by (auto simp: call_key_def)
  then have a: "nul_free (ss_service_name p)" using clean_traceD(5) [OF c] flow_parent_iff [OF c] by blast
  have st: "fe_source e = ss_service_name p" "fe_target e = ss_service_name (hd cs)" using e p(1) by simp_all
  have cb: "calls_between spans (fe_source e) (fe_target e) = cs"
    unfolding st calls_between_filter [OF c a, symmetric] p(2) [symmetric] by (rule cs_def [symmetric])
  show "k = edge_key (fe_source e) (fe_target e)" "nul_free (fe_source e)" using p(2) a by (simp_all add: st)
  show "calls_between spans (fe_source e) (fe_target e) \<noteq> []"
    "fe_call_count e = length (calls_between spans (fe_source e) (fe_target e))"
    "fe_error_count e = (if list_ex (call_failed ?by) (calls_between spans (fe_source e) (fe_target e)) then 1 else 0)"
    unfolding cb using ne by (simp_all add: e)
qed

lemma call_failed_iff:
  assumes c: "clean_trace spans" and s: "s \<in> set (calls_between spans a b)"
  shows "call_failed (spans_by_id spans) s \<longleftrightarrow>
    is_error_span s \<or> (\<exists>p \<in> set spans. ss_parent_span_id s = Some (ss_span_id p) \<and> is_error_span p)"
proof -
  from s obtain p where p: "p \<in> set spans" "ss_parent_span_id s = Some (ss_span_id p)"
    "ss_service_name p = a" "ss_service_name s = b" "a \<noteq> b" by (auto simp: calls_between_def)
  then have "flow_parent (spans_by_id spans) s = Some p" by (simp add: flow_parent_iff [OF c])
  moreover have "q = p" if "q \<in> set spans" "ss_span_id q = ss_span_id p" for q
    using clean_traceD(1) [OF c] that p(1) by (auto simp: distinct_map dest: inj_onD)
  ultimately show ?thesis using p(1,2) by (auto simp: call_failed_def)
qed

text \<open>C6: the service graph of a trace counts calls: there is one edge per ordered pair of different
  services with a call between them, its count is the number of spans of the callee whose parent
  belongs to the caller, and it is marked failed exactly when one of those spans or its parent failed.\<close>

theorem flow_counts_calls:
  assumes "clean_trace spans"
  shows "distinct (map (\<lambda>e. (fe_source e, fe_target e)) (sf_edges (flowFromSpans spans)))
    \<and> (\<forall>e \<in> set (sf_edges (flowFromSpans spans)).
        fe_call_count e = length (calls_between spans (fe_source e) (fe_target e)) \<and> 0 < fe_call_count e
        \<and> fe_error_count e = (if \<exists>s \<in> set (calls_between spans (fe_source e) (fe_target e)). is_error_span s
              \<or> (\<exists>p \<in> set spans. ss_parent_span_id s = Some (ss_span_id p) \<and> is_error_span p) then 1 else 0))
    \<and> (\<forall>a b. calls_between spans a b \<noteq> [] \<longrightarrow>
        (\<exists>e \<in> set (sf_edges (flowFromSpans spans)). fe_source e = a \<and> fe_target e = b))"
proof -
  let ?em = "foldl (flow_edge_step (spans_by_id spans)) [] spans"
  note entry = flow_edge_entry [OF assms]
  have edges: "sf_edges (flowFromSpans spans) = map snd ?em"
    by (simp add: flowFromSpans_def flow_fold_split map_values_def)
  have "inj_on (\<lambda>x. (fe_source (snd x), fe_target (snd x))) (set ?em)"
  proof (rule inj_onI, clarify)
    fix k e l f
    assume ke: "(k, e) \<in> set ?em" and lf: "(l, f) \<in> set ?em"
      and eq: "fe_source (snd (k, e)) = fe_source (snd (l, f))" "fe_target (snd (k, e)) = fe_target (snd (l, f))"
    have "k = l" using entry(1) [OF ke] entry(1) [OF lf] eq by simp
    then show "k = l \<and> e = f" using eq_key_imp_eq_value [OF flow_edge_keys ke] lf by simp
  qed
  then have "distinct (map (\<lambda>e. (fe_source e, fe_target e)) (map snd ?em))"
    using distinct_mapI [OF flow_edge_keys] by (simp add: distinct_map comp_def)
  moreover have "fe_call_count e = length (calls_between spans (fe_source e) (fe_target e)) \<and> 0 < fe_call_count e
        \<and> fe_error_count e = (if \<exists>s \<in> set (calls_between spans (fe_source e) (fe_target e)). is_error_span s
              \<or> (\<exists>p \<in> set spans. ss_parent_span_id s = Some (ss_span_id p) \<and> is_error_span p) then 1 else 0)"
    if "e \<in> set (map snd ?em)" for e
  proof -
    from that obtain k where k: "(k, e) \<in> set ?em" by auto
    show ?thesis using entry(3-5) [OF k] call_failed_iff [OF assms] by (auto simp: list_ex_iff)
  qed
  moreover have "\<exists>e \<in> set (map snd ?em). fe_source e = a \<and> fe_target e = b" if c: "calls_between spans a b \<noteq> []" for a b
  proof -
    note a = calls_between_nul_free [OF assms c]
    have "map_of ?em (edge_key a b) \<noteq> None"
      using flow_edge_fold [of "spans_by_id spans" spans "edge_key a b"] calls_between_filter [OF assms a, of b] c
      by (simp add: Let_def)
    then obtain e where e: "(edge_key a b, e) \<in> set ?em" by (auto dest: map_of_SomeD)
    from entry(1,2) [OF e] a have "fe_source e = a \<and> fe_target e = b" by (simp add: edge_key_def nul_split_eq)
    with e show ?thesis by force
  qed
  ultimately show ?thesis unfolding edges by blast
qed

text \<open>the graph's nodes are the services of the trace, each once, and a node counts an error
  exactly when one of that service's own spans failed.\<close>

theorem flow_nodes_are_services:
  "distinct (map fn_service_name (sf_nodes (flowFromSpans spans)))
    \<and> set (map fn_service_name (sf_nodes (flowFromSpans spans))) = ss_service_name ` set spans
    \<and> (\<forall>n \<in> set (sf_nodes (flowFromSpans spans)). fn_trace_count n = 1 \<and>
        fn_error_trace_count n = (if \<exists>s \<in> set spans. ss_service_name s = fn_service_name n \<and> is_error_span s then 1 else 0))"
proof -
  let ?nm = "foldl flow_node_step [] spans"
  have nodes: "sf_nodes (flowFromSpans spans) = map (\<lambda>(name, v). \<lparr>fn_service_name = name, fn_trace_count = fst v,
             fn_error_trace_count = snd v, fn_status = None\<rparr>) ?nm"
    by (simp add: flowFromSpans_def flow_fold_split)
  have keys: "map fst ?nm = dedupe (map ss_service_name spans)"
    by (induction spans rule: rev_induct) (auto simp: flow_node_step_def Let_def keys_update dedupe_snoc)
  have get: "map_of ?nm k = (let xs = filter (\<lambda>s. ss_service_name s = k) spans in
      if xs = [] then None else Some (1, if list_ex is_error_span xs then 1 else 0))" for k
    by (induction spans rule: rev_induct) (auto simp: flow_node_step_def Let_def update_conv)
  have "fn_service_name \<circ> (\<lambda>(name, v). \<lparr>fn_service_name = name, fn_trace_count = fst v,
             fn_error_trace_count = snd v, fn_status = None\<rparr>) = fst" by auto
  then have names: "map fn_service_name (sf_nodes (flowFromSpans spans)) = dedupe (map ss_service_name spans)"
    by (simp add: nodes keys)
  have "fn_trace_count n = 1 \<and> fn_error_trace_count n =
      (if \<exists>s \<in> set spans. ss_service_name s = fn_service_name n \<and> is_error_span s then 1 else 0)"
    if "n \<in> set (sf_nodes (flowFromSpans spans))" for n
  proof -
    from that obtain k v where kv: "(k, v) \<in> set ?nm" "n = \<lparr>fn_service_name = k, fn_trace_count = fst v,
        fn_error_trace_count = snd v, fn_status = None\<rparr>" by (auto simp: nodes)
    have "distinct (map fst ?nm)" by (simp only: keys distinct_dedupe)
    with kv(1) have "map_of ?nm k = Some v" by (simp add: map_of_is_SomeI)
    with get [of k] kv(2) show ?thesis by (auto simp: Let_def list_ex_iff split: if_splits)
  qed
  then show ?thesis using names by simp
qed

section \<open>The order of a signature\<close>

lemma signature_bfs_props:
  "distinct order \<Longrightarrow> distinct (signature_bfs adjacency order queue)
    \<and> set order \<union> set queue \<subseteq> set (signature_bfs adjacency order queue)
    \<and> set (signature_bfs adjacency order queue) \<subseteq> set order \<union> set queue \<union> \<Union> (set ` snd ` set adjacency)"
proof (induction adjacency order queue rule: signature_bfs.induct)
  case (2 adjacency order cur queue)
  have sub: "set (coalesce (map_of adjacency cur) []) \<subseteq> \<Union> (set ` snd ` set adjacency)"
    by (cases "map_of adjacency cur") (force dest: map_of_SomeD)+
  show ?case
  proof (cases "cur \<in> set order")
    case True
    with 2 show ?thesis by (auto simp: signature_bfs.simps)
  next
    case False
    with 2(2) [OF False] 2(3) sub show ?thesis by (simp add: signature_bfs.simps) blast
  qed
qed (simp add: signature_bfs.simps)

lemma link_map_values:
  "\<Union> (set ` snd ` set (link_map key val nodes edges)) \<subseteq> val ` set edges"
proof -
  have start: "\<Union> (set ` snd ` set (map_of_entries fn_service_name (\<lambda>_. []) nodes)) \<subseteq> ({} :: jstring set)"
  proof -
    have "snd e = []" if "e \<in> set (map_of_entries fn_service_name (\<lambda>_. []::jstring list) nodes)" for e
    proof -
      have "map_of (map_of_entries fn_service_name (\<lambda>_. []::jstring list) nodes) (fst e) = Some (snd e)"
        using that by (intro map_of_is_SomeI) auto
      then show ?thesis by (auto simp: map_of_map_of_entries)
    qed
    then show ?thesis by auto
  qed
  have "\<Union> (set ` snd ` set (foldl (\<lambda>m e. case map_of m (key e) of None \<Rightarrow> m
        | Some xs \<Rightarrow> AList.update (key e) (xs @ [val e]) m) m es)) \<subseteq> \<Union> (set ` snd ` set m) \<union> val ` set es"
    for m :: "(jstring \<times> jstring list) list" and es
  proof (induction es arbitrary: m)
    case (Cons e es)
    have "\<Union> (set ` snd ` set (case map_of m (key e) of None \<Rightarrow> m
        | Some xs \<Rightarrow> AList.update (key e) (xs @ [val e]) m)) \<subseteq> insert (val e) (\<Union> (set ` snd ` set m))"
    proof (cases "map_of m (key e)")
      case (Some xs)
      have "set (AList.update (key e) (xs @ [val e]) m) \<subseteq> insert (key e, xs @ [val e]) (set m)"
        by (induction m) auto
      with Some show ?thesis by (force dest: map_of_SomeD)
    qed auto
    with Cons.IH show ?case by simp blast
  qed simp
  from this [of "map_of_entries fn_service_name (\<lambda>_. []) nodes" edges] start show ?thesis
    unfolding link_map_def by blast
qed

text \<open>the signature names every service of the flow exactly once, starting with those nobody calls,
  whatever the edges are; a flow whose services all call each other in a circle still names them all.\<close>

theorem signature_names_each_service_once:
  assumes "distinct (map fn_service_name nodes)"
    and "\<forall>e \<in> set edges. fe_target e \<in> fn_service_name ` set nodes"
  shows "distinct (flow_order nodes edges) \<and> set (flow_order nodes edges) = fn_service_name ` set nodes
    \<and> length (flow_order nodes edges) = length nodes"
proof -
  define adj where "adj = link_map fe_source fe_target nodes edges"
  define srcs where "srcs = filter (\<lambda>n. coalesce (map_of (link_map fe_target fe_source nodes edges) n) [] = []) (map fn_service_name nodes)"
  define ord where "ord = signature_bfs adj [] srcs"
  have fo: "flow_order nodes edges = ord @ filter (\<lambda>n. n \<notin> set ord) (map fn_service_name nodes)"
    by (simp add: flow_order_def Let_def adj_def srcs_def ord_def)
  have o: "distinct ord" "set ord \<subseteq> set srcs \<union> \<Union> (set ` snd ` set adj)"
    using signature_bfs_props [of "[]" adj srcs] by (auto simp: ord_def)
  have "set ord \<subseteq> fn_service_name ` set nodes"
  proof -
    have "set srcs \<subseteq> fn_service_name ` set nodes" by (auto simp: srcs_def)
    moreover have "fe_target ` set edges \<subseteq> fn_service_name ` set nodes" using assms(2) by blast
    ultimately show ?thesis
      using o(2) link_map_values [of fe_source fe_target nodes edges] unfolding adj_def by blast
  qed
  then have "set (flow_order nodes edges) = fn_service_name ` set nodes" by (auto simp: fo)
  moreover have "distinct (flow_order nodes edges)" using o(1) assms(1) by (auto simp: fo)
  ultimately show ?thesis using assms(1)
    by (metis distinct_card length_map list.set_map)
qed

section \<open>Examples\<close>

lemma flow_counts_calls_ex:
  "clean_trace demo_trace \<and> (\<exists>e \<in> set (sf_edges (flowFromSpans demo_trace)). fe_source e = js ''poller'' \<and> fe_target e = js ''reader'')"
proof -
  have "calls_between demo_trace (js ''poller'') (js ''reader'') \<noteq> []" by code_simp
  with flow_counts_calls [OF demo_trace_clean] demo_trace_clean show ?thesis by blast
qed

lemma flow_nodes_are_services_ex:
  "distinct (map fn_service_name (sf_nodes (flowFromSpans demo_trace)))
    \<and> set (map fn_service_name (sf_nodes (flowFromSpans demo_trace))) = {js ''poller'', js ''reader''}"
proof -
  have "ss_service_name ` set demo_trace = {js ''poller'', js ''reader''}" by (simp add: demo_trace_def plain_span_def)
  with flow_nodes_are_services [of demo_trace] show ?thesis by simp
qed

lemma signature_names_each_service_once_ex:
  "length (flow_order (map (\<lambda>s. \<lparr>fn_service_name = s, fn_trace_count = 1, fn_error_trace_count = 0, fn_status = None\<rparr>)
      [js ''a'', js ''b''])
    [\<lparr>fe_source = js ''a'', fe_target = js ''b'', fe_call_count = 1, fe_error_count = 0, fe_link = False\<rparr>,
     \<lparr>fe_source = js ''b'', fe_target = js ''a'', fe_call_count = 1, fe_error_count = 0, fe_link = False\<rparr>]) = 2"
  by (subst signature_names_each_service_once [THEN conjunct2, THEN conjunct2]) simp_all

end
