(* ===== verification/FlowLayout.thy ===== *)
theory FlowLayout
  imports ApiTypes Collections
begin

text \<open>
  The left-to-right layout of the service maps: \<open>computeLayout\<close> with \<open>nodeWidthFor\<close> and
  \<open>fitServiceName\<close> of \<open>components/ServiceFlowGraph.tsx\<close>, and \<open>layout\<close> with \<open>maxNameLines\<close> of
  \<open>components/IntegrationFlow.tsx\<close>.  The two share the depth assignment and the column placement,
  so those are defined once.  Pixels are rationals: the columns are centred by halving a height,
  and the label width \<open>6.6\<close> is the decimal fraction, not its nearest double.
\<close>

section \<open>Depths\<close>

definition incoming_map :: "flow_node list \<Rightarrow> flow_edge list \<Rightarrow> (jstring \<times> jstring list) list" where
  "incoming_map nodes edges = foldl (\<lambda>m e. map_push m (fe_target e) (fe_source e))
     (map_of_entries fn_service_name (\<lambda>_. []) nodes) edges"

definition sources_of :: "(jstring \<times> jstring list) list \<Rightarrow> jstring \<Rightarrow> jstring list" where
  "sources_of incoming name = coalesce (map_of incoming name) []"

text \<open>
  \<open>depth(name)\<close> with its memo \<open>depths\<close> threaded through and \<open>visiting\<close> passed down (the source
  removes the name again on return), and the \<open>ins.map(depth)\<close> of its body.
\<close>

function flow_depth ::
    "(jstring \<times> jstring list) list \<Rightarrow> (jstring \<times> nat) list \<Rightarrow> jstring list \<Rightarrow> jstring \<Rightarrow> nat \<times> (jstring \<times> nat) list"
  and flow_depths ::
    "(jstring \<times> jstring list) list \<Rightarrow> (jstring \<times> nat) list \<Rightarrow> jstring list \<Rightarrow> jstring list \<Rightarrow> nat list \<times> (jstring \<times> nat) list"
where
  "flow_depth incoming memo visiting name =
     (case map_of memo name of
        Some d \<Rightarrow> (d, memo)
      | None \<Rightarrow>
          if name \<in> set visiting then (0, memo)
          else if sources_of incoming name = [] then (0, AList.update name 0 memo)
          else (let (ds, memo') = flow_depths incoming memo (name # visiting) (sources_of incoming name);
                    d = foldl max 0 ds + 1
                in (d, AList.update name d memo')))"
| "flow_depths incoming memo visiting [] = ([], memo)"
| "flow_depths incoming memo visiting (x # xs) =
     (let (d, memo1) = flow_depth incoming memo visiting x;
          (ds, memo2) = flow_depths incoming memo1 visiting xs
      in (d # ds, memo2))"
  by pat_completeness auto
termination
proof (relation "measures [
    \<lambda>v. case v of Inl (incoming, memo, visiting, name) \<Rightarrow> card (fst ` set incoming - set visiting)
        | Inr (incoming, memo, visiting, xs) \<Rightarrow> card (fst ` set incoming - set visiting),
    \<lambda>v. case v of Inl _ \<Rightarrow> 0 | Inr (incoming, memo, visiting, xs) \<Rightarrow> Suc (length xs)]", goal_cases)
  case (2 incoming memo visiting name)
  then have "name \<in> fst ` set incoming"
    by (cases "map_of incoming name") (force simp: sources_of_def dest: map_of_SomeD)+
  with 2(2) have "fst ` set incoming - set (name # visiting) \<subset> fst ` set incoming - set visiting" by auto
  then have "card (fst ` set incoming - set (name # visiting)) < card (fst ` set incoming - set visiting)"
    by (intro psubset_card_mono) auto
  then show ?case by simp
qed auto

declare flow_depth.simps [simp del]

definition all_depths :: "flow_node list \<Rightarrow> flow_edge list \<Rightarrow> (jstring \<times> nat) list" where
  "all_depths nodes edges =
     foldl (\<lambda>memo n. snd (flow_depth (incoming_map nodes edges) memo [] (fn_service_name n))) [] nodes"

section \<open>Columns and positions\<close>

record node_pos =
  np_x :: rat
  np_y :: rat

record flow_layout =
  fl_width :: rat
  fl_height :: rat
  fl_nodes :: "(jstring \<times> node_pos) list"

definition COL_GAP :: rat where "COL_GAP = 80"
definition ROW_GAP :: rat where "ROW_GAP = 28"

definition column_of :: "(jstring \<times> nat) list \<Rightarrow> jstring \<Rightarrow> nat" where
  "column_of depths name = coalesce (map_of depths name) 0"

definition flow_columns :: "flow_node list \<Rightarrow> (jstring \<times> nat) list \<Rightarrow> (nat \<times> jstring list) list" where
  "flow_columns nodes depths =
     foldl (\<lambda>m n. map_push m (column_of depths (fn_service_name n)) (fn_service_name n)) [] nodes"

definition max_depth :: "flow_node list \<Rightarrow> (jstring \<times> nat) list \<Rightarrow> nat" where
  "max_depth nodes depths = foldl (\<lambda>m n. let d = column_of depths (fn_service_name n) in if m < d then d else m) 0 nodes"

definition max_column :: "(nat \<times> jstring list) list \<Rightarrow> nat" where
  "max_column columns = foldl (\<lambda>m c. if m < length (snd c) then length (snd c) else m) 0 columns"

definition stack_height :: "rat \<Rightarrow> nat \<Rightarrow> rat" where
  "stack_height nodeH k = of_nat k * nodeH + (of_nat k - 1) * ROW_GAP"

definition inner_height :: "rat \<Rightarrow> (nat \<times> jstring list) list \<Rightarrow> rat" where
  "inner_height nodeH columns = max nodeH (stack_height nodeH (max_column columns))"

definition column_positions ::
  "rat \<Rightarrow> rat \<Rightarrow> rat \<Rightarrow> rat \<Rightarrow> nat \<times> jstring list \<Rightarrow> (jstring \<times> node_pos) list" where
  "column_positions pad nodeW nodeH innerH col = (case col of (d, services) \<Rightarrow>
     let startY = pad + (innerH - stack_height nodeH (length services)) / 2
     in map (\<lambda>i. (services ! i, \<lparr>np_x = pad + of_nat d * (nodeW + COL_GAP), np_y = startY + of_nat i * (nodeH + ROW_GAP)\<rparr>))
          [0..<length services])"

definition place_columns :: "rat \<Rightarrow> rat \<Rightarrow> rat \<Rightarrow> (nat \<times> jstring list) list \<Rightarrow> (jstring \<times> node_pos) list" where
  "place_columns pad nodeW nodeH columns =
     map_of_entries fst snd (concat (map (column_positions pad nodeW nodeH (inner_height nodeH columns)) columns))"

definition PADDING :: rat where "PADDING = 24"
definition NODE_H :: rat where "NODE_H = 56"

definition computeLayout :: "flow_node list \<Rightarrow> flow_edge list \<Rightarrow> rat \<Rightarrow> flow_layout" where
  "computeLayout nodes edges nodeW =
     (let depths = all_depths nodes edges; columns = flow_columns nodes depths;
          maxDepth = max_depth nodes depths
      in \<lparr>fl_width = (of_nat maxDepth + 1) * nodeW + of_nat maxDepth * COL_GAP + PADDING * 2,
          fl_height = inner_height NODE_H columns + PADDING * 2,
          fl_nodes = place_columns PADDING nodeW NODE_H columns\<rparr>)"

text \<open>The integration flow uses no padding and boxes of a fixed width.\<close>

definition FLOW_NODE_W :: rat where "FLOW_NODE_W = 180"

definition integration_layout :: "flow_node list \<Rightarrow> flow_edge list \<Rightarrow> rat \<Rightarrow> (jstring \<times> node_pos) list" where
  "integration_layout nodes edges nodeH =
     (if nodes = [] then []
      else place_columns 0 FLOW_NODE_W nodeH (flow_columns nodes (all_depths nodes edges)))"

section \<open>Sizing the boxes\<close>

definition longest_name :: "jstring list \<Rightarrow> nat" where
  "longest_name names = foldl (\<lambda>m n. max m (length n)) 0 names"

definition PX_PER_CHAR :: rat where "PX_PER_CHAR = 66 / 10"
definition NODE_CHROME :: int where "NODE_CHROME = 24"
definition MIN_NODE_W :: int where "MIN_NODE_W = 168"
definition MAX_NODE_W :: int where "MAX_NODE_W = 320"

definition nodeWidthFor :: "jstring list \<Rightarrow> int" where
  "nodeWidthFor names =
     min MAX_NODE_W (max MIN_NODE_W (\<lceil>of_nat (longest_name names) * PX_PER_CHAR\<rceil> + NODE_CHROME))"

definition fitServiceName :: "jstring \<Rightarrow> int \<Rightarrow> jstring" where
  "fitServiceName name width =
     (let mx = \<lfloor>of_int (width - NODE_CHROME) / PX_PER_CHAR\<rfloor>
      in if int (length name) \<le> mx then name else take (nat (max 1 (mx - 1))) name @ [ellipsis])"

definition NAME_CHARS_PER_LINE :: rat where "NAME_CHARS_PER_LINE = 24"
definition MAX_NAME_LINES :: int where "MAX_NAME_LINES = 2"

definition maxNameLines :: "jstring list \<Rightarrow> int" where
  "maxNameLines names =
     min MAX_NAME_LINES (max 1 \<lceil>of_nat (longest_name names) / NAME_CHARS_PER_LINE\<rceil>)"

definition flow_node_height :: "bool \<Rightarrow> jstring list \<Rightarrow> int" where
  "flow_node_height hasSchemas names = (if hasSchemas then 122 else 76) + (maxNameLines names - 1) * 18"

section \<open>Depths respect the edges\<close>

text \<open>A memo is good when every recorded depth is above those of all its sources, which are recorded
  too, and is either 0 or exactly one more than some source.\<close>

definition memo_ok :: "(jstring \<times> jstring list) list \<Rightarrow> (jstring \<times> nat) list \<Rightarrow> bool" where
  "memo_ok incoming memo \<longleftrightarrow> (\<forall>n d. map_of memo n = Some d \<longrightarrow>
     (\<forall>x \<in> set (sources_of incoming n). \<exists>e. map_of memo x = Some e \<and> e < d)
     \<and> (d = 0 \<or> (\<exists>x \<in> set (sources_of incoming n). map_of memo x = Some (d - 1))))"

lemma le_foldl_max: "(a::nat) \<le> foldl max a xs"
  by (induction xs arbitrary: a) (auto intro: le_trans [OF max.cobounded1])

lemma foldl_max_ge: "x \<in> set xs \<Longrightarrow> x \<le> foldl max (a::nat) xs"
proof (induction xs arbitrary: a)
  case (Cons y ys)
  then show ?case using le_trans [OF max.cobounded2 le_foldl_max [of "max a y" ys]] by auto
qed simp

lemma foldl_max_in: "foldl max (a::nat) xs = a \<or> foldl max a xs \<in> set xs"
proof (induction xs arbitrary: a)
  case (Cons y ys)
  from Cons [of "max a y"] show ?case by (auto simp: max_def split: if_splits)
qed simp

lemma memo_ok_update:
  assumes "memo_ok incoming memo" "map_of memo n = None" "n \<notin> set (sources_of incoming n)"
    and "\<forall>x \<in> set (sources_of incoming n). \<exists>e. map_of memo x = Some e \<and> e < d"
    and "d = 0 \<or> (\<exists>x \<in> set (sources_of incoming n). map_of memo x = Some (d - 1))"
  shows "memo_ok incoming (AList.update n d memo)"
  unfolding memo_ok_def update_conv
proof (intro allI impI conjI)
  fix m k assume mk: "((map_of memo)(n \<mapsto> d)) m = Some k"
  show "\<forall>x \<in> set (sources_of incoming m). \<exists>e. ((map_of memo)(n \<mapsto> d)) x = Some e \<and> e < k"
    using assms mk unfolding memo_ok_def by (auto split: if_splits) (metis option.distinct(1))+
  show "k = 0 \<or> (\<exists>x \<in> set (sources_of incoming m). ((map_of memo)(n \<mapsto> d)) x = Some (k - 1))"
    using assms mk unfolding memo_ok_def by (auto split: if_splits) (metis option.distinct(1))+
qed

lemma flow_depth_ok:
  fixes rank :: "jstring \<Rightarrow> nat"
  assumes acyclic: "\<forall>n. \<forall>x \<in> set (sources_of incoming n). rank x < rank n"
  shows "memo_ok incoming memo \<Longrightarrow> \<forall>v \<in> set visiting. rank name < rank v \<Longrightarrow>
      flow_depth incoming memo visiting name = (d, memo') \<Longrightarrow>
      memo_ok incoming memo' \<and> map_of memo' name = Some d \<and> map_of memo \<subseteq>\<^sub>m map_of memo'
      \<and> (\<forall>x. map_of memo' x \<noteq> map_of memo x \<longrightarrow> rank x \<le> rank name)"
    and "memo_ok incoming memo \<Longrightarrow> \<forall>v \<in> set visiting. \<forall>x \<in> set xs. rank x < rank v \<Longrightarrow>
      flow_depths incoming memo visiting xs = (ds, memo') \<Longrightarrow>
      memo_ok incoming memo' \<and> list_all2 (\<lambda>x d. map_of memo' x = Some d) xs ds \<and> map_of memo \<subseteq>\<^sub>m map_of memo'
      \<and> (\<forall>x. map_of memo' x \<noteq> map_of memo x \<longrightarrow> (\<exists>y \<in> set xs. rank x \<le> rank y))"
  using acyclic
proof (induction incoming memo visiting name and incoming memo visiting xs arbitrary: d memo' and ds memo'
    rule: flow_depth_flow_depths.induct)
  case (1 incoming memo visiting name)
  have self: "name \<notin> set (sources_of incoming name)" using 1(5) by auto
  show ?case
  proof (cases "map_of memo name")
    case (Some k)
    with 1(2,4) show ?thesis by (simp add: flow_depth.simps [of _ _ _ name])
  next
    case None
    have nv: "name \<notin> set visiting" using 1(3) by auto
    show ?thesis
    proof (cases "sources_of incoming name = []")
      case True
      with None nv 1(4) have r: "d = 0" "memo' = AList.update name 0 memo"
        by (auto simp: flow_depth.simps [of _ _ _ name])
      have "memo_ok incoming memo'" unfolding r
        by (rule memo_ok_update [OF 1(2) None self]) (simp_all add: True)
      with r None show ?thesis by (auto simp: update_conv map_le_def)
    next
      case False
      obtain ds m2 where w: "flow_depths incoming memo (name # visiting) (sources_of incoming name) = (ds, m2)" by fastforce
      have "\<forall>v \<in> set (name # visiting). \<forall>x \<in> set (sources_of incoming name). rank x < rank v"
        using 1(3,5) by (auto intro: less_trans)
      from 1(1) [OF None nv False 1(2) this w 1(5)]
      have ih: "memo_ok incoming m2" "list_all2 (\<lambda>x d. map_of m2 x = Some d) (sources_of incoming name) ds"
        "map_of memo \<subseteq>\<^sub>m map_of m2" "\<forall>x. map_of m2 x \<noteq> map_of memo x \<longrightarrow> (\<exists>y \<in> set (sources_of incoming name). rank x \<le> rank y)"
        by auto
      have r: "d = foldl max 0 ds + 1" "memo' = AList.update name (foldl max 0 ds + 1) m2"
        using 1(4) None nv False w by (auto simp: flow_depth.simps [of _ _ _ name] Let_def)
      have none2: "map_of m2 name = None"
      proof (rule ccontr)
        assume "map_of m2 name \<noteq> None"
        with None ih(4) obtain y where "y \<in> set (sources_of incoming name)" "rank name \<le> rank y" by force
        with 1(5) show False by (auto simp: not_less [symmetric])
      qed
      have src: "\<exists>e. map_of m2 x = Some e \<and> e \<in> set ds" if "x \<in> set (sources_of incoming name)" for x
        using list_all2_left [OF ih(2) that] by blast
      have src_of: "\<exists>x \<in> set (sources_of incoming name). map_of m2 x = Some e" if "e \<in> set ds" for e
        using list_all2_right [OF ih(2) that] by blast
      have "memo_ok incoming memo'" unfolding r
      proof (rule memo_ok_update [OF ih(1) none2 self])
        show "\<forall>x \<in> set (sources_of incoming name). \<exists>e. map_of m2 x = Some e \<and> e < foldl max 0 ds + 1"
          using src foldl_max_ge by (metis less_Suc_eq_le Suc_eq_plus1)
        have "ds \<noteq> []" using False ih(2) by auto
        then have "foldl max 0 ds \<in> set ds"
          using foldl_max_in [of 0 ds] foldl_max_ge [of "hd ds" ds 0] by (metis hd_in_set le_zero_eq)
        from src_of [OF this] show "foldl max 0 ds + 1 = 0 \<or>
            (\<exists>x \<in> set (sources_of incoming name). map_of m2 x = Some (foldl max 0 ds + 1 - 1))" by simp
      qed
      moreover have "rank x \<le> rank name" if "map_of memo' x \<noteq> map_of memo x" for x
        proof (cases "x = name")
        case False
        with that r(2) have "map_of m2 x \<noteq> map_of memo x" by (simp add: update_conv)
        with ih(4) obtain y where "y \<in> set (sources_of incoming name)" "rank x \<le> rank y" by blast
        with 1(5) show ?thesis by (meson le_trans less_imp_le)
      qed simp
      ultimately show ?thesis using ih(3) none2 r None
        by (auto simp: update_conv map_le_def)
    qed
  qed
next
  case (2 incoming memo visiting)
  then show ?case by auto
next
  case (3 incoming memo visiting x xs)
  obtain k m1 where w1: "flow_depth incoming memo visiting x = (k, m1)" by fastforce
  obtain ks m2 where w2: "flow_depths incoming m1 visiting xs = (ks, m2)" by fastforce
  have i1: "memo_ok incoming m1 \<and> map_of m1 x = Some k \<and> map_of memo \<subseteq>\<^sub>m map_of m1
      \<and> (\<forall>y. map_of m1 y \<noteq> map_of memo y \<longrightarrow> rank y \<le> rank x)"
    by (rule 3(1) [OF 3(3) _ w1 3(6)]) (use 3(4) in auto)
  have i2: "memo_ok incoming m2 \<and> list_all2 (\<lambda>x d. map_of m2 x = Some d) xs ks \<and> map_of m1 \<subseteq>\<^sub>m map_of m2
      \<and> (\<forall>x. map_of m2 x \<noteq> map_of m1 x \<longrightarrow> (\<exists>y \<in> set xs. rank x \<le> rank y))"
    using 3(2) [OF w1 [symmetric] refl conjunct1 [OF i1] _ w2 3(6)] 3(4) by auto
  have "ds = k # ks" "memo' = m2" using 3(5) w1 w2 by auto
  with i1 i2 show ?case
    by (auto simp: map_le_def) (metis domI option.inject)+
qed

lemma all_depths_ok:
  fixes rank :: "jstring \<Rightarrow> nat"
  assumes "\<forall>n. \<forall>x \<in> set (sources_of (incoming_map nodes edges) n). rank x < rank n"
  shows "memo_ok (incoming_map nodes edges) (all_depths nodes edges)
    \<and> (\<forall>n \<in> set nodes. \<exists>d. map_of (all_depths nodes edges) (fn_service_name n) = Some d)"
proof -
  let ?inc = "incoming_map nodes edges"
  let ?run = "foldl (\<lambda>memo n. snd (flow_depth ?inc memo [] (fn_service_name n)))"
  have "memo_ok ?inc (?run memo ns) \<and> map_of memo \<subseteq>\<^sub>m map_of (?run memo ns)
      \<and> (\<forall>n \<in> set ns. fn_service_name n \<in> dom (map_of (?run memo ns)))"
    if "memo_ok ?inc memo" for memo and ns :: "flow_node list"
    using that
  proof (induction ns arbitrary: memo)
    case (Cons n ns)
    obtain d m where w: "flow_depth ?inc memo [] (fn_service_name n) = (d, m)" by fastforce
    have m: "memo_ok ?inc m" "map_of m (fn_service_name n) = Some d" "map_of memo \<subseteq>\<^sub>m map_of m"
      using flow_depth_ok(1) [OF assms Cons.prems _ w] by auto
    have ih: "memo_ok ?inc (?run m ns)" "map_of m \<subseteq>\<^sub>m map_of (?run m ns)"
      "\<forall>n \<in> set ns. fn_service_name n \<in> dom (map_of (?run m ns))"
      using Cons.IH [OF m(1)] by auto
    have "fn_service_name n \<in> dom (map_of (?run m ns))"
      using m(2) map_le_implies_dom_le [OF ih(2)] by (meson domI subsetD)
    with ih map_le_trans [OF m(3) ih(2)] w show ?case by simp
  qed simp
  from this [of "[]" nodes] show ?thesis by (auto simp: all_depths_def memo_ok_def [of _ "[]"])
qed

lemma sources_of_incoming:
  "sources_of (incoming_map nodes edges) n = map fe_source (filter (\<lambda>e. fe_target e = n) edges)"
proof -
  have start: "coalesce (map_of (map_of_entries fn_service_name (\<lambda>_. []) nodes) n) [] = ([] :: jstring list)"
    by (cases "map_of (map_of_entries fn_service_name (\<lambda>_. []::jstring list) nodes) n")
      (auto simp: map_of_map_of_entries)
  have "coalesce (map_of (foldl (\<lambda>m e. map_push m (fe_target e) (fe_source e)) m es) n) [] =
      coalesce (map_of m n) [] @ map fe_source (filter (\<lambda>e. fe_target e = n) es)"
    for m :: "(jstring \<times> jstring list) list" and es :: "flow_edge list"
    by (induction es arbitrary: m) (auto simp: map_push_def update_conv)
  with start show ?thesis by (simp add: sources_of_def incoming_map_def)
qed

section \<open>Where the boxes go\<close>

lemma flow_columns_eq: "flow_columns nodes depths = group_by (column_of depths) (map fn_service_name nodes)"
  by (simp add: flow_columns_def group_by_def foldl_map)

lemma column_positions_fst [simp]: "map fst (column_positions pad w h H (d, ss)) = ss"
  by (simp add: column_positions_def Let_def comp_def map_nth)

lemma place_columns_get:
  fixes f :: "jstring \<Rightarrow> nat"
  assumes "distinct names" "s \<in> set names"
  defines "col \<equiv> filter (\<lambda>t. f t = f s) names"
  shows "\<exists>i < length col. col ! i = s \<and> map_of (place_columns pad w h (group_by f names)) s =
    Some \<lparr>np_x = pad + of_nat (f s) * (w + COL_GAP),
      np_y = pad + (inner_height h (group_by f names) - stack_height h (length col)) / 2 + of_nat i * (h + ROW_GAP)\<rparr>"
proof -
  let ?H = "inner_height h (group_by f names)"
  let ?ps = "concat (map (column_positions pad w h ?H) (group_by f names))"
  have "map fst ?ps = concat (map_values (group_by f names))"
    by (simp add: map_concat comp_def map_values_def) (metis (no_types, lifting) column_positions_fst map_eq_conv prod.collapse)
  then have "mset (map fst ?ps) = mset names" by (simp only: mset_values_group_by)
  then have d: "distinct (map fst ?ps)" using assms(1) by (metis mset_eq_imp_distinct_iff)
  then have pc: "place_columns pad w h (group_by f names) = ?ps"
    by (simp add: place_columns_def map_of_entries_distinct)
  have "s \<in> set col" using assms(2) by (simp add: col_def)
  then obtain i where i: "i < length col" "col ! i = s" by (auto simp: in_set_conv_nth)
  have "(f s, col) \<in> set (group_by f names)" using assms(2) by (auto simp: group_by_alt col_def)
  then have "(s, \<lparr>np_x = pad + of_nat (f s) * (w + COL_GAP),
      np_y = pad + (?H - stack_height h (length col)) / 2 + of_nat i * (h + ROW_GAP)\<rparr>) \<in> set ?ps"
    using i by (fastforce simp: column_positions_def Let_def)
  with d have "map_of ?ps s = Some \<lparr>np_x = pad + of_nat (f s) * (w + COL_GAP),
      np_y = pad + (?H - stack_height h (length col)) / 2 + of_nat i * (h + ROW_GAP)\<rparr>"
    by (rule map_of_is_SomeI)
  with i pc show ?thesis by auto
qed

definition boxes_apart :: "rat \<Rightarrow> rat \<Rightarrow> node_pos \<Rightarrow> node_pos \<Rightarrow> bool" where
  "boxes_apart w h p q \<longleftrightarrow>
     np_x p + w + COL_GAP \<le> np_x q \<or> np_x q + w + COL_GAP \<le> np_x p
     \<or> np_y p + h + ROW_GAP \<le> np_y q \<or> np_y q + h + ROW_GAP \<le> np_y p"

lemma scaled_gap: "0 \<le> (g::rat) \<Longrightarrow> (m::nat) < n \<Longrightarrow> of_nat m * g + g \<le> of_nat n * g"
proof -
  assume g: "0 \<le> g" and mn: "m < n"
  then have "(of_nat (Suc m) :: rat) \<le> of_nat n" by (simp only: of_nat_le_iff Suc_le_eq)
  from mult_right_mono [OF this g] show ?thesis by (simp add: algebra_simps)
qed

lemma placed_apart:
  assumes "distinct names" "s \<in> set names" "t \<in> set names" "s \<noteq> t" "0 \<le> w" "0 \<le> h"
    and "map_of (place_columns pad w h (group_by f names)) s = Some p"
    and "map_of (place_columns pad w h (group_by f names)) t = Some q"
  shows "boxes_apart w h p q"
proof -
  let ?P = "map_of (place_columns pad w h (group_by f names))"
  obtain i where i: "filter (\<lambda>u. f u = f s) names ! i = s"
    "p = \<lparr>np_x = pad + of_nat (f s) * (w + COL_GAP),
      np_y = pad + (inner_height h (group_by f names) - stack_height h (length (filter (\<lambda>u. f u = f s) names))) / 2 + of_nat i * (h + ROW_GAP)\<rparr>"
    using place_columns_get [OF assms(1,2), of f pad w h] assms(7) by auto
  obtain j where j: "filter (\<lambda>u. f u = f t) names ! j = t"
    "q = \<lparr>np_x = pad + of_nat (f t) * (w + COL_GAP),
      np_y = pad + (inner_height h (group_by f names) - stack_height h (length (filter (\<lambda>u. f u = f t) names))) / 2 + of_nat j * (h + ROW_GAP)\<rparr>"
    using place_columns_get [OF assms(1,3), of f pad w h] assms(8) by auto
  have gap: "0 \<le> w + COL_GAP" "0 \<le> h + ROW_GAP" using assms(5,6) by (simp_all add: COL_GAP_def ROW_GAP_def)
  show ?thesis
  proof (cases "f s = f t")
    case True
    with i(1) j(1) assms(4) have "i < j \<or> j < i" by (metis linorder_neqE_nat)
    with scaled_gap [OF gap(2), of i j] scaled_gap [OF gap(2), of j i] True
    show ?thesis by (auto simp: boxes_apart_def i(2) j(2))
  next
    case False
    then have "f s < f t \<or> f t < f s" by auto
    with scaled_gap [OF gap(1), of "f s" "f t"] scaled_gap [OF gap(1), of "f t" "f s"]
    show ?thesis by (auto simp: boxes_apart_def i(2) j(2))
  qed
qed

lemma computeLayout_nodes:
  "fl_nodes (computeLayout nodes edges w) =
     place_columns PADDING w NODE_H (group_by (column_of (all_depths nodes edges)) (map fn_service_name nodes))"
  by (simp add: computeLayout_def Let_def flow_columns_eq)

lemma integration_layout_nodes:
  "nodes \<noteq> [] \<Longrightarrow> integration_layout nodes edges h =
     place_columns 0 FLOW_NODE_W h (group_by (column_of (all_depths nodes edges)) (map fn_service_name nodes))"
  by (simp add: integration_layout_def flow_columns_eq)

text \<open>C7: no two services are drawn over each other: in both maps every service has a position, and
  the boxes of two services are separated by a full column gap or a full row gap, whatever the edges
  are (cycles included).\<close>

theorem flow_boxes_never_overlap:
  assumes "distinct (map fn_service_name nodes)" and "m \<in> set nodes" "n \<in> set nodes" "m \<noteq> n"
    and "0 \<le> w" "0 \<le> h"
  shows "(\<exists>p q. map_of (fl_nodes (computeLayout nodes edges w)) (fn_service_name m) = Some p
      \<and> map_of (fl_nodes (computeLayout nodes edges w)) (fn_service_name n) = Some q \<and> boxes_apart w NODE_H p q)
    \<and> (\<exists>p q. map_of (integration_layout nodes edges h) (fn_service_name m) = Some p
      \<and> map_of (integration_layout nodes edges h) (fn_service_name n) = Some q \<and> boxes_apart FLOW_NODE_W h p q)"
proof -
  let ?names = "map fn_service_name nodes" and ?f = "column_of (all_depths nodes edges)"
  have mn: "fn_service_name m \<in> set ?names" "fn_service_name n \<in> set ?names" "fn_service_name m \<noteq> fn_service_name n"
    using assms(1-4) by (auto simp: distinct_map dest: inj_onD)
  have both: "\<exists>p q. map_of (place_columns pad x y (group_by ?f ?names)) (fn_service_name m) = Some p
      \<and> map_of (place_columns pad x y (group_by ?f ?names)) (fn_service_name n) = Some q \<and> boxes_apart x y p q"
    if "0 \<le> x" "0 \<le> y" for pad x y
  proof -
    obtain p q where "map_of (place_columns pad x y (group_by ?f ?names)) (fn_service_name m) = Some p"
      "map_of (place_columns pad x y (group_by ?f ?names)) (fn_service_name n) = Some q"
      using place_columns_get [OF assms(1) mn(1)] place_columns_get [OF assms(1) mn(2)] by blast
    with placed_apart [OF assms(1) mn that] show ?thesis by blast
  qed
  have ne: "nodes \<noteq> []" using assms(2) by auto
  have pos: "0 \<le> NODE_H" "0 \<le> FLOW_NODE_W" by (simp_all add: NODE_H_def FLOW_NODE_W_def)
  show ?thesis unfolding computeLayout_nodes integration_layout_nodes [OF ne]
    using both [OF assms(5) pos(1)] both [OF pos(2) assms(6)] by blast
qed

lemma max_depth_ge: "n \<in> set nodes \<Longrightarrow> column_of depths (fn_service_name n) \<le> max_depth nodes depths"
proof -
  have "max_depth nodes depths = foldl max 0 (map (\<lambda>n. column_of depths (fn_service_name n)) nodes)"
  proof -
    have "(if (a::nat) < b then b else a) = max a b" for a b by (simp add: max_def)
    then show ?thesis by (simp add: max_depth_def foldl_map Let_def)
  qed
  then show "n \<in> set nodes \<Longrightarrow> ?thesis" by (auto intro: foldl_max_ge)
qed

lemma max_column_ge: "c \<in> set columns \<Longrightarrow> length (snd c) \<le> max_column columns"
proof -
  have "max_column columns = foldl max 0 (map (\<lambda>c. length (snd c)) columns)"
  proof -
    have "(if (a::nat) < b then b else a) = max a b" for a b by (simp add: max_def)
    then show ?thesis by (simp add: max_column_def foldl_map)
  qed
  then show "c \<in> set columns \<Longrightarrow> ?thesis" by (auto intro: foldl_max_ge)
qed

lemma stack_height_mono: "0 \<le> h \<Longrightarrow> k \<le> l \<Longrightarrow> stack_height h k \<le> stack_height h l"
proof -
  assume h: "0 \<le> h" and kl: "k \<le> l"
  then have "(of_nat k :: rat) \<le> of_nat l" by simp
  with mult_right_mono [OF this h] show ?thesis by (simp add: stack_height_def ROW_GAP_def)
qed

lemma centred_inside:
  fixes st :: rat
  assumes "st \<le> H" "0 \<le> a" "a + h \<le> st"
  shows "pad \<le> pad + (H - st) / 2 + a \<and> pad + (H - st) / 2 + a + h \<le> H + pad * 2 - pad"
  using assms by (simp add: field_simps)

text \<open>the drawing area holds every box with its padding: horizontally and vertically each
  service's box lies between the padding and the far edge minus the padding.\<close>

theorem flow_boxes_inside_canvas:
  assumes "distinct (map fn_service_name nodes)" and "n \<in> set nodes" and "0 \<le> w"
  shows "\<exists>p. map_of (fl_nodes (computeLayout nodes edges w)) (fn_service_name n) = Some p
    \<and> PADDING \<le> np_x p \<and> np_x p + w \<le> fl_width (computeLayout nodes edges w) - PADDING
    \<and> PADDING \<le> np_y p \<and> np_y p + NODE_H \<le> fl_height (computeLayout nodes edges w) - PADDING"
proof -
  let ?names = "map fn_service_name nodes" and ?D = "all_depths nodes edges"
  let ?f = "column_of ?D" and ?s = "fn_service_name n"
  let ?cols = "group_by ?f ?names" and ?col = "filter (\<lambda>t. ?f t = ?f ?s) ?names"
  have s: "?s \<in> set ?names" using assms(2) by simp
  obtain i where i: "i < length ?col" and p: "map_of (place_columns PADDING w NODE_H ?cols) ?s =
      Some \<lparr>np_x = PADDING + of_nat (?f ?s) * (w + COL_GAP),
        np_y = PADDING + (inner_height NODE_H ?cols - stack_height NODE_H (length ?col)) / 2 + of_nat i * (NODE_H + ROW_GAP)\<rparr>"
    using place_columns_get [OF assms(1) s, of ?f PADDING w NODE_H] by blast
  have mem: "(?f ?s, ?col) \<in> set ?cols" using s unfolding group_by_alt by auto
  have H: "stack_height NODE_H (length ?col) \<le> inner_height NODE_H ?cols"
    using stack_height_mono [OF _ max_column_ge [OF mem], of NODE_H]
    by (simp add: inner_height_def NODE_H_def)
  have x0: "0 \<le> of_nat (?f ?s) * (w + COL_GAP)" using assms(3) by (simp add: COL_GAP_def)
  have "of_nat (?f ?s) \<le> (of_nat (max_depth nodes ?D) :: rat)" using max_depth_ge [OF assms(2)] by simp
  then have x1: "of_nat (?f ?s) * (w + COL_GAP) \<le> of_nat (max_depth nodes ?D) * (w + COL_GAP)"
    using assms(3) by (intro mult_right_mono) (simp_all add: COL_GAP_def)
  have "of_nat i * (NODE_H + ROW_GAP) + (NODE_H + ROW_GAP) \<le> of_nat (length ?col) * (NODE_H + ROW_GAP)"
    using i by (intro scaled_gap) (simp_all add: NODE_H_def ROW_GAP_def)
  then have y1: "of_nat i * (NODE_H + ROW_GAP) + NODE_H \<le> stack_height NODE_H (length ?col)"
    by (simp add: stack_height_def algebra_simps)
  have y0: "0 \<le> of_nat i * (NODE_H + ROW_GAP)" by (simp add: NODE_H_def ROW_GAP_def)
  have "PADDING + of_nat (?f ?s) * (w + COL_GAP) + w \<le> fl_width (computeLayout nodes edges w) - PADDING"
    using x1 by (simp add: computeLayout_def Let_def algebra_simps)
  moreover have "fl_height (computeLayout nodes edges w) = inner_height NODE_H ?cols + PADDING * 2"
    by (simp add: computeLayout_def Let_def flow_columns_eq)
  ultimately show ?thesis
    unfolding computeLayout_nodes p
    using x0 centred_inside [OF H y0 y1, of PADDING] by simp
qed

text \<open>the maps read left to right: when the calls between the services have no cycle, the caller's
  box ends a full column gap before the box of the service it calls.\<close>

theorem flow_edges_point_right:
  fixes rank :: "jstring \<Rightarrow> nat"
  assumes "distinct (map fn_service_name nodes)" and "0 \<le> w"
    and "\<forall>e \<in> set edges. rank (fe_source e) < rank (fe_target e)"
    and "e \<in> set edges" "m \<in> set nodes" "n \<in> set nodes"
    and "fe_source e = fn_service_name m" "fe_target e = fn_service_name n"
  shows "\<exists>p q. map_of (fl_nodes (computeLayout nodes edges w)) (fe_source e) = Some p
      \<and> map_of (fl_nodes (computeLayout nodes edges w)) (fe_target e) = Some q \<and> np_x p + w + COL_GAP \<le> np_x q"
proof -
  let ?names = "map fn_service_name nodes" and ?D = "all_depths nodes edges"
  let ?f = "column_of ?D"
  have "\<forall>n. \<forall>x \<in> set (sources_of (incoming_map nodes edges) n). rank x < rank n"
    using assms(3) by (auto simp: sources_of_incoming)
  from all_depths_ok [OF this] have ok: "memo_ok (incoming_map nodes edges) ?D"
    and tgt: "\<exists>d. map_of ?D (fn_service_name n) = Some d" using assms(6) by auto
  have "fe_source e \<in> set (sources_of (incoming_map nodes edges) (fe_target e))"
    using assms(4) by (auto simp: sources_of_incoming)
  with ok tgt have lt: "?f (fe_source e) < ?f (fe_target e)"
    unfolding memo_ok_def assms(8) by (fastforce simp: column_of_def)
  have s: "fe_source e \<in> set ?names" and t: "fe_target e \<in> set ?names" using assms(5-8) by auto
  obtain p q where p: "map_of (fl_nodes (computeLayout nodes edges w)) (fe_source e) = Some p"
      "np_x p = PADDING + of_nat (?f (fe_source e)) * (w + COL_GAP)"
    and q: "map_of (fl_nodes (computeLayout nodes edges w)) (fe_target e) = Some q"
      "np_x q = PADDING + of_nat (?f (fe_target e)) * (w + COL_GAP)"
    using place_columns_get [OF assms(1) s, of ?f PADDING w NODE_H] place_columns_get [OF assms(1) t, of ?f PADDING w NODE_H]
    unfolding computeLayout_nodes by auto
  have "0 \<le> w + COL_GAP" using assms(2) by (simp add: COL_GAP_def)
  from scaled_gap [OF this lt] p q show ?thesis by auto
qed

text \<open>a name that sized the boxes is never cut by them: up to forty-four characters, every name
  of the map is shown whole; a longer one is cut to a label that fits the box.\<close>

theorem names_fit_their_boxes:
  assumes "n \<in> set names"
  shows "(length n \<le> 44 \<longrightarrow> fitServiceName n (nodeWidthFor names) = n)
    \<and> of_nat (length (fitServiceName n (nodeWidthFor names))) * PX_PER_CHAR \<le> of_int (nodeWidthFor names - NODE_CHROME)"
proof -
  let ?w = "nodeWidthFor names"
  define mx where "mx = \<lfloor>of_int (?w - NODE_CHROME) / PX_PER_CHAR\<rfloor>"
  have fit: "fitServiceName n ?w = (if int (length n) \<le> mx then n else take (nat (max 1 (mx - 1))) n @ [ellipsis])"
    unfolding fitServiceName_def Let_def mx_def ..
  have le: "length n \<le> longest_name names"
  proof -
    have "longest_name names = foldl max 0 (map length names)" by (simp add: longest_name_def foldl_map)
    then show ?thesis using assms by (auto intro: foldl_max_ge)
  qed
  have w: "?w - NODE_CHROME = min 296 (max 144 \<lceil>of_nat (longest_name names) * PX_PER_CHAR\<rceil>)"
    by (simp add: nodeWidthFor_def MIN_NODE_W_def MAX_NODE_W_def NODE_CHROME_def min_def max_def)
  have m21: "21 \<le> mx"
  proof -
    have "(144::int) \<le> ?w - NODE_CHROME" unfolding w by linarith
    then have "(144::rat) \<le> of_int (?w - NODE_CHROME)" by linarith
    then show ?thesis unfolding mx_def by (simp add: le_floor_iff PX_PER_CHAR_def field_simps)
  qed
  have whole: "int (length n) \<le> mx" if "length n \<le> 44"
  proof -
    have "of_nat (length n) * PX_PER_CHAR \<le> 296"
      using that by (simp add: PX_PER_CHAR_def)
    moreover have "of_nat (length n) * PX_PER_CHAR \<le> of_nat (longest_name names) * PX_PER_CHAR"
      using le by (simp add: PX_PER_CHAR_def)
    then have "of_nat (length n) * PX_PER_CHAR \<le> of_int \<lceil>of_nat (longest_name names) * PX_PER_CHAR\<rceil>"
      using le_of_int_ceiling order_trans by blast
    ultimately have "\<lceil>of_nat (length n) * PX_PER_CHAR\<rceil> \<le> 296"
      "\<lceil>of_nat (length n) * PX_PER_CHAR\<rceil> \<le> \<lceil>of_nat (longest_name names) * PX_PER_CHAR\<rceil>"
      unfolding ceiling_le_iff by simp_all
    then have "\<lceil>of_nat (length n) * PX_PER_CHAR\<rceil> \<le> ?w - NODE_CHROME" unfolding w by linarith
    then have "of_nat (length n) * PX_PER_CHAR \<le> of_int (?w - NODE_CHROME)" unfolding ceiling_le_iff .
    then show ?thesis unfolding mx_def by (simp add: le_floor_iff PX_PER_CHAR_def field_simps)
  qed
  have "int (length (fitServiceName n ?w)) \<le> mx"
    using m21 unfolding fit by auto
  then have "of_nat (length (fitServiceName n ?w)) * PX_PER_CHAR \<le> of_int (?w - NODE_CHROME)"
    unfolding mx_def by (simp add: le_floor_iff PX_PER_CHAR_def field_simps)
  with whole show ?thesis unfolding fit by simp
qed

section \<open>Examples\<close>

definition demo_services :: "flow_node list" where
  "demo_services = map (\<lambda>s. \<lparr>fn_service_name = s, fn_trace_count = 1, fn_error_trace_count = 0, fn_status = None\<rparr>)
     [js ''orders-api'', js ''billing'', js ''archive'']"

definition demo_call :: "jstring \<Rightarrow> jstring \<Rightarrow> flow_edge" where
  "demo_call a b = \<lparr>fe_source = a, fe_target = b, fe_call_count = 1, fe_error_count = 0, fe_link = False\<rparr>"

definition demo_calls :: "flow_edge list" where
  "demo_calls = [demo_call (js ''orders-api'') (js ''billing''), demo_call (js ''orders-api'') (js ''archive'')]"

lemma demo_services_distinct: "distinct (map fn_service_name demo_services)"
  by code_simp

lemma flow_boxes_never_overlap_ex:
  "\<exists>p q. map_of (fl_nodes (computeLayout demo_services demo_calls 168)) (js ''billing'') = Some p
      \<and> map_of (fl_nodes (computeLayout demo_services demo_calls 168)) (js ''archive'') = Some q \<and> boxes_apart 168 NODE_H p q"
proof -
  have *: "demo_services ! 1 \<in> set demo_services" "demo_services ! 2 \<in> set demo_services"
    "demo_services ! 1 \<noteq> demo_services ! 2" "fn_service_name (demo_services ! 1) = js ''billing''"
    "fn_service_name (demo_services ! 2) = js ''archive''" by code_simp+
  from flow_boxes_never_overlap [OF demo_services_distinct *(1-3), of 168 76 demo_calls] *(4,5) show ?thesis by simp
qed

lemma flow_boxes_inside_canvas_ex:
  "\<exists>p. map_of (fl_nodes (computeLayout demo_services demo_calls 168)) (js ''billing'') = Some p \<and> PADDING \<le> np_x p"
proof -
  have *: "demo_services ! 1 \<in> set demo_services" "fn_service_name (demo_services ! 1) = js ''billing''" by code_simp+
  from flow_boxes_inside_canvas [OF demo_services_distinct *(1), of 168 demo_calls] *(2) show ?thesis by auto
qed

lemma flow_edges_point_right_ex:
  "\<exists>p q. map_of (fl_nodes (computeLayout demo_services demo_calls 168)) (js ''orders-api'') = Some p
      \<and> map_of (fl_nodes (computeLayout demo_services demo_calls 168)) (js ''billing'') = Some q \<and> np_x p + 168 + COL_GAP \<le> np_x q"
proof -
  have r: "\<forall>e \<in> set demo_calls. (if fe_source e = js ''orders-api'' then 0 else 1::nat) < (if fe_target e = js ''orders-api'' then 0 else 1)"
    by code_simp
  have *: "demo_calls ! 0 \<in> set demo_calls" "demo_services ! 0 \<in> set demo_services" "demo_services ! 1 \<in> set demo_services"
    "fe_source (demo_calls ! 0) = fn_service_name (demo_services ! 0)"
    "fe_target (demo_calls ! 0) = fn_service_name (demo_services ! 1)"
    "fe_source (demo_calls ! 0) = js ''orders-api''" "fe_target (demo_calls ! 0) = js ''billing''" by code_simp+
  from flow_edges_point_right [OF demo_services_distinct _ r *(1-5), of 168] *(6,7) show ?thesis by simp
qed

lemma names_fit_their_boxes_ex:
  "fitServiceName (js ''product-consolidation-aggregator-service'')
     (nodeWidthFor [js ''billing'', js ''product-consolidation-aggregator-service''])
   = js ''product-consolidation-aggregator-service''"
  using names_fit_their_boxes [of "js ''product-consolidation-aggregator-service''"
      "[js ''billing'', js ''product-consolidation-aggregator-service'']"] by simp

end
