(* ===== verification/Matchers.thy ===== *)
theory Matchers
  imports Collections JsSort
begin

text \<open>
  The rule translation of \<open>components/MatcherRules.tsx\<close>: a member of an integration is edited as a
  rule (a service, narrowed by attribute conditions) and stored as rows of a disjunctive normal
  form, where the rows of one \<open>match_group\<close> are joined with "and" and the groups with "or".
  Groups and members are the counters of the source, so they are natural numbers.
\<close>

section \<open>Rules and matcher rows\<close>

datatype matcher_op = MEquals | MPrefix | MSuffix | MContains | MRegex
  | MNotEquals | MNotContains | MExists | MNotExists

text \<open>The operator's own name, as the API spells it.\<close>

fun op_name :: "matcher_op \<Rightarrow> jstring" where
  "op_name MEquals = js ''equals''"
| "op_name MPrefix = js ''prefix''"
| "op_name MSuffix = js ''suffix''"
| "op_name MContains = js ''contains''"
| "op_name MRegex = js ''regex''"
| "op_name MNotEquals = js ''not_equals''"
| "op_name MNotContains = js ''not_contains''"
| "op_name MExists = js ''exists''"
| "op_name MNotExists = js ''not_exists''"

datatype combine_mode = CAny | CAll

record attr_cond =
  ac_attribute :: jstring
  ac_operator :: matcher_op
  ac_value :: jstring
  ac_custom :: "bool option"

record rule =
  r_serviceOp :: matcher_op
  r_service :: jstring
  r_combine :: combine_mode
  r_attrs :: "attr_cond list"
  r_descendants :: "bool option"

record matcher_input =
  mi_attribute :: jstring
  mi_operator :: matcher_op
  mi_value :: jstring
  mi_match_group :: nat
  mi_include_descendants :: "bool option"
  mi_member :: "nat option"

definition VALUELESS_MATCHER_OPS :: "matcher_op list" where
  "VALUELESS_MATCHER_OPS = [MExists, MNotExists]"

definition SERVICE_NAME_ATTR :: jstring where
  "SERVICE_NAME_ATTR = js ''service.name''"

definition blankAttr :: attr_cond where
  "blankAttr = \<lparr>ac_attribute = [], ac_operator = MEquals, ac_value = [], ac_custom = None\<rparr>"

definition blankRule :: rule where
  "blankRule = \<lparr>r_serviceOp = MEquals, r_service = [], r_combine = CAny, r_attrs = [], r_descendants = None\<rparr>"

definition RULE_OPERATORS :: "(matcher_op \<times> jstring \<times> jstring) list" where
  "RULE_OPERATORS = [
     (MEquals, js ''is'', js ''=''),
     (MPrefix, js ''starts with'', js ''starts with''),
     (MSuffix, js ''ends with'', js ''ends with''),
     (MContains, js ''contains'', js ''contains''),
     (MRegex, js ''matches regex'', js ''matches'')]"

definition ATTR_OPERATORS :: "(matcher_op \<times> jstring \<times> jstring) list" where
  "ATTR_OPERATORS = RULE_OPERATORS @ [
     (MNotEquals, js ''is not'', [ne_sign]),
     (MNotContains, js ''doesn'' @ [39] @ js ''t contain'', js ''doesn'' @ [39] @ js ''t contain''),
     (MExists, js ''exists'', js ''exists''),
     (MNotExists, js ''is absent'', js ''is absent'')]"

definition op_sym :: "matcher_op \<Rightarrow> jstring" where
  "op_sym o1 = (case find (\<lambda>x. fst x = o1) ATTR_OPERATORS of None \<Rightarrow> op_name o1 | Some x \<Rightarrow> snd (snd x))"

section \<open>Storing rules\<close>

definition cond_complete :: "attr_cond \<Rightarrow> bool" where
  "cond_complete a \<longleftrightarrow> ac_attribute a \<noteq> [] \<and> (ac_value a \<noteq> [] \<or> ac_operator a \<in> set VALUELESS_MATCHER_OPS)"

definition validAttrs :: "rule \<Rightarrow> attr_cond list" where
  "validAttrs r = filter cond_complete (map (\<lambda>a. \<lparr>ac_attribute = trim (ac_attribute a),
     ac_operator = ac_operator a, ac_value = trim (ac_value a), ac_custom = None\<rparr>) (r_attrs r))"

text \<open>A row carrying the rule's flags.\<close>

definition flag_row :: "rule \<Rightarrow> nat \<Rightarrow> nat \<Rightarrow> jstring \<Rightarrow> matcher_op \<Rightarrow> jstring \<Rightarrow> matcher_input" where
  "flag_row r member grp attr oper val = \<lparr>mi_attribute = attr, mi_operator = oper, mi_value = val,
     mi_match_group = grp, mi_include_descendants = (if truthy_bool (r_descendants r) then Some True else None),
     mi_member = Some member\<rparr>"

definition svc_row :: "rule \<Rightarrow> nat \<Rightarrow> nat \<Rightarrow> matcher_input" where
  "svc_row r member grp = flag_row r member grp SERVICE_NAME_ATTR (r_serviceOp r) (trim (r_service r))"

definition attr_row :: "rule \<Rightarrow> nat \<Rightarrow> nat \<Rightarrow> attr_cond \<Rightarrow> matcher_input" where
  "attr_row r member grp a = flag_row r member grp (ac_attribute a) (ac_operator a) (ac_value a)"

text \<open>The "or" loop: one group per attribute.\<close>

fun any_rows :: "rule \<Rightarrow> nat \<Rightarrow> nat \<Rightarrow> attr_cond list \<Rightarrow> matcher_input list" where
  "any_rows r member grp [] = []"
| "any_rows r member grp (a # as) =
     svc_row r member grp # attr_row r member grp a # any_rows r member (grp + 1) as"

text \<open>The rows of one rule, and the group counter after it.\<close>

definition rule_rows :: "rule \<Rightarrow> nat \<Rightarrow> nat \<Rightarrow> matcher_input list \<times> nat" where
  "rule_rows r member grp =
     (let attrs = validAttrs r in
      if attrs = [] then ([svc_row r member grp], grp + 1)
      else if r_combine r = CAll
        then (svc_row r member grp # map (attr_row r member grp) attrs, grp + 1)
      else (any_rows r member grp attrs, grp + length attrs))"

fun rules_loop :: "nat \<Rightarrow> nat \<Rightarrow> rule list \<Rightarrow> matcher_input list" where
  "rules_loop grp member [] = []"
| "rules_loop grp member (r # rs) =
     (if trim (r_service r) = [] then rules_loop grp member rs
      else (let (rows, grp') = rule_rows r member grp in rows @ rules_loop grp' (member + 1) rs))"

definition rulesToMatchers :: "rule list \<Rightarrow> matcher_input list" where
  "rulesToMatchers rules = rules_loop 0 0 rules"

section \<open>Loading rules\<close>

text \<open>The loop's state: \<open>order\<close>, \<open>ruleMap\<close> and \<open>noService\<close>.\<close>

type_synonym load_state = "jstring list \<times> (jstring \<times> rule) list \<times> rule list"

definition group_attrs :: "matcher_input list \<Rightarrow> attr_cond list" where
  "group_attrs rows = map (\<lambda>m. \<lparr>ac_attribute = mi_attribute m, ac_operator = mi_operator m,
     ac_value = mi_value m, ac_custom = None\<rparr>) (filter (\<lambda>m. mi_attribute m \<noteq> SERVICE_NAME_ATTR) rows)"

definition group_key :: "matcher_input list \<Rightarrow> matcher_input \<Rightarrow> jstring" where
  "group_key rows svc =
     (case find (\<lambda>m. mi_member m \<noteq> None) rows of
        Some m \<Rightarrow> js ''member'' @ [0] @ show_nat (the (mi_member m))
      | None \<Rightarrow> op_name (mi_operator svc) @ [0] @ mi_value svc)"

definition load_group :: "load_state \<Rightarrow> nat \<times> matcher_input list \<Rightarrow> load_state" where
  "load_group st gm = (case st of (order, ruleMap, noService) \<Rightarrow>
     let rows = snd gm;
         attrs = group_attrs rows;
         descendants = list_ex (\<lambda>m. truthy_bool (mi_include_descendants m)) rows
     in (case find (\<lambda>m. mi_attribute m = SERVICE_NAME_ATTR) rows of
          None \<Rightarrow> (order, ruleMap, noService @ [\<lparr>r_serviceOp = MEquals, r_service = [],
            r_combine = (if 1 < length attrs then CAll else CAny), r_attrs = attrs, r_descendants = Some descendants\<rparr>])
        | Some svc \<Rightarrow>
            (let key = group_key rows svc;
                 fresh = (map_of ruleMap key = None);
                 rule0 = coalesce (map_of ruleMap key) \<lparr>r_serviceOp = mi_operator svc, r_service = mi_value svc,
                   r_combine = CAny, r_attrs = [], r_descendants = None\<rparr>;
                 rule1 = rule0\<lparr>r_descendants := Some (truthy_bool (r_descendants rule0) \<or> descendants)\<rparr>;
                 rule2 = (if length attrs = 1 then rule1\<lparr>r_attrs := r_attrs rule1 @ [hd attrs]\<rparr>
                          else if 1 < length attrs
                            then rule1\<lparr>r_attrs := r_attrs rule1 @ attrs, r_combine := CAll\<rparr>
                          else rule1)
             in (if fresh then order @ [key] else order, AList.update key rule2 ruleMap, noService))))"

definition rows_by_group :: "matcher_input list \<Rightarrow> (nat \<times> matcher_input list) list" where
  "rows_by_group ms = (let byGroup = group_by mi_match_group ms
     in map (\<lambda>g. (g, coalesce (map_of byGroup g) [])) (js_sort (cmp_by int) (map fst byGroup)))"

definition matchersToRules :: "matcher_input list \<Rightarrow> rule list" where
  "matchersToRules ms = (case foldl load_group ([], [], []) (rows_by_group ms) of
     (order, ruleMap, noService) \<Rightarrow> map (\<lambda>k. the (map_of ruleMap k)) order @ noService)"

section \<open>The preview\<close>

definition rule_preview :: "rule \<Rightarrow> jstring option" where
  "rule_preview r =
     (let service = trim (r_service r) in
      if service = [] then None
      else (let svc = js ''service '' @ op_sym (r_serviceOp r) @ js '' '' @ service;
                attrs = validAttrs r;
                children = (if truthy_bool (r_descendants r) then js '' + child spans'' else []);
                joiner = (if r_combine r = CAll then js '' AND '' else js '' OR '');
                inner = join joiner (map (\<lambda>a. ac_attribute a @ js '' '' @ op_sym (ac_operator a) @ js '' '' @ ac_value a) attrs)
            in Some (if attrs = [] then js ''('' @ svc @ js '')'' @ children
                     else js ''('' @ svc @ js '' AND ('' @ inner @ js ''))'' @ children)))"

definition rulesPreview :: "rule list \<Rightarrow> combine_mode \<Rightarrow> jstring" where
  "rulesPreview rules combine =
     (let parts = List.map_filter rule_preview rules in
      if combine = CAll
      then join (js ''  AND  '') parts @ (if 1 < length parts then js ''   (all within one trace)'' else [])
      else join (js ''  OR  '') parts)"

fun help_phrase :: "matcher_op \<Rightarrow> jstring" where
  "help_phrase MEquals = js ''is exactly''"
| "help_phrase MPrefix = js ''starts with''"
| "help_phrase MSuffix = js ''ends with''"
| "help_phrase MContains = js ''contains''"
| "help_phrase MRegex = js ''matches the regex''"
| "help_phrase MNotEquals = js ''is anything other than''"
| "help_phrase MNotContains = js ''does not contain''"
| "help_phrase MExists = []"
| "help_phrase MNotExists = []"

definition fieldHelp :: "attr_cond \<Rightarrow> jstring" where
  "fieldHelp a =
     (let field = trim (ac_attribute a);
          traffic = js ''This service'' @ [39] @ js ''s traffic '' in
      if field = [] then js ''Pick an attribute to filter this service'' @ [39] @ js ''s traffic on.''
      else if ac_operator a = MExists
        then traffic @ js ''that carries '' @ field @ js '' at all, whatever its value.''
      else if ac_operator a = MNotExists
        then traffic @ js ''that does not carry '' @ field @ js '' at all.''
      else traffic @ js ''where '' @ field @ js '' '' @ help_phrase (ac_operator a) @ js '' the value.''
        @ (if ac_operator a = MNotEquals \<or> ac_operator a = MNotContains
           then js '' Traffic with no '' @ field @ js '' at all matches too '' @ [emdash]
             @ js '' use '' @ [34] @ js ''is absent'' @ [34] @ js '' for only those.''
           else []))"

section \<open>What the stored rows mean\<close>

text \<open>
  A span satisfies a row when the backend's test of its attribute says so; \<open>holds\<close> is that test,
  any test.  Stored rows select a span when all rows of some group hold; a rule selects it when its
  service test holds and its complete conditions do, joined as the rule says.
\<close>

definition rows_select :: "(jstring \<Rightarrow> matcher_op \<Rightarrow> jstring \<Rightarrow> bool) \<Rightarrow> matcher_input list \<Rightarrow> bool" where
  "rows_select holds ms \<longleftrightarrow> list_ex (\<lambda>g. list_all (\<lambda>m. holds (mi_attribute m) (mi_operator m) (mi_value m)) (snd g))
     (group_by mi_match_group ms)"

definition rule_selects :: "(jstring \<Rightarrow> matcher_op \<Rightarrow> jstring \<Rightarrow> bool) \<Rightarrow> rule \<Rightarrow> bool" where
  "rule_selects holds r \<longleftrightarrow>
     trim (r_service r) \<noteq> [] \<and> holds SERVICE_NAME_ATTR (r_serviceOp r) (trim (r_service r))
     \<and> (let cond = (\<lambda>a. holds (ac_attribute a) (ac_operator a) (ac_value a)) in
        validAttrs r = [] \<or> (if r_combine r = CAll then list_all cond (validAttrs r) else list_ex cond (validAttrs r)))"

text \<open>The rows of a rule as numbered groups.\<close>

fun any_groups :: "rule \<Rightarrow> nat \<Rightarrow> nat \<Rightarrow> attr_cond list \<Rightarrow> (nat \<times> matcher_input list) list" where
  "any_groups r mem grp [] = []"
| "any_groups r mem grp (a # as) = (grp, [svc_row r mem grp, attr_row r mem grp a]) # any_groups r mem (grp + 1) as"

definition rule_groups :: "rule \<Rightarrow> nat \<Rightarrow> nat \<Rightarrow> (nat \<times> matcher_input list) list" where
  "rule_groups r mem grp =
     (if validAttrs r = [] then [(grp, [svc_row r mem grp])]
      else if r_combine r = CAll then [(grp, svc_row r mem grp # map (attr_row r mem grp) (validAttrs r))]
      else any_groups r mem grp (validAttrs r))"

fun loop_groups :: "nat \<Rightarrow> nat \<Rightarrow> rule list \<Rightarrow> (nat \<times> matcher_input list) list" where
  "loop_groups grp mem [] = []"
| "loop_groups grp mem (r # rs) =
     (if trim (r_service r) = [] then loop_groups grp mem rs
      else rule_groups r mem grp @ loop_groups (grp + length (rule_groups r mem grp)) (mem + 1) rs)"

lemma any_groups_rows: "concat (map snd (any_groups r mem grp as)) = any_rows r mem grp as"
  by (induction r mem grp as rule: any_groups.induct) auto

lemma any_groups_fst: "map fst (any_groups r mem grp as) = [grp..<grp + length as]"
  by (induction r mem grp as rule: any_groups.induct) (simp_all add: upt_conv_Cons del: upt_Suc)

lemma length_any_groups [simp]: "length (any_groups r mem grp as) = length as"
  by (metis any_groups_fst diff_add_inverse length_map length_upt)

lemma rule_groups_rows:
  "rule_rows r mem grp = (concat (map snd (rule_groups r mem grp)), grp + length (rule_groups r mem grp))"
  by (simp add: rule_rows_def rule_groups_def Let_def any_groups_rows)

lemma rule_groups_fst: "map fst (rule_groups r mem grp) = [grp..<grp + length (rule_groups r mem grp)]"
  by (simp add: rule_groups_def any_groups_fst)

lemma rule_groups_ok:
  "b \<in> set (rule_groups r mem grp) \<Longrightarrow> snd b \<noteq> [] \<and> (\<forall>m \<in> set (snd b). mi_match_group m = fst b)"
proof -
  have "b \<in> set (any_groups r mem grp as) \<Longrightarrow> snd b \<noteq> [] \<and> (\<forall>m \<in> set (snd b). mi_match_group m = fst b)" for as
    by (induction r mem grp as rule: any_groups.induct) (auto simp: svc_row_def attr_row_def flag_row_def)
  then show "b \<in> set (rule_groups r mem grp) \<Longrightarrow> ?thesis"
    by (auto simp: rule_groups_def svc_row_def attr_row_def flag_row_def split: if_splits)
qed

lemma loop_groups_rows: "concat (map snd (loop_groups grp mem rs)) = rules_loop grp mem rs"
  by (induction grp mem rs rule: loop_groups.induct) (simp_all add: rule_groups_rows)

lemma loop_groups_fst: "map fst (loop_groups grp mem rs) = [grp..<grp + length (loop_groups grp mem rs)]"
proof (induction grp mem rs rule: loop_groups.induct)
  case (2 grp mem r rs)
  then show ?case
    using upt_add_eq_append [of grp "grp + length (rule_groups r mem grp)"
        "length (loop_groups (grp + length (rule_groups r mem grp)) (mem + 1) rs)"]
    by (simp add: rule_groups_fst add.assoc)
qed simp

lemma loop_groups_ok:
  "b \<in> set (loop_groups grp mem rs) \<Longrightarrow> snd b \<noteq> [] \<and> (\<forall>m \<in> set (snd b). mi_match_group m = fst b)"
  by (induction grp mem rs rule: loop_groups.induct) (auto split: if_splits dest: rule_groups_ok)

lemma group_rules_loop: "group_by mi_match_group (rules_loop grp mem rs) = loop_groups grp mem rs"
proof -
  have "distinct (map fst (loop_groups grp mem rs))" by (simp add: loop_groups_fst)
  then have "group_by mi_match_group (concat (map snd (loop_groups grp mem rs))) = loop_groups grp mem rs"
    by (rule group_by_blocks) (use loop_groups_ok in blast)
  then show ?thesis by (simp only: loop_groups_rows)
qed

lemma row_fields [simp]:
  "mi_attribute (svc_row r mem grp) = SERVICE_NAME_ATTR" "mi_operator (svc_row r mem grp) = r_serviceOp r"
  "mi_value (svc_row r mem grp) = trim (r_service r)" "mi_member (svc_row r mem grp) = Some mem"
  "mi_attribute (attr_row r mem grp a) = ac_attribute a" "mi_operator (attr_row r mem grp a) = ac_operator a"
  "mi_value (attr_row r mem grp a) = ac_value a" "mi_member (attr_row r mem grp a) = Some mem"
  "truthy_bool (mi_include_descendants (svc_row r mem grp)) = truthy_bool (r_descendants r)"
  "truthy_bool (mi_include_descendants (attr_row r mem grp a)) = truthy_bool (r_descendants r)"
  by (simp_all add: svc_row_def attr_row_def flag_row_def)

lemma any_groups_select:
  "list_ex (\<lambda>g. list_all (\<lambda>m. holds (mi_attribute m) (mi_operator m) (mi_value m)) (snd g)) (any_groups r mem grp as) \<longleftrightarrow>
     holds SERVICE_NAME_ATTR (r_serviceOp r) (trim (r_service r))
     \<and> list_ex (\<lambda>a. holds (ac_attribute a) (ac_operator a) (ac_value a)) as"
  by (induction r mem grp as rule: any_groups.induct) auto

lemma rule_groups_select:
  "trim (r_service r) \<noteq> [] \<Longrightarrow>
   list_ex (\<lambda>g. list_all (\<lambda>m. holds (mi_attribute m) (mi_operator m) (mi_value m)) (snd g)) (rule_groups r mem grp) \<longleftrightarrow>
     rule_selects holds r"
  by (cases "validAttrs r = []"; cases "r_combine r = CAll")
    (simp_all add: rule_groups_def rule_selects_def any_groups_select list.pred_map comp_def)

lemma loop_groups_select:
  "list_ex (\<lambda>g. list_all (\<lambda>m. holds (mi_attribute m) (mi_operator m) (mi_value m)) (snd g)) (loop_groups grp mem rs) \<longleftrightarrow>
     list_ex (rule_selects holds) rs"
proof (induction grp mem rs rule: loop_groups.induct)
  case (2 grp mem r rs)
  then show ?case
    by (cases "trim (r_service r) = []") (simp_all add: rule_groups_select, simp add: rule_selects_def)
qed simp

text \<open>C8: the stored disjunctive normal form means what the editor shows: whatever a single condition
  tests, the rows stored for a list of rules select a span exactly when some rule with a service
  selects it, with the rule's conditions joined by "and" or "or" as chosen.\<close>

theorem stored_rows_mean_the_rules:
  "rows_select holds (rulesToMatchers rules) \<longleftrightarrow> (\<exists>r \<in> set rules. rule_selects holds r)"
  unfolding rows_select_def rulesToMatchers_def group_rules_loop loop_groups_select by (auto simp: list_ex_iff)

section \<open>Storing and loading again\<close>

text \<open>What a stored rule is read back as: trimmed, complete conditions only, and "all" only where it
  joins more than one condition.\<close>

definition norm_rule :: "rule \<Rightarrow> rule" where
  "norm_rule r = \<lparr>r_serviceOp = r_serviceOp r, r_service = trim (r_service r),
     r_combine = (if r_combine r = CAll \<and> 1 < length (validAttrs r) then CAll else CAny),
     r_attrs = validAttrs r, r_descendants = Some (truthy_bool (r_descendants r))\<rparr>"

definition member_key :: "nat \<Rightarrow> jstring" where
  "member_key m = js ''member'' @ [0] @ show_nat m"

lemma member_key_inject [simp]: "member_key a = member_key b \<longleftrightarrow> a = b"
  by (simp add: member_key_def)

lemma validAttrs_custom: "a \<in> set (validAttrs r) \<Longrightarrow> ac_custom a = None"
  by (auto simp: validAttrs_def)

lemma group_attrs_rows:
  "\<forall>a \<in> set as. ac_attribute a \<noteq> SERVICE_NAME_ATTR \<and> ac_custom a = None \<Longrightarrow>
     group_attrs (svc_row r mem grp # map (attr_row r mem grp) as) = as"
  by (induction as) (auto simp: group_attrs_def)

lemma load_group_member:
  assumes "\<forall>a \<in> set as. ac_attribute a \<noteq> SERVICE_NAME_ATTR \<and> ac_custom a = None"
  shows "load_group (order, m, ns) (grp, svc_row r mem grp # map (attr_row r mem grp) as) =
    (let rule0 = coalesce (map_of m (member_key mem)) \<lparr>r_serviceOp = r_serviceOp r, r_service = trim (r_service r),
           r_combine = CAny, r_attrs = [], r_descendants = None\<rparr>
     in (if map_of m (member_key mem) = None then order @ [member_key mem] else order,
         AList.update (member_key mem) (rule0\<lparr>
           r_descendants := Some (truthy_bool (r_descendants rule0) \<or> truthy_bool (r_descendants r)),
           r_attrs := r_attrs rule0 @ as,
           r_combine := if 1 < length as then CAll else r_combine rule0\<rparr>) m, ns))"
proof -
  have key: "group_key (svc_row r mem grp # map (attr_row r mem grp) as) svc = member_key mem" for svc
    by (simp add: group_key_def member_key_def)
  have desc: "list_ex (\<lambda>m. truthy_bool (mi_include_descendants m)) (svc_row r mem grp # map (attr_row r mem grp) as)
      = truthy_bool (r_descendants r)"
    by (auto simp: list_ex_iff)
  have "as = [] \<or> length as = 1 \<and> [hd as] = as \<or> 1 < length as" by (cases as; cases "tl as") auto
  then show ?thesis
    unfolding load_group_def snd_conv prod.case group_attrs_rows [OF assms] key desc Let_def
    by (elim disjE) simp_all
qed

text \<open>A rule translates cleanly when no complete condition is on the service name itself.\<close>

definition clean_rule :: "rule \<Rightarrow> bool" where
  "clean_rule r \<longleftrightarrow> list_all (\<lambda>a. ac_attribute a \<noteq> SERVICE_NAME_ATTR) (validAttrs r)"

lemma load_any_groups:
  assumes "\<forall>a \<in> set as. ac_attribute a \<noteq> SERVICE_NAME_ATTR \<and> ac_custom a = None"
    and "map_of m (member_key mem) = Some rule0" "r_descendants rule0 = Some (truthy_bool (r_descendants r))"
  shows "foldl load_group (order, m, ns) (any_groups r mem grp as) =
    (order, AList.update (member_key mem) (rule0\<lparr>r_attrs := r_attrs rule0 @ as\<rparr>) m, ns)"
  using assms
proof (induction as arbitrary: grp m rule0)
  case Nil
  then show ?case by (simp add: update_triv)
next
  case (Cons a as)
  let ?r1 = "rule0\<lparr>r_attrs := r_attrs rule0 @ [a]\<rparr>"
  have "load_group (order, m, ns) (grp, [svc_row r mem grp, attr_row r mem grp a]) =
      (order, AList.update (member_key mem) ?r1 m, ns)"
    using load_group_member [of "[a]" order m ns grp r mem] Cons.prems by (cases rule0) simp
  moreover have "foldl load_group (order, AList.update (member_key mem) ?r1 m, ns) (any_groups r mem (grp + 1) as) =
      (order, AList.update (member_key mem) (?r1\<lparr>r_attrs := r_attrs ?r1 @ as\<rparr>) (AList.update (member_key mem) ?r1 m), ns)"
    using Cons.prems by (intro Cons.IH) (simp_all add: update_conv)
  ultimately show ?case by simp
qed

lemma load_rule_groups:
  assumes "clean_rule r" "map_of m (member_key mem) = None"
  shows "foldl load_group (order, m, ns) (rule_groups r mem grp) =
    (order @ [member_key mem], m @ [(member_key mem, norm_rule r)], ns)"
proof -
  have va: "\<forall>a \<in> set (validAttrs r). ac_attribute a \<noteq> SERVICE_NAME_ATTR \<and> ac_custom a = None"
    using assms(1) validAttrs_custom by (auto simp: clean_rule_def list_all_iff)
  have new: "AList.update (member_key mem) v m = m @ [(member_key mem, v)]" for v
    using assms(2) by (intro update_new_key) (simp add: map_of_eq_None_iff)
  show ?thesis
  proof (cases "validAttrs r = [] \<or> r_combine r = CAll")
    case True
    then have "rule_groups r mem grp = [(grp, svc_row r mem grp # map (attr_row r mem grp) (validAttrs r))]"
      by (auto simp: rule_groups_def)
    with True show ?thesis
      using load_group_member [OF va, of order m ns grp r mem] assms(2)
      by (auto simp: Let_def new norm_rule_def)
  next
    case False
    then obtain a as where as: "validAttrs r = a # as" by (cases "validAttrs r") auto
    let ?r1 = "\<lparr>r_serviceOp = r_serviceOp r, r_service = trim (r_service r), r_combine = CAny, r_attrs = [a],
        r_descendants = Some (truthy_bool (r_descendants r))\<rparr>"
    have first: "load_group (order, m, ns) (grp, [svc_row r mem grp, attr_row r mem grp a]) =
        (order @ [member_key mem], m @ [(member_key mem, ?r1)], ns)"
      using load_group_member [of "[a]" order m ns grp r mem] va assms(2) by (simp add: as Let_def new)
    have get: "map_of (m @ [(member_key mem, ?r1)]) (member_key mem) = Some ?r1"
      using assms(2) by (simp add: map_add_def)
    have upd: "AList.update (member_key mem) v (m @ [(member_key mem, w)]) = m @ [(member_key mem, v)]" for v w
      using assms(2) by (induction m) (auto split: if_splits)
    have "foldl load_group (order, m, ns) (rule_groups r mem grp) =
        foldl load_group (order @ [member_key mem], m @ [(member_key mem, ?r1)], ns) (any_groups r mem (grp + 1) as)"
      using False first by (simp add: rule_groups_def as)
    also have "\<dots> = (order @ [member_key mem], m @ [(member_key mem, ?r1\<lparr>r_attrs := r_attrs ?r1 @ as\<rparr>)], ns)"
      using va load_any_groups [OF _ get, of as r "order @ [member_key mem]" ns "grp + 1"] by (simp add: as upd)
    finally show ?thesis using False by (simp add: norm_rule_def as)
  qed
qed

definition stored_rules :: "rule list \<Rightarrow> rule list" where
  "stored_rules rs = map norm_rule (filter (\<lambda>r. trim (r_service r) \<noteq> []) rs)"

lemma load_loop_groups:
  assumes "\<forall>r \<in> set rs. clean_rule r" "\<forall>k \<ge> mem. map_of m (member_key k) = None"
  shows "\<exists>keys. foldl load_group (order, m, ns) (loop_groups grp mem rs) =
      (order @ keys, m @ zip keys (stored_rules rs), ns)
    \<and> length keys = length (stored_rules rs) \<and> distinct keys \<and> set keys \<subseteq> member_key ` {mem..}"
  using assms
proof (induction grp mem rs arbitrary: order m rule: loop_groups.induct)
  case (2 grp mem r rs)
  show ?case
  proof (cases "trim (r_service r) = []")
    case True
    with 2 show ?thesis by (simp add: stored_rules_def)
  next
    case False
    let ?m1 = "m @ [(member_key mem, norm_rule r)]" and ?g1 = "grp + length (rule_groups r mem grp)"
    have first: "foldl load_group (order, m, ns) (rule_groups r mem grp) = (order @ [member_key mem], ?m1, ns)"
      using 2(3,4) by (intro load_rule_groups) auto
    have "\<forall>k \<ge> mem + 1. map_of ?m1 (member_key k) = None" using 2(4) by (auto simp: map_add_def)
    then obtain keys where k: "foldl load_group (order @ [member_key mem], ?m1, ns) (loop_groups ?g1 (mem + 1) rs) =
        ((order @ [member_key mem]) @ keys, ?m1 @ zip keys (stored_rules rs), ns)"
      "length keys = length (stored_rules rs)" "distinct keys" "set keys \<subseteq> member_key ` {mem + 1..}"
      using 2(2) [OF False, of ?m1 "order @ [member_key mem]"] 2(3) by auto
    have "member_key mem \<notin> set keys" using k(4) by auto
    with k False first show ?thesis
      by (intro exI [of _ "member_key mem # keys"]) (auto simp: stored_rules_def)
  qed
qed (simp add: stored_rules_def)

text \<open>C9: saving and reloading keeps the rules: the stored rows of a list of rules read back as the
  same rules in the same order, trimmed and without half-typed rows and conditions, as long as no
  condition is on the service name itself.\<close>

theorem rules_round_trip:
  assumes "\<forall>r \<in> set rules. clean_rule r"
  shows "matchersToRules (rulesToMatchers rules) = stored_rules rules"
proof -
  let ?G = "loop_groups 0 0 rules"
  have grouped: "group_by mi_match_group (rulesToMatchers rules) = ?G"
    by (simp add: rulesToMatchers_def group_rules_loop)
  have keys: "map fst ?G = [0..<length ?G]" using loop_groups_fst [of 0 0 rules] by simp
  then have sorted: "js_sort (cmp_by int) (map fst ?G) = map fst ?G"
    by (intro js_sort_id js_comparator_by) (auto simp: cmp_by_def sorted_wrt_iff_nth_less)
  have d: "distinct (map fst ?G)" by (simp add: keys)
  have "rows_by_group (rulesToMatchers rules) = map (\<lambda>g. (g, coalesce (map_of ?G g) [])) (map fst ?G)"
    by (simp add: rows_by_group_def grouped sorted Let_def del: map_map)
  also have "\<dots> = ?G"
    using d by (auto simp: map_of_is_SomeI comp_def intro!: map_idI)
  finally have rows: "rows_by_group (rulesToMatchers rules) = ?G" .
  obtain ks where k: "foldl load_group ([], [], []) ?G = (ks, zip ks (stored_rules rules), [])"
    "length ks = length (stored_rules rules)" "distinct ks"
    using load_loop_groups [of rules 0 "[]" "[]" "[]" 0] assms by auto
  have "map (\<lambda>k. the (map_of (zip ks (stored_rules rules)) k)) ks = stored_rules rules"
    using k(2,3) by (intro nth_equalityI) (simp_all add: map_of_zip_nth)
  then show ?thesis by (simp add: matchersToRules_def rows k(1))
qed

lemma trim_idem [simp]: "trim (trim s) = trim s"
proof (rule trim_id)
  let ?t = "trim s"
  have "\<not> is_space (last ?t)" if "?t \<noteq> []"
    using that hd_dropWhile [of is_space "rev (dropWhile is_space s)"]
    by (auto simp: trim_def trim_start_def trim_end_def last_rev)
  moreover have "\<not> is_space (hd ?t)" if "?t \<noteq> []"
  proof -
    let ?d = "dropWhile is_space s"
    obtain u where u: "?d = ?t @ u"
      using suffix_dropWhile [of is_space "rev ?d"] unfolding trim_def trim_start_def trim_end_def
      by (metis rev_append rev_rev_ident suffix_def)
    with that have "hd ?t = hd ?d" by (metis hd_append2)
    moreover have "?d \<noteq> []" using u that by auto
    ultimately show ?thesis using hd_dropWhile [of is_space s] by simp
  qed
  ultimately show "?t = [] \<or> \<not> is_space (hd ?t) \<and> \<not> is_space (last ?t)" by blast
qed

lemma validAttrs_norm [simp]: "validAttrs (norm_rule r) = validAttrs r"
proof -
  have "cond_complete a \<and> trim (ac_attribute a) = ac_attribute a \<and> trim (ac_value a) = ac_value a \<and> ac_custom a = None"
    if "a \<in> set (validAttrs r)" for a
    using that by (auto simp: validAttrs_def)
  then have "map (\<lambda>a. \<lparr>ac_attribute = trim (ac_attribute a), ac_operator = ac_operator a, ac_value = trim (ac_value a),
      ac_custom = None\<rparr>) (validAttrs r) = validAttrs r" and "filter cond_complete (validAttrs r) = validAttrs r"
    by (auto intro!: map_idI filter_True)
  then show ?thesis unfolding validAttrs_def [of "norm_rule r"] by (simp add: norm_rule_def)
qed

lemma norm_rule_idem [simp]: "norm_rule (norm_rule r) = norm_rule r"
  by (simp add: norm_rule_def [of "norm_rule r"]) (simp add: norm_rule_def)

section \<open>Examples\<close>

definition demo_cond :: "jstring \<Rightarrow> jstring \<Rightarrow> attr_cond" where
  "demo_cond a v = blankAttr\<lparr>ac_attribute := a, ac_value := v\<rparr>"

definition demo_rules :: "rule list" where
  "demo_rules = [
     blankRule\<lparr>r_service := js ''orders'', r_combine := CAny, r_attrs := [demo_cond (js ''region'') (js ''eu''), demo_cond (js ''tier'') (js ''gold'')]\<rparr>,
     blankRule\<lparr>r_service := js ''  ''\<rparr>,
     blankRule\<lparr>r_service := js '' billing '', r_combine := CAll, r_attrs := [demo_cond (js ''op'') (js ''pay''), demo_cond (js ''x'') []],
       r_descendants := Some True\<rparr>]"

lemma rules_round_trip_ex:
  "list_all clean_rule demo_rules \<and> length (matchersToRules (rulesToMatchers demo_rules)) = 2"
proof -
  have c: "list_all clean_rule demo_rules" by code_simp
  moreover have "length (stored_rules demo_rules) = 2" by code_simp
  ultimately show ?thesis using rules_round_trip [of demo_rules] by (simp add: list_all_iff)
qed

end
