(* ===== verification/Membership.thy ===== *)
theory Membership
  imports Matchers
begin

text \<open>
  \<open>components/matcher/membership.ts\<close>: the reasoning behind the membership editor.  The regular
  expression engine is the parameter \<open>re\<close> (\<open>re v name\<close> is \<open>None\<close> when \<open>new RegExp(v)\<close> throws)
  and \<open>localeCompare\<close> is the parameter \<open>coll\<close>.
\<close>

section \<open>What a member covers\<close>

definition ruleKey :: "rule \<Rightarrow> jstring" where
  "ruleKey r = op_name (r_serviceOp r) @ [0] @ trim (r_service r)"

definition ruleCovers :: "(jstring \<Rightarrow> jstring \<Rightarrow> bool option) \<Rightarrow> rule \<Rightarrow> jstring \<Rightarrow> bool" where
  "ruleCovers re r name =
     (let v = trim (r_service r) in
      if v = [] then False
      else (case r_serviceOp r of
          MEquals \<Rightarrow> name = v
        | MPrefix \<Rightarrow> starts_with name v
        | MSuffix \<Rightarrow> ends_with name v
        | MContains \<Rightarrow> str_includes name v
        | MRegex \<Rightarrow> re v name = Some True
        | _ \<Rightarrow> False))"

definition rulesCover :: "(jstring \<Rightarrow> jstring \<Rightarrow> bool option) \<Rightarrow> rule list \<Rightarrow> jstring \<Rightarrow> bool" where
  "rulesCover re rules name = list_ex (\<lambda>r. ruleCovers re r name) rules"

section \<open>The add box\<close>

definition regex_special :: "nat \<Rightarrow> bool" where
  "regex_special c \<longleftrightarrow> c \<in> set (js ''.+?^${}()|[]'') \<or> c = 92"

definition escapeRegex :: "jstring \<Rightarrow> jstring" where
  "escapeRegex s = concat (map (\<lambda>c. if regex_special c then [92, c] else [c]) s)"

definition line_end :: "nat \<Rightarrow> bool" where
  "line_end c \<longleftrightarrow> c = 10 \<or> c = 13 \<or> c = 0x2028 \<or> c = 0x2029"

text \<open>\<open>/^\/(.+)\/$/\<close>: a non-empty body without line ends between two slashes.\<close>

definition slashed :: "jstring \<Rightarrow> jstring option" where
  "slashed q = (if 3 \<le> length q \<and> hd q = cu CHR ''/'' \<and> last q = cu CHR ''/''
       \<and> list_all (\<lambda>c. \<not> line_end c) (butlast (tl q))
     then Some (butlast (tl q)) else None)"

definition is_star :: "nat \<Rightarrow> bool" where
  "is_star c \<longleftrightarrow> c = cu CHR ''*''"

definition query_rule :: "matcher_op \<Rightarrow> jstring \<Rightarrow> rule" where
  "query_rule oper service = blankRule\<lparr>r_serviceOp := oper, r_service := service\<rparr>"

definition parseAddQuery :: "jstring \<Rightarrow> rule option" where
  "parseAddQuery raw =
     (let q = trim raw in
      if q = [] then None
      else (case slashed q of
          Some body \<Rightarrow> Some (query_rule MRegex body)
        | None \<Rightarrow>
            if \<not> list_ex is_star q then Some (query_rule MEquals q)
            else (let body = strip_ends is_star q; lead = is_star (hd q); trail = is_star (last q) in
              if body = [] then None
              else if \<not> list_ex is_star body \<and> lead \<and> trail then Some (query_rule MContains body)
              else if \<not> list_ex is_star body \<and> trail then Some (query_rule MPrefix body)
              else if \<not> list_ex is_star body \<and> lead then Some (query_rule MSuffix body)
              else Some (query_rule MRegex
                (js ''^'' @ join (js ''.*'') (map escapeRegex (split_on (cu CHR ''*'') q)) @ js ''$'')))))"

section \<open>Sentences\<close>

definition PATTERN_WORDS :: "matcher_op \<Rightarrow> jstring option" where
  "PATTERN_WORDS oper = (case oper of
       MPrefix \<Rightarrow> Some (js ''services starting with'')
     | MSuffix \<Rightarrow> Some (js ''services ending with'')
     | MContains \<Rightarrow> Some (js ''services containing'')
     | MRegex \<Rightarrow> Some (js ''services matching'')
     | _ \<Rightarrow> None)"

definition patternWords :: "matcher_op \<Rightarrow> jstring" where
  "patternWords oper = coalesce (PATTERN_WORDS oper) (js ''services where the name '' @ op_name oper)"

definition memberPhrase :: "rule \<Rightarrow> jstring" where
  "memberPhrase r =
     (let value = trim (r_service r) in
      if value = [] then js ''a condition with no service''
      else if r_serviceOp r = MEquals then value
      else patternWords (r_serviceOp r) @ js '' '' @ value)"

fun COND_WORDS :: "matcher_op \<Rightarrow> jstring" where
  "COND_WORDS MEquals = js ''is''"
| "COND_WORDS MPrefix = js ''starts with''"
| "COND_WORDS MSuffix = js ''ends with''"
| "COND_WORDS MContains = js ''contains''"
| "COND_WORDS MRegex = js ''matches''"
| "COND_WORDS MNotEquals = js ''is not''"
| "COND_WORDS MNotContains = js ''doesn'' @ [39] @ js ''t contain''"
| "COND_WORDS MExists = js ''is set''"
| "COND_WORDS MNotExists = js ''is absent''"

definition completeConds :: "rule \<Rightarrow> attr_cond list" where
  "completeConds r = filter cond_complete
     (map (\<lambda>a. a\<lparr>ac_attribute := trim (ac_attribute a), ac_value := trim (ac_value a)\<rparr>) (r_attrs r))"

definition conditionsPhrase :: "rule \<Rightarrow> jstring" where
  "conditionsPhrase r =
     (let conds = completeConds r in
      if conds = [] then js ''All traffic''
      else (let joiner = (if r_combine r = CAll then js '' and '' else js '' or '');
                parts = map (\<lambda>c. if ac_operator c \<in> set VALUELESS_MATCHER_OPS
                  then ac_attribute c @ js '' '' @ COND_WORDS (ac_operator c)
                  else ac_attribute c @ js '' '' @ COND_WORDS (ac_operator c) @ js '' '' @ ac_value c) conds
            in js ''Only where '' @ join joiner parts
               @ (if truthy_bool (r_descendants r) then js '', with child spans'' else [])))"

section \<open>The unsaved changes\<close>

text \<open>
  \<open>contentSig\<close> is the JSON text of this triple; two JSON texts are equal exactly when the triples
  are.  The default \<open>sort\<close> compares the conditions as comma-joined strings by code units.
\<close>

type_synonym content_sig = "combine_mode \<times> bool \<times> (jstring \<times> matcher_op \<times> jstring) list"

definition cond_text :: "jstring \<times> matcher_op \<times> jstring \<Rightarrow> jstring" where
  "cond_text c = join (js '','') [fst c, op_name (fst (snd c)), snd (snd c)]"

definition contentSig :: "rule \<Rightarrow> content_sig" where
  "contentSig r = (r_combine r, truthy_bool (r_descendants r),
     js_sort (cmp_on cond_text unit_compare)
       (map (\<lambda>c. (ac_attribute c, ac_operator c, ac_value c)) (completeConds r)))"

definition change_line :: "(jstring \<times> rule) list \<Rightarrow> jstring \<times> rule \<Rightarrow> jstring list" where
  "change_line before kr =
     (let r = snd kr in
      case map_of before (fst kr) of
        None \<Rightarrow> [js ''added '' @ memberPhrase r]
      | Some prev \<Rightarrow>
          if contentSig prev = contentSig r then []
          else (let had = completeConds prev \<noteq> []; has = completeConds r \<noteq> [] in
            if \<not> had \<and> has then [js ''narrowed '' @ memberPhrase r]
            else if had \<and> \<not> has then [js ''widened '' @ memberPhrase r @ js '' to all traffic'']
            else [js ''changed the conditions on '' @ memberPhrase r]))"

definition describeChanges :: "rule list \<Rightarrow> rule list \<Rightarrow> combine_mode \<Rightarrow> combine_mode \<Rightarrow> jstring list" where
  "describeChanges stored draft storedMode draftMode =
     (let after = matchersToRules (rulesToMatchers draft);
          before = map_of_entries ruleKey (\<lambda>r. r) stored;
          now = map_of_entries ruleKey (\<lambda>r. r) after;
          gone = filter (\<lambda>kr. map_of now (fst kr) = None) before;
          removed = (\<lambda>kr. js ''removed '' @ memberPhrase (snd kr));
          out = concat (map (change_line before) now)
            @ map removed (filter (\<lambda>kr. trim (r_service (snd kr)) \<noteq> []) gone)
            @ (if storedMode \<noteq> draftMode
               then [if draftMode = CAll then js ''now needs one trace through every service''
                     else js ''back to matching any service'']
               else []);
          dropped = map removed (filter (\<lambda>kr. trim (r_service (snd kr)) = []) gone)
      in if out \<noteq> [] then out @ dropped else [])"

section \<open>Suggestions\<close>

record service_neighbor =
  nb_service_name :: jstring
  nb_trace_count :: nat
  nb_link_trace_count :: "nat option"

record neighbors_response =
  nr_upstream :: "service_neighbor list option"
  nr_downstream :: "service_neighbor list option"

record suggestion =
  sug_name :: jstring
  sug_reason :: jstring
  sug_traffic :: nat

definition consider_name ::
  "jstring list \<Rightarrow> (jstring \<Rightarrow> bool) \<Rightarrow> (jstring \<times> suggestion) list \<Rightarrow> suggestion \<Rightarrow> (jstring \<times> suggestion) list" where
  "consider_name focals isCovered best s =
     (if sug_name s \<in> set focals \<or> isCovered (sug_name s) \<or> sug_traffic s = 0 then best
      else (case map_of best (sug_name s) of
          None \<Rightarrow> AList.update (sug_name s) s best
        | Some prev \<Rightarrow> if sug_traffic prev < sug_traffic s then AList.update (sug_name s) s best else best))"

definition neighbor_suggestion :: "jstring \<Rightarrow> jstring \<Rightarrow> service_neighbor \<Rightarrow> suggestion" where
  "neighbor_suggestion callReason linkReason n =
     (let links = coalesce (nb_link_trace_count n) 0 in
      \<lparr>sug_name = nb_service_name n,
       sug_reason = (if links \<le> nb_trace_count n then callReason else linkReason),
       sug_traffic = nb_trace_count n + links\<rparr>)"

definition offered :: "jstring \<times> neighbors_response \<Rightarrow> suggestion list" where
  "offered fd = (case fd of (focal, data) \<Rightarrow>
     map (neighbor_suggestion (js ''called by '' @ focal) (js ''receives hand-offs from '' @ focal)) (coalesce (nr_downstream data) [])
     @ map (neighbor_suggestion (js ''calls '' @ focal) (js ''hands off to '' @ focal)) (coalesce (nr_upstream data) []))"

definition mergeSuggestions ::
  "(jstring \<Rightarrow> jstring \<Rightarrow> int) \<Rightarrow> (jstring \<times> neighbors_response) list \<Rightarrow> (jstring \<Rightarrow> bool) \<Rightarrow> suggestion list" where
  "mergeSuggestions coll neighbourhoods isCovered =
     (let focals = map fst neighbourhoods;
          best = foldl (consider_name focals isCovered) [] (concat (map offered neighbourhoods))
      in js_sort (cmp_then (cmp_desc (\<lambda>s. int (sug_traffic s))) (cmp_on sug_name coll)) (map_values best))"

definition short_window :: "jstring \<Rightarrow> bool" where
  "short_window w \<longleftrightarrow> 2 \<le> length w \<and> list_all is_digit (butlast w) \<and> last w \<in> set (js ''mhdw'')"

definition windowPhrase :: "jstring \<Rightarrow> jstring" where
  "windowPhrase w = (if short_window w then js ''in the last '' @ w else js ''in this range'')"

definition windowShort :: "jstring \<Rightarrow> jstring" where
  "windowShort w = (if short_window w then w else js ''range'')"

section \<open>Shell patterns\<close>

text \<open>A shell pattern: a star stands for any text, every other unit for itself.\<close>

fun glob :: "jstring \<Rightarrow> jstring \<Rightarrow> bool" where
  "glob [] n \<longleftrightarrow> n = []"
| "glob (c # p) n \<longleftrightarrow>
     (if is_star c then (\<exists>k \<in> set [0..<length n + 1]. glob p (drop k n)) else n \<noteq> [] \<and> hd n = c \<and> glob p (tl n))"

lemma glob_plain: "\<not> list_ex is_star p \<Longrightarrow> glob (p @ q) n \<longleftrightarrow> (\<exists>m. n = p @ m \<and> glob q m)"
proof (induction p arbitrary: n)
  case (Cons c p)
  then show ?case by (cases n) auto
qed simp

lemma glob_star_skip: "is_star c \<Longrightarrow> glob (c # p) n \<longleftrightarrow> (\<exists>a b. n = a @ b \<and> glob p b)"
proof -
  assume c: "is_star c"
  have "(\<exists>k \<in> set [0..<length n + 1]. glob p (drop k n)) \<longleftrightarrow> (\<exists>a b. n = a @ b \<and> glob p b)"
  proof
    assume "\<exists>k \<in> set [0..<length n + 1]. glob p (drop k n)"
    then show "\<exists>a b. n = a @ b \<and> glob p b" by (metis append_take_drop_id)
  next
    assume "\<exists>a b. n = a @ b \<and> glob p b"
    then obtain a b where "n = a @ b" "glob p b" by blast
    then show "\<exists>k \<in> set [0..<length n + 1]. glob p (drop k n)" by (intro bexI [of _ "length a"]) auto
  qed
  with c show ?thesis by simp
qed

lemma glob_stars: "st \<noteq> [] \<Longrightarrow> list_all is_star st \<Longrightarrow> glob (st @ p) n \<longleftrightarrow> (\<exists>a b. n = a @ b \<and> glob p b)"
proof (induction st arbitrary: n)
  case (Cons c st)
  show ?case
  proof (cases "st = []")
    case False
    with Cons have "glob ((c # st) @ p) n \<longleftrightarrow> (\<exists>a b. n = a @ b \<and> (\<exists>a' b'. b = a' @ b' \<and> glob p b'))"
      using glob_star_skip [of c "st @ p" n] by simp
    then show ?thesis by (metis append.assoc append_Nil)
  qed (use Cons.prems glob_star_skip in simp)
qed simp

lemma strip_stars:
  obtains s1 s2 where "q = s1 @ strip_ends is_star q @ s2" "list_all is_star s1" "list_all is_star s2"
    "strip_ends is_star q \<noteq> [] \<Longrightarrow> \<not> is_star (hd (strip_ends is_star q)) \<and> \<not> is_star (last (strip_ends is_star q))"
proof
  let ?d = "dropWhile is_star q"
  have d: "?d = strip_ends is_star q @ rev (takeWhile is_star (rev ?d))"
    unfolding strip_ends_def by (metis rev_append rev_rev_ident takeWhile_dropWhile_id)
  then show "q = takeWhile is_star q @ strip_ends is_star q @ rev (takeWhile is_star (rev ?d))"
    by (metis takeWhile_dropWhile_id)
  show "list_all is_star (takeWhile is_star q)" "list_all is_star (rev (takeWhile is_star (rev ?d)))"
    by (auto simp: list_all_iff dest: set_takeWhileD)
  assume ne: "strip_ends is_star q \<noteq> []"
  then have "hd (strip_ends is_star q) = hd ?d" using d by (metis hd_append2)
  moreover have "?d \<noteq> []"
  proof
    assume "?d = []"
    then have "strip_ends is_star q = []" unfolding strip_ends_def by (simp only: rev.simps dropWhile.simps)
    with ne show False by simp
  qed
  moreover have "\<not> is_star (last (strip_ends is_star q))"
    using ne hd_dropWhile [of is_star "rev ?d"] by (auto simp: strip_ends_def last_rev)
  ultimately show "\<not> is_star (hd (strip_ends is_star q)) \<and> \<not> is_star (last (strip_ends is_star q))"
    using hd_dropWhile [of is_star q] by simp
qed


section \<open>Untouched editors and good suggestions\<close>

text \<open>A rule as loading leaves it: blank, or complete enough to be stored as it is.\<close>

definition loaded_rule :: "rule \<Rightarrow> bool" where
  "loaded_rule r \<longleftrightarrow> clean_rule r \<and> (trim (r_service r) = [] \<or> (r_combine r = CAll \<longrightarrow> 1 < length (validAttrs r)))"

lemma completeConds_triples:
  "map (\<lambda>c. (ac_attribute c, ac_operator c, ac_value c)) (completeConds r) =
   map (\<lambda>c. (ac_attribute c, ac_operator c, ac_value c)) (validAttrs r)"
  unfolding completeConds_def validAttrs_def
  by (induction "r_attrs r" arbitrary: r rule: list.induct) (auto simp: cond_complete_def filter_map comp_def)

lemma completeConds_Nil: "completeConds r = [] \<longleftrightarrow> validAttrs r = []"
  using arg_cong [OF completeConds_triples [of r], of length] by (simp flip: length_0_conv)

lemma contentSig_norm:
  assumes "r_combine r = CAll \<longrightarrow> 1 < length (validAttrs r)"
  shows "contentSig (norm_rule r) = contentSig r"
proof -
  have "r_combine (norm_rule r) = r_combine r"
    using assms by (cases "r_combine r") (auto simp: norm_rule_def)
  moreover have "truthy_bool (r_descendants (norm_rule r)) = truthy_bool (r_descendants r)" by (simp add: norm_rule_def)
  ultimately show ?thesis unfolding contentSig_def completeConds_triples by simp
qed

lemma ruleKey_norm [simp]: "ruleKey (norm_rule r) = ruleKey r"
  by (simp add: ruleKey_def norm_rule_def)

lemma op_name_nul: "0 \<notin> set (op_name o1)"
  by (cases o1) (simp_all add: js_def)

lemma ruleKey_service: "ruleKey a = ruleKey b \<Longrightarrow> trim (r_service a) = trim (r_service b)"
proof -
  have "index_of 0 (op_name o1 @ 0 # x) = Some (length (op_name o1))" for o1 x
    using op_name_nul by (rule index_of_Some_append)
  moreover assume "ruleKey a = ruleKey b"
  ultimately show ?thesis unfolding ruleKey_def
    by (metis append_Cons append_eq_append_conv append_self_conv2 list.inject option.inject)
qed

text \<open>an editor nobody has touched shows no unsaved change: comparing a loaded list of rules with
  itself, in the same mode, lists nothing, blank rules included.\<close>

theorem untouched_editor_shows_no_change:
  assumes "\<forall>r \<in> set rules. loaded_rule r"
  shows "describeChanges rules rules mode mode = []"
proof -
  let ?nb = "filter (\<lambda>r. trim (r_service r) \<noteq> []) rules"
  let ?before = "map_of_entries ruleKey (\<lambda>r. r) rules" and ?now = "map_of_entries ruleKey (\<lambda>r. r) (map norm_rule ?nb)"
  have after: "matchersToRules (rulesToMatchers rules) = map norm_rule ?nb"
    using assms by (subst rules_round_trip) (auto simp: loaded_rule_def stored_rules_def)
  have now: "map_of ?now k = map_option norm_rule (find (\<lambda>r. ruleKey r = k \<and> trim (r_service r) \<noteq> []) (rev rules))" for k
  proof -
    have "find (\<lambda>r. ruleKey r = k) (map norm_rule xs) = map_option norm_rule (find (\<lambda>r. ruleKey r = k) xs)" for xs
      by (induction xs) auto
    moreover have "find P (filter Q xs) = find (\<lambda>x. P x \<and> Q x) xs" for P Q and xs :: "rule list"
      by (induction xs) auto
    ultimately show ?thesis by (simp add: map_of_map_of_entries rev_map rev_filter option.map_ident)
  qed
  have before: "map_of ?before k = find (\<lambda>r. ruleKey r = k) (rev rules)" for k
    by (simp add: map_of_map_of_entries option.map_ident)
  have same: "find (\<lambda>r. ruleKey r = k \<and> trim (r_service r) \<noteq> []) (rev rules) = find (\<lambda>r. ruleKey r = k) (rev rules)"
    if "ruleKey u = k" "trim (r_service u) \<noteq> []" for u k
    using that ruleKey_service by (intro arg_cong2 [where f = find] ext refl) metis
  have "change_line ?before kr = []" if kr: "kr \<in> set ?now" for kr
  proof -
    obtain k v where kv: "kr = (k, v)" by (cases kr)
    then have "map_of ?now k = Some v" using kr by (intro map_of_is_SomeI) auto
    then obtain u where u: "find (\<lambda>r. ruleKey r = k \<and> trim (r_service r) \<noteq> []) (rev rules) = Some u" "v = norm_rule u"
      by (auto simp: now)
    with find_SomeD [OF u(1)] have "ruleKey u = k" "trim (r_service u) \<noteq> []" "u \<in> set rules" by auto
    moreover then have "map_of ?before k = Some u" using u(1) same [of u k] unfolding before by simp
    ultimately show ?thesis using assms kv u(2) contentSig_norm [of u] by (auto simp: change_line_def loaded_rule_def)
  qed
  moreover have "trim (r_service (snd kr)) = []" if kr: "kr \<in> set ?before" "map_of ?now (fst kr) = None" for kr
  proof (rule ccontr)
    assume ne: "trim (r_service (snd kr)) \<noteq> []"
    have "map_of ?before (fst kr) = Some (snd kr)" using kr(1) by (intro map_of_is_SomeI) auto
    then have f: "find (\<lambda>r. ruleKey r = fst kr) (rev rules) = Some (snd kr)" by (simp add: before)
    then have "ruleKey (snd kr) = fst kr" using find_SomeD by fast
    from same [OF this ne] f kr(2) show False unfolding now by simp
  qed
  ultimately have "concat (map (change_line ?before) ?now) = []"
    and "filter (\<lambda>kr. trim (r_service (snd kr)) \<noteq> []) (filter (\<lambda>kr. map_of ?now (fst kr) = None) ?before) = []"
    unfolding concat_eq_Nil_conv set_map filter_empty_conv set_filter by blast+
  then show ?thesis unfolding describeChanges_def Let_def after by simp
qed

definition eligible :: "jstring list \<Rightarrow> (jstring \<Rightarrow> bool) \<Rightarrow> suggestion \<Rightarrow> bool" where
  "eligible focals cov s \<longleftrightarrow> sug_name s \<notin> set focals \<and> \<not> cov (sug_name s) \<and> 0 < sug_traffic s"

lemma consider_name_alt: "consider_name focals cov m s =
    (if \<not> eligible focals cov s then m
     else (case map_of m (sug_name s) of None \<Rightarrow> AList.update (sug_name s) s m
       | Some prev \<Rightarrow> if sug_traffic prev < sug_traffic s then AList.update (sug_name s) s m else m))"
  by (auto simp: consider_name_def eligible_def)

lemma best_distinct: "distinct (map fst (foldl (consider_name focals cov) [] os))"
  by (induction os rule: rev_induct) (auto simp: consider_name_alt distinct_update split: option.splits)

lemma best_fold:
  "case map_of (foldl (consider_name focals cov) [] os) k of
     None \<Rightarrow> \<forall>s \<in> set os. eligible focals cov s \<longrightarrow> sug_name s \<noteq> k
   | Some b \<Rightarrow> b \<in> set os \<and> eligible focals cov b \<and> sug_name b = k
       \<and> (\<forall>s \<in> set os. eligible focals cov s \<and> sug_name s = k \<longrightarrow> sug_traffic s \<le> sug_traffic b)"
proof (induction os rule: rev_induct)
  case (snoc s os)
  define m where "m = foldl (consider_name focals cov) [] os"
  note ih = snoc [folded m_def]
  have "foldl (consider_name focals cov) [] (os @ [s]) = consider_name focals cov m s" by (simp add: m_def)
  moreover have "map_of (consider_name focals cov m s) k =
      (if eligible focals cov s \<and> sug_name s = k
       then Some (case map_of m k of None \<Rightarrow> s | Some b \<Rightarrow> if sug_traffic b < sug_traffic s then s else b)
       else map_of m k)"
    by (auto simp: consider_name_alt update_conv split: option.splits)
  ultimately show ?case using ih
    by (cases "map_of m k"; cases "eligible focals cov s \<and> sug_name s = k") auto
qed simp

text \<open>the suggestions are the best of what the neighbours offer: no member and nothing already
  covered, each service once, with the connection that carries the most traffic as its reason, no
  connected service left out, busiest first.\<close>

theorem suggestions_are_best_offers:
  assumes "js_comparator coll"
  shows "let found = mergeSuggestions coll nbs cov; offers = concat (map offered nbs) in
    distinct (map sug_name found)
    \<and> (\<forall>s \<in> set found. s \<in> set offers \<and> sug_name s \<notin> fst ` set nbs \<and> \<not> cov (sug_name s) \<and> 0 < sug_traffic s
        \<and> (\<forall>t \<in> set offers. sug_name t = sug_name s \<longrightarrow> sug_traffic t \<le> sug_traffic s))
    \<and> (\<forall>t \<in> set offers. sug_name t \<notin> fst ` set nbs \<and> \<not> cov (sug_name t) \<and> 0 < sug_traffic t
        \<longrightarrow> sug_name t \<in> sug_name ` set found)
    \<and> sorted_wrt (\<lambda>a b. sug_traffic b \<le> sug_traffic a) found"
proof -
  define offers where "offers = concat (map offered nbs)"
  define found where "found = mergeSuggestions coll nbs cov"
  let ?m = "foldl (consider_name (map fst nbs) cov) [] offers"
  let ?c = "cmp_then (cmp_desc (\<lambda>s. int (sug_traffic s))) (cmp_on sug_name coll)"
  have found: "found = js_sort ?c (map snd ?m)"
    by (simp add: found_def offers_def mergeSuggestions_def Let_def map_values_def)
  note b = best_distinct [of "map fst nbs" cov offers]
  have entry: "b \<in> set offers \<and> sug_name b \<notin> fst ` set nbs \<and> \<not> cov (sug_name b) \<and> 0 < sug_traffic b \<and> sug_name b = k
      \<and> (\<forall>s \<in> set offers. sug_name s = k \<longrightarrow> sug_traffic s \<le> sug_traffic b)" if kb: "(k, b) \<in> set ?m" for k b
  proof -
    have "map_of ?m k = Some b" using kb b by (simp add: map_of_is_SomeI)
    with best_fold [where os = offers and focals = "map fst nbs" and cov = cov and k = k]
    have e: "b \<in> set offers" "eligible (map fst nbs) cov b" "sug_name b = k"
      "\<forall>s \<in> set offers. eligible (map fst nbs) cov s \<and> sug_name s = k \<longrightarrow> sug_traffic s \<le> sug_traffic b" by auto
    moreover have "sug_traffic s \<le> sug_traffic b" if "s \<in> set offers" "sug_name s = k" for s
      using that e by (cases "sug_traffic s = 0") (auto simp: eligible_def)
    ultimately show ?thesis by (auto simp: eligible_def)
  qed
  have some: "sug_name t \<in> sug_name ` set found"
    if t: "t \<in> set offers" "sug_name t \<notin> fst ` set nbs" "\<not> cov (sug_name t)" "0 < sug_traffic t" for t
  proof -
    have "map_of ?m (sug_name t) \<noteq> None"
      using best_fold [where os = offers and focals = "map fst nbs" and cov = cov and k = "sug_name t"] t by (auto simp: eligible_def split: option.splits)
    then obtain b where b: "(sug_name t, b) \<in> set ?m" by (auto dest: map_of_SomeD)
    then have "b \<in> set found" unfolding found set_js_sort set_map by (rule image_eqI [rotated]) simp
    moreover have "sug_name t = sug_name b" using entry [OF b] by simp
    ultimately show ?thesis by (rule image_eqI [rotated])
  qed
  have "map sug_name (map snd ?m) = map fst ?m" using entry by auto
  then have "distinct (map sug_name (map snd ?m))" using b by (simp only:)
  then have "distinct (map sug_name found)"
    unfolding found by (metis mset_eq_imp_distinct_iff mset_js_sort mset_map)
  moreover have "sorted_wrt (\<lambda>a b. sug_traffic b \<le> sug_traffic a) found"
  proof -
    have "js_comparator ?c" using assms(1) by (intro js_comparator_intros)
    from js_sort_sorted [OF this, of "map snd ?m"] show ?thesis unfolding found
      by (rule sorted_wrt_mono_rel [rotated]) (auto simp: cmp_then_def cmp_desc_def split: if_splits)
  qed
  moreover have "s \<in> set offers \<and> sug_name s \<notin> fst ` set nbs \<and> \<not> cov (sug_name s) \<and> 0 < sug_traffic s
      \<and> (\<forall>t \<in> set offers. sug_name t = sug_name s \<longrightarrow> sug_traffic t \<le> sug_traffic s)" if "s \<in> set found" for s
  proof -
    from that obtain k where "(k, s) \<in> set ?m" by (auto simp: found)
    from entry [OF this] show ?thesis by auto
  qed
  ultimately show ?thesis
    unfolding Let_def offers_def [symmetric] found_def [symmetric] using some by blast
qed

section \<open>Examples\<close>


lemma untouched_editor_shows_no_change_ex:
  "list_all loaded_rule (take 2 demo_rules) \<and> describeChanges (take 2 demo_rules) (take 2 demo_rules) CAny CAny = []"
proof -
  have l: "list_all loaded_rule (take 2 demo_rules)" by code_simp
  then have "\<forall>r \<in> set (take 2 demo_rules). loaded_rule r" by (simp only: list_all_iff)
  from untouched_editor_shows_no_change [OF this, of CAny] l show ?thesis by blast
qed

definition demo_neighbours :: "(jstring \<times> neighbors_response) list" where
  "demo_neighbours = [
     (js ''orders'', \<lparr>nr_upstream = None, nr_downstream = Some [
        \<lparr>nb_service_name = js ''queue'', nb_trace_count = 3, nb_link_trace_count = Some 1\<rparr>]\<rparr>),
     (js ''billing'', \<lparr>nr_upstream = Some [
        \<lparr>nb_service_name = js ''queue'', nb_trace_count = 1, nb_link_trace_count = Some 9\<rparr>,
        \<lparr>nb_service_name = js ''orders'', nb_trace_count = 7, nb_link_trace_count = None\<rparr>], nr_downstream = None\<rparr>)]"

lemma suggestions_are_best_offers_ex:
  "js_comparator unit_compare \<and> map sug_name (mergeSuggestions unit_compare demo_neighbours (\<lambda>_. False)) = [js ''queue'']
    \<and> distinct (map sug_name (mergeSuggestions unit_compare demo_neighbours (\<lambda>_. False)))"
proof -
  have "map sug_name (mergeSuggestions unit_compare demo_neighbours (\<lambda>_. False)) = [js ''queue'']" by code_simp
  moreover have u: "js_comparator unit_compare" by (rule units.js_comparator_axioms)
  ultimately show ?thesis
    using suggestions_are_best_offers [OF u, of demo_neighbours "\<lambda>_. False"] unfolding Let_def by blast
qed

end
