(* ===== verification/Uri.thy ===== *)
theory Uri
  imports Prelude
begin

text \<open>
  \<open>encodeURIComponent\<close> and \<open>decodeURIComponent\<close> of ECMAScript over UTF-16 code units: \<open>None\<close> is the
  \<open>URIError\<close> a lone surrogate or a malformed escape throws.  Also the three operations of
  \<open>URLSearchParams\<close> the code uses, over its list of name/value pairs.
\<close>

section \<open>UTF-16 and UTF-8\<close>

definition high_surrogate :: "nat \<Rightarrow> bool" where
  "high_surrogate u \<longleftrightarrow> 0xD800 \<le> u \<and> u \<le> 0xDBFF"

definition low_surrogate :: "nat \<Rightarrow> bool" where
  "low_surrogate u \<longleftrightarrow> 0xDC00 \<le> u \<and> u \<le> 0xDFFF"

fun code_points :: "jstring \<Rightarrow> nat list option" where
  "code_points [] = Some []"
| "code_points (u # us) =
     (if high_surrogate u
      then (case us of
          [] \<Rightarrow> None
        | v # vs \<Rightarrow> if low_surrogate v
            then map_option (\<lambda>cs. (0x10000 + (u - 0xD800) * 0x400 + (v - 0xDC00)) # cs) (code_points vs)
            else None)
      else if low_surrogate u then None
      else map_option (\<lambda>cs. u # cs) (code_points us))"

definition utf16 :: "nat \<Rightarrow> jstring" where
  "utf16 c = (if c < 0x10000 then [c]
     else [0xD800 + (c - 0x10000) div 0x400, 0xDC00 + (c - 0x10000) mod 0x400])"

definition utf8 :: "nat \<Rightarrow> nat list" where
  "utf8 c = (if c < 0x80 then [c]
     else if c < 0x800 then [0xC0 + c div 0x40, 0x80 + c mod 0x40]
     else if c < 0x10000 then [0xE0 + c div 0x1000, 0x80 + c div 0x40 mod 0x40, 0x80 + c mod 0x40]
     else [0xF0 + c div 0x40000, 0x80 + c div 0x1000 mod 0x40, 0x80 + c div 0x40 mod 0x40, 0x80 + c mod 0x40])"

section \<open>Percent escapes\<close>

definition hex_digit :: "nat \<Rightarrow> nat" where
  "hex_digit n = (if n < 10 then 48 + n else 55 + n)"

definition hex_value :: "nat \<Rightarrow> nat option" where
  "hex_value c = (if is_digit c then Some (c - 48)
     else if 65 \<le> c \<and> c \<le> 70 then Some (c - 55)
     else if 97 \<le> c \<and> c \<le> 102 then Some (c - 87) else None)"

definition pct :: "nat \<Rightarrow> jstring" where
  "pct b = [37, hex_digit (b div 16), hex_digit (b mod 16)]"

definition unreserved :: "nat \<Rightarrow> bool" where
  "unreserved c \<longleftrightarrow> is_digit c \<or> is_lower c \<or> is_upper c \<or> c \<in> set (js ''-_.!~*()'') \<or> c = 39"

definition encode_point :: "nat \<Rightarrow> jstring" where
  "encode_point c = (if unreserved c then [c] else concat (map pct (utf8 c)))"

definition encodeURIComponent :: "jstring \<Rightarrow> jstring option" where
  "encodeURIComponent s = map_option (\<lambda>cs. concat (map encode_point cs)) (code_points s)"

text \<open>One \<open>%XX\<close> at the head, and what follows it.\<close>

fun take_pct :: "jstring \<Rightarrow> (nat \<times> jstring) option" where
  "take_pct (p # a # b # r) =
     (if p = 37 then (case (hex_value a, hex_value b) of (Some x, Some y) \<Rightarrow> Some (x * 16 + y, r) | _ \<Rightarrow> None) else None)"
| "take_pct _ = None"

text \<open>\<open>n\<close> continuation bytes, accumulated six bits at a time.\<close>

fun take_cont :: "nat \<Rightarrow> nat \<Rightarrow> jstring \<Rightarrow> (nat \<times> jstring) option" where
  "take_cont 0 acc r = Some (acc, r)"
| "take_cont (Suc n) acc r =
     (case take_pct r of
        None \<Rightarrow> None
      | Some (b, r') \<Rightarrow> if 0x80 \<le> b \<and> b \<le> 0xBF then take_cont n (acc * 0x40 + (b - 0x80)) r' else None)"

definition take_point :: "jstring \<Rightarrow> (nat \<times> jstring) option" where
  "take_point r =
     (case take_pct r of
        None \<Rightarrow> None
      | Some (b, r') \<Rightarrow>
          if b < 0x80 then Some (b, r')
          else (case (if 0xC0 \<le> b \<and> b \<le> 0xDF then take_cont 1 (b - 0xC0) r'
                      else if 0xE0 \<le> b \<and> b \<le> 0xEF then take_cont 2 (b - 0xE0) r'
                      else if 0xF0 \<le> b \<and> b \<le> 0xF7 then take_cont 3 (b - 0xF0) r' else None) of
              None \<Rightarrow> None
            | Some (c, r'') \<Rightarrow>
                if utf8 c \<noteq> [] \<and> hd (utf8 c) = b \<and> c \<le> 0x10FFFF \<and> \<not> high_surrogate c \<and> \<not> low_surrogate c
                then Some (c, r'') else None))"

lemma take_pct_shorter: "take_pct r = Some (b, r') \<Longrightarrow> length r' < length r"
  by (induction r rule: take_pct.induct) (auto split: if_splits option.splits)

lemma take_cont_shorter: "take_cont n acc r = Some (c, r') \<Longrightarrow> length r' \<le> length r"
  by (induction n acc r rule: take_cont.induct)
    (fastforce split: option.splits if_splits dest!: take_pct_shorter)+

lemma take_point_shorter: "take_point r = Some (c, r') \<Longrightarrow> length r' < length r"
  by (auto simp: take_point_def split: option.splits if_splits
      dest!: take_pct_shorter take_cont_shorter intro: le_less_trans)

function decodeURIComponent :: "jstring \<Rightarrow> jstring option" where
  "decodeURIComponent [] = Some []"
| "decodeURIComponent (u # us) =
     (if u = 37
      then (case take_point (u # us) of
          None \<Rightarrow> None
        | Some (c, r) \<Rightarrow> map_option (\<lambda>s. utf16 c @ s) (decodeURIComponent r))
      else map_option (\<lambda>s. u # s) (decodeURIComponent us))"
  by pat_completeness auto
termination
  by (relation "measure length") (auto dest: take_point_shorter)

section \<open>Search parameters\<close>

type_synonym params = "(jstring \<times> jstring) list"

definition params_get :: "params \<Rightarrow> jstring \<Rightarrow> jstring option" where
  "params_get ps k = map_of ps k"

definition params_delete :: "params \<Rightarrow> jstring \<Rightarrow> params" where
  "params_delete ps k = filter (\<lambda>p. fst p \<noteq> k) ps"

fun params_set :: "params \<Rightarrow> jstring \<Rightarrow> jstring \<Rightarrow> params" where
  "params_set [] k v = [(k, v)]"
| "params_set (p # ps) k v = (if fst p = k then (k, v) # params_delete ps k else p # params_set ps k v)"

lemma params_set_fresh: "k \<notin> fst ` set ps \<Longrightarrow> params_set ps k v = ps @ [(k, v)]"
  by (induction ps) auto

lemma get_delete: "params_get (params_delete ps k) j = (if j = k then None else params_get ps j)"
  by (induction ps) (auto simp: params_get_def params_delete_def)

lemma get_set: "params_get (params_set ps k v) j = (if j = k then Some v else params_get ps j)"
proof (induction ps)
  case (Cons p ps)
  then show ?case using get_delete [of ps k j] by (cases p) (auto simp: params_get_def)
qed (simp add: params_get_def)

section \<open>Decoding undoes encoding\<close>

lemma hex_digit_value: "n < 16 \<Longrightarrow> hex_value (hex_digit n) = Some n"
  by (auto simp: hex_digit_def hex_value_def is_digit_def)

lemma take_pct_pct: "b < 256 \<Longrightarrow> take_pct (pct b @ r) = Some (b, r)"
  by (simp add: pct_def hex_digit_value)

lemma utf16_pair:
  assumes "x < 0x400" "y < 0x400"
  shows "utf16 (0x10000 + x * 0x400 + y) = [0xD800 + x, 0xDC00 + y]"
proof -
  have "0x10000 + x * 0x400 + y - 0x10000 = y + 0x400 * x" by simp
  moreover have "(y + 0x400 * x) div 0x400 = x" using assms(2) by (subst div_mult_self2) simp_all
  moreover have "(y + 0x400 * x) mod 0x400 = y" using assms(2) by (subst mod_mult_self2) simp
  ultimately show ?thesis by (simp add: utf16_def)
qed

lemma code_points_valid:
  "code_points s = Some cs \<Longrightarrow> \<forall>u \<in> set s. u < 0x10000 \<Longrightarrow>
     concat (map utf16 cs) = s \<and> (\<forall>c \<in> set cs. c \<le> 0x10FFFF \<and> \<not> high_surrogate c \<and> \<not> low_surrogate c)"
proof (induction s arbitrary: cs rule: code_points.induct)
  case (2 u us)
  show ?case
  proof (cases "high_surrogate u")
    case True
    then obtain v vs ds where us: "us = v # vs" "low_surrogate v" "code_points vs = Some ds"
      "cs = (0x10000 + (u - 0xD800) * 0x400 + (v - 0xDC00)) # ds"
      using 2(3) by (auto split: list.splits if_splits)
    have ih: "concat (map utf16 ds) = vs \<and> (\<forall>c \<in> set ds. c \<le> 0x10FFFF \<and> \<not> high_surrogate c \<and> \<not> low_surrogate c)"
      using 2(1) [OF True us(1,2,3)] 2(4) us(1) by simp
    have r: "v - 0xDC00 < 0x400" "u - 0xD800 < 0x400" "0xD800 + (u - 0xD800) = u" "0xDC00 + (v - 0xDC00) = v"
      using True us(2) by (auto simp: high_surrogate_def low_surrogate_def)
    have "utf16 (0x10000 + (u - 0xD800) * 0x400 + (v - 0xDC00)) = [u, v]"
      using utf16_pair [OF r(2,1)] r(3,4) by simp
    moreover have "0x10000 + (u - 0xD800) * 0x400 + (v - 0xDC00) \<le> 0x10FFFF" using r by linarith
    ultimately show ?thesis using ih us(1,4) by (simp add: high_surrogate_def low_surrogate_def)
  next
    case False
    with 2(3) obtain ds where "\<not> low_surrogate u" "code_points us = Some ds" "cs = u # ds" by (auto split: if_splits)
    with 2(2) [OF False, of ds] 2(4) False show ?thesis by (simp add: utf16_def)
  qed
qed simp

lemma take_cont_pct:
  "0x80 \<le> b \<Longrightarrow> b \<le> 0xBF \<Longrightarrow> take_cont (Suc n) acc (pct b @ r) = take_cont n (acc * 0x40 + (b - 0x80)) r"
  by (simp add: take_pct_pct)

lemma six_bits: "c div 0x1000 = c div 0x40 div (0x40 :: nat)" "c div 0x40000 = c div 0x40 div 0x40 div (0x40 :: nat)"
  by (simp_all flip: div_mult2_eq)

lemma cont_byte: "(0x80::nat) \<le> 0x80 + c mod 0x40" "(0x80::nat) + c mod 0x40 \<le> 0xBF"
  by auto

lemma cont_rest: "0x80 + c mod 0x40 - 0x80 = (c mod 0x40 :: nat)"
  by simp

lemma take_point_encoded:
  assumes "c \<le> 0x10FFFF" "\<not> high_surrogate c" "\<not> low_surrogate c"
  shows "take_point (concat (map pct (utf8 c)) @ r) = Some (c, r)"
proof -
  consider "c < 0x80" | "0x80 \<le> c" "c < 0x800" | "0x800 \<le> c" "c < 0x10000" | "0x10000 \<le> c" by linarith
  then show ?thesis
  proof cases
    case 1
    then show ?thesis by (simp add: utf8_def take_point_def take_pct_pct)
  next
    case 2
    let ?b = "0xC0 + c div 0x40"
    have u: "utf8 c = [?b, 0x80 + c mod 0x40]" using 2 by (simp add: utf8_def)
    have b: "0xC0 \<le> ?b" "?b \<le> 0xDF" using 2 by auto
    have "take_cont 1 (?b - 0xC0) (pct (0x80 + c mod 0x40) @ r) = Some (c, r)"
      unfolding One_nat_def by (subst take_cont_pct) auto
    then show ?thesis using assms b by (simp add: take_point_def take_pct_pct u)
  next
    case 3
    let ?b = "0xE0 + c div 0x1000"
    have u: "utf8 c = [?b, 0x80 + c div 0x40 mod 0x40, 0x80 + c mod 0x40]" using 3 by (simp add: utf8_def)
    have b: "0xE0 \<le> ?b" "?b \<le> 0xEF" using 3 by auto
    have "take_cont 2 (?b - 0xE0) (pct (0x80 + c div 0x40 mod 0x40) @ pct (0x80 + c mod 0x40) @ r) = Some (c, r)"
    proof -
      have "(c div 0x1000 * 0x40 + c div 0x40 mod 0x40) * 0x40 + c mod 0x40 = c"
        by (simp only: six_bits(1) div_mult_mod_eq)
      then show ?thesis by (simp only: numeral_2_eq_2 take_cont_pct cont_byte cont_rest take_cont.simps(1) add_diff_cancel_left')
    qed
    then show ?thesis using assms b by (simp add: take_point_def take_pct_pct u)
  next
    case 4
    let ?b = "0xF0 + c div 0x40000"
    have u: "utf8 c = [?b, 0x80 + c div 0x1000 mod 0x40, 0x80 + c div 0x40 mod 0x40, 0x80 + c mod 0x40]"
      using 4 by (simp add: utf8_def)
    have b: "0xF0 \<le> ?b" "?b \<le> 0xF7" using assms(1) by auto
    have "take_cont 3 (?b - 0xF0) (pct (0x80 + c div 0x1000 mod 0x40) @ pct (0x80 + c div 0x40 mod 0x40)
        @ pct (0x80 + c mod 0x40) @ r) = Some (c, r)"
    proof -
      have "((c div 0x40000 * 0x40 + c div 0x1000 mod 0x40) * 0x40 + c div 0x40 mod 0x40) * 0x40 + c mod 0x40 = c"
        by (simp only: six_bits div_mult_mod_eq)
      then show ?thesis by (simp only: numeral_3_eq_3 take_cont_pct cont_byte cont_rest take_cont.simps(1) add_diff_cancel_left')
    qed
    then show ?thesis using assms b by (simp add: take_point_def take_pct_pct u)
  qed
qed


lemma decode_encode_point:
  assumes "c \<le> 0x10FFFF" "\<not> high_surrogate c" "\<not> low_surrogate c"
  shows "decodeURIComponent (encode_point c @ r) = map_option (\<lambda>s. utf16 c @ s) (decodeURIComponent r)"
proof (cases "unreserved c")
  case True
  then have "c \<noteq> 37" "c < 0x10000"
    by (auto simp: unreserved_def is_digit_def is_lower_def is_upper_def js_def)
  with True show ?thesis by (simp add: encode_point_def utf16_def)
next
  case False
  obtain b bs where u: "utf8 c = b # bs" by (cases "utf8 c") (auto simp: utf8_def split: if_splits)
  have h: "concat (map pct (utf8 c)) @ r = 37 # (tl (pct b) @ concat (map pct bs) @ r)" by (simp add: u pct_def)
  show ?thesis
    using take_point_encoded [OF assms, of r] False unfolding encode_point_def h by (simp add: h)
qed

theorem decode_encode:
  assumes "encodeURIComponent s = Some e" "\<forall>u \<in> set s. u < 0x10000"
  shows "decodeURIComponent e = Some s"
proof -
  obtain cs where cs: "code_points s = Some cs" "e = concat (map encode_point cs)"
    using assms(1) by (auto simp: encodeURIComponent_def)
  have "decodeURIComponent (concat (map encode_point cs)) = Some (concat (map utf16 cs))"
    if "\<forall>c \<in> set cs. c \<le> 0x10FFFF \<and> \<not> high_surrogate c \<and> \<not> low_surrogate c" for cs
    using that by (induction cs) (simp_all add: decode_encode_point)
  with code_points_valid [OF cs(1) assms(2)] cs(2) show ?thesis by metis
qed

definition escaped_unit :: "nat \<Rightarrow> bool" where
  "escaped_unit c \<longleftrightarrow> unreserved c \<or> c = 37"

lemma hex_digit_plain: "n < 16 \<Longrightarrow> \<not> is_digit (hex_digit n) \<Longrightarrow> is_upper (hex_digit n)"
  by (auto simp: hex_digit_def is_digit_def is_upper_def split: if_splits)

lemma pct_units: "b < 256 \<Longrightarrow> c \<in> set (pct b) \<Longrightarrow> escaped_unit c"
  by (auto simp: pct_def escaped_unit_def unreserved_def hex_digit_plain)

lemma utf8_bytes: "c \<le> 0x10FFFF \<Longrightarrow> b \<in> set (utf8 c) \<Longrightarrow> b < 256"
  by (auto simp: utf8_def split: if_splits)

lemma encode_units:
  assumes "encodeURIComponent s = Some e" "\<forall>u \<in> set s. u < 0x10000" "c \<in> set e"
  shows "escaped_unit c"
proof -
  obtain cs where cs: "code_points s = Some cs" "e = concat (map encode_point cs)"
    using assms(1) by (auto simp: encodeURIComponent_def)
  with assms(3) obtain p where p: "p \<in> set cs" "c \<in> set (encode_point p)" by auto
  with code_points_valid [OF cs(1) assms(2)] have "p \<le> 0x10FFFF" by blast
  with p(2) show ?thesis
    by (auto simp: encode_point_def escaped_unit_def [of p] split: if_splits
        dest: utf8_bytes intro: pct_units)
qed

lemma escaped_unit_plain: "escaped_unit c \<Longrightarrow> c \<noteq> 44 \<and> c \<noteq> 58 \<and> \<not> is_space c"
  by (auto simp: escaped_unit_def unreserved_def is_space_def is_digit_def is_lower_def is_upper_def js_def)

end
