(* ===== verification/FilterUrl.thy ===== *)
theory FilterUrl
  imports Uri Collections
begin

text \<open>
  \<open>components/search/FilterEditor.tsx\<close> (the filter row, the edit rule, the labels) and
  \<open>lib/messageFilterUrl.ts\<close> (the rows written to and read from the query string), with the wire
  conversions of the three message pages.
\<close>

section \<open>The filter row\<close>

datatype field = FPayload | FTime | FIntegration | FStatus | FService | FErrorType | FTraceId | FSpanId

datatype operator = OEquals | OContains | OIs | OIn | OMatches | ONotEquals | ONotContains | OExists | ONotExists

fun field_name :: "field \<Rightarrow> jstring" where
  "field_name FPayload = js ''payload''"
| "field_name FTime = js ''time''"
| "field_name FIntegration = js ''integration''"
| "field_name FStatus = js ''status''"
| "field_name FService = js ''service''"
| "field_name FErrorType = js ''errorType''"
| "field_name FTraceId = js ''traceId''"
| "field_name FSpanId = js ''spanId''"

fun operator_name :: "operator \<Rightarrow> jstring" where
  "operator_name OEquals = js ''equals''"
| "operator_name OContains = js ''contains''"
| "operator_name OIs = js ''is''"
| "operator_name OIn = js ''in''"
| "operator_name OMatches = js ''matches''"
| "operator_name ONotEquals = js ''not_equals''"
| "operator_name ONotContains = js ''not_contains''"
| "operator_name OExists = js ''exists''"
| "operator_name ONotExists = js ''not_exists''"

definition FIELDS :: "field list" where
  "FIELDS = [FPayload, FTime, FIntegration, FStatus, FService, FErrorType, FTraceId, FSpanId]"

definition OPERATORS :: "operator list" where
  "OPERATORS = [OEquals, OContains, OIs, OIn, OMatches, ONotEquals, ONotContains, OExists, ONotExists]"

definition VALUELESS :: "operator list" where
  "VALUELESS = [OExists, ONotExists]"

definition NEGATED_OPS :: "operator list" where
  "NEGATED_OPS = [ONotEquals, ONotContains, ONotExists]"

record filter_row =
  f_id :: jstring
  f_field :: field
  f_path :: "jstring option"
  f_op :: operator
  f_value :: jstring
  f_removable :: bool
  f_locked :: "bool option"
  f_optional :: "bool option"
  f_descendants :: "bool option"

text \<open>\<open>Partial<Filter>\<close>: the members an edit sets; \<open>None\<close> leaves the row's own.\<close>

record filter_patch =
  p_field :: "field option"
  p_path :: "jstring option option"
  p_op :: "operator option"
  p_value :: "jstring option"
  p_optional :: "bool option option"
  p_descendants :: "bool option option"

definition spread_patch :: "filter_row \<Rightarrow> filter_patch \<Rightarrow> filter_row" where
  "spread_patch f p =
     f\<lparr>f_field := coalesce (p_field p) (f_field f), f_path := coalesce (p_path p) (f_path f),
       f_op := coalesce (p_op p) (f_op f), f_value := coalesce (p_value p) (f_value f),
       f_optional := coalesce (p_optional p) (f_optional f),
       f_descendants := coalesce (p_descendants p) (f_descendants f)\<rparr>"

definition applyFilterPatch :: "filter_row \<Rightarrow> filter_patch \<Rightarrow> filter_row" where
  "applyFilterPatch f patch =
     (let next = spread_patch f patch in
      if trim (f_value next) \<noteq> [] then (if truthy_bool (f_optional next) then next\<lparr>f_optional := Some False\<rparr> else next)
      else if truthy_bool (f_optional f) then next\<lparr>f_optional := Some True\<rparr> else next)"

record attribute_key =
  mk_key :: jstring
  mk_label :: "jstring option"

definition attributeRowLabel :: "jstring \<Rightarrow> attribute_key list option \<Rightarrow> jstring" where
  "attributeRowLabel key keys =
     (case Option.bind keys (find (\<lambda>k. mk_key k = key)) of
        None \<Rightarrow> js ''attribute.'' @ key
      | Some named \<Rightarrow> (case mk_label named of
          None \<Rightarrow> js ''attribute.'' @ key
        | Some l \<Rightarrow> if trim l \<noteq> [] then l else js ''attribute.'' @ key))"

definition canIncludeDescendants :: "filter_row \<Rightarrow> bool" where
  "canIncludeDescendants f \<longleftrightarrow> f_field f = FPayload \<and> truthy_str (f_path f) \<and> f_op f \<notin> set NEGATED_OPS"

fun FIELD_LABELS :: "field \<Rightarrow> jstring" where
  "FIELD_LABELS FPayload = js ''attribute''"
| "FIELD_LABELS FTime = js ''time''"
| "FIELD_LABELS FIntegration = js ''integration''"
| "FIELD_LABELS FStatus = js ''status''"
| "FIELD_LABELS FService = js ''service''"
| "FIELD_LABELS FErrorType = js ''error type''"
| "FIELD_LABELS FTraceId = js ''trace ID''"
| "FIELD_LABELS FSpanId = js ''span ID''"

fun OP_LABELS :: "operator \<Rightarrow> jstring" where
  "OP_LABELS OEquals = js ''equals''"
| "OP_LABELS OContains = js ''contains''"
| "OP_LABELS OIs = js ''is''"
| "OP_LABELS OIn = js ''in''"
| "OP_LABELS OMatches = js ''matches''"
| "OP_LABELS ONotEquals = js ''never equals''"
| "OP_LABELS ONotContains = js ''never contains''"
| "OP_LABELS OExists = js ''is present''"
| "OP_LABELS ONotExists = js ''is never present''"

text \<open>The operators the picker offers for a field, and the label of a row's field pill.\<close>

definition picker_ops :: "field \<Rightarrow> operator list" where
  "picker_ops fl =
     (if fl = FTime then [OIs]
      else if fl = FTraceId \<or> fl = FSpanId then [OIs, OContains]
      else if fl = FStatus \<or> fl = FIntegration \<or> fl = FService then [OIs, OIn]
      else [OEquals, OContains, OMatches, OIn, ONotEquals, ONotContains, OExists, ONotExists])"

definition row_label :: "filter_row \<Rightarrow> attribute_key list option \<Rightarrow> jstring" where
  "row_label f keys =
     (if f_field f = FPayload \<and> truthy_str (f_path f) then attributeRowLabel (coalesce (f_path f) []) keys
      else FIELD_LABELS (f_field f))"

definition pick_field :: "field \<Rightarrow> jstring option \<Rightarrow> filter_patch" where
  "pick_field fl path =
     \<lparr>p_field = Some fl, p_path = Some path, p_op = (if fl = FTraceId \<or> fl = FSpanId then Some OIs else None),
      p_value = None, p_optional = None, p_descendants = None\<rparr>"

definition new_row :: "jstring \<Rightarrow> filter_row" where
  "new_row uid = \<lparr>f_id = uid, f_field = FPayload, f_path = Some [], f_op = OEquals, f_value = [],
     f_removable = True, f_locked = None, f_optional = None, f_descendants = None\<rparr>"

definition addFilter :: "jstring \<Rightarrow> filter_row list \<Rightarrow> filter_row list" where
  "addFilter uid fs = fs @ [new_row uid]"

definition updateFilter :: "filter_row list \<Rightarrow> jstring \<Rightarrow> filter_patch \<Rightarrow> filter_row list" where
  "updateFilter fs i patch = map (\<lambda>f. if f_id f = i then applyFilterPatch f patch else f) fs"

definition removeFilter :: "filter_row list \<Rightarrow> jstring \<Rightarrow> filter_row list" where
  "removeFilter fs i = filter (\<lambda>f. f_id f \<noteq> i) fs"

text \<open>\<open>/^any\b/i\<close> on a trimmed value.\<close>

definition any_word :: "jstring \<Rightarrow> bool" where
  "any_word s \<longleftrightarrow> map lower_unit (take 3 s) = js ''any'' \<and> (length s = 3 \<or> \<not> is_word (s ! 3))"

definition singleValue :: "filter_row list \<Rightarrow> field \<Rightarrow> jstring" where
  "singleValue fs fl =
     (case find (\<lambda>x. f_field x = fl \<and> \<not> truthy_bool (f_optional x) \<and> trim (f_value x) \<noteq> []
          \<and> cu CHR '','' \<notin> set (f_value x) \<and> \<not> any_word (trim (f_value x))) fs of
        None \<Rightarrow> [] | Some f \<Rightarrow> trim (f_value f))"

record known_integration =
  ki_id :: jstring
  ki_name :: jstring
  ki_services :: "jstring list option"

text \<open>The values each picker offers once the other side is chosen.\<close>

definition narrowedServices :: "known_integration list option \<Rightarrow> jstring list \<Rightarrow> jstring \<Rightarrow> jstring list" where
  "narrowedServices knownIntegrations knownServices activeIntegrationName =
     (if activeIntegrationName = [] then knownServices
      else (case Option.bind knownIntegrations (find (\<lambda>i. ki_name i = activeIntegrationName)) of
          None \<Rightarrow> knownServices
        | Some integ \<Rightarrow>
            let services = coalesce (ki_services integ) [] in
            if services = [] then knownServices
            else foldl (\<lambda>narrowed s. if s \<in> set narrowed then narrowed else narrowed @ [s])
                   (filter (\<lambda>s. s \<in> set services) knownServices) services))"

definition narrowedIntegrations ::
  "known_integration list option \<Rightarrow> jstring \<Rightarrow> known_integration list option" where
  "narrowedIntegrations knownIntegrations activeServiceName =
     (case knownIntegrations of
        None \<Rightarrow> None
      | Some ks \<Rightarrow>
          if activeServiceName = [] then Some ks
          else if filter (\<lambda>i. coalesce (ki_services i) [] \<noteq> []) ks = [] then Some ks
          else Some (filter (\<lambda>i. activeServiceName \<in> set (coalesce (ki_services i) [])) ks))"

section \<open>Reading the query string\<close>

definition decodeValue :: "jstring \<Rightarrow> jstring" where
  "decodeValue raw = (case decodeURIComponent raw of None \<Rightarrow> raw | Some v \<Rightarrow> v)"

definition find_operator :: "jstring \<Rightarrow> operator option" where
  "find_operator s = find (\<lambda>oper. operator_name oper = s) OPERATORS"

definition find_field :: "jstring \<Rightarrow> field option" where
  "find_field s = find (\<lambda>fl. field_name fl = s) FIELDS"

definition url_row :: "jstring \<Rightarrow> field \<Rightarrow> jstring option \<Rightarrow> operator \<Rightarrow> jstring \<Rightarrow> bool option \<Rightarrow> filter_row" where
  "url_row uid fl path oper value desc =
     \<lparr>f_id = uid, f_field = fl, f_path = path, f_op = oper, f_value = value, f_removable = True,
      f_locked = None, f_optional = None, f_descendants = desc\<rparr>"

text \<open>The \<open>*\<close> and the \<open>~op\<close> at the end of a chunk's left side; an unknown operator gives \<open>None\<close>.\<close>

definition split_star :: "jstring \<Rightarrow> bool \<times> jstring" where
  "split_star lhs = (if ends_with lhs (js ''*'') then (True, butlast lhs) else (False, lhs))"

definition split_op :: "jstring \<Rightarrow> (operator \<times> jstring) option" where
  "split_op lhs =
     (case index_of (cu CHR ''~'') lhs of
        None \<Rightarrow> Some (OEquals, lhs)
      | Some tilde \<Rightarrow> map_option (\<lambda>oper. (oper, take tilde lhs)) (find_operator (drop (Suc tilde) lhs)))"

text \<open>What one chunk pushes, and the loop; \<open>ids k\<close> is what the \<open>k\<close>-th call of \<open>uid\<close> returned.\<close>

definition parse_lhs :: "jstring \<Rightarrow> operator \<Rightarrow> jstring \<Rightarrow> jstring \<Rightarrow> bool \<Rightarrow> filter_row option" where
  "parse_lhs uid oper lhs value includeDescendants =
     (if starts_with lhs (js ''@'')
      then (case find_field (drop 1 lhs) of
          None \<Rightarrow> None
        | Some fl \<Rightarrow> if fl = FPayload \<or> fl = FTime then None else Some (url_row uid fl None oper value None))
      else let path = (if starts_with lhs (js ''payload.'') then drop 8 lhs else lhs) in
        if path = [] then None
        else if value = [] \<and> oper \<notin> set VALUELESS then None
        else Some (url_row uid FPayload (Some path) oper value (if includeDescendants then Some True else None)))"

definition parse_chunk :: "jstring \<Rightarrow> jstring \<Rightarrow> filter_row option" where
  "parse_chunk uid chunk =
     (let trimmed = trim chunk in
      if trimmed = [] then None
      else (case index_of (cu CHR '':'') trimmed of
          None \<Rightarrow> None
        | Some pos \<Rightarrow>
            let value = decodeValue (drop (Suc pos) trimmed);
                (includeDescendants, lhs) = split_star (take pos trimmed)
            in (case split_op lhs of
                  None \<Rightarrow> None
                | Some (oper, lhs') \<Rightarrow> parse_lhs uid oper lhs' value includeDescendants)))"

definition hydrate_step :: "(nat \<Rightarrow> jstring) \<Rightarrow> filter_row list \<Rightarrow> jstring \<Rightarrow> filter_row list" where
  "hydrate_step ids out chunk = (case parse_chunk (ids (length out)) chunk of None \<Rightarrow> out | Some r \<Rightarrow> out @ [r])"

definition hydrateFiltersFromUrl :: "(jstring \<Rightarrow> params) \<Rightarrow> (nat \<Rightarrow> jstring) \<Rightarrow> jstring \<Rightarrow> filter_row list" where
  "hydrateFiltersFromUrl parse_params ids search =
     (let ps = parse_params search;
          s = params_get ps (js ''s'');
          out = (if truthy_str s then [url_row (ids 0) FStatus None OIs (coalesce s []) None] else [])
      in case params_get ps (js ''q'') of
           None \<Rightarrow> out
         | Some q \<Rightarrow> if q = [] then out else foldl (hydrate_step ids) out (split_on (cu CHR '','') q))"

section \<open>Writing the query string\<close>

text \<open>One row: the parameters and the chunks so far. \<open>None\<close> is the \<open>URIError\<close> of a lone surrogate.\<close>

definition chunk_text :: "filter_row \<Rightarrow> jstring \<Rightarrow> jstring" where
  "chunk_text f value =
     (let opPart = (if f_op f = OEquals then [] else js ''~'' @ operator_name (f_op f));
          childPart = (if truthy_bool (f_descendants f) then js ''*'' else [])
      in if f_field f = FPayload then coalesce (f_path f) [] @ opPart @ childPart @ js '':'' @ value
         else js ''@'' @ field_name (f_field f) @ opPart @ js '':'' @ value)"

definition write_row :: "filter_row \<Rightarrow> params \<times> jstring list \<Rightarrow> (params \<times> jstring list) option" where
  "write_row f st =
     (if truthy_bool (f_optional f) \<or> truthy_bool (f_locked f) then Some st
      else if f_field f = FTime then Some st
      else if f_field f = FStatus then Some (params_set (fst st) (js ''s'') (f_value f), snd st)
      else if f_value f = [] \<and> f_op f \<notin> set VALUELESS then Some st
      else (case (if f_op f \<in> set VALUELESS then Some [] else encodeURIComponent (f_value f)) of
          None \<Rightarrow> None
        | Some value \<Rightarrow>
            if f_field f = FPayload \<and> \<not> truthy_str (f_path f) then Some st
            else Some (fst st, snd st @ [chunk_text f value])))"

fun write_rows :: "filter_row list \<Rightarrow> params \<times> jstring list \<Rightarrow> (params \<times> jstring list) option" where
  "write_rows [] st = Some st"
| "write_rows (f # fs) st = (case write_row f st of None \<Rightarrow> None | Some st' \<Rightarrow> write_rows fs st')"

definition writeFiltersToParams :: "filter_row list \<Rightarrow> params \<Rightarrow> params option" where
  "writeFiltersToParams fs ps =
     (case write_rows fs (params_delete (params_delete (params_delete ps (js ''s'')) (js ''q'')) (js ''t''), []) of
        None \<Rightarrow> None
      | Some (ps', q) \<Rightarrow> Some (if q = [] then ps' else params_set ps' (js ''q'') (join (js '','') q)))"


section \<open>Saved views on the wire\<close>

record message_filter =
  w_id :: "jstring option"
  w_field :: field
  w_path :: "jstring option"
  w_op :: operator
  w_value :: jstring
  w_removable :: "bool option"
  w_locked :: "bool option"
  w_descendants :: "bool option"
  w_optional :: "bool option"

definition wire_row :: "bool \<Rightarrow> filter_row \<Rightarrow> message_filter" where
  "wire_row keep_optional f =
     \<lparr>w_id = None, w_field = f_field f, w_path = f_path f, w_op = f_op f, w_value = f_value f,
      w_removable = Some (f_removable f), w_locked = f_locked f, w_descendants = f_descendants f,
      w_optional = (if keep_optional then f_optional f else None)\<rparr>"

text \<open>\<open>filtersToWire\<close> of the search page keeps muted rows, the other two pages drop them.\<close>

definition filtersToWire :: "filter_row list \<Rightarrow> message_filter list" where
  "filtersToWire fs = map (wire_row True) (filter (\<lambda>f. f_field f \<noteq> FTime) fs)"

definition filtersToWire_scoped :: "filter_row list \<Rightarrow> message_filter list" where
  "filtersToWire_scoped fs =
     map (wire_row False) (filter (\<lambda>f. \<not> truthy_bool (f_optional f) \<and> f_field f \<noteq> FTime) fs)"

text \<open>The rows of \<open>viewFromWire\<close>: \<open>ids k\<close> is the id made for the \<open>k\<close>-th kept row.\<close>

definition row_from_wire :: "jstring \<Rightarrow> message_filter \<Rightarrow> filter_row" where
  "row_from_wire uid w =
     \<lparr>f_id = coalesce (w_id w) uid, f_field = w_field w, f_path = w_path w, f_op = w_op w, f_value = w_value w,
      f_removable = coalesce (w_removable w) True, f_locked = w_locked w, f_optional = w_optional w,
      f_descendants = w_descendants w\<rparr>"

definition rowsFromWire :: "(nat \<Rightarrow> jstring) \<Rightarrow> message_filter list \<Rightarrow> filter_row list" where
  "rowsFromWire ids ws =
     (let kept = filter (\<lambda>w. w_field w \<noteq> FTime) ws in map2 (\<lambda>k w. row_from_wire (ids k) w) [0..<length kept] kept)"

definition same_filter :: "filter_row \<Rightarrow> filter_row \<Rightarrow> bool" where
  "same_filter x y \<longleftrightarrow> f_field x = f_field y \<and> f_path x = f_path y \<and> f_op x = f_op y \<and> f_value x = f_value y"

definition filtersEqual :: "filter_row list \<Rightarrow> filter_row list \<Rightarrow> bool" where
  "filtersEqual a b \<longleftrightarrow> length a = length b \<and> list_all2 same_filter a b"

definition makeLockedIntegrationFilter :: "jstring \<Rightarrow> filter_row" where
  "makeLockedIntegrationFilter integrationName =
     \<lparr>f_id = js ''scope-integration'', f_field = FIntegration, f_path = None, f_op = OIs, f_value = integrationName,
      f_removable = False, f_locked = Some True, f_optional = None, f_descendants = None\<rparr>"

definition makeLockedServiceFilter :: "jstring \<Rightarrow> filter_row" where
  "makeLockedServiceFilter serviceName =
     \<lparr>f_id = js ''scope-service'', f_field = FService, f_path = None, f_op = OIs, f_value = serviceName,
      f_removable = False, f_locked = Some True, f_optional = None, f_descendants = None\<rparr>"

section \<open>What a link carries\<close>

definition live :: "filter_row \<Rightarrow> bool" where
  "live f \<longleftrightarrow> \<not> truthy_bool (f_optional f) \<and> \<not> truthy_bool (f_locked f) \<and> f_field f \<noteq> FTime"

definition chunked :: "filter_row \<Rightarrow> bool" where
  "chunked f \<longleftrightarrow> live f \<and> f_field f \<noteq> FStatus \<and> (f_value f \<noteq> [] \<or> f_op f \<in> set VALUELESS)
     \<and> (f_field f = FPayload \<longrightarrow> truthy_str (f_path f))"

definition status_row :: "filter_row \<Rightarrow> bool" where
  "status_row f \<longleftrightarrow> live f \<and> f_field f = FStatus"

definition clean_path :: "jstring \<Rightarrow> bool" where
  "clean_path p \<longleftrightarrow> p \<noteq> [] \<and> set (js '',:~'') \<inter> set p = {} \<and> \<not> is_space (hd p)
     \<and> \<not> starts_with p (js ''@'') \<and> \<not> starts_with p (js ''payload.'') \<and> last p \<noteq> cu CHR ''*''"

definition clean_row :: "filter_row \<Rightarrow> bool" where
  "clean_row f \<longleftrightarrow> list_all (\<lambda>u. u < 0x10000) (f_value f)
     \<and> (chunked f \<and> f_field f = FPayload \<longrightarrow> clean_path (coalesce (f_path f) []))"

text \<open>The row a link gives back for a row it carries.\<close>

definition carried :: "jstring \<Rightarrow> filter_row \<Rightarrow> filter_row" where
  "carried uid f = url_row uid (f_field f) (if f_field f = FPayload then f_path f else None) (f_op f)
     (if f_op f \<in> set VALUELESS then [] else f_value f)
     (if f_field f = FPayload \<and> truthy_bool (f_descendants f) then Some True else None)"

text \<open>The status row: the last one's value, always under the operator \<open>is\<close>.\<close>

definition carried_status :: "filter_row list \<Rightarrow> jstring list" where
  "carried_status fs = (case rev (filter status_row fs) of [] \<Rightarrow> [] | f # _ \<Rightarrow> if f_value f = [] then [] else [f_value f])"

definition link_rows :: "(nat \<Rightarrow> jstring) \<Rightarrow> filter_row list \<Rightarrow> filter_row list" where
  "link_rows ids fs =
     (let st = carried_status fs; rs = filter chunked fs in
      map (\<lambda>v. url_row (ids 0) FStatus None OIs v None) st
        @ map2 (\<lambda>k f. carried (ids k) f) [length st..<length st + length rs] rs)"

lemma operator_name_plain:
  "cu CHR '':'' \<notin> set (operator_name oper) \<and> cu CHR '','' \<notin> set (operator_name oper) \<and> cu CHR ''~'' \<notin> set (operator_name oper)
     \<and> operator_name oper \<noteq> [] \<and> last (operator_name oper) \<noteq> cu CHR ''*''"
  by (cases oper) (simp_all add: js_def)

lemma field_name_plain:
  "cu CHR '':'' \<notin> set (field_name fl) \<and> cu CHR '','' \<notin> set (field_name fl) \<and> cu CHR ''~'' \<notin> set (field_name fl)
     \<and> field_name fl \<noteq> [] \<and> last (field_name fl) \<noteq> cu CHR ''*''"
  by (cases fl) (simp_all add: js_def)

lemma find_operator_name: "find_operator (operator_name oper) = Some oper"
  by (cases oper) (simp_all add: find_operator_def OPERATORS_def)

lemma find_field_name: "find_field (field_name fl) = Some fl"
  by (cases fl) (simp_all add: find_field_def FIELDS_def)


definition op_part :: "operator \<Rightarrow> jstring" where
  "op_part oper = (if oper = OEquals then [] else js ''~'' @ operator_name oper)"

lemma op_part_plain: "cu CHR '':'' \<notin> set (op_part oper) \<and> cu CHR '','' \<notin> set (op_part oper)
     \<and> (op_part oper \<noteq> [] \<longrightarrow> last (op_part oper) \<noteq> cu CHR ''*'')"
  using operator_name_plain [of oper] by (auto simp: op_part_def js_def)

lemma split_op_part: "cu CHR ''~'' \<notin> set p \<Longrightarrow> split_op (p @ op_part oper) = Some (oper, p)"
proof (cases "oper = OEquals")
  case True
  moreover assume "cu CHR ''~'' \<notin> set p"
  then have "index_of (cu CHR ''~'') p = None" by (simp add: index_of_None_iff)
  ultimately show ?thesis by (simp add: split_op_def op_part_def)
next
  case False
  assume "cu CHR ''~'' \<notin> set p"
  then have "index_of (cu CHR ''~'') (p @ cu CHR ''~'' # operator_name oper) = Some (length p)"
    by (rule index_of_Some_append)
  with False show ?thesis by (simp add: split_op_def op_part_def js_def find_operator_name)
qed

lemma last_append_plain: "last p \<noteq> x \<Longrightarrow> q \<noteq> [] \<longrightarrow> last q \<noteq> x \<Longrightarrow> last (p @ q) \<noteq> x"
  by (cases q) auto

lemma split_star_plain: "l \<noteq> [] \<Longrightarrow> last l \<noteq> cu CHR ''*'' \<Longrightarrow> split_star l = (False, l)"
  by (cases l rule: rev_cases) (auto simp: split_star_def ends_with_def js_def)

lemma split_star_child: "split_star (l @ js ''*'') = (True, l)"
  by (simp add: split_star_def js_def)

lemma trim_chunk:
  assumes "l \<noteq> []" "\<not> is_space (hd l)" "list_all (\<lambda>c. \<not> is_space c) v"
  shows "trim (l @ cu CHR '':'' # v) = l @ cu CHR '':'' # v"
proof (rule trim_id)
  have "\<not> is_space (last (cu CHR '':'' # v))"
    using assms(3) by (cases v rule: rev_cases) (auto simp: is_space_def)
  then show "l @ cu CHR '':'' # v = [] \<or> \<not> is_space (hd (l @ cu CHR '':'' # v)) \<and> \<not> is_space (last (l @ cu CHR '':'' # v))"
    using assms(1,2) by simp
qed

lemma parse_chunk_split:
  assumes "cu CHR '':'' \<notin> set l" "l \<noteq> []" "\<not> is_space (hd l)" "list_all (\<lambda>c. \<not> is_space c) v"
    "split_star l = (d, l')" "split_op l' = Some (oper, l'')"
  shows "parse_chunk uid (l @ cu CHR '':'' # v) = parse_lhs uid oper l'' (decodeValue v) d"
proof -
  have "index_of (cu CHR '':'') (l @ cu CHR '':'' # v) = Some (length l)"
    using assms(1) by (rule index_of_Some_append)
  then show ?thesis
    unfolding parse_chunk_def trim_chunk [OF assms(2,3,4)] Let_def by (simp add: assms(5,6))
qed

text \<open>The text of a row's value in its chunk.\<close>

definition value_text :: "filter_row \<Rightarrow> jstring option" where
  "value_text f = (if f_op f \<in> set VALUELESS then Some [] else encodeURIComponent (f_value f))"

lemma value_text_plain:
  assumes "value_text f = Some v" "list_all (\<lambda>u. u < 0x10000) (f_value f)"
  shows "list_all (\<lambda>c. \<not> is_space c) v" "cu CHR '','' \<notin> set v"
    "decodeValue v = (if f_op f \<in> set VALUELESS then [] else f_value f)"
proof -
  have *: "\<forall>u \<in> set (f_value f). u < 0x10000" using assms(2) by (simp add: list_all_iff)
  show "list_all (\<lambda>c. \<not> is_space c) v" "cu CHR '','' \<notin> set v"
    using assms(1) encode_units [OF _ *] escaped_unit_plain
    by (fastforce simp: value_text_def list_all_iff split: if_splits)+
  show "decodeValue v = (if f_op f \<in> set VALUELESS then [] else f_value f)"
    using assms(1) decode_encode [OF _ *] by (auto simp: value_text_def decodeValue_def split: if_splits)
qed

lemma parse_chunk_text:
  assumes "chunked f" "clean_row f" "value_text f = Some v"
  shows "parse_chunk uid (chunk_text f v) = Some (carried uid f)" "cu CHR '','' \<notin> set (chunk_text f v)"
proof -
  have vs: "list_all (\<lambda>u. u < 0x10000) (f_value f)" using assms(2) by (simp add: clean_row_def)
  note v = value_text_plain [OF assms(3) vs]
  have val: "f_value f \<noteq> [] \<or> f_op f \<in> set VALUELESS" using assms(1) by (auto simp: chunked_def)
  show "parse_chunk uid (chunk_text f v) = Some (carried uid f)"
  proof (cases "f_field f = FPayload")
    case True
    then obtain p where p: "f_path f = Some p" "clean_path p"
      using assms(1,2) by (auto simp: chunked_def clean_row_def truthy_str_def split: option.splits)
    let ?l = "p @ op_part (f_op f)" and ?d = "truthy_bool (f_descendants f)"
    let ?s = "?l @ (if ?d then js ''*'' else [])"
    have l: "split_star ?s = (?d, ?l)" "cu CHR '':'' \<notin> set ?s" "?s \<noteq> []" "\<not> is_space (hd ?s)"
      using p(2) op_part_plain [of "f_op f"] split_star_child [of ?l] split_star_plain [of ?l]
        last_append_plain [of p "cu CHR ''*''" "op_part (f_op f)"]
      by (auto simp: clean_path_def js_def hd_append)
    have o: "split_op ?l = Some (f_op f, p)" using p(2) by (intro split_op_part) (simp add: clean_path_def js_def)
    have e: "chunk_text f v = ?s @ cu CHR '':'' # v" by (simp add: chunk_text_def True p(1) op_part_def js_def)
    have "parse_lhs uid (f_op f) p (decodeValue v) ?d = Some (carried uid f)"
      using val p unfolding v(3) by (auto simp: parse_lhs_def clean_path_def carried_def True Let_def)
    then show ?thesis unfolding e parse_chunk_split [OF l(2,3,4) v(1) l(1) o] .
  next
    case False
    let ?p = "js ''@'' @ field_name (f_field f)"
    let ?l = "?p @ op_part (f_op f)"
    have l: "split_star ?l = (False, ?l)" "cu CHR '':'' \<notin> set ?l" "?l \<noteq> []" "\<not> is_space (hd ?l)"
      using field_name_plain [of "f_field f"] op_part_plain [of "f_op f"] split_star_plain [of ?l]
        last_append_plain [of "field_name (f_field f)" "cu CHR ''*''" "op_part (f_op f)"]
      by (auto simp: js_def is_space_def)
    have o: "split_op ?l = Some (f_op f, ?p)" using field_name_plain [of "f_field f"] by (intro split_op_part) (simp add: js_def)
    have e: "chunk_text f v = ?l @ cu CHR '':'' # v" by (simp add: chunk_text_def False op_part_def js_def)
    have "parse_lhs uid (f_op f) ?p (decodeValue v) False = Some (carried uid f)"
      using assms(1) False unfolding v(3)
      by (auto simp: parse_lhs_def carried_def chunked_def live_def js_def starts_with_def find_field_name)
    then show ?thesis unfolding e parse_chunk_split [OF l(2,3,4) v(1) l(1) o] .
  qed
  show "cu CHR '','' \<notin> set (chunk_text f v)"
    using v(2) field_name_plain [of "f_field f"] op_part_plain [of "f_op f"] assms(1,2)
    by (auto simp: chunk_text_def op_part_def js_def clean_row_def clean_path_def split: if_splits)
qed


abbreviation chunk_of :: "filter_row \<Rightarrow> jstring" where
  "chunk_of f \<equiv> chunk_text f (the (value_text f))"

lemma write_row_cases:
  assumes "write_row f (ps, q) = Some (ps', q')"
  shows "ps' = (if status_row f then params_set ps (js ''s'') (f_value f) else ps)"
    "q' = q @ (if chunked f then [chunk_of f] else [])" "chunked f \<longrightarrow> value_text f = Some (the (value_text f))"
  using assms
  by (auto simp: write_row_def status_row_def chunked_def live_def value_text_def split: if_splits option.splits)

lemma write_rows_result:
  "write_rows fs (ps, q) = Some (ps', q') \<Longrightarrow>
     q' = q @ map chunk_of (filter chunked fs) \<and> (\<forall>f \<in> set (filter chunked fs). value_text f = Some (the (value_text f)))
     \<and> params_get ps' (js ''s'') = (case rev (filter status_row fs) of [] \<Rightarrow> params_get ps (js ''s'') | f # _ \<Rightarrow> Some (f_value f))
     \<and> params_get ps' (js ''q'') = params_get ps (js ''q'')"
proof (induction fs arbitrary: ps q)
  case (Cons f fs)
  obtain p1 q1 where st: "write_row f (ps, q) = Some (p1, q1)" "write_rows fs (p1, q1) = Some (ps', q')"
    using Cons.prems by (auto split: option.splits)
  from Cons.IH [OF st(2)] write_row_cases [OF st(1)] show ?case
    by (auto simp: get_set split: list.splits)
qed simp

lemma chunk_text_nonempty: "chunk_text f v \<noteq> []"
  by (simp add: chunk_text_def Let_def)

lemma join_nonempty: "xs \<noteq> [] \<Longrightarrow> hd xs \<noteq> [] \<Longrightarrow> join sep xs \<noteq> []"
  by (cases xs; cases "tl xs") (auto simp: join_Cons)

lemma hydrate_chunks:
  assumes "\<forall>f \<in> set rs. \<forall>uid. parse_chunk uid (g f) = Some (carried uid f)"
  shows "foldl (hydrate_step ids) out (map g rs) = out @ map2 (\<lambda>k f. carried (ids k) f) [length out..<length out + length rs] rs"
  using assms
proof (induction rs arbitrary: out)
  case (Cons f rs)
  have "[length out..<length out + length (f # rs)] = length out # [Suc (length out)..<Suc (length out) + length rs]"
    by (subst upt_conv_Cons) simp_all
  with Cons.prems Cons.IH [of "out @ [carried (ids (length out)) f]"] show ?case
    by (simp add: hydrate_step_def [of ids out] del: upt_Suc)
qed simp

text \<open>C11: The rows written to a link and read back (through any query-string parser that returns the
  parameters that were written) are the rows the link carries, in their order and with their
  field, operator, value and child-span switch: the muted, locked, time and unfinished rows are
  left out, the last status row comes first under the operator \<open>is\<close>. The attribute keys
  must be free of the grammar's own separators.\<close>

theorem filters_survive_the_link:
  assumes "writeFiltersToParams fs ps = Some ps'" "parse_params search = ps'" "list_all clean_row fs"
  shows "hydrateFiltersFromUrl parse_params ids search = link_rows ids fs"
proof -
  let ?p0 = "params_delete (params_delete (params_delete ps (js ''s'')) (js ''q'')) (js ''t'')"
  let ?rs = "filter chunked fs" and ?st = "carried_status fs"
  let ?cs = "map chunk_of ?rs"
  obtain p1 q1 where w: "write_rows fs (?p0, []) = Some (p1, q1)"
    "ps' = (if q1 = [] then p1 else params_set p1 (js ''q'') (join (js '','') q1))"
    using assms(1) by (auto simp: writeFiltersToParams_def split: option.splits)
  note r = write_rows_result [OF w(1)]
  have q1: "q1 = ?cs" using r by simp
  have ch: "\<forall>f \<in> set ?rs. (\<forall>uid. parse_chunk uid (chunk_of f) = Some (carried uid f)) \<and> cu CHR '','' \<notin> set (chunk_of f)"
    using parse_chunk_text r assms(3) by (auto simp: list_all_iff)
  have s: "params_get ps' (js ''s'') = (case rev (filter status_row fs) of [] \<Rightarrow> None | f # _ \<Rightarrow> Some (f_value f))"
    using r by (simp add: w(2) get_set get_delete split: list.splits)
  have out: "(if truthy_str (params_get ps' (js ''s'')) then [url_row (ids 0) FStatus None OIs (coalesce (params_get ps' (js ''s'')) []) None] else [])
      = map (\<lambda>v. url_row (ids 0) FStatus None OIs v None) ?st"
    by (simp add: s carried_status_def split: list.splits)
  have len: "length (map (\<lambda>v. url_row (ids 0) FStatus None OIs v None) ?st) = length ?st" by simp
  have fold: "foldl (hydrate_step ids) out ?cs = out @ map2 (\<lambda>k f. carried (ids k) f) [length out..<length out + length ?rs] ?rs" for out
    using ch by (intro hydrate_chunks) blast
  show ?thesis
  proof (cases "?cs = []")
    case True
    have "params_get ps' (js ''q'') = None" using r True q1 by (simp add: w(2) get_delete)
    then show ?thesis using True unfolding hydrateFiltersFromUrl_def assms(2) Let_def out by (simp add: link_rows_def)
  next
    case False
    have "params_get ps' (js ''q'') = Some (join (js '','') ?cs)" using False by (simp add: w(2) q1 get_set)
    moreover have "split_on (cu CHR '','') (join (js '','') ?cs) = ?cs"
      using split_on_join [OF False, of "cu CHR '',''"] ch by (simp add: js_def)
    moreover have "join (js '','') ?cs \<noteq> []" using False by (intro join_nonempty) (simp_all add: chunk_text_nonempty hd_map)
    ultimately show ?thesis unfolding hydrateFiltersFromUrl_def assms(2) Let_def out
      using fold [of "map (\<lambda>v. url_row (ids 0) FStatus None OIs v None) ?st"] by (simp add: link_rows_def Let_def)
  qed
qed


definition demo_rows :: "filter_row list" where
  "demo_rows =
     [url_row (js ''a'') FPayload (Some (js ''order.id'')) OIn (js ''A 1,B:2%'') (Some True),
      url_row (js ''b'') FStatus None OIn (js ''ok,error'') None,
      (url_row (js ''c'') FService None OIs (js ''erp'') None)\<lparr>f_locked := Some True\<rparr>,
      url_row (js ''d'') FErrorType None OContains [0x20AC, 0xD83D, 0xDE00] None,
      url_row (js ''e'') FPayload (Some (js ''sku'')) ONotExists [] None]"

lemma filters_survive_the_link_ex:
  "hydrateFiltersFromUrl (\<lambda>_. the (writeFiltersToParams demo_rows [])) show_nat (js ''?q'')
     = link_rows show_nat demo_rows \<and> length (link_rows show_nat demo_rows) = 4"
proof -
  have w: "writeFiltersToParams demo_rows [] = Some (the (writeFiltersToParams demo_rows []))" by code_simp
  have c: "list_all clean_row demo_rows" by code_simp
  have "length (link_rows show_nat demo_rows) = 4" by code_simp
  with filters_survive_the_link [OF w refl c] show ?thesis by blast
qed

text \<open>Saving a view and loading it again gives back every row but the time rows, in order and
  unchanged apart from the local ids, muted and locked rows included.\<close>

lemma saved_view_reloads:
  "map (\<lambda>f. f\<lparr>f_id := []\<rparr>) (rowsFromWire ids (filtersToWire fs))
     = map (\<lambda>f. f\<lparr>f_id := []\<rparr>) (filter (\<lambda>f. f_field f \<noteq> FTime) fs)"
proof -
  have "filter (\<lambda>w. w_field w \<noteq> FTime) (map (wire_row True) (filter (\<lambda>f. f_field f \<noteq> FTime) fs))
      = map (wire_row True) (filter (\<lambda>f. f_field f \<noteq> FTime) fs)"
    by (induction fs) (auto simp: wire_row_def)
  moreover have "map (\<lambda>f. f\<lparr>f_id := []\<rparr>) (map2 (\<lambda>k w. row_from_wire (ids k) w) ks (map (wire_row True) gs))
      = map (\<lambda>f. f\<lparr>f_id := []\<rparr>) gs" if "length ks = length gs" for ks gs
    using that by (induction ks gs rule: list_induct2) (auto simp: row_from_wire_def wire_row_def)
  ultimately show ?thesis by (simp add: rowsFromWire_def filtersToWire_def Let_def)
qed

text \<open>After an edit a row is muted exactly when its value is blank and it was muted before the
  edit or is muted by it: a row with a value always counts.\<close>

theorem edited_row_is_muted_iff:
  "truthy_bool (f_optional (applyFilterPatch f patch)) \<longleftrightarrow>
     trim (f_value (spread_patch f patch)) = [] \<and> (truthy_bool (f_optional f) \<or> truthy_bool (f_optional (spread_patch f patch)))"
  by (simp add: applyFilterPatch_def Let_def)

text \<open>The comment promises that emptying a value returns the row to the muted state; once the row
  has been filled it is no longer muted, so emptying it leaves a live row on an empty value.\<close>

definition muted_row :: filter_row where
  "muted_row = (url_row [] FService None OIs [] None)\<lparr>f_optional := Some True\<rparr>"

definition value_patch :: "jstring \<Rightarrow> filter_patch" where
  "value_patch v = \<lparr>p_field = None, p_path = None, p_op = None, p_value = Some v, p_optional = None, p_descendants = None\<rparr>"

lemma emptied_row_stays_live:
  "applyFilterPatch (applyFilterPatch muted_row (value_patch (js ''erp''))) (value_patch [])
     = muted_row\<lparr>f_optional := Some False\<rparr>"
  by code_simp

text \<open>The equality that decides whether a view has unsaved changes ignores the child-span switch.\<close>

lemma child_spans_are_not_a_change:
  "filtersEqual [url_row [] FPayload (Some (js ''k'')) OEquals (js ''v'') (Some True)]
                [url_row [] FPayload (Some (js ''k'')) OEquals (js ''v'') None]"
  by code_simp

end
