(* ===== verification/Dashboards.thy ===== *)
theory Dashboards
  imports Collections JsSort
begin

text \<open>
  The dashboard page: \<open>lib/dashboardItems.ts\<close> (what is saved), \<open>lib/dashboardPick.ts\<close> (tab
  order and landing pick), \<open>lib/healthOrder.ts\<close>, \<open>lib/needsAttention.ts\<close>,
  \<open>components/primitives/pipForStatus.ts\<close>, and the card composition, the edit handlers and the KPI
  summaries of \<open>pages/Health.tsx\<close>.  A status is the wire string, so unknown values stay possible.
  \<open>coll\<close> is \<open>localeCompare\<close>, \<open>now\<close> the timestamp of \<open>new Date().toISOString()\<close>.
\<close>

section \<open>The wire types\<close>

datatype widget_type = TrafficSparkline | ErrorCount | LatencyP95 | SystemHealth

datatype entity_kind = KIntegration | KSystem | KSystemEntity

record tag =
  tg_slug :: jstring

record integration_row =
  in_id :: jstring
  in_name :: jstring
  in_status :: "jstring option"
  in_unhealthy :: "nat option"
  in_traces :: "nat option"
  in_errors :: "nat option"
  in_delayed :: "nat option"
  in_series :: "nat list option"
  in_metadata :: "(jstring \<times> jstring) list option"
  in_tags :: "tag list option"

record system_row =
  sy_id :: jstring
  sy_name :: jstring
  sy_status :: "jstring option"

record dashboard_item =
  di_id :: jstring
  di_kind :: entity_kind
  di_integration :: jstring
  di_systemName :: "jstring option"
  di_systemId :: "jstring option"
  di_widget :: widget_type
  di_position :: int
  di_created :: jstring

datatype rule_kind = RMetadata | RTag

record include_rule =
  ir_kind :: rule_kind
  ir_key :: "jstring option"
  ir_value :: jstring

record dashboard =
  db_id :: jstring
  db_name :: jstring
  db_default :: bool
  db_auto :: bool
  db_widget :: widget_type
  db_position :: int
  db_canManage :: "bool option"
  db_environments :: "jstring list option"
  db_rule :: "include_rule option"
  db_items :: "dashboard_item list"
  db_created :: jstring

record item_request =
  rq_kind :: entity_kind
  rq_integration :: "jstring option"
  rq_systemName :: "jstring option"
  rq_systemId :: "jstring option"
  rq_widget :: widget_type
  rq_position :: int

record update_request =
  up_name :: jstring
  up_default :: bool
  up_auto :: bool
  up_widget :: widget_type
  up_position :: int
  up_items :: "item_request list"
  up_environments :: "jstring list"
  up_rule :: "include_rule option"

section \<open>Health order\<close>

definition healthRank :: "jstring option \<Rightarrow> int" where
  "healthRank status =
     (if status = Some (js ''unhealthy'') then 0
      else if status = Some (js ''errors'') then 1
      else if status = Some (js ''ok'') then 2
      else if status = Some (js ''quiet'') then 3 else 4)"

definition byHealthThenName ::
  "(jstring \<Rightarrow> jstring \<Rightarrow> int) \<Rightarrow> ('x \<Rightarrow> jstring option) \<Rightarrow> ('x \<Rightarrow> jstring) \<Rightarrow> 'x \<Rightarrow> 'x \<Rightarrow> int" where
  "byHealthThenName coll status name a b =
     (let d = healthRank (status a) - healthRank (status b) in if d \<noteq> 0 then d else coll (name a) (name b))"

datatype pip = PMuted | POk | PWarn | PErr

definition pipForStatus :: "jstring option \<Rightarrow> pip" where
  "pipForStatus status =
     (if \<not> truthy_str status then PMuted
      else if status = Some (js ''ok'') then POk
      else if status = Some (js ''quiet'') then PMuted
      else if status = Some (js ''errors'') \<or> status = Some (js ''unhealthy'') then PErr else PMuted)"

definition systemPip :: "jstring option \<Rightarrow> pip" where
  "systemPip status =
     (if status = Some (js ''unhealthy'') then PErr
      else if status = Some (js ''errors'') then PWarn
      else if status = Some (js ''quiet'') then PMuted
      else if status = Some (js ''ok'') then POk else PMuted)"

fun PIP_RANK :: "pip \<Rightarrow> nat" where
  "PIP_RANK PMuted = 0"
| "PIP_RANK POk = 1"
| "PIP_RANK PWarn = 2"
| "PIP_RANK PErr = 3"

fun dashboardPipTitle :: "pip \<Rightarrow> jstring" where
  "dashboardPipTitle PErr = js ''One or more integrations unhealthy or degraded''"
| "dashboardPipTitle PWarn = js ''One or more integrations degraded''"
| "dashboardPipTitle POk = js ''All integrations healthy''"
| "dashboardPipTitle PMuted = js ''No active integrations''"

section \<open>Which dashboard\<close>

definition dashboard_order :: "(jstring \<Rightarrow> jstring \<Rightarrow> int) \<Rightarrow> dashboard \<Rightarrow> dashboard \<Rightarrow> int" where
  "dashboard_order coll =
     cmp_then (cmp_desc (\<lambda>d. of_bool (db_default d))) (cmp_then (cmp_by db_position) (cmp_on db_created coll))"

definition orderDashboards :: "(jstring \<Rightarrow> jstring \<Rightarrow> int) \<Rightarrow> dashboard list \<Rightarrow> dashboard list" where
  "orderDashboards coll ds = js_sort (dashboard_order coll) ds"

definition pickActiveDashboard ::
  "(jstring \<Rightarrow> jstring \<Rightarrow> int) \<Rightarrow> dashboard list \<Rightarrow> jstring option \<Rightarrow> dashboard option" where
  "pickActiveDashboard coll ds rememberedId =
     (if ds = [] then None
      else let remembered = (if truthy_str rememberedId then find (\<lambda>d. Some (db_id d) = rememberedId) ds else None);
               ordered = orderDashboards coll ds
           in (case find db_default ordered of
                 Some d \<Rightarrow> Some d
               | None \<Rightarrow> (case remembered of Some d \<Rightarrow> Some d | None \<Rightarrow> Some (hd ordered))))"

section \<open>What a dashboard shows\<close>

definition matchesIncludeRule :: "integration_row \<Rightarrow> include_rule option \<Rightarrow> bool" where
  "matchesIncludeRule it rule \<longleftrightarrow>
     (case rule of
        None \<Rightarrow> True
      | Some r \<Rightarrow>
          if ir_kind r = RTag then list_ex (\<lambda>t. tg_slug t = ir_value r) (coalesce (in_tags it) [])
          else map_of (coalesce (in_metadata it) []) (coalesce (ir_key r) []) = Some (ir_value r))"

definition ruleIntegrations :: "dashboard \<Rightarrow> integration_row list \<Rightarrow> integration_row list" where
  "ruleIntegrations d ints =
     (if db_auto d \<and> db_rule d \<noteq> None then filter (\<lambda>i. matchesIncludeRule i (db_rule d)) ints else ints)"

record card =
  cd_integration :: integration_row
  cd_widget :: widget_type

definition order_cards :: "(jstring \<Rightarrow> jstring \<Rightarrow> int) \<Rightarrow> card list \<Rightarrow> card list" where
  "order_cards coll = js_sort (byHealthThenName coll (\<lambda>c. in_status (cd_integration c)) (\<lambda>c. in_name (cd_integration c)))"

definition composeCards ::
  "(jstring \<Rightarrow> jstring \<Rightarrow> int) \<Rightarrow> integration_row list \<Rightarrow> dashboard option \<Rightarrow> card list" where
  "composeCards coll ints dashboard =
     (let byId = map_of_entries in_id (\<lambda>x. x) ints in
      case dashboard of
        None \<Rightarrow> order_cards coll (map (\<lambda>i. \<lparr>cd_integration = i, cd_widget = TrafficSparkline\<rparr>) ints)
      | Some d \<Rightarrow>
          let itemByIntegration = map_of_entries di_integration (\<lambda>x. x) (db_items d) in
          if db_auto d
          then order_cards coll (map (\<lambda>i. \<lparr>cd_integration = i,
                 cd_widget = (case map_of itemByIntegration (in_id i) of None \<Rightarrow> db_widget d | Some x \<Rightarrow> di_widget x)\<rparr>)
               (ruleIntegrations d ints))
          else order_cards coll (List.map_filter (\<lambda>x. map_option
                 (\<lambda>it. \<lparr>cd_integration = it, cd_widget = di_widget x\<rparr>) (map_of byId (di_integration x))) (db_items d)))"

text \<open>The tab's pip: the worst among the dashboard's cards.\<close>

definition worst_pip :: "card list \<Rightarrow> pip" where
  "worst_pip cs = foldl (\<lambda>worst c. let k = pipForStatus (in_status (cd_integration c)) in
      if PIP_RANK k > PIP_RANK worst then k else worst) PMuted cs"

definition statusByDashboard ::
  "(jstring \<Rightarrow> jstring \<Rightarrow> int) \<Rightarrow> integration_row list \<Rightarrow> dashboard list \<Rightarrow> (jstring \<times> pip) list" where
  "statusByDashboard coll ints ds = map_of_entries db_id (\<lambda>d. worst_pip (composeCards coll ints (Some d))) ds"

section \<open>What is saved\<close>

definition synthesizeItem :: "jstring \<Rightarrow> jstring \<Rightarrow> widget_type \<Rightarrow> int \<Rightarrow> dashboard_item" where
  "synthesizeItem now i w pos =
     \<lparr>di_id = js ''draft-'' @ i, di_kind = KIntegration, di_integration = i, di_systemName = None,
      di_systemId = None, di_widget = w, di_position = pos, di_created = now\<rparr>"

definition synthesizeSystemEntityItem :: "jstring \<Rightarrow> jstring \<Rightarrow> int \<Rightarrow> dashboard_item" where
  "synthesizeSystemEntityItem now s pos =
     \<lparr>di_id = js ''draft-sysent-'' @ s, di_kind = KSystemEntity, di_integration = [], di_systemName = None,
      di_systemId = Some s, di_widget = SystemHealth, di_position = pos, di_created = now\<rparr>"

text \<open>One materialized card: the override's own members, or a draft's.\<close>

definition materialized_item ::
  "jstring \<Rightarrow> dashboard \<Rightarrow> (jstring \<times> dashboard_item) list \<Rightarrow> nat \<Rightarrow> jstring \<Rightarrow> dashboard_item" where
  "materialized_item now d overrideById idx i =
     (case map_of overrideById i of
        None \<Rightarrow> synthesizeItem now i (db_widget d) (int idx)
      | Some x \<Rightarrow> \<lparr>di_id = di_id x, di_kind = KIntegration, di_integration = i, di_systemName = None,
          di_systemId = None, di_widget = di_widget x, di_position = di_position x, di_created = di_created x\<rparr>)"

definition ordered_ids :: "dashboard \<Rightarrow> integration_row list \<Rightarrow> jstring list" where
  "ordered_ids d ints =
     (let overrides = map di_integration (js_sort (cmp_by di_position) (db_items d));
          rest = map in_id (js_sort (cmp_desc (\<lambda>i. int (coalesce (in_traces i) 0)))
                   (filter (\<lambda>i. in_id i \<notin> set overrides) ints))
      in filter (\<lambda>i. i \<in> set (map in_id ints)) (overrides @ rest))"

definition materializeItems :: "jstring \<Rightarrow> dashboard \<Rightarrow> integration_row list \<Rightarrow> dashboard_item list" where
  "materializeItems now d ints =
     (if \<not> db_auto d then db_items d
      else let overrideById = map_of_entries di_integration (\<lambda>x. x) (db_items d);
               ordered = ordered_ids d ints
           in map2 (materialized_item now d overrideById) [0..<length ordered] ordered
                @ filter (\<lambda>i. di_kind i \<noteq> KIntegration) (db_items d))"

definition toItemRequest :: "dashboard_item \<Rightarrow> item_request" where
  "toItemRequest i =
     (case di_kind i of
        KSystemEntity \<Rightarrow> \<lparr>rq_kind = KSystemEntity, rq_integration = None, rq_systemName = None,
          rq_systemId = di_systemId i, rq_widget = SystemHealth, rq_position = di_position i\<rparr>
      | KSystem \<Rightarrow> \<lparr>rq_kind = KSystem, rq_integration = None, rq_systemName = di_systemName i,
          rq_systemId = None, rq_widget = SystemHealth, rq_position = di_position i\<rparr>
      | KIntegration \<Rightarrow> \<lparr>rq_kind = KIntegration, rq_integration = Some (di_integration i), rq_systemName = None,
          rq_systemId = None, rq_widget = di_widget i, rq_position = di_position i\<rparr>)"


section \<open>The edit handlers\<close>

definition setCardWidget :: "jstring \<Rightarrow> dashboard \<Rightarrow> jstring \<Rightarrow> widget_type \<Rightarrow> dashboard" where
  "setCardWidget now d i w =
     (case find_index (\<lambda>x. di_integration x = i) (db_items d) of
        Some idx \<Rightarrow> d\<lparr>db_items := (db_items d)[idx := (db_items d ! idx)\<lparr>di_widget := w\<rparr>]\<rparr>
      | None \<Rightarrow> d\<lparr>db_items := db_items d @ [synthesizeItem now i w (int (length (db_items d)))]\<rparr>)"

definition addCard :: "jstring \<Rightarrow> dashboard \<Rightarrow> jstring \<Rightarrow> dashboard" where
  "addCard now d i =
     (if list_ex (\<lambda>x. di_integration x = i) (db_items d) then d
      else d\<lparr>db_items := db_items d @ [synthesizeItem now i (db_widget d) (int (length (db_items d)))]\<rparr>)"

definition removeCard :: "jstring \<Rightarrow> integration_row list \<Rightarrow> dashboard \<Rightarrow> jstring \<Rightarrow> dashboard" where
  "removeCard now ints d i =
     d\<lparr>db_auto := False, db_items := filter (\<lambda>x. di_integration x \<noteq> i) (materializeItems now d ints)\<rparr>"

definition addSystemEntity :: "jstring \<Rightarrow> dashboard \<Rightarrow> jstring \<Rightarrow> dashboard" where
  "addSystemEntity now d s =
     (if list_ex (\<lambda>x. di_kind x = KSystemEntity \<and> di_systemId x = Some s) (db_items d) then d
      else d\<lparr>db_items := db_items d @ [synthesizeSystemEntityItem now s (int (length (db_items d)))]\<rparr>)"

definition removeSystemEntity :: "dashboard \<Rightarrow> jstring \<Rightarrow> dashboard" where
  "removeSystemEntity d s = d\<lparr>db_items := filter (\<lambda>x. \<not> (di_kind x = KSystemEntity \<and> di_systemId x = Some s)) (db_items d)\<rparr>"

definition removeSystem :: "dashboard \<Rightarrow> jstring \<Rightarrow> dashboard" where
  "removeSystem d nm = d\<lparr>db_items := filter (\<lambda>x. \<not> (di_kind x = KSystem \<and> di_systemName x = Some nm)) (db_items d)\<rparr>"

text \<open>The full replacements sent to the server: by the card's remove button, and by saving a draft.\<close>

definition quickRemove ::
  "jstring \<Rightarrow> integration_row list \<Rightarrow> dashboard list \<Rightarrow> jstring option \<Rightarrow> bool \<Rightarrow> jstring \<Rightarrow> (jstring \<times> update_request) option" where
  "quickRemove now ints dashboards activeId confirmed i =
     (case find (\<lambda>d. Some (db_id d) = activeId) dashboards of
        None \<Rightarrow> None
      | Some target \<Rightarrow>
          if \<not> confirmed then None
          else Some (db_id target,
            \<lparr>up_name = db_name target, up_default = db_default target, up_auto = False, up_widget = db_widget target,
             up_position = db_position target,
             up_items = map toItemRequest (filter (\<lambda>x. di_integration x \<noteq> i)
               (materializeItems now target (ruleIntegrations target ints))),
             up_environments = coalesce (db_environments target) [], up_rule = None\<rparr>))"

definition saveDraft :: "dashboard \<Rightarrow> jstring \<times> update_request" where
  "saveDraft d =
     (db_id d,
      \<lparr>up_name = db_name d, up_default = db_default d, up_auto = db_auto d, up_widget = db_widget d,
       up_position = db_position d, up_items = map toItemRequest (db_items d),
       up_environments = coalesce (db_environments d) [], up_rule = (if db_auto d then db_rule d else None)\<rparr>)"

datatype delete_outcome = DeleteRefused | DeleteCancelled | DeleteDone "dashboard list"

definition deleteActive :: "dashboard \<Rightarrow> dashboard list \<Rightarrow> bool \<Rightarrow> delete_outcome" where
  "deleteActive active dashboards confirmed =
     (if length dashboards \<le> 1 then DeleteRefused
      else if \<not> confirmed then DeleteCancelled
      else DeleteDone (filter (\<lambda>d. db_id d \<noteq> db_id active) dashboards))"

section \<open>The system strips\<close>

record system_card =
  sc_name :: jstring
  sc_status :: "jstring option"

text \<open>\<open>systems\<close> lists the services' names and statuses; a pinned name that is not listed has no summary.\<close>

definition systemCards ::
  "(jstring \<Rightarrow> jstring \<Rightarrow> int) \<Rightarrow> dashboard option \<Rightarrow> (jstring \<times> jstring) list \<Rightarrow> system_card list" where
  "systemCards coll source systems =
     js_sort (byHealthThenName coll sc_status sc_name)
       (map (\<lambda>i. \<lparr>sc_name = coalesce (di_systemName i) [],
           sc_status = map_of (map_of_entries fst snd systems) (coalesce (di_systemName i) [])\<rparr>)
          (filter (\<lambda>i. di_kind i = KSystem) (case source of None \<Rightarrow> [] | Some d \<Rightarrow> db_items d)))"

record entity_card =
  ec_id :: jstring
  ec_system :: "system_row option"

definition systemEntityCards ::
  "(jstring \<Rightarrow> jstring \<Rightarrow> int) \<Rightarrow> dashboard option \<Rightarrow> system_row list \<Rightarrow> entity_card list" where
  "systemEntityCards coll source systems =
     (let byId = map_of_entries sy_id (\<lambda>x. x) systems;
          canEdit = (case source of None \<Rightarrow> True | Some d \<Rightarrow> coalesce (db_canManage d) True);
          pinned = map (\<lambda>i. \<lparr>ec_id = coalesce (di_systemId i) [], ec_system = map_of byId (coalesce (di_systemId i) [])\<rparr>)
            (filter (\<lambda>i. di_kind i = KSystemEntity \<and> truthy_str (di_systemId i))
              (case source of None \<Rightarrow> [] | Some d \<Rightarrow> db_items d))
      in js_sort (byHealthThenName coll (\<lambda>c. Option.bind (ec_system c) sy_status)
             (\<lambda>c. case ec_system c of None \<Rightarrow> ec_id c | Some s \<Rightarrow> sy_name s))
           (filter (\<lambda>c. ec_system c \<noteq> None \<or> canEdit) pinned))"

section \<open>Needs attention\<close>

definition status_severity :: "jstring option \<Rightarrow> int" where
  "status_severity st = (if st = Some (js ''unhealthy'') then 2 else if st = Some (js ''errors'') then 1 else 0)"

definition severity :: "integration_row \<Rightarrow> int" where
  "severity i = status_severity (in_status i)"

definition systemSeverity :: "system_row \<Rightarrow> int" where
  "systemSeverity s = status_severity (sy_status s)"

definition attention_order :: "integration_row \<Rightarrow> integration_row \<Rightarrow> int" where
  "attention_order = cmp_then (cmp_desc severity)
     (cmp_then (cmp_desc (\<lambda>i. int (coalesce (in_unhealthy i) 0))) (cmp_desc (\<lambda>i. int (coalesce (in_errors i) 0))))"

definition pickNeedsAttention :: "integration_row list \<Rightarrow> integration_row option" where
  "pickNeedsAttention ints =
     (case js_sort attention_order ints of
        [] \<Rightarrow> None
      | worst # _ \<Rightarrow>
          if severity worst = 0 \<and> coalesce (in_errors worst) 0 = 0 \<and> coalesce (in_unhealthy worst) 0 = 0 then None else Some worst)"

datatype attention_kind = AIntegration | ASystem

record attention_target =
  at_kind :: attention_kind
  at_id :: jstring
  at_name :: jstring
  at_href :: jstring
  at_errors :: nat
  at_unhealthy :: nat

definition pickAttentionTarget :: "integration_row list \<Rightarrow> system_row list \<Rightarrow> attention_target option" where
  "pickAttentionTarget ints systems =
     (let worstIntegration = pickNeedsAttention ints;
          worstSystem = find (\<lambda>s. systemSeverity s > 0) (js_sort (cmp_desc systemSeverity) systems);
          intSev = (case worstIntegration of None \<Rightarrow> 0 | Some i \<Rightarrow> severity i);
          sysSev = (case worstSystem of None \<Rightarrow> 0 | Some s \<Rightarrow> systemSeverity s)
      in if worstIntegration \<noteq> None \<and> intSev \<ge> sysSev
         then map_option (\<lambda>i. \<lparr>at_kind = AIntegration, at_id = in_id i, at_name = in_name i,
                at_href = js ''/integrations/'' @ in_id i, at_errors = coalesce (in_errors i) 0,
                at_unhealthy = coalesce (in_unhealthy i) 0\<rparr>) worstIntegration
         else map_option (\<lambda>s. \<lparr>at_kind = ASystem, at_id = sy_id s, at_name = sy_name s,
                at_href = js ''/systems/'' @ sy_id s, at_errors = 0, at_unhealthy = 0\<rparr>) worstSystem)"

section \<open>The KPI summaries\<close>

record system_summary =
  ss_total :: nat
  ss_running :: int
  ss_ok :: nat
  ss_quiet :: nat
  ss_err :: nat

definition status_is :: "string \<Rightarrow> jstring option \<Rightarrow> bool" where
  "status_is s st \<longleftrightarrow> st = Some (js s)"

definition is_err :: "jstring option \<Rightarrow> bool" where
  "is_err st \<longleftrightarrow> status_is ''errors'' st \<or> status_is ''unhealthy'' st"

text \<open>One turn of the counting loop over a status: \<open>(ok, quiet, err)\<close>.\<close>

definition count_status :: "jstring option \<Rightarrow> nat \<times> nat \<times> nat \<Rightarrow> nat \<times> nat \<times> nat" where
  "count_status st = (\<lambda>(ok, quiet, err).
     if status_is ''ok'' st then (ok + 1, quiet, err)
     else if is_err st then (ok, quiet, err + 1)
     else if status_is ''quiet'' st then (ok, quiet + 1, err) else (ok, quiet, err))"

definition summariseSystems :: "system_row list \<Rightarrow> system_summary" where
  "summariseSystems ss =
     (let (ok, quiet, err) = foldl (\<lambda>acc s. count_status (sy_status s) acc) (0, 0, 0) ss
      in \<lparr>ss_total = length ss, ss_running = int (length ss) - int err, ss_ok = ok, ss_quiet = quiet, ss_err = err\<rparr>)"

record dash_summary =
  ds_total :: nat
  ds_running :: int
  ds_ok :: nat
  ds_quiet :: nat
  ds_err :: nat
  ds_messages :: nat
  ds_errors :: nat
  ds_delayed :: nat
  ds_delayedIntegrations :: nat
  ds_successRate :: rat
  ds_series :: "nat list"

text \<open>\<open>messagesSeries[i] = (messagesSeries[i] ?? 0) + series[i]\<close> for every index of the series.\<close>

fun add_series :: "nat list \<Rightarrow> nat list \<Rightarrow> nat list" where
  "add_series [] s = s"
| "add_series (a # as) [] = a # as"
| "add_series (a # as) (b # bs) = (a + b) # add_series as bs"

definition delayed_of :: "integration_row \<Rightarrow> nat" where
  "delayed_of i = coalesce (in_delayed i) 0"

definition summarise :: "integration_row list \<Rightarrow> dash_summary" where
  "summarise ints =
     (let (ok, quiet, err) = foldl (\<lambda>acc i. count_status (in_status i) acc) (0, 0, 0) ints;
          messages = foldl (\<lambda>n i. n + coalesce (in_traces i) 0) 0 ints;
          errors = foldl (\<lambda>n i. n + coalesce (in_errors i) 0) 0 ints;
          delayed = foldl (\<lambda>n i. n + delayed_of i) 0 ints;
          delayedIntegrations = foldl (\<lambda>n i. if delayed_of i > 0 then n + 1 else n) 0 ints;
          series = foldl (\<lambda>acc i. case in_series i of None \<Rightarrow> acc | Some s \<Rightarrow> add_series acc s) [] ints;
          failures = errors + delayed
      in \<lparr>ds_total = length ints, ds_running = int (length ints) - int err, ds_ok = ok, ds_quiet = quiet, ds_err = err,
          ds_messages = messages, ds_errors = errors, ds_delayed = delayed, ds_delayedIntegrations = delayedIntegrations,
          ds_successRate = (if messages > 0 then of_int (max 0 (int messages - int failures)) / of_nat messages else 1),
          ds_series = series\<rparr>)"

definition integrationProblemCount :: "(nat option \<times> nat option \<times> nat option \<times> nat option) option \<Rightarrow> nat" where
  "integrationProblemCount d =
     (case d of None \<Rightarrow> 0
      | Some (error_messages, delayed_messages, failing_checks, open_errors) \<Rightarrow>
          coalesce error_messages 0 + coalesce delayed_messages 0 + coalesce failing_checks 0 + coalesce open_errors 0)"


section \<open>Removing a card\<close>

definition dashboard_ok :: "integration_row list \<Rightarrow> dashboard \<Rightarrow> bool" where
  "dashboard_ok ints d \<longleftrightarrow> distinct (map in_id ints)
     \<and> distinct (filter (\<lambda>i. i \<in> set (map in_id ints)) (map di_integration (db_items d)))
     \<and> list_all (\<lambda>x. di_kind x = KIntegration \<or> di_integration x \<notin> set (map in_id ints)) (db_items d)"

definition card_of :: "dashboard \<Rightarrow> integration_row \<Rightarrow> card" where
  "card_of d it = \<lparr>cd_integration = it, cd_widget =
     (case map_of (map_of_entries di_integration (\<lambda>x. x) (db_items d)) (in_id it) of None \<Rightarrow> db_widget d | Some x \<Rightarrow> di_widget x)\<rparr>"

lemma mset_order_cards [simp]: "mset (order_cards coll cs) = mset cs"
  by (simp add: order_cards_def)

lemma distinct_filter_sorted:
  "distinct (filter P (map f xs)) \<Longrightarrow> distinct (filter P (map f (js_sort c xs)))"
proof -
  have "mset (filter P (map f (js_sort c xs))) = mset (filter P (map f xs))"
    by (simp only: mset_filter mset_map mset_js_sort)
  then show "distinct (filter P (map f xs)) \<Longrightarrow> ?thesis" by (metis mset_eq_imp_distinct_iff)
qed

lemma ordered_ids_perm:
  assumes "distinct (map in_id ints)" "distinct (filter (\<lambda>i. i \<in> set (map in_id ints)) (map di_integration (db_items d)))"
  shows "mset (ordered_ids d ints) = mset (map in_id ints)"
proof -
  let ?ov = "map di_integration (js_sort (cmp_by di_position) (db_items d))"
  let ?rest = "map in_id (js_sort (cmp_desc (\<lambda>i. int (coalesce (in_traces i) 0))) (filter (\<lambda>i. in_id i \<notin> set ?ov) ints))"
  have "distinct (filter (\<lambda>i. i \<in> set (map in_id ints)) ?ov)" using assms(2) by (rule distinct_filter_sorted)
  moreover have "mset ?rest = mset (map in_id (filter (\<lambda>i. in_id i \<notin> set ?ov) ints))"
    by (simp only: mset_map mset_js_sort)
  then have "distinct ?rest" using assms(1) by (metis distinct_map_filter mset_eq_imp_distinct_iff)
  ultimately have "distinct (ordered_ids d ints)" by (auto simp: ordered_ids_def)
  moreover have "set (ordered_ids d ints) = set (map in_id ints)" by (auto simp: ordered_ids_def)
  ultimately show ?thesis using assms(1) by (metis set_eq_iff_mset_eq_distinct)
qed

lemma map_of_ids: "distinct (map in_id ints) \<Longrightarrow> it \<in> set ints \<Longrightarrow> map_of (map_of_entries in_id (\<lambda>x. x) ints) (in_id it) = Some it"
  by (simp add: map_of_entries_distinct map_of_eq_Some_iff comp_def)

lemma the_map_of_ids:
  "distinct (map in_id ints) \<Longrightarrow> it \<in> set ints \<Longrightarrow> the (map_of (map_of_entries in_id (\<lambda>x. x) ints) (in_id it)) = it"
  by (metis map_of_ids option.sel)

lemma map_of_ids_None: "i \<notin> set (map in_id ints) \<Longrightarrow> map_of (map_of_entries in_id (\<lambda>x. x) ints) i = None"
  by (metis keys_map_of_entries map_of_eq_None_iff set_dedupe set_map)


abbreviation shown :: "integration_row list \<Rightarrow> dashboard_item \<Rightarrow> card option" where
  "shown ints x \<equiv> map_option (\<lambda>it. \<lparr>cd_integration = it, cd_widget = di_widget x\<rparr>)
     (map_of (map_of_entries in_id (\<lambda>x. x) ints) (di_integration x))"

lemma compose_auto:
  "db_auto d \<Longrightarrow> mset (composeCards coll ints (Some d)) = mset (map (card_of d) (ruleIntegrations d ints))"
  by (simp add: composeCards_def Let_def card_of_def [abs_def])

lemma compose_manual:
  "\<not> db_auto d \<Longrightarrow> mset (composeCards coll ints (Some d)) = mset (List.map_filter (shown ints) (db_items d))"
  by (simp add: composeCards_def Let_def)

lemma materialized_item_simps [simp]:
  "di_integration (materialized_item now d ov k j) = j"
  "di_kind (materialized_item now d ov k j) = KIntegration"
  "di_widget (materialized_item now d ov k j) = (case map_of ov j of None \<Rightarrow> db_widget d | Some x \<Rightarrow> di_widget x)"
  by (simp_all add: materialized_item_def synthesizeItem_def split: option.splits)

lemma card_of_integration [simp]: "cd_integration (card_of d it) = it"
  by (simp add: card_of_def)

lemma shown_integration:
  assumes "distinct (map in_id ints)" "shown ints x = Some c"
  shows "in_id (cd_integration c) = di_integration x"
proof -
  obtain it where it: "map_of (map (\<lambda>i. (in_id i, i)) ints) (di_integration x) = Some it" "cd_integration c = it"
    using assms by (auto simp: map_of_entries_distinct)
  from map_of_SomeD [OF it(1)] it(2) show ?thesis by auto
qed

lemma map_filter_Nil: "\<forall>x \<in> set xs. f x = None \<Longrightarrow> List.map_filter f xs = []"
  by (induction xs) (auto simp: List.map_filter_simps)

lemma map_filter_append: "List.map_filter f (xs @ ys) = List.map_filter f xs @ List.map_filter f ys"
  by (induction xs) (auto simp: List.map_filter_simps split: option.splits)

lemma shown_materialized:
  assumes "length ks = length ids" "distinct (map in_id ints)" "set ids \<subseteq> set (map in_id ints)"
  shows "List.map_filter (shown ints)
       (filter (\<lambda>x. di_integration x \<noteq> i) (map2 (materialized_item now d (map_of_entries di_integration (\<lambda>x. x) (db_items d))) ks ids))
     = map (\<lambda>j. card_of d (the (map_of (map_of_entries in_id (\<lambda>x. x) ints) j))) (filter (\<lambda>j. j \<noteq> i) ids)"
  using assms(1,3)
proof (induction ks ids rule: list_induct2)
  case (Cons k ks j ids)
  then obtain it where "it \<in> set ints" "j = in_id it" by auto
  with map_of_ids [OF assms(2)] have "map_of (map_of_entries in_id (\<lambda>x. x) ints) j = Some it" "j = in_id it" by auto
  with Cons show ?case by (simp add: List.map_filter_simps card_of_def)
qed (simp add: List.map_filter_simps)

lemma filter_materialized_manual:
  assumes "distinct (map in_id ints)"
  shows "List.map_filter (shown ints) (filter (\<lambda>x. di_integration x \<noteq> i) xs)
    = filter (\<lambda>c. in_id (cd_integration c) \<noteq> i) (List.map_filter (shown ints) xs)"
proof (induction xs)
  case (Cons x xs)
  then show ?case using shown_integration [OF assms, of x]
    by (cases "shown ints x") (auto simp: List.map_filter_simps)
qed (simp add: List.map_filter_simps)

lemma ruleIntegrations_filter: "\<exists>P. ruleIntegrations d ints = filter P ints"
proof (cases "db_auto d \<and> db_rule d \<noteq> None")
  case False
  then have "ruleIntegrations d ints = filter (\<lambda>_. True) ints" by (auto simp: ruleIntegrations_def)
  then show ?thesis by blast
qed (auto simp: ruleIntegrations_def)



definition demo_integration :: "string \<Rightarrow> string \<Rightarrow> string \<Rightarrow> nat \<Rightarrow> integration_row" where
  "demo_integration i st country n =
     \<lparr>in_id = js i, in_name = js i, in_status = Some (js st), in_unhealthy = None, in_traces = Some n,
      in_errors = Some 1, in_delayed = None, in_series = Some [n, 1], in_metadata = Some [(js ''country'', js country)],
      in_tags = None\<rparr>"

definition demo_ints :: "integration_row list" where
  "demo_ints = [demo_integration ''a'' ''ok'' ''se'' 5, demo_integration ''b'' ''errors'' ''no'' 9,
     demo_integration ''c'' ''unhealthy'' ''se'' 2]"

definition demo_dashboard :: dashboard where
  "demo_dashboard =
     \<lparr>db_id = js ''d'', db_name = js ''Sweden'', db_default = True, db_auto = True, db_widget = TrafficSparkline,
      db_position = 0, db_canManage = None, db_environments = None,
      db_rule = Some \<lparr>ir_kind = RMetadata, ir_key = Some (js ''country''), ir_value = js ''se''\<rparr>,
      db_items = [synthesizeItem (js ''t0'') (js ''c'') ErrorCount 3, synthesizeSystemEntityItem (js ''t0'') (js ''s'') 1],
      db_created = js ''t0''\<rparr>"


text \<open>
  The editor's remove handler materializes every integration of the organisation, not the ones the
  dashboard's rule picks: here \<open>b\<close>, which was never on the board, appears on it.
\<close>

lemma editor_remove_ignores_the_rule:
  "map (\<lambda>c. in_id (cd_integration c)) (composeCards unit_compare demo_ints (Some demo_dashboard)) = [js ''c'', js ''a'']
   \<and> map (\<lambda>c. in_id (cd_integration c))
       (composeCards unit_compare demo_ints (Some (removeCard (js ''t'') demo_ints demo_dashboard (js ''a'')))) = [js ''c'', js ''b'']"
  by code_simp

text \<open>Whatever is materialized and written, every item that is not an integration is written once,
  in order, under its own kind and with its own name or id: no kind of item is dropped or
  turned into another.\<close>

theorem other_items_are_never_dropped:
  "map (\<lambda>r. (rq_kind r, rq_systemName r, rq_systemId r))
       (filter (\<lambda>r. rq_kind r \<noteq> KIntegration) (map toItemRequest (materializeItems now d ints)))
   = map (\<lambda>i. (di_kind i, if di_kind i = KSystem then di_systemName i else None,
                if di_kind i = KSystemEntity then di_systemId i else None))
       (filter (\<lambda>i. di_kind i \<noteq> KIntegration) (db_items d))"
proof -
  let ?f = "\<lambda>r. (rq_kind r, rq_systemName r, rq_systemId r)"
  have kind: "rq_kind (toItemRequest i) = di_kind i" for i by (simp add: toItemRequest_def split: entity_kind.split)
  have *: "map ?f (filter (\<lambda>r. rq_kind r \<noteq> KIntegration) (map toItemRequest xs))
      = map (\<lambda>i. (di_kind i, if di_kind i = KSystem then di_systemName i else None,
                if di_kind i = KSystemEntity then di_systemId i else None)) (filter (\<lambda>i. di_kind i \<noteq> KIntegration) xs)" for xs
    by (induction xs) (auto simp: kind toItemRequest_def split: entity_kind.split)
  have "filter (\<lambda>i. di_kind i \<noteq> KIntegration) (materializeItems now d ints) = filter (\<lambda>i. di_kind i \<noteq> KIntegration) (db_items d)"
    by (auto simp: materializeItems_def Let_def filter_empty_conv set_zip)
  then show ?thesis by (simp only: *)
qed

section \<open>Landing\<close>

lemma js_comparator_dashboard: "js_comparator coll \<Longrightarrow> js_comparator (dashboard_order coll)"
  by (simp add: dashboard_order_def js_comparator_intros)

text \<open>Arriving at the page shows a default dashboard when there is one, else the remembered one,
  else the first tab; among the candidates of the first and last case it is the leftmost.\<close>

theorem landing_pick:
  assumes "js_comparator coll" "ds \<noteq> []"
  shows "\<exists>d \<in> set ds. pickActiveDashboard coll ds remembered = Some d \<and>
     (if list_ex db_default ds then db_default d \<and> list_all (\<lambda>e. db_default e \<longrightarrow> db_position d \<le> db_position e) ds
      else if truthy_str remembered \<and> list_ex (\<lambda>e. Some (db_id e) = remembered) ds then Some (db_id d) = remembered
      else list_all (\<lambda>e. db_position d \<le> db_position e) ds)"
proof -
  let ?o = "orderDashboards coll ds"
  have ne: "?o \<noteq> []" and st: "set ?o = set ds" using assms(2) by (simp_all add: orderDashboards_def)
  have least: "dashboard_order coll (hd ?o) e \<le> 0" if "e \<in> set ds" for e
    using js_comparator.hd_js_sort_least [OF js_comparator_dashboard [OF assms(1)] that] by (simp add: orderDashboards_def)
  have hd: "hd ?o \<in> set ds" using ne st hd_in_set by blast
  show ?thesis
  proof (cases "list_ex db_default ds")
    case True
    then obtain e where e: "e \<in> set ds" "db_default e" by (auto simp: list_ex_iff)
    have d: "db_default (hd ?o)" using least [OF e(1)] e(2)
      by (auto simp: dashboard_order_def cmp_then_def cmp_desc_def split: if_splits)
    have "find db_default ?o = Some (hd ?o)" using ne d by (cases ?o) auto
    moreover have "list_all (\<lambda>e. db_default e \<longrightarrow> db_position (hd ?o) \<le> db_position e) ds"
      using least d by (fastforce simp: list_all_iff dashboard_order_def cmp_then_def cmp_desc_def cmp_by_def split: if_splits)
    ultimately show ?thesis using assms(2) hd d True
      by (intro bexI [of _ "hd ?o"]) (simp_all add: pickActiveDashboard_def Let_def)
  next
    case False
    then have nd: "\<forall>e \<in> set ds. \<not> db_default e" by (simp add: list_ex_iff)
    then have nf: "find db_default ?o = None" using st by (simp add: find_None_iff)
    show ?thesis
    proof (cases "truthy_str remembered \<and> list_ex (\<lambda>e. Some (db_id e) = remembered) ds")
      case True
      then obtain d where d: "find (\<lambda>e. Some (db_id e) = remembered) ds = Some d"
        by (cases "find (\<lambda>e. Some (db_id e) = remembered) ds") (auto simp: list_ex_iff find_None_iff)
      from find_SomeD [OF d] show ?thesis using True False assms(2) d nf
        by (intro bexI [of _ d]) (simp_all add: pickActiveDashboard_def Let_def)
    next
      case f: False
      have "list_all (\<lambda>e. db_position (hd ?o) \<le> db_position e) ds"
        using least nd hd by (fastforce simp: list_all_iff dashboard_order_def cmp_then_def cmp_desc_def cmp_by_def split: if_splits)
      moreover have "(if truthy_str remembered then find (\<lambda>e. Some (db_id e) = remembered) ds else None) = None"
        using f by (auto simp: list_ex_iff find_None_iff)
      ultimately show ?thesis using f False assms(2) hd nf
        by (intro bexI [of _ "hd ?o"]) (auto simp: pickActiveDashboard_def Let_def)
    qed
  qed
qed


definition demo_boards :: "dashboard list" where
  "demo_boards = [demo_dashboard\<lparr>db_id := js ''x'', db_default := False, db_position := - 2\<rparr>, demo_dashboard,
     demo_dashboard\<lparr>db_id := js ''y'', db_position := - 1\<rparr>]"

lemma landing_pick_ex:
  "map_option db_id (pickActiveDashboard unit_compare demo_boards (Some (js ''x''))) = Some (js ''y'')
   \<and> list_ex (\<lambda>d. pickActiveDashboard unit_compare demo_boards (Some (js ''x'')) = Some d \<and> db_default d) demo_boards"
proof -
  have "demo_boards \<noteq> []" by (simp add: demo_boards_def)
  from landing_pick [OF units.js_comparator_axioms this, of "Some (js ''x'')"]
  have "list_ex (\<lambda>d. pickActiveDashboard unit_compare demo_boards (Some (js ''x'')) = Some d \<and> db_default d) demo_boards"
    by (auto simp: list_ex_iff demo_boards_def demo_dashboard_def)
  moreover have "map_option db_id (pickActiveDashboard unit_compare demo_boards (Some (js ''x''))) = Some (js ''y'')"
    by code_simp
  ultimately show ?thesis by simp
qed

section \<open>What needs attention\<close>

lemma js_comparator_attention: "js_comparator attention_order"
  by (simp add: attention_order_def js_comparator_intros)

definition all_quiet :: "integration_row \<Rightarrow> bool" where
  "all_quiet i \<longleftrightarrow> severity i = 0 \<and> coalesce (in_errors i) 0 = 0 \<and> coalesce (in_unhealthy i) 0 = 0"

lemma severity_nonneg: "0 \<le> severity i" "0 \<le> systemSeverity s"
  by (simp_all add: severity_def systemSeverity_def status_severity_def)

lemma pickNeedsAttention_least:
  assumes "ints \<noteq> []"
  obtains t where "t \<in> set ints" "\<forall>i \<in> set ints. attention_order t i \<le> 0"
    "pickNeedsAttention ints = (if all_quiet t then None else Some t)"
proof -
  let ?o = "js_sort attention_order ints"
  have "?o \<noteq> []" using assms by simp
  then obtain t ts where o: "?o = t # ts" by (cases ?o) auto
  then have "t \<in> set ?o" by (simp only: list.set_intros)
  then have "t \<in> set ints" by (simp only: set_js_sort)
  moreover have "\<forall>i \<in> set ints. attention_order t i \<le> 0"
    using js_comparator.hd_js_sort_least [OF js_comparator_attention, of _ ints] o by simp
  ultimately show ?thesis using that o by (simp add: pickNeedsAttention_def all_quiet_def)
qed

lemma pickNeedsAttention_None: "pickNeedsAttention ints = None \<longleftrightarrow> list_all all_quiet ints"
proof (cases "ints = []")
  case False
  then obtain t where t: "t \<in> set ints" "\<forall>i \<in> set ints. attention_order t i \<le> 0"
    "pickNeedsAttention ints = (if all_quiet t then None else Some t)" by (rule pickNeedsAttention_least)
  have "all_quiet i" if "all_quiet t" "i \<in> set ints" for i
    using that t(2) severity_nonneg(1) [of i]
    by (fastforce simp: attention_order_def cmp_then_def cmp_desc_def all_quiet_def split: if_splits)
  then show ?thesis using t(1,3) by (auto simp: list_all_iff)
qed (simp add: pickNeedsAttention_def)

lemma pickNeedsAttention_worst:
  "pickNeedsAttention ints = Some t \<Longrightarrow> t \<in> set ints \<and> list_all (\<lambda>i. severity i \<le> severity t) ints"
proof (cases "ints = []")
  case False
  assume p: "pickNeedsAttention ints = Some t"
  obtain t' where t: "t' \<in> set ints" "\<forall>i \<in> set ints. attention_order t' i \<le> 0"
    "pickNeedsAttention ints = (if all_quiet t' then None else Some t')" using False by (rule pickNeedsAttention_least)
  have "severity i \<le> severity t'" if "i \<in> set ints" for i
    using that t(2) by (fastforce simp: attention_order_def cmp_then_def cmp_desc_def split: if_splits)
  with p t(1,3) show ?thesis by (auto simp: list_all_iff split: if_splits)
qed (simp add: pickNeedsAttention_def)

abbreviation worst_system :: "system_row list \<Rightarrow> system_row option" where
  "worst_system ss \<equiv> find (\<lambda>s. systemSeverity s > 0) (js_sort (cmp_desc systemSeverity) ss)"

lemma worst_system_None: "worst_system ss = None \<longleftrightarrow> list_all (\<lambda>s. systemSeverity s = 0) ss"
  using severity_nonneg(2) by (auto simp: find_None_iff list_all_iff not_less intro: antisym)

lemma worst_system_Some:
  assumes "worst_system ss = Some s"
  shows "s \<in> set ss \<and> 0 < systemSeverity s \<and> list_all (\<lambda>x. systemSeverity x \<le> systemSeverity s) ss"
proof -
  have least: "systemSeverity x \<le> systemSeverity (hd (js_sort (cmp_desc systemSeverity) ss))" if "x \<in> set ss" for x
    using desc_key.hd_js_sort_least [OF that, of systemSeverity] by (simp add: cmp_desc_def)
  have f: "0 < systemSeverity s" "s \<in> set ss" using find_SomeD [OF assms] by simp_all
  with least [OF f(2)] have "0 < systemSeverity (hd (js_sort (cmp_desc systemSeverity) ss))" by linarith
  then have "s = hd (js_sort (cmp_desc systemSeverity) ss)"
    using assms f(2) by (cases "js_sort (cmp_desc systemSeverity) ss") auto
  with f least show ?thesis by (simp add: list_all_iff)
qed

text \<open>The KPI is empty exactly when no integration is in trouble or has counted an error and no
  system is in trouble; otherwise it names an integration or system of the page that no other
  integration or system is worse than.\<close>

theorem attention_shows_the_worst:
  "case pickAttentionTarget ints systems of
     None \<Rightarrow> list_all all_quiet ints \<and> list_all (\<lambda>s. systemSeverity s = 0) systems
   | Some t \<Rightarrow>
       \<not> (list_all all_quiet ints \<and> list_all (\<lambda>s. systemSeverity s = 0) systems) \<and>
       (case at_kind t of
          AIntegration \<Rightarrow> list_ex (\<lambda>w. at_id t = in_id w \<and> list_all (\<lambda>i. severity i \<le> severity w) ints
              \<and> list_all (\<lambda>s. systemSeverity s \<le> severity w) systems) ints
        | ASystem \<Rightarrow> list_ex (\<lambda>w. at_id t = sy_id w \<and> list_all (\<lambda>i. severity i \<le> systemSeverity w) ints
              \<and> list_all (\<lambda>s. systemSeverity s \<le> systemSeverity w) systems) systems)"
proof (cases "pickNeedsAttention ints")
  case None
  note q = None [unfolded pickNeedsAttention_None]
  then have z: "list_all (\<lambda>i. severity i = 0) ints" by (auto simp: list_all_iff all_quiet_def)
  show ?thesis
  proof (cases "worst_system systems")
    case (Some s)
    have n: "\<not> list_all (\<lambda>s. systemSeverity s = 0) systems" using Some worst_system_None [of systems] by auto
    from worst_system_Some [OF Some] z n show ?thesis
      unfolding pickAttentionTarget_def None Some by (auto simp: list_ex_iff list_all_iff)
  next
    case n: None
    with q n [unfolded worst_system_None] show ?thesis unfolding pickAttentionTarget_def None n by simp
  qed
next
  case (Some i)
  note w = pickNeedsAttention_worst [OF Some]
  have nq: "\<not> list_all all_quiet ints" using Some pickNeedsAttention_None [of ints] by auto
  show ?thesis
  proof (cases "worst_system systems")
    case s: (Some s)
    from worst_system_Some [OF s] w nq show ?thesis
      unfolding pickAttentionTarget_def Some s
      by (cases "systemSeverity s \<le> severity i") (fastforce simp: list_ex_iff list_all_iff Let_def)+
  next
    case n: None
    with worst_system_None [of systems] have "list_all (\<lambda>s. systemSeverity s = 0) systems" by simp
    with w nq severity_nonneg(1) [of i] show ?thesis
      unfolding pickAttentionTarget_def Some n by (auto simp: list_ex_iff list_all_iff)
  qed
qed


section \<open>The summaries add up\<close>

definition at0 :: "nat list \<Rightarrow> nat \<Rightarrow> nat" where
  "at0 xs k = (if k < length xs then xs ! k else 0)"

lemma at0_simps: "at0 [] k = 0" "at0 (x # xs) k = (case k of 0 \<Rightarrow> x | Suc j \<Rightarrow> at0 xs j)"
  by (simp_all add: at0_def split: nat.split)

lemma at0_add_series: "at0 (add_series a b) k = at0 a k + at0 b k"
  by (induction a b arbitrary: k rule: add_series.induct) (auto simp: at0_simps split: nat.split)

lemma count_status_foldl:
  "foldl (\<lambda>acc x. count_status (f x) acc) (a, b, c) xs =
     (a + length (filter (\<lambda>x. status_is ''ok'' (f x)) xs), b + length (filter (\<lambda>x. status_is ''quiet'' (f x)) xs),
      c + length (filter (\<lambda>x. is_err (f x)) xs))"
  by (induction xs arbitrary: a b c) (auto simp: count_status_def status_is_def is_err_def)

lemma foldl_sum: "foldl (\<lambda>n x. n + f x) a xs = a + sum_list (map f xs)" for a :: nat
  by (induction xs arbitrary: a) auto

lemma foldl_series:
  "at0 (foldl (\<lambda>acc i. case in_series i of None \<Rightarrow> acc | Some s \<Rightarrow> add_series acc s) acc ints) k
     = at0 acc k + sum_list (map (\<lambda>i. at0 (coalesce (in_series i) []) k) ints)"
  by (induction ints arbitrary: acc) (auto simp: at0_add_series at0_simps split: option.splits)

lemma status_counts_le:
  "length (filter (\<lambda>x. status_is ''ok'' (f x)) xs) + length (filter (\<lambda>x. status_is ''quiet'' (f x)) xs)
     + length (filter (\<lambda>x. is_err (f x)) xs) \<le> length xs"
  by (induction xs) (auto simp: status_is_def is_err_def)

text \<open>The KPI row adds up: running is everything that is not failing, the status counts never
  exceed the total, the success rate lies between 0 and 1, and every bucket of the summed traffic
  series is the sum of the integrations' buckets.\<close>

theorem summary_adds_up:
  "let s = summarise ints in
     ds_running s = int (ds_total s) - int (length (filter (\<lambda>i. is_err (in_status i)) ints)) \<and> 0 \<le> ds_running s
     \<and> ds_ok s + ds_quiet s + ds_err s \<le> ds_total s
     \<and> 0 \<le> ds_successRate s \<and> ds_successRate s \<le> 1
     \<and> ds_messages s = sum_list (map (\<lambda>i. coalesce (in_traces i) 0) ints)
     \<and> at0 (ds_series s) k = sum_list (map (\<lambda>i. at0 (coalesce (in_series i) []) k) ints)"
proof -
  have "0 \<le> ds_successRate (summarise ints) \<and> ds_successRate (summarise ints) \<le> 1"
    by (simp add: summarise_def count_status_foldl Let_def divide_le_eq max_def)
  moreover have "int (length (filter (\<lambda>i. is_err (in_status i)) ints)) \<le> int (length ints)" by simp
  ultimately show ?thesis
    using status_counts_le [of in_status ints] foldl_series [of "[]" ints k]
    by (simp add: summarise_def count_status_foldl Let_def foldl_sum at0_simps)
qed

end
