(* ===== verification/Session.thy ===== *)
theory Session
  imports Uri Collections
begin

text \<open>
  Requests and the session: \<open>request\<close> of \<open>api/client.ts\<close> (the environment stamped on reads, the
  headers, the error a failed response becomes), \<open>lib/activeEnvironment.ts\<close>,
  \<open>lib/activeOrg.ts\<close>, \<open>components/UserProvider.tsx\<close> (the authentication gate and the adapter of
  \<open>/me\<close>), \<open>lib/useCurrentUser.ts\<close>, \<open>lib/useAccess.ts\<close> and \<open>lib/settingsAccess.ts\<close>.

  \<open>JSON.parse\<close> is a parameter \<open>parse\<close>, \<open>str\<close> is \<open>String(v)\<close> on a parsed value that is not a
  string, and an exception is the left side of a sum.
\<close>

section \<open>Environments\<close>

definition NO_ENVIRONMENT_PARAM :: jstring where "NO_ENVIRONMENT_PARAM = js ''(none)''"

definition ALL_ENVIRONMENTS_PARAM :: jstring where "ALL_ENVIRONMENTS_PARAM = js ''*''"

definition PRODUCTION_TOKEN :: jstring where "PRODUCTION_TOKEN = js ''@production''"

definition setActiveEnvironments :: "jstring list option \<Rightarrow> jstring list option" where
  "setActiveEnvironments envs = (case envs of None \<Rightarrow> None | Some es \<Rightarrow> if es = [] then None else Some es)"

definition environmentLabel :: "jstring \<Rightarrow> jstring" where
  "environmentLabel env =
     (if env = PRODUCTION_TOKEN then js ''production environments''
      else if env = [] then js ''(no environment)'' else env)"

definition params_getAll :: "params \<Rightarrow> jstring \<Rightarrow> jstring list" where
  "params_getAll ps k = map snd (filter (\<lambda>p. fst p = k) ps)"

definition env_of_param :: "jstring \<Rightarrow> jstring" where
  "env_of_param p = (if p = NO_ENVIRONMENT_PARAM then [] else p)"

definition envsFromParams :: "params \<Rightarrow> jstring list option" where
  "envsFromParams ps =
     (let raw = params_getAll ps (js ''env'') in
      if raw = [] \<or> list_ex (\<lambda>p. p = [] \<or> p = ALL_ENVIRONMENTS_PARAM) raw then None
      else Some (map env_of_param raw))"

definition expandProduction :: "jstring list \<Rightarrow> jstring list \<Rightarrow> jstring list" where
  "expandProduction envs production =
     foldl (\<lambda>out e. foldl (\<lambda>out n. if n \<in> set out then out else out @ [n]) out
        (if e = PRODUCTION_TOKEN then production else [e])) [] envs"

definition envToParam :: "jstring \<Rightarrow> jstring" where
  "envToParam env = (if env = [] then NO_ENVIRONMENT_PARAM else env)"

definition envFromParam :: "jstring option \<Rightarrow> jstring option" where
  "envFromParam p =
     (case p of None \<Rightarrow> None
      | Some v \<Rightarrow> if v = [] \<or> v = ALL_ENVIRONMENTS_PARAM then None else Some (env_of_param v))"

text \<open>The two setters, on the parameters of the address bar.\<close>

definition set_env_param :: "params \<Rightarrow> jstring option \<Rightarrow> bool \<Rightarrow> params" where
  "set_env_param ps next explicitAll =
     (case next of
        Some env \<Rightarrow> params_set ps (js ''env'') (envToParam env)
      | None \<Rightarrow> if explicitAll then params_set ps (js ''env'') ALL_ENVIRONMENTS_PARAM
                else params_delete ps (js ''env''))"

definition set_env_list :: "params \<Rightarrow> jstring list option \<Rightarrow> bool \<Rightarrow> params" where
  "set_env_list ps next explicitAll =
     (let p = params_delete ps (js ''env'') in
      case next of
        Some (e # es) \<Rightarrow> p @ map (\<lambda>e. (js ''env'', envToParam e)) (e # es)
      | _ \<Rightarrow> if explicitAll then params_set p (js ''env'') ALL_ENVIRONMENTS_PARAM else p)"

text \<open>\<open>None\<close> below is the \<open>URIError\<close> of a lone surrogate.\<close>

fun encode_all :: "jstring list \<Rightarrow> jstring list option" where
  "encode_all [] = Some []"
| "encode_all (e # es) =
     (case encodeURIComponent (envToParam e) of
        None \<Rightarrow> None
      | Some v \<Rightarrow> map_option (\<lambda>vs. (js ''env='' @ v) # vs) (encode_all es))"

definition envQuery :: "jstring list \<Rightarrow> bool \<Rightarrow> jstring option" where
  "envQuery envs explicitAll =
     (if envs = [] then Some (if explicitAll then js ''?env='' @ ALL_ENVIRONMENTS_PARAM else [])
      else map_option (\<lambda>vs. js ''?'' @ join (js ''&'') vs) (encode_all envs))"

definition readsIntegrationData :: "jstring \<Rightarrow> jstring \<Rightarrow> bool" where
  "readsIntegrationData path meth \<longleftrightarrow>
     \<not> (meth \<noteq> js ''GET'' \<and> \<not> (meth = js ''POST'' \<and> starts_with path (js ''/messages/search'')))
     \<and> (starts_with path (js ''/integrations'') \<or> starts_with path (js ''/services/'')
        \<or> starts_with path (js ''/messages/search'') \<or> starts_with path (js ''/logs'')
        \<or> starts_with path (js ''/log-'') \<or> starts_with path (js ''/metric-'')
        \<or> starts_with path (js ''/errors'') \<or> str_includes path (js ''integration=''))"

section \<open>One request\<close>

definition names_env :: "jstring \<Rightarrow> bool" where
  "names_env path \<longleftrightarrow> str_includes path (js ''?env='') \<or> str_includes path (js ''&env='')"

definition request_path :: "jstring list option \<Rightarrow> jstring \<Rightarrow> jstring \<Rightarrow> jstring option" where
  "request_path active path meth =
     (case active of
        None \<Rightarrow> Some path
      | Some envs \<Rightarrow>
          if readsIntegrationData path meth \<and> \<not> names_env path
          then map_option (\<lambda>vs. path @ (if cu CHR ''?'' \<in> set path then js ''&'' else js ''?'') @ join (js ''&'') vs)
                 (encode_all envs)
          else Some path)"

definition request_headers :: "jstring option \<Rightarrow> bool \<Rightarrow> (jstring \<times> jstring) list" where
  "request_headers activeOrg has_body =
     [(js ''Accept'', js ''application/json'')]
       @ (if truthy_str activeOrg then [(js ''X-Sluicio-Org'', coalesce activeOrg [])] else [])
       @ (if has_body then [(js ''Content-Type'', js ''application/json'')] else [])"

datatype json = JNull | JBool bool | JNum rat | JStr jstring | JArr "json list" | JObj "(jstring \<times> json) list"

fun json_field :: "json \<Rightarrow> jstring \<Rightarrow> json option" where
  "json_field (JObj fs) k = map_of fs k"
| "json_field _ k = None"

fun json_truthy :: "json \<Rightarrow> bool" where
  "json_truthy JNull = False"
| "json_truthy (JBool b) = b"
| "json_truthy (JNum n) = (n \<noteq> 0)"
| "json_truthy (JStr s) = (s \<noteq> [])"
| "json_truthy _ = True"

record http_response =
  hr_status :: nat
  hr_statusText :: jstring
  hr_text :: jstring

record api_error =
  ae_message :: jstring
  ae_status :: "nat option"

definition hr_ok :: "http_response \<Rightarrow> bool" where
  "hr_ok r \<longleftrightarrow> 200 \<le> hr_status r \<and> hr_status r \<le> 299"

text \<open>\<open>body?.error?.message\<close> when it is truthy, else the status text.\<close>

definition error_detail :: "(jstring \<Rightarrow> json option) \<Rightarrow> (json \<Rightarrow> jstring) \<Rightarrow> http_response \<Rightarrow> jstring" where
  "error_detail parse str r =
     (case Option.bind (Option.bind (parse (hr_text r)) (\<lambda>b. json_field b (js ''error''))) (\<lambda>e. json_field e (js ''message'')) of
        None \<Rightarrow> hr_statusText r
      | Some (JStr s) \<Rightarrow> if s = [] then hr_statusText r else s
      | Some v \<Rightarrow> if json_truthy v then str v else hr_statusText r)"

text \<open>What \<open>request\<close> returns for a response: \<open>Inr None\<close> is the \<open>undefined\<close> of a 204.\<close>

definition response_result ::
  "(jstring \<Rightarrow> json option) \<Rightarrow> (json \<Rightarrow> jstring) \<Rightarrow> http_response \<Rightarrow> api_error + json option" where
  "response_result parse str r =
     (if \<not> hr_ok r
      then Inl \<lparr>ae_message = show_nat (hr_status r) @ js '' '' @ error_detail parse str r, ae_status = Some (hr_status r)\<rparr>
      else if hr_status r = 204 then Inr None
      else if hr_text r = []
      then Inl \<lparr>ae_message = show_nat (hr_status r) @ js '' empty response body'', ae_status = None\<rparr>
      else (case parse (hr_text r) of
          None \<Rightarrow> Inl \<lparr>ae_message = show_nat (hr_status r) @ js '' invalid JSON in response body'', ae_status = None\<rparr>
        | Some v \<Rightarrow> Inr (Some v)))"

text \<open>\<open>fetch\<close> rejects with a message of its own when there is no response.\<close>

definition request_result ::
  "(jstring \<Rightarrow> json option) \<Rightarrow> (json \<Rightarrow> jstring) \<Rightarrow> jstring + http_response \<Rightarrow> api_error + json option" where
  "request_result parse str res =
     (case res of Inl m \<Rightarrow> Inl \<lparr>ae_message = m, ae_status = None\<rparr> | Inr r \<Rightarrow> response_result parse str r)"

section \<open>Users and roles\<close>

datatype auth_role = RoleAdmin | RoleEditor | RoleViewer

datatype role_slug = OrgAdmin | IntegrationContributor | Operator | Viewer

datatype permission = IntegrationRead | IntegrationWrite | IntegrationDelete | StuckReplay | AlertMute | OrgManage

record organization =
  og_id :: jstring
  og_slug :: jstring
  og_name :: jstring

record role =
  ro_slug :: role_slug
  ro_name :: jstring

record org_membership =
  om_organization :: organization
  om_roles :: "role list"

record user =
  us_id :: jstring
  us_email :: jstring
  us_name :: jstring
  us_initials :: jstring
  us_operator :: bool
  us_demo :: bool
  us_reset :: bool
  us_memberships :: "org_membership list"

record current_user_response =
  cr_user :: user
  cr_active_org :: jstring
  cr_managed :: bool
  cr_email_disabled :: bool
  cr_org_disabled :: bool

record auth_membership =
  am_org :: organization
  am_role :: auth_role

record me_response =
  me_id :: jstring
  me_email :: jstring
  me_name :: jstring
  me_operator :: "bool option"
  me_demo :: "bool option"
  me_reset :: "bool option"
  me_memberships :: "auth_membership list"
  me_principal_org :: jstring
  me_managed :: "bool option"
  me_email_disabled :: "bool option"
  me_org_disabled :: "bool option"

fun ROLE_PERMISSIONS :: "role_slug \<Rightarrow> permission list" where
  "ROLE_PERMISSIONS OrgAdmin = [IntegrationRead, IntegrationWrite, IntegrationDelete, StuckReplay, AlertMute, OrgManage]"
| "ROLE_PERMISSIONS IntegrationContributor = [IntegrationRead, IntegrationWrite, IntegrationDelete, StuckReplay, AlertMute]"
| "ROLE_PERMISSIONS Operator = [IntegrationRead, StuckReplay, AlertMute]"
| "ROLE_PERMISSIONS Viewer = [IntegrationRead]"

fun ROLE_DISPLAY :: "role_slug \<Rightarrow> jstring" where
  "ROLE_DISPLAY OrgAdmin = js ''Org admin''"
| "ROLE_DISPLAY IntegrationContributor = js ''Integration contributor''"
| "ROLE_DISPLAY Operator = js ''Operator''"
| "ROLE_DISPLAY Viewer = js ''Viewer''"

fun mapRoleSlug :: "auth_role \<Rightarrow> role_slug" where
  "mapRoleSlug RoleAdmin = OrgAdmin"
| "mapRoleSlug RoleEditor = IntegrationContributor"
| "mapRoleSlug RoleViewer = Viewer"

fun displayForSlug :: "role_slug \<Rightarrow> jstring" where
  "displayForSlug OrgAdmin = js ''Admin''"
| "displayForSlug IntegrationContributor = js ''Editor''"
| "displayForSlug Operator = js ''Operator''"
| "displayForSlug Viewer = js ''Viewer''"

definition adaptMembership :: "auth_membership \<Rightarrow> org_membership" where
  "adaptMembership m =
     (let slug = mapRoleSlug (am_role m) in
      \<lparr>om_organization = am_org m, om_roles = [\<lparr>ro_slug = slug, ro_name = displayForSlug slug\<rparr>]\<rparr>)"

text \<open>\<open>trimmed.split(/[\s.@_-]+/).filter(Boolean)\<close>.\<close>

fun split_where :: "(nat \<Rightarrow> bool) \<Rightarrow> jstring \<Rightarrow> jstring list" where
  "split_where p [] = [[]]"
| "split_where p (x # xs) =
     (if p x then [] # split_where p xs
      else (case split_where p xs of [] \<Rightarrow> [[x]] | y # ys \<Rightarrow> (x # y) # ys))"

definition name_separator :: "nat \<Rightarrow> bool" where
  "name_separator c \<longleftrightarrow> is_space c \<or> c \<in> set (js ''.@_-'')"

definition name_parts :: "jstring \<Rightarrow> jstring list" where
  "name_parts s = filter (\<lambda>p. p \<noteq> []) (split_where name_separator s)"

text \<open>\<open>None\<close> is the \<open>TypeError\<close> of \<open>parts[0].slice\<close> when only separators are left.\<close>

definition initialsFor :: "(jstring \<Rightarrow> jstring) \<Rightarrow> jstring \<Rightarrow> jstring option" where
  "initialsFor uni s =
     (let trimmed = trim s in
      if trimmed = [] then Some (js ''?'')
      else (case name_parts trimmed of
          [] \<Rightarrow> None
        | [p] \<Rightarrow> Some (to_upper uni (take 2 p))
        | p # q # _ \<Rightarrow> Some (to_upper uni (take 1 p @ take 1 q))))"

definition fromMe :: "(jstring \<Rightarrow> jstring) \<Rightarrow> me_response \<Rightarrow> current_user_response option" where
  "fromMe uni me =
     (let memberships = map adaptMembership (me_memberships me) in
      map_option (\<lambda>initials.
        \<lparr>cr_user = \<lparr>us_id = me_id me, us_email = me_email me, us_name = me_name me, us_initials = initials,
            us_operator = coalesce (me_operator me) False, us_demo = coalesce (me_demo me) False,
            us_reset = coalesce (me_reset me) False, us_memberships = memberships\<rparr>,
         cr_active_org = (if me_principal_org me \<noteq> [] then me_principal_org me
            else (case memberships of [] \<Rightarrow> [] | m # _ \<Rightarrow> og_id (om_organization m))),
         cr_managed = truthy_bool (me_managed me), cr_email_disabled = truthy_bool (me_email_disabled me),
         cr_org_disabled = truthy_bool (me_org_disabled me)\<rparr>)
        (initialsFor uni (if me_name me \<noteq> [] then me_name me else me_email me)))"

section \<open>The gate\<close>

datatype gate_state = Loading | Ready current_user_response | LoggedOut | LoadError jstring

text \<open>
  One \<open>fetchMe\<close>.  \<open>first\<close> and \<open>second\<close> are what the two calls of \<open>api.me()\<close> gave (the second is
  made only after dropping the pinned organisation), \<open>type_error\<close> the message of the exception
  \<open>fromMe\<close> can throw.  Returned: the new state and the pinned organisation left behind.
\<close>

definition me_outcome :: "(jstring \<Rightarrow> jstring) \<Rightarrow> jstring \<Rightarrow> api_error + me_response \<Rightarrow> jstring + current_user_response" where
  "me_outcome uni type_error r =
     (case r of
        Inl e \<Rightarrow> Inl (ae_message e)
      | Inr me \<Rightarrow> (case fromMe uni me of None \<Rightarrow> Inl type_error | Some d \<Rightarrow> Inr d))"

definition fetchMe ::
  "(jstring \<Rightarrow> jstring) \<Rightarrow> jstring \<Rightarrow> api_error + me_response \<Rightarrow> api_error + me_response \<Rightarrow> jstring option
     \<Rightarrow> gate_state \<times> jstring option" where
  "fetchMe uni type_error first second pinned =
     (case me_outcome uni type_error first of
        Inr d \<Rightarrow> (Ready d, pinned)
      | Inl msg \<Rightarrow>
          if starts_with msg (js ''401'')
          then if pinned \<noteq> None
            then (case me_outcome uni type_error second of
                Inr d \<Rightarrow> (Ready d, None)
              | Inl _ \<Rightarrow> (LoggedOut, None))
            else (LoggedOut, pinned)
          else (LoadError msg, pinned))"

definition signOut :: "gate_state \<times> jstring option \<Rightarrow> gate_state \<times> jstring option" where
  "signOut st = (LoggedOut, None)"

section \<open>What the user may do\<close>

record current_user =
  cx_user :: user
  cx_organization :: organization
  cx_roles :: "role list"
  cx_memberships :: "org_membership list"
  cx_operator :: bool
  cx_managed :: bool

definition withSyntheticEmpty :: "user \<Rightarrow> org_membership list" where
  "withSyntheticEmpty u =
     (if us_memberships u \<noteq> [] then us_memberships u
      else [\<lparr>om_organization = \<lparr>og_id = js ''org_none'', og_slug = js ''none'', og_name = js ''No organization''\<rparr>,
             om_roles = [\<lparr>ro_slug = Viewer, ro_name = ROLE_DISPLAY Viewer\<rparr>]\<rparr>])"

definition useCurrentUser :: "current_user_response \<Rightarrow> current_user" where
  "useCurrentUser data =
     (let memberships = withSyntheticEmpty (cr_user data);
          active = (case find (\<lambda>m. og_id (om_organization m) = cr_active_org data) memberships of
              Some m \<Rightarrow> m | None \<Rightarrow> hd memberships)
      in \<lparr>cx_user = cr_user data, cx_organization = om_organization active, cx_roles = om_roles active,
          cx_memberships = memberships, cx_operator = us_operator (cr_user data) \<and> \<not> cr_managed data,
          cx_managed = cr_managed data\<rparr>)"

definition user_can :: "current_user \<Rightarrow> permission \<Rightarrow> bool" where
  "user_can u perm \<longleftrightarrow> list_ex (\<lambda>r. perm \<in> set (ROLE_PERMISSIONS (ro_slug r))) (cx_roles u)"

record me_access =
  ma_write_anywhere :: bool
  ma_manage_all :: bool
  ma_services :: "jstring list"
  ma_groups :: "(jstring \<times> jstring \<times> jstring) list"

record access =
  ac_loading :: bool
  ac_write_anywhere :: bool
  ac_manage_all :: bool
  ac_groups :: "(jstring \<times> jstring \<times> jstring) list"

definition useAccess :: "me_access option \<Rightarrow> access" where
  "useAccess state =
     \<lparr>ac_loading = (state = None),
      ac_write_anywhere = (case state of None \<Rightarrow> False | Some a \<Rightarrow> ma_write_anywhere a),
      ac_manage_all = (case state of None \<Rightarrow> False | Some a \<Rightarrow> ma_manage_all a),
      ac_groups = (case state of None \<Rightarrow> [] | Some a \<Rightarrow> ma_groups a)\<rparr>"

definition canManageService :: "me_access option \<Rightarrow> jstring \<Rightarrow> bool" where
  "canManageService state name \<longleftrightarrow>
     (case state of None \<Rightarrow> False | Some a \<Rightarrow> ma_manage_all a \<or> name \<in> set (ma_services a))"

record settings_viewer =
  sv_operator :: bool
  sv_managed :: bool
  sv_admin :: bool

definition INSTANCE_TABS :: "jstring list" where
  "INSTANCE_TABS = [js ''retention'', js ''system'', js ''license'']"

definition canSeeSettingsTab :: "jstring \<Rightarrow> settings_viewer \<Rightarrow> bool" where
  "canSeeSettingsTab tab v = (if tab \<notin> set INSTANCE_TABS then True else sv_operator v \<or> (sv_managed v \<and> sv_admin v))"

definition canSeeSystemSubtab :: "jstring \<Rightarrow> settings_viewer \<Rightarrow> bool" where
  "canSeeSystemSubtab sub v = (sub \<noteq> js ''announcements'' \<or> \<not> sv_managed v)"


section \<open>The gate opens and closes on 401 only\<close>

lemma length_show_nat_3: "100 \<le> n \<Longrightarrow> n < 1000 \<Longrightarrow> length (show_nat n) = 3"
proof -
  assume n: "100 \<le> n" "n < 1000"
  then have "\<not> n < 10" "\<not> n div 10 < 10" "n div 10 div 10 < 10" by auto
  then show ?thesis by (simp add: show_nat.simps [of n] show_nat.simps [of "n div 10"] show_nat.simps [of "n div 10 div 10"])
qed

lemma starts_with_401:
  assumes "100 \<le> n" "n < 1000"
  shows "starts_with (show_nat n @ d) (js ''401'') \<longleftrightarrow> n = 401"
proof -
  have "show_nat 401 = js ''401''" by code_simp
  moreover have "starts_with (show_nat n @ d) (js ''401'') \<longleftrightarrow> show_nat n = js ''401''"
    using length_show_nat_3 [OF assms] by (auto simp: starts_with_def prefix_def append_eq_append_conv)
  ultimately show ?thesis by (metis show_nat_inject)
qed

definition is_401 :: "jstring + http_response \<Rightarrow> bool" where
  "is_401 res \<longleftrightarrow> (case res of Inl _ \<Rightarrow> False | Inr r \<Rightarrow> hr_status r = 401)"

definition plain_response :: "jstring + http_response \<Rightarrow> bool" where
  "plain_response res \<longleftrightarrow>
     (case res of Inl m \<Rightarrow> \<not> starts_with m (js ''401'') | Inr r \<Rightarrow> 100 \<le> hr_status r \<and> hr_status r < 1000)"

lemma response_message:
  "response_result parse str r = Inl e \<Longrightarrow> \<exists>d. ae_message e = show_nat (hr_status r) @ d"
  by (auto simp: response_result_def split: if_splits option.splits)

lemma request_message_401:
  assumes "plain_response res" "request_result parse str res = Inl e"
  shows "starts_with (ae_message e) (js ''401'') \<longleftrightarrow> is_401 res"
proof (cases res)
  case (Inr r)
  then obtain d where "ae_message e = show_nat (hr_status r) @ d"
    using assms(2) response_message by (fastforce simp: request_result_def)
  with assms(1) Inr show ?thesis by (simp add: plain_response_def is_401_def starts_with_401)
qed (use assms in \<open>auto simp: plain_response_def is_401_def request_result_def\<close>)

lemma is_401_fails: "is_401 res \<Longrightarrow> \<exists>e. request_result parse str res = Inl e"
  by (auto simp: is_401_def request_result_def response_result_def hr_ok_def split: sum.splits)


definition demo_me :: me_response where
  "demo_me = \<lparr>me_id = js ''u'', me_email = js ''a@b.se'', me_name = js ''Ann Berg'', me_operator = Some True,
     me_demo = None, me_reset = None,
     me_memberships = [\<lparr>am_org = \<lparr>og_id = js ''o'', og_slug = js ''o'', og_name = js ''Org''\<rparr>, am_role = RoleEditor\<rparr>],
     me_principal_org = js ''o'', me_managed = Some True, me_email_disabled = None, me_org_disabled = None\<rparr>"

definition demo_401 :: http_response where
  "demo_401 = \<lparr>hr_status = 401, hr_statusText = js ''Unauthorized'', hr_text = []\<rparr>"


text \<open>A name or address made of separators only makes the adapter throw, so a signed-in user is shown the error page.\<close>

lemma separator_name_throws:
  "initialsFor id (js ''-'') = None
   \<and> fetchMe id (js ''t'') (Inr (demo_me\<lparr>me_name := js ''-''\<rparr>)) (Inr demo_me) None = (LoadError (js ''t''), None)"
  by code_simp

text \<open>After the pin is dropped, any failure of the second call signs the user out, also a server error.\<close>

lemma second_failure_signs_out:
  "fetchMe uni t (Inl \<lparr>ae_message = js ''401 x'', ae_status = Some 401\<rparr>) (Inl \<lparr>ae_message = js ''503 y'', ae_status = Some 503\<rparr>) (Some o1)
     = (LoggedOut, None)"
proof -
  have "starts_with (js ''401 x'') (js ''401'')" by code_simp
  then show ?thesis by (simp add: fetchMe_def me_outcome_def)
qed

section \<open>Who may do what\<close>

lemma initialsFor_name: "initialsFor uni s = None \<longleftrightarrow> trim s \<noteq> [] \<and> name_parts (trim s) = []"
  by (auto simp: initialsFor_def Let_def split: list.splits)

lemma fromMe_memberships: "fromMe uni me = Some d \<Longrightarrow> us_memberships (cr_user d) = map adaptMembership (me_memberships me)"
  by (auto simp: fromMe_def Let_def)

text \<open>The membership the session acts in: the principal's organisation, else the first.\<close>

definition acting :: "me_response \<Rightarrow> auth_membership option" where
  "acting me = (case find (\<lambda>m. og_id (am_org m) = me_principal_org me) (me_memberships me) of
     Some m \<Rightarrow> Some m | None \<Rightarrow> (case me_memberships me of [] \<Rightarrow> None | m # _ \<Rightarrow> Some m))"

lemma find_map: "find P (map f xs) = map_option f (find (\<lambda>x. P (f x)) xs)"
  by (induction xs) auto

lemma acting_first: "me_principal_org me = [] \<Longrightarrow>
    find (\<lambda>m. og_id (am_org m) = og_id (am_org m0)) (m0 # ms) = Some m0"
  by simp



section \<open>The environment of a page\<close>

definition plain_env :: "jstring \<Rightarrow> bool" where
  "plain_env e \<longleftrightarrow> e \<noteq> ALL_ENVIRONMENTS_PARAM \<and> e \<noteq> NO_ENVIRONMENT_PARAM"

lemma env_param_inverse: "plain_env e \<Longrightarrow> env_of_param (envToParam e) = e"
  by (simp add: env_of_param_def envToParam_def plain_env_def)

lemma env_param_plain: "plain_env e \<Longrightarrow> envToParam e \<noteq> [] \<and> envToParam e \<noteq> ALL_ENVIRONMENTS_PARAM"
  by (simp add: envToParam_def plain_env_def NO_ENVIRONMENT_PARAM_def ALL_ENVIRONMENTS_PARAM_def)

lemma environments_read_back:
  assumes "es \<noteq> []" "list_all plain_env es"
  shows "envsFromParams (set_env_list ps (Some es) explicitAll) = Some es"
proof -
  have "params_getAll (set_env_list ps (Some es) explicitAll) (js ''env'') = map envToParam es"
    using assms(1) by (cases es) (auto simp: params_getAll_def set_env_list_def params_delete_def filter_empty_conv comp_def)
  moreover have "map (env_of_param \<circ> envToParam) es = es" "\<not> list_ex (\<lambda>p. p = [] \<or> p = ALL_ENVIRONMENTS_PARAM) (map envToParam es)"
    using assms(2) by (auto simp: list_all_iff list_ex_iff env_param_inverse env_param_plain intro: map_idI)
  ultimately show ?thesis using assms(1) by (simp add: envsFromParams_def)
qed

lemma environment_all_read_back: "envsFromParams (set_env_list ps None explicitAll) = None"
proof (cases explicitAll)
  case True
  then have "set_env_list ps None explicitAll = params_delete ps (js ''env'') @ [(js ''env'', ALL_ENVIRONMENTS_PARAM)]"
    unfolding set_env_list_def Let_def by (simp, subst params_set_fresh) (auto simp: params_delete_def)
  then show ?thesis by (simp add: envsFromParams_def params_getAll_def)
qed (simp add: envsFromParams_def params_getAll_def set_env_list_def params_delete_def)

text \<open>A write is never narrowed to an environment.\<close>

lemma writes_are_not_narrowed:
  "meth \<noteq> js ''GET'' \<Longrightarrow> \<not> starts_with path (js ''/messages/search'') \<Longrightarrow> request_path active path meth = Some path"
  by (simp add: request_path_def readsIntegrationData_def split: option.splits)

lemma set_expandProduction_step:
  "set (foldl (\<lambda>out n. if n \<in> set out then out else out @ [n]) out ns) = set out \<union> set ns"
  by (induction ns arbitrary: out) auto

lemma expandProduction_set:
  "set (expandProduction envs production) = \<Union> (set (map (\<lambda>e. if e = PRODUCTION_TOKEN then set production else {e}) envs))"
proof -
  have "set (foldl (\<lambda>out e. foldl (\<lambda>out n. if n \<in> set out then out else out @ [n]) out
        (if e = PRODUCTION_TOKEN then production else [e])) out envs)
      = set out \<union> \<Union> (set (map (\<lambda>e. if e = PRODUCTION_TOKEN then set production else {e}) envs))" for out
    by (induction envs arbitrary: out) (auto simp: set_expandProduction_step)
  then show ?thesis by (simp add: expandProduction_def)
qed

end
