(* ===== verification/SharedCache.thy ===== *)
theory SharedCache
  imports Uri Collections JsSort
begin

text \<open>
  The module-scope caches of \<open>lib/useBranding.ts\<close>, \<open>lib/useSystemTypes.ts\<close>,
  \<open>lib/useNavigationReach.ts\<close> and \<open>lib/useIngestBaseUrl.ts\<close>: one request shared by every mounted
  component, a cached answer, and a set of listeners.  The four files run the same machine with
  another answer and another fallback \<open>fb\<close> (what a component shows before there is an answer).

  A promise's callbacks run one at a time, so each callback is one step: the answer (cache it and
  tell the listeners), the failure, and the \<open>finally\<close> that clears \<open>inflight\<close> and resolves the
  promise the mounted components wait on.
\<close>

section \<open>The machine\<close>

datatype 'v flight = Idle | Pending | Answered 'v | Failed

record 'v shared =
  sh_cached :: "'v option"
  sh_flight :: "'v flight"
  sh_views :: "nat \<Rightarrow> 'v option"
  sh_waiting :: "nat list"
  sh_requests :: nat
  sh_failures :: nat
  sh_refreshes :: nat

definition sh_init :: "'v shared" where
  "sh_init = \<lparr>sh_cached = None, sh_flight = Idle, sh_views = (\<lambda>_. None), sh_waiting = [],
     sh_requests = 0, sh_failures = 0, sh_refreshes = 0\<rparr>"

definition is_idle :: "'v flight \<Rightarrow> bool" where
  "is_idle f = (case f of Idle \<Rightarrow> True | _ \<Rightarrow> False)"

definition load :: "'v shared \<Rightarrow> 'v shared" where
  "load s =
     (if sh_cached s \<noteq> None then s
      else if is_idle (sh_flight s) then s\<lparr>sh_flight := Pending, sh_requests := Suc (sh_requests s)\<rparr>
      else s)"

text \<open>The mount effect of component \<open>i\<close>: it reads the cache, registers, and waits on \<open>load()\<close>.\<close>

definition mount :: "'v \<Rightarrow> nat \<Rightarrow> 'v shared \<Rightarrow> 'v shared" where
  "mount fb i s =
     (let s' = load s in
      s'\<lparr>sh_views := (sh_views s)(i := Some (coalesce (sh_cached s) fb)),
         sh_waiting := (if sh_cached s = None then i # sh_waiting s else sh_waiting s)\<rparr>)"

definition unmount :: "nat \<Rightarrow> 'v shared \<Rightarrow> 'v shared" where
  "unmount i s = s\<lparr>sh_views := (sh_views s)(i := None), sh_waiting := removeAll i (sh_waiting s)\<rparr>"

definition answer :: "'v \<Rightarrow> 'v shared \<Rightarrow> 'v shared" where
  "answer v s = s\<lparr>sh_cached := Some v, sh_flight := Answered v, sh_views := (\<lambda>i. map_option (\<lambda>_. v) (sh_views s i))\<rparr>"

definition failing :: "'v shared \<Rightarrow> 'v shared" where
  "failing s = s\<lparr>sh_flight := Failed, sh_failures := Suc (sh_failures s)\<rparr>"

definition settle :: "'v \<Rightarrow> 'v shared \<Rightarrow> 'v shared" where
  "settle fb s =
     (let v = (case sh_flight s of Answered v \<Rightarrow> v | _ \<Rightarrow> fb) in
      s\<lparr>sh_flight := Idle, sh_waiting := [],
        sh_views := (\<lambda>i. if i \<in> set (sh_waiting s) then map_option (\<lambda>_. v) (sh_views s i) else sh_views s i)\<rparr>)"

definition refreshBranding :: "'v shared \<Rightarrow> 'v shared" where
  "refreshBranding s = load (s\<lparr>sh_cached := None, sh_refreshes := Suc (sh_refreshes s)\<rparr>)"

inductive cache_step :: "'v \<Rightarrow> 'v shared \<Rightarrow> 'v shared \<Rightarrow> bool" for fb where
  Mount: "sh_views s i = None \<Longrightarrow> cache_step fb s (mount fb i s)"
| Unmount: "cache_step fb s (unmount i s)"
| Answer: "sh_flight s = Pending \<Longrightarrow> cache_step fb s (answer v s)"
| Fail: "sh_flight s = Pending \<Longrightarrow> cache_step fb s (failing s)"
| Settle: "sh_flight s = Answered v \<or> sh_flight s = Failed \<Longrightarrow> cache_step fb s (settle fb s)"
| Refresh: "cache_step fb s (refreshBranding s)"

inductive cache_reachable :: "'v \<Rightarrow> 'v shared \<Rightarrow> bool" for fb where
  Start: "cache_reachable fb sh_init"
| Step: "cache_reachable fb s \<Longrightarrow> cache_step fb s s' \<Longrightarrow> cache_reachable fb s'"

declare cache_step.intros [intro] cache_reachable.intros [intro]

lemmas op_defs = mount_def unmount_def answer_def failing_def settle_def refreshBranding_def load_def is_idle_def

section \<open>What each file caches\<close>

record branding =
  br_logo :: jstring
  br_logo_dark :: "jstring option"
  br_wordmark :: "jstring option"
  br_favicon :: "jstring option"
  br_entitled :: bool

definition branding_answer :: "branding \<Rightarrow> branding option shared \<Rightarrow> branding option shared" where
  "branding_answer b = answer (Some b)"

text \<open>\<open>theme\<close> is the \<open>data-theme\<close> of the document, \<open>os_dark\<close> the system preference.\<close>

definition brandingLogoFor :: "jstring option \<Rightarrow> bool \<Rightarrow> branding \<Rightarrow> jstring" where
  "brandingLogoFor theme os_dark b =
     (if \<not> truthy_str (br_logo_dark b) then br_logo b
      else let dark = (theme = Some (js ''dark'') \<or> (\<not> truthy_str theme \<and> os_dark))
           in if dark then coalesce (br_logo_dark b) [] else br_logo b)"

definition useProductName :: "branding option \<Rightarrow> branding option \<Rightarrow> jstring" where
  "useProductName shell login =
     or_str (Option.bind shell br_wordmark) (or_str (Option.bind login br_wordmark) (js ''Sluicio''))"

record navigation_reach =
  nr_services :: bool
  nr_unrestricted :: bool

definition reach_answer :: "navigation_reach \<Rightarrow> navigation_reach option shared \<Rightarrow> navigation_reach option shared" where
  "reach_answer r = answer (Some r)"

definition useCanOpenServices :: "navigation_reach option \<Rightarrow> bool" where
  "useCanOpenServices reach = (case reach of None \<Rightarrow> True | Some r \<Rightarrow> nr_services r)"

datatype ingest_source = SrcEnv | SrcSetting | SrcUnset

record ingest_base =
  ib_base :: jstring
  ib_source :: ingest_source

definition originFallback :: "jstring option \<Rightarrow> jstring" where
  "originFallback origin = coalesce origin []"

definition strip_slashes :: "jstring \<Rightarrow> jstring" where
  "strip_slashes s = rev (dropWhile (\<lambda>c. c = cu CHR ''/'') (rev s))"

definition ingest_value :: "jstring option \<Rightarrow> jstring option \<Rightarrow> ingest_source option \<Rightarrow> ingest_base" where
  "ingest_value origin url src =
     \<lparr>ib_base = strip_slashes (or_str url (originFallback origin)),
      ib_source = (case src of Some x \<Rightarrow> x | None \<Rightarrow> if truthy_str url then SrcSetting else SrcUnset)\<rparr>"

definition ingest_answer ::
  "jstring option \<Rightarrow> jstring option \<Rightarrow> ingest_source option \<Rightarrow> ingest_base shared \<Rightarrow> ingest_base shared" where
  "ingest_answer origin url src = answer (ingest_value origin url src)"

definition otlpEndpoint :: "jstring \<Rightarrow> jstring \<Rightarrow> jstring" where
  "otlpEndpoint base signal = base @ js ''/v1/'' @ signal"

record kind_option =
  ko_value :: jstring
  ko_label :: jstring

abbreviation kopt :: "string \<Rightarrow> string \<Rightarrow> kind_option" where
  "kopt v l \<equiv> \<lparr>ko_value = js v, ko_label = js l\<rparr>"

definition SYSTEM_KINDS :: "kind_option list" where
  "SYSTEM_KINDS =
     [kopt ''rabbitmq'' ''RabbitMQ'', kopt ''activemq'' ''ActiveMQ'', kopt ''artemis'' ''ActiveMQ Artemis'',
      kopt ''azure-servicebus'' ''Azure Service Bus'', kopt ''kafka'' ''Apache Kafka'',
      kopt ''confluent-kafka'' ''Confluent Kafka'', kopt ''nats'' ''NATS'', kopt ''debezium'' ''Debezium'',
      kopt ''krakend'' ''KrakenD API Gateway'', kopt ''wso2-apim'' ''WSO2 API Manager'', kopt ''redis'' ''Redis'',
      kopt ''sqlserver'' ''SQL Server'', kopt ''postgresql'' ''PostgreSQL'', kopt ''mysql'' ''MySQL'',
      kopt ''mongodb'' ''MongoDB'', kopt ''elasticsearch'' ''Elasticsearch'', kopt ''paperless-ngx'' ''Paperless-ngx'',
      kopt ''kubernetes'' ''Kubernetes'', kopt ''other'' ''Other'']"

definition kind_label_in :: "kind_option list \<Rightarrow> jstring \<Rightarrow> jstring option" where
  "kind_label_in ks kind = map_option ko_label (find (\<lambda>k. ko_value k = kind) ks)"

definition systemKindLabel :: "jstring option \<Rightarrow> jstring" where
  "systemKindLabel kind =
     (if \<not> truthy_str kind then js ''System'' else coalesce (kind_label_in SYSTEM_KINDS (coalesce kind [])) (coalesce kind []))"

definition TEMPLATE_KINDS :: "jstring list" where
  "TEMPLATE_KINDS = [js ''rabbitmq'', js ''artemis'', js ''azure-servicebus'', js ''krakend'', js ''kafka'',
     js ''confluent-kafka'', js ''nats'', js ''debezium'', js ''wso2-apim'', js ''paperless-ngx'', js ''kubernetes'']"

definition hasSystemTemplate :: "jstring option \<Rightarrow> bool" where
  "hasSystemTemplate kind \<longleftrightarrow> truthy_str kind \<and> coalesce kind [] \<in> set TEMPLATE_KINDS"

definition SERVICE_TEMPLATE_KINDS :: "kind_option list" where
  "SERVICE_TEMPLATE_KINDS =
     [kopt ''otel-collector'' ''OpenTelemetry Collector'', kopt ''dotnet-service'' ''.NET service'',
      kopt ''camel'' ''Apache Camel'', kopt ''node-red'' ''Node-RED'', kopt ''airflow'' ''Apache Airflow'',
      kopt ''airflow-dag-processor'' ''Airflow DAG processor'', kopt ''airflow-triggerer'' ''Airflow triggerer'']"

definition templateKindLabel :: "jstring option \<Rightarrow> jstring" where
  "templateKindLabel kind =
     (if \<not> truthy_str kind then js ''service''
      else let k = coalesce kind [] in
        (case kind_label_in SERVICE_TEMPLATE_KINDS k of
           Some l \<Rightarrow> l
         | None \<Rightarrow> coalesce (kind_label_in SYSTEM_KINDS k) k))"

definition systemTypes_value :: "(jstring \<Rightarrow> jstring \<Rightarrow> int) \<Rightarrow> (jstring \<times> jstring) list option \<Rightarrow> kind_option list" where
  "systemTypes_value coll system_types =
     (let rows = js_sort (cmp_on ko_label coll) (map (\<lambda>(k, l). \<lparr>ko_value = k, ko_label = l\<rparr>) (coalesce system_types []))
      in if length rows > 0 then rows else SYSTEM_KINDS)"

definition systemTypes_answer ::
  "(jstring \<Rightarrow> jstring \<Rightarrow> int) \<Rightarrow> (jstring \<times> jstring) list option \<Rightarrow> kind_option list shared \<Rightarrow> kind_option list shared" where
  "systemTypes_answer coll system_types = answer (systemTypes_value coll system_types)"

definition useSystemKindLabel :: "kind_option list \<Rightarrow> jstring option \<Rightarrow> jstring" where
  "useSystemKindLabel types kind =
     (if \<not> truthy_str kind then js ''System''
      else (case kind_label_in types (coalesce kind []) of Some l \<Rightarrow> l | None \<Rightarrow> systemKindLabel kind))"

text \<open>The catalog search; \<open>letter\<close> is \<open>[\p{L}\p{N}]\<close> of the engine on code points, \<open>uni\<close> its case conversion.\<close>

fun keep_points :: "(nat \<Rightarrow> bool) \<Rightarrow> jstring \<Rightarrow> jstring" where
  "keep_points p [] = []"
| "keep_points p [u] = (if p u then [u] else [])"
| "keep_points p (u # v # vs) =
     (if high_surrogate u \<and> low_surrogate v
      then (if p (0x10000 + (u - 0xD800) * 0x400 + (v - 0xDC00)) then u # v # keep_points p vs else keep_points p vs)
      else (if p u then u # keep_points p (v # vs) else keep_points p (v # vs)))"

definition normalizeForSearch :: "(jstring \<Rightarrow> jstring) \<Rightarrow> (nat \<Rightarrow> bool) \<Rightarrow> jstring \<Rightarrow> jstring" where
  "normalizeForSearch uni letter s = keep_points letter (to_lower uni s)"

definition systemTypeMatches ::
  "(jstring \<Rightarrow> jstring) \<Rightarrow> (nat \<Rightarrow> bool) \<Rightarrow> jstring option \<times> jstring option \<Rightarrow> jstring \<Rightarrow> bool" where
  "systemTypeMatches uni letter t query =
     (let q = normalizeForSearch uni letter query in
      if q = [] then True
      else str_includes (normalizeForSearch uni letter (coalesce (snd t) [])) q
        \<or> str_includes (normalizeForSearch uni letter (coalesce (fst t) [])) q)"

definition filterSystemTypes ::
  "(jstring \<Rightarrow> jstring) \<Rightarrow> (nat \<Rightarrow> bool) \<Rightarrow> (jstring option \<times> jstring option) list \<Rightarrow> jstring \<Rightarrow> (jstring option \<times> jstring option) list" where
  "filterSystemTypes uni letter types query =
     (let q = normalizeForSearch uni letter query in
      if q = [] then types else filter (\<lambda>t. systemTypeMatches uni letter t query) types)"


section \<open>The invariant\<close>

definition shows_all :: "'v shared \<Rightarrow> 'v \<Rightarrow> bool" where
  "shows_all s v \<longleftrightarrow> (\<forall>i. sh_views s i = None \<or> sh_views s i = Some v)"

definition cache_inv :: "'v shared \<Rightarrow> bool" where
  "cache_inv s \<longleftrightarrow>
     (case sh_flight s of
        Idle \<Rightarrow> (case sh_cached s of None \<Rightarrow> True | Some v \<Rightarrow> shows_all s v)
      | Answered v \<Rightarrow> (case sh_cached s of None \<Rightarrow> True | Some w \<Rightarrow> w = v \<and> shows_all s v)
      | _ \<Rightarrow> sh_cached s = None)"

definition may_ask :: "'v shared \<Rightarrow> nat" where
  "may_ask s = (case sh_flight s of Pending \<Rightarrow> 0 | _ \<Rightarrow> (if sh_cached s = None then 1 else 0))"

definition budget_inv :: "'v shared \<Rightarrow> bool" where
  "budget_inv s \<longleftrightarrow> sh_requests s + may_ask s \<le> sh_failures s + sh_refreshes s + 1"

definition asked_inv :: "'v shared \<Rightarrow> bool" where
  "asked_inv s \<longleftrightarrow> (sh_failures s = 0 \<and> sh_refreshes s = 0 \<and> sh_requests s \<noteq> 0
     \<longrightarrow> sh_flight s = Pending \<or> sh_cached s \<noteq> None) \<and> (sh_flight s = Failed \<longrightarrow> 0 < sh_failures s)"

definition mounted_inv :: "'v shared \<Rightarrow> bool" where
  "mounted_inv s \<longleftrightarrow> (\<forall>i. sh_views s i \<noteq> None \<longrightarrow> sh_requests s \<noteq> 0)
     \<and> (sh_cached s \<noteq> None \<or> \<not> is_idle (sh_flight s) \<longrightarrow> sh_requests s \<noteq> 0)"

lemmas inv_defs = cache_inv_def shows_all_def budget_inv_def may_ask_def asked_inv_def mounted_inv_def

lemma step_cache_inv: "cache_step fb s s' \<Longrightarrow> cache_inv s \<Longrightarrow> cache_inv s'"
  by (induction rule: cache_step.induct)
    (auto simp: inv_defs op_defs Let_def split: flight.splits option.splits if_splits)

lemma step_budget_inv: "cache_step fb s s' \<Longrightarrow> cache_inv s \<Longrightarrow> budget_inv s \<Longrightarrow> budget_inv s'"
  by (induction rule: cache_step.induct)
    (auto simp: inv_defs op_defs Let_def split: flight.splits option.splits if_splits)

lemma step_asked_inv: "cache_step fb s s' \<Longrightarrow> asked_inv s \<Longrightarrow> asked_inv s'"
  by (induction rule: cache_step.induct)
    (auto simp: inv_defs op_defs Let_def split: flight.splits option.splits if_splits)


lemma step_mounted_inv: "cache_step fb s s' \<Longrightarrow> mounted_inv s \<Longrightarrow> mounted_inv s'"
  by (induction rule: cache_step.induct)
    (auto simp: mounted_inv_def op_defs Let_def split: flight.splits option.splits if_splits)

definition good :: "'v shared \<Rightarrow> bool" where
  "good s \<longleftrightarrow> cache_inv s \<and> budget_inv s \<and> asked_inv s \<and> mounted_inv s"

lemma reachable_good: "cache_reachable fb s \<Longrightarrow> good s"
proof (induction rule: cache_reachable.induct)
  case Start
  show ?case by (simp add: good_def inv_defs sh_init_def is_idle_def)
next
  case (Step s s')
  then show ?case
    by (auto simp: good_def intro: step_cache_inv step_budget_inv step_asked_inv step_mounted_inv)
qed

lemma mounted_components_agree_aux:
  assumes "cache_reachable fb s" "sh_cached s = Some v"
  shows "sh_views s i = None \<or> sh_views s i = Some v"
  using reachable_good [OF assms(1)] assms(2)
  by (auto simp: good_def cache_inv_def shows_all_def split: flight.splits)

text \<open>In every state the page can reach, all mounted components show the cached answer: two
  components never disagree, whatever the order of mounts, answers, failures and refreshes.\<close>

theorem mounted_components_agree:
  assumes "cache_reachable fb s" "sh_cached s = Some v" "sh_views s i = Some w"
  shows "w = v"
  using mounted_components_agree_aux [OF assms(1,2), of i] assms(3) by simp

text \<open>The number of requests sent is bounded by one more than the failures and refreshes, and once
  there is an answer no component sends another request.\<close>

theorem one_request_serves_the_page:
  assumes "cache_reachable fb s"
  shows "sh_requests s \<le> sh_failures s + sh_refreshes s + 1
    \<and> (sh_cached s = None \<or> sh_requests (mount fb i s) = sh_requests s)"
  using reachable_good [OF assms] by (auto simp: good_def budget_inv_def mount_def load_def)


section \<open>Concrete runs\<close>

definition run_refresh :: "nat shared" where
  "run_refresh = settle 0 (answer 7 (refreshBranding (mount 0 1 sh_init)))"

lemma mounted_reachable: "cache_reachable 0 (mount 0 1 (sh_init :: nat shared))"
  by (rule cache_reachable.Step [OF cache_reachable.Start cache_step.Mount]) (simp add: sh_init_def)

lemma run_refresh_reachable: "cache_reachable 0 run_refresh"
proof -
  have r: "cache_reachable 0 (refreshBranding (mount 0 1 (sh_init :: nat shared)))"
    by (rule cache_reachable.Step [OF mounted_reachable cache_step.Refresh])
  have "sh_flight (refreshBranding (mount 0 1 (sh_init :: nat shared))) = Pending"
    by (simp add: op_defs sh_init_def Let_def)
  note a = cache_reachable.Step [OF r cache_step.Answer [OF this, of 0 7]]
  have "sh_flight (answer 7 (refreshBranding (mount 0 1 (sh_init :: nat shared)))) = Answered 7" by (simp add: answer_def)
  then show ?thesis unfolding run_refresh_def by (intro cache_reachable.Step [OF a cache_step.Settle]) simp
qed

text \<open>
  A refresh while a request is in flight sends nothing: the page keeps the answer of the request
  that was sent before the save the refresh was meant to pick up.
\<close>

lemma refresh_in_flight_is_lost:
  "sh_refreshes run_refresh = 1 \<and> sh_requests run_refresh = 1 \<and> sh_cached run_refresh = Some 7"
  by (simp add: run_refresh_def op_defs sh_init_def Let_def)

lemma mounted_components_agree_ex:
  "sh_cached run_refresh = Some 7 \<and> sh_views run_refresh 1 = Some 7"
proof -
  have v: "sh_views run_refresh 1 = Some (the (sh_views run_refresh 1))" by (simp add: run_refresh_def op_defs sh_init_def Let_def)
  from mounted_components_agree [OF run_refresh_reachable _ v, of 7] refresh_in_flight_is_lost v show ?thesis by simp
qed

lemma one_request_serves_the_page_ex:
  "sh_requests run_refresh \<le> sh_failures run_refresh + sh_refreshes run_refresh + 1
   \<and> (sh_cached run_refresh = None \<or> sh_requests (mount 0 2 run_refresh) = sh_requests run_refresh)"
  using one_request_serves_the_page [OF run_refresh_reachable, of 2] .


section \<open>The catalog search\<close>

lemma filterSystemTypes_subseq: "subseq (filterSystemTypes uni letter types query) types"
  by (simp add: filterSystemTypes_def Let_def)

lemma strip_slashes_idem: "strip_slashes s = [] \<or> last (strip_slashes s) \<noteq> cu CHR ''/''"
proof -
  have "dropWhile P xs = [] \<or> \<not> P (hd (dropWhile P xs))" for P and xs :: jstring by (induction xs) auto
  from this [of "\<lambda>c. c = cu CHR ''/''" "rev s"] show ?thesis by (auto simp: strip_slashes_def last_rev)
qed

end
