(* ===== verification/Csv.thy ===== *)
theory Csv
  imports Prelude
begin

text \<open>
  \<open>lib/messagesCsv.ts\<close>: the CSV text of a message search (quoting, rows), the paginating export
  with its cap and its page limit, and the file name; \<open>lib/slugify.ts\<close>.  \<open>num\<close> is
  \<open>String(n)\<close> on a number and \<open>stringify\<close> \<open>JSON.stringify\<close> of an attribute bag.
\<close>

section \<open>Cells and rows\<close>

record trace_result =
  tr_id :: jstring
  tr_start :: jstring
  tr_duration :: rat
  tr_error :: bool
  tr_spans :: nat
  tr_services :: nat
  tr_matched_service :: jstring
  tr_matched_span :: jstring
  tr_attributes :: "(jstring \<times> jstring) list option"
  tr_exception_type :: "jstring option"
  tr_exception_message :: "jstring option"

definition CSV_EXPORT_CAP :: nat where "CSV_EXPORT_CAP = 50000"

definition EXPORT_PAGE :: nat where "EXPORT_PAGE = 1000"

definition csv_special :: "nat \<Rightarrow> bool" where
  "csv_special c \<longleftrightarrow> c = 44 \<or> c = 34 \<or> c = 13 \<or> c = 10"

definition double_quotes :: "jstring \<Rightarrow> jstring" where
  "double_quotes s = concat (map (\<lambda>c. if c = 34 then [34, 34] else [c]) s)"

definition escapeCell :: "jstring option \<Rightarrow> jstring" where
  "escapeCell value =
     (case value of
        None \<Rightarrow> []
      | Some s \<Rightarrow> if list_ex csv_special s then [34] @ double_quotes s @ [34] else s)"

definition csv_header :: "jstring list" where
  "csv_header = map js [''trace_id'', ''trace_start'', ''duration_ms'', ''has_error'', ''total_spans'', ''service_count'',
     ''matched_service'', ''matched_span_name'', ''exception_type'', ''exception_message'', ''attributes'']"

definition show_bool :: "bool \<Rightarrow> jstring" where
  "show_bool b = (if b then js ''true'' else js ''false'')"

definition COLUMNS :: "(rat \<Rightarrow> jstring) \<Rightarrow> ((jstring \<times> jstring) list \<Rightarrow> jstring) \<Rightarrow> trace_result \<Rightarrow> jstring option list" where
  "COLUMNS num stringify r =
     [Some (tr_id r), Some (tr_start r), Some (num (tr_duration r)), Some (show_bool (tr_error r)),
      Some (show_nat (tr_spans r)), Some (show_nat (tr_services r)), Some (tr_matched_service r), Some (tr_matched_span r),
      Some (coalesce (tr_exception_type r) []), Some (coalesce (tr_exception_message r) []),
      Some (case tr_attributes r of None \<Rightarrow> [] | Some a \<Rightarrow> if a \<noteq> [] then stringify a else [])]"

definition csv_line :: "jstring option list \<Rightarrow> jstring" where
  "csv_line cells = join (js '','') (map escapeCell cells)"

definition messageRowsToCsv ::
  "(rat \<Rightarrow> jstring) \<Rightarrow> ((jstring \<times> jstring) list \<Rightarrow> jstring) \<Rightarrow> trace_result list \<Rightarrow> jstring" where
  "messageRowsToCsv num stringify rows =
     join [13, 10] (join (js '','') csv_header # map (\<lambda>r. csv_line (COLUMNS num stringify r)) rows)"

section \<open>The export\<close>

text \<open>
  \<open>search page cursor\<close> is the server's answer to the request number \<open>page\<close>: the rows, absent as an
  empty list, and the next cursor; the left side is the exception of a failed request.
\<close>

fun fetch_pages ::
  "(nat \<Rightarrow> 'c option \<Rightarrow> 'e + 'r list option \<times> 'c option) \<Rightarrow> nat \<Rightarrow> nat \<Rightarrow> 'c option \<Rightarrow> 'r list \<Rightarrow> 'e + 'r list \<times> bool" where
  "fetch_pages search 0 page cursor rows = Inr (rows, False)"
| "fetch_pages search (Suc n) page cursor rows =
     (case search page cursor of
        Inl e \<Rightarrow> Inl e
      | Inr (results, next) \<Rightarrow>
          let rows' = rows @ coalesce results [] in
          if CSV_EXPORT_CAP \<le> length rows' then Inr (take CSV_EXPORT_CAP rows', True)
          else (case next of
              None \<Rightarrow> Inr (rows', False)
            | Some c \<Rightarrow> fetch_pages search n (Suc page) (Some c) rows'))"

definition fetchAllMessages ::
  "(nat \<Rightarrow> 'c option \<Rightarrow> 'e + 'r list option \<times> 'c option) \<Rightarrow> 'e + 'r list \<times> bool" where
  "fetchAllMessages search = fetch_pages search 1000 0 None []"

section \<open>The file name\<close>

definition slug_other :: "nat \<Rightarrow> bool" where
  "slug_other c \<longleftrightarrow> \<not> (is_lower c \<or> is_digit c)"

definition slugify :: "(jstring \<Rightarrow> jstring) \<Rightarrow> jstring \<Rightarrow> jstring" where
  "slugify uni s = strip_ends (\<lambda>c. c = cu CHR ''-'') (replace_runs slug_other (js ''-'') (to_lower uni s))"

record local_time =
  lt_year :: nat
  lt_month :: nat
  lt_date :: nat
  lt_hours :: nat
  lt_minutes :: nat
  lt_seconds :: nat

definition two_digits :: "nat \<Rightarrow> jstring" where
  "two_digits n = pad_start0 2 (show_nat n)"

definition csvFilename :: "(jstring \<Rightarrow> jstring) \<Rightarrow> local_time \<Rightarrow> jstring \<Rightarrow> jstring" where
  "csvFilename uni d scope =
     (let slug = (if slugify uni scope = [] then js ''all'' else slugify uni scope);
          stamp = show_nat (lt_year d) @ two_digits (lt_month d + 1) @ two_digits (lt_date d) @ js ''-''
            @ two_digits (lt_hours d) @ two_digits (lt_minutes d) @ two_digits (lt_seconds d)
      in js ''messages-'' @ slug @ js ''-'' @ stamp @ js ''.csv'')"

section \<open>Reading the text back\<close>

text \<open>A reader of RFC 4180: fields between commas, records between CRLF, quoted fields with doubled quotes.\<close>

datatype csv_mode = FieldStart | Plain | Quoted | QuoteSeen

fun csv_read :: "csv_mode \<Rightarrow> jstring \<Rightarrow> jstring list \<Rightarrow> jstring \<Rightarrow> jstring list list" where
  "csv_read m f r [] = [r @ [f]]"
| "csv_read Quoted f r (c # cs) = (if c = 34 then csv_read QuoteSeen f r cs else csv_read Quoted (f @ [c]) r cs)"
| "csv_read m f r (c # cs) =
     (if c = 34 \<and> m = FieldStart then csv_read Quoted f r cs
      else if c = 34 \<and> m = QuoteSeen then csv_read Quoted (f @ [34]) r cs
      else if c = 44 then csv_read FieldStart [] (r @ [f]) cs
      else if c = 13 then (case cs of
          d # ds \<Rightarrow> if d = 10 then (r @ [f]) # csv_read FieldStart [] [] ds else csv_read Plain (f @ [c]) r cs
        | [] \<Rightarrow> [r @ [f @ [c]]])
      else csv_read Plain (f @ [c]) r cs)"

definition csv_rows :: "jstring \<Rightarrow> jstring list list" where
  "csv_rows s = csv_read FieldStart [] [] s"

text \<open>What follows a field: the end, a comma, or CRLF.\<close>

definition field_ends :: "jstring \<Rightarrow> bool" where
  "field_ends rest \<longleftrightarrow> rest = [] \<or> hd rest = 44 \<or> (length rest \<ge> 2 \<and> take 2 rest = [13, 10])"

definition after_field :: "jstring \<Rightarrow> jstring list \<Rightarrow> jstring \<Rightarrow> jstring list list" where
  "after_field f r rest =
     (if rest = [] then [r @ [f]]
      else if hd rest = 44 then csv_read FieldStart [] (r @ [f]) (tl rest)
      else (r @ [f]) # csv_read FieldStart [] [] (drop 2 rest))"

lemma csv_read_end: "field_ends rest \<Longrightarrow> m \<noteq> Quoted \<Longrightarrow> csv_read m f r rest = after_field f r rest"
  by (cases rest; cases m; cases "tl rest") (auto simp: field_ends_def after_field_def)

lemma csv_read_plain:
  "\<not> list_ex csv_special s \<Longrightarrow> field_ends rest \<Longrightarrow> csv_read Plain f r (s @ rest) = after_field (f @ s) r rest"
proof (induction s arbitrary: f)
  case Nil
  then show ?case by (simp add: csv_read_end)
next
  case (Cons c s)
  then show ?case by (auto simp: csv_special_def)
qed

lemma csv_read_quoted:
  "field_ends rest \<Longrightarrow> csv_read Quoted f r (double_quotes s @ 34 # rest) = after_field (f @ s) r rest"
proof (induction s arbitrary: f)
  case Nil
  then show ?case by (simp add: double_quotes_def csv_read_end)
next
  case (Cons c s)
  then show ?case by (auto simp: double_quotes_def)
qed

lemma csv_read_cell:
  assumes "field_ends rest"
  shows "csv_read FieldStart [] r (escapeCell v @ rest) = after_field (coalesce v []) r rest"
proof (cases v)
  case None
  then show ?thesis using assms by (simp add: escapeCell_def csv_read_end)
next
  case (Some s)
  show ?thesis
  proof (cases "list_ex csv_special s")
    case True
    then show ?thesis using Some csv_read_quoted [OF assms, of "[]" r s] by (simp add: escapeCell_def)
  next
    case False
    show ?thesis
    proof (cases s)
      case Nil
      then show ?thesis using Some assms by (simp add: escapeCell_def csv_read_end)
    next
      case (Cons c t)
      have t: "\<not> list_ex csv_special t" and c: "\<not> csv_special c" using False by (simp_all add: Cons)
      have "csv_read FieldStart [] r (c # t @ rest) = csv_read Plain [c] r (t @ rest)"
        using c by (simp add: csv_special_def)
      also have "\<dots> = after_field ([c] @ t) r rest" by (rule csv_read_plain [OF t assms])
      finally show ?thesis using False by (simp add: Some Cons escapeCell_def)
    qed
  qed
qed

lemma csv_read_line:
  assumes "cells \<noteq> []" "rest = [] \<or> take 2 rest = [13, 10]"
  shows "csv_read FieldStart [] r (csv_line cells @ rest)
    = (if rest = [] then [r @ map (\<lambda>v. coalesce v []) cells]
       else (r @ map (\<lambda>v. coalesce v []) cells) # csv_read FieldStart [] [] (drop 2 rest))"
  using assms(1)
proof (induction cells arbitrary: r)
  case (Cons v vs)
  have e: "field_ends rest" using assms(2) by (cases rest; cases "tl rest") (auto simp: field_ends_def)
  show ?case
  proof (cases "vs = []")
    case True
    have "rest \<noteq> [] \<Longrightarrow> hd rest = 13" using assms(2) by (cases rest) auto
    then show ?thesis using True assms(2) csv_read_cell [OF e, of r v] by (auto simp: csv_line_def after_field_def)
  next
    case False
    have "csv_line (v # vs) @ rest = escapeCell v @ (44 # csv_line vs @ rest)"
      using False by (simp add: csv_line_def join_Cons js_def)
    moreover have "field_ends (44 # csv_line vs @ rest)" by (simp add: field_ends_def)
    ultimately show ?thesis using csv_read_cell [of "44 # csv_line vs @ rest" r v] Cons.IH [OF False] 
      by (simp add: after_field_def)
  qed
qed simp


lemma join_CRLF_lines:
  assumes "lines \<noteq> []" "\<forall>cells \<in> set lines. cells \<noteq> []"
  shows "csv_rows (join [13, 10] (map csv_line lines)) = map (map (\<lambda>v. coalesce v [])) lines"
  using assms
proof (induction lines)
  case (Cons l ls)
  show ?case
  proof (cases "ls = []")
    case True
    then show ?thesis using Cons.prems csv_read_line [of l "[]" "[]"] by (simp add: csv_rows_def)
  next
    case False
    have "join [13, 10] (map csv_line (l # ls)) = csv_line l @ (13 # 10 # join [13, 10] (map csv_line ls))"
      using False by (simp add: join_Cons)
    then have "csv_rows (join [13, 10] (map csv_line (l # ls)))
        = map (\<lambda>v. coalesce v []) l # csv_rows (join [13, 10] (map csv_line ls))"
      using Cons.prems csv_read_line [of l "13 # 10 # join [13, 10] (map csv_line ls)" "[]"] by (simp add: csv_rows_def)
    with Cons.IH [OF False] Cons.prems show ?thesis by simp
  qed
qed simp


section \<open>The export is complete up to the cap\<close>

text \<open>
  A server that pages through \<open>all\<close> by the page size: a cursor stands for an offset \<open>pos c\<close>, the
  rows are the next page, and there is a cursor exactly when rows are left.
\<close>

definition pages_through ::
  "('c \<Rightarrow> nat) \<Rightarrow> 'r list \<Rightarrow> (nat \<Rightarrow> 'c option \<Rightarrow> 'e + 'r list option \<times> 'c option) \<Rightarrow> bool" where
  "pages_through pos all search \<longleftrightarrow>
     (\<forall>page cursor. let o1 = (case cursor of None \<Rightarrow> 0 | Some c \<Rightarrow> pos c) in
        \<exists>results next. search page cursor = Inr (results, next)
          \<and> coalesce results [] = take EXPORT_PAGE (drop o1 all)
          \<and> (case next of None \<Rightarrow> length all \<le> o1 + EXPORT_PAGE
             | Some c \<Rightarrow> pos c = o1 + EXPORT_PAGE \<and> o1 + EXPORT_PAGE < length all))"

lemma fetch_pages_complete:
  assumes "pages_through pos all search"
  shows "CSV_EXPORT_CAP < o1 + EXPORT_PAGE * n \<Longrightarrow> o1 = (case cursor of None \<Rightarrow> 0 | Some c \<Rightarrow> pos c)
    \<Longrightarrow> o1 < CSV_EXPORT_CAP \<Longrightarrow> o1 \<le> length all
    \<Longrightarrow> fetch_pages search n page cursor (take o1 all) = Inr (take CSV_EXPORT_CAP all, CSV_EXPORT_CAP \<le> length all)"
proof (induction n arbitrary: page cursor o1)
  case (Suc n)
  obtain results "next" where s: "search page cursor = Inr (results, next)"
    "coalesce results [] = take EXPORT_PAGE (drop o1 all)"
    "case next of None \<Rightarrow> length all \<le> o1 + EXPORT_PAGE
       | Some c \<Rightarrow> pos c = o1 + EXPORT_PAGE \<and> o1 + EXPORT_PAGE < length all"
    using assms Suc.prems(2) unfolding pages_through_def Let_def by metis
  have rows: "take o1 all @ coalesce results [] = take (o1 + EXPORT_PAGE) all"
    by (simp add: s(2) take_add)
  have len: "length (take (o1 + EXPORT_PAGE) all) = min (length all) (o1 + EXPORT_PAGE)" by simp
  have step: "fetch_pages search (Suc n) page cursor (take o1 all) =
      (if CSV_EXPORT_CAP \<le> min (length all) (o1 + EXPORT_PAGE) then Inr (take CSV_EXPORT_CAP (take (o1 + EXPORT_PAGE) all), True)
       else (case next of None \<Rightarrow> Inr (take (o1 + EXPORT_PAGE) all, False)
             | Some c \<Rightarrow> fetch_pages search n (Suc page) (Some c) (take (o1 + EXPORT_PAGE) all)))"
    unfolding fetch_pages.simps s(1) sum.case prod.case rows Let_def len ..
  show ?case
  proof (cases "CSV_EXPORT_CAP \<le> min (length all) (o1 + EXPORT_PAGE)")
    case True
    then show ?thesis by (simp add: step min_absorb1 del: fetch_pages.simps)
  next
    case False
    show ?thesis
    proof (cases "next")
      case None
      with False s(3) show ?thesis by (simp add: step del: fetch_pages.simps)
    next
      case (Some c)
      with s(3) have c: "pos c = o1 + EXPORT_PAGE" "o1 + EXPORT_PAGE < length all" by simp_all
      have "fetch_pages search n (Suc page) (Some c) (take (o1 + EXPORT_PAGE) all)
          = Inr (take CSV_EXPORT_CAP all, CSV_EXPORT_CAP \<le> length all)"
        using Suc.prems(1) c False by (intro Suc.IH) auto
      with False Some show ?thesis by (simp add: step del: fetch_pages.simps)
    qed
  qed
qed simp

lemma export_is_complete_aux:
  "pages_through pos all search \<Longrightarrow> fetchAllMessages search = Inr (take CSV_EXPORT_CAP all, CSV_EXPORT_CAP \<le> length all)"
  using fetch_pages_complete [of pos all search 0 1000 None 0]
  by (simp add: fetchAllMessages_def CSV_EXPORT_CAP_def EXPORT_PAGE_def)


text \<open>Whatever the server answers, at most 1000 requests are made and at most the cap is returned.\<close>

lemma export_bounded:
  "fetch_pages search n page cursor rows = Inr (out, capped) \<Longrightarrow> length rows < CSV_EXPORT_CAP
     \<Longrightarrow> length out \<le> CSV_EXPORT_CAP \<and> (capped \<longleftrightarrow> length out = CSV_EXPORT_CAP)"
proof (induction n arbitrary: page cursor rows)
  case (Suc n)
  obtain results "next" where s: "search page cursor = Inr (results, next)"
    using Suc.prems(1) by (auto split: sum.splits)
  show ?case
  proof (cases "CSV_EXPORT_CAP \<le> length (rows @ coalesce results [])")
    case True
    then show ?thesis using Suc.prems(1) by (auto simp: s Let_def)
  next
    case False
    show ?thesis
    proof (cases "next")
      case None
      then show ?thesis using Suc.prems(1) False by (auto simp: s Let_def)
    next
      case (Some c)
      then show ?thesis using Suc.prems(1) False Suc.IH [of "Suc page" "Some c" "rows @ coalesce results []"]
        by (simp add: s Let_def)
    qed
  qed
qed auto

definition demo_server :: "nat \<Rightarrow> nat option \<Rightarrow> unit + nat list option \<times> nat option" where
  "demo_server page cursor =
     (let o1 = (case cursor of None \<Rightarrow> 0 | Some c \<Rightarrow> c); all = [0..<2500] in
      Inr (Some (take EXPORT_PAGE (drop o1 all)),
           if o1 + EXPORT_PAGE < length all then Some (o1 + EXPORT_PAGE) else None))"


text \<open>A result set of exactly the cap is reported as truncated although nothing is missing.\<close>

lemma full_cap_is_flagged:
  "pages_through pos all search \<Longrightarrow> length all = CSV_EXPORT_CAP \<Longrightarrow> fetchAllMessages search = Inr (all, True)"
  by (simp add: export_is_complete_aux)

end
