(* ===== verification/Tables.thy ===== *)
theory Tables
  imports Collections JsSort
begin

text \<open>
  The tables: \<open>lib/useTableSort.ts\<close> (three-state sort), \<open>lib/columnLayout.ts\<close> (which columns, in
  what order), \<open>lib/keyAttributes.ts\<close> (the attribute chips) and \<open>lib/jsonCaret.ts\<close>.  \<open>coll\<close> is
  \<open>localeCompare\<close> with \<open>numeric\<close> and \<open>sensitivity: base\<close>, \<open>str\<close> is \<open>String(v)\<close>.
\<close>

section \<open>Sorting\<close>

datatype sort_value = VNum rat | VBool bool | VStr jstring | VNull

datatype sort_dir = Asc | Desc

definition is_empty_value :: "sort_value \<Rightarrow> bool" where
  "is_empty_value v \<longleftrightarrow> v = VNull \<or> v = VStr []"

definition compareSortValues ::
  "(jstring \<Rightarrow> jstring \<Rightarrow> int) \<Rightarrow> (sort_value \<Rightarrow> jstring) \<Rightarrow> sort_value \<Rightarrow> sort_value \<Rightarrow> rat" where
  "compareSortValues coll str a b =
     (if is_empty_value a \<and> is_empty_value b then 0
      else if is_empty_value a then 1
      else if is_empty_value b then -1
      else (case (a, b) of
          (VNum x, VNum y) \<Rightarrow> x - y
        | (VBool x, VBool y) \<Rightarrow> if x = y then 0 else if x then 1 else -1
        | _ \<Rightarrow> of_int (coll (str a) (str b))))"

definition toggleSort :: "'k \<Rightarrow> ('k \<times> sort_dir) option \<Rightarrow> ('k \<times> sort_dir) option" where
  "toggleSort key cur =
     (case cur of
        None \<Rightarrow> Some (key, Asc)
      | Some (k, d) \<Rightarrow> if k \<noteq> key then Some (key, Asc) else if d = Asc then Some (key, Desc) else None)"

definition sortedRows ::
  "(jstring \<Rightarrow> jstring \<Rightarrow> int) \<Rightarrow> (sort_value \<Rightarrow> jstring) \<Rightarrow> ('k \<Rightarrow> ('r \<Rightarrow> sort_value) option)
     \<Rightarrow> ('k \<times> sort_dir) option \<Rightarrow> 'r list \<Rightarrow> 'r list" where
  "sortedRows coll str keyFns state rows =
     (case state of
        None \<Rightarrow> rows
      | Some (key, dir) \<Rightarrow>
          (case keyFns key of
             None \<Rightarrow> rows
           | Some fn \<Rightarrow>
               let base = js_sort (cmp_on fn (compareSortValues coll str)) rows in
               if dir = Desc then rev base else base))"

text \<open>A column whose cells are of one kind; values of another kind count as empty in \<open>norm\<close>.\<close>

datatype column_kind = CNum | CBool | CStr

fun of_kind :: "column_kind \<Rightarrow> sort_value \<Rightarrow> bool" where
  "of_kind CNum (VNum _) = True"
| "of_kind CBool (VBool _) = True"
| "of_kind CStr (VStr _) = True"
| "of_kind k v = is_empty_value v"

definition norm_value :: "column_kind \<Rightarrow> sort_value \<Rightarrow> sort_value" where
  "norm_value k v = (if of_kind k v then v else VNull)"

definition kind_compare ::
  "(jstring \<Rightarrow> jstring \<Rightarrow> int) \<Rightarrow> (sort_value \<Rightarrow> jstring) \<Rightarrow> column_kind \<Rightarrow> sort_value \<Rightarrow> sort_value \<Rightarrow> rat" where
  "kind_compare coll str k a b = compareSortValues coll str (norm_value k a) (norm_value k b)"

lemma sgn_of_int_coll: "sgn (of_int a :: rat) = of_int (sgn a)"
  by (simp add: sgn_if)

lemma js_comparator_kind:
  assumes "js_comparator coll"
  shows "js_comparator (kind_compare coll str k)"
proof (rule js_comparator.intro)
  fix x y z
  note s = js_comparator.cmp_sym [OF assms] and t = js_comparator.cmp_trans [OF assms]
  have gt: "0 < coll a b \<longleftrightarrow> coll b a < 0" for a b using s [of a b] by (auto simp: sgn_if split: if_splits)
  have lt: "coll a b < 0 \<Longrightarrow> 0 \<le> coll b a" for a b using gt [of b a] by simp
  have eq: "coll a b = 0 \<Longrightarrow> coll b a = 0" for a b using s [of a b] by (auto simp: sgn_if split: if_splits)
  show "sgn (kind_compare coll str k y x) = - sgn (kind_compare coll str k x y)"
    by (cases k; cases x; cases y)
      (auto simp: kind_compare_def norm_value_def compareSortValues_def is_empty_value_def sgn_if gt not_less dest: eq lt)
  assume "kind_compare coll str k x y \<le> 0" "kind_compare coll str k y z \<le> 0"
  then show "kind_compare coll str k x z \<le> 0"
    by (cases k; cases x; cases y; cases z)
      (auto simp: kind_compare_def norm_value_def compareSortValues_def is_empty_value_def split: if_splits intro: t)
qed


definition column_ok :: "column_kind \<Rightarrow> ('r \<Rightarrow> sort_value) \<Rightarrow> 'r list \<Rightarrow> bool" where
  "column_ok k fn rows \<longleftrightarrow> list_all (\<lambda>r. of_kind k (fn r)) rows"

lemma sort_column:
  "column_ok k fn rows \<Longrightarrow>
     js_sort (cmp_on fn (compareSortValues coll str)) rows = js_sort (cmp_on fn (kind_compare coll str k)) rows"
  by (intro js_sort_cong) (simp add: column_ok_def list_all_iff cmp_on_def kind_compare_def norm_value_def)

lemma empties_last:
  assumes "js_comparator coll" "column_ok k fn rows"
  shows "let out = js_sort (cmp_on fn (compareSortValues coll str)) rows in
     \<exists>a b. out = a @ b \<and> list_all (\<lambda>r. \<not> is_empty_value (fn r)) a \<and> list_all (\<lambda>r. is_empty_value (fn r)) b
       \<and> sorted_wrt (\<lambda>x y. compareSortValues coll str (fn x) (fn y) \<le> 0) out"
proof -
  let ?c = "cmp_on fn (kind_compare coll str k)"
  let ?out = "js_sort (cmp_on fn (compareSortValues coll str)) rows"
  have o: "?out = js_sort ?c rows" by (rule sort_column [OF assms(2)])
  have k: "of_kind k (fn r)" if "r \<in> set ?out" for r
    using that assms(2) by (simp add: column_ok_def list_all_iff)
  have "sorted_wrt (\<lambda>x y. ?c x y \<le> 0) ?out"
    unfolding o by (intro js_sort_sorted js_comparator_on js_comparator_kind assms(1))
  then have sorted: "sorted_wrt (\<lambda>x y. compareSortValues coll str (fn x) (fn y) \<le> 0) ?out"
    by (rule sorted_wrt_mono_rel [rotated]) (simp add: k cmp_on_def kind_compare_def norm_value_def)
  have split: "\<exists>a b. xs = a @ b \<and> list_all (\<lambda>r. \<not> is_empty_value (fn r)) a \<and> list_all (\<lambda>r. is_empty_value (fn r)) b"
    if "sorted_wrt (\<lambda>x y. compareSortValues coll str (fn x) (fn y) \<le> 0) xs" for xs
    using that
  proof (induction xs)
    case (Cons x xs)
    show ?case
    proof (cases "is_empty_value (fn x)")
      case True
      then have "list_all (\<lambda>r. is_empty_value (fn r)) (x # xs)"
        using Cons.prems by (auto simp: list_all_iff compareSortValues_def split: if_splits)
      then show ?thesis by (intro exI [of _ "[]"] exI [of _ "x # xs"]) simp
    next
      case False
      obtain a b where "xs = a @ b \<and> list_all (\<lambda>r. \<not> is_empty_value (fn r)) a \<and> list_all (\<lambda>r. is_empty_value (fn r)) b"
        using Cons by auto
      with False show ?thesis by (intro exI [of _ "x # a"] exI [of _ b]) simp
    qed
  qed simp
  from split [OF sorted] sorted show ?thesis by (auto simp: Let_def)
qed

text \<open>Clicking a header three times gives the rows back in the caller's order. In between, the
  first click gives a rearrangement of the rows, sorted by the column's own comparison with
  the rows whose cell is empty at the bottom, and the second click gives exactly its reverse.\<close>

theorem three_clicks:
  assumes "js_comparator coll" "keyFns key = Some fn" "column_ok k fn rows"
  shows "let once = toggleSort key None; twice = toggleSort key once; out = sortedRows coll str keyFns once rows in
     toggleSort key twice = None \<and> sortedRows coll str keyFns None rows = rows
     \<and> mset out = mset rows \<and> sortedRows coll str keyFns twice rows = rev out
     \<and> (\<exists>a b. out = a @ b \<and> list_all (\<lambda>r. \<not> is_empty_value (fn r)) a \<and> list_all (\<lambda>r. is_empty_value (fn r)) b)
     \<and> sorted_wrt (\<lambda>x y. compareSortValues coll str (fn x) (fn y) \<le> 0) out"
  using empties_last [OF assms(1,3), of str] assms(2)
  by (auto simp: toggleSort_def sortedRows_def Let_def)

definition demo_cells :: "jstring list" where
  "demo_cells = [js ''b'', [], js ''a'']"

lemma three_clicks_ex:
  "let keyFns = (\<lambda>_. Some VStr); once = toggleSort True None; out = sortedRows unit_compare (\<lambda>_. []) keyFns once demo_cells in
     mset out = mset demo_cells \<and> sortedRows unit_compare (\<lambda>_. []) keyFns (toggleSort True once) demo_cells = rev out"
proof -
  have "column_ok CStr VStr demo_cells" by (simp add: column_ok_def list_all_iff)
  from three_clicks [OF units.js_comparator_axioms, of "\<lambda>_. Some VStr" True VStr CStr demo_cells "\<lambda>_. []", OF refl this]
  show ?thesis by (auto simp: Let_def)
qed

text \<open>
  The comment says empty cells sort to the bottom whatever the direction; the descending order is
  the reverse of the ascending one, so they come first.
\<close>

lemma descending_puts_empties_first:
  "sortedRows unit_compare (\<lambda>v. case v of VStr s \<Rightarrow> s | _ \<Rightarrow> []) (\<lambda>_. Some VStr) (Some ((), Desc)) demo_cells
     = [[], js ''b'', js ''a'']"
  by code_simp

section \<open>Which columns\<close>

record column_layout =
  cl_order :: "jstring list"
  cl_hidden :: "jstring list"

record layout_sources =
  ls_session :: "column_layout option"
  ls_cols :: "jstring option"
  ls_saved :: "column_layout option"
  ls_legacy :: "jstring option"
  ls_default :: "jstring list"

definition id_list :: "jstring \<Rightarrow> jstring list" where
  "id_list raw = filter (\<lambda>i. i \<noteq> []) (split_on (cu CHR '','') raw)"

definition resolveColumnOrder :: "layout_sources \<Rightarrow> jstring list" where
  "resolveColumnOrder s =
     (let base = filter (\<lambda>i. i \<in> set (ls_default s))
        (case ls_session s of
           Some l \<Rightarrow> cl_order l
         | None \<Rightarrow> (case ls_cols s of
             Some raw \<Rightarrow> id_list raw
           | None \<Rightarrow> (case ls_saved s of None \<Rightarrow> [] | Some l \<Rightarrow> cl_order l)))
      in base @ filter (\<lambda>i. i \<notin> set base) (ls_default s))"

definition hidden_by_list :: "layout_sources \<Rightarrow> jstring \<Rightarrow> jstring list" where
  "hidden_by_list s raw = filter (\<lambda>i. i \<notin> set (id_list raw)) (ls_default s)"

definition resolveHiddenColumns :: "layout_sources \<Rightarrow> jstring list" where
  "resolveHiddenColumns s =
     (case ls_session s of
        Some l \<Rightarrow> filter (\<lambda>i. i \<in> set (ls_default s)) (cl_hidden l)
      | None \<Rightarrow> (case ls_cols s of
          Some raw \<Rightarrow> hidden_by_list s raw
        | None \<Rightarrow> (case ls_saved s of
            Some l \<Rightarrow> filter (\<lambda>i. i \<in> set (ls_default s)) (cl_hidden l)
          | None \<Rightarrow> (case ls_legacy s of Some raw \<Rightarrow> hidden_by_list s raw | None \<Rightarrow> []))))"

text \<open>What the table shows.\<close>

definition visible_columns :: "layout_sources \<Rightarrow> jstring list" where
  "visible_columns s = filter (\<lambda>i. i \<notin> set (resolveHiddenColumns s)) (resolveColumnOrder s)"

lemma set_resolveColumnOrder: "set (resolveColumnOrder s) = set (ls_default s)"
  by (auto simp: resolveColumnOrder_def Let_def)

lemma resolveHiddenColumns_known: "set (resolveHiddenColumns s) \<subseteq> set (ls_default s)"
  by (auto simp: resolveHiddenColumns_def hidden_by_list_def split: option.splits)

text \<open>Whatever the reader, the link, the saved layout and the old browser value say, every column
  that exists is in the order and no other, only existing columns are hidden, and a link opened
  by a reader who has not touched the picker shows exactly the existing columns it lists, in
  the order it lists them.\<close>

theorem columns_resolve:
  "set (resolveColumnOrder s) = set (ls_default s) \<and> set (resolveHiddenColumns s) \<subseteq> set (ls_default s)
   \<and> (case (ls_session s, ls_cols s) of
        (None, Some raw) \<Rightarrow> visible_columns s = filter (\<lambda>i. i \<in> set (ls_default s)) (id_list raw)
      | _ \<Rightarrow> True)"
proof -
  have "visible_columns s = filter (\<lambda>i. i \<in> set (ls_default s)) (id_list raw)"
    if "ls_session s = None" "ls_cols s = Some raw" for raw
  proof -
    let ?b = "filter (\<lambda>i. i \<in> set (ls_default s)) (id_list raw)"
    have "visible_columns s = filter (\<lambda>i. i \<notin> set (hidden_by_list s raw)) ?b
        @ filter (\<lambda>i. i \<notin> set (hidden_by_list s raw)) (filter (\<lambda>i. i \<notin> set ?b) (ls_default s))"
      using that by (simp add: visible_columns_def resolveHiddenColumns_def resolveColumnOrder_def Let_def)
    moreover have "filter (\<lambda>i. i \<notin> set (hidden_by_list s raw)) ?b = ?b"
      by (rule filter_True) (auto simp: hidden_by_list_def)
    moreover have "filter (\<lambda>i. i \<notin> set (hidden_by_list s raw)) (filter (\<lambda>i. i \<notin> set ?b) (ls_default s)) = []"
      by (auto simp: filter_empty_conv hidden_by_list_def)
    ultimately show ?thesis by simp
  qed
  then show ?thesis using set_resolveColumnOrder resolveHiddenColumns_known
    by (cases "ls_session s"; cases "ls_cols s") auto
qed

text \<open>A column listed twice in a link is shown twice.\<close>

lemma listed_twice:
  "visible_columns \<lparr>ls_session = None, ls_cols = Some (js ''a,a''), ls_saved = None, ls_legacy = None,
     ls_default = [js ''a'', js ''b'']\<rparr> = [js ''a'', js ''a'']"
  by code_simp

section \<open>Attribute chips\<close>

record facet =
  fc_slug :: jstring
  fc_keys :: "jstring list option"

record key_cache =
  kc_keys :: "jstring list"
  kc_bySlug :: "(jstring \<times> jstring list) list"

definition key_cache_of :: "facet list option \<Rightarrow> key_cache" where
  "key_cache_of facets =
     (let fs = coalesce facets [] in
      \<lparr>kc_keys = dedupe (concat (map (\<lambda>t. coalesce (fc_keys t) []) fs)),
       kc_bySlug = map_of_entries fc_slug (\<lambda>t. coalesce (fc_keys t) []) fs\<rparr>)"

definition pickKeyEntries :: "(jstring \<times> jstring) list option \<Rightarrow> jstring list \<Rightarrow> (jstring \<times> jstring) list" where
  "pickKeyEntries attributes keys =
     (case attributes of
        None \<Rightarrow> []
      | Some as \<Rightarrow> List.map_filter (\<lambda>k. case map_of as k of None \<Rightarrow> None | Some v \<Rightarrow> if v = [] then None else Some (k, v)) keys)"

lemma pickKeyEntries_keys: "subseq (map fst (pickKeyEntries attributes keys)) keys"
proof (cases attributes)
  case (Some as)
  show ?thesis unfolding Some
    by (induction keys) (auto simp: pickKeyEntries_def List.map_filter_simps split: option.splits)
qed (simp add: pickKeyEntries_def)

section \<open>The caret\<close>

text \<open>The loop over the text before the caret, with \<open>inString\<close>.\<close>

fun caret_loop :: "bool \<Rightarrow> jstring \<Rightarrow> bool" where
  "caret_loop inString [] = inString"
| "caret_loop inString (c # cs) =
     (if c = 92 then (case cs of [] \<Rightarrow> inString | _ # ds \<Rightarrow> caret_loop inString ds)
      else if c = 34 then caret_loop (\<not> inString) cs else caret_loop inString cs)"

definition caretIsInJSONString :: "jstring \<Rightarrow> bool" where
  "caretIsInJSONString head = caret_loop False head"

text \<open>What a JSON string literal looks like, and text without quotes and backslashes between literals.\<close>

fun string_body :: "jstring \<Rightarrow> bool" where
  "string_body [] = True"
| "string_body (c # cs) = (if c = 92 then (case cs of [] \<Rightarrow> False | _ # ds \<Rightarrow> string_body ds) else c \<noteq> 34 \<and> string_body cs)"

definition between_strings :: "jstring \<Rightarrow> bool" where
  "between_strings s \<longleftrightarrow> list_all (\<lambda>c. c \<noteq> 34 \<and> c \<noteq> 92) s"

lemma caret_between: "between_strings s \<Longrightarrow> caret_loop b (s @ r) = caret_loop b r"
  by (induction s) (auto simp: between_strings_def)

lemma caret_body: "string_body s \<Longrightarrow> caret_loop b (s @ r) = caret_loop b r"
proof (induction s rule: string_body.induct)
  case (2 c cs)
  then show ?case by (cases cs) (auto split: if_splits)
qed simp

lemma caret_after_literals:
  assumes "list_all (\<lambda>(t, body). between_strings t \<and> string_body body) lits"
  shows "caret_loop b (concat (map (\<lambda>(t, body). t @ [34] @ body @ [34]) lits) @ r) = caret_loop b r"
  using assms by (induction lits) (auto simp: caret_between caret_body)

text \<open>After any number of complete string literals: outside in plain text, inside once a literal is open.\<close>

lemma caret_inside_iff:
  assumes "list_all (\<lambda>(t, body). between_strings t \<and> string_body body) lits" "between_strings t" "string_body body"
  shows "caretIsInJSONString (concat (map (\<lambda>(t, body). t @ [34] @ body @ [34]) lits) @ t) = False"
    and "caretIsInJSONString (concat (map (\<lambda>(t, body). t @ [34] @ body @ [34]) lits) @ t @ [34] @ body) = True"
  using caret_after_literals [OF assms(1), of False t] caret_after_literals [OF assms(1), of False "t @ [34] @ body"]
    caret_between [OF assms(2), of False "[]"] caret_between [OF assms(2), of False "34 # body"] caret_body [OF assms(3), of True "[]"]
  by (simp_all add: caretIsInJSONString_def)

end
