(* ===== verification/Liquid.thy ===== *)
theory Liquid
  imports Collections
begin

text \<open>
  \<open>lib/liquidVars.ts\<close>: the check of a Liquid template's variable references against the schema.
  Each regular expression of the file is a matcher that returns what it captured and the rest of
  the text; \<open>match_all\<close> is \<open>matchAll\<close>: leftmost matches, going on after each.
\<close>

section \<open>The expressions\<close>

definition ident_start :: "nat \<Rightarrow> bool" where
  "ident_start c \<longleftrightarrow> is_lower c \<or> is_upper c \<or> c = 95"

definition line_terminator :: "nat \<Rightarrow> bool" where
  "line_terminator c \<longleftrightarrow> c = 10 \<or> c = 13 \<or> c = 0x2028 \<or> c = 0x2029"

definition strip_prefix_of :: "jstring \<Rightarrow> jstring \<Rightarrow> jstring option" where
  "strip_prefix_of p s = (if starts_with s p then Some (drop (length p) s) else None)"

definition opt_dash :: "jstring \<Rightarrow> jstring" where
  "opt_dash s = (case s of c # t \<Rightarrow> if c = cu CHR ''-'' then t else s | [] \<Rightarrow> [])"

definition spaces1 :: "jstring \<Rightarrow> jstring option" where
  "spaces1 s = (case s of c # t \<Rightarrow> if is_space c then Some (dropWhile is_space t) else None | [] \<Rightarrow> None)"

definition match_ident :: "jstring \<Rightarrow> (jstring \<times> jstring) option" where
  "match_ident s = (case s of c # t \<Rightarrow> if ident_start c then Some (takeWhile is_word s, dropWhile is_word s) else None | [] \<Rightarrow> None)"

text \<open>\<open>{%-?\s*<word>\s+<ident>\<close> and what must follow each.\<close>

definition match_tag :: "string \<Rightarrow> jstring \<Rightarrow> jstring option" where
  "match_tag word s =
     Option.bind (strip_prefix_of (js ''{%'') s) (\<lambda>r. strip_prefix_of (js word) (dropWhile is_space (opt_dash r)))"

definition match_binding :: "string \<Rightarrow> (jstring \<Rightarrow> jstring option) \<Rightarrow> jstring \<Rightarrow> (jstring \<times> jstring) option" where
  "match_binding word close s =
     Option.bind (match_tag word s) (\<lambda>r. Option.bind (spaces1 r) (\<lambda>r. Option.bind (match_ident r)
       (\<lambda>(name, r). map_option (\<lambda>r. (name, r)) (close r))))"

definition after_for :: "jstring \<Rightarrow> jstring option" where
  "after_for r = Option.bind (spaces1 r) (\<lambda>r. Option.bind (strip_prefix_of (js ''in'') r)
     (\<lambda>r. case r of c # t \<Rightarrow> if is_space c then Some t else None | [] \<Rightarrow> None))"

definition after_assign :: "jstring \<Rightarrow> jstring option" where
  "after_assign r = strip_prefix_of (js ''='') (dropWhile is_space r)"

definition after_capture :: "jstring \<Rightarrow> jstring option" where
  "after_capture r = strip_prefix_of (js ''%}'') (opt_dash (dropWhile is_space r))"

text \<open>\<open>(.*?)-?\<close> up to the closing text, on one line.\<close>

fun lazy_until :: "jstring \<Rightarrow> jstring \<Rightarrow> (jstring \<times> jstring) option" where
  "lazy_until close s =
     (if starts_with s (js ''-'' @ close) then Some ([], drop (Suc (length close)) s)
      else if starts_with s close then Some ([], drop (length close) s)
      else (case s of
          [] \<Rightarrow> None
        | c # t \<Rightarrow> if line_terminator c then None else map_option (\<lambda>(x, r). (c # x, r)) (lazy_until close t)))"

declare lazy_until.simps [simp del]

definition match_output :: "jstring \<Rightarrow> (jstring \<times> jstring) option" where
  "match_output s = Option.bind (strip_prefix_of (js ''{{'') s) (\<lambda>r. lazy_until (js ''}}'') (opt_dash r))"

definition match_condition :: "jstring \<Rightarrow> (jstring \<times> jstring) option" where
  "match_condition s =
     Option.bind (case match_tag ''if'' s of Some r \<Rightarrow> Some r
        | None \<Rightarrow> (case match_tag ''unless'' s of Some r \<Rightarrow> Some r | None \<Rightarrow> match_tag ''elsif'' s))
       (\<lambda>r. Option.bind (spaces1 r) (lazy_until (js ''%}'')))"

function path_tail :: "jstring \<Rightarrow> jstring \<times> jstring" where
  "path_tail s =
     (case s of
        c # d # t \<Rightarrow>
          if c = cu CHR ''.'' \<and> ident_start d
          then (let w = takeWhile is_word (d # t); (p, r) = path_tail (dropWhile is_word (d # t)) in (c # w @ p, r))
          else ([], s)
      | _ \<Rightarrow> ([], s))"
  by pat_completeness auto
termination
  by (relation "measure length") (auto simp: le_imp_less_Suc length_dropWhile_le le_SucI)

definition match_path :: "jstring \<Rightarrow> (jstring \<times> jstring) option" where
  "match_path s = map_option (\<lambda>(w, r). let (p, r') = path_tail r in (w @ p, r')) (match_ident s)"

function match_all :: "(jstring \<Rightarrow> ('a \<times> jstring) option) \<Rightarrow> jstring \<Rightarrow> 'a list" where
  "match_all m [] = []"
| "match_all m (c # cs) =
     (case m (c # cs) of
        None \<Rightarrow> match_all m cs
      | Some (x, rest) \<Rightarrow> x # match_all m (if length rest \<le> length cs then rest else cs))"
  by pat_completeness auto
termination
  by (relation "measure (\<lambda>(m, s). length s)") (auto split: if_splits)

text \<open>\<open>replace(/q[^q]*q/g, "")\<close>.\<close>

function remove_quoted :: "nat \<Rightarrow> jstring \<Rightarrow> jstring" where
  "remove_quoted q [] = []"
| "remove_quoted q (c # cs) =
     (if c = q then (case dropWhile (\<lambda>x. x \<noteq> q) cs of [] \<Rightarrow> c # cs | _ # rest \<Rightarrow> remove_quoted q rest)
      else c # remove_quoted q cs)"
  by pat_completeness auto
termination
proof (relation "measure (\<lambda>(q, s). length s)", goal_cases)
  case (2 q c cs x rest)
  have "length (dropWhile (\<lambda>x. x \<noteq> q) cs) \<le> length cs" by (rule length_dropWhile_le)
  with 2 show ?case by simp
qed auto

section \<open>The check\<close>

record unknown_variable =
  uv_path :: jstring
  uv_line :: nat
  uv_suggestion :: "jstring option"

definition BUILTIN_NAMES :: "jstring list" where
  "BUILTIN_NAMES = map js [''forloop'', ''tablerowloop'', ''blank'', ''empty'', ''nil'', ''null'', ''true'', ''false'']"

definition LIQUID_WORDS :: "jstring list" where
  "LIQUID_WORDS = map js [''and'', ''or'', ''not'', ''contains'', ''in'']"

definition locallyBound :: "jstring \<Rightarrow> jstring list" where
  "locallyBound template =
     match_all (match_binding ''for'' after_for) template
       @ match_all (match_binding ''assign'' after_assign) template
       @ match_all (match_binding ''capture'' after_capture) template"

definition path_root :: "jstring \<Rightarrow> jstring" where
  "path_root p = hd (split_on (cu CHR ''.'') p)"

definition wildcardPrefixes :: "jstring list \<Rightarrow> jstring list" where
  "wildcardPrefixes knownPaths = map (\<lambda>p. take (length p - 5) p) (filter (\<lambda>p. ends_with p (js ''.<key>'')) knownPaths)"

definition containerPaths :: "jstring list \<Rightarrow> jstring list" where
  "containerPaths knownPaths =
     concat (map (\<lambda>p. let segs = split_on (cu CHR ''.'') p in map (\<lambda>i. join (js ''.'') (take i segs)) [1..<length segs]) knownPaths)"

definition accepted_path :: "jstring list \<Rightarrow> jstring list \<Rightarrow> jstring \<Rightarrow> bool" where
  "accepted_path knownPaths bound path \<longleftrightarrow>
     path_root path \<in> set BUILTIN_NAMES \<or> path_root path \<in> set bound
     \<or> path \<in> set LIQUID_WORDS
     \<or> path \<in> set knownPaths \<or> path \<in> set (containerPaths knownPaths)
     \<or> list_ex (\<lambda>pre. starts_with path pre) (wildcardPrefixes knownPaths)"

text \<open>The expressions of a line and the paths they reference.\<close>

definition line_exprs :: "jstring \<Rightarrow> jstring list" where
  "line_exprs t = match_all match_output t @ match_all match_condition t"

definition expr_paths :: "jstring \<Rightarrow> jstring list" where
  "expr_paths expr =
     (let head = hd (split_on (cu CHR ''|'') expr);
          cleaned = remove_quoted 34 (remove_quoted 39 head)
      in match_all match_path cleaned)"

definition line_paths :: "jstring \<Rightarrow> jstring list" where
  "line_paths t = concat (map expr_paths (line_exprs t))"

fun common_len :: "jstring \<Rightarrow> jstring \<Rightarrow> nat" where
  "common_len (a # as) (b # bs) = (if a = b then Suc (common_len as bs) else 0)"
| "common_len _ _ = 0"

definition closest_step :: "jstring \<Rightarrow> jstring \<times> int \<Rightarrow> jstring \<Rightarrow> jstring \<times> int" where
  "closest_step path st c = (if int (common_len c path) > snd st then (c, int (common_len c path)) else st)"

definition closestKnown :: "jstring \<Rightarrow> jstring list \<Rightarrow> jstring option" where
  "closestKnown path knownPaths =
     (let root = path_root path; candidates = filter (\<lambda>p. path_root p = root) knownPaths in
      if candidates = [] then None
      else Some (fst (foldl (closest_step path) (hd candidates, -1) candidates)))"

definition unknownVariables :: "jstring \<Rightarrow> jstring list \<Rightarrow> unknown_variable list" where
  "unknownVariables template knownPaths =
     (if trim template = [] \<or> knownPaths = [] then []
      else let bound = locallyBound template;
               lines = split_on 10 template;
               refs = concat (map (\<lambda>(idx, t). map (\<lambda>p. (p, idx)) (line_paths t)) (zip [0..<length lines] lines))
           in map (\<lambda>(path, idx). \<lparr>uv_path = path, uv_line = idx + 1,
                uv_suggestion = (if path_root path \<in> set (map path_root knownPaths) then closestKnown path knownPaths else None)\<rparr>)
              (dedupe (filter (\<lambda>(path, idx). \<not> accepted_path knownPaths bound path) refs)))"

section \<open>What is reported\<close>

lemma closest_fold:
  "(\<forall>c \<in> set cs. int (common_len c path) \<le> snd (foldl (closest_step path) st cs))
     \<and> snd st \<le> snd (foldl (closest_step path) st cs)
     \<and> (foldl (closest_step path) st cs = st
        \<or> (fst (foldl (closest_step path) st cs) \<in> set cs
           \<and> snd (foldl (closest_step path) st cs) = int (common_len (fst (foldl (closest_step path) st cs)) path)))"
proof (induction cs arbitrary: st)
  case (Cons c cs)
  let ?st = "closest_step path st c"
  have st: "snd st \<le> snd ?st" "int (common_len c path) \<le> snd ?st"
    "?st = st \<or> (fst ?st = c \<and> snd ?st = int (common_len (fst ?st) path))"
    by (auto simp: closest_step_def)
  show ?case unfolding foldl_Cons using Cons.IH [of ?st] st by (elim conjE disjE) (simp_all, (force+)?)
qed simp

lemma closestKnown_best:
  assumes "closestKnown path knownPaths = Some s"
  shows "s \<in> set knownPaths \<and> path_root s = path_root path
    \<and> list_all (\<lambda>p. path_root p \<noteq> path_root path \<or> common_len p path \<le> common_len s path) knownPaths"
proof -
  let ?cs = "filter (\<lambda>p. path_root p = path_root path) knownPaths"
  let ?f = "foldl (closest_step path) (hd ?cs, -1) ?cs"
  have ne: "?cs \<noteq> []" and s: "s = fst ?f" using assms by (auto simp: closestKnown_def Let_def split: if_splits)
  have hd: "hd ?cs \<in> set ?cs" using ne by (rule hd_in_set)
  from closest_fold [of ?cs path "(hd ?cs, -1)"] hd
  have le: "\<forall>c \<in> set ?cs. int (common_len c path) \<le> snd ?f" and ne1: "?f \<noteq> (hd ?cs, -1)"
    by (auto dest: bspec [OF _ hd])
  with closest_fold [of ?cs path "(hd ?cs, -1)"] have f: "fst ?f \<in> set ?cs" "snd ?f = int (common_len (fst ?f) path)" by auto
  from f(1) le show ?thesis unfolding s f(2) by (auto simp: list_all_iff)
qed

lemma zip_upt_map: "(i, x) \<in> set (zip [0..<length xs] xs) \<longleftrightarrow> i < length xs \<and> x = xs ! i"
  using in_set_enumerate_eq [of "(i, x)" 0 xs] by (auto simp: enumerate_eq_zip)


definition demo_paths :: "jstring list" where
  "demo_paths = map js [''alert.severity'', ''alert.summary'', ''service.metadata.<key>'']"


text \<open>The whole check on a template with a loop, a default and a typo.\<close>

lemma unknown_variables_run:
  "map (\<lambda>u. (uv_path u, uv_line u, uv_suggestion u))
     (unknownVariables (js ''{% for kv in service.metadata %}{{ kv.key }}{{ alert.severty }}{% endfor %}'') demo_paths)
   = [(js ''alert.severty'', 1, Some (js ''alert.severity''))]"
  by code_simp

text \<open>
  A bar inside a string literal cuts the expression before the literal is removed, so the text in
  front of the bar is reported as a variable.
\<close>

lemma bar_in_literal_is_a_false_alarm:
  "map uv_path (unknownVariables (js ''{% if alert.summary == \"a|b\" %}x{% endif %}'') demo_paths) = [js ''a'']"
  by code_simp

end
