(* ===== verification/Rules.thy ===== *)
theory Rules
  imports Uri Collections JsSort
begin

text \<open>
  Alert rules (health checks) on the wire: the interfaces of \<open>api/types.ts\<close>, and what the cell API
  makes of a request that writes one.  \<open>PUT /alert-rules/{id}\<close> replaces the whole rule: the
  handler builds a rule from the request alone (\<open>buildRule\<close> of
  \<open>services/cell-api/internal/api/handlers_alerts.go\<close>) and the store writes every column of it, so a
  field the browser leaves out is cleared.  The editors of \<open>RuleEditors\<close> are judged against this.

  A rule is what the API returns: the fields with \<open>omitempty\<close> are options that are never
  \<open>Some\<close> of the empty value.  \<open>organization_id\<close>, the evaluation interval and the timestamps are
  left out, no request carries them.  Parsing a UUID, a template and a Go duration is
  a parameter (\<open>cell_api\<close>); an error is one constructor per refusal of the handler.
\<close>

section \<open>Wire types\<close>

record rule_attr =
  ra_key :: jstring
  ra_op :: jstring
  ra_value :: jstring

record metric_spec =
  ms_metric :: jstring
  ms_aggregation :: jstring
  ms_operator :: jstring
  ms_threshold :: rat
  ms_window :: jstring
  ms_attrs :: "rule_attr list option"
  ms_split :: "jstring option"
  ms_no_data :: "bool option"

record log_spec =
  lg_min :: int
  lg_body :: jstring
  lg_attrs :: "rule_attr list option"
  lg_threshold :: int
  lg_window :: int
  lg_comparison :: "jstring option"

record trace_error_spec =
  te_threshold :: int
  te_window :: int
  te_attrs :: "rule_attr list option"

record trace_latency_spec =
  tl_threshold :: int
  tl_window :: int
  tl_aggregation :: jstring

record trace_volume_spec =
  tv_threshold :: int
  tv_window :: int

record trace_attribute_spec =
  ta_threshold :: int
  ta_window :: int
  ta_attrs :: "rule_attr list"

record notification_content =
  nc_service :: "bool option"
  nc_integration :: "bool option"
  nc_service_metadata :: "bool option"
  nc_integration_metadata :: "bool option"
  nc_check :: "bool option"
  nc_email_subject :: "jstring option"
  nc_email_body :: "jstring option"
  nc_slack_title :: "jstring option"
  nc_slack_body :: "jstring option"

record alert_rule =
  al_id :: jstring
  al_env_mode :: jstring
  al_envs :: "jstring list"
  al_integration :: "jstring option"
  al_system :: "jstring option"
  al_service :: "jstring option"
  al_group :: "jstring option"
  al_name :: jstring
  al_description :: jstring
  al_runbook :: "jstring option"
  al_signal :: jstring
  al_spec :: metric_spec
  al_log :: "log_spec option"
  al_terr :: "trace_error_spec option"
  al_tlat :: "trace_latency_spec option"
  al_tvol :: "trace_volume_spec option"
  al_tattr :: "trace_attribute_spec option"
  al_severity :: jstring
  al_enabled :: bool
  al_source :: jstring
  al_display :: bool
  al_unit :: "jstring option"
  al_resolve :: jstring
  al_channels :: "jstring list"
  al_title :: "jstring option"
  al_body :: "jstring option"
  al_notif :: "notification_content option"

record rule_input =
  ri_name :: jstring
  ri_description :: "jstring option"
  ri_severity :: jstring
  ri_enabled :: "bool option"
  ri_channels :: "jstring list"
  ri_signal :: "jstring option"
  ri_spec :: "metric_spec option"
  ri_log :: "log_spec option"
  ri_terr :: "trace_error_spec option"
  ri_tlat :: "trace_latency_spec option"
  ri_tvol :: "trace_volume_spec option"
  ri_tattr :: "trace_attribute_spec option"
  ri_service :: "jstring option"
  ri_integration :: "jstring option"
  ri_system :: "jstring option"
  ri_group :: "jstring option"
  ri_runbook :: "jstring option"
  ri_title :: "jstring option"
  ri_body :: "jstring option"
  ri_notif :: "notification_content option"
  ri_source :: "jstring option"
  ri_display :: "bool option"
  ri_unit :: "jstring option"
  ri_resolve :: "jstring option"
  ri_env_mode :: "jstring option"
  ri_envs :: "jstring list option"

text \<open>The request that carries nothing but a name, a severity and the channels; every writer is an
  update of it.\<close>

definition bare_input :: "jstring \<Rightarrow> jstring \<Rightarrow> jstring list \<Rightarrow> rule_input" where
  "bare_input name severity channels =
     \<lparr>ri_name = name, ri_description = None, ri_severity = severity, ri_enabled = None, ri_channels = channels,
      ri_signal = None, ri_spec = None, ri_log = None, ri_terr = None, ri_tlat = None, ri_tvol = None,
      ri_tattr = None, ri_service = None, ri_integration = None, ri_system = None, ri_group = None,
      ri_runbook = None, ri_title = None, ri_body = None, ri_notif = None, ri_source = None,
      ri_display = None, ri_unit = None, ri_resolve = None, ri_env_mode = None, ri_envs = None\<rparr>"

section \<open>Go strings and JSON\<close>

text \<open>\<open>unicode.IsSpace\<close>, which \<open>strings.TrimSpace\<close> removes: JavaScript's white space with NEL and
  without the byte order mark.\<close>

definition go_space :: "nat \<Rightarrow> bool" where
  "go_space c \<longleftrightarrow> c \<noteq> 0xFEFF \<and> (c = 0x85 \<or> is_space c)"

definition go_trim :: "jstring \<Rightarrow> jstring" where
  "go_trim s = rev (dropWhile go_space (rev (dropWhile go_space s)))"

text \<open>An absent string field reads as the empty string, and an empty one is not written back.\<close>

definition go_str :: "jstring option \<Rightarrow> jstring" where
  "go_str v = go_trim (coalesce v [])"

definition omit_empty :: "'a list \<Rightarrow> 'a list option" where
  "omit_empty xs = (if xs = [] then None else Some xs)"

text \<open>\<open>len(e)\<close> of a Go string: the bytes of its UTF-8 form.  A lone surrogate arrives as U+FFFD.\<close>

fun byte_length :: "jstring \<Rightarrow> nat" where
  "byte_length [] = 0"
| "byte_length (c # d # r) =
     (if high_surrogate c \<and> low_surrogate d then 4 + byte_length r
      else (if c < 0x80 then 1 else if c < 0x800 then 2 else 3) + byte_length (d # r))"
| "byte_length [c] = (if c < 0x80 then 1 else if c < 0x800 then 2 else 3)"

text \<open>\<open>sort.Strings\<close> compares bytes, that is code points: the surrogates above the other units.\<close>

definition code_point_weight :: "nat \<Rightarrow> nat" where
  "code_point_weight u =
     (if 0xE000 \<le> u then u - 0x800 else if 0xD800 \<le> u then u + 0x2000 else u)"

definition go_compare :: "jstring \<Rightarrow> jstring \<Rightarrow> int" where
  "go_compare = cmp_on (map code_point_weight) unit_compare"

section \<open>The handler\<close>

text \<open>What the handler takes from libraries: \<open>uuid.Parse\<close> (with the canonical form it prints),
  \<open>ValidateTemplate\<close>, \<open>ValidateLiquid\<close> and \<open>time.ParseDuration\<close>, each as accepted or not.\<close>

record cell_api =
  sv_uuid :: "jstring \<Rightarrow> jstring option"
  sv_template :: "jstring \<Rightarrow> bool"
  sv_liquid :: "jstring \<Rightarrow> bool"
  sv_duration :: "jstring \<Rightarrow> bool"

datatype rule_error =
    NameRequired | InvalidSeverity | InvalidChannel jstring | InvalidIntegration | InvalidSystem
  | SystemOrIntegration | SystemOrService | InvalidGroup | InvalidTitle | InvalidBody
  | InvalidEmailSubject | InvalidEmailBody | InvalidSource | InvalidResolveMode
  | OnlyOnIntegration | EnvironmentTooLong | NoEnvironment | InvalidEnvironmentMode
  | PushedNeedsService | InvalidOperator | MetricNameRequired | InvalidAggregation | InvalidWindow
  | InvalidAttrKey jstring | InvalidAttrOp jstring | InvalidSplit jstring | OnlyMetricPushed
  | LogSpecRequired | InvalidComparison | LogWindowRange | NoLogCriterion | TraceUnbound
  | LatencyThreshold | VolumeThreshold | VolumeWindow | AttributeThreshold | AttributeWindow
  | NoAttributes | ErrorThreshold | TraceSpecRequired | InvalidSignal

definition ALERT_SEVERITIES :: "jstring list" where
  "ALERT_SEVERITIES = map js [''info'', ''warning'', ''critical'']"

definition ALERT_OPERATORS :: "jstring list" where
  "ALERT_OPERATORS = map js [''gt'', ''gte'', ''lt'', ''lte'', ''eq'', ''neq'']"

definition RULE_AGGREGATIONS :: "jstring list" where
  "RULE_AGGREGATIONS =
     map js [''max'', ''avg'', ''min'', ''sum'', ''p95'', ''last'', ''increase'', ''rate'', ''age'']"

definition RULE_ATTR_OPS :: "jstring list" where
  "RULE_ATTR_OPS = map js [''eq'', ''neq'', ''contains'', ''not_contains'', ''starts_with'', ''ends_with'',
     ''matches'', ''exists'', ''not_exists'', ''gt'', ''gte'', ''lt'', ''lte'']"

definition MaxCheckWindowSeconds :: int where "MaxCheckWindowSeconds = 45 * 24 * 60 * 60"

definition attr_key_start :: "nat \<Rightarrow> bool" where
  "attr_key_start c \<longleftrightarrow> is_digit c \<or> is_lower c \<or> is_upper c"

definition attr_key_ok :: "jstring \<Rightarrow> bool" where
  "attr_key_ok s \<longleftrightarrow> s \<noteq> [] \<and> attr_key_start (hd s) \<and> length s \<le> 128
     \<and> list_all (\<lambda>c. attr_key_start c \<or> c \<in> set (js ''._:/-'')) (tl s)"

text \<open>The attribute predicates of any spec: keys are trimmed in place, the first bad one refuses.\<close>

definition trim_attr :: "rule_attr \<Rightarrow> rule_attr" where
  "trim_attr a = a\<lparr>ra_key := go_trim (ra_key a)\<rparr>"

fun check_attrs :: "rule_attr list \<Rightarrow> rule_error + rule_attr list" where
  "check_attrs [] = Inr []"
| "check_attrs (a # as) =
     (let b = trim_attr a in
      if \<not> attr_key_ok (ra_key b) then Inl (InvalidAttrKey (ra_key b))
      else if ra_op b \<notin> set RULE_ATTR_OPS then Inl (InvalidAttrOp (ra_op b))
      else case check_attrs as of Inl e \<Rightarrow> Inl e | Inr bs \<Rightarrow> Inr (b # bs))"

fun parse_channels :: "cell_api \<Rightarrow> jstring list \<Rightarrow> rule_error + jstring list" where
  "parse_channels sv [] = Inr []"
| "parse_channels sv (s # ss) =
     (case sv_uuid sv (go_trim s) of
        None \<Rightarrow> Inl (InvalidChannel s)
      | Some u \<Rightarrow> case parse_channels sv ss of Inl e \<Rightarrow> Inl e | Inr us \<Rightarrow> Inr (u # us))"

definition parse_ref :: "cell_api \<Rightarrow> rule_error \<Rightarrow> jstring option \<Rightarrow> rule_error + jstring option" where
  "parse_ref sv err v =
     (let s = go_str v in
      if s = [] then Inr None
      else case sv_uuid sv s of None \<Rightarrow> Inl err | Some u \<Rightarrow> Inr (Some u))"

definition zero_metric_spec :: metric_spec where
  "zero_metric_spec =
     \<lparr>ms_metric = [], ms_aggregation = [], ms_operator = [], ms_threshold = 0, ms_window = [],
      ms_attrs = None, ms_split = None, ms_no_data = None\<rparr>"

definition written_flag :: "bool option \<Rightarrow> bool option" where
  "written_flag b = (if truthy_bool b then Some True else None)"

definition validateMetricRuleSpec :: "cell_api \<Rightarrow> metric_spec \<Rightarrow> rule_error + metric_spec" where
  "validateMetricRuleSpec sv m =
     (let name = go_trim (ms_metric m);
          win = (if ms_window m = [] then js ''5m'' else ms_window m);
          split = go_str (ms_split m) in
      if name = [] then Inl MetricNameRequired
      else if ms_aggregation m \<notin> set RULE_AGGREGATIONS then Inl InvalidAggregation
      else if ms_operator m \<notin> set ALERT_OPERATORS then Inl InvalidOperator
      else if \<not> sv_duration sv win then Inl InvalidWindow
      else case check_attrs (coalesce (ms_attrs m) []) of
             Inl e \<Rightarrow> Inl e
           | Inr attrs \<Rightarrow>
               if split \<noteq> [] \<and> \<not> attr_key_ok split then Inl (InvalidSplit split)
               else Inr (m\<lparr>ms_metric := name, ms_window := win, ms_attrs := omit_empty attrs,
                           ms_split := omit_empty split, ms_no_data := written_flag (ms_no_data m)\<rparr>))"

definition validatePushedRuleSpec :: "metric_spec \<Rightarrow> rule_error + metric_spec" where
  "validatePushedRuleSpec m =
     (if ms_operator m \<notin> set ALERT_OPERATORS then Inl InvalidOperator
      else Inr (m\<lparr>ms_metric := [], ms_aggregation := js ''last'', ms_window := js ''5m'', ms_attrs := None,
                  ms_split := None, ms_no_data := None\<rparr>))"

definition validateLogRuleSpec :: "log_spec \<Rightarrow> rule_error + log_spec" where
  "validateLogRuleSpec l =
     (let cmp = coalesce (lg_comparison l) [] in
      if cmp \<notin> {[], js ''at_least'', js ''fewer_than''} then Inl InvalidComparison
      else if lg_window l < 60 \<or> MaxCheckWindowSeconds < lg_window l then Inl LogWindowRange
      else case check_attrs (coalesce (lg_attrs l) []) of
             Inl e \<Rightarrow> Inl e
           | Inr attrs \<Rightarrow>
               Inr (l\<lparr>lg_body := go_trim (lg_body l), lg_threshold := max 1 (lg_threshold l),
                      lg_comparison := Some (if cmp = [] then js ''at_least'' else cmp),
                      lg_attrs := omit_empty attrs\<rparr>))"

definition environment_scope :: "jstring option \<Rightarrow> rule_input \<Rightarrow> rule_error + jstring \<times> jstring list" where
  "environment_scope integration q =
     (let mode = go_str (ri_env_mode q);
          envs = map go_trim (coalesce (ri_envs q) []) in
      if mode = [] \<or> mode = js ''each'' then Inr (js ''each'', [])
      else if mode \<noteq> js ''only'' then Inl InvalidEnvironmentMode
      else if integration = None then Inl OnlyOnIntegration
      else if list_ex (\<lambda>e. 128 < byte_length e) envs then Inl EnvironmentTooLong
      else if envs = [] then Inl NoEnvironment
      else Inr (js ''only'', js_sort go_compare (dedupe envs)))"

text \<open>The spec of a rule that has everything else: exactly the one its signal asks for.\<close>

definition metric_signal :: "cell_api \<Rightarrow> rule_input \<Rightarrow> alert_rule \<Rightarrow> rule_error + alert_rule" where
  "metric_signal sv q r =
     (let m = coalesce (ri_spec q) zero_metric_spec;
          checked = (if al_source r = js ''pushed''
                     then (if al_service r = None then Inl PushedNeedsService else validatePushedRuleSpec m)
                     else validateMetricRuleSpec sv m) in
      case checked of Inl e \<Rightarrow> Inl e | Inr m' \<Rightarrow> Inr (r\<lparr>al_spec := m'\<rparr>))"

definition log_signal :: "rule_input \<Rightarrow> alert_rule \<Rightarrow> rule_error + alert_rule" where
  "log_signal q r =
     (if al_source r = js ''pushed'' then Inl OnlyMetricPushed
      else case ri_log q of
             None \<Rightarrow> Inl LogSpecRequired
           | Some l \<Rightarrow>
               (case validateLogRuleSpec l of
                  Inl e \<Rightarrow> Inl e
                | Inr l' \<Rightarrow>
                    if lg_min l' = 0 \<and> lg_body l' = [] \<and> lg_attrs l' = None \<and> al_service r = None
                       \<and> al_integration r = None
                    then Inl NoLogCriterion else Inr (r\<lparr>al_log := Some l'\<rparr>)))"

definition trace_window_ok :: "int \<Rightarrow> bool" where
  "trace_window_ok w \<longleftrightarrow> 60 \<le> w \<and> w \<le> MaxCheckWindowSeconds"

definition trace_signal :: "rule_input \<Rightarrow> alert_rule \<Rightarrow> rule_error + alert_rule" where
  "trace_signal q r =
     (if al_source r = js ''pushed'' then Inl OnlyMetricPushed
      else if al_integration r = None \<and> al_service r = None then Inl TraceUnbound
      else case (ri_tlat q, ri_tvol q, ri_tattr q, ri_terr q) of
             (Some t, _, _, _) \<Rightarrow>
               if tl_threshold t < 1 then Inl LatencyThreshold else Inr (r\<lparr>al_tlat := Some t\<rparr>)
           | (None, Some t, _, _) \<Rightarrow>
               if tv_threshold t < 1 then Inl VolumeThreshold
               else if \<not> trace_window_ok (tv_window t) then Inl VolumeWindow
               else Inr (r\<lparr>al_tvol := Some t\<rparr>)
           | (None, None, Some t, _) \<Rightarrow>
               if ta_threshold t < 1 then Inl AttributeThreshold
               else if \<not> trace_window_ok (ta_window t) then Inl AttributeWindow
               else if ta_attrs t = [] then Inl NoAttributes
               else (case check_attrs (ta_attrs t) of
                       Inl e \<Rightarrow> Inl e
                     | Inr as \<Rightarrow> Inr (r\<lparr>al_tattr := Some (t\<lparr>ta_attrs := as\<rparr>)\<rparr>))
           | (None, None, None, Some t) \<Rightarrow>
               if te_threshold t < 1 then Inl ErrorThreshold
               else (case check_attrs (coalesce (te_attrs t) []) of
                       Inl e \<Rightarrow> Inl e
                     | Inr as \<Rightarrow> Inr (r\<lparr>al_terr := Some (t\<lparr>te_attrs := omit_empty as\<rparr>)\<rparr>))
           | (None, None, None, None) \<Rightarrow> Inl TraceSpecRequired)"

definition signal_spec :: "cell_api \<Rightarrow> rule_input \<Rightarrow> alert_rule \<Rightarrow> rule_error + alert_rule" where
  "signal_spec sv q r =
     (if al_signal r = js ''metric'' then metric_signal sv q r
      else if al_signal r = js ''log'' then log_signal q r
      else if al_signal r = js ''trace'' then trace_signal q r
      else Inl InvalidSignal)"

definition default_resolve :: "jstring \<Rightarrow> jstring" where
  "default_resolve signal = (if signal \<in> {js ''log'', js ''trace''} then js ''manual'' else js ''auto'')"

definition written_content :: "notification_content \<Rightarrow> notification_content" where
  "written_content c =
     (let flag = (\<lambda>b. Some (truthy_bool b)); text = (\<lambda>t. omit_empty (coalesce t [])) in
      \<lparr>nc_service = flag (nc_service c), nc_integration = flag (nc_integration c),
       nc_service_metadata = flag (nc_service_metadata c), nc_integration_metadata = flag (nc_integration_metadata c),
       nc_check = flag (nc_check c), nc_email_subject = text (nc_email_subject c),
       nc_email_body = text (nc_email_body c), nc_slack_title = text (nc_slack_title c),
       nc_slack_body = text (nc_slack_body c)\<rparr>)"

text \<open>The head of a rule, in the handler's order: the texts with a default, the bindings, the
  checks of the remaining texts, and the environments.\<close>

definition or_default :: "jstring \<Rightarrow> jstring \<Rightarrow> jstring" where
  "or_default s d = (if s = [] then d else s)"

definition request_severity :: "rule_input \<Rightarrow> jstring" where
  "request_severity q = or_default (go_trim (ri_severity q)) (js ''warning'')"

definition request_signal :: "rule_input \<Rightarrow> jstring" where
  "request_signal q = or_default (go_str (ri_signal q)) (js ''metric'')"

definition request_source :: "rule_input \<Rightarrow> jstring" where
  "request_source q = or_default (go_str (ri_source q)) (js ''telemetry'')"

definition request_resolve :: "rule_input \<Rightarrow> jstring" where
  "request_resolve q = or_default (go_str (ri_resolve q)) (default_resolve (request_signal q))"

record rule_refs =
  rr_channels :: "jstring list"
  rr_integration :: "jstring option"
  rr_system :: "jstring option"
  rr_group :: "jstring option"

definition rule_bindings :: "cell_api \<Rightarrow> rule_input \<Rightarrow> rule_error + rule_refs" where
  "rule_bindings sv q =
     (case parse_channels sv (ri_channels q) of Inl e \<Rightarrow> Inl e | Inr channels \<Rightarrow>
      case parse_ref sv InvalidIntegration (ri_integration q) of Inl e \<Rightarrow> Inl e | Inr integration \<Rightarrow>
      case parse_ref sv InvalidSystem (ri_system q) of Inl e \<Rightarrow> Inl e | Inr sys \<Rightarrow>
        if sys \<noteq> None \<and> integration \<noteq> None then Inl SystemOrIntegration
        else if sys \<noteq> None \<and> go_str (ri_service q) \<noteq> [] then Inl SystemOrService
        else case parse_ref sv InvalidGroup (ri_group q) of Inl e \<Rightarrow> Inl e | Inr grp \<Rightarrow>
          Inr \<lparr>rr_channels = channels, rr_integration = integration, rr_system = sys, rr_group = grp\<rparr>)"

definition content_text :: "(notification_content \<Rightarrow> jstring option) \<Rightarrow> notification_content option \<Rightarrow> jstring" where
  "content_text field c = (case c of None \<Rightarrow> [] | Some c' \<Rightarrow> coalesce (field c') [])"

definition text_error :: "cell_api \<Rightarrow> rule_input \<Rightarrow> rule_error option" where
  "text_error sv q =
     (if \<not> sv_template sv (go_str (ri_title q)) then Some InvalidTitle
      else if \<not> sv_template sv (go_str (ri_body q)) then Some InvalidBody
      else if ri_notif q \<noteq> None \<and> \<not> sv_liquid sv (content_text nc_email_subject (ri_notif q))
        then Some InvalidEmailSubject
      else if ri_notif q \<noteq> None \<and> \<not> sv_liquid sv (content_text nc_email_body (ri_notif q))
        then Some InvalidEmailBody
      else if request_source q \<notin> {js ''telemetry'', js ''pushed''} then Some InvalidSource
      else if request_resolve q \<notin> {js ''auto'', js ''manual''} then Some InvalidResolveMode
      else None)"

definition head_rule :: "jstring \<Rightarrow> rule_input \<Rightarrow> rule_refs \<Rightarrow> jstring \<times> jstring list \<Rightarrow> alert_rule" where
  "head_rule i q refs env =
     \<lparr>al_id = i, al_env_mode = fst env, al_envs = snd env, al_integration = rr_integration refs,
      al_system = rr_system refs, al_service = omit_empty (go_str (ri_service q)), al_group = rr_group refs,
      al_name = go_trim (ri_name q), al_description = go_str (ri_description q),
      al_runbook = omit_empty (go_str (ri_runbook q)), al_signal = request_signal q,
      al_spec = zero_metric_spec, al_log = None, al_terr = None, al_tlat = None, al_tvol = None,
      al_tattr = None, al_severity = request_severity q, al_enabled = coalesce (ri_enabled q) True,
      al_source = request_source q, al_display = truthy_bool (ri_display q),
      al_unit = omit_empty (go_str (ri_unit q)), al_resolve = request_resolve q,
      al_channels = rr_channels refs, al_title = omit_empty (go_str (ri_title q)),
      al_body = omit_empty (go_str (ri_body q)), al_notif = map_option written_content (ri_notif q)\<rparr>"

definition rule_head :: "cell_api \<Rightarrow> jstring \<Rightarrow> rule_input \<Rightarrow> rule_error + alert_rule" where
  "rule_head sv i q =
     (if go_trim (ri_name q) = [] then Inl NameRequired
      else if request_severity q \<notin> set ALERT_SEVERITIES then Inl InvalidSeverity
      else case rule_bindings sv q of Inl e \<Rightarrow> Inl e | Inr refs \<Rightarrow>
        (case text_error sv q of
           Some e \<Rightarrow> Inl e
         | None \<Rightarrow> case environment_scope (rr_integration refs) q of Inl e \<Rightarrow> Inl e | Inr env \<Rightarrow>
             Inr (head_rule i q refs env)))"

definition buildRule :: "cell_api \<Rightarrow> jstring \<Rightarrow> rule_input \<Rightarrow> rule_error + alert_rule" where
  "buildRule sv i q = (case rule_head sv i q of Inl e \<Rightarrow> Inl e | Inr r \<Rightarrow> signal_spec sv q r)"

text \<open>What the store writes of a built rule: the routed channels once each.  Its other
  normalisations (\<open>ruleSource\<close>, \<open>resolveModeOf\<close>, \<open>environmentModeOf\<close>) leave a built rule as it is.\<close>

definition ruleSource :: "alert_rule \<Rightarrow> jstring" where
  "ruleSource r = (if al_source r = js ''pushed'' \<and> al_signal r \<notin> {js ''log'', js ''trace''} then js ''pushed''
     else js ''telemetry'')"

definition resolveModeOf :: "alert_rule \<Rightarrow> jstring" where
  "resolveModeOf r = (if al_resolve r = js ''manual'' then js ''manual'' else js ''auto'')"

definition environmentModeOf :: "alert_rule \<Rightarrow> jstring" where
  "environmentModeOf r = (if al_env_mode r = js ''only'' then js ''only'' else js ''each'')"

definition store_rule :: "alert_rule \<Rightarrow> alert_rule" where
  "store_rule r = r\<lparr>al_source := ruleSource r, al_resolve := resolveModeOf r, al_env_mode := environmentModeOf r,
     al_channels := dedupe (al_channels r)\<rparr>"

text \<open>The handler and the store.  Authorization and the database are left out.  The update statement does
  not set the signal: every writer of \<open>RuleEditors\<close> and \<open>RuleSwitches\<close> sends the signal the rule
  has, so that the row the request describes is the row that results.\<close>

definition put_rule :: "cell_api \<Rightarrow> jstring \<Rightarrow> rule_input \<Rightarrow> rule_error + alert_rule" where
  "put_rule sv i q = map_sum id store_rule (buildRule sv i q)"

section \<open>Resubmitting a stored rule\<close>

text \<open>The request that carries every field of a rule: what a writer that means to change nothing
  has to send.  \<open>uuid.Parse\<close> prints a canonical form and reads that form back.\<close>

definition full_input :: "alert_rule \<Rightarrow> rule_input" where
  "full_input r =
     \<lparr>ri_name = al_name r, ri_description = Some (al_description r), ri_severity = al_severity r,
      ri_enabled = Some (al_enabled r), ri_channels = al_channels r, ri_signal = Some (al_signal r),
      ri_spec = Some (al_spec r), ri_log = al_log r, ri_terr = al_terr r, ri_tlat = al_tlat r,
      ri_tvol = al_tvol r, ri_tattr = al_tattr r, ri_service = al_service r,
      ri_integration = al_integration r, ri_system = al_system r, ri_group = al_group r,
      ri_runbook = al_runbook r, ri_title = al_title r, ri_body = al_body r, ri_notif = al_notif r,
      ri_source = Some (al_source r), ri_display = Some (al_display r), ri_unit = al_unit r,
      ri_resolve = Some (al_resolve r), ri_env_mode = Some (al_env_mode r), ri_envs = Some (al_envs r)\<rparr>"

definition uuid_canonical :: "cell_api \<Rightarrow> bool" where
  "uuid_canonical sv \<longleftrightarrow> (\<forall>s u. sv_uuid sv s = Some u \<longrightarrow> u \<noteq> [] \<and> go_trim u = u \<and> sv_uuid sv u = Some u)"

lemma dropWhile_rev_keeps_hd:
  assumes "\<not> P (hd s)" "s \<noteq> []"
  shows "dropWhile P (rev (dropWhile P (rev s))) = rev (dropWhile P (rev s))"
proof -
  obtain a t where s: "s = a # t" using assms by (cases s) auto
  have "rev (dropWhile P (rev s)) \<noteq> [] \<and> hd (rev (dropWhile P (rev s))) = a"
    using assms unfolding s by (auto simp: dropWhile_append hd_append last_rev)
  then show ?thesis using assms s by (intro dropWhile_hd_id) auto
qed

lemma go_trim_idem [simp]: "go_trim (go_trim s) = go_trim s"
proof -
  define t where "t = dropWhile go_space s"
  have "t = [] \<or> \<not> go_space (hd t)" unfolding t_def by (metis hd_dropWhile)
  then have "dropWhile go_space (rev (dropWhile go_space (rev t))) = rev (dropWhile go_space (rev t))"
    using dropWhile_rev_keeps_hd [of go_space t] by (cases "t = []") auto
  then show ?thesis unfolding go_trim_def t_def [symmetric] by simp
qed

lemma go_trim_Nil [simp]: "go_trim [] = []"
  by (simp add: go_trim_def)

lemma omit_empty_simps [simp]: "omit_empty [] = None" "xs \<noteq> [] \<Longrightarrow> omit_empty xs = Some xs"
  "coalesce (omit_empty xs) [] = xs" "omit_empty xs = None \<longleftrightarrow> xs = []"
  by (auto simp: omit_empty_def)

lemma go_str_simps [simp]: "go_str None = []" "go_str (Some s) = go_trim s" "go_trim (go_str v) = go_str v"
  "go_str (omit_empty s) = go_trim s"
  by (auto simp: go_str_def)

lemma check_attrs_again: "check_attrs as = Inr bs \<Longrightarrow> check_attrs bs = Inr bs"
  by (induction as arbitrary: bs) (auto simp: Let_def trim_attr_def split: if_splits sum.splits)

lemma check_attrs_empty: "check_attrs as = Inr bs \<Longrightarrow> bs = [] \<longleftrightarrow> as = []"
  by (cases as) (auto simp: Let_def split: if_splits sum.splits)

lemma parse_channels_canonical:
  assumes "uuid_canonical sv"
  shows "parse_channels sv ss = Inr us \<Longrightarrow> list_all (\<lambda>u. sv_uuid sv (go_trim u) = Some u) us"
  using assms by (induction ss arbitrary: us) (auto simp: uuid_canonical_def split: option.splits sum.splits)

lemma parse_channels_fixed: "list_all (\<lambda>u. sv_uuid sv (go_trim u) = Some u) us \<Longrightarrow> parse_channels sv us = Inr us"
  by (induction us) auto

lemma parse_channels_again:
  assumes "uuid_canonical sv" "parse_channels sv ss = Inr us"
  shows "parse_channels sv (dedupe us) = Inr (dedupe us)"
  using parse_channels_canonical [OF assms] by (intro parse_channels_fixed) (auto simp: list_all_iff)

lemma parse_ref_again:
  assumes "uuid_canonical sv" "parse_ref sv err v = Inr w"
  shows "parse_ref sv err w = Inr w"
proof (cases "go_str v = []")
  case True
  then show ?thesis using assms by (auto simp: parse_ref_def)
next
  case False
  then obtain u where "sv_uuid sv (go_str v) = Some u" "w = Some u"
    using assms(2) by (auto simp: parse_ref_def Let_def split: option.splits)
  then show ?thesis using assms(1) by (auto simp: parse_ref_def uuid_canonical_def)
qed

lemma go_comparator: "js_comparator go_compare"
  unfolding go_compare_def by (intro js_comparator_on units.js_comparator_axioms)

lemma environment_scope_again:
  assumes "environment_scope integration q = Inr (mode, envs)"
      and "ri_env_mode p = Some mode" "ri_envs p = Some envs"
  shows "environment_scope integration p = Inr (mode, envs)"
proof (cases "mode = js ''each''")
  case True
  then show ?thesis using assms by (auto simp: environment_scope_def Let_def go_trim_def go_space_def is_space_def js_def split: if_splits)
next
  case False
  define es where "es = map go_trim (coalesce (ri_envs q) [])"
  have e: "mode = js ''only''" "envs = js_sort go_compare (dedupe es)" "es \<noteq> []" "integration \<noteq> None"
    "\<not> list_ex (\<lambda>e. 128 < byte_length e) es"
    using assms(1) False unfolding environment_scope_def Let_def es_def [symmetric] by (auto split: if_splits)
  have t: "map go_trim envs = envs"
    by (rule map_idI) (auto simp: e es_def)
  have s: "js_sort go_compare (dedupe envs) = envs"
    unfolding e(2) by (simp add: dedupe_distinct js_sort_id [OF go_comparator js_sort_sorted [OF go_comparator]])
  have "envs \<noteq> []" "\<not> list_ex (\<lambda>e. 128 < byte_length e) envs"
    using e by (auto simp: list_ex_iff)
  moreover have "go_str (Some mode) = js ''only''" by (simp add: e(1) go_trim_def go_space_def is_space_def js_def)
  ultimately show ?thesis using t s e(4) assms(2,3)
    unfolding environment_scope_def Let_def by (simp add: e(1))
qed


lemma metric_again:
  assumes "validateMetricRuleSpec sv m = Inr n"
  shows "validateMetricRuleSpec sv n = Inr n"
proof -
  obtain attrs where a: "check_attrs (coalesce (ms_attrs m) []) = Inr attrs"
    using assms by (auto simp: validateMetricRuleSpec_def Let_def split: if_splits sum.splits)
  have "n = m\<lparr>ms_metric := go_trim (ms_metric m), ms_window := (if ms_window m = [] then js ''5m'' else ms_window m),
      ms_attrs := omit_empty attrs, ms_split := omit_empty (go_str (ms_split m)),
      ms_no_data := written_flag (ms_no_data m)\<rparr>"
    using assms a by (simp add: validateMetricRuleSpec_def Let_def split: if_splits)
  then show ?thesis using assms a check_attrs_again [OF a]
    by (simp add: validateMetricRuleSpec_def Let_def written_flag_def split: if_splits)
qed

lemma pushed_again: "validatePushedRuleSpec m = Inr n \<Longrightarrow> validatePushedRuleSpec n = Inr n"
  by (auto simp: validatePushedRuleSpec_def split: if_splits)

lemma log_again:
  assumes "validateLogRuleSpec l = Inr n"
  shows "validateLogRuleSpec n = Inr n"
proof -
  obtain attrs where a: "check_attrs (coalesce (lg_attrs l) []) = Inr attrs"
    using assms by (auto simp: validateLogRuleSpec_def Let_def split: if_splits sum.splits)
  define c where "c = coalesce (lg_comparison l) []"
  have n: "n = l\<lparr>lg_body := go_trim (lg_body l), lg_threshold := max 1 (lg_threshold l),
      lg_comparison := Some (if c = [] then js ''at_least'' else c), lg_attrs := omit_empty attrs\<rparr>"
    and ok: "c \<in> {[], js ''at_least'', js ''fewer_than''}" "\<not> (lg_window l < 60 \<or> MaxCheckWindowSeconds < lg_window l)"
    using assms a unfolding validateLogRuleSpec_def Let_def c_def [symmetric] by (auto split: if_splits)
  show ?thesis using ok check_attrs_again [OF a] by (auto simp: n validateLogRuleSpec_def Let_def)
qed

lemma or_default_again [simp]: "or_default (or_default s d) e = (if or_default s d = [] then e else or_default s d)"
  by (simp add: or_default_def)

lemma trim_words: "go_trim (js ''warning'') = js ''warning''" "go_trim (js ''metric'') = js ''metric''"
  "go_trim (js ''telemetry'') = js ''telemetry''" "go_trim (js ''auto'') = js ''auto''" "go_trim (js ''manual'') = js ''manual''"
  "go_trim (js ''log'') = js ''log''" "go_trim (js ''trace'') = js ''trace''" "go_trim (js ''each'') = js ''each''" "go_trim (js ''only'') = js ''only''"
  "go_trim (js ''pushed'') = js ''pushed''"
  by code_simp+

lemma rule_bindingsD:
  assumes "rule_bindings sv q = Inr refs"
  shows "parse_channels sv (ri_channels q) = Inr (rr_channels refs)
    \<and> parse_ref sv InvalidIntegration (ri_integration q) = Inr (rr_integration refs)
    \<and> parse_ref sv InvalidSystem (ri_system q) = Inr (rr_system refs)
    \<and> parse_ref sv InvalidGroup (ri_group q) = Inr (rr_group refs)
    \<and> \<not> (rr_system refs \<noteq> None \<and> rr_integration refs \<noteq> None)
    \<and> \<not> (rr_system refs \<noteq> None \<and> go_str (ri_service q) \<noteq> [])"
  using assms unfolding rule_bindings_def by (auto split: if_splits sum.splits)

lemma rule_headD:
  assumes "rule_head sv i q = Inr r"
  shows "\<exists>refs env. go_trim (ri_name q) \<noteq> [] \<and> request_severity q \<in> set ALERT_SEVERITIES
    \<and> rule_bindings sv q = Inr refs \<and> text_error sv q = None
    \<and> environment_scope (rr_integration refs) q = Inr env \<and> r = head_rule i q refs env"
  using assms unfolding rule_head_def by (auto split: if_splits sum.splits option.splits)

lemma rule_headI:
  assumes "go_trim (ri_name q) \<noteq> []" "request_severity q \<in> set ALERT_SEVERITIES"
    "rule_bindings sv q = Inr refs" "text_error sv q = None" "environment_scope (rr_integration refs) q = Inr env"
  shows "rule_head sv i q = Inr (head_rule i q refs env)"
  using assms by (simp add: rule_head_def)

lemma signal_spec_head:
  assumes "signal_spec sv q h = Inr b"
  shows "b = h\<lparr>al_spec := al_spec b, al_log := al_log b, al_terr := al_terr b, al_tlat := al_tlat b,
    al_tvol := al_tvol b, al_tattr := al_tattr b\<rparr>"
  using assms unfolding signal_spec_def metric_signal_def log_signal_def trace_signal_def Let_def
  by (auto split: if_splits sum.splits option.splits)

lemma signal_spec_keeps:
  assumes "signal_spec sv q h = Inr b"
  shows "al_source b = al_source h" "al_signal b = al_signal h" "al_resolve b = al_resolve h"
    "al_env_mode b = al_env_mode h" "al_envs b = al_envs h" "al_integration b = al_integration h" "al_system b = al_system h"
    "al_service b = al_service h" "al_channels b = al_channels h" "al_name b = al_name h" "al_severity b = al_severity h"
    "al_group b = al_group h" "al_id b = al_id h" "al_title b = al_title h" "al_body b = al_body h" "al_notif b = al_notif h"
    "al_description b = al_description h" "al_runbook b = al_runbook h" "al_enabled b = al_enabled h"
    "al_display b = al_display h" "al_unit b = al_unit h"
  by (subst signal_spec_head [OF assms], simp)+

definition no_spec :: "alert_rule \<Rightarrow> bool" where
  "no_spec r \<longleftrightarrow> al_log r = None \<and> al_terr r = None \<and> al_tlat r = None \<and> al_tvol r = None \<and> al_tattr r = None"

definition carries_spec :: "rule_input \<Rightarrow> alert_rule \<Rightarrow> bool" where
  "carries_spec q r \<longleftrightarrow> ri_spec q = Some (al_spec r) \<and> ri_log q = al_log r \<and> ri_terr q = al_terr r
     \<and> ri_tlat q = al_tlat r \<and> ri_tvol q = al_tvol r \<and> ri_tattr q = al_tattr r"

lemma metric_signal_again:
  assumes "metric_signal sv q h = Inr b" "carries_spec p b" 
  shows "metric_signal sv p (h\<lparr>al_channels := c\<rparr>) = Inr (b\<lparr>al_channels := c\<rparr>)"
proof -
  let ?check = "\<lambda>m. if al_source h = js ''pushed''
     then (if al_service h = None then Inl PushedNeedsService else validatePushedRuleSpec m)
     else validateMetricRuleSpec sv m"
  obtain n where n: "?check (coalesce (ri_spec q) zero_metric_spec) = Inr n" "b = h\<lparr>al_spec := n\<rparr>"
    using assms(1) by (auto simp: metric_signal_def Let_def split: sum.splits)
  then have "?check n = Inr n" using pushed_again metric_again by (auto split: if_splits)
  then show ?thesis using assms(2) n(2) by (auto simp: metric_signal_def carries_spec_def split: if_splits)
qed

lemma log_signal_again:
  assumes "log_signal q h = Inr b" "carries_spec p b"
  shows "log_signal p (h\<lparr>al_channels := c\<rparr>) = Inr (b\<lparr>al_channels := c\<rparr>)"
proof -
  obtain l where "ri_log q = Some l" using assms(1) by (auto simp: log_signal_def split: if_splits option.splits)
  moreover then obtain n where n: "validateLogRuleSpec l = Inr n"
    using assms(1) by (auto simp: log_signal_def split: if_splits sum.splits)
  ultimately have b: "b = h\<lparr>al_log := Some n\<rparr>"
    and ok: "al_source h \<noteq> js ''pushed''" "\<not> (lg_min n = 0 \<and> lg_body n = [] \<and> lg_attrs n = None
      \<and> al_service h = None \<and> al_integration h = None)"
    using assms(1) by (auto simp: log_signal_def split: if_splits)
  then show ?thesis using assms(2) log_again [OF n] by (auto simp: log_signal_def carries_spec_def b)
qed

lemma trace_signal_cases [consumes 1, case_names latency volume attribute error]:
  assumes "trace_signal q h = Inr b"
  obtains (latency) t where "ri_tlat q = Some t" "\<not> tl_threshold t < 1" "b = h\<lparr>al_tlat := Some t\<rparr>"
  | (volume) t where "ri_tlat q = None" "ri_tvol q = Some t" "\<not> tv_threshold t < 1" "trace_window_ok (tv_window t)"
      "b = h\<lparr>al_tvol := Some t\<rparr>"
  | (attribute) t as where "ri_tlat q = None" "ri_tvol q = None" "ri_tattr q = Some t" "\<not> ta_threshold t < 1"
      "trace_window_ok (ta_window t)" "ta_attrs t \<noteq> []" "check_attrs (ta_attrs t) = Inr as"
      "b = h\<lparr>al_tattr := Some (t\<lparr>ta_attrs := as\<rparr>)\<rparr>"
  | (error) t as where "ri_tlat q = None" "ri_tvol q = None" "ri_tattr q = None" "ri_terr q = Some t"
      "\<not> te_threshold t < 1" "check_attrs (coalesce (te_attrs t) []) = Inr as"
      "b = h\<lparr>al_terr := Some (t\<lparr>te_attrs := omit_empty as\<rparr>)\<rparr>"
proof -
  have u: "al_source h \<noteq> js ''pushed''" "\<not> (al_integration h = None \<and> al_service h = None)"
    using assms by (auto simp: trace_signal_def split: if_splits)
  note a = assms [unfolded trace_signal_def if_not_P [OF u(1)] if_not_P [OF u(2)]]
  show thesis
  proof (cases "ri_tlat q")
    case (Some t)
    then show thesis using a latency [of t] by (auto split: if_splits)
  next
    case l: None
    show thesis
    proof (cases "ri_tvol q")
      case (Some t)
      then show thesis using a l volume [of t] by (auto split: if_splits)
    next
      case v: None
      show thesis
      proof (cases "ri_tattr q")
        case (Some t)
        then show thesis using a l v attribute [of t] by (auto split: if_splits sum.splits)
      next
        case None
        then show thesis using a l v error by (cases "ri_terr q") (auto split: if_splits sum.splits)
      qed
    qed
  qed
qed

lemma trace_signal_bound:
  "trace_signal q h = Inr b \<Longrightarrow> al_source h \<noteq> js ''pushed'' \<and> \<not> (al_integration h = None \<and> al_service h = None)"
  by (auto simp: trace_signal_def split: if_splits)

lemma trace_signal_again:
  assumes "trace_signal q h = Inr b" "carries_spec p b" "no_spec h"
  shows "trace_signal p (h\<lparr>al_channels := c\<rparr>) = Inr (b\<lparr>al_channels := c\<rparr>)"
  using assms(1)
proof (cases rule: trace_signal_cases)
  case (latency t)
  then show ?thesis using assms(2,3) trace_signal_bound [OF assms(1)]
    by (auto simp: trace_signal_def carries_spec_def no_spec_def)
next
  case (volume t)
  then show ?thesis using assms(2,3) trace_signal_bound [OF assms(1)]
    by (auto simp: trace_signal_def carries_spec_def no_spec_def)
next
  case (attribute t as)
  then show ?thesis using assms(2,3) trace_signal_bound [OF assms(1)] check_attrs_again [OF attribute(7)]
      check_attrs_empty [OF attribute(7)]
    by (auto simp: trace_signal_def carries_spec_def no_spec_def)
next
  case (error t as)
  then show ?thesis using assms(2,3) trace_signal_bound [OF assms(1)] check_attrs_again [OF error(6)]
    by (auto simp: trace_signal_def carries_spec_def no_spec_def)
qed

lemma signal_spec_again:
  assumes "signal_spec sv q h = Inr b" "carries_spec p b" "no_spec h"
  shows "signal_spec sv p (h\<lparr>al_channels := c\<rparr>) = Inr (b\<lparr>al_channels := c\<rparr>)"
  using assms metric_signal_again log_signal_again trace_signal_again
  by (auto simp: signal_spec_def split: if_splits)

lemma pushed_is_metric:
  "signal_spec sv q h = Inr b \<Longrightarrow> al_source h = js ''pushed'' \<Longrightarrow> al_signal h = js ''metric''"
  by (auto simp: signal_spec_def log_signal_def trace_signal_def split: if_splits)


lemma text_error_None:
  assumes "text_error sv q = None"
  shows "request_source q \<in> {js ''telemetry'', js ''pushed''} \<and> request_resolve q \<in> {js ''auto'', js ''manual''}"
  using assms by (auto simp: text_error_def split: if_splits)

lemma stored_head:
  assumes "put_rule sv i q = Inr r"
  obtains refs env b where "rule_head sv i q = Inr (head_rule i q refs env)"
    "signal_spec sv q (head_rule i q refs env) = Inr b" "r = b\<lparr>al_channels := dedupe (al_channels b)\<rparr>"
    "go_trim (ri_name q) \<noteq> []" "request_severity q \<in> set ALERT_SEVERITIES"
    "rule_bindings sv q = Inr refs" "text_error sv q = None" "environment_scope (rr_integration refs) q = Inr env"
proof -
  obtain b where b: "buildRule sv i q = Inr b" "r = store_rule b"
    using assms by (cases "buildRule sv i q") (auto simp: put_rule_def)
  then obtain h where h: "rule_head sv i q = Inr h" "signal_spec sv q h = Inr b"
    by (auto simp: buildRule_def split: sum.splits)
  then obtain refs env where e: "go_trim (ri_name q) \<noteq> []" "request_severity q \<in> set ALERT_SEVERITIES"
    "rule_bindings sv q = Inr refs" "text_error sv q = None" "environment_scope (rr_integration refs) q = Inr env"
    "h = head_rule i q refs env"
    using rule_headD [OF h(1)] by blast
  have k: "al_source b = request_source q" "al_signal b = request_signal q" "al_resolve b = request_resolve q"
    "al_env_mode b = fst env"
    by (simp_all add: signal_spec_keeps [OF h(2)] e(6) head_rule_def)
  have "ruleSource b = al_source b"
    using text_error_None [OF e(4)] pushed_is_metric [OF h(2)] by (auto simp: ruleSource_def k e(6) head_rule_def)
  moreover have "resolveModeOf b = al_resolve b"
    using text_error_None [OF e(4)] by (auto simp: resolveModeOf_def k)
  moreover have "environmentModeOf b = al_env_mode b"
    using e(5) by (auto simp: environmentModeOf_def k environment_scope_def Let_def split: if_splits)
  ultimately have "r = b\<lparr>al_channels := dedupe (al_channels b)\<rparr>"
    using b(2) by (simp add: store_rule_def)
  with h e that show thesis by blast
qed


lemma or_default_idem: "d \<noteq> [] \<Longrightarrow> or_default (or_default s d) e = or_default s d" "d \<noteq> [] \<Longrightarrow> or_default s d \<noteq> []"
  by (auto simp: or_default_def)

lemma go_trim_or_default [simp]: "go_trim d = d \<Longrightarrow> go_trim s = s \<Longrightarrow> go_trim (or_default s d) = or_default s d"
  by (simp add: or_default_def)

lemma written_content_again: "written_content (written_content c) = written_content c"
  by (simp add: written_content_def Let_def)

lemma content_text_written:
  "content_text nc_email_subject (map_option written_content c) = content_text nc_email_subject c"
  "content_text nc_email_body (map_option written_content c) = content_text nc_email_body c"
  by (cases c; simp add: content_text_def written_content_def Let_def)+

lemma trim_default_resolve [simp]: "go_trim (default_resolve s) = default_resolve s" "default_resolve s \<noteq> []"
  by (simp_all add: default_resolve_def trim_words)

lemma store_rule_again: "store_rule (store_rule b) = store_rule b"
  by (simp add: store_rule_def ruleSource_def resolveModeOf_def environmentModeOf_def dedupe_distinct)

lemma put_again:
  assumes "uuid_canonical sv" "put_rule sv i q = Inr r"
  shows "put_rule sv i (full_input r) = Inr r"
proof -
  obtain refs env b where h: "rule_head sv i q = Inr (head_rule i q refs env)"
    "signal_spec sv q (head_rule i q refs env) = Inr b" "r = b\<lparr>al_channels := dedupe (al_channels b)\<rparr>"
    "go_trim (ri_name q) \<noteq> []" "request_severity q \<in> set ALERT_SEVERITIES"
    "rule_bindings sv q = Inr refs" "text_error sv q = None" "environment_scope (rr_integration refs) q = Inr env"
    using assms(2) by (rule stored_head)
  define p where "p = full_input r"
  define c where "c = dedupe (rr_channels refs)"
  note k = signal_spec_keeps [OF h(2)]
  have pf: "ri_name p = go_trim (ri_name q)" "ri_severity p = request_severity q" "ri_channels p = c"
    "ri_signal p = Some (request_signal q)" "ri_service p = omit_empty (go_str (ri_service q))"
    "ri_integration p = rr_integration refs" "ri_system p = rr_system refs" "ri_group p = rr_group refs"
    "ri_title p = omit_empty (go_str (ri_title q))" "ri_body p = omit_empty (go_str (ri_body q))"
    "ri_notif p = map_option written_content (ri_notif q)" "ri_source p = Some (request_source q)"
    "ri_resolve p = Some (request_resolve q)" "ri_env_mode p = Some (fst env)" "ri_envs p = Some (snd env)"
    "ri_description p = Some (go_str (ri_description q))" "ri_runbook p = omit_empty (go_str (ri_runbook q))"
    "ri_enabled p = Some (coalesce (ri_enabled q) True)" "ri_display p = Some (truthy_bool (ri_display q))"
    "ri_unit p = omit_empty (go_str (ri_unit q))"
    by (simp_all add: p_def full_input_def h(3) k head_rule_def c_def)
  have sig: "request_signal p = request_signal q" "request_severity p = request_severity q"
    "request_source p = request_source q" "request_resolve p = request_resolve q"
    by (simp_all add: pf request_signal_def request_severity_def request_source_def request_resolve_def
        trim_words or_default_idem)
  note rb = rule_bindingsD [OF h(6)]
  have refs: "rule_bindings sv p = Inr (refs\<lparr>rr_channels := c\<rparr>)"
    using rb parse_channels_again [OF assms(1), of "ri_channels q" "rr_channels refs"] parse_ref_again [OF assms(1)]
    by (auto simp: rule_bindings_def pf c_def)
  have texts: "text_error sv p = None"
  proof -
    have "text_error sv p = text_error sv q"
      unfolding text_error_def sig pf by (simp add: content_text_written)
    then show ?thesis using h(7) by simp
  qed
  have env: "environment_scope (rr_integration refs) p = Inr env"
    using environment_scope_again [of "rr_integration refs" q "fst env" "snd env" p] h(8) by (simp add: pf)
  have head: "rule_head sv i p = Inr ((head_rule i q refs env)\<lparr>al_channels := c\<rparr>)"
  proof -
    have "rule_head sv i p = Inr (head_rule i p (refs\<lparr>rr_channels := c\<rparr>) env)"
      using h(4,5) refs texts env by (intro rule_headI) (simp_all add: pf sig)
    also have "head_rule i p (refs\<lparr>rr_channels := c\<rparr>) env = (head_rule i q refs env)\<lparr>al_channels := c\<rparr>"
      by (simp add: head_rule_def pf sig option.map_comp comp_def written_content_again)
    finally show ?thesis .
  qed
  have "carries_spec p b" by (simp add: carries_spec_def p_def full_input_def h(3))
  moreover have "no_spec (head_rule i q refs env)" by (simp add: no_spec_def head_rule_def)
  ultimately have "signal_spec sv p ((head_rule i q refs env)\<lparr>al_channels := c\<rparr>) = Inr (b\<lparr>al_channels := c\<rparr>)"
    using h(2) signal_spec_again by blast
  moreover have "b\<lparr>al_channels := c\<rparr> = r" by (simp add: h(3) k c_def head_rule_def)
  ultimately have "buildRule sv i p = Inr r" by (simp add: buildRule_def head)
  moreover have "store_rule r = r"
    using assms(2) store_rule_again by (cases "buildRule sv i q") (auto simp: put_rule_def)
  ultimately show ?thesis by (simp add: put_rule_def p_def)
qed

section \<open>Well-formed rules\<close>

definition trace_spec_count :: "alert_rule \<Rightarrow> nat" where
  "trace_spec_count r = (if al_terr r = None then 0 else 1) + (if al_tlat r = None then 0 else 1)
     + (if al_tvol r = None then 0 else 1) + (if al_tattr r = None then 0 else (1::nat))"

definition spec_ok :: "alert_rule \<Rightarrow> bool" where
  "spec_ok r \<longleftrightarrow>
     (if al_signal r = js ''metric'' then
        al_log r = None \<and> trace_spec_count r = 0 \<and> ms_operator (al_spec r) \<in> set ALERT_OPERATORS
        \<and> (ms_metric (al_spec r) = [] \<longleftrightarrow> al_source r = js ''pushed'')
      else if al_signal r = js ''log'' then
        trace_spec_count r = 0 \<and>
        (case al_log r of None \<Rightarrow> False | Some l \<Rightarrow> 1 \<le> lg_threshold l \<and> trace_window_ok (lg_window l))
      else
        al_signal r = js ''trace'' \<and> al_log r = None \<and> trace_spec_count r = 1
        \<and> (al_integration r \<noteq> None \<or> al_service r \<noteq> None)
        \<and> (case al_tattr r of None \<Rightarrow> True | Some t \<Rightarrow> ta_attrs t \<noteq> [] \<and> 1 \<le> ta_threshold t))"

definition rule_ok :: "alert_rule \<Rightarrow> bool" where
  "rule_ok r \<longleftrightarrow>
     al_name r \<noteq> [] \<and> al_severity r \<in> set ALERT_SEVERITIES \<and> distinct (al_channels r)
     \<and> (al_system r = None \<or> (al_integration r = None \<and> al_service r = None))
     \<and> al_resolve r \<in> {js ''auto'', js ''manual''}
     \<and> (al_source r = js ''telemetry'' \<or>
          (al_source r = js ''pushed'' \<and> al_signal r = js ''metric'' \<and> al_service r \<noteq> None))
     \<and> (al_env_mode r = js ''each'' \<and> al_envs r = [] \<or>
          (al_env_mode r = js ''only'' \<and> al_integration r \<noteq> None \<and> al_envs r \<noteq> [] \<and> distinct (al_envs r)))
     \<and> spec_ok r"

lemma metric_signal_spec_ok:
  assumes "metric_signal sv q h = Inr b" "no_spec h" "al_signal h = js ''metric''"
  shows "spec_ok b \<and> (al_source h = js ''pushed'' \<longrightarrow> al_service h \<noteq> None)"
proof -
  obtain m n where "b = h\<lparr>al_spec := n\<rparr>" and n: "(if al_source h = js ''pushed''
     then (if al_service h = None then Inl PushedNeedsService else validatePushedRuleSpec m)
     else validateMetricRuleSpec sv m) = Inr n"
    using assms(1) by (auto simp: metric_signal_def Let_def split: sum.splits)
  moreover have "ms_operator n \<in> set ALERT_OPERATORS \<and> (ms_metric n = [] \<longleftrightarrow> al_source h = js ''pushed'')"
    using n by (auto simp: validatePushedRuleSpec_def validateMetricRuleSpec_def Let_def
        split: if_splits sum.splits)
  moreover have "al_source h = js ''pushed'' \<longrightarrow> al_service h \<noteq> None" using n by (auto split: if_splits)
  ultimately show ?thesis using assms(2,3) by (auto simp: spec_ok_def no_spec_def trace_spec_count_def)
qed

lemma log_signal_spec_ok:
  assumes "log_signal q h = Inr b" "no_spec h" "al_signal h = js ''log''"
  shows "spec_ok b"
proof -
  obtain l where l: "ri_log q = Some l" using assms(1) by (auto simp: log_signal_def split: if_splits option.splits)
  then obtain n where n: "validateLogRuleSpec l = Inr n" "b = h\<lparr>al_log := Some n\<rparr>"
    using assms(1) by (auto simp: log_signal_def split: if_splits sum.splits)
  have "1 \<le> lg_threshold n \<and> trace_window_ok (lg_window n)"
    using n(1) by (auto simp: validateLogRuleSpec_def Let_def trace_window_ok_def split: if_splits sum.splits)
  then show ?thesis using assms(2,3) n(2) by (simp add: spec_ok_def no_spec_def trace_spec_count_def)
qed

lemma trace_signal_spec_ok:
  assumes "trace_signal q h = Inr b" "no_spec h" "al_signal h = js ''trace''"
  shows "spec_ok b"
  using assms(1)
proof (cases rule: trace_signal_cases)
  case (attribute t as)
  then show ?thesis using assms(2,3) trace_signal_bound [OF assms(1)] check_attrs_empty [OF attribute(7)]
    by (auto simp: spec_ok_def no_spec_def trace_spec_count_def)
qed (use assms(2,3) trace_signal_bound [OF assms(1)] in \<open>auto simp: spec_ok_def no_spec_def trace_spec_count_def\<close>)

lemma signal_spec_ok:
  assumes "signal_spec sv q h = Inr b" "no_spec h"
  shows "spec_ok b \<and> (al_source h = js ''pushed'' \<longrightarrow> al_service h \<noteq> None)"
  using assms metric_signal_spec_ok log_signal_spec_ok trace_signal_spec_ok pushed_is_metric [OF assms(1)]
  by (auto simp: signal_spec_def split: if_splits)

lemma spec_ok_channels [simp]: "spec_ok (b\<lparr>al_channels := c\<rparr>) = spec_ok b"
  by (simp add: spec_ok_def trace_spec_count_def)

lemma stored_rule_ok:
  assumes "put_rule sv i q = Inr r"
  shows "rule_ok r"
proof -
  obtain refs env b where h: "signal_spec sv q (head_rule i q refs env) = Inr b"
    "r = b\<lparr>al_channels := dedupe (al_channels b)\<rparr>" "go_trim (ri_name q) \<noteq> []"
    "request_severity q \<in> set ALERT_SEVERITIES" "rule_bindings sv q = Inr refs" "text_error sv q = None"
    "environment_scope (rr_integration refs) q = Inr env"
    using assms by (rule stored_head)
  note k = signal_spec_keeps [OF h(1)]
  have "no_spec (head_rule i q refs env)" by (simp add: no_spec_def head_rule_def)
  then have s: "spec_ok b" "request_source q = js ''pushed'' \<longrightarrow> go_str (ri_service q) \<noteq> []"
    using signal_spec_ok [OF h(1)] by (auto simp: head_rule_def)
  have e: "fst env = js ''each'' \<and> snd env = [] \<or>
      (fst env = js ''only'' \<and> rr_integration refs \<noteq> None \<and> snd env \<noteq> [] \<and> distinct (snd env))"
    using h(7) by (auto simp: environment_scope_def Let_def split: if_splits)
  show ?thesis
    using s e h(3,4) rule_bindingsD [OF h(5)] text_error_None [OF h(6)] pushed_is_metric [OF h(1)]
    by (auto simp: rule_ok_def h(2) k head_rule_def)
qed

end
