(* ===== verification/RuleStore.thy ===== *)
theory RuleStore
  imports Rules
begin

text \<open>
  What is known of a rule the API stores, and the one computation every writer's proof needs: a
  request whose head agrees with a rule (\<open>heads_as\<close>) is answered by the spec stage alone
  (\<open>put_with_head\<close>).
\<close>

section \<open>Selectors\<close>

lemma full_input_sel [simp]:
  "ri_name (full_input r) = al_name r" "ri_description (full_input r) = Some (al_description r)"
  "ri_severity (full_input r) = al_severity r" "ri_enabled (full_input r) = Some (al_enabled r)"
  "ri_channels (full_input r) = al_channels r" "ri_signal (full_input r) = Some (al_signal r)"
  "ri_spec (full_input r) = Some (al_spec r)" "ri_log (full_input r) = al_log r" "ri_terr (full_input r) = al_terr r"
  "ri_tlat (full_input r) = al_tlat r" "ri_tvol (full_input r) = al_tvol r" "ri_tattr (full_input r) = al_tattr r"
  "ri_service (full_input r) = al_service r" "ri_integration (full_input r) = al_integration r"
  "ri_system (full_input r) = al_system r" "ri_group (full_input r) = al_group r" "ri_runbook (full_input r) = al_runbook r"
  "ri_title (full_input r) = al_title r" "ri_body (full_input r) = al_body r" "ri_notif (full_input r) = al_notif r"
  "ri_source (full_input r) = Some (al_source r)" "ri_display (full_input r) = Some (al_display r)"
  "ri_unit (full_input r) = al_unit r" "ri_resolve (full_input r) = Some (al_resolve r)"
  "ri_env_mode (full_input r) = Some (al_env_mode r)" "ri_envs (full_input r) = Some (al_envs r)"
  by (simp_all add: full_input_def)

lemma head_rule_sel [simp]:
  "al_id (head_rule i q refs env) = i" "al_env_mode (head_rule i q refs env) = fst env"
  "al_envs (head_rule i q refs env) = snd env" "al_integration (head_rule i q refs env) = rr_integration refs"
  "al_system (head_rule i q refs env) = rr_system refs" "al_service (head_rule i q refs env) = omit_empty (go_str (ri_service q))"
  "al_group (head_rule i q refs env) = rr_group refs" "al_name (head_rule i q refs env) = go_trim (ri_name q)"
  "al_description (head_rule i q refs env) = go_str (ri_description q)"
  "al_runbook (head_rule i q refs env) = omit_empty (go_str (ri_runbook q))"
  "al_signal (head_rule i q refs env) = request_signal q" "al_severity (head_rule i q refs env) = request_severity q"
  "al_enabled (head_rule i q refs env) = coalesce (ri_enabled q) True" "al_source (head_rule i q refs env) = request_source q"
  "al_display (head_rule i q refs env) = truthy_bool (ri_display q)"
  "al_unit (head_rule i q refs env) = omit_empty (go_str (ri_unit q))" "al_resolve (head_rule i q refs env) = request_resolve q"
  "al_channels (head_rule i q refs env) = rr_channels refs" "al_title (head_rule i q refs env) = omit_empty (go_str (ri_title q))"
  "al_body (head_rule i q refs env) = omit_empty (go_str (ri_body q))"
  "al_notif (head_rule i q refs env) = map_option written_content (ri_notif q)"
  "al_spec (head_rule i q refs env) = zero_metric_spec" "al_log (head_rule i q refs env) = None"
  "al_terr (head_rule i q refs env) = None" "al_tlat (head_rule i q refs env) = None"
  "al_tvol (head_rule i q refs env) = None" "al_tattr (head_rule i q refs env) = None"
  by (simp_all add: head_rule_def)

section \<open>Stored rules\<close>

lemma stored_facts:
  assumes "uuid_canonical sv" "put_rule sv i q = Inr r"
  shows "al_id r = i" "go_trim (al_name r) = al_name r" "al_name r \<noteq> []"
    "al_severity r \<in> set ALERT_SEVERITIES" "go_trim (al_severity r) = al_severity r"
    "parse_channels sv (al_channels r) = Inr (al_channels r)" "dedupe (al_channels r) = al_channels r"
    "parse_ref sv InvalidIntegration (al_integration r) = Inr (al_integration r)"
    "parse_ref sv InvalidSystem (al_system r) = Inr (al_system r)"
    "parse_ref sv InvalidGroup (al_group r) = Inr (al_group r)"
    "omit_empty (go_str (al_service r)) = al_service r" "omit_empty (go_str (al_title r)) = al_title r"
    "omit_empty (go_str (al_body r)) = al_body r" "omit_empty (go_str (al_runbook r)) = al_runbook r"
    "omit_empty (go_str (al_unit r)) = al_unit r" "go_trim (al_description r) = al_description r"
    "sv_template sv (go_str (al_title r))" "sv_template sv (go_str (al_body r))"
    "map_option written_content (al_notif r) = al_notif r"
    "environment_scope (al_integration r) (full_input r) = Inr (al_env_mode r, al_envs r)"
    "al_notif r = None \<or> (sv_liquid sv (content_text nc_email_subject (al_notif r))
       \<and> sv_liquid sv (content_text nc_email_body (al_notif r)))"
proof -
  obtain refs env b where h: "signal_spec sv (full_input r) (head_rule i (full_input r) refs env) = Inr b"
    "r = b\<lparr>al_channels := dedupe (al_channels b)\<rparr>" "go_trim (ri_name (full_input r)) \<noteq> []"
    "request_severity (full_input r) \<in> set ALERT_SEVERITIES" "rule_bindings sv (full_input r) = Inr refs"
    "text_error sv (full_input r) = None" "environment_scope (rr_integration refs) (full_input r) = Inr env"
    using put_again [OF assms] by (rule stored_head)
  note k = signal_spec_keeps [OF h(1)]
  note b = rule_bindingsD [OF h(5)]
  have c: "al_id r = al_id b" "al_name r = al_name b" "al_integration r = al_integration b" "al_system r = al_system b"
    "al_group r = al_group b" "al_env_mode r = al_env_mode b" "al_envs r = al_envs b"
    "al_channels r = dedupe (al_channels b)" "al_description r = al_description b" "al_severity r = al_severity b"
    "al_service r = al_service b" "al_title r = al_title b" "al_body r = al_body b" "al_runbook r = al_runbook b"
    "al_unit r = al_unit b" "al_notif r = al_notif b" "al_source r = al_source b" "al_resolve r = al_resolve b"
    "al_signal r = al_signal b"
    by (simp_all add: h(2))
  note f = c [unfolded k head_rule_sel full_input_sel]
  show "al_id r = i" by (rule f(1))
  show "go_trim (al_name r) = al_name r" by (rule f(2) [symmetric])
  show "go_trim (al_description r) = al_description r" by (rule f(9) [unfolded go_str_simps(2), symmetric])
  show "omit_empty (go_str (al_service r)) = al_service r" by (rule f(11) [symmetric])
  show "omit_empty (go_str (al_title r)) = al_title r" by (rule f(12) [symmetric])
  show "omit_empty (go_str (al_body r)) = al_body r" by (rule f(13) [symmetric])
  show "omit_empty (go_str (al_runbook r)) = al_runbook r" by (rule f(14) [symmetric])
  show "omit_empty (go_str (al_unit r)) = al_unit r" by (rule f(15) [symmetric])
  show "map_option written_content (al_notif r) = al_notif r" by (rule f(16) [symmetric])
  show "al_name r \<noteq> []" using h(3) f(2) full_input_sel(1) by metis
  show "al_severity r \<in> set ALERT_SEVERITIES" "go_trim (al_severity r) = al_severity r"
    using h(4) f(10) [unfolded request_severity_def full_input_sel]
    by (simp_all add: request_severity_def or_default_def trim_words split: if_splits)
  show "dedupe (al_channels r) = al_channels r" by (simp add: f(8) dedupe_distinct)
  show "parse_channels sv (al_channels r) = Inr (al_channels r)"
    unfolding f(8) by (rule parse_channels_again [OF assms(1) conjunct1 [OF b]])
  show "parse_ref sv InvalidIntegration (al_integration r) = Inr (al_integration r)"
    "parse_ref sv InvalidSystem (al_system r) = Inr (al_system r)"
    "parse_ref sv InvalidGroup (al_group r) = Inr (al_group r)"
    using b unfolding full_input_sel f(3,4,5) [symmetric] by simp_all
  show "sv_template sv (go_str (al_title r))" "sv_template sv (go_str (al_body r))"
    using h(6) by (auto simp: text_error_def split: if_splits)
  show "al_notif r = None \<or> (sv_liquid sv (content_text nc_email_subject (al_notif r))
      \<and> sv_liquid sv (content_text nc_email_body (al_notif r)))"
    using h(6) by (auto simp: text_error_def split: if_splits)
  show "environment_scope (al_integration r) (full_input r) = Inr (al_env_mode r, al_envs r)"
    using h(7) unfolding f(3) [symmetric] by (cases env) (simp add: f(6,7))
qed

lemma stored_signals:
  assumes "put_rule sv i q = Inr r"
  shows "al_signal r \<in> {js ''metric'', js ''log'', js ''trace''}"
  using stored_rule_ok [OF assms] by (auto simp: rule_ok_def spec_ok_def split: if_splits)

lemma stored_signal:
  assumes "uuid_canonical sv" "put_rule sv i q = Inr r"
  obtains h b where "signal_spec sv (full_input r) h = Inr b" "no_spec h" "al_spec h = zero_metric_spec"
    "al_spec r = al_spec b" "al_log r = al_log b" "al_terr r = al_terr b" "al_tlat r = al_tlat b"
    "al_tvol r = al_tvol b" "al_tattr r = al_tattr b" "al_signal h = al_signal r" "al_source h = al_source r"
    "al_service h = al_service r" "al_integration h = al_integration r"
proof -
  obtain refs env b where h: "signal_spec sv (full_input r) (head_rule i (full_input r) refs env) = Inr b"
    "r = b\<lparr>al_channels := dedupe (al_channels b)\<rparr>"
    using put_again [OF assms] by (rule stored_head)
  note k = signal_spec_keeps [OF h(1)]
  have c: "al_spec r = al_spec b" "al_log r = al_log b" "al_terr r = al_terr b" "al_tlat r = al_tlat b"
    "al_tvol r = al_tvol b" "al_tattr r = al_tattr b" "al_signal b = al_signal r" "al_source b = al_source r"
    "al_service b = al_service r" "al_integration b = al_integration r"
    by (simp_all add: h(2))
  show thesis
  proof (rule that [OF h(1) _ _ c(1-6)])
    show "no_spec (head_rule i (full_input r) refs env)" by (simp add: no_spec_def)
    show "al_signal (head_rule i (full_input r) refs env) = al_signal r"
      "al_source (head_rule i (full_input r) refs env) = al_source r"
      "al_service (head_rule i (full_input r) refs env) = al_service r"
      "al_integration (head_rule i (full_input r) refs env) = al_integration r"
      unfolding k [symmetric] by (rule c)+
  qed simp
qed

lemma stored_metric:
  assumes "uuid_canonical sv" "put_rule sv i q = Inr r" "al_signal r = js ''metric''"
  shows "(if al_source r = js ''pushed'' then al_service r \<noteq> None \<and> validatePushedRuleSpec (al_spec r) = Inr (al_spec r)
     else validateMetricRuleSpec sv (al_spec r) = Inr (al_spec r))
   \<and> al_log r = None \<and> al_terr r = None \<and> al_tlat r = None \<and> al_tvol r = None \<and> al_tattr r = None"
  using assms(1,2)
proof (rule stored_signal)
  fix h b assume a: "signal_spec sv (full_input r) h = Inr b" "no_spec h" "al_spec r = al_spec b" "al_log r = al_log b"
    "al_terr r = al_terr b" "al_tlat r = al_tlat b" "al_tvol r = al_tvol b" "al_tattr r = al_tattr b"
    "al_signal h = al_signal r" "al_source h = al_source r" "al_service h = al_service r"
  then have "metric_signal sv (full_input r) h = Inr b" by (simp add: signal_spec_def assms(3))
  then obtain n where "(if al_source r = js ''pushed''
     then (if al_service r = None then Inl PushedNeedsService else validatePushedRuleSpec (al_spec r))
     else validateMetricRuleSpec sv (al_spec r)) = Inr n" "b = h\<lparr>al_spec := n\<rparr>"
    unfolding metric_signal_def Let_def a(9-11) full_input_sel coalesce_simps by (auto split: sum.splits)
  then show ?thesis using a by (auto simp: no_spec_def split: if_splits)
qed

lemma stored_log:
  assumes "uuid_canonical sv" "put_rule sv i q = Inr r" "al_signal r = js ''log''"
  shows "\<exists>l. al_log r = Some l \<and> validateLogRuleSpec l = Inr l \<and> al_source r \<noteq> js ''pushed'' \<and>
     \<not> (lg_min l = 0 \<and> lg_body l = [] \<and> lg_attrs l = None \<and> al_service r = None \<and> al_integration r = None) \<and>
     al_spec r = zero_metric_spec \<and> al_terr r = None \<and> al_tlat r = None \<and> al_tvol r = None \<and> al_tattr r = None"
  using assms(1,2)
proof (rule stored_signal)
  fix h b assume a: "signal_spec sv (full_input r) h = Inr b" "no_spec h" "al_spec h = zero_metric_spec" "al_spec r = al_spec b" "al_log r = al_log b"
    "al_terr r = al_terr b" "al_tlat r = al_tlat b" "al_tvol r = al_tvol b" "al_tattr r = al_tattr b"
    "al_signal h = al_signal r" "al_source h = al_source r" "al_service h = al_service r" "al_integration h = al_integration r"
  then have s: "log_signal (full_input r) h = Inr b" by (simp add: signal_spec_def assms(3))
  then obtain l where l: "al_log r = Some l" by (auto simp: log_signal_def split: if_splits option.splits)
  then obtain n where n: "validateLogRuleSpec l = Inr n" "b = h\<lparr>al_log := Some n\<rparr>" "al_source r \<noteq> js ''pushed''"
    "\<not> (lg_min n = 0 \<and> lg_body n = [] \<and> lg_attrs n = None \<and> al_service r = None \<and> al_integration r = None)"
    using s a(11-13) by (auto simp: log_signal_def split: if_splits sum.splits)
  then have "n = l" using a(5) l by simp
  with n l a show ?thesis by (auto simp: no_spec_def)
qed

lemma stored_trace:
  assumes "uuid_canonical sv" "put_rule sv i q = Inr r" "al_signal r = js ''trace''"
  shows "al_source r \<noteq> js ''pushed'' \<and> \<not> (al_integration r = None \<and> al_service r = None) \<and> al_spec r = zero_metric_spec
   \<and> al_log r = None \<and>
   (case (al_tlat r, al_tvol r, al_tattr r, al_terr r) of
      (Some t, v, a, e) \<Rightarrow> v = None \<and> a = None \<and> e = None \<and> 1 \<le> tl_threshold t
    | (None, Some t, a, e) \<Rightarrow> a = None \<and> e = None \<and> 1 \<le> tv_threshold t \<and> trace_window_ok (tv_window t)
    | (None, None, Some t, e) \<Rightarrow> e = None \<and> 1 \<le> ta_threshold t \<and> trace_window_ok (ta_window t)
         \<and> ta_attrs t \<noteq> [] \<and> check_attrs (ta_attrs t) = Inr (ta_attrs t)
    | (None, None, None, Some t) \<Rightarrow> 1 \<le> te_threshold t
         \<and> check_attrs (coalesce (te_attrs t) []) = Inr (coalesce (te_attrs t) [])
         \<and> omit_empty (coalesce (te_attrs t) []) = te_attrs t
    | _ \<Rightarrow> False)"
  using assms(1,2)
proof (rule stored_signal)
  fix h b assume a: "signal_spec sv (full_input r) h = Inr b" "no_spec h" "al_spec h = zero_metric_spec" "al_spec r = al_spec b" "al_log r = al_log b"
    "al_terr r = al_terr b" "al_tlat r = al_tlat b" "al_tvol r = al_tvol b" "al_tattr r = al_tattr b"
    "al_signal h = al_signal r" "al_source h = al_source r" "al_service h = al_service r" "al_integration h = al_integration r"
  then have s: "trace_signal (full_input r) h = Inr b" by (simp add: signal_spec_def assms(3))
  from s show ?thesis
  proof (cases rule: trace_signal_cases)
    case (attribute t as)
    then have "t = t\<lparr>ta_attrs := as\<rparr>" using a(9) by simp
    then have "as = ta_attrs t" by (metis trace_attribute_spec.select_convs(3) trace_attribute_spec.surjective trace_attribute_spec.update_convs(3))
    then show ?thesis using attribute a trace_signal_bound [OF s] by (auto simp: no_spec_def)
  next
    case (error t as)
    then have "t = t\<lparr>te_attrs := omit_empty as\<rparr>" using a(6) by simp
    then have "te_attrs t = omit_empty as" by (metis trace_error_spec.select_convs(3) trace_error_spec.surjective trace_error_spec.update_convs(3))
    then show ?thesis using error a trace_signal_bound [OF s] by (auto simp: no_spec_def)
  qed (use a trace_signal_bound [OF s] in \<open>auto simp: no_spec_def\<close>)
qed

section \<open>Requests with a stored head\<close>

definition drop_specs :: "alert_rule \<Rightarrow> alert_rule" where
  "drop_specs r = r\<lparr>al_spec := zero_metric_spec, al_log := None, al_terr := None, al_tlat := None,
     al_tvol := None, al_tattr := None\<rparr>"

lemma drop_specs_sel [simp]:
  "al_id (drop_specs r) = al_id r" "al_name (drop_specs r) = al_name r" "al_group (drop_specs r) = al_group r"
  "al_integration (drop_specs r) = al_integration r" "al_system (drop_specs r) = al_system r"
  "al_service (drop_specs r) = al_service r" "al_env_mode (drop_specs r) = al_env_mode r"
  "al_envs (drop_specs r) = al_envs r" "al_description (drop_specs r) = al_description r"
  "al_runbook (drop_specs r) = al_runbook r" "al_signal (drop_specs r) = al_signal r"
  "al_severity (drop_specs r) = al_severity r" "al_enabled (drop_specs r) = al_enabled r"
  "al_source (drop_specs r) = al_source r" "al_display (drop_specs r) = al_display r" "al_unit (drop_specs r) = al_unit r"
  "al_resolve (drop_specs r) = al_resolve r" "al_channels (drop_specs r) = al_channels r"
  "al_title (drop_specs r) = al_title r" "al_body (drop_specs r) = al_body r" "al_notif (drop_specs r) = al_notif r"
  "al_spec (drop_specs r) = zero_metric_spec" "al_log (drop_specs r) = None" "al_terr (drop_specs r) = None"
  "al_tlat (drop_specs r) = None" "al_tvol (drop_specs r) = None" "al_tattr (drop_specs r) = None"
  by (simp_all add: drop_specs_def)

text \<open>A request whose head agrees with a stored rule, field by field, up to what it leaves out.\<close>

definition heads_as :: "alert_rule \<Rightarrow> rule_input \<Rightarrow> bool" where
  "heads_as r p \<longleftrightarrow> go_trim (ri_name p) = al_name r \<and> request_severity p = al_severity r \<and> ri_channels p = al_channels r
     \<and> request_signal p = al_signal r \<and> request_source p = al_source r \<and> request_resolve p = al_resolve r
     \<and> omit_empty (go_str (ri_service p)) = al_service r \<and> ri_integration p = al_integration r
     \<and> ri_system p = al_system r \<and> ri_group p = al_group r \<and> omit_empty (go_str (ri_title p)) = al_title r
     \<and> omit_empty (go_str (ri_body p)) = al_body r \<and> map_option written_content (ri_notif p) = al_notif r
     \<and> go_str (ri_description p) = al_description r \<and> omit_empty (go_str (ri_runbook p)) = al_runbook r
     \<and> coalesce (ri_enabled p) True = al_enabled r \<and> truthy_bool (ri_display p) = al_display r
     \<and> omit_empty (go_str (ri_unit p)) = al_unit r
     \<and> environment_scope (al_integration r) p = Inr (al_env_mode r, al_envs r)"

lemma put_with_head:
  assumes h: "heads_as r p" and i: "al_id r = i"
    and ok: "al_name r \<noteq> []" "al_severity r \<in> set ALERT_SEVERITIES"
      "parse_channels sv (al_channels r) = Inr (al_channels r)"
      "parse_ref sv InvalidIntegration (al_integration r) = Inr (al_integration r)"
      "parse_ref sv InvalidSystem (al_system r) = Inr (al_system r)"
      "parse_ref sv InvalidGroup (al_group r) = Inr (al_group r)"
      "al_system r = None \<or> (al_integration r = None \<and> al_service r = None)"
      "sv_template sv (coalesce (al_title r) [])" "sv_template sv (coalesce (al_body r) [])"
      "al_source r \<in> {js ''telemetry'', js ''pushed''}" "al_resolve r \<in> {js ''auto'', js ''manual''}"
      "ri_notif p = None \<or> (sv_liquid sv (content_text nc_email_subject (ri_notif p))
         \<and> sv_liquid sv (content_text nc_email_body (ri_notif p)))"
  shows "put_rule sv i p = map_sum id store_rule (signal_spec sv p (drop_specs r))"
proof -
  define refs where "refs = \<lparr>rr_channels = al_channels r, rr_integration = al_integration r, rr_system = al_system r,
    rr_group = al_group r\<rparr>"
  note hs = h [unfolded heads_as_def]
  have s: "go_str (ri_service p) = coalesce (al_service r) []" "go_str (ri_title p) = coalesce (al_title r) []"
    "go_str (ri_body p) = coalesce (al_body r) []"
    using hs by (metis omit_empty_simps(3))+
  have "rule_bindings sv p = Inr refs"
    using hs ok s by (auto simp: rule_bindings_def refs_def)
  moreover have "text_error sv p = None" using hs ok s by (auto simp: text_error_def)
  moreover have "environment_scope (rr_integration refs) p = Inr (al_env_mode r, al_envs r)"
    using hs by (simp add: refs_def)
  ultimately have "rule_head sv i p = Inr (head_rule i p refs (al_env_mode r, al_envs r))"
    using hs ok by (intro rule_headI) simp_all
  also have "head_rule i p refs (al_env_mode r, al_envs r) = drop_specs r"
    by (rule alert_rule.equality) (use hs i in \<open>simp_all add: refs_def\<close>)
  finally show ?thesis by (simp add: put_rule_def buildRule_def)
qed

lemma bare_input_sel [simp]:
  "ri_name (bare_input n s c) = n"
  "ri_description (bare_input n s c) = None"
  "ri_severity (bare_input n s c) = s"
  "ri_enabled (bare_input n s c) = None"
  "ri_channels (bare_input n s c) = c"
  "ri_signal (bare_input n s c) = None"
  "ri_spec (bare_input n s c) = None"
  "ri_log (bare_input n s c) = None"
  "ri_terr (bare_input n s c) = None"
  "ri_tlat (bare_input n s c) = None"
  "ri_tvol (bare_input n s c) = None"
  "ri_tattr (bare_input n s c) = None"
  "ri_service (bare_input n s c) = None"
  "ri_integration (bare_input n s c) = None"
  "ri_system (bare_input n s c) = None"
  "ri_group (bare_input n s c) = None"
  "ri_runbook (bare_input n s c) = None"
  "ri_title (bare_input n s c) = None"
  "ri_body (bare_input n s c) = None"
  "ri_notif (bare_input n s c) = None"
  "ri_source (bare_input n s c) = None"
  "ri_display (bare_input n s c) = None"
  "ri_unit (bare_input n s c) = None"
  "ri_resolve (bare_input n s c) = None"
  "ri_env_mode (bare_input n s c) = None"
  "ri_envs (bare_input n s c) = None"
  by (simp_all add: bare_input_def)

lemma environment_scope_cong:
  "ri_env_mode p = ri_env_mode q \<Longrightarrow> ri_envs p = ri_envs q \<Longrightarrow> environment_scope i p = environment_scope i q"
  by (simp add: environment_scope_def)

lemma environment_scope_each:
  "ri_env_mode p = None \<or> ri_env_mode p = Some (js ''each'') \<Longrightarrow> environment_scope i p = Inr (js ''each'', [])"
  by (auto simp: environment_scope_def trim_words)


section \<open>A stored rule to try things on\<close>

definition demo_api :: cell_api where
  "demo_api = \<lparr>sv_uuid = (\<lambda>s. if s \<in> {js ''i1'', js ''c1''} then Some s else None),
     sv_template = (\<lambda>_. True), sv_liquid = (\<lambda>_. True), sv_duration = (\<lambda>s. s = js ''5m'')\<rparr>"

definition demo_rule :: alert_rule where
  "demo_rule =
     \<lparr>al_id = js ''r1'', al_env_mode = js ''each'', al_envs = [], al_integration = Some (js ''i1''), al_system = None,
      al_service = None, al_group = None, al_name = js ''Queue depth'', al_description = [], al_runbook = None,
      al_signal = js ''metric'',
      al_spec = \<lparr>ms_metric = js ''depth'', ms_aggregation = js ''max'', ms_operator = js ''gt'', ms_threshold = 0,
        ms_window = js ''5m'', ms_attrs = None, ms_split = Some (js ''queue''), ms_no_data = None\<rparr>,
      al_log = None, al_terr = None, al_tlat = None, al_tvol = None, al_tattr = None, al_severity = js ''critical'',
      al_enabled = True, al_source = js ''telemetry'', al_display = False, al_unit = None,
      al_resolve = js ''manual'', al_channels = [js ''c1''], al_title = None, al_body = None, al_notif = None\<rparr>"

lemma demo_uuid: "uuid_canonical demo_api"
proof -
  have "go_trim (js ''i1'') = js ''i1''" "go_trim (js ''c1'') = js ''c1''" by code_simp+
  then show ?thesis by (auto simp: uuid_canonical_def demo_api_def split: if_splits)
qed

lemma demo_stored: "put_rule demo_api (js ''r1'') (full_input demo_rule) = Inr demo_rule"
  by code_simp

section \<open>What the API keeps\<close>

text \<open>A rule the API has stored is a fixed point of the API: a request that carries every field of
  it back changes nothing, whatever its signal, scope and environments.\<close>

theorem full_put_changes_nothing:
  assumes "uuid_canonical sv" "put_rule sv i q = Inr r"
  shows "put_rule sv i (full_input r) = Inr r"
  by (rule put_again [OF assms])

theorem full_put_changes_nothing_ex:
  "put_rule demo_api (js ''r1'') (full_input demo_rule) = Inr demo_rule"
  by (rule full_put_changes_nothing [OF demo_uuid demo_stored])



end
