(* ===== verification/RuleEditors.thy ===== *)
theory RuleEditors
  imports RuleStore
begin

text \<open>
  The writers of alert rules in the browser: the three editors of
  \<open>components/health/HealthChecks.tsx\<close> (metric, log and trace checks), the environment field of
  \<open>components/health/EnvironmentScopeField.tsx\<close>, the two enable switches (\<open>pages/Alerts.tsx\<close>,
  \<open>pages/IntegrationSettings.tsx\<close>), the channel routing of \<open>pages/ServiceDetail.tsx\<close> and the
  create forms of \<open>components/CreateTraceAlertDrawer.tsx\<close>, \<open>components/metrics/AlertBuilder.tsx\<close>
  and \<open>components/logs/LogsView.tsx\<close>.

  An editor is its state, what \<open>useState\<close> puts there when a rule is opened, the handlers that
  change more than one field, and the request \<open>save\<close> sends, or the message it shows instead.
  What the request does to the stored rule is \<open>put_rule\<close> of \<open>Rules\<close>.  A number field holds
  a number: \<open>Number\<close> of the text of an \<open><input type="number">\<close> is never \<open>NaN\<close>.
\<close>

section \<open>Scope\<close>

datatype check_scope = ScopeService | ScopeIntegration | ScopeSystem

datatype check_kind = KindMetric | KindLog | KindTrace

definition scopeBinding :: "check_scope \<Rightarrow> jstring \<Rightarrow> rule_input \<Rightarrow> rule_input" where
  "scopeBinding scope target q =
     (case scope of
        ScopeService \<Rightarrow> q\<lparr>ri_service := Some target\<rparr>
      | ScopeIntegration \<Rightarrow> q\<lparr>ri_integration := Some target\<rparr>
      | ScopeSystem \<Rightarrow> q\<lparr>ri_system := Some target\<rparr>)"

definition editorKindOf :: "alert_rule \<Rightarrow> check_kind" where
  "editorKindOf r =
     (if al_signal r = js ''log'' then KindLog else if al_signal r = js ''trace'' then KindTrace else KindMetric)"

datatype scope_mode = EachEnvironment | OnlyEnvironments

record env_scope =
  es_mode :: scope_mode
  es_envs :: "jstring list"

definition initialEnvScope :: "alert_rule option \<Rightarrow> env_scope" where
  "initialEnvScope rule =
     (case rule of
        Some r \<Rightarrow> if al_env_mode r = js ''only'' then \<lparr>es_mode = OnlyEnvironments, es_envs = al_envs r\<rparr>
                  else \<lparr>es_mode = EachEnvironment, es_envs = []\<rparr>
      | None \<Rightarrow> \<lparr>es_mode = EachEnvironment, es_envs = []\<rparr>)"

definition envScopePayload :: "check_scope \<Rightarrow> env_scope \<Rightarrow> rule_input \<Rightarrow> rule_input" where
  "envScopePayload scope s q =
     (if scope \<noteq> ScopeIntegration then q
      else if es_mode s = OnlyEnvironments
      then q\<lparr>ri_env_mode := Some (js ''only''), ri_envs := Some (es_envs s)\<rparr>
      else q\<lparr>ri_env_mode := Some (js ''each''), ri_envs := Some []\<rparr>)"

text \<open>The checkbox of one environment.\<close>

definition toggle_environment :: "jstring \<Rightarrow> env_scope \<Rightarrow> env_scope" where
  "toggle_environment e s =
     s\<lparr>es_envs := (if e \<in> set (es_envs s) then filter (\<lambda>x. x \<noteq> e) (es_envs s) else es_envs s @ [e])\<rparr>"

text \<open>What every editor sends: an update of the rule it was opened on, which carries the fields it
  does not edit, or a new rule.\<close>

datatype save_request = UpdateRule jstring rule_input | CreateRule rule_input

definition send_check :: "alert_rule option \<Rightarrow> rule_input \<Rightarrow> save_request" where
  "send_check rule q =
     (case rule of
        Some r \<Rightarrow> UpdateRule (al_id r)
          (q\<lparr>ri_description := Some (al_description r), ri_enabled := Some (al_enabled r),
             ri_channels := al_channels r, ri_group := al_group r, ri_title := al_title r,
             ri_body := al_body r\<rparr>)
      | None \<Rightarrow> CreateRule (q\<lparr>ri_enabled := Some True, ri_channels := []\<rparr>))"

definition or_undefined :: "jstring \<Rightarrow> jstring option" where
  "or_undefined s = (if s = [] then None else Some s)"

text \<open>\<open>Math.max(1, Math.floor(n || 1))\<close>\<close>

definition at_least_one :: "rat \<Rightarrow> int" where
  "at_least_one n = max 1 \<lfloor>if n = 0 then 1 else n\<rfloor>"

section \<open>The metric editor\<close>

record metric_editor =
  me_pushed :: bool
  me_name :: jstring
  me_runbook :: jstring
  me_env :: env_scope
  me_metric :: jstring
  me_attrs :: "rule_attr list"
  me_aggregation :: jstring
  me_operator :: jstring
  me_threshold :: rat
  me_window :: jstring
  me_no_data :: bool
  me_severity :: jstring
  me_display :: bool
  me_unit :: jstring
  me_resolve :: jstring

definition open_metric_editor :: "alert_rule option \<Rightarrow> metric_editor" where
  "open_metric_editor rule =
     (let spec = map_option al_spec rule in
      \<lparr>me_pushed = (map_option al_source rule = Some (js ''pushed'')),
       me_name = coalesce (map_option al_name rule) [],
       me_runbook = coalesce (Option.bind rule al_runbook) [],
       me_env = initialEnvScope rule,
       me_metric = coalesce (map_option ms_metric spec) [],
       me_attrs = coalesce (Option.bind spec ms_attrs) [],
       me_aggregation = coalesce (map_option ms_aggregation spec) (js ''max''),
       me_operator = coalesce (map_option ms_operator spec) (js ''gt''),
       me_threshold = coalesce (map_option ms_threshold spec) 100,
       me_window = or_str (map_option ms_window spec) (js ''5m''),
       me_no_data = coalesce (Option.bind spec ms_no_data) False,
       me_severity = coalesce (map_option al_severity rule) (js ''critical''),
       me_display = coalesce (map_option al_display rule) False,
       me_unit = coalesce (Option.bind rule al_unit) [],
       me_resolve = (if map_option al_resolve rule = Some (js ''manual'') then js ''manual'' else js ''auto'')\<rparr>)"

text \<open>The effect of the metric (and of the page's window): its first run keeps a rule's filters, every
  later one drops them.  A filter is added once per key and operator.\<close>

definition fields_effect :: "bool \<Rightarrow> metric_editor \<Rightarrow> metric_editor" where
  "fields_effect first st = (if first then st else st\<lparr>me_attrs := []\<rparr>)"

definition add_attr_filter :: "rule_attr \<Rightarrow> metric_editor \<Rightarrow> metric_editor" where
  "add_attr_filter f st =
     (if list_ex (\<lambda>c. ra_key c = ra_key f \<and> ra_op c = ra_op f) (me_attrs st) then st
      else st\<lparr>me_attrs := me_attrs st @ [f]\<rparr>)"

definition metric_spec_of :: "metric_editor \<Rightarrow> metric_spec" where
  "metric_spec_of st =
     \<lparr>ms_metric = me_metric st, ms_aggregation = me_aggregation st, ms_operator = me_operator st,
      ms_threshold = me_threshold st, ms_window = me_window st, ms_attrs = Some (me_attrs st),
      ms_split = None, ms_no_data = Some (me_no_data st)\<rparr>"

definition save_metric :: "check_scope \<Rightarrow> jstring \<Rightarrow> alert_rule option \<Rightarrow> metric_editor
    \<Rightarrow> jstring + save_request" where
  "save_metric scope target rule st =
     (let pushed = scope = ScopeService \<and> me_pushed st in
      if \<not> pushed \<and> me_metric st = [] then Inl (js ''Pick a metric first.'')
      else
        let name = or_default (trim (me_name st))
              (if pushed then js ''Pushed value''
               else if me_metric st \<noteq> [] then me_metric st @ js '' health'' else js ''Health check'');
            spec = (if pushed
              then \<lparr>ms_metric = [], ms_aggregation = js ''last'', ms_operator = me_operator st,
                    ms_threshold = me_threshold st, ms_window = js ''5m'', ms_attrs = Some [],
                    ms_split = None, ms_no_data = None\<rparr>
              else metric_spec_of st)
        in Inr (send_check rule (envScopePayload scope (me_env st) (scopeBinding scope target
             ((bare_input name (me_severity st) [])
               \<lparr>ri_runbook := Some (trim (me_runbook st)), ri_signal := Some (js ''metric''),
                ri_spec := Some spec,
                ri_source := Some (if pushed then js ''pushed'' else js ''telemetry''),
                ri_display := Some (if scope = ScopeService then me_display st else False),
                ri_unit := or_undefined (trim (me_unit st)), ri_resolve := Some (me_resolve st)\<rparr>)))))"

section \<open>The log editor\<close>

record log_editor =
  le_name :: jstring
  le_runbook :: jstring
  le_env :: env_scope
  le_severity :: jstring
  le_min :: int
  le_body :: jstring
  le_threshold :: rat
  le_window :: int
  le_comparison :: jstring
  le_resolve :: jstring

definition open_log_editor :: "alert_rule option \<Rightarrow> log_editor" where
  "open_log_editor rule =
     (let ls = Option.bind rule al_log in
      \<lparr>le_name = coalesce (map_option al_name rule) [],
       le_runbook = coalesce (Option.bind rule al_runbook) [],
       le_env = initialEnvScope rule,
       le_severity = coalesce (map_option al_severity rule) (js ''warning''),
       le_min = coalesce (map_option lg_min ls) 17,
       le_body = coalesce (map_option lg_body ls) [],
       le_threshold = coalesce (map_option (\<lambda>l. of_int (lg_threshold l)) ls) 1,
       le_window = coalesce (map_option lg_window ls) 300,
       le_comparison = (if Option.bind ls lg_comparison = Some (js ''fewer_than'') then js ''fewer_than''
                        else js ''at_least''),
       le_resolve = (if map_option al_resolve rule = Some (js ''auto'') then js ''auto'' else js ''manual'')\<rparr>)"

definition save_log :: "check_scope \<Rightarrow> jstring \<Rightarrow> alert_rule option \<Rightarrow> log_editor \<Rightarrow> jstring + save_request" where
  "save_log scope target rule st =
     (let name = or_default (trim (le_name st))
            (if trim (le_body st) \<noteq> [] then js ''Log: '' @ trim (le_body st) else js ''Log check'')
      in Inr (send_check rule (envScopePayload scope (le_env st) (scopeBinding scope target
           ((bare_input name (le_severity st) [])
             \<lparr>ri_runbook := Some (trim (le_runbook st)), ri_signal := Some (js ''log''),
              ri_log := Some \<lparr>lg_min = le_min st, lg_body = trim (le_body st), lg_attrs = Some [],
                lg_threshold = at_least_one (le_threshold st), lg_window = le_window st,
                lg_comparison = Some (le_comparison st)\<rparr>,
              ri_resolve := Some (le_resolve st)\<rparr>)))))"

section \<open>The trace editor\<close>

datatype trace_mode = ModeErrors | ModeLatency | ModeVolume | ModeAttribute

record trace_editor =
  tr_mode :: trace_mode
  tr_name :: jstring
  tr_runbook :: jstring
  tr_env :: env_scope
  tr_severity :: jstring
  tr_threshold :: rat
  tr_threshold_ms :: rat
  tr_aggregation :: jstring
  tr_volume :: rat
  tr_attr_threshold :: rat
  tr_attrs :: "rule_attr list"
  tr_window :: int
  tr_resolve :: jstring

definition first_some :: "'a option list \<Rightarrow> 'a \<Rightarrow> 'a" where
  "first_some vs d = (case find (\<lambda>v. v \<noteq> None) vs of Some (Some v) \<Rightarrow> v | _ \<Rightarrow> d)"

definition open_trace_editor :: "alert_rule option \<Rightarrow> trace_editor" where
  "open_trace_editor rule =
     (let ts = Option.bind rule al_terr; ls = Option.bind rule al_tlat;
          vs = Option.bind rule al_tvol; as = Option.bind rule al_tattr in
      \<lparr>tr_mode = (if ls \<noteq> None then ModeLatency else if vs \<noteq> None then ModeVolume
                  else if as \<noteq> None then ModeAttribute else ModeErrors),
       tr_name = coalesce (map_option al_name rule) [],
       tr_runbook = coalesce (Option.bind rule al_runbook) [],
       tr_env = initialEnvScope rule,
       tr_severity = coalesce (map_option al_severity rule) (js ''warning''),
       tr_threshold = coalesce (map_option (\<lambda>t. of_int (te_threshold t)) ts) 1,
       tr_threshold_ms = coalesce (map_option (\<lambda>t. of_int (tl_threshold t)) ls) 1000,
       tr_aggregation = (if map_option tl_aggregation ls = Some (js ''max'') then js ''max'' else js ''p95''),
       tr_volume = coalesce (map_option (\<lambda>t. of_int (tv_threshold t)) vs) 5,
       tr_attr_threshold = coalesce (map_option (\<lambda>t. of_int (ta_threshold t)) as) 1,
       tr_attrs = coalesce (map_option ta_attrs as) [],
       tr_window = first_some [map_option te_window ts, map_option tl_window ls, map_option tv_window vs,
         map_option ta_window as] 300,
       tr_resolve = (case rule of
           Some r \<Rightarrow> if al_resolve r = js ''auto'' then js ''auto'' else js ''manual''
         | None \<Rightarrow> js ''manual'')\<rparr>)"

definition pickMode :: "alert_rule option \<Rightarrow> trace_mode \<Rightarrow> trace_editor \<Rightarrow> trace_editor" where
  "pickMode rule m st =
     (let st' = st\<lparr>tr_mode := m\<rparr> in
      if rule = None then st'\<lparr>tr_resolve := (if m = ModeLatency then js ''auto'' else js ''manual'')\<rparr> else st')"

definition save_trace :: "check_scope \<Rightarrow> jstring \<Rightarrow> alert_rule option \<Rightarrow> trace_editor
    \<Rightarrow> jstring + save_request" where
  "save_trace scope target rule st =
     (if tr_mode st = ModeAttribute \<and> tr_attrs st = []
      then Inl (js ''Add at least one attribute condition '' @ [emdash]
             @ js '' otherwise this would match every trace.'')
      else
        let body = (\<lambda>default. envScopePayload scope (tr_env st) (scopeBinding scope target
              ((bare_input (or_default (trim (tr_name st)) default) (tr_severity st) [])
                \<lparr>ri_runbook := Some (trim (tr_runbook st)), ri_signal := Some (js ''trace''),
                 ri_resolve := Some (tr_resolve st)\<rparr>)))
        in Inr (send_check rule
          (case tr_mode st of
             ModeLatency \<Rightarrow> (body (js ''Response time''))
               \<lparr>ri_tlat := Some \<lparr>tl_threshold = at_least_one (tr_threshold_ms st), tl_window = tr_window st,
                 tl_aggregation = tr_aggregation st\<rparr>\<rparr>
           | ModeVolume \<Rightarrow> (body (js ''Low traffic''))
               \<lparr>ri_tvol := Some \<lparr>tv_threshold = at_least_one (tr_volume st), tv_window = tr_window st\<rparr>\<rparr>
           | ModeAttribute \<Rightarrow> (body (js ''Attribute threshold''))
               \<lparr>ri_tattr := Some \<lparr>ta_threshold = at_least_one (tr_attr_threshold st), ta_window = tr_window st,
                 ta_attrs = tr_attrs st\<rparr>\<rparr>
           | ModeErrors \<Rightarrow> (body (js ''Failed traces''))
               \<lparr>ri_terr := Some \<lparr>te_threshold = at_least_one (tr_threshold st), te_window = tr_window st,
                 te_attrs = None\<rparr>\<rparr>)))"

section \<open>Saving an editor nobody touched\<close>

text \<open>\<open>HealthCheckEditDrawer\<close>: the editor of the rule's kind, opened on it and saved.\<close>

definition save_untouched :: "check_scope \<Rightarrow> jstring \<Rightarrow> alert_rule \<Rightarrow> jstring + save_request" where
  "save_untouched scope target r =
     (case editorKindOf r of
        KindMetric \<Rightarrow> save_metric scope target (Some r) (open_metric_editor (Some r))
      | KindLog \<Rightarrow> save_log scope target (Some r) (open_log_editor (Some r))
      | KindTrace \<Rightarrow> save_trace scope target (Some r) (open_trace_editor (Some r)))"

text \<open>What \<open>save\<close> ends in: a message, or the stored rule.\<close>

datatype save_error = Message jstring | Refused rule_error

definition perform :: "cell_api \<Rightarrow> jstring \<Rightarrow> jstring + save_request \<Rightarrow> save_error + alert_rule" where
  "perform sv fresh s =
     (case s of
        Inl m \<Rightarrow> Inl (Message m)
      | Inr (UpdateRule i q) \<Rightarrow> map_sum Refused id (put_rule sv i q)
      | Inr (CreateRule q) \<Rightarrow> map_sum Refused id (put_rule sv fresh q))"

section \<open>What an untouched editor keeps\<close>

definition scope_of :: "check_scope \<Rightarrow> alert_rule \<Rightarrow> jstring option" where
  "scope_of scope r = (case scope of ScopeService \<Rightarrow> al_service r | ScopeIntegration \<Rightarrow> al_integration r
     | ScopeSystem \<Rightarrow> al_system r)"

definition editor_texts_clean :: "alert_rule \<Rightarrow> bool" where
  "editor_texts_clean r \<longleftrightarrow> trim (al_name r) = al_name r
     \<and> trim (coalesce (al_runbook r) []) = coalesce (al_runbook r) []
     \<and> trim (coalesce (al_unit r) []) = coalesce (al_unit r) []
     \<and> (case al_log r of None \<Rightarrow> True | Some l \<Rightarrow> trim (lg_body l) = lg_body l)"

text \<open>What an edit keeps of the fields every editor writes.\<close>

definition kept_head :: "check_scope \<Rightarrow> alert_rule \<Rightarrow> alert_rule" where
  "kept_head scope r = r\<lparr>
     al_integration := (if scope = ScopeIntegration then al_integration r else None),
     al_system := (if scope = ScopeSystem then al_system r else None),
     al_service := (if scope = ScopeService then al_service r else None),
     al_env_mode := (if scope = ScopeIntegration then al_env_mode r else js ''each''),
     al_envs := (if scope = ScopeIntegration then al_envs r else []),
     al_notif := None,
     al_display := (al_signal r = js ''metric'' \<and> scope = ScopeService \<and> al_display r),
     al_unit := (if al_signal r = js ''metric'' then al_unit r else None)\<rparr>"

lemma kept_head_sel [simp]:
  "al_id (kept_head scope r) = al_id r" "al_name (kept_head scope r) = al_name r" "al_group (kept_head scope r) = al_group r"
  "al_integration (kept_head scope r) = (if scope = ScopeIntegration then al_integration r else None)"
  "al_system (kept_head scope r) = (if scope = ScopeSystem then al_system r else None)"
  "al_service (kept_head scope r) = (if scope = ScopeService then al_service r else None)"
  "al_env_mode (kept_head scope r) = (if scope = ScopeIntegration then al_env_mode r else js ''each'')"
  "al_envs (kept_head scope r) = (if scope = ScopeIntegration then al_envs r else [])"
  "al_description (kept_head scope r) = al_description r" "al_runbook (kept_head scope r) = al_runbook r"
  "al_signal (kept_head scope r) = al_signal r" "al_severity (kept_head scope r) = al_severity r"
  "al_enabled (kept_head scope r) = al_enabled r" "al_source (kept_head scope r) = al_source r"
  "al_display (kept_head scope r) = (al_signal r = js ''metric'' \<and> scope = ScopeService \<and> al_display r)"
  "al_unit (kept_head scope r) = (if al_signal r = js ''metric'' then al_unit r else None)"
  "al_resolve (kept_head scope r) = al_resolve r" "al_channels (kept_head scope r) = al_channels r"
  "al_title (kept_head scope r) = al_title r" "al_body (kept_head scope r) = al_body r" "al_notif (kept_head scope r) = None"
  by (simp_all add: kept_head_def)

lemma scopeBinding_sel [simp]:
  "ri_name (scopeBinding scope target q) = ri_name q"
  "ri_description (scopeBinding scope target q) = ri_description q"
  "ri_severity (scopeBinding scope target q) = ri_severity q"
  "ri_enabled (scopeBinding scope target q) = ri_enabled q"
  "ri_channels (scopeBinding scope target q) = ri_channels q"
  "ri_signal (scopeBinding scope target q) = ri_signal q"
  "ri_spec (scopeBinding scope target q) = ri_spec q"
  "ri_log (scopeBinding scope target q) = ri_log q"
  "ri_terr (scopeBinding scope target q) = ri_terr q"
  "ri_tlat (scopeBinding scope target q) = ri_tlat q"
  "ri_tvol (scopeBinding scope target q) = ri_tvol q"
  "ri_tattr (scopeBinding scope target q) = ri_tattr q"
  "ri_service (scopeBinding scope target q) = (if scope = ScopeService then Some target else ri_service q)"
  "ri_integration (scopeBinding scope target q) = (if scope = ScopeIntegration then Some target else ri_integration q)"
  "ri_system (scopeBinding scope target q) = (if scope = ScopeSystem then Some target else ri_system q)"
  "ri_group (scopeBinding scope target q) = ri_group q"
  "ri_runbook (scopeBinding scope target q) = ri_runbook q"
  "ri_title (scopeBinding scope target q) = ri_title q"
  "ri_body (scopeBinding scope target q) = ri_body q"
  "ri_notif (scopeBinding scope target q) = ri_notif q"
  "ri_source (scopeBinding scope target q) = ri_source q"
  "ri_display (scopeBinding scope target q) = ri_display q"
  "ri_unit (scopeBinding scope target q) = ri_unit q"
  "ri_resolve (scopeBinding scope target q) = ri_resolve q"
  "ri_env_mode (scopeBinding scope target q) = ri_env_mode q"
  "ri_envs (scopeBinding scope target q) = ri_envs q"
  by (cases scope; simp add: scopeBinding_def)+

lemma envScopePayload_sel [simp]:
  "ri_name (envScopePayload scope s q) = ri_name q"
  "ri_description (envScopePayload scope s q) = ri_description q"
  "ri_severity (envScopePayload scope s q) = ri_severity q"
  "ri_enabled (envScopePayload scope s q) = ri_enabled q"
  "ri_channels (envScopePayload scope s q) = ri_channels q"
  "ri_signal (envScopePayload scope s q) = ri_signal q"
  "ri_spec (envScopePayload scope s q) = ri_spec q"
  "ri_log (envScopePayload scope s q) = ri_log q"
  "ri_terr (envScopePayload scope s q) = ri_terr q"
  "ri_tlat (envScopePayload scope s q) = ri_tlat q"
  "ri_tvol (envScopePayload scope s q) = ri_tvol q"
  "ri_tattr (envScopePayload scope s q) = ri_tattr q"
  "ri_service (envScopePayload scope s q) = ri_service q"
  "ri_integration (envScopePayload scope s q) = ri_integration q"
  "ri_system (envScopePayload scope s q) = ri_system q"
  "ri_group (envScopePayload scope s q) = ri_group q"
  "ri_runbook (envScopePayload scope s q) = ri_runbook q"
  "ri_title (envScopePayload scope s q) = ri_title q"
  "ri_body (envScopePayload scope s q) = ri_body q"
  "ri_notif (envScopePayload scope s q) = ri_notif q"
  "ri_source (envScopePayload scope s q) = ri_source q"
  "ri_display (envScopePayload scope s q) = ri_display q"
  "ri_unit (envScopePayload scope s q) = ri_unit q"
  "ri_resolve (envScopePayload scope s q) = ri_resolve q"
  "ri_env_mode (envScopePayload scope s q) = (if scope \<noteq> ScopeIntegration then ri_env_mode q else if es_mode s = OnlyEnvironments then Some (js ''only'') else Some (js ''each''))"
  "ri_envs (envScopePayload scope s q) = (if scope \<noteq> ScopeIntegration then ri_envs q else if es_mode s = OnlyEnvironments then Some (es_envs s) else Some [])"
  by (simp_all add: envScopePayload_def)

text \<open>The environment field of an untouched editor.\<close>

lemma untouched_environments:
  assumes stored: "environment_scope (al_integration r) (full_input r) = Inr (al_env_mode r, al_envs r)"
      and modes: "al_env_mode r = js ''only'' \<or> (al_env_mode r = js ''each'' \<and> al_envs r = [])"
      and p: "ri_env_mode p = ri_env_mode (envScopePayload scope (initialEnvScope (Some r)) q)"
        "ri_envs p = ri_envs (envScopePayload scope (initialEnvScope (Some r)) q)" "ri_env_mode q = None"
  shows "environment_scope (al_integration (kept_head scope r)) p
    = Inr (al_env_mode (kept_head scope r), al_envs (kept_head scope r))"
proof (cases "scope = ScopeIntegration \<and> al_env_mode r = js ''only''")
  case True
  then have "environment_scope (al_integration r) p = environment_scope (al_integration r) (full_input r)"
    using p by (intro environment_scope_cong) (simp_all add: initialEnvScope_def)
  then show ?thesis using stored True by simp
next
  case False
  then have "ri_env_mode p = None \<or> ri_env_mode p = Some (js ''each'')"
    using p by (auto simp: initialEnvScope_def)
  then show ?thesis using environment_scope_each False modes by auto
qed

lemma send_update: "send_check (Some r) q = UpdateRule (al_id r)
   (q\<lparr>ri_description := Some (al_description r), ri_enabled := Some (al_enabled r), ri_channels := al_channels r,
      ri_group := al_group r, ri_title := al_title r, ri_body := al_body r\<rparr>)"
  by (simp add: send_check_def)


lemma untouched_head:
  assumes st: "uuid_canonical sv" "put_rule sv i q = Inr r" and on: "scope_of scope r = Some target"
      and clean: "editor_texts_clean r"
      and p: "ri_name p = or_default (trim (al_name r)) d" "ri_severity p = al_severity r" "ri_channels p = al_channels r"
        "ri_signal p = Some (al_signal r)" "request_source p = al_source r" "ri_resolve p = Some (al_resolve r)"
        "ri_service p = (if scope = ScopeService then Some target else None)"
        "ri_integration p = (if scope = ScopeIntegration then Some target else None)"
        "ri_system p = (if scope = ScopeSystem then Some target else None)"
        "ri_group p = al_group r" "ri_title p = al_title r" "ri_body p = al_body r" "ri_notif p = None"
        "ri_description p = Some (al_description r)" "ri_runbook p = Some (trim (coalesce (al_runbook r) []))"
        "ri_enabled p = Some (al_enabled r)"
        "truthy_bool (ri_display p) = (al_signal r = js ''metric'' \<and> scope = ScopeService \<and> al_display r)"
        "ri_unit p = (if al_signal r = js ''metric'' then or_undefined (trim (coalesce (al_unit r) [])) else None)"
        "ri_env_mode p = ri_env_mode (envScopePayload scope (initialEnvScope (Some r)) qb)"
        "ri_envs p = ri_envs (envScopePayload scope (initialEnvScope (Some r)) qb)" "ri_env_mode qb = None"
  shows "put_rule sv i p = map_sum id store_rule (signal_spec sv p (drop_specs (kept_head scope r)))"
proof -
  note f = stored_facts [OF st]
  note ok = stored_rule_ok [OF st(2), unfolded rule_ok_def]
  have sig: "al_signal r \<in> {js ''metric'', js ''log'', js ''trace''}"
    using ok by (auto simp: spec_ok_def split: if_splits)
  have cl: "trim (al_name r) = al_name r" "trim (coalesce (al_runbook r) []) = coalesce (al_runbook r) []"
    "trim (coalesce (al_unit r) []) = coalesce (al_unit r) []"
    using clean by (simp_all add: editor_texts_clean_def)
  have run: "omit_empty (go_str (Some (coalesce (al_runbook r) []))) = al_runbook r"
    using f(14) by (simp add: go_str_def)
  have unit: "omit_empty (go_str (or_undefined (coalesce (al_unit r) []))) = al_unit r"
    using f(15) by (cases "al_unit r") (auto simp: go_str_def or_undefined_def)
  have scp: "al_service r = (if scope = ScopeService then Some target else al_service r)"
    "al_integration r = (if scope = ScopeIntegration then Some target else al_integration r)"
    "al_system r = (if scope = ScopeSystem then Some target else al_system r)"
    using on by (cases scope; simp add: scope_of_def)+
  have h: "heads_as (kept_head scope r) p"
    unfolding heads_as_def
  proof (intro conjI)
    show "go_trim (ri_name p) = al_name (kept_head scope r)" using f(2,3) by (simp add: p cl or_default_def)
    show "request_severity p = al_severity (kept_head scope r)"
      using f(4,5) by (auto simp: request_severity_def p or_default_def ALERT_SEVERITIES_def)
    show "request_signal p = al_signal (kept_head scope r)"
      using sig by (auto simp: request_signal_def p or_default_def trim_words)
    show "request_resolve p = al_resolve (kept_head scope r)"
      using ok by (auto simp: request_resolve_def p or_default_def trim_words)
    show "environment_scope (al_integration (kept_head scope r)) p
      = Inr (al_env_mode (kept_head scope r), al_envs (kept_head scope r))"
      using f(20) ok by (intro untouched_environments [OF _ _ p(19,20,21)]) auto
    show "omit_empty (go_str (ri_service p)) = al_service (kept_head scope r)"
      using f(11) scp(1) by (auto simp: p)
  qed (use f run unit scp in \<open>auto simp: p cl\<close>)
  have none: "parse_ref sv e None = Inr None" for e by (simp add: parse_ref_def)
  have t: "coalesce (al_title r) [] = go_str (al_title r)" "coalesce (al_body r) [] = go_str (al_body r)"
    using f(12,13) omit_empty_simps(3) by metis+
  show ?thesis
  proof (rule put_with_head [OF h])
    show "al_source (kept_head scope r) \<in> {js ''telemetry'', js ''pushed''}"
      "al_resolve (kept_head scope r) \<in> {js ''auto'', js ''manual''}"
      using ok by auto
  qed (simp_all add: f(1,3,4,6,8,9,10,17,18) none t p(13))
qed

text \<open>A rule after an editor was opened on it in a scope and saved unchanged.\<close>

definition kept :: "check_scope \<Rightarrow> alert_rule \<Rightarrow> alert_rule" where
  "kept scope r = (kept_head scope r)\<lparr>
     al_spec := (al_spec r)\<lparr>ms_split := None\<rparr>,
     al_log := map_option (\<lambda>l. l\<lparr>lg_attrs := None\<rparr>) (al_log r),
     al_terr := map_option (\<lambda>t. t\<lparr>te_attrs := None\<rparr>) (al_terr r),
     al_tlat := map_option (\<lambda>t. t\<lparr>tl_aggregation := if tl_aggregation t = js ''max'' then js ''max'' else js ''p95''\<rparr>)
       (al_tlat r)\<rparr>"

lemma kept_head_specs [simp]:
  "al_spec (kept_head scope r) = al_spec r" "al_log (kept_head scope r) = al_log r" "al_terr (kept_head scope r) = al_terr r"
  "al_tlat (kept_head scope r) = al_tlat r" "al_tvol (kept_head scope r) = al_tvol r" "al_tattr (kept_head scope r) = al_tattr r"
  by (simp_all add: kept_head_def)

lemma zero_metric_spec_simps [simp]: "zero_metric_spec\<lparr>ms_split := None\<rparr> = zero_metric_spec" "ms_split zero_metric_spec = None"
  by (simp_all add: zero_metric_spec_def)

lemma at_least_one_of_int [simp]: "1 \<le> n \<Longrightarrow> at_least_one (of_int n) = n"
  by (simp add: at_least_one_def)

lemma validateMetric_no_split:
  assumes "validateMetricRuleSpec sv m = Inr m"
  shows "validateMetricRuleSpec sv (m\<lparr>ms_attrs := Some (coalesce (ms_attrs m) []), ms_split := None,
     ms_no_data := Some (coalesce (ms_no_data m) False)\<rparr>) = Inr (m\<lparr>ms_split := None\<rparr>)"
proof -
  obtain attrs where a: "check_attrs (coalesce (ms_attrs m) []) = Inr attrs"
    using assms by (auto simp: validateMetricRuleSpec_def Let_def split: if_splits sum.splits)
  have m: "m = m\<lparr>ms_metric := go_trim (ms_metric m), ms_window := (if ms_window m = [] then js ''5m'' else ms_window m),
      ms_attrs := omit_empty attrs, ms_split := omit_empty (go_str (ms_split m)),
      ms_no_data := written_flag (ms_no_data m)\<rparr>"
    using assms a by (simp add: validateMetricRuleSpec_def Let_def split: if_splits)
  have f: "ms_metric m = go_trim (ms_metric m)" "ms_window m = (if ms_window m = [] then js ''5m'' else ms_window m)"
    "ms_attrs m = omit_empty attrs" "ms_no_data m = written_flag (ms_no_data m)"
    by (subst m, simp)+
  have w: "ms_window m \<noteq> []" using f(2) by (metis js_eq_Nil list.distinct(1))
  have c: "ms_metric m \<noteq> []" "ms_aggregation m \<in> set RULE_AGGREGATIONS" "ms_operator m \<in> set ALERT_OPERATORS"
    "sv_duration sv (ms_window m)"
    using assms w f(1) by (auto simp: validateMetricRuleSpec_def Let_def split: if_splits)
  have n: "written_flag (Some (coalesce (ms_no_data m) False)) = ms_no_data m"
    using f(4) by (cases "ms_no_data m") (auto simp: written_flag_def split: if_splits)
  show ?thesis
    by (simp add: validateMetricRuleSpec_def Let_def f(1) [symmetric] w c a n,
        rule metric_spec.equality, simp_all add: f(3))
qed


lemma validateMetric_texts:
  assumes "validateMetricRuleSpec sv m = Inr m"
  shows "ms_metric m \<noteq> [] \<and> ms_window m \<noteq> []"
proof -
  obtain attrs where a: "check_attrs (coalesce (ms_attrs m) []) = Inr attrs"
    using assms by (auto simp: validateMetricRuleSpec_def Let_def split: if_splits sum.splits)
  have m: "m = m\<lparr>ms_metric := go_trim (ms_metric m), ms_window := (if ms_window m = [] then js ''5m'' else ms_window m),
      ms_attrs := omit_empty attrs, ms_split := omit_empty (go_str (ms_split m)),
      ms_no_data := written_flag (ms_no_data m)\<rparr>"
    using assms a by (simp add: validateMetricRuleSpec_def Let_def split: if_splits)
  have f: "ms_metric m = go_trim (ms_metric m)" "ms_window m = (if ms_window m = [] then js ''5m'' else ms_window m)"
    by (subst m, simp)+
  have "go_trim (ms_metric m) \<noteq> []"
    using assms by (auto simp: validateMetricRuleSpec_def Let_def split: if_splits)
  then show ?thesis using f by (metis js_eq_Nil list.distinct(1))
qed

lemma store_rule_fixed:
  assumes "al_source r = js ''telemetry'' \<or> (al_source r = js ''pushed'' \<and> al_signal r = js ''metric'')"
    "al_resolve r \<in> {js ''auto'', js ''manual''}" "al_env_mode r \<in> {js ''each'', js ''only''}"
    "dedupe (al_channels r) = al_channels r"
  shows "store_rule r = r"
  by (rule alert_rule.equality)
    (use assms in \<open>auto simp: store_rule_def ruleSource_def resolveModeOf_def environmentModeOf_def\<close>)

lemma store_kept:
  assumes "uuid_canonical sv" "put_rule sv i q = Inr r"
  shows "store_rule (kept scope r) = kept scope r"
  using stored_rule_ok [OF assms(2)] stored_facts(7) [OF assms]
  by (intro store_rule_fixed) (auto simp: rule_ok_def kept_def)

lemma pushed_fixed:
  assumes "validatePushedRuleSpec m = Inr m"
  shows "validatePushedRuleSpec \<lparr>ms_metric = [], ms_aggregation = js ''last'', ms_operator = ms_operator m,
     ms_threshold = ms_threshold m, ms_window = js ''5m'', ms_attrs = Some [], ms_split = None, ms_no_data = None\<rparr>
   = Inr (m\<lparr>ms_split := None\<rparr>)"
proof -
  have m: "m\<lparr>ms_metric := [], ms_aggregation := js ''last'', ms_window := js ''5m'', ms_attrs := None,
      ms_split := None, ms_no_data := None\<rparr> = m" "ms_operator m \<in> set ALERT_OPERATORS"
    using assms by (auto simp: validatePushedRuleSpec_def split: if_splits)
  note f = arg_cong [OF m(1), of ms_metric, simplified] arg_cong [OF m(1), of ms_aggregation, simplified]
    arg_cong [OF m(1), of ms_window, simplified] arg_cong [OF m(1), of ms_attrs, simplified]
    arg_cong [OF m(1), of ms_split, simplified] arg_cong [OF m(1), of ms_no_data, simplified]
  show ?thesis
    by (simp add: validatePushedRuleSpec_def m(2), rule metric_spec.equality) (simp_all add: f [symmetric])
qed

lemma untouched_metric:
  assumes st: "uuid_canonical sv" "put_rule sv i q = Inr r" and on: "scope_of scope r = Some target"
      and clean: "editor_texts_clean r" and sig: "al_signal r = js ''metric''"
      and pushed: "al_source r = js ''pushed'' \<Longrightarrow> scope = ScopeService"
  shows "perform sv fresh (save_untouched scope target r) = Inr (kept scope r)"
proof -
  note m = stored_metric [OF st sig]
  note ok = stored_rule_ok [OF st(2), unfolded rule_ok_def]
  define P where "P = (al_source r = js ''pushed'')"
  have src: "al_source r = (if P then js ''pushed'' else js ''telemetry'')" using ok by (auto simp: P_def)
  define spec where "spec = (if P
     then \<lparr>ms_metric = [], ms_aggregation = js ''last'', ms_operator = ms_operator (al_spec r),
           ms_threshold = ms_threshold (al_spec r), ms_window = js ''5m'', ms_attrs = Some [], ms_split = None, ms_no_data = None\<rparr>
     else (al_spec r)\<lparr>ms_attrs := Some (coalesce (ms_attrs (al_spec r)) []), ms_split := None,
       ms_no_data := Some (coalesce (ms_no_data (al_spec r)) False)\<rparr>)"
  have win: "\<not> P \<Longrightarrow> ms_window (al_spec r) \<noteq> []" "\<not> P \<Longrightarrow> ms_metric (al_spec r) \<noteq> []"
    using m validateMetric_texts [of sv "al_spec r"] by (auto simp: P_def)
  have "\<exists>p. save_untouched scope target r = Inr (UpdateRule (al_id r) p) \<and> put_rule sv i p
      = map_sum id store_rule (signal_spec sv p (drop_specs (kept_head scope r))) \<and> ri_spec p = Some spec"
  proof -
    define qb where "qb = scopeBinding scope target
             ((bare_input (or_default (trim (al_name r))
               (if P then js ''Pushed value''
               else if ms_metric (al_spec r) \<noteq> [] then ms_metric (al_spec r) @ js '' health'' else js ''Health check'')) (al_severity r) [])
               \<lparr>ri_runbook := Some (trim (coalesce (al_runbook r) [])), ri_signal := Some (js ''metric''),
                ri_spec := Some spec,
                ri_source := Some (if P then js ''pushed'' else js ''telemetry''),
                ri_display := Some (if scope = ScopeService then al_display r else False),
                ri_unit := or_undefined (trim (coalesce (al_unit r) [])), ri_resolve := Some (al_resolve r)\<rparr>)"
    define p where "p = (envScopePayload scope (initialEnvScope (Some r)) qb)
      \<lparr>ri_description := Some (al_description r), ri_enabled := Some (al_enabled r), ri_channels := al_channels r,
       ri_group := al_group r, ri_title := al_title r, ri_body := al_body r\<rparr>"
    have res: "(if al_resolve r = js ''manual'' then js ''manual'' else js ''auto'') = al_resolve r" using ok by auto
    have win2: "P \<or> ms_metric (al_spec r) \<noteq> []" using win by auto
    have pp: "scope = ScopeService \<and> P \<longleftrightarrow> P" using pushed by (auto simp: P_def)
    have "save_untouched scope target r = Inr (UpdateRule (al_id r) p)"
      using win pp win2
      by (simp add: save_untouched_def editorKindOf_def sig save_metric_def Let_def open_metric_editor_def send_update
          P_def [symmetric] res p_def qb_def spec_def metric_spec_of_def)
    moreover have "put_rule sv i p = map_sum id store_rule (signal_spec sv p (drop_specs (kept_head scope r)))"
    proof (rule untouched_head [OF st on clean, where qb = qb])
      show "request_source p = al_source r" by (simp add: request_source_def p_def qb_def src or_default_def trim_words)
    qed (simp_all add: p_def qb_def sig)
    moreover have "ri_spec p = Some spec" by (simp add: p_def qb_def)
    ultimately show ?thesis by blast
  qed
  then obtain p where p: "save_untouched scope target r = Inr (UpdateRule (al_id r) p)" "put_rule sv i p
      = map_sum id store_rule (signal_spec sv p (drop_specs (kept_head scope r)))" "ri_spec p = Some spec" by blast
  have "signal_spec sv p (drop_specs (kept_head scope r)) = Inr ((drop_specs (kept_head scope r))\<lparr>al_spec := (al_spec r)\<lparr>ms_split := None\<rparr>\<rparr>)"
  proof (cases P)
    case True
    have "validatePushedRuleSpec spec = Inr ((al_spec r)\<lparr>ms_split := None\<rparr>)"
      using m True pushed_fixed [of "al_spec r"] by (simp add: spec_def P_def)
    then show ?thesis using m True pushed by (auto simp: signal_spec_def sig metric_signal_def p(3) P_def)
  next
    case False
    have "validateMetricRuleSpec sv spec = Inr ((al_spec r)\<lparr>ms_split := None\<rparr>)"
      using m False validateMetric_no_split [of sv "al_spec r"] by (simp add: spec_def P_def)
    then show ?thesis using False by (simp add: signal_spec_def sig metric_signal_def p(3) P_def)
  qed
  moreover have "(drop_specs (kept_head scope r))\<lparr>al_spec := (al_spec r)\<lparr>ms_split := None\<rparr>\<rparr> = kept scope r"
    by (rule alert_rule.equality) (use m in \<open>simp_all add: kept_def\<close>)
  ultimately show ?thesis using p(1,2) stored_facts(1) [OF st] store_kept [OF st]
    by (simp add: perform_def)
qed


lemma untouched_log:
  assumes st: "uuid_canonical sv" "put_rule sv i q = Inr r" and on: "scope_of scope r = Some target"
      and clean: "editor_texts_clean r" and sig: "al_signal r = js ''log''" and l: "al_log r = Some l"
  shows "perform sv fresh (save_untouched scope target r)
    = (if scope = ScopeSystem \<and> lg_min l = 0 \<and> lg_body l = [] then Inl (Refused NoLogCriterion) else Inr (kept scope r))"
proof -
  note m = stored_log [OF st sig]
  note ok = stored_rule_ok [OF st(2), unfolded rule_ok_def]
  have v: "validateLogRuleSpec l = Inr l" "al_source r = js ''telemetry''" using m l ok by auto
  have body: "trim (lg_body l) = lg_body l" using clean l by (simp add: editor_texts_clean_def)
  obtain attrs where a: "check_attrs (coalesce (lg_attrs l) []) = Inr attrs"
    using v by (auto simp: validateLogRuleSpec_def Let_def split: if_splits sum.splits)
  define c where "c = coalesce (lg_comparison l) []"
  have lv: "l = l\<lparr>lg_body := go_trim (lg_body l), lg_threshold := max 1 (lg_threshold l),
      lg_comparison := Some (if c = [] then js ''at_least'' else c), lg_attrs := omit_empty attrs\<rparr>"
    and lw: "c \<in> {[], js ''at_least'', js ''fewer_than''}" "\<not> (lg_window l < 60 \<or> MaxCheckWindowSeconds < lg_window l)"
    using v(1) a unfolding validateLogRuleSpec_def Let_def c_def [symmetric] by (auto split: if_splits)
  note f = arg_cong [OF lv, of lg_body, simplified, symmetric] arg_cong [OF lv, of lg_threshold, simplified]
    arg_cong [OF lv, of lg_comparison, simplified]
  have thr: "1 \<le> lg_threshold l" using f(2) by linarith
  have cmp: "lg_comparison l \<in> {Some (js ''at_least''), Some (js ''fewer_than'')}" using f(3) lw(1) by auto
  define spec where "spec = l\<lparr>lg_attrs := Some []\<rparr>"
  have valid: "validateLogRuleSpec spec = Inr (l\<lparr>lg_attrs := None\<rparr>)"
    using cmp lw(2) thr by (auto simp: validateLogRuleSpec_def spec_def Let_def f(1) intro!: log_spec.equality)
  have "\<exists>p. save_untouched scope target r = Inr (UpdateRule (al_id r) p) \<and> put_rule sv i p
      = map_sum id store_rule (signal_spec sv p (drop_specs (kept_head scope r))) \<and> ri_log p = Some spec"
  proof -
    define qb where "qb = scopeBinding scope target
             ((bare_input (or_default (trim (al_name r))
               (if lg_body l \<noteq> [] then js ''Log: '' @ lg_body l else js ''Log check'')) (al_severity r) [])
             \<lparr>ri_runbook := Some (trim (coalesce (al_runbook r) [])), ri_signal := Some (js ''log''),
              ri_log := Some spec, ri_resolve := Some (al_resolve r)\<rparr>)"
    define p where "p = (envScopePayload scope (initialEnvScope (Some r)) qb)
      \<lparr>ri_description := Some (al_description r), ri_enabled := Some (al_enabled r), ri_channels := al_channels r,
       ri_group := al_group r, ri_title := al_title r, ri_body := al_body r\<rparr>"
    have res: "(if al_resolve r = js ''auto'' then js ''auto'' else js ''manual'') = al_resolve r" using ok by auto
    have sp: "\<lparr>lg_min = lg_min l, lg_body = lg_body l, lg_attrs = Some [], lg_threshold = lg_threshold l,
      lg_window = lg_window l, lg_comparison = Some (if lg_comparison l = Some (js ''fewer_than'') then js ''fewer_than''
                        else js ''at_least'')\<rparr> = spec"
      using cmp by (auto simp: spec_def)
    have "save_untouched scope target r = Inr (UpdateRule (al_id r) p)"
      by (simp add: save_untouched_def editorKindOf_def sig save_log_def Let_def open_log_editor_def send_update l
          res p_def qb_def body thr sp)
    moreover have "put_rule sv i p = map_sum id store_rule (signal_spec sv p (drop_specs (kept_head scope r)))"
    proof (rule untouched_head [OF st on clean, where qb = qb])
      show "request_source p = al_source r" by (simp add: request_source_def p_def qb_def v or_default_def trim_words)
    qed (simp_all add: p_def qb_def sig)
    moreover have "ri_log p = Some spec" by (simp add: p_def qb_def)
    ultimately show ?thesis by blast
  qed
  then obtain p where p: "save_untouched scope target r = Inr (UpdateRule (al_id r) p)" "put_rule sv i p
      = map_sum id store_rule (signal_spec sv p (drop_specs (kept_head scope r)))" "ri_log p = Some spec" by blast
  have bound: "(al_service (kept_head scope r) = None \<and> al_integration (kept_head scope r) = None) \<longleftrightarrow> scope = ScopeSystem"
    using on by (cases scope) (auto simp: scope_of_def)
  have s: "signal_spec sv p (drop_specs (kept_head scope r)) =
    (if scope = ScopeSystem \<and> lg_min l = 0 \<and> lg_body l = [] then Inl NoLogCriterion
     else Inr ((drop_specs (kept_head scope r))\<lparr>al_log := Some (l\<lparr>lg_attrs := None\<rparr>)\<rparr>))"
    using bound by (simp add: signal_spec_def sig log_signal_def p(3) valid v(2))
  have e: "(drop_specs (kept_head scope r))\<lparr>al_log := Some (l\<lparr>lg_attrs := None\<rparr>)\<rparr> = kept scope r"
    by (rule alert_rule.equality) (use m l in \<open>simp_all add: kept_def zero_metric_spec_def\<close>)
  have "store_rule (kept scope r) = kept scope r" by (rule store_kept [OF st])
  then show ?thesis using p(1,2) stored_facts(1) [OF st] by (auto simp: perform_def s e)
qed


definition trace_kept :: "alert_rule \<Rightarrow> rule_input \<Rightarrow> rule_input" where
  "trace_kept r q =
     (case (al_tlat r, al_tvol r, al_tattr r, al_terr r) of
        (Some t, _, _, _) \<Rightarrow> q\<lparr>ri_tlat := Some (t\<lparr>tl_aggregation := if tl_aggregation t = js ''max'' then js ''max'' else js ''p95''\<rparr>)\<rparr>
      | (None, Some t, _, _) \<Rightarrow> q\<lparr>ri_tvol := Some t\<rparr>
      | (None, None, Some t, _) \<Rightarrow> q\<lparr>ri_tattr := Some t\<rparr>
      | (None, None, None, Some t) \<Rightarrow> q\<lparr>ri_terr := Some (t\<lparr>te_attrs := None\<rparr>)\<rparr>
      | _ \<Rightarrow> q)"

lemma trace_kept_sel [simp]:
  "ri_name (trace_kept r q) = ri_name q" "ri_severity (trace_kept r q) = ri_severity q" "ri_signal (trace_kept r q) = ri_signal q"
  "ri_resolve (trace_kept r q) = ri_resolve q" "ri_service (trace_kept r q) = ri_service q"
  "ri_integration (trace_kept r q) = ri_integration q" "ri_system (trace_kept r q) = ri_system q"
  "ri_notif (trace_kept r q) = ri_notif q" "ri_runbook (trace_kept r q) = ri_runbook q"
  "ri_display (trace_kept r q) = ri_display q" "ri_unit (trace_kept r q) = ri_unit q" "ri_source (trace_kept r q) = ri_source q"
  "ri_env_mode (trace_kept r q) = ri_env_mode q" "ri_envs (trace_kept r q) = ri_envs q"
  by (simp_all add: trace_kept_def split: option.split)

lemma untouched_trace:
  assumes st: "uuid_canonical sv" "put_rule sv i q = Inr r" and on: "scope_of scope r = Some target"
      and clean: "editor_texts_clean r" and sig: "al_signal r = js ''trace''"
  shows "perform sv fresh (save_untouched scope target r) = (if scope = ScopeSystem then Inl (Refused TraceUnbound) else Inr (kept scope r))"
proof -
  note m = stored_trace [OF st sig]
  note ok = stored_rule_ok [OF st(2), unfolded rule_ok_def]
  have src: "al_source r = js ''telemetry''" using m ok by auto
  have res: "(if al_resolve r = js ''auto'' then js ''auto'' else js ''manual'') = al_resolve r" using ok by auto
  define dflt where "dflt = (if al_tlat r \<noteq> None then js ''Response time'' else if al_tvol r \<noteq> None then js ''Low traffic''
     else if al_tattr r \<noteq> None then js ''Attribute threshold'' else js ''Failed traces'')"
  define qb where "qb = scopeBinding scope target
             ((bare_input (or_default (trim (al_name r)) dflt) (al_severity r) [])
             \<lparr>ri_runbook := Some (trim (coalesce (al_runbook r) [])), ri_signal := Some (js ''trace''),
              ri_resolve := Some (al_resolve r)\<rparr>)"
  define p where "p = (trace_kept r (envScopePayload scope (initialEnvScope (Some r)) qb))
      \<lparr>ri_description := Some (al_description r), ri_enabled := Some (al_enabled r), ri_channels := al_channels r,
       ri_group := al_group r, ri_title := al_title r, ri_body := al_body r\<rparr>"
  have sav: "save_untouched scope target r = Inr (UpdateRule (al_id r) p)"
  proof -
    note ev = save_untouched_def editorKindOf_def sig save_trace_def open_trace_editor_def send_update
          res p_def qb_def dflt_def trace_kept_def first_some_def
    show ?thesis
    proof (cases "al_tlat r")
      case (Some t)
      then show ?thesis using m by (simp add: ev)
    next
      case l: None
      show ?thesis
      proof (cases "al_tvol r")
        case (Some t)
        then show ?thesis using m l by (simp add: ev)
      next
        case v: None
        show ?thesis
        proof (cases "al_tattr r")
          case (Some t)
          then show ?thesis using m l v by (simp add: ev)
        next
          case a: None
          then obtain t where "al_terr r = Some t" using m l v by (cases "al_terr r") auto
          then show ?thesis using m l v a by (simp add: ev)
        qed
      qed
    qed
  qed
  have put: "put_rule sv i p = map_sum id store_rule (signal_spec sv p (drop_specs (kept_head scope r)))"
    proof (rule untouched_head [OF st on clean, where qb = qb])
      show "request_source p = al_source r" by (simp add: request_source_def p_def qb_def src or_default_def trim_words)
    qed (simp_all add: p_def qb_def sig)
  have drop: "no_spec (drop_specs (kept_head scope r))" by (simp add: no_spec_def)
  have bound: "(al_service (kept_head scope r) = None \<and> al_integration (kept_head scope r) = None) \<longleftrightarrow> scope = ScopeSystem"
    using on by (cases scope) (auto simp: scope_of_def)
  have s: "signal_spec sv p (drop_specs (kept_head scope r)) =
    (if scope = ScopeSystem then Inl TraceUnbound else Inr (kept scope r))"
  proof (cases "scope = ScopeSystem")
    case True
    then show ?thesis using bound by (simp add: signal_spec_def sig trace_signal_def src)
  next
    case False
    then have b: "\<not> (al_integration (kept_head scope r) = None \<and> al_service (kept_head scope r) = None)"
      using bound by blast
    have "trace_signal p (drop_specs (kept_head scope r)) = Inr (kept scope r)"
    proof -
      note ev = trace_signal_def src b p_def qb_def trace_kept_def
      have eq: "x = kept scope r" if "x = y" "y = kept scope r" for x y using that by simp
      show ?thesis
      proof (cases "al_tlat r")
        case (Some t)
        then show ?thesis using m b by (simp add: ev) (auto simp: kept_def intro!: alert_rule.equality)
      next
        case l: None
        show ?thesis
        proof (cases "al_tvol r")
          case (Some t)
          then show ?thesis using m l b by (simp add: ev) (auto simp: kept_def intro!: alert_rule.equality)
        next
          case v: None
          show ?thesis
          proof (cases "al_tattr r")
            case (Some t)
            then show ?thesis using m l v b by (simp add: ev) (auto simp: kept_def intro!: alert_rule.equality)
          next
            case a: None
            then obtain t where "al_terr r = Some t" using m l v by (cases "al_terr r") auto
            then show ?thesis using m l v a b by (simp add: ev) (auto simp: kept_def intro!: alert_rule.equality)
          qed
        qed
      qed
    qed
    then show ?thesis using False by (simp add: signal_spec_def sig)
  qed
  have "store_rule (kept scope r) = kept scope r" by (rule store_kept [OF st])
  then show ?thesis using sav put stored_facts(1) [OF st] by (auto simp: perform_def s)
qed

definition nothing_to_lose :: "check_scope \<Rightarrow> alert_rule \<Rightarrow> bool" where
  "nothing_to_lose scope r \<longleftrightarrow>
     al_notif r = None \<and> ms_split (al_spec r) = None
     \<and> (case al_log r of None \<Rightarrow> True | Some l \<Rightarrow> lg_attrs l = None)
     \<and> (case al_terr r of None \<Rightarrow> True | Some t \<Rightarrow> te_attrs t = None)
     \<and> (case al_tlat r of None \<Rightarrow> True | Some t \<Rightarrow> tl_aggregation t \<in> {js ''max'', js ''p95''})
     \<and> (if scope = ScopeIntegration then al_service r = None else al_integration r = None)
     \<and> (al_display r \<longrightarrow> al_signal r = js ''metric'' \<and> scope = ScopeService)
     \<and> (al_signal r = js ''metric'' \<or> al_unit r = None)"

lemma kept_id_iff:
  assumes "put_rule sv i q = Inr r" "scope_of scope r = Some target"
  shows "kept scope r = r \<longleftrightarrow> nothing_to_lose scope r"
proof
  assume k: "kept scope r = r"
  note p = arg_cong [OF k, of al_notif] arg_cong [OF k, of al_spec] arg_cong [OF k, of al_log] arg_cong [OF k, of al_terr]
    arg_cong [OF k, of al_tlat] arg_cong [OF k, of al_service] arg_cong [OF k, of al_integration]
    arg_cong [OF k, of al_display] arg_cong [OF k, of al_unit]
  have "ms_split (al_spec r) = None" using arg_cong [OF p(2), of ms_split] by (simp add: kept_def)
  moreover have "\<And>l. al_log r = Some l \<Longrightarrow> lg_attrs l = None"
    using p(3) by (auto simp: kept_def) (metis log_spec.select_convs(3) log_spec.surjective log_spec.update_convs(3))
  moreover have "\<And>t. al_terr r = Some t \<Longrightarrow> te_attrs t = None"
    using p(4) by (auto simp: kept_def) (metis trace_error_spec.select_convs(3) trace_error_spec.surjective trace_error_spec.update_convs(3))
  moreover have "\<And>t. al_tlat r = Some t \<Longrightarrow> tl_aggregation t \<in> {js ''max'', js ''p95''}"
    using p(5) by (auto simp: kept_def split: if_splits) (metis trace_latency_spec.select_convs(3) trace_latency_spec.surjective trace_latency_spec.update_convs(3))
  ultimately show "nothing_to_lose scope r"
    using p(1,6-9) by (auto simp: nothing_to_lose_def kept_def split: option.splits if_splits)
next
  assume n: "nothing_to_lose scope r"
  have ok: "rule_ok r" by (rule stored_rule_ok [OF assms(1)])
  show "kept scope r = r"
  proof (rule alert_rule.equality)
    have m: "(al_spec r)\<lparr>ms_split := None\<rparr> = al_spec r"
      using n by (intro metric_spec.equality) (simp_all add: nothing_to_lose_def)
    then show "al_spec (kept scope r) = al_spec r" by (simp add: kept_def)
    show "al_log (kept scope r) = al_log r" "al_terr (kept scope r) = al_terr r" "al_tlat (kept scope r) = al_tlat r"
      using n by (auto simp: kept_def nothing_to_lose_def split: option.splits if_splits
          intro: log_spec.equality trace_error_spec.equality trace_latency_spec.equality)
    show "al_env_mode (kept scope r) = al_env_mode r" "al_envs (kept scope r) = al_envs r"
      "al_integration (kept scope r) = al_integration r" "al_service (kept scope r) = al_service r"
      "al_system (kept scope r) = al_system r"
      using n ok assms(2) by (cases scope; auto simp: kept_def nothing_to_lose_def rule_ok_def scope_of_def)+
    show "al_display (kept scope r) = al_display r" "al_unit (kept scope r) = al_unit r"
      "al_notif (kept scope r) = al_notif r"
      using n by (auto simp: kept_def nothing_to_lose_def)
  qed (simp_all add: kept_def)
qed


lemma untouched_save:
  assumes st: "uuid_canonical sv" "put_rule sv i q = Inr r" and on: "scope_of scope r = Some target"
      and clean: "editor_texts_clean r"
  shows "perform sv fresh (save_untouched scope target r) =
    (if al_source r = js ''pushed'' \<and> scope \<noteq> ScopeService then Inl (Message (js ''Pick a metric first.''))
     else if al_signal r = js ''trace'' \<and> scope = ScopeSystem then Inl (Refused TraceUnbound)
     else if scope = ScopeSystem \<and> (case al_log r of None \<Rightarrow> False | Some l \<Rightarrow> lg_min l = 0 \<and> lg_body l = [])
       then Inl (Refused NoLogCriterion)
     else Inr (kept scope r))"
proof -
  note sig = stored_signals [OF st(2)]
  show ?thesis
  proof (cases "al_source r = js ''pushed'' \<and> scope \<noteq> ScopeService")
    case True
    have m: "al_signal r = js ''metric''" "ms_metric (al_spec r) = []"
      using stored_rule_ok [OF st(2)] True by (auto simp: rule_ok_def spec_ok_def split: if_splits)
    then show ?thesis using True
      by (simp add: perform_def save_untouched_def editorKindOf_def save_metric_def open_metric_editor_def Let_def)
  next
    case False
    then show ?thesis
      using sig untouched_metric [OF st on clean] untouched_trace [OF st on clean]
        untouched_log [OF st on clean] stored_metric [OF st] stored_log [OF st] stored_trace [OF st]
      by auto
  qed
qed

text \<open>C19: Opening a stored check in its editor and saving it untouched.  A pushed check opened outside
  its service, a trace check opened on a system and a criteria-less log check of a system
  are refused; every other check is stored as \<open>kept\<close> says, and it is the rule that was there
  exactly when there was nothing to lose: no notification content, no split, no attribute
  predicate of a log or failed-trace check, no second binding.\<close>

theorem saving_an_untouched_check:
  assumes "uuid_canonical sv" "put_rule sv i q = Inr r" "scope_of scope r = Some target" "editor_texts_clean r"
  shows "perform sv fresh (save_untouched scope target r) =
      (if al_source r = js ''pushed'' \<and> scope \<noteq> ScopeService then Inl (Message (js ''Pick a metric first.''))
       else if al_signal r = js ''trace'' \<and> scope = ScopeSystem then Inl (Refused TraceUnbound)
       else if scope = ScopeSystem \<and> (case al_log r of None \<Rightarrow> False | Some l \<Rightarrow> lg_min l = 0 \<and> lg_body l = [])
         then Inl (Refused NoLogCriterion)
       else Inr (kept scope r))
    \<and> (kept scope r = r) = nothing_to_lose scope r"
  using untouched_save [OF assms] kept_id_iff [OF assms(2,3)] by simp

theorem saving_an_untouched_check_ex:
  "perform demo_api [] (save_untouched ScopeIntegration (js ''i1'') demo_rule) = Inr (kept ScopeIntegration demo_rule)
   \<and> kept ScopeIntegration demo_rule \<noteq> demo_rule"
proof -
  have "scope_of ScopeIntegration demo_rule = Some (js ''i1'')" "editor_texts_clean demo_rule"
    "\<not> nothing_to_lose ScopeIntegration demo_rule" "al_source demo_rule \<noteq> js ''pushed''" "al_signal demo_rule \<noteq> js ''trace''"
    by code_simp+
  then show ?thesis
    using saving_an_untouched_check [OF demo_uuid demo_stored, of ScopeIntegration "js ''i1''" "[]"] by simp
qed

end
