(* ===== verification/RuleSwitches.thy ===== *)
theory RuleSwitches
  imports RuleEditors
begin

text \<open>
  The writers of a stored rule outside its editor: the enable switches of \<open>pages/Alerts.tsx\<close> and
  \<open>pages/IntegrationSettings.tsx\<close>, and the channel routing of \<open>pages/ServiceDetail.tsx\<close>.  Each
  sends a hand-picked part of the rule, so each clears the rest of it.
\<close>

section \<open>Switching a rule on and off\<close>

definition switch_signal :: "alert_rule \<Rightarrow> jstring" where
  "switch_signal r = (if al_signal r = js ''log'' then js ''log'' else if al_signal r = js ''trace'' then js ''trace''
     else js ''metric'')"

definition toggleRule :: "alert_rule \<Rightarrow> rule_input" where
  "toggleRule r =
     (let s = switch_signal r in
      (bare_input (al_name r) (al_severity r) (al_channels r))
        \<lparr>ri_description := Some (al_description r), ri_runbook := al_runbook r, ri_enabled := Some (\<not> al_enabled r),
         ri_signal := Some s, ri_spec := (if s = js ''metric'' then Some (al_spec r) else None),
         ri_log := (if s = js ''log'' then al_log r else None),
         ri_terr := (if s = js ''trace'' then al_terr r else None),
         ri_tlat := (if s = js ''trace'' then al_tlat r else None),
         ri_tvol := (if s = js ''trace'' then al_tvol r else None),
         ri_service := al_service r, ri_integration := al_integration r, ri_group := al_group r,
         ri_title := al_title r, ri_body := al_body r, ri_notif := al_notif r,
         ri_display := Some (al_display r), ri_unit := al_unit r\<rparr>)"

definition toggle_on_integration :: "alert_rule \<Rightarrow> rule_input" where
  "toggle_on_integration r =
     (let s = switch_signal r in
      (bare_input (al_name r) (al_severity r) (al_channels r))
        \<lparr>ri_description := Some (al_description r), ri_runbook := al_runbook r, ri_enabled := Some (\<not> al_enabled r),
         ri_signal := Some s, ri_spec := (if s = js ''metric'' then Some (al_spec r) else None),
         ri_log := (if s = js ''log'' then al_log r else None),
         ri_terr := (if s = js ''trace'' then al_terr r else None),
         ri_service := al_service r, ri_integration := al_integration r, ri_group := al_group r\<rparr>)"

definition route_channels :: "jstring list \<Rightarrow> alert_rule \<Rightarrow> rule_input" where
  "route_channels next r =
     (bare_input (al_name r) (al_severity r) next)
       \<lparr>ri_description := Some (al_description r), ri_runbook := al_runbook r, ri_signal := Some (al_signal r),
        ri_enabled := Some (al_enabled r), ri_spec := Some (al_spec r), ri_log := al_log r, ri_terr := al_terr r,
        ri_tlat := al_tlat r, ri_tvol := al_tvol r, ri_service := al_service r\<rparr>"

text \<open>The rule the two switches mean to store, and the ones they store.\<close>

definition switched :: "alert_rule \<Rightarrow> alert_rule" where
  "switched r = r\<lparr>al_enabled := \<not> al_enabled r, al_system := None, al_env_mode := js ''each'', al_envs := [],
     al_resolve := default_resolve (al_signal r)\<rparr>"

definition without_texts :: "alert_rule \<Rightarrow> alert_rule" where
  "without_texts r = r\<lparr>al_title := None, al_body := None, al_notif := None, al_display := False, al_unit := None\<rparr>"

definition routed :: "jstring list \<Rightarrow> alert_rule \<Rightarrow> alert_rule" where
  "routed next r = without_texts (r\<lparr>al_channels := next, al_integration := None, al_system := None, al_group := None,
     al_env_mode := js ''each'', al_envs := [], al_resolve := default_resolve (al_signal r)\<rparr>)"

text \<open>The spec stage on a request that carries a stored rule's spec.\<close>

lemma respec:
  assumes st: "uuid_canonical sv" "put_rule sv i q = Inr r" and src: "al_source r = js ''telemetry''" "al_source t = al_source r"
    and sig: "al_signal t = al_signal r"
    and bound: "al_service t = al_service r" "al_integration t = al_integration r \<or> al_service r \<noteq> None"
    and p: "al_signal r = js ''metric'' \<Longrightarrow> ri_spec p = Some (al_spec r)"
      "al_signal r = js ''log'' \<Longrightarrow> ri_log p = al_log r"
      "al_signal r = js ''trace'' \<Longrightarrow> ri_tlat p = al_tlat r \<and> ri_tvol p = al_tvol r \<and> ri_tattr p = None \<and> ri_terr p = al_terr r"
  shows "signal_spec sv p (drop_specs t) =
    (if al_tattr r \<noteq> None then Inl TraceSpecRequired
     else Inr (t\<lparr>al_spec := al_spec r, al_log := al_log r, al_terr := al_terr r, al_tlat := al_tlat r, al_tvol := al_tvol r,
       al_tattr := None\<rparr>))"
proof -
  have eq: "t\<lparr>al_spec := a, al_log := b, al_terr := c, al_tlat := d, al_tvol := e, al_tattr := f\<rparr>
    = (drop_specs t)\<lparr>al_spec := a, al_log := b, al_terr := c, al_tlat := d, al_tvol := e, al_tattr := f\<rparr>" for a b c d e f
    by (simp add: drop_specs_def)
  consider "al_signal r = js ''metric''" | "al_signal r = js ''log''" | "al_signal r = js ''trace''"
    using stored_signals [OF st(2)] by blast
  then show ?thesis
  proof cases
    case 1
    then have "signal_spec sv p (drop_specs t) = Inr ((drop_specs t)\<lparr>al_spec := al_spec r\<rparr>)"
      using stored_metric [OF st 1] p(1) src by (simp add: signal_spec_def sig metric_signal_def)
    then show ?thesis using stored_metric [OF st 1] by (simp add: eq)
  next
    case 2
    then obtain l where l: "al_log r = Some l" "validateLogRuleSpec l = Inr l"
     "\<not> (lg_min l = 0 \<and> lg_body l = [] \<and> lg_attrs l = None \<and> al_service r = None \<and> al_integration r = None)"
      using stored_log [OF st 2] by blast
    then have "signal_spec sv p (drop_specs t) = Inr ((drop_specs t)\<lparr>al_log := Some l\<rparr>)"
      using p(2) 2 src bound by (auto simp: signal_spec_def sig log_signal_def)
    then show ?thesis using stored_log [OF st 2] l by (simp add: eq)
  next
    case 3
    note m = stored_trace [OF st 3]
    have b: "\<not> (al_integration t = None \<and> al_service t = None)" using m bound by auto
    have s: "signal_spec sv p (drop_specs t) = trace_signal p (drop_specs t)" by (simp add: signal_spec_def sig 3)
    note ev = s trace_signal_def src b
    show ?thesis
    proof (cases "al_tlat r")
      case (Some x)
      then show ?thesis using m p(3) 3 b by (simp add: ev eq)
    next
      case l: None
      show ?thesis
      proof (cases "al_tvol r")
        case (Some x)
        then show ?thesis using m p(3) 3 b l by (simp add: ev eq)
      next
        case v: None
        show ?thesis
        proof (cases "al_tattr r")
          case (Some x)
          then show ?thesis using m p(3) 3 b l v by (simp add: ev)
        next
          case a: None
          then obtain x where x: "al_terr r = Some x" using m l v by (cases "al_terr r") auto
          then have "x\<lparr>te_attrs := te_attrs x\<rparr> = x" by simp
          then show ?thesis using m p(3) 3 b l v a x by (simp add: ev eq)
        qed
      qed
    qed
  qed
qed


text \<open>The head of a switch's request.\<close>

lemma switch_head:
  assumes st: "uuid_canonical sv" "put_rule sv i q = Inr r" and empty: "sv_template sv []"
    and t: "al_id t = i" "al_name t = al_name r" "al_severity t = al_severity r" "al_signal t = al_signal r"
      "al_source t = js ''telemetry''" "al_resolve t = default_resolve (al_signal r)" "al_env_mode t = js ''each''" "al_envs t = []"
      "al_system t = None" "al_description t = al_description r" "al_runbook t = al_runbook r" "al_service t = al_service r"
      "al_integration t \<in> {None, al_integration r}" "al_group t \<in> {None, al_group r}" "al_title t \<in> {None, al_title r}"
      "al_body t \<in> {None, al_body r}" "al_notif t \<in> {None, al_notif r}" "al_unit t \<in> {None, al_unit r}"
      "parse_channels sv (ri_channels p) = Inr (al_channels t)"
    and p: "ri_name p = al_name r" "ri_severity p = al_severity r" "ri_channels p = al_channels t" "ri_signal p = Some (al_signal r)"
      "ri_source p = None" "ri_resolve p = None" "ri_env_mode p = None" "ri_service p = al_service t"
      "ri_integration p = al_integration t" "ri_system p = None" "ri_group p = al_group t" "ri_title p = al_title t"
      "ri_body p = al_body t" "ri_notif p = al_notif t" "ri_description p = Some (al_description r)"
      "ri_runbook p = al_runbook r" "ri_enabled p = Some (al_enabled t)" "truthy_bool (ri_display p) = al_display t" "ri_unit p = al_unit t"
  shows "put_rule sv i p = map_sum id store_rule (signal_spec sv p (drop_specs t))"
proof -
  note f = stored_facts [OF st]
  have none: "parse_ref sv e None = Inr None" for e by (simp add: parse_ref_def)
  have om: "omit_empty (go_str None) = None" by simp
  have sig: "request_signal p = al_signal r"
    using stored_signals [OF st(2)] by (auto simp: request_signal_def p or_default_def trim_words)
  have cc: "coalesce (al_title r) [] = go_str (al_title r)" "coalesce (al_body r) [] = go_str (al_body r)"
    using f(12,13) omit_empty_simps(3) by metis+
  have h: "heads_as t p"
    unfolding heads_as_def
  proof (intro conjI)
    show "request_severity p = al_severity t"
      using f(4,5) by (auto simp: request_severity_def p t or_default_def ALERT_SEVERITIES_def)
    show "environment_scope (al_integration t) p = Inr (al_env_mode t, al_envs t)"
      using environment_scope_each [of p] by (simp add: p t)
    show "request_source p = al_source t" "request_resolve p = al_resolve t"
      by (simp_all add: request_source_def request_resolve_def sig p t or_default_def trim_words)
    show "map_option written_content (ri_notif p) = al_notif t" using t(17) f(19) by (auto simp: p)
    show "omit_empty (go_str (ri_title p)) = al_title t" using t(15) f(12) by (auto simp: p)
    show "omit_empty (go_str (ri_body p)) = al_body t" using t(16) f(13) by (auto simp: p)
    show "omit_empty (go_str (ri_unit p)) = al_unit t" using t(18) f(15) by (auto simp: p)
  qed (simp_all add: p sig t(1-12) f(2,11,14,16))
  show ?thesis
  proof (rule put_with_head [OF h t(1)])
    show "parse_channels sv (al_channels t) = Inr (al_channels t)" using t(19) by (simp add: p(3))
    show "parse_ref sv InvalidIntegration (al_integration t) = Inr (al_integration t)" using t(13) f(8) none by auto
    show "parse_ref sv InvalidGroup (al_group t) = Inr (al_group t)" using t(14) f(10) none by auto
    show "sv_template sv (coalesce (al_title t) [])" using t(15) f(17) empty cc by auto
    show "sv_template sv (coalesce (al_body t) [])" using t(16) f(18) empty cc by auto
    show "ri_notif p = None \<or> (sv_liquid sv (content_text nc_email_subject (ri_notif p))
         \<and> sv_liquid sv (content_text nc_email_body (ri_notif p)))" using t(17) f(21) by (auto simp: p)
    show "al_resolve t \<in> {js ''auto'', js ''manual''}" by (simp add: t default_resolve_def)
  qed (simp_all add: t f(3,4) none)
qed


lemma toggleRule_put:
  assumes st: "uuid_canonical sv" "put_rule sv i q = Inr r" and empty: "sv_template sv []"
  shows "put_rule sv i (toggleRule r) =
    (if al_source r = js ''pushed'' then Inl MetricNameRequired
     else if al_tattr r \<noteq> None then Inl TraceSpecRequired
     else Inr (switched r))"
proof -
  note f = stored_facts [OF st]
  note ok = stored_rule_ok [OF st(2), unfolded rule_ok_def]
  define t where "t = (switched r)\<lparr>al_source := js ''telemetry''\<rparr>"
  have sw: "switch_signal r = al_signal r" using stored_signals [OF st(2)] by (auto simp: switch_signal_def)
  have h: "put_rule sv i (toggleRule r) = map_sum id store_rule (signal_spec sv (toggleRule r) (drop_specs t))"
    by (rule switch_head [OF st empty]) (simp_all add: t_def switched_def toggleRule_def Let_def sw f(1,6))
  show ?thesis
  proof (cases "al_source r = js ''pushed''")
    case True
    have m: "al_signal r = js ''metric''" "ms_metric (al_spec r) = []"
      using ok True by (auto simp: spec_ok_def split: if_splits)
    then have "signal_spec sv (toggleRule r) (drop_specs t) = Inl MetricNameRequired"
      by (simp add: signal_spec_def metric_signal_def t_def switched_def toggleRule_def Let_def sw validateMetricRuleSpec_def)
    then show ?thesis using True h by simp
  next
    case False
    then have src: "al_source r = js ''telemetry''" using ok by auto
    have t: "t = switched r" by (rule alert_rule.equality) (simp_all add: t_def switched_def src)
    have s: "signal_spec sv (toggleRule r) (drop_specs t) = (if al_tattr r \<noteq> None then Inl TraceSpecRequired
     else Inr (t\<lparr>al_spec := al_spec r, al_log := al_log r, al_terr := al_terr r, al_tlat := al_tlat r, al_tvol := al_tvol r,
       al_tattr := None\<rparr>))"
      by (rule respec [OF st src]) (simp_all add: t switched_def src toggleRule_def Let_def sw)
    have e: "al_tattr r = None \<Longrightarrow> t\<lparr>al_spec := al_spec r, al_log := al_log r, al_terr := al_terr r, al_tlat := al_tlat r,
       al_tvol := al_tvol r, al_tattr := None\<rparr> = switched r"
      by (rule alert_rule.equality) (simp_all add: t switched_def)
    have "store_rule (switched r) = switched r"
      using f(7) by (intro store_rule_fixed) (simp_all add: switched_def src default_resolve_def)
    then show ?thesis using h s e src by auto
  qed
qed

lemma toggle_on_integration_put:
  assumes st: "uuid_canonical sv" "put_rule sv i q = Inr r" and empty: "sv_template sv []"
  shows "put_rule sv i (toggle_on_integration r) =
    (if al_source r = js ''pushed'' then Inl MetricNameRequired
     else if al_tattr r \<noteq> None \<or> al_tlat r \<noteq> None \<or> al_tvol r \<noteq> None then Inl TraceSpecRequired
     else Inr (without_texts (switched r)))"
proof -
  note f = stored_facts [OF st]
  note ok = stored_rule_ok [OF st(2), unfolded rule_ok_def]
  define t where "t = (without_texts (switched r))\<lparr>al_source := js ''telemetry''\<rparr>"
  have sw: "switch_signal r = al_signal r" using stored_signals [OF st(2)] by (auto simp: switch_signal_def)
  note ev = t_def without_texts_def switched_def toggle_on_integration_def Let_def sw
  have h: "put_rule sv i (toggle_on_integration r) = map_sum id store_rule (signal_spec sv (toggle_on_integration r) (drop_specs t))"
    by (rule switch_head [OF st empty]) (simp_all add: ev f(1,6))
  show ?thesis
  proof (cases "al_source r = js ''pushed''")
    case True
    have m: "al_signal r = js ''metric''" "ms_metric (al_spec r) = []"
      using ok True by (auto simp: spec_ok_def split: if_splits)
    then have "signal_spec sv (toggle_on_integration r) (drop_specs t) = Inl MetricNameRequired"
      by (simp add: signal_spec_def metric_signal_def ev validateMetricRuleSpec_def)
    then show ?thesis using True h by simp
  next
    case False
    then have src: "al_source r = js ''telemetry''" using ok by auto
    show ?thesis
    proof (cases "al_tlat r = None \<and> al_tvol r = None")
      case True
      have s: "signal_spec sv (toggle_on_integration r) (drop_specs t) = (if al_tattr r \<noteq> None then Inl TraceSpecRequired
       else Inr (t\<lparr>al_spec := al_spec r, al_log := al_log r, al_terr := al_terr r, al_tlat := al_tlat r, al_tvol := al_tvol r,
         al_tattr := None\<rparr>))"
        by (rule respec [OF st src]) (simp_all add: ev src True)
      have e: "al_tattr r = None \<Longrightarrow> t\<lparr>al_spec := al_spec r, al_log := al_log r, al_terr := al_terr r, al_tlat := al_tlat r,
         al_tvol := al_tvol r, al_tattr := None\<rparr> = without_texts (switched r)"
        by (rule alert_rule.equality) (simp_all add: ev src)
      have "store_rule (without_texts (switched r)) = without_texts (switched r)"
        using f(7) by (intro store_rule_fixed) (simp_all add: without_texts_def switched_def src default_resolve_def)
      then show ?thesis using h s e src True by auto
    next
      case F: False
      then have sig: "al_signal r = js ''trace''"
        using stored_signals [OF st(2)] stored_metric [OF st] stored_log [OF st] by auto
      note m = stored_trace [OF st sig]
      have "al_terr r = None" using m F by (auto split: option.splits)
      then have "signal_spec sv (toggle_on_integration r) (drop_specs t) = Inl TraceSpecRequired"
        using m by (auto simp: signal_spec_def trace_signal_def ev sig)
      then show ?thesis using h F src by auto
    qed
  qed
qed

lemma route_channels_put:
  assumes st: "uuid_canonical sv" "put_rule sv i q = Inr r" and empty: "sv_template sv []"
    and chan: "parse_channels sv next = Inr next" "distinct next" and svc: "al_service r \<noteq> None"
  shows "put_rule sv i (route_channels next r) =
    (if al_source r = js ''pushed'' then Inl MetricNameRequired
     else if al_tattr r \<noteq> None then Inl TraceSpecRequired
     else Inr (routed next r))"
proof -
  note f = stored_facts [OF st]
  note ok = stored_rule_ok [OF st(2), unfolded rule_ok_def]
  define t where "t = (routed next r)\<lparr>al_source := js ''telemetry''\<rparr>"
  note ev = t_def routed_def without_texts_def route_channels_def
  have h: "put_rule sv i (route_channels next r) = map_sum id store_rule (signal_spec sv (route_channels next r) (drop_specs t))"
    by (rule switch_head [OF st empty]) (simp_all add: ev f(1) chan)
  show ?thesis
  proof (cases "al_source r = js ''pushed''")
    case True
    have m: "al_signal r = js ''metric''" "ms_metric (al_spec r) = []"
      using ok True by (auto simp: spec_ok_def split: if_splits)
    then have "signal_spec sv (route_channels next r) (drop_specs t) = Inl MetricNameRequired"
      by (simp add: signal_spec_def metric_signal_def ev validateMetricRuleSpec_def)
    then show ?thesis using True h by simp
  next
    case False
    then have src: "al_source r = js ''telemetry''" using ok by auto
    have s: "signal_spec sv (route_channels next r) (drop_specs t) = (if al_tattr r \<noteq> None then Inl TraceSpecRequired
     else Inr (t\<lparr>al_spec := al_spec r, al_log := al_log r, al_terr := al_terr r, al_tlat := al_tlat r, al_tvol := al_tvol r,
       al_tattr := None\<rparr>))"
      by (rule respec [OF st src]) (simp_all add: ev src svc)
    have e: "al_tattr r = None \<Longrightarrow> t\<lparr>al_spec := al_spec r, al_log := al_log r, al_terr := al_terr r, al_tlat := al_tlat r,
       al_tvol := al_tvol r, al_tattr := None\<rparr> = routed next r"
      by (rule alert_rule.equality) (simp_all add: ev src)
    have "store_rule (routed next r) = routed next r"
      using chan(2) by (intro store_rule_fixed) (simp_all add: routed_def without_texts_def src default_resolve_def dedupe_distinct)
    then show ?thesis using h s e src by auto
  qed
qed

text \<open>C20: What the three writers that keep a rule's condition make of a stored rule.  A pushed check and a
  span-attribute check can be neither switched nor routed (the switch on the integration page
  also fails on response-time and low-traffic checks); every other rule changes what it was
  asked to change, and loses its system, its environments and its resolve mode, on the
  integration page also its templates, content, tile and unit, and when channels are routed
  its integration and team besides.\<close>

theorem switches_and_routing:
  assumes "uuid_canonical sv" "put_rule sv i q = Inr r" "sv_template sv []"
  shows "put_rule sv i (toggleRule r) =
      (if al_source r = js ''pushed'' then Inl MetricNameRequired
       else if al_tattr r \<noteq> None then Inl TraceSpecRequired else Inr (switched r))
    \<and> put_rule sv i (toggle_on_integration r) =
      (if al_source r = js ''pushed'' then Inl MetricNameRequired
       else if al_tattr r \<noteq> None \<or> al_tlat r \<noteq> None \<or> al_tvol r \<noteq> None then Inl TraceSpecRequired
       else Inr (without_texts (switched r)))
    \<and> (parse_channels sv next = Inr next \<longrightarrow> distinct next \<longrightarrow> al_service r \<noteq> None \<longrightarrow>
       put_rule sv i (route_channels next r) =
      (if al_source r = js ''pushed'' then Inl MetricNameRequired
       else if al_tattr r \<noteq> None then Inl TraceSpecRequired else Inr (routed next r)))"
  using toggleRule_put [OF assms] toggle_on_integration_put [OF assms] route_channels_put [OF assms]
  by simp

definition demo_service_rule :: alert_rule where
  "demo_service_rule = demo_rule\<lparr>al_service := Some (js ''billing'')\<rparr>"

lemma demo_service_stored:
  "put_rule demo_api (js ''r1'') (full_input demo_service_rule) = Inr demo_service_rule"
  by code_simp

theorem switches_and_routing_ex:
  "put_rule demo_api (js ''r1'') (toggleRule demo_service_rule) = Inr (switched demo_service_rule)
   \<and> put_rule demo_api (js ''r1'') (route_channels [] demo_service_rule) = Inr (routed [] demo_service_rule)"
proof -
  have t: "sv_template demo_api []" by (simp add: demo_api_def)
  have p: "al_source demo_service_rule \<noteq> js ''pushed''" "al_tattr demo_service_rule = None"
    "al_service demo_service_rule \<noteq> None"
    by code_simp+
  show ?thesis
    using switches_and_routing [OF demo_uuid demo_service_stored t, of "[]"] p by simp
qed

end
