(* ===== verification/Query.thy ===== *)
theory Query
  imports Uri
begin

text \<open>
  The text form of \<open>URLSearchParams\<close>: \<open>new URLSearchParams(text)\<close> and \<open>params.toString()\<close>, the
  \<open>application/x-www-form-urlencoded\<close> parser and serializer of the URL standard.  \<open>lenient\<close> is what
  the parser makes of a malformed escape (it never throws).  A link the code builds is read back as the
  parameters it was built from.
\<close>

section \<open>Parsing\<close>

text \<open>\<open>new URLSearchParams(location.search)\<close>: the query is what follows the first question mark.\<close>

definition query_decode :: "(jstring \<Rightarrow> jstring) \<Rightarrow> jstring \<Rightarrow> jstring" where
  "query_decode lenient s =
     (let t = map (\<lambda>c. if c = 43 then 32 else c) s
      in case decodeURIComponent t of Some u \<Rightarrow> u | None \<Rightarrow> lenient t)"

definition query_pair :: "(jstring \<Rightarrow> jstring) \<Rightarrow> jstring \<Rightarrow> jstring \<times> jstring" where
  "query_pair lenient s =
     (case index_of 61 s of
        None \<Rightarrow> (query_decode lenient s, [])
      | Some i \<Rightarrow> (query_decode lenient (take i s), query_decode lenient (drop (Suc i) s)))"

definition parse_query :: "(jstring \<Rightarrow> jstring) \<Rightarrow> jstring \<Rightarrow> params" where
  "parse_query lenient s = map (query_pair lenient) (filter (\<lambda>p. p \<noteq> []) (split_on 38 s))"

section \<open>Writing\<close>

text \<open>\<open>URLSearchParams\<close> holds scalar values: a lone surrogate has become U+FFFD.\<close>

fun scalar_values :: "jstring \<Rightarrow> nat list" where
  "scalar_values [] = []"
| "scalar_values (u # us) =
     (if high_surrogate u
      then (case us of
          [] \<Rightarrow> [0xFFFD]
        | v # vs \<Rightarrow> if low_surrogate v
            then (0x10000 + (u - 0xD800) * 0x400 + (v - 0xDC00)) # scalar_values vs
            else 0xFFFD # scalar_values us)
      else (if low_surrogate u then 0xFFFD else u) # scalar_values us)"

definition form_safe :: "nat \<Rightarrow> bool" where
  "form_safe c \<longleftrightarrow> is_digit c \<or> is_lower c \<or> is_upper c \<or> c \<in> set (js ''*-._'')"

definition form_point :: "nat \<Rightarrow> jstring" where
  "form_point c = (if c = 32 then [43] else if form_safe c then [c] else concat (map pct (utf8 c)))"

definition form_encode :: "jstring \<Rightarrow> jstring" where
  "form_encode s = concat (map form_point (scalar_values s))"

definition query_part :: "jstring \<times> jstring \<Rightarrow> jstring" where
  "query_part p = form_encode (fst p) @ 61 # form_encode (snd p)"

definition to_query :: "params \<Rightarrow> jstring" where
  "to_query ps = join [38] (map query_part ps)"

section \<open>Reading what was written\<close>

definition well_formed :: "jstring \<Rightarrow> bool" where
  "well_formed s \<longleftrightarrow> code_points s \<noteq> None \<and> (\<forall>u \<in> set s. u < 0x10000)"

lemma scalar_values_code_points: "code_points s = Some cs \<Longrightarrow> scalar_values s = cs"
proof (induction s arbitrary: cs rule: code_points.induct)
  case (2 u us)
  show ?case
  proof (cases "high_surrogate u")
    case True
    with 2(3) obtain v vs ds where "us = v # vs" "low_surrogate v" "code_points vs = Some ds"
      "cs = (0x10000 + (u - 0xD800) * 0x400 + (v - 0xDC00)) # ds"
      by (auto split: list.splits if_splits)
    with 2(1) [OF True, of v vs ds] True show ?thesis by simp
  next
    case False
    with 2(3) obtain ds where "\<not> low_surrogate u" "code_points us = Some ds" "cs = u # ds" by (auto split: if_splits)
    with 2(2) [OF False, of ds] False show ?thesis by simp
  qed
qed simp

lemma decode_escaped:
  assumes "c \<le> 0x10FFFF" "\<not> high_surrogate c" "\<not> low_surrogate c"
  shows "decodeURIComponent (concat (map pct (utf8 c)) @ r) = map_option (\<lambda>s. utf16 c @ s) (decodeURIComponent r)"
proof -
  obtain b bs where u: "utf8 c = b # bs" by (cases "utf8 c") (auto simp: utf8_def split: if_splits)
  have h: "concat (map pct (utf8 c)) @ r = 37 # (tl (pct b) @ concat (map pct bs) @ r)" by (simp add: u pct_def)
  show ?thesis using take_point_encoded [OF assms, of r] unfolding h by (simp add: h)
qed

lemma form_safe_plain: "form_safe c \<Longrightarrow> c < 0x80 \<and> c \<noteq> 32 \<and> c \<noteq> 37 \<and> c \<noteq> 38 \<and> c \<noteq> 43 \<and> c \<noteq> 61 \<and> c \<noteq> 63"
  by (auto simp: form_safe_def is_digit_def is_lower_def is_upper_def js_def)

lemma pct_plain: "b < 256 \<Longrightarrow> x \<in> set (pct b) \<Longrightarrow> x \<noteq> 38 \<and> x \<noteq> 43 \<and> x \<noteq> 61 \<and> x \<noteq> 63"
  by (auto simp: pct_def hex_digit_def split: if_splits)

lemma form_point_units:
  "c \<le> 0x10FFFF \<Longrightarrow> x \<in> set (form_point c) \<Longrightarrow> x \<noteq> 38 \<and> x \<noteq> 61 \<and> x \<noteq> 63 \<and> (x = 43 \<longrightarrow> c = 32)"
  using form_safe_plain [of c] by (auto simp: form_point_def split: if_splits dest!: pct_plain [rotated] utf8_bytes)

lemma scalar_valuesD:
  assumes "well_formed s"
  shows "concat (map utf16 (scalar_values s)) = s"
    "\<forall>c \<in> set (scalar_values s). c \<le> 0x10FFFF \<and> \<not> high_surrogate c \<and> \<not> low_surrogate c"
proof -
  obtain cs where "code_points s = Some cs" "\<forall>u \<in> set s. u < 0x10000"
    using assms by (auto simp: well_formed_def)
  with code_points_valid [of s cs] scalar_values_code_points [of s cs] show
    "concat (map utf16 (scalar_values s)) = s"
    "\<forall>c \<in> set (scalar_values s). c \<le> 0x10FFFF \<and> \<not> high_surrogate c \<and> \<not> low_surrogate c" by simp_all
qed

lemma form_encode_units:
  assumes "well_formed s"
  shows "38 \<notin> set (form_encode s)" "61 \<notin> set (form_encode s)" "63 \<notin> set (form_encode s)"
  using scalar_valuesD(2) [OF assms] form_point_units by (fastforce simp: form_encode_def)+

definition plus_to_space :: "nat \<Rightarrow> nat" where
  "plus_to_space c = (if c = 43 then 32 else c)"

lemma decode_form_point:
  assumes "c \<le> 0x10FFFF" "\<not> high_surrogate c" "\<not> low_surrogate c"
  shows "decodeURIComponent (map plus_to_space (form_point c) @ r) = map_option (\<lambda>s. utf16 c @ s) (decodeURIComponent r)"
proof (cases "c = 32")
  case False
  have p: "map plus_to_space (form_point c) = form_point c"
    using form_point_units [OF assms(1)] False by (intro map_idI) (auto simp: plus_to_space_def)
  show ?thesis
  proof (cases "form_safe c")
    case True
    then show ?thesis using form_safe_plain [of c] unfolding p by (simp add: form_point_def utf16_def)
  next
    case F: False
    then show ?thesis using decode_escaped [OF assms, of r] False unfolding p by (simp add: form_point_def)
  qed
qed (simp add: form_point_def plus_to_space_def utf16_def)

lemma query_decode_form:
  assumes "well_formed s"
  shows "query_decode lenient (form_encode s) = s"
proof -
  have "decodeURIComponent (map plus_to_space (concat (map form_point cs))) = Some (concat (map utf16 cs))"
    if "\<forall>c \<in> set cs. c \<le> 0x10FFFF \<and> \<not> high_surrogate c \<and> \<not> low_surrogate c" for cs
    using that by (induction cs) (simp_all add: decode_form_point)
  from this [OF scalar_valuesD(2) [OF assms]] show ?thesis
    by (simp add: query_decode_def form_encode_def scalar_valuesD(1) [OF assms] flip: plus_to_space_def)
qed

lemma query_pair_part:
  assumes "well_formed k" "well_formed v"
  shows "query_pair lenient (query_part (k, v)) = (k, v)"
  using index_of_Some_append [OF form_encode_units(2) [OF assms(1)], of "form_encode v"]
  by (simp add: query_pair_def query_part_def query_decode_form assms)

theorem parse_to_query:
  assumes "list_all (\<lambda>p. well_formed (fst p) \<and> well_formed (snd p)) ps"
  shows "parse_query lenient (to_query ps) = ps"
proof (cases "ps = []")
  case True
  then show ?thesis by (simp add: to_query_def parse_query_def)
next
  case False
  have "38 \<notin> set (query_part p)" if "p \<in> set ps" for p
    using assms that form_encode_units(1) by (auto simp: query_part_def list_all_iff)
  then have "split_on 38 (to_query ps) = map query_part ps"
    unfolding to_query_def using False by (intro split_on_join) auto
  moreover have "filter (\<lambda>p. p \<noteq> []) (map query_part ps) = map query_part ps"
    by (rule filter_True) (auto simp: query_part_def)
  moreover have "map (query_pair lenient) (map query_part ps) = ps"
    using assms query_pair_part unfolding map_map by (intro map_idI) (auto simp: list_all_iff)
  ultimately show ?thesis by (simp add: parse_query_def)
qed

lemma well_formed_ascii: "list_all (\<lambda>u. u < 0x80) s \<Longrightarrow> well_formed s"
proof -
  have "list_all (\<lambda>u. u < 0x80) s \<Longrightarrow> code_points s = Some s"
    by (induction s) (auto simp: high_surrogate_def low_surrogate_def)
  then show "list_all (\<lambda>u. u < 0x80) s \<Longrightarrow> well_formed s"
    by (auto simp: well_formed_def list_all_iff)
qed

lemma to_query_units: 
  assumes "list_all (\<lambda>p. well_formed (fst p) \<and> well_formed (snd p)) ps"
  shows "63 \<notin> set (to_query ps)"
proof -
  have p: "63 \<notin> set (query_part p)" if "p \<in> set ps" for p
    using assms that form_encode_units(3) by (auto simp: query_part_def list_all_iff)
  have "x \<in> set (join [38] ys) \<Longrightarrow> x = 38 \<or> (\<exists>y \<in> set ys. x \<in> set y)" for x ys
    by (induction "[38::nat]" ys rule: join.induct) auto
  then show ?thesis using p by (force simp: to_query_def)
qed

end
