(* ===== verification/ErrorsPage.thy ===== *)
theory ErrorsPage
  imports RuleStore Query
begin

text \<open>
  The Errors page: sorting the failing checks into the groups it renders (\<open>lib/checkBuckets.ts\<close>),
  the grouping of everything in trouble by system, integration and service
  (\<open>pages/StuckMessages.tsx\<close>), the link to a check's editor and what the page it leads to does
  with it (\<open>lib/checkEditHref.ts\<close>, \<open>components/health/HealthChecks.tsx\<close>,
  \<open>pages/ServiceDetail.tsx\<close>, \<open>pages/IntegrationSettings.tsx\<close>), and the checks that recovered on
  their own (\<open>lib/recentlyResolved.ts\<close>).

  A map is its list of entries (\<open>Collections\<close>); \<open>coll\<close> is \<open>localeCompare\<close>, \<open>ms\<close> is
  \<open>Date.parse\<close> with \<open>None\<close> for \<open>NaN\<close>, and \<open>lenient\<close> is what \<open>URLSearchParams\<close> makes of a
  malformed escape.
\<close>

section \<open>The feed\<close>

record failing_check =
  fc_id :: jstring
  fc_rule_id :: jstring
  fc_rule_name :: jstring
  fc_severity :: jstring
  fc_started_at :: jstring
  fc_handled_at :: "jstring option"
  fc_summary :: "jstring option"
  fc_kind :: jstring
  fc_service :: "jstring option"
  fc_integration :: "jstring option"
  fc_integration_name :: "jstring option"
  fc_system :: "jstring option"
  fc_system_name :: "jstring option"
  fc_attrs :: "rule_attr list option"

record open_error =
  oe_service :: jstring
  oe_error_traces :: nat
  oe_first :: jstring
  oe_last :: jstring
  oe_sample :: "jstring option"

record integration_ref =
  ir_id :: jstring
  ir_slug :: jstring
  ir_name :: jstring

text \<open>Of a service summary, what this page reads.\<close>

record troubled_service =
  ts_name :: jstring
  ts_integrations :: "integration_ref list option"
  ts_is_system :: "bool option"

record errors_feed =
  ef_checks :: "failing_check list"
  ef_open :: "open_error list"
  ef_services :: "troubled_service list"

section \<open>Buckets\<close>

record check_buckets =
  cb_service :: "(jstring \<times> failing_check list) list"
  cb_integration :: "(jstring \<times> failing_check list) list"
  cb_system :: "(jstring \<times> failing_check list) list"
  cb_global :: "failing_check list"

text \<open>The entity a check guards: the same cascade in the buckets, the edit link and the target.\<close>

datatype check_place = OnSystem jstring | OnIntegration jstring | OnService jstring | OrgWide

definition place_of :: "failing_check \<Rightarrow> check_place" where
  "place_of c =
     (if fc_kind c = js ''system'' \<and> truthy_str (fc_system c) then OnSystem (coalesce (fc_system c) [])
      else if fc_kind c = js ''integration'' \<and> truthy_str (fc_integration c)
      then OnIntegration (coalesce (fc_integration c) [])
      else if fc_kind c = js ''service'' \<and> truthy_str (fc_service c) then OnService (coalesce (fc_service c) [])
      else OrgWide)"

definition bucket_step :: "check_buckets \<Rightarrow> failing_check \<Rightarrow> check_buckets" where
  "bucket_step out c =
     (case place_of c of
        OnSystem i \<Rightarrow> out\<lparr>cb_system := map_push (cb_system out) i c\<rparr>
      | OnIntegration i \<Rightarrow> out\<lparr>cb_integration := map_push (cb_integration out) i c\<rparr>
      | OnService n \<Rightarrow> out\<lparr>cb_service := map_push (cb_service out) n c\<rparr>
      | OrgWide \<Rightarrow> out\<lparr>cb_global := cb_global out @ [c]\<rparr>)"

definition bucketChecks :: "failing_check list \<Rightarrow> check_buckets" where
  "bucketChecks cs =
     foldl bucket_step \<lparr>cb_service = [], cb_integration = [], cb_system = [], cb_global = []\<rparr> cs"

definition bucketedCount :: "check_buckets \<Rightarrow> nat" where
  "bucketedCount b = length (cb_global b) + sum_list (map length (map_values (cb_service b)))
     + sum_list (map length (map_values (cb_integration b))) + sum_list (map length (map_values (cb_system b)))"

section \<open>The page\<close>

record integration_group =
  ig_ref :: integration_ref
  ig_services :: "jstring list"
  ig_checks :: "failing_check list"

record errors_page =
  ep_systems :: "jstring list"
  ep_integrations :: "integration_group list"
  ep_others :: "jstring list"
  ep_global :: "failing_check list"
  ep_system_checks :: "(jstring \<times> jstring \<times> failing_check list) list"

text \<open>The names in trouble, in the order the page meets them, and where each one goes.\<close>

definition troubled :: "check_buckets \<Rightarrow> errors_feed \<Rightarrow> jstring list" where
  "troubled b f = dedupe (map ts_name (ef_services f) @ map fst (cb_service b) @ map oe_service (ef_open f))"

definition summary_of :: "errors_feed \<Rightarrow> jstring \<Rightarrow> troubled_service option" where
  "summary_of f name = map_of (map_of_entries ts_name (\<lambda>s. s) (ef_services f)) name"

type_synonym group_map = "(jstring \<times> integration_group) list"

definition add_service :: "jstring \<Rightarrow> group_map \<Rightarrow> integration_ref \<Rightarrow> group_map" where
  "add_service name m r =
     (let g = coalesce (map_of m (ir_id r)) \<lparr>ig_ref = r, ig_services = [], ig_checks = []\<rparr>
      in AList.update (ir_id r) (g\<lparr>ig_services := ig_services g @ [name]\<rparr>) m)"

definition place_name :: "errors_feed \<Rightarrow> jstring list \<times> group_map \<times> jstring list \<Rightarrow> jstring
    \<Rightarrow> jstring list \<times> group_map \<times> jstring list" where
  "place_name f st name =
     (case st of (sys, groups, others) \<Rightarrow>
        let s = summary_of f name;
            ints = coalesce (Option.bind s ts_integrations) [] in
        if truthy_bool (Option.bind s ts_is_system) then (sys @ [name], groups, others)
        else if ints \<noteq> [] then (sys, foldl (add_service name) groups ints, others)
        else (sys, groups, others @ [name]))"

definition add_checks :: "group_map \<Rightarrow> jstring \<times> failing_check list \<Rightarrow> group_map" where
  "add_checks m b =
     (let g = coalesce (map_of m (fst b))
        \<lparr>ig_ref = \<lparr>ir_id = fst b, ir_slug = [],
                   ir_name = or_str (case snd b of [] \<Rightarrow> None | c # _ \<Rightarrow> fc_integration_name c) (js ''integration'')\<rparr>,
         ig_services = [], ig_checks = []\<rparr>
      in AList.update (fst b) (g\<lparr>ig_checks := ig_checks g @ snd b\<rparr>) m)"

definition system_group :: "jstring \<times> failing_check list \<Rightarrow> jstring \<times> jstring \<times> failing_check list" where
  "system_group b =
     (fst b, or_str (case snd b of [] \<Rightarrow> None | c # _ \<Rightarrow> fc_system_name c) (js ''system''), snd b)"

definition group_errors :: "(jstring \<Rightarrow> jstring \<Rightarrow> int) \<Rightarrow> errors_feed \<Rightarrow> errors_page" where
  "group_errors coll f =
     (let b = bucketChecks (ef_checks f);
          (sys, groups, others) = foldl (place_name f) ([], [], []) (troubled b f);
          groups' = foldl add_checks groups (cb_integration b)
      in \<lparr>ep_systems = js_sort coll sys,
          ep_integrations =
            map (\<lambda>g. g\<lparr>ig_services := js_sort coll (dedupe (ig_services g))\<rparr>)
              (js_sort (cmp_on (\<lambda>g. ir_name (ig_ref g)) coll) (map_values groups')),
          ep_others = js_sort coll others, ep_global = cb_global b,
          ep_system_checks = map system_group (cb_system b)\<rparr>)"

definition all_clear :: "bool \<Rightarrow> bool \<Rightarrow> errors_feed \<Rightarrow> bool" where
  "all_clear loading failed f \<longleftrightarrow> \<not> loading \<and> \<not> failed \<and> ef_checks f = [] \<and> ef_open f = [] \<and> ef_services f = []"

text \<open>What the sections render: the service blocks, and the checks they and the groups list.\<close>

definition page_services :: "errors_page \<Rightarrow> jstring list" where
  "page_services p = ep_systems p @ concat (map ig_services (ep_integrations p)) @ ep_others p"

definition block_checks :: "errors_feed \<Rightarrow> jstring \<Rightarrow> failing_check list" where
  "block_checks f name = coalesce (map_of (cb_service (bucketChecks (ef_checks f))) name) []"

definition page_checks :: "errors_feed \<Rightarrow> errors_page \<Rightarrow> failing_check list" where
  "page_checks f p = concat (map (block_checks f) (page_services p)) @ concat (map ig_checks (ep_integrations p))
     @ concat (map (\<lambda>g. snd (snd g)) (ep_system_checks p)) @ ep_global p"

section \<open>Buckets lose nothing\<close>

text \<open>Each bucket map is the grouping of the checks of its kind by the id they carry.\<close>

definition place_id :: "failing_check \<Rightarrow> jstring" where
  "place_id c = (case place_of c of OnSystem i \<Rightarrow> i | OnIntegration i \<Rightarrow> i | OnService n \<Rightarrow> n | OrgWide \<Rightarrow> [])"

definition is_on_system :: "failing_check \<Rightarrow> bool" where
  "is_on_system c \<longleftrightarrow> (case place_of c of OnSystem i \<Rightarrow> True | _ \<Rightarrow> False)"

definition is_on_integration :: "failing_check \<Rightarrow> bool" where
  "is_on_integration c \<longleftrightarrow> (case place_of c of OnIntegration i \<Rightarrow> True | _ \<Rightarrow> False)"

definition is_on_service :: "failing_check \<Rightarrow> bool" where
  "is_on_service c \<longleftrightarrow> (case place_of c of OnService i \<Rightarrow> True | _ \<Rightarrow> False)"

lemma group_by_snoc: "group_by f (xs @ [x]) = map_push (group_by f xs) (f x) x"
  by (simp add: group_by_def)

lemmas place_kinds = is_on_system_def is_on_integration_def is_on_service_def place_id_def

lemma bucketChecks_alt:
  "bucketChecks cs = \<lparr>cb_service = group_by place_id (filter is_on_service cs),
     cb_integration = group_by place_id (filter is_on_integration cs),
     cb_system = group_by place_id (filter is_on_system cs),
     cb_global = filter (\<lambda>c. place_of c = OrgWide) cs\<rparr>"
proof (induction cs rule: rev_induct)
  case (snoc c cs)
  have "bucketChecks (cs @ [c]) = bucket_step (bucketChecks cs) c" by (simp add: bucketChecks_def)
  then show ?case
    by (simp add: snoc bucket_step_def place_kinds group_by_snoc split: check_place.split)
qed (simp add: bucketChecks_def group_by_def)

lemma mset_places:
  "mset (filter is_on_service cs) + mset (filter is_on_integration cs) + mset (filter is_on_system cs)
     + mset (filter (\<lambda>c. place_of c = OrgWide) cs) = mset cs"
  by (induction cs) (auto simp: place_kinds split: check_place.splits)

lemma bucket_values:
  "mset (concat (map_values (cb_service (bucketChecks cs))))
     + mset (concat (map_values (cb_integration (bucketChecks cs))))
     + mset (concat (map_values (cb_system (bucketChecks cs)))) + mset (cb_global (bucketChecks cs)) = mset cs"
  unfolding mset_places [of cs, symmetric] by (simp only: bucketChecks_alt check_buckets.select_convs mset_values_group_by)

lemma bucketed_count: "bucketedCount (bucketChecks cs) = length cs"
proof -
  have "bucketedCount (bucketChecks cs) = size (mset cs)"
    unfolding bucket_values [of cs, symmetric]
    by (simp only: bucketedCount_def size_union size_mset length_concat)
  then show ?thesis by simp
qed

lemma bucket_get:
  "coalesce (map_of (cb_service (bucketChecks cs)) n) [] = filter (\<lambda>c. place_of c = OnService n) cs"
  "coalesce (map_of (cb_integration (bucketChecks cs)) n) [] = filter (\<lambda>c. place_of c = OnIntegration n) cs"
  "coalesce (map_of (cb_system (bucketChecks cs)) n) [] = filter (\<lambda>c. place_of c = OnSystem n) cs"
  by (simp_all add: bucketChecks_alt coalesce_group_by)
     (rule filter_cong; auto simp: place_kinds split: check_place.splits)+

text \<open>Sorting the failing checks into the groups of the Errors page loses and duplicates none: each
  is in exactly one bucket, the bucket of the system, integration or service it names, in the
  order of the feed, or in the catch-all when it names none, and the count of the buckets is the
  number of checks.\<close>

theorem buckets_lose_no_check:
  "mset (concat (map_values (cb_service (bucketChecks cs))))
     + mset (concat (map_values (cb_integration (bucketChecks cs))))
     + mset (concat (map_values (cb_system (bucketChecks cs)))) + mset (cb_global (bucketChecks cs)) = mset cs
   \<and> bucketedCount (bucketChecks cs) = length cs
   \<and> (\<forall>n. coalesce (map_of (cb_service (bucketChecks cs)) n) [] = filter (\<lambda>c. place_of c = OnService n) cs
        \<and> coalesce (map_of (cb_integration (bucketChecks cs)) n) [] = filter (\<lambda>c. place_of c = OnIntegration n) cs
        \<and> coalesce (map_of (cb_system (bucketChecks cs)) n) [] = filter (\<lambda>c. place_of c = OnSystem n) cs)
   \<and> cb_global (bucketChecks cs) = filter (\<lambda>c. place_of c = OrgWide) cs"
  using bucket_values bucketed_count bucket_get by (simp add: bucketChecks_alt)

section \<open>The page hides nothing\<close>

text \<open>What a group map holds, by key.\<close>

definition group_map_ok :: "group_map \<Rightarrow> bool" where
  "group_map_ok m \<longleftrightarrow> distinct (map fst m) \<and> (\<forall>k g. map_of m k = Some g \<longrightarrow> ir_id (ig_ref g) = k)"

definition services_at :: "group_map \<Rightarrow> jstring \<Rightarrow> jstring list" where
  "services_at m k = (case map_of m k of None \<Rightarrow> [] | Some g \<Rightarrow> ig_services g)"

definition services_in :: "group_map \<Rightarrow> jstring set" where
  "services_in m = (\<Union>k. set (services_at m k))"

definition checks_in :: "group_map \<Rightarrow> jstring \<Rightarrow> failing_check list" where
  "checks_in m k = (case map_of m k of None \<Rightarrow> [] | Some g \<Rightarrow> ig_checks g)"

lemma update_group_ok:
  "group_map_ok m \<Longrightarrow> ir_id (ig_ref g) = k \<Longrightarrow> group_map_ok (AList.update k g m)"
  by (auto simp: group_map_ok_def update_conv' distinct_update split: if_splits)

lemma group_ref_ok: "group_map_ok m \<Longrightarrow> ir_id (ig_ref d) = k \<Longrightarrow> ir_id (ig_ref (coalesce (map_of m k) d)) = k"
  by (cases "map_of m k") (auto simp: group_map_ok_def)

lemma add_service_ok: "group_map_ok m \<Longrightarrow> group_map_ok (add_service n m r)"
  unfolding add_service_def Let_def by (rule update_group_ok) (simp_all add: group_ref_ok)

lemma add_service_services: "services_in (add_service n m r) = insert n (services_in m)"
proof -
  have "services_at (add_service n m r) k = services_at m k @ (if k = ir_id r then [n] else [])" for k
    by (cases "map_of m (ir_id r)") (auto simp: services_at_def add_service_def Let_def update_conv')
  then show ?thesis by (auto simp: services_in_def split: if_splits)
qed

lemma add_service_checks: "checks_in (add_service n m r) = checks_in m"
  by (rule ext) (auto simp: checks_in_def add_service_def Let_def update_conv' split: option.splits)

lemma add_services:
  "group_map_ok m \<Longrightarrow> group_map_ok (foldl (add_service n) m rs)
     \<and> services_in (foldl (add_service n) m rs) = (if rs = [] then services_in m else insert n (services_in m))
     \<and> checks_in (foldl (add_service n) m rs) = checks_in m"
  by (induction rs arbitrary: m) (simp_all add: add_service_ok add_service_services add_service_checks)

lemma place_names:
  "case foldl (place_name f) ([], [], []) ns of (sys, groups, others) \<Rightarrow>
     group_map_ok groups \<and> set sys \<union> services_in groups \<union> set others = set ns \<and> checks_in groups = (\<lambda>_. [])"
proof (induction ns rule: rev_induct)
  case Nil
  then show ?case by (auto simp: group_map_ok_def services_in_def services_at_def checks_in_def)
next
  case (snoc n ns)
  obtain sys groups others where st: "foldl (place_name f) ([], [], []) ns = (sys, groups, others)"
    by (cases "foldl (place_name f) ([], [], []) ns") auto
  have ih: "group_map_ok groups" "checks_in groups = (\<lambda>_. [])" "set ns = set sys \<union> services_in groups \<union> set others"
    using snoc by (simp_all add: st)
  note a = add_services [OF ih(1), of n "coalesce (Option.bind (summary_of f n) ts_integrations) []"]
  have s: "foldl (place_name f) ([], [], []) (ns @ [n]) = place_name f (sys, groups, others) n" by (simp add: st)
  show ?case
    unfolding s using a ih(1,2) by (simp add: place_name_def Let_def ih(3) Un_assoc Un_left_commute)
qed

lemma add_checks_ok: "group_map_ok m \<Longrightarrow> group_map_ok (add_checks m b)"
  unfolding add_checks_def Let_def by (rule update_group_ok) (simp_all add: group_ref_ok)

lemma add_checks_services: "services_in (add_checks m b) = services_in m"
proof -
  have "services_at (add_checks m b) k = services_at m k" for k
    by (cases "map_of m (fst b)") (auto simp: services_at_def add_checks_def Let_def update_conv')
  then show ?thesis by (simp add: services_in_def)
qed

lemma add_checks_checks: "checks_in (add_checks m b) k = checks_in m k @ (if k = fst b then snd b else [])"
  by (cases "map_of m (fst b)") (auto simp: checks_in_def add_checks_def Let_def update_conv')

lemma add_all_checks:
  "group_map_ok m \<Longrightarrow> distinct (map fst bs) \<Longrightarrow>
     group_map_ok (foldl add_checks m bs) \<and> services_in (foldl add_checks m bs) = services_in m
     \<and> checks_in (foldl add_checks m bs) k = checks_in m k @ coalesce (map_of bs k) []"
proof (induction bs arbitrary: m)
  case (Cons b bs)
  have "k = fst b \<Longrightarrow> map_of bs k = None" using Cons.prems(2) by (simp add: map_of_eq_None_iff)
  then show ?case
    using Cons.IH [of "add_checks m b"] Cons.prems
    by (cases b) (auto simp: add_checks_ok add_checks_services add_checks_checks)
qed simp

lemma group_map_values:
  "group_map_ok m \<Longrightarrow> g \<in> set (map_values m) \<longleftrightarrow> map_of m (ir_id (ig_ref g)) = Some g"
proof
  assume ok: "group_map_ok m" and g: "g \<in> set (map_values m)"
  then obtain k where "(k, g) \<in> set m" by (auto simp: map_values_def)
  then have "map_of m k = Some g" using ok by (simp add: group_map_ok_def)
  then show "map_of m (ir_id (ig_ref g)) = Some g" using ok by (auto simp: group_map_ok_def)
next
  assume "map_of m (ir_id (ig_ref g)) = Some g"
  then show "g \<in> set (map_values m)" by (auto simp: map_values_def intro: rev_image_eqI dest!: map_of_SomeD)
qed

text \<open>The two parts of the page that need the group map, read off it.\<close>

lemma group_errors_parts:
  obtains sys groups others where
    "group_map_ok groups" "set sys \<union> services_in groups \<union> set others = set (troubled (bucketChecks (ef_checks f)) f)"
    "\<And>k. checks_in groups k = filter (\<lambda>c. place_of c = OnIntegration k) (ef_checks f)"
    "ep_systems (group_errors coll f) = js_sort coll sys" "ep_others (group_errors coll f) = js_sort coll others"
    "ep_integrations (group_errors coll f) = map (\<lambda>g. g\<lparr>ig_services := js_sort coll (dedupe (ig_services g))\<rparr>)
       (js_sort (cmp_on (\<lambda>g. ir_name (ig_ref g)) coll) (map_values groups))"
    "ep_global (group_errors coll f) = cb_global (bucketChecks (ef_checks f))"
    "ep_system_checks (group_errors coll f) = map system_group (cb_system (bucketChecks (ef_checks f)))"
proof -
  define b where "b = bucketChecks (ef_checks f)"
  obtain sys groups others where st: "foldl (place_name f) ([], [], []) (troubled b f) = (sys, groups, others)"
    by (cases "foldl (place_name f) ([], [], []) (troubled b f)") auto
  have p: "group_map_ok groups" "set sys \<union> services_in groups \<union> set others = set (troubled b f)" "checks_in groups = (\<lambda>_. [])"
    using place_names [where f = f and ns = "troubled b f"] by (simp_all add: st)
  have d: "distinct (map fst (cb_integration b))" by (simp add: b_def bucketChecks_alt)
  note a = add_all_checks [OF p(1) d]
  show thesis
    by (rule that [of "foldl add_checks groups (cb_integration b)" sys others])
       (use a p in \<open>simp_all add: group_errors_def st b_def [symmetric] bucket_get(2) [of "ef_checks f", folded b_def]\<close>)
qed

lemma group_map_services:
  assumes ok: "group_map_ok m"
  shows "(\<Union>g \<in> set (map_values m). set (ig_services g)) = services_in m"
proof -
  have "(\<exists>g \<in> set (map_values m). n \<in> set (ig_services g)) \<longleftrightarrow> (\<exists>k. n \<in> set (services_at m k))" for n
  proof
    assume "\<exists>g \<in> set (map_values m). n \<in> set (ig_services g)"
    then obtain g where "map_of m (ir_id (ig_ref g)) = Some g" "n \<in> set (ig_services g)"
      using group_map_values [OF ok] by blast
    then have "n \<in> set (services_at m (ir_id (ig_ref g)))" by (simp add: services_at_def)
    then show "\<exists>k. n \<in> set (services_at m k)" by blast
  next
    assume "\<exists>k. n \<in> set (services_at m k)"
    then obtain k where "n \<in> set (services_at m k)" by blast
    then obtain g where k: "map_of m k = Some g" "n \<in> set (ig_services g)"
      by (cases "map_of m k") (auto simp: services_at_def)
    then have "ir_id (ig_ref g) = k" using ok by (simp add: group_map_ok_def)
    then show "\<exists>g \<in> set (map_values m). n \<in> set (ig_services g)" using k group_map_values [OF ok, of g] by blast
  qed
  then show ?thesis by (auto simp: services_in_def)
qed

lemma page_services_set: "set (page_services (group_errors coll f)) = set (troubled (bucketChecks (ef_checks f)) f)"
proof -
  obtain sys groups others where g: "group_map_ok groups"
    "set sys \<union> services_in groups \<union> set others = set (troubled (bucketChecks (ef_checks f)) f)"
    "ep_systems (group_errors coll f) = js_sort coll sys" "ep_others (group_errors coll f) = js_sort coll others"
    "ep_integrations (group_errors coll f) = map (\<lambda>g. g\<lparr>ig_services := js_sort coll (dedupe (ig_services g))\<rparr>)
       (js_sort (cmp_on (\<lambda>g. ir_name (ig_ref g)) coll) (map_values groups))"
    by (rule group_errors_parts [of f coll]) blast
  have "set (concat (map ig_services (ep_integrations (group_errors coll f)))) = services_in groups"
    by (simp add: g(5) group_map_services [OF g(1), symmetric] image_image)
  then show ?thesis by (simp add: page_services_def g(2) [symmetric] g(3,4) Un_assoc del: set_concat)
qed

lemma page_integration_checks:
  "map ig_checks (ep_integrations (group_errors coll f))
     = map (\<lambda>g. filter (\<lambda>c. place_of c = OnIntegration (ir_id (ig_ref g))) (ef_checks f)) (ep_integrations (group_errors coll f))"
  "c \<in> set (ef_checks f) \<Longrightarrow> place_of c = OnIntegration k \<Longrightarrow>
     \<exists>g \<in> set (ep_integrations (group_errors coll f)). ir_id (ig_ref g) = k"
  "distinct (map (\<lambda>g. ir_id (ig_ref g)) (ep_integrations (group_errors coll f)))"
proof -
  obtain groups where g: "group_map_ok groups"
    "\<And>k. checks_in groups k = filter (\<lambda>c. place_of c = OnIntegration k) (ef_checks f)"
    "ep_integrations (group_errors coll f) = map (\<lambda>g. g\<lparr>ig_services := js_sort coll (dedupe (ig_services g))\<rparr>)
       (js_sort (cmp_on (\<lambda>g. ir_name (ig_ref g)) coll) (map_values groups))"
    by (rule group_errors_parts [of f coll]) blast
  have c: "h \<in> set (map_values groups) \<Longrightarrow>
      ig_checks h = filter (\<lambda>c. place_of c = OnIntegration (ir_id (ig_ref h))) (ef_checks f)" for h
    using g(2) [of "ir_id (ig_ref h)"] group_map_values [OF g(1), of h] by (simp add: checks_in_def)
  show "map ig_checks (ep_integrations (group_errors coll f))
     = map (\<lambda>g. filter (\<lambda>c. place_of c = OnIntegration (ir_id (ig_ref g))) (ef_checks f)) (ep_integrations (group_errors coll f))"
    unfolding g(3) using c by simp
  show "\<exists>g \<in> set (ep_integrations (group_errors coll f)). ir_id (ig_ref g) = k"
    if "c \<in> set (ef_checks f)" "place_of c = OnIntegration k"
  proof -
    have "c \<in> set (checks_in groups k)" using that g(2) by simp
    then obtain h where "map_of groups k = Some h" by (cases "map_of groups k") (auto simp: checks_in_def)
    then have "ir_id (ig_ref h) = k" "h \<in> set (map_values groups)"
      using g(1) group_map_values [OF g(1), of h] by (auto simp: group_map_ok_def)
    then show ?thesis unfolding g(3) by force
  qed
  have "map (\<lambda>h. ir_id (ig_ref h)) (map_values groups) = map fst groups"
    using g(1) by (auto simp: map_values_def group_map_ok_def intro!: map_cong)
  then have "distinct (map (\<lambda>h. ir_id (ig_ref h)) (map_values groups))"
    using g(1) by (simp add: group_map_ok_def)
  then show "distinct (map (\<lambda>g. ir_id (ig_ref g)) (ep_integrations (group_errors coll f)))"
    unfolding g(3) map_map by (simp add: comp_def distinct_map)
qed

lemma page_system_checks:
  "concat (map (\<lambda>g. snd (snd g)) (ep_system_checks (group_errors coll f)))
     = concat (map_values (cb_system (bucketChecks (ef_checks f))))"
  "ep_global (group_errors coll f) = filter (\<lambda>c. place_of c = OrgWide) (ef_checks f)"
proof -
  obtain groups :: group_map where g: "ep_global (group_errors coll f) = cb_global (bucketChecks (ef_checks f))"
    "ep_system_checks (group_errors coll f) = map system_group (cb_system (bucketChecks (ef_checks f)))"
    by (rule group_errors_parts [of f coll]) blast
  show "concat (map (\<lambda>g. snd (snd g)) (ep_system_checks (group_errors coll f)))
     = concat (map_values (cb_system (bucketChecks (ef_checks f))))"
    by (simp add: g(2) map_values_def comp_def system_group_def)
  show "ep_global (group_errors coll f) = filter (\<lambda>c. place_of c = OrgWide) (ef_checks f)"
    by (simp add: g(1) bucketChecks_alt)
qed

lemma set_values_group_by: "set (concat (map_values (group_by f xs))) = set xs"
  by (metis mset_values_group_by set_mset_mset)

lemma troubled_names:
  "set (troubled (bucketChecks (ef_checks f)) f) = ts_name ` set (ef_services f)
     \<union> {n. \<exists>c \<in> set (ef_checks f). place_of c = OnService n} \<union> oe_service ` set (ef_open f)"
proof -
  have "set (map fst (cb_service (bucketChecks (ef_checks f)))) = {n. \<exists>c \<in> set (ef_checks f). place_of c = OnService n}"
    by (auto simp: bucketChecks_alt keys_group_by place_kinds split: check_place.splits) force+
  then show ?thesis by (simp add: troubled_def Un_assoc Un_left_commute)
qed

lemma page_checks_set: "set (page_checks f (group_errors coll f)) = set (ef_checks f)"
proof -
  let ?p = "group_errors coll f" and ?P = "\<lambda>x. {c \<in> set (ef_checks f). place_of c = x}"
  have "set (concat (map (block_checks f) (page_services ?p))) = (\<Union>n. ?P (OnService n))"
  proof -
    have "block_checks f n = filter (\<lambda>c. place_of c = OnService n) (ef_checks f)" for n
      by (simp add: block_checks_def bucket_get)
    then show ?thesis
      unfolding set_concat set_map page_services_set troubled_names by auto
  qed
  moreover have "set (concat (map ig_checks (ep_integrations ?p))) = (\<Union>n. ?P (OnIntegration n))"
    unfolding page_integration_checks(1) using page_integration_checks(2) by fastforce
  moreover have "set (concat (map (\<lambda>g. snd (snd g)) (ep_system_checks ?p))) = (\<Union>n. ?P (OnSystem n))"
  proof -
    have "is_on_system c \<longleftrightarrow> (\<exists>n. place_of c = OnSystem n)" for c
      by (cases "place_of c") (auto simp: is_on_system_def)
    then show ?thesis
      unfolding page_system_checks(1) bucketChecks_alt check_buckets.select_convs set_values_group_by by auto
  qed
  moreover have "(\<Union>n. ?P (OnService n)) \<union> (\<Union>n. ?P (OnIntegration n)) \<union> (\<Union>n. ?P (OnSystem n)) \<union> ?P OrgWide = set (ef_checks f)"
  proof -
    have "set (ef_checks f) \<subseteq> (\<Union>n. ?P (OnService n)) \<union> (\<Union>n. ?P (OnIntegration n)) \<union> (\<Union>n. ?P (OnSystem n)) \<union> ?P OrgWide"
    proof
      fix c assume "c \<in> set (ef_checks f)"
      then show "c \<in> (\<Union>n. ?P (OnService n)) \<union> (\<Union>n. ?P (OnIntegration n)) \<union> (\<Union>n. ?P (OnSystem n)) \<union> ?P OrgWide"
        by (cases "place_of c") auto
    qed
    then show ?thesis by blast
  qed
  ultimately show ?thesis
    unfolding page_checks_def set_append page_system_checks(2) set_filter by (simp add: Un_assoc del: set_concat)
qed

text \<open>C22: The Errors page hides nothing and invents nothing.  The services it lists are exactly those
  with an error status, a failing check of their own or an unacknowledged error; the checks it
  lists are exactly those of the feed, each integration's group holding the checks bound to that
  integration and no integration having two groups; and "All clear" is shown, once the feed is loaded,
  exactly when the page has no section.\<close>

theorem errors_page_hides_nothing:
  "set (page_services (group_errors coll f)) = ts_name ` set (ef_services f)
     \<union> {n. \<exists>c. c \<in> set (ef_checks f) \<and> place_of c = OnService n} \<union> oe_service ` set (ef_open f)
   \<and> set (page_checks f (group_errors coll f)) = set (ef_checks f)
   \<and> map ig_checks (ep_integrations (group_errors coll f))
       = map (\<lambda>g. filter (\<lambda>c. place_of c = OnIntegration (ir_id (ig_ref g))) (ef_checks f)) (ep_integrations (group_errors coll f))
   \<and> distinct (map (\<lambda>g. ir_id (ig_ref g)) (ep_integrations (group_errors coll f)))
   \<and> (all_clear loading failed f \<longleftrightarrow> \<not> loading \<and> \<not> failed
        \<and> page_services (group_errors coll f) = [] \<and> page_checks f (group_errors coll f) = [])"
proof -
  note s = page_services_set [of coll f, unfolded troubled_names]
  have "all_clear loading failed f \<longleftrightarrow> \<not> loading \<and> \<not> failed \<and> page_services (group_errors coll f) = [] \<and> page_checks f (group_errors coll f) = []"
    unfolding set_empty [symmetric] s page_checks_set by (auto simp: all_clear_def)
  then show ?thesis
    using s page_checks_set page_integration_checks(1,3) unfolding Bex_def by (intro conjI)
qed

section \<open>The edit link and where it leads\<close>

text \<open>\<open>None\<close> is the \<open>URIError\<close> of a lone surrogate in an id.\<close>

definition CHECK_PARAM :: jstring where "CHECK_PARAM = js ''check''"

definition checkEditHref :: "failing_check \<Rightarrow> jstring option" where
  "checkEditHref c =
     (case encodeURIComponent (fc_rule_id c) of
        None \<Rightarrow> None
      | Some e \<Rightarrow>
          let open = CHECK_PARAM @ js ''='' @ e in
          (case place_of c of
             OnSystem i \<Rightarrow> Some (js ''/systems/'' @ i @ js ''?'' @ open)
           | OnIntegration i \<Rightarrow> Some (js ''/integrations/'' @ i @ js ''/settings?'' @ open)
           | OnService n \<Rightarrow> map_option (\<lambda>s. js ''/services/'' @ s @ js ''?tab=health&'' @ open) (encodeURIComponent n)
           | OrgWide \<Rightarrow> Some (js ''/alerts'')))"

text \<open>The path and the query of a link, which start at the first question mark.\<close>

definition split_href :: "jstring \<Rightarrow> jstring \<times> jstring" where
  "split_href h = (case index_of 63 h of None \<Rightarrow> (h, []) | Some i \<Rightarrow> (take i h, drop (Suc i) h))"

text \<open>The effect that opens the linked check's editor, in the health-check list and on the service page: the
  handled flag, the editor it opens, if any, and the parameters it leaves in the URL.\<close>

definition open_linked_check :: "alert_rule list \<Rightarrow> bool \<Rightarrow> params \<Rightarrow> bool \<times> alert_rule option \<times> params" where
  "open_linked_check rules handled ps =
     (if handled \<or> rules = [] then (handled, None, ps)
      else
        let wanted = params_get ps CHECK_PARAM in
        if \<not> truthy_str wanted then (handled, None, ps)
        else (True, find (\<lambda>r. al_id r = coalesce wanted []) rules, params_delete ps CHECK_PARAM))"

definition settings_tab :: "jstring list \<Rightarrow> params \<Rightarrow> jstring" where
  "settings_tab tabs ps =
     (if truthy_str (params_get ps CHECK_PARAM) then js ''alerting''
      else let t = params_get ps (js ''tab'') in
        if truthy_str t \<and> coalesce t [] \<in> set tabs then coalesce t [] else js ''general'')"

definition SERVICE_TABS :: "jstring list" where
  "SERVICE_TABS = map js [''overview'', ''health'', ''metrics'', ''logs'', ''traces'', ''settings'']"

definition service_tab :: "params \<Rightarrow> jstring" where
  "service_tab ps =
     (let t = params_get ps (js ''tab'') in
      if truthy_str t \<and> coalesce t [] \<in> set SERVICE_TABS then coalesce t [] else js ''overview'')"

lemma escaped_unit_query: "escaped_unit c \<Longrightarrow> c \<noteq> 38 \<and> c \<noteq> 43 \<and> c \<noteq> 61 \<and> c \<noteq> 63"
  by (auto simp: escaped_unit_def unreserved_def is_digit_def is_lower_def is_upper_def js_def)

lemma encoded_query:
  assumes "encodeURIComponent s = Some e" "\<forall>u \<in> set s. u < 0x10000"
  shows "query_decode lenient e = s" "38 \<notin> set e" "61 \<notin> set e" "63 \<notin> set e"
proof -
  have u: "c \<noteq> 38 \<and> c \<noteq> 43 \<and> c \<noteq> 61 \<and> c \<noteq> 63" if "c \<in> set e" for c
    using encode_units [OF assms that] by (rule escaped_unit_query)
  then show "38 \<notin> set e" "61 \<notin> set e" "63 \<notin> set e" by auto
  have "map (\<lambda>c. if c = 43 then 32 else c) e = e" using u by (intro map_idI) auto
  then show "query_decode lenient e = s" by (simp add: query_decode_def decode_encode [OF assms])
qed

lemma check_pair:
  assumes "encodeURIComponent s = Some e" "\<forall>u \<in> set s. u < 0x10000"
  shows "query_pair lenient (CHECK_PARAM @ js ''='' @ e) = (CHECK_PARAM, s)"
proof -
  have "index_of 61 (CHECK_PARAM @ 61 # e) = Some (length CHECK_PARAM)"
    by (rule index_of_Some_append) (simp add: CHECK_PARAM_def js_def)
  moreover have "query_decode lenient CHECK_PARAM = CHECK_PARAM"
  proof -
    have "query_decode lenient CHECK_PARAM = CHECK_PARAM \<longleftrightarrow> True" by code_simp
    then show ?thesis by simp
  qed
  moreover have "js ''='' = [61]" by (simp add: js_def)
  ultimately show ?thesis by (simp add: query_pair_def encoded_query(1) [OF assms])
qed

lemma parse_check_query:
  assumes "encodeURIComponent s = Some e" "\<forall>u \<in> set s. u < 0x10000"
  shows "parse_query lenient (CHECK_PARAM @ js ''='' @ e) = [(CHECK_PARAM, s)]"
    "parse_query lenient (js ''tab=health&'' @ CHECK_PARAM @ js ''='' @ e) = [(js ''tab'', js ''health''), (CHECK_PARAM, s)]"
proof -
  have n: "38 \<notin> set (CHECK_PARAM @ js ''='' @ e)"
    using encoded_query(2) [OF assms] by (simp add: CHECK_PARAM_def js_def)
  have ne: "CHECK_PARAM @ js ''='' @ e \<noteq> []" by (simp add: CHECK_PARAM_def)
  show "parse_query lenient (CHECK_PARAM @ js ''='' @ e) = [(CHECK_PARAM, s)]"
    using ne check_pair [OF assms] by (simp add: parse_query_def split_on_no_sep [OF n])
  have t: "js ''tab=health&'' @ x = js ''tab=health'' @ 38 # x" for x by (simp add: js_def)
  have h: "38 \<notin> set (js ''tab=health'')" by (simp add: js_def)
  have "query_pair lenient (js ''tab=health'') = (js ''tab'', js ''health'') \<longleftrightarrow> True" by code_simp
  then have q: "query_pair lenient (js ''tab=health'') = (js ''tab'', js ''health'')" by simp
  show "parse_query lenient (js ''tab=health&'' @ CHECK_PARAM @ js ''='' @ e) = [(js ''tab'', js ''health''), (CHECK_PARAM, s)]"
    unfolding t parse_query_def split_on_append [OF h] split_on_no_sep [OF n]
    using ne check_pair [OF assms] q by simp
qed

lemma check_param_get [simp]:
  "params_get [(CHECK_PARAM, s)] CHECK_PARAM = Some s" "params_delete [(CHECK_PARAM, s)] CHECK_PARAM = []"
  "params_get [(js ''tab'', t), (CHECK_PARAM, s)] CHECK_PARAM = Some s"
  "params_get [(js ''tab'', t), (CHECK_PARAM, s)] (js ''tab'') = Some t"
  "params_delete [(js ''tab'', t), (CHECK_PARAM, s)] CHECK_PARAM = [(js ''tab'', t)]"
  by (simp_all add: params_get_def params_delete_def CHECK_PARAM_def)

lemma split_href_query:
  assumes "63 \<notin> set path"
  shows "split_href (path @ js ''?'' @ q) = (path, q)"
proof -
  have "js ''?'' @ q = 63 # q" by (simp add: js_def)
  then show ?thesis using index_of_Some_append [OF assms, of q] by (simp add: split_href_def)
qed

text \<open>C23: The edit link of a failing check opens that check.  Its path is the page of the system, integration
  or service the check is bound to, the integration's settings on the alerting tab and the
  service on its health tab; the health-check list there opens the rule the check is an instance of,
  once, and drops the parameter, so that nothing reopens it.  The ids are taken to have no
  question mark in them.\<close>

theorem edit_link_opens_the_check:
  assumes href: "checkEditHref c = Some href" and bound: "place_of c \<noteq> OrgWide"
    and id: "fc_rule_id c \<noteq> []" "\<forall>u \<in> set (fc_rule_id c). u < 0x10000"
    and plain: "\<And>i. place_of c = OnSystem i \<or> place_of c = OnIntegration i \<Longrightarrow> 63 \<notin> set i"
      "\<And>n. place_of c = OnService n \<Longrightarrow> \<forall>u \<in> set n. u < 0x10000"
    and rule: "find (\<lambda>r. al_id r = fc_rule_id c) rules = Some r"
  shows "let (path, q) = split_href href; ps = parse_query lenient q; rest = params_delete ps CHECK_PARAM in
     open_linked_check rules False ps = (True, Some r, rest)
     \<and> open_linked_check rules True rest = (True, None, rest) \<and> open_linked_check rules False rest = (False, None, rest)
     \<and> (case place_of c of
          OnSystem i \<Rightarrow> path = js ''/systems/'' @ i
        | OnIntegration i \<Rightarrow> path = js ''/integrations/'' @ i @ js ''/settings'' \<and> settings_tab tabs ps = js ''alerting''
        | OnService n \<Rightarrow> Some path = map_option (\<lambda>s. js ''/services/'' @ s) (encodeURIComponent n)
            \<and> service_tab ps = js ''health'' \<and> service_tab rest = js ''health''
        | OrgWide \<Rightarrow> False)"
proof -
  obtain e where e: "encodeURIComponent (fc_rule_id c) = Some e"
    using href by (auto simp: checkEditHref_def split: option.splits)
  note p = parse_check_query [OF e id(2)]
  have ne: "rules \<noteq> []" using rule by auto
  have q: "63 \<notin> set (js ''/systems/'')" "63 \<notin> set (js ''/integrations/'')" "63 \<notin> set (js ''/settings'')"
    "63 \<notin> set (js ''/services/'')" by (simp_all add: js_def)
  show ?thesis
  proof (cases "place_of c")
    case (OnSystem i)
    then have "href = (js ''/systems/'' @ i) @ js ''?'' @ CHECK_PARAM @ js ''='' @ e"
      using href by (simp add: checkEditHref_def e)
    moreover have "63 \<notin> set (js ''/systems/'' @ i)" using plain(1) OnSystem q(1) by simp
    ultimately have "split_href href = (js ''/systems/'' @ i, CHECK_PARAM @ js ''='' @ e)"
      by (metis split_href_query)
    then show ?thesis using OnSystem ne id(1) rule by (simp add: p open_linked_check_def Let_def params_get_def)
  next
    case (OnIntegration i)
    have j: "js ''/settings?'' @ x = js ''/settings'' @ js ''?'' @ x" for x by (simp add: js_def)
    have "href = (js ''/integrations/'' @ i @ js ''/settings'') @ js ''?'' @ CHECK_PARAM @ js ''='' @ e"
      using href OnIntegration by (simp add: checkEditHref_def e j)
    moreover have "63 \<notin> set (js ''/integrations/'' @ i @ js ''/settings'')" using plain(1) OnIntegration q(2,3) by simp
    ultimately have "split_href href = (js ''/integrations/'' @ i @ js ''/settings'', CHECK_PARAM @ js ''='' @ e)"
      by (metis split_href_query)
    then show ?thesis
      using OnIntegration ne id(1) rule by (simp add: p open_linked_check_def Let_def params_get_def settings_tab_def)
  next
    case (OnService n)
    then obtain s where s: "encodeURIComponent n = Some s"
      "href = js ''/services/'' @ s @ js ''?tab=health&'' @ CHECK_PARAM @ js ''='' @ e"
      using href by (auto simp: checkEditHref_def e)
    have "js ''?tab=health&'' @ x = js ''?'' @ js ''tab=health&'' @ x" for x by (simp add: js_def)
    then have "href = (js ''/services/'' @ s) @ js ''?'' @ js ''tab=health&'' @ CHECK_PARAM @ js ''='' @ e" by (simp add: s(2))
    moreover have "63 \<notin> set (js ''/services/'' @ s)"
      using encoded_query(4) [OF s(1)] plain(2) OnService q(4) by simp
    ultimately have "split_href href = (js ''/services/'' @ s, js ''tab=health&'' @ CHECK_PARAM @ js ''='' @ e)"
      by (metis split_href_query)
    moreover have "js ''health'' \<in> set SERVICE_TABS" by (simp add: SERVICE_TABS_def)
    ultimately show ?thesis
      using OnService ne id(1) rule s(1)
      by (simp add: p open_linked_check_def Let_def service_tab_def) (simp add: params_get_def CHECK_PARAM_def)
  qed (use bound in simp)
qed

definition demo_check :: failing_check where
  "demo_check = \<lparr>fc_id = js ''a1'', fc_rule_id = js ''r1'', fc_rule_name = js ''Queue depth'', fc_severity = js ''critical'',
     fc_started_at = [], fc_handled_at = None, fc_summary = None, fc_kind = js ''integration'', fc_service = None,
     fc_integration = Some (js ''i1''), fc_integration_name = None, fc_system = None, fc_system_name = None, fc_attrs = None\<rparr>"

theorem edit_link_opens_the_check_ex:
  "open_linked_check [demo_rule] False (parse_query id (snd (split_href (js ''/integrations/i1/settings?check=r1''))))
     = (True, Some demo_rule, [])"
proof -
  have h: "checkEditHref demo_check = Some (js ''/integrations/i1/settings?check=r1'')" by code_simp
  have p: "place_of demo_check = OnIntegration (js ''i1'')" by code_simp
  have i: "fc_rule_id demo_check = js ''r1''" by (simp add: demo_check_def)
  have f: "find (\<lambda>r. al_id r = fc_rule_id demo_check) [demo_rule] = Some demo_rule"
    by (simp add: demo_check_def demo_rule_def)
  have u: "\<forall>u \<in> set (fc_rule_id demo_check). u < 0x10000" "63 \<notin> set (js ''i1'')" by (simp_all add: i js_def)
  have q: "parse_query id (snd (split_href (js ''/integrations/i1/settings?check=r1''))) = [(CHECK_PARAM, js ''r1'')]"
    by code_simp
  show ?thesis
    using edit_link_opens_the_check [OF h, of "[demo_rule]" demo_rule id "[]"] p f u
    by (simp add: i q Let_def split_beta)
qed

section \<open>Checks that recovered\<close>

definition UNIT_MS :: "nat \<Rightarrow> rat option" where
  "UNIT_MS c = (if c = 109 then Some 60000 else if c = 104 then Some 3600000 else if c = 100 then Some 86400000 else None)"

text \<open>\<open>/^(\d+)([mhd])$/\<close> of the trimmed text.\<close>

definition windowMs :: "jstring \<Rightarrow> rat option" where
  "windowMs w =
     (let t = trim w; n = butlast t in
      if n = [] \<or> \<not> list_all is_digit n then None
      else map_option (\<lambda>u. of_nat (read_nat n) * u) (UNIT_MS (last t)))"

record alert_instance =
  ai_id :: jstring
  ai_rule :: jstring
  ai_state :: jstring
  ai_started :: jstring
  ai_ended :: "jstring option"

definition ended_at :: "(jstring \<Rightarrow> jnum) \<Rightarrow> alert_instance \<Rightarrow> jnum" where
  "ended_at ms i = ms (coalesce (ai_ended i) [])"

definition within_window :: "(jstring \<Rightarrow> jnum) \<Rightarrow> rat option \<Rightarrow> alert_instance \<Rightarrow> bool" where
  "within_window ms since i =
     (case ended_at ms i of None \<Rightarrow> False | Some t \<Rightarrow> (case since of None \<Rightarrow> True | Some f \<Rightarrow> f \<le> t))"

definition recentlyResolved :: "(jstring \<Rightarrow> jnum) \<Rightarrow> alert_instance list \<Rightarrow> jstring \<Rightarrow> rat \<Rightarrow> alert_instance list" where
  "recentlyResolved ms instances window now =
     (let since = map_option (\<lambda>span. now - span) (windowMs window) in
      js_sort (cmp_desc (\<lambda>i. coalesce (ended_at ms i) 0))
        (filter (within_window ms since)
          (filter (\<lambda>i. ai_state i = js ''resolved'' \<and> truthy_str (ai_ended i)) instances)))"

text \<open>The recovered checks are the resolved instances whose end lies in the window (all of them for a
  window that is not a duration, such as an absolute range), each as often as the API returned
  it, the most recent first, those that ended together in the API's order; a firing instance and one
  whose end cannot be read are never among them.\<close>

theorem recovered_checks_in_window:
  "mset (recentlyResolved ms instances window now)
     = filter_mset (\<lambda>i. ai_state i = js ''resolved'' \<and> truthy_str (ai_ended i) \<and> ended_at ms i \<noteq> None
         \<and> (windowMs window = None \<or> now - coalesce (windowMs window) 0 \<le> coalesce (ended_at ms i) 0)) (mset instances)
   \<and> sorted_wrt (\<lambda>a b. coalesce (ended_at ms b) 0 \<le> coalesce (ended_at ms a) 0) (recentlyResolved ms instances window now)
   \<and> filter (\<lambda>i. ended_at ms i = t) (recentlyResolved ms instances window now)
      = filter (\<lambda>i. ended_at ms i = t \<and> i \<in> set (recentlyResolved ms instances window now)) instances"
proof -
  define since where "since = map_option (\<lambda>span. now - span) (windowMs window)"
  define keep where "keep i \<longleftrightarrow> ai_state i = js ''resolved'' \<and> truthy_str (ai_ended i) \<and> within_window ms since i" for i
  define c where "c = (cmp_desc (\<lambda>i. coalesce (ended_at ms i) 0) :: alert_instance \<Rightarrow> alert_instance \<Rightarrow> rat)"
  have r: "recentlyResolved ms instances window now = js_sort c (filter keep instances)"
    by (simp add: recentlyResolved_def Let_def since_def c_def keep_def [abs_def] conj_commute conj_left_commute)
  have k: "keep i \<longleftrightarrow> ai_state i = js ''resolved'' \<and> truthy_str (ai_ended i) \<and> ended_at ms i \<noteq> None
         \<and> (windowMs window = None \<or> now - coalesce (windowMs window) 0 \<le> coalesce (ended_at ms i) 0)" for i
    by (auto simp: keep_def within_window_def since_def split: option.splits)
  have "keep = (\<lambda>i. ai_state i = js ''resolved'' \<and> truthy_str (ai_ended i) \<and> ended_at ms i \<noteq> None
         \<and> (windowMs window = None \<or> now - coalesce (windowMs window) 0 \<le> coalesce (ended_at ms i) 0))"
    using k by (intro ext)
  then have m: "mset (js_sort c (filter keep instances)) = filter_mset (\<lambda>i. ai_state i = js ''resolved'' \<and> truthy_str (ai_ended i) \<and> ended_at ms i \<noteq> None
         \<and> (windowMs window = None \<or> now - coalesce (windowMs window) 0 \<le> coalesce (ended_at ms i) 0)) (mset instances)"
    by (simp only: mset_js_sort mset_filter)
  have s: "sorted_wrt (\<lambda>a b. coalesce (ended_at ms b) 0 \<le> coalesce (ended_at ms a) 0) (js_sort c (filter keep instances))"
    using js_sort_sorted [OF js_comparator_desc, of "\<lambda>i. coalesce (ended_at ms i) 0" "filter keep instances"]
    unfolding c_def by (simp add: cmp_desc_def)
  have "filter (\<lambda>i. ended_at ms i = t) (js_sort c (filter keep instances)) = filter (\<lambda>i. ended_at ms i = t) (filter keep instances)"
  proof (cases t)
    case None
    have "ended_at ms i \<noteq> None" if "keep i" for i using that k by blast
    then show ?thesis unfolding None by (simp add: filter_empty_conv)
  next
    case (Some x)
    show ?thesis
    proof (cases "\<exists>a \<in> set (filter keep instances). ended_at ms a = t")
      case True
      then obtain a where a: "a \<in> set (filter keep instances)" "ended_at ms a = t" by blast
      have e: "ended_at ms i = t \<longleftrightarrow> c a i = 0" if "i \<in> set (filter keep instances)" for i
        using that a k [of i] by (auto simp: c_def cmp_desc_def Some split: option.splits)
      have "filter (\<lambda>i. ended_at ms i = t) (js_sort c (filter keep instances)) = filter (\<lambda>i. c a i = 0) (js_sort c (filter keep instances))"
        using e by (intro filter_cong) auto
      also have "\<dots> = filter (\<lambda>i. c a i = 0) (filter keep instances)"
        unfolding c_def by (rule desc_key.js_sort_stable)
      also have "\<dots> = filter (\<lambda>i. ended_at ms i = t) (filter keep instances)"
        using e by (intro filter_cong) auto
      finally show ?thesis .
    next
      case False
      then have n: "filter (\<lambda>i. ended_at ms i = t) xs = []" if "set xs = set (filter keep instances)" for xs
        using that by (simp add: filter_empty_conv)
      show ?thesis unfolding n [OF refl] by (rule n) simp
    qed
  qed
  also have "\<dots> = filter (\<lambda>i. ended_at ms i = t \<and> i \<in> set (js_sort c (filter keep instances))) instances"
    by (auto intro!: filter_cong)
  finally show ?thesis unfolding r using m s by (intro conjI)
qed

end
