(* ===== verification/CheckViews.thy ===== *)
theory CheckViews
  imports ErrorsPage
begin

text \<open>
  What the pages show of a health check: the evaluation windows a picker offers and how they read
  (\<open>lib/metricWindows.ts\<close>, \<open>lib/alertRule.ts\<close>), the deep link from a metric check to its
  telemetry and the metrics page it opens (\<open>lib/metricCheckHref.ts\<close>,
  \<open>components/metrics/MetricsExplorer.tsx\<close>, \<open>components/TimeWindowPicker.tsx\<close>), the two warnings of
  the editors (\<open>lib/checkWindow.ts\<close>, \<open>lib/ambiguousSeries.ts\<close>), the default name
  (\<open>lib/ruleName.ts\<close>) and the text of a condition (\<open>lib/alertRule.ts\<close>, \<open>lib/checkLine.ts\<close>).

  \<open>num\<close> prints a number as a template literal does; \<open>stringify\<close> and \<open>parse_json\<close> are \<open>JSON\<close> on
  the list of attribute predicates.
\<close>

section \<open>Windows\<close>

definition METRIC_WINDOWS :: "(jstring \<times> jstring) list" where
  "METRIC_WINDOWS = map (\<lambda>(v, l). (js v, js l))
     [(''1m'', ''1m''), (''5m'', ''5m''), (''10m'', ''10m''), (''30m'', ''30m''), (''1h'', ''1h''), (''6h'', ''6h''),
      (''12h'', ''12h''), (''24h'', ''1d''), (''48h'', ''2d''), (''168h'', ''7d''), (''336h'', ''14d''),
      (''720h'', ''30d''), (''1080h'', ''45d'')]"

definition metricWindowLabel :: "jstring \<Rightarrow> jstring" where
  "metricWindowLabel v = coalesce (map_of METRIC_WINDOWS v) v"

text \<open>\<open>/^(\d+(?:\.\d+)?)(ms|s|m|h)$/\<close>: the number, as a decimal, and the unit in seconds.\<close>

definition decimal :: "jstring \<Rightarrow> rat option" where
  "decimal s =
     (case split_on 46 s of
        [a] \<Rightarrow> if a \<noteq> [] \<and> list_all is_digit a then Some (of_nat (read_nat a)) else None
      | [a, b] \<Rightarrow> if a \<noteq> [] \<and> b \<noteq> [] \<and> list_all is_digit (a @ b)
          then Some (of_nat (read_nat a) + of_nat (read_nat b) / 10 ^ length b) else None
      | _ \<Rightarrow> None)"

definition metricWindowSeconds :: "jstring \<Rightarrow> rat" where
  "metricWindowSeconds v =
     (let t = trim v;
          part = (\<lambda>u f. if ends_with t u then map_option (\<lambda>n. n * f) (decimal (take (length t - length u) t)) else None) in
      case part (js ''ms'') (1 / 1000) of Some x \<Rightarrow> x
      | None \<Rightarrow> (case part (js ''s'') 1 of Some x \<Rightarrow> x
      | None \<Rightarrow> (case part (js ''m'') 60 of Some x \<Rightarrow> x
      | None \<Rightarrow> coalesce (part (js ''h'') 3600) 0)))"

definition fmtWindow :: "nat \<Rightarrow> jstring" where
  "fmtWindow s =
     (if s mod 86400 = 0 then show_nat (s div 86400) @ js ''d''
      else if s mod 3600 = 0 then show_nat (s div 3600) @ js ''h''
      else if s mod 60 = 0 then show_nat (s div 60) @ js ''m'' else show_nat s @ js ''s'')"

definition unit_seconds :: "nat \<Rightarrow> nat" where
  "unit_seconds u = (if u = 100 then 86400 else if u = 104 then 3600 else if u = 109 then 60 else 1)"

definition label_seconds :: "jstring \<Rightarrow> nat" where
  "label_seconds l = read_nat (butlast l) * unit_seconds (last l)"

lemma fmtWindow_reads_back: "label_seconds (fmtWindow s) = s"
  by (auto simp: fmtWindow_def label_seconds_def unit_seconds_def js_def butlast_append)

text \<open>Every window the picker offers reads as the time the check looks back, and is accepted unclamped.\<close>

lemma metric_windows_faithful:
  "list_all (\<lambda>(v, l). metricWindowSeconds v = of_nat (label_seconds l)
     \<and> metricWindowSeconds v \<le> of_int MaxCheckWindowSeconds \<and> metricWindowLabel v = l) METRIC_WINDOWS"
  by code_simp

section \<open>The deep link\<close>

definition PRESETS :: "jstring list" where
  "PRESETS = map js [''5m'', ''15m'', ''30m'', ''1h'', ''3h'', ''6h'', ''12h'', ''24h'', ''2d'', ''7d'', ''30d'']"

definition WINDOWS :: "(jstring \<times> rat) list" where
  "WINDOWS =
     [(js ''5m'', 300000), (js ''15m'', 900000), (js ''30m'', 1800000), (js ''1h'', 3600000), (js ''3h'', 10800000),
      (js ''6h'', 21600000), (js ''12h'', 43200000), (js ''24h'', 86400000), (js ''2d'', 172800000),
      (js ''7d'', 604800000), (js ''30d'', 2592000000)]"

definition windowCovering :: "jnum \<Rightarrow> rat \<Rightarrow> jstring" where
  "windowCovering started now =
     (case started of
        None \<Rightarrow> js ''1h''
      | Some t \<Rightarrow>
          if now - t < 0 then js ''1h''
          else fst (coalesce (find (\<lambda>w. (now - t) * (11 / 10) \<le> snd w) WINDOWS) (last WINDOWS)))"

record link_scope =
  ls_service :: "jstring option"
  ls_integration :: "jstring option"

definition check_predicates :: "alert_rule \<Rightarrow> rule_attr list" where
  "check_predicates rule =
     filter (\<lambda>a. ra_key a \<noteq> [] \<and> ra_value a \<noteq> []) (coalesce (ms_attrs (al_spec rule)) [])"

definition predicate_param :: "(rule_attr list \<Rightarrow> jstring) \<Rightarrow> rule_attr list \<Rightarrow> params \<Rightarrow> params" where
  "predicate_param stringify attrs ps = (if attrs \<noteq> [] then params_set ps (js ''mattr'') (stringify attrs) else ps)"

definition scope_param :: "link_scope option \<Rightarrow> params \<Rightarrow> params" where
  "scope_param scope ps =
     (let service = Option.bind scope ls_service; integration = Option.bind scope ls_integration in
      if truthy_str service then params_set ps (js ''service'') (coalesce service [])
      else if truthy_str integration then params_set ps (js ''integration'') (coalesce integration []) else ps)"

definition range_param :: "(jstring \<Rightarrow> jnum) \<Rightarrow> rat \<Rightarrow> jstring option \<Rightarrow> params \<Rightarrow> params" where
  "range_param ms now started ps =
     (if truthy_str started then params_set ps (js ''range'') (windowCovering (ms (coalesce started [])) now) else ps)"

definition link_params :: "(jstring \<Rightarrow> jnum) \<Rightarrow> (rule_attr list \<Rightarrow> jstring) \<Rightarrow> rat \<Rightarrow> alert_rule
    \<Rightarrow> jstring option \<Rightarrow> link_scope option \<Rightarrow> params option" where
  "link_params ms stringify now rule started scope =
     (let metric = trim (ms_metric (al_spec rule)) in
      if al_signal rule \<noteq> js ''metric'' \<or> al_source rule = js ''pushed'' \<or> metric = [] then None
      else Some (range_param ms now started (scope_param scope
        (predicate_param stringify (check_predicates rule) (params_set [] (js ''metric'') metric)))))"

definition metricCheckHref :: "(jstring \<Rightarrow> jnum) \<Rightarrow> (rule_attr list \<Rightarrow> jstring) \<Rightarrow> rat \<Rightarrow> alert_rule
    \<Rightarrow> jstring option \<Rightarrow> link_scope option \<Rightarrow> jstring option" where
  "metricCheckHref ms stringify now rule started scope =
     map_option (\<lambda>ps. js ''/metrics?'' @ to_query ps) (link_params ms stringify now rule started scope)"

definition metricCheckLinkTitle :: "link_scope option \<Rightarrow> jstring" where
  "metricCheckLinkTitle scope =
     (if truthy_str (Option.bind scope ls_service) \<or> truthy_str (Option.bind scope ls_integration)
      then js ''Open this metric, filtered as the check sees it''
      else js ''Open this metric with the check's own filters, across every service reporting it'')"

text \<open>What the metrics page, mounted on its own, makes of its parameters.\<close>

record metrics_page =
  mp_query :: jstring
  mp_chips :: "rule_attr list"
  mp_service :: "jstring option"
  mp_integration :: "jstring option"
  mp_range :: "jstring option"

definition hydrate_metrics :: "(jstring \<Rightarrow> rule_attr list option) \<Rightarrow> params \<Rightarrow> metrics_page" where
  "hydrate_metrics parse_json ps =
     \<lparr>mp_query = coalesce (params_get ps (js ''metric'')) [],
      mp_chips =
        (let raw = params_get ps (js ''mattr'') in
         if \<not> truthy_str raw then []
         else map (\<lambda>a. a\<lparr>ra_op := (if ra_op a = [] then js ''eq'' else ra_op a)\<rparr>)
                (filter (\<lambda>a. ra_key a \<noteq> [] \<and> ra_value a \<noteq> []) (coalesce (parse_json (coalesce raw [])) []))),
      mp_service = (let s = coalesce (params_get ps (js ''service'')) [] in if s = [] then None else Some s),
      mp_integration = (let i = coalesce (params_get ps (js ''integration'')) [] in if i = [] then None else Some i),
      mp_range = params_get ps (js ''range'')\<rparr>"

lemma windows_are_presets: "map fst WINDOWS = PRESETS"
  by code_simp

lemma windows_lengths: "list_all (\<lambda>w. windowMs (fst w) = Some (snd w)) WINDOWS"
  by code_simp

lemma windows_sorted: "sorted_wrt (\<lambda>v w. snd v < snd w) WINDOWS"
  by code_simp

lemma find_first:
  assumes "find P xs = Some x" "sorted_wrt r xs"
  shows "x \<in> set xs \<and> P x \<and> (\<forall>y \<in> set xs. P y \<longrightarrow> y = x \<or> r x y)"
  using assms by (induction xs) (auto split: if_splits)

text \<open>The window of a metric check's link is one the picker offers, and it is the shortest offered window
  that reaches back past the onset with a tenth of headroom, unless the check has been firing for
  longer than the longest window allows, and then it is that one.  A start that cannot be read, or that
  lies in the future, opens the last hour.\<close>

theorem window_covers_the_onset:
  "windowCovering started now \<in> set PRESETS
   \<and> (started = None \<or> now < coalesce started 0 \<longrightarrow> windowCovering started now = js ''1h'')
   \<and> (\<forall>t. started = Some t \<longrightarrow> t \<le> now \<longrightarrow>
        (case windowMs (windowCovering started now) of
           None \<Rightarrow> False
         | Some d \<Rightarrow>
             if (now - t) * (11 / 10) \<le> 2592000000
             then (now - t) * (11 / 10) \<le> d
               \<and> (\<forall>w e. w \<in> set PRESETS \<longrightarrow> windowMs w = Some e \<longrightarrow> (now - t) * (11 / 10) \<le> e \<longrightarrow> d \<le> e)
             else d = 2592000000))"
proof (cases "\<exists>t. started = Some t \<and> t \<le> now")
  case True
  then obtain t where t: "started = Some t" "t \<le> now" by blast
  define need where "need = (now - t) * (11 / 10)"
  have len: "windowMs (fst w) = Some (snd w)" if "w \<in> set WINDOWS" for w
    using windows_lengths that by (auto simp: list_all_iff)
  have pre: "w \<in> set PRESETS \<longleftrightarrow> (\<exists>e. (w, e) \<in> set WINDOWS)" for w
    unfolding windows_are_presets [symmetric] by force
  have last: "last WINDOWS = (js ''30d'', 2592000000)" "last WINDOWS \<in> set WINDOWS"
    by (simp_all add: WINDOWS_def)
  show ?thesis
  proof (cases "find (\<lambda>w. need \<le> snd w) WINDOWS")
    case (Some w)
    note f = find_first [OF Some windows_sorted]
    have c: "windowCovering started now = fst w" using Some t by (simp add: windowCovering_def need_def)
    have "snd w \<le> e" if x: "x \<in> set PRESETS" "windowMs x = Some e" "need \<le> e" for x e
    proof -
      obtain e' where e': "(x, e') \<in> set WINDOWS" using x(1) pre [of x] by blast
      then have "e' = e" using len [of "(x, e')"] x(2) by simp
      then show ?thesis using f e' x(3) by fastforce
    qed
    moreover have "need \<le> 2592000000"
    proof -
      have "snd v \<le> 2592000000" if "v \<in> set WINDOWS" for v using that by (auto simp: WINDOWS_def)
      then show ?thesis using f by fastforce
    qed
    moreover have "fst w \<in> set PRESETS" using f pre [of "fst w"] by (metis prod.collapse)
    moreover have "windowMs (fst w) = Some (snd w)" using f len by blast
    ultimately show ?thesis using f t unfolding c need_def by (intro conjI allI impI) auto
  next
    case None
    then have "\<not> need \<le> 2592000000" using last by (auto simp: find_None_ball)
    then have "\<not> (now - t) * (11 / 10) \<le> 2592000000" by (simp only: need_def not_False_eq_True)
    moreover have "windowCovering started now = js ''30d''" using None t last by (simp add: windowCovering_def need_def)
    moreover have "windowMs (js ''30d'') = Some 2592000000" "js ''30d'' \<in> set PRESETS"
      using len [OF last(2)] last(1) by (simp_all add: PRESETS_def)
    ultimately show ?thesis using t by (intro conjI allI impI) simp_all
  qed
next
  case False
  then have "windowCovering started now = js ''1h''" by (auto simp: windowCovering_def split: option.splits)
  moreover have "js ''1h'' \<in> set PRESETS" by (simp add: PRESETS_def)
  ultimately show ?thesis using False by auto
qed

theorem window_covers_the_onset_ex:
  "windowCovering (Some 0) 72000000 = js ''24h'' \<and> windowMs (js ''24h'') = Some 86400000"
proof -
  have "windowCovering (Some 0) 72000000 = js ''24h''" "windowMs (js ''24h'') = Some 86400000" by code_simp+
  then show ?thesis using window_covers_the_onset [of "Some 0" 72000000] by simp
qed

lemma preset_well_formed: "w \<in> set PRESETS \<Longrightarrow> well_formed w"
  by (rule well_formed_ascii) (auto simp: PRESETS_def js_def)

lemma js_ascii_well_formed: "list_all (\<lambda>c. of_char c < (0x80::nat)) s \<Longrightarrow> well_formed (js s)"
  by (rule well_formed_ascii) (auto simp: js_def list_all_iff)

lemma param_stages:
  "params_get (predicate_param f as ps) j = (if as \<noteq> [] \<and> j = js ''mattr'' then Some (f as) else params_get ps j)"
  "params_get (range_param ms now started ps) j =
     (if truthy_str started \<and> j = js ''range'' then Some (windowCovering (ms (coalesce started [])) now) else params_get ps j)"
  "params_get (scope_param scope ps) j =
     (if truthy_str (Option.bind scope ls_service) \<and> j = js ''service'' then Option.bind scope ls_service
      else if \<not> truthy_str (Option.bind scope ls_service) \<and> truthy_str (Option.bind scope ls_integration) \<and> j = js ''integration''
      then Option.bind scope ls_integration else params_get ps j)"
proof -
  have c: "truthy_str v \<Longrightarrow> Some (coalesce v []) = v" for v by (cases v) simp_all
  show "params_get (scope_param scope ps) j =
     (if truthy_str (Option.bind scope ls_service) \<and> j = js ''service'' then Option.bind scope ls_service
      else if \<not> truthy_str (Option.bind scope ls_service) \<and> truthy_str (Option.bind scope ls_integration) \<and> j = js ''integration''
      then Option.bind scope ls_integration else params_get ps j)"
    by (simp add: scope_param_def Let_def get_set c)
qed (simp_all add: predicate_param_def range_param_def get_set)

lemma link_params_facts:
  assumes "link_params ms stringify now rule started scope = Some ps"
  shows "al_signal rule = js ''metric'' \<and> al_source rule \<noteq> js ''pushed'' \<and> trim (ms_metric (al_spec rule)) \<noteq> []"
    "ps = range_param ms now started (scope_param scope (predicate_param stringify (check_predicates rule)
       [(js ''metric'', trim (ms_metric (al_spec rule)))]))"
  using assms by (auto simp: link_params_def Let_def split: if_splits)

definition params_ok :: "params \<Rightarrow> bool" where
  "params_ok ps \<longleftrightarrow> list_all (\<lambda>p. well_formed (fst p) \<and> well_formed (snd p)) ps"

lemma params_ok_set: "params_ok ps \<Longrightarrow> well_formed k \<Longrightarrow> well_formed v \<Longrightarrow> params_ok (params_set ps k v)"
proof -
  have "set (params_set ps k v) \<subseteq> insert (k, v) (set ps)" by (induction ps) (auto simp: params_delete_def)
  then show "params_ok ps \<Longrightarrow> well_formed k \<Longrightarrow> well_formed v \<Longrightarrow> params_ok (params_set ps k v)"
    by (fastforce simp: params_ok_def list_all_iff)
qed

lemma params_ok_stages:
  "params_ok ps \<Longrightarrow> well_formed (f as) \<Longrightarrow> params_ok (predicate_param f as ps)"
  "params_ok ps \<Longrightarrow> well_formed (coalesce (Option.bind scope ls_service) []) \<Longrightarrow>
     well_formed (coalesce (Option.bind scope ls_integration) []) \<Longrightarrow> params_ok (scope_param scope ps)"
  "params_ok ps \<Longrightarrow> well_formed (windowCovering (ms (coalesce started [])) now) \<Longrightarrow> params_ok (range_param ms now started ps)"
proof -
  have k: "well_formed (js ''mattr'')" "well_formed (js ''service'')"
    "well_formed (js ''integration'')" "well_formed (js ''range'')"
    by (rule well_formed_ascii; simp add: js_def)+
  show "params_ok ps \<Longrightarrow> well_formed (f as) \<Longrightarrow> params_ok (predicate_param f as ps)"
    unfolding predicate_param_def using params_ok_set [OF _ k(1)] by simp
  show "params_ok ps \<Longrightarrow> well_formed (windowCovering (ms (coalesce started [])) now) \<Longrightarrow> params_ok (range_param ms now started ps)"
    unfolding range_param_def using params_ok_set [OF _ k(4)] by simp
  show "params_ok ps \<Longrightarrow> well_formed (coalesce (Option.bind scope ls_service) []) \<Longrightarrow>
     well_formed (coalesce (Option.bind scope ls_integration) []) \<Longrightarrow> params_ok (scope_param scope ps)"
    unfolding scope_param_def Let_def using params_ok_set [OF _ k(2)] params_ok_set [OF _ k(3)] by simp
qed

lemma window_is_preset: "windowCovering started now \<in> set PRESETS"
proof -
  have "fst w \<in> set PRESETS" if "w \<in> set WINDOWS" for w
    using that unfolding windows_are_presets [symmetric] by simp
  moreover have "last WINDOWS \<in> set WINDOWS" "js ''1h'' \<in> set PRESETS" by (simp_all add: WINDOWS_def PRESETS_def)
  moreover have "coalesce (find P WINDOWS) (last WINDOWS) \<in> set WINDOWS" for P
    by (cases "find P WINDOWS") (use \<open>last WINDOWS \<in> set WINDOWS\<close> in \<open>auto dest: find_SomeD\<close>)
  ultimately show ?thesis by (auto simp: windowCovering_def split: option.splits)
qed


text \<open>A predicate that tests for presence has no value, and leaves the link: the page then shows more than the
  check judges, whatever the comment of \<open>metricCheckHref\<close> says.\<close>

lemma presence_leaves_the_link:
  "ra_value a = [] \<Longrightarrow> a \<notin> set (check_predicates rule)"
  by (simp add: check_predicates_def)


section \<open>Warnings\<close>

record retention_warning =
  rw_window_days :: int
  rw_retention_days :: rat
  rw_message :: jstring

definition plural :: "bool \<Rightarrow> jstring" where
  "plural one = (if one then [] else js ''s'')"

definition windowRetentionWarning :: "(rat \<Rightarrow> jstring) \<Rightarrow> jnum \<Rightarrow> rat option \<Rightarrow> bool \<Rightarrow> retention_warning option" where
  "windowRetentionWarning num window retention firesBelow =
     (case (retention, window) of
        (Some d, Some w) \<Rightarrow>
          if d \<le> 0 \<or> w \<le> 0 \<or> w \<le> d * 86400 then None
          else
            let kept = num d @ js '' day'' @ plural (d = 1);
                head = js ''This window is longer than the '' @ kept @ js '' of telemetry this cell keeps, so '' in
            Some \<lparr>rw_window_days = \<lfloor>w / 86400\<rfloor>, rw_retention_days = d,
              rw_message = head @ (if firesBelow
                then js ''the count can never cover it. The check would fire on a flow that is working.''
                else js ''anything older than that is never counted. The check can stay quiet through a breach it should catch.'')\<rparr>
      | _ \<Rightarrow> None)"

text \<open>A check is warned about exactly when telemetry it would count is already gone, and not one second sooner.\<close>

lemma warned_iff_window_outlives_telemetry:
  "windowRetentionWarning num (Some w) (Some d) b \<noteq> None \<longleftrightarrow> 0 < d \<and> d * 86400 < w"
proof -
  have "0 < w" if "0 < d" "d * 86400 < w" using that by (metis less_trans mult_pos_pos zero_less_numeral)
  then show ?thesis by (auto simp: windowRetentionWarning_def Let_def)
qed

definition aggregationPicksBySample :: "jstring \<Rightarrow> bool" where
  "aggregationPicksBySample a \<longleftrightarrow> a \<in> {js ''last'', js ''age''}"

record ambiguous_warning =
  aw_count :: rat
  aw_message :: jstring
  aw_fix :: jstring

definition ambiguousSeriesWarning :: "(rat \<Rightarrow> jstring) \<Rightarrow> jstring \<Rightarrow> rat option \<Rightarrow> jstring option \<Rightarrow> ambiguous_warning option" where
  "ambiguousSeriesWarning num aggregation seriesCount splitBy =
     (case seriesCount of
        None \<Rightarrow> None
      | Some n \<Rightarrow>
          if \<not> aggregationPicksBySample aggregation \<or> truthy_str splitBy \<or> n \<le> 1 then None
          else
            let agg = (if aggregation = js ''age'' then js ''age'' else js ''last'') in
            Some \<lparr>aw_count = n,
              aw_message = js ''This filter matches '' @ num n @ js '' separate series, and '' @ [ldquo] @ agg @ [rdquo]
                @ js '' reads the newest sample by timestamp. When those series report at the same moment the tie is broken arbitrarily, so the value shown is whichever series happened to win ''
                @ [emdash] @ js '' not a reading you chose.'',
              aw_fix = js ''Narrow the filter until it matches one series, split by the attribute that separates them, or use an aggregation that combines them (max, min, avg).''\<rparr>)"

definition barStateClass :: "alert_rule \<Rightarrow> bool \<Rightarrow> jstring" where
  "barStateClass rule firing =
     (if \<not> al_enabled rule then js ''state-idle''
      else if \<not> firing then js ''state-ok'' else js ''sev-'' @ al_severity rule)"

section \<open>Names and conditions\<close>

definition rule_filter_text :: "rule_attr \<Rightarrow> jstring" where
  "rule_filter_text a =
     (if ra_op a = js ''eq'' then ra_key a @ js ''='' @ ra_value a
      else ra_key a @ js '' '' @ ra_op a @ js '' '' @ ra_value a)"

definition defaultRuleName :: "jstring \<Rightarrow> rule_attr list \<Rightarrow> jstring" where
  "defaultRuleName metric attrs =
     (let named = filter (\<lambda>a. ra_key a \<noteq> [] \<and> ra_value a \<noteq> []) attrs;
          shown = join (js '', '') (map rule_filter_text (take 2 named)) in
      if named = [] then metric @ js '' alert''
      else if 2 < length named then metric @ js '' '' @ [middot] @ js '' '' @ shown @ js '' +'' @ show_nat (length named - 2)
      else metric @ js '' '' @ [middot] @ js '' '' @ shown)"

definition OP_GLYPH :: "(jstring \<times> jstring) list" where
  "OP_GLYPH = [(js ''gt'', js ''>''), (js ''gte'', [ge_sign]), (js ''lt'', js ''<''), (js ''lte'', [le_sign]),
     (js ''eq'', js ''=''), (js ''neq'', [ne_sign])]"

definition logSevLabel :: "int \<Rightarrow> jstring" where
  "logSevLabel n =
     (if 21 \<le> n then js ''fatal'' else if 17 \<le> n then js ''error'' else if 13 \<le> n then js ''warn''
      else if 0 < n then ge_sign # show_int n else js ''any'')"

text \<open>\<open>fmtWindow\<close> on the signed number of the wire; the remainder keeps the sign of the number, so a
  negative one is divisible by what its absolute value is.\<close>

definition fmt_seconds :: "int \<Rightarrow> jstring" where
  "fmt_seconds s = (if s < 0 then js ''-'' else []) @ fmtWindow (nat \<bar>s\<bar>)"

definition spec_attr_text :: "rule_attr \<Rightarrow> jstring" where
  "spec_attr_text a = ra_key a @ js '' '' @ ra_op a @ js '' '' @ ra_value a"

definition dot_sep :: jstring where "dot_sep = js '' '' @ [middot] @ js '' ''"

definition trace_condition :: "alert_rule \<Rightarrow> jstring option" where
  "trace_condition r =
     (case (al_tlat r, al_tvol r, al_tattr r, al_terr r) of
        (Some s, _, _, _) \<Rightarrow>
          Some ((if tl_aggregation s = js ''max'' then js ''max'' else js ''p95'') @ js '' response time '' @ [ge_sign]
            @ show_int (tl_threshold s) @ js ''ms'' @ dot_sep @ fmt_seconds (tl_window s))
      | (None, Some s, _, _) \<Rightarrow>
          Some (js ''fewer than '' @ show_int (tv_threshold s) @ js '' trace'' @ plural (tv_threshold s = 1)
            @ dot_sep @ fmt_seconds (tv_window s))
      | (None, None, Some s, _) \<Rightarrow>
          (let attrs = join (js '', '') (map spec_attr_text (ta_attrs s)) in
           Some ([ge_sign] @ show_int (ta_threshold s) @ js '' matching trace'' @ plural (ta_threshold s = 1)
             @ (if attrs \<noteq> [] then js '' ['' @ attrs @ js '']'' else []) @ dot_sep @ fmt_seconds (ta_window s)))
      | (None, None, None, Some s) \<Rightarrow>
          Some ([ge_sign] @ show_int (te_threshold s) @ js '' failed trace'' @ plural (te_threshold s = 1)
            @ dot_sep @ fmt_seconds (te_window s))
      | _ \<Rightarrow> None)"

definition log_condition :: "log_spec \<Rightarrow> jstring" where
  "log_condition s =
     join dot_sep
       ([(if lg_comparison s = Some (js ''fewer_than'') then js ''fewer than '' @ show_int (lg_threshold s) @ js '' logs''
          else [ge_sign] @ show_int (lg_threshold s) @ js '' logs''),
         js ''sev '' @ logSevLabel (lg_min s)]
        @ (if lg_body s \<noteq> [] then [js ''contains '' @ [34] @ lg_body s @ [34]] else [])
        @ map spec_attr_text (coalesce (lg_attrs s) []) @ [fmt_seconds (lg_window s)])"

definition metric_condition :: "(rat \<Rightarrow> jstring) \<Rightarrow> alert_rule \<Rightarrow> jstring" where
  "metric_condition num r =
     (let sp = al_spec r; op = coalesce (map_of OP_GLYPH (ms_operator sp)) (ms_operator sp);
          attrs = coalesce (ms_attrs sp) [] in
      if al_source r = js ''pushed''
      then js ''pushed value '' @ op @ js '' '' @ num (ms_threshold sp)
        @ (if truthy_str (al_unit r) then js '' '' @ coalesce (al_unit r) [] else [])
      else ms_aggregation sp @ js '' '' @ ms_metric sp @ js '' '' @ op @ js '' '' @ num (ms_threshold sp) @ dot_sep @ ms_window sp
        @ (if attrs \<noteq> [] then dot_sep @ join (js '', '') (map (\<lambda>a. ra_key a @ js ''='' @ ra_value a) attrs) else []))"

definition alertCondition :: "(rat \<Rightarrow> jstring) \<Rightarrow> alert_rule \<Rightarrow> jstring" where
  "alertCondition num r =
     (if al_signal r = js ''trace'' \<and> trace_condition r \<noteq> None then coalesce (trace_condition r) []
      else if al_signal r = js ''log'' \<and> al_log r \<noteq> None then log_condition (the (al_log r))
      else metric_condition num r)"

definition alertSignalLabel :: "jstring \<Rightarrow> jstring option" where
  "alertSignalLabel s = (if s = js ''log'' then Some (js ''log'') else if s = js ''trace'' then Some (js ''trace'') else None)"

text \<open>A condition names the operator of a predicate on a trace or log check, but not on a metric check: there
  every predicate reads as equality, so that a check on everything but one queue and a check on
  that queue read the same.\<close>

lemma metric_condition_hides_operators:
  "ra_key a = ra_key b \<Longrightarrow> ra_value a = ra_value b \<Longrightarrow>
   alertCondition num (demo_rule\<lparr>al_spec := (al_spec demo_rule)\<lparr>ms_attrs := Some [a]\<rparr>\<rparr>)
     = alertCondition num (demo_rule\<lparr>al_spec := (al_spec demo_rule)\<lparr>ms_attrs := Some [b]\<rparr>\<rparr>)"
  by (simp add: alertCondition_def metric_condition_def demo_rule_def Let_def)

section \<open>Template checks\<close>

record template_check =
  tc_name :: jstring
  tc_signal :: "jstring option"
  tc_metric :: "jstring option"
  tc_agg :: "jstring option"
  tc_op :: "jstring option"
  tc_threshold :: "rat option"
  tc_attrs :: "rule_attr list option"
  tc_min_severity :: "rat option"
  tc_body :: "jstring option"
  tc_log_threshold :: "rat option"
  tc_split :: "jstring option"
  tc_trace_threshold :: "rat option"
  tc_threshold_ms :: "rat option"
  tc_unit :: "jstring option"

text \<open>An optional field in a template literal prints \<open>undefined\<close> when it is absent.\<close>

definition literal :: "jstring option \<Rightarrow> jstring" where
  "literal v = coalesce v (js ''undefined'')"

definition check_attr_list :: "template_check \<Rightarrow> jstring" where
  "check_attr_list c =
     (let attrs = join (js '', '') (map spec_attr_text (coalesce (tc_attrs c) [])) in
      if attrs \<noteq> [] then js '' ['' @ attrs @ js '']'' else [])"

definition checkLine :: "(rat \<Rightarrow> jstring) \<Rightarrow> template_check \<Rightarrow> jstring" where
  "checkLine num c =
     (let s = tc_signal c in
      if s = Some (js ''log'') then
        js ''log'' @ dot_sep
          @ (if coalesce (tc_min_severity c) 0 \<noteq> 0 then js ''severity'' @ [ge_sign] @ num (coalesce (tc_min_severity c) 0)
             else js ''any severity'')
          @ (if truthy_str (tc_body c) then js '' body~'' @ [34] @ coalesce (tc_body c) [] @ [34] else [])
          @ dot_sep @ [ge_sign] @ num (coalesce (tc_log_threshold c) 1) @ js '' in window''
      else if s = Some (js ''trace_error'') then
        js ''trace'' @ dot_sep @ [ge_sign] @ num (coalesce (tc_trace_threshold c) 1) @ js '' failed traces in window'' @ check_attr_list c
      else if s = Some (js ''trace_latency'') then
        js ''trace'' @ dot_sep @ js ''p95 latency '' @ [ge_sign] @ js '' '' @ num (coalesce (tc_threshold_ms c) 0) @ js '' ms''
      else if s = Some (js ''trace_attribute'') then
        js ''trace'' @ dot_sep @ [ge_sign] @ num (coalesce (tc_trace_threshold c) 1) @ js '' matching traces in window'' @ check_attr_list c
      else if s = Some (js ''trace_volume'') then
        js ''trace'' @ dot_sep @ js ''fewer than '' @ num (coalesce (tc_trace_threshold c) 1) @ js '' traces in window (dead-man)''
      else
        js ''metric'' @ dot_sep @ literal (tc_agg c) @ js '' '' @ literal (tc_metric c) @ js '' '' @ literal (tc_op c) @ js '' ''
          @ num (coalesce (tc_threshold c) 0)
          @ (if truthy_str (tc_unit c) then js '' '' @ coalesce (tc_unit c) [] else [])
          @ (if truthy_str (tc_split c) then dot_sep @ js ''split by '' @ coalesce (tc_split c) [] else []))"

end
