(* ===== verification/Trim.thy ===== *)
theory Trim
  imports JsSort Collections
begin

text \<open>
  The trim panels, which turn a selection of telemetry into a collector configuration that drops it:
  metrics, log services and trace services (\<open>components/metrics/TrimIngestionPanel.tsx\<close>), one kind of
  log record (\<open>components/logs/LogTrimPanel.tsx\<close>) and the span groups of a trace
  (\<open>components/traces/TraceTrimPanel.tsx\<close>).

  The configuration is modelled as the text the panels generate; a template literal is the list of its
  lines, joined at the end.  A reader of that text (items of a section, the pieces between the double
  quotes of a condition) says which telemetry it drops.  \<open>coll\<close> is \<open>localeCompare\<close>; a plain
  \<open>sort()\<close> compares code units.
\<close>

section \<open>Rules\<close>

record attr_rule =
  ar_metric :: jstring
  ar_key :: jstring
  ar_value :: jstring

datatype log_floor = FloorAll | FloorWarn | FloorError

record log_rule =
  lr_service :: jstring
  lr_floor :: log_floor

datatype span_mode = DropSpans | SampleSpans

record span_rule =
  sr_service :: jstring
  sr_mode :: span_mode

section \<open>The generated text\<close>

definition esc :: "jstring \<Rightarrow> jstring" where
  "esc s = concat (map (\<lambda>c. if c = 34 then [92, 34] else [c]) s)"

definition re_special :: "nat \<Rightarrow> bool" where
  "re_special c \<longleftrightarrow> c \<in> set (js ''.*+?^${}()|[]'') \<or> c = 92"

definition escapeRe :: "jstring \<Rightarrow> jstring" where
  "escapeRe s = concat (map (\<lambda>c. if re_special c then [92, c] else [c]) s)"

definition covered :: "jstring list \<Rightarrow> jstring \<Rightarrow> bool" where
  "covered pfx nm \<longleftrightarrow> list_ex (starts_with nm) pfx"

definition exact_names :: "jstring list \<Rightarrow> jstring list \<Rightarrow> jstring list" where
  "exact_names pfx names = js_sort unit_compare (filter (\<lambda>nm. \<not> covered pfx nm) names)"

definition cmp_attr_rule :: "(jstring \<Rightarrow> jstring \<Rightarrow> int) \<Rightarrow> attr_rule \<Rightarrow> attr_rule \<Rightarrow> int" where
  "cmp_attr_rule coll = cmp_then (cmp_on ar_metric coll) (cmp_then (cmp_on ar_key coll) (cmp_on ar_value coll))"

definition point_rules :: "(jstring \<Rightarrow> jstring \<Rightarrow> int) \<Rightarrow> jstring list \<Rightarrow> jstring list \<Rightarrow> attr_rule list \<Rightarrow> attr_rule list" where
  "point_rules coll names pfx rules =
     js_sort (cmp_attr_rule coll)
       (filter (\<lambda>r. ar_metric r \<notin> set names \<and> \<not> covered pfx (ar_metric r)) rules)"

definition mode_rules :: "(jstring \<Rightarrow> jstring \<Rightarrow> int) \<Rightarrow> span_mode \<Rightarrow> span_rule list \<Rightarrow> span_rule list" where
  "mode_rules coll m rules = js_sort (cmp_on sr_service coll) (filter (\<lambda>r. sr_mode r = m) rules)"

text \<open>A list item of a section, and the conditions.\<close>

definition item :: "jstring \<Rightarrow> jstring" where
  "item c = js ''        - '' @ [39] @ c @ [39]"

definition prefix_condition :: "jstring \<Rightarrow> jstring" where
  "prefix_condition p = js ''IsMatch(name, \"^'' @ escapeRe p @ js ''\")''"

definition name_condition :: "jstring \<Rightarrow> jstring" where
  "name_condition nm = js ''name == \"'' @ esc nm @ js ''\"''"

definition point_condition :: "attr_rule \<Rightarrow> jstring" where
  "point_condition r =
     js ''metric.name == \"'' @ esc (ar_metric r) @ js ''\" and attributes[\"'' @ esc (ar_key r) @ js ''\"] == \"''
       @ esc (ar_value r) @ js ''\"''"

definition service_condition :: "jstring \<Rightarrow> jstring" where
  "service_condition s = js ''resource.attributes[\"service.name\"] == \"'' @ esc s @ js ''\"''"

definition floor_text :: "log_floor \<Rightarrow> jstring" where
  "floor_text f =
     (case f of
        FloorWarn \<Rightarrow> js '' and severity_number < SEVERITY_NUMBER_WARN''
      | FloorError \<Rightarrow> js '' and severity_number < SEVERITY_NUMBER_ERROR''
      | FloorAll \<Rightarrow> [])"

definition floor_condition :: "log_rule \<Rightarrow> jstring" where
  "floor_condition r = service_condition (lr_service r) @ floor_text (lr_floor r)"

text \<open>A section is there when it has items.\<close>

definition item_section :: "jstring list \<Rightarrow> jstring list \<Rightarrow> jstring list" where
  "item_section head conditions = (if conditions = [] then [] else head @ map item conditions)"

definition metric_head :: "jstring list" where
  "metric_head = [js ''      metric:'']"

definition point_head :: "jstring list" where
  "point_head =
     [js ''      # datapoint conditions drop only the matching series '' @ [emdash] @ js '' the rest'',
      js ''      # of the metric keeps flowing'', js ''      datapoint:'']"

definition log_head :: "jstring list" where
  "log_head =
     [js ''    logs:'', js ''      # severity floors keep warnings/errors flowing so you can still'',
      js ''      # alert on them later '' @ [emdash] @ js '' only the noise below is dropped'', js ''      log_record:'']"

definition span_head :: "jstring \<Rightarrow> jstring list" where
  "span_head product =
     [js ''    traces:'', js ''      # CAUTION: dropping a service's spans removes it from '' @ product @ [39] @ js ''s'',
      js ''      # integration health entirely '' @ [emdash] @ js '' prefer sampling if it's monitored'', js ''      span:'']"

definition metric_sections :: "jstring list \<Rightarrow> jstring list \<Rightarrow> attr_rule list \<Rightarrow> jstring list" where
  "metric_sections pfx exact dp =
     item_section metric_head (map prefix_condition pfx @ map name_condition exact)
     @ item_section point_head (map point_condition dp)"

definition signal_sections :: "jstring \<Rightarrow> jstring list \<Rightarrow> log_rule list \<Rightarrow> span_rule list \<Rightarrow> jstring list" where
  "signal_sections product metric logs drops =
     (if metric = [] then [] else js ''    metrics:'' # metric)
     @ item_section log_head (map floor_condition logs)
     @ item_section (span_head product) (map (\<lambda>r. service_condition (sr_service r)) drops)"

definition sampled_values :: "span_rule list \<Rightarrow> jstring" where
  "sampled_values sampled = join (js '', '') (map (\<lambda>r. esc (sr_service r)) sampled)"

definition sampling_block :: "nat \<Rightarrow> span_rule list \<Rightarrow> jstring list" where
  "sampling_block pct sampled =
     [js ''  # Keep '' @ show_nat pct @ js ''% of these services' traces; every other'',
      js ''  # service passes through untouched.'',
      js ''  tail_sampling/sluicio-trim:'',
      js ''    policies:'',
      js ''      - name: sample-noisy-services'',
      js ''        type: and'',
      js ''        and:'',
      js ''          and_sub_policy:'',
      js ''            - name: the-services'',
      js ''              type: string_attribute'',
      js ''              string_attribute: {key: service.name, values: ['' @ sampled_values sampled @ js '']}'',
      js ''            - name: keep-a-share'',
      js ''              type: probabilistic'',
      js ''              probabilistic: {sampling_percentage: '' @ show_nat pct @ js ''}'',
      js ''      - name: keep-everything-else'',
      js ''        type: and'',
      js ''        and:'',
      js ''          and_sub_policy:'',
      js ''            - name: all-other-services'',
      js ''              type: string_attribute'',
      js ''              string_attribute: {key: service.name, values: ['' @ sampled_values sampled @ js ''], invert_match: true}'',
      js ''            - name: keep'',
      js ''              type: always_sample'']"

definition pipelines :: "bool \<Rightarrow> bool \<Rightarrow> bool \<Rightarrow> bool \<Rightarrow> jstring list" where
  "pipelines metrics logs drops sampled =
     (if metrics then [js ''    metrics:'', js ''      processors: [filter/sluicio-exclude]''] else [])
     @ (if logs then [js ''    logs:'', js ''      processors: [filter/sluicio-exclude]''] else [])
     @ (if drops \<or> sampled then [js ''    traces:'',
          js ''      processors: ['' @ join (js '', '') ((if drops then [js ''filter/sluicio-exclude''] else [])
            @ (if sampled then [js ''tail_sampling/sluicio-trim''] else [])) @ js '']''] else [])"

definition empty_text :: jstring where
  "empty_text = join [10] [js ''# Select metrics, log services, or trace services on the left'',
     js ''# to generate a collector config'' @ [ellipsis]]"

definition config_lines :: "jstring \<Rightarrow> nat \<Rightarrow> jstring list \<Rightarrow> log_rule list \<Rightarrow> span_rule list \<Rightarrow> span_rule list \<Rightarrow> jstring list" where
  "config_lines product pct metric logs drops sampled =
     (let signals = signal_sections product metric logs drops in
      [js ''# Drop this telemetry at your OpenTelemetry Collector, before it'',
       js ''# reaches '' @ product @ js ''. Conditions that match are dropped.'', js ''processors:'']
      @ (if signals = [] then [] else [js ''  filter/sluicio-exclude:'', js ''    error_mode: ignore''] @ signals)
      @ (if sampled = [] then [] else sampling_block pct sampled)
      @ [[], js ''service:'', js ''  pipelines:'', js ''    # add each processor alongside your existing ones, before the'',
         js ''    # exporter that sends to '' @ product]
      @ pipelines (metric \<noteq> []) (logs \<noteq> []) (drops \<noteq> []) (sampled \<noteq> []))"

definition buildCollectorConfig :: "(jstring \<Rightarrow> jstring \<Rightarrow> int) \<Rightarrow> jstring list \<Rightarrow> jstring list \<Rightarrow> attr_rule list
    \<Rightarrow> log_rule list \<Rightarrow> span_rule list \<Rightarrow> nat \<Rightarrow> jstring \<Rightarrow> jstring" where
  "buildCollectorConfig coll names prefixList attrRules logRules traceRules samplePct product =
     (let pfx = js_sort unit_compare prefixList;
          exact = exact_names pfx names;
          dp = point_rules coll names pfx attrRules;
          logs = js_sort (cmp_on lr_service coll) logRules;
          drops = mode_rules coll DropSpans traceRules;
          sampled = mode_rules coll SampleSpans traceRules in
      if pfx = [] \<and> exact = [] \<and> dp = [] \<and> logs = [] \<and> drops = [] \<and> sampled = [] then empty_text
      else join [10] (config_lines product samplePct (metric_sections pfx exact dp) logs drops sampled))"

section \<open>Reading the configuration\<close>

text \<open>
  The items of a section, single-quoted YAML scalars, and the pieces between the double quotes of
  a condition.  The reader is verbatim between the quotes: text without quotes and backslashes reads
  so under every convention.  A pattern reaches the matcher as it is written, and a backslash makes
  the next character literal.
\<close>

definition item_body :: "jstring \<Rightarrow> jstring option" where
  "item_body l =
     (let b = drop 11 l in
      if starts_with l (js ''        - '' @ [39]) \<and> b \<noteq> [] \<and> last b = 39 \<and> 39 \<notin> set (butlast b)
      then Some (butlast b) else None)"

definition SECTIONS :: "jstring list" where
  "SECTIONS = map js [''      metric:'', ''      datapoint:'', ''      log_record:'', ''      span:'']"

fun read_items :: "jstring \<Rightarrow> jstring list \<Rightarrow> (jstring \<times> jstring list) list" where
  "read_items cur [] = []"
| "read_items cur (l # ls) =
     (case item_body l of
        Some b \<Rightarrow> (cur, split_on 34 b) # read_items cur ls
      | None \<Rightarrow> read_items (if l \<in> set SECTIONS then l else cur) ls)"

definition items_of :: "jstring \<Rightarrow> (jstring \<times> jstring list) list" where
  "items_of config = read_items [] (split_on 10 config)"

fun read_literal :: "jstring \<Rightarrow> jstring option" where
  "read_literal [] = Some []"
| "read_literal (c # cs) =
     (if c = 92 then (case cs of [] \<Rightarrow> None | d # ds \<Rightarrow> map_option (Cons d) (read_literal ds))
      else if re_special c then None else map_option (Cons c) (read_literal cs))"

definition literal_prefix :: "jstring \<Rightarrow> jstring option" where
  "literal_prefix p = (case p of [] \<Rightarrow> None | c # cs \<Rightarrow> if c = 94 then read_literal cs else None)"

definition item_drops_metric :: "jstring \<Rightarrow> jstring \<times> jstring list \<Rightarrow> bool" where
  "item_drops_metric m i \<longleftrightarrow> fst i = js ''      metric:'' \<and>
     (snd i = [js ''name == '', m, []]
      \<or> (case snd i of
           [h, p, t] \<Rightarrow> h = js ''IsMatch(name, '' \<and> t = js '')''
             \<and> (case literal_prefix p of Some q \<Rightarrow> starts_with m q | None \<Rightarrow> False)
         | _ \<Rightarrow> False))"

definition item_drops_point :: "attr_rule \<Rightarrow> jstring \<times> jstring list \<Rightarrow> bool" where
  "item_drops_point r i \<longleftrightarrow> fst i = js ''      datapoint:''
     \<and> snd i = [js ''metric.name == '', ar_metric r, js '' and attributes['', ar_key r, js ''] == '', ar_value r, []]"

definition from_service :: "jstring \<Rightarrow> jstring \<Rightarrow> jstring list" where
  "from_service svc t = [js ''resource.attributes['', js ''service.name'', js ''] == '', svc, t]"

definition item_drops_log :: "jstring \<Rightarrow> nat \<Rightarrow> jstring \<times> jstring list \<Rightarrow> bool" where
  "item_drops_log svc sev i \<longleftrightarrow> fst i = js ''      log_record:''
     \<and> (snd i = from_service svc []
        \<or> snd i = from_service svc (js '' and severity_number < SEVERITY_NUMBER_WARN'') \<and> sev < 13
        \<or> snd i = from_service svc (js '' and severity_number < SEVERITY_NUMBER_ERROR'') \<and> sev < 17)"

definition item_drops_span :: "jstring \<Rightarrow> jstring \<times> jstring list \<Rightarrow> bool" where
  "item_drops_span svc i \<longleftrightarrow> fst i = js ''      span:'' \<and> snd i = from_service svc []"

text \<open>What the collector drops: a data point with its metric or by itself.\<close>

definition drops_metric :: "jstring \<Rightarrow> jstring \<Rightarrow> bool" where
  "drops_metric config m \<longleftrightarrow> list_ex (item_drops_metric m) (items_of config)"

definition drops_point :: "jstring \<Rightarrow> attr_rule \<Rightarrow> bool" where
  "drops_point config r \<longleftrightarrow> drops_metric config (ar_metric r) \<or> list_ex (item_drops_point r) (items_of config)"

definition drops_log :: "jstring \<Rightarrow> jstring \<Rightarrow> nat \<Rightarrow> bool" where
  "drops_log config svc sev \<longleftrightarrow> list_ex (item_drops_log svc sev) (items_of config)"

definition drops_span :: "jstring \<Rightarrow> jstring \<Rightarrow> bool" where
  "drops_span config svc \<longleftrightarrow> list_ex (item_drops_span svc) (items_of config)"

section \<open>The text reads back\<close>

text \<open>Names without a newline, a quote of either kind or a backslash.\<close>

definition plain :: "jstring \<Rightarrow> bool" where
  "plain s \<longleftrightarrow> list_all (\<lambda>c. c \<noteq> 10 \<and> c \<noteq> 34 \<and> c \<noteq> 39 \<and> c \<noteq> 92) s"

lemma plain_units: "plain s \<Longrightarrow> 10 \<notin> set s \<and> 34 \<notin> set s \<and> 39 \<notin> set s"
  by (auto simp: plain_def list_all_iff)

lemma esc_plain: "plain s \<Longrightarrow> esc s = s"
  by (induction s) (simp_all add: esc_def plain_def)

lemma escapeRe_units: "plain s \<Longrightarrow> 10 \<notin> set (escapeRe s) \<and> 34 \<notin> set (escapeRe s) \<and> 39 \<notin> set (escapeRe s)"
  by (induction s) (auto simp: escapeRe_def plain_def)

lemma read_literal_escaped: "read_literal (escapeRe p) = Some p"
proof (induction p)
  case (Cons c p)
  have "escapeRe (c # p) = (if re_special c then 92 # c # escapeRe p else c # escapeRe p)" by (simp add: escapeRe_def)
  moreover have "c = 92 \<Longrightarrow> re_special c" by (simp add: re_special_def)
  ultimately show ?case using Cons by auto
qed (simp add: escapeRe_def)

lemma item_body_item: "39 \<notin> set c \<Longrightarrow> item_body (item c) = Some c"
  by (simp add: item_body_def item_def js_def starts_with_def)

lemma read_items_map:
  "list_all (\<lambda>b. 39 \<notin> set b) bs \<Longrightarrow>
     read_items cur (map item bs @ ls) = map (\<lambda>b. (cur, split_on 34 b)) bs @ read_items cur ls"
  by (induction bs) (simp_all add: item_body_item)

definition noise :: "jstring list \<Rightarrow> bool" where
  "noise ls \<longleftrightarrow> list_all (\<lambda>l. item_body l = None \<and> l \<notin> set SECTIONS) ls"

lemma read_noise: "noise ls \<Longrightarrow> read_items cur (ls @ r) = read_items cur r"
  unfolding noise_def by (induction ls) simp_all
lemma split_pieces: "ps \<noteq> [] \<Longrightarrow> list_all (\<lambda>p. c \<notin> set p) ps \<Longrightarrow> split_on c (join [c] ps) = ps"
  by (rule split_on_join) (auto simp: list_all_iff)

lemma condition_pieces:
  "plain p \<Longrightarrow> split_on 34 (prefix_condition p) = [js ''IsMatch(name, '', 94 # escapeRe p, js '')'']"
  "plain nm \<Longrightarrow> split_on 34 (name_condition nm) = [js ''name == '', nm, []]"
  "plain (ar_metric r) \<Longrightarrow> plain (ar_key r) \<Longrightarrow> plain (ar_value r) \<Longrightarrow>
     split_on 34 (point_condition r)
       = [js ''metric.name == '', ar_metric r, js '' and attributes['', ar_key r, js ''] == '', ar_value r, []]"
  "plain svc \<Longrightarrow> split_on 34 (service_condition svc) = from_service svc []"
proof -
  show "plain p \<Longrightarrow> split_on 34 (prefix_condition p) = [js ''IsMatch(name, '', 94 # escapeRe p, js '')'']"
    using split_pieces [of "[js ''IsMatch(name, '', 94 # escapeRe p, js '')'']" 34] escapeRe_units [of p]
    by (simp add: prefix_condition_def js_def)
  show "plain nm \<Longrightarrow> split_on 34 (name_condition nm) = [js ''name == '', nm, []]"
    using split_pieces [of "[js ''name == '', nm, []]" 34] plain_units [of nm] by (simp add: name_condition_def esc_plain js_def)
  show "plain (ar_metric r) \<Longrightarrow> plain (ar_key r) \<Longrightarrow> plain (ar_value r) \<Longrightarrow> split_on 34 (point_condition r)
       = [js ''metric.name == '', ar_metric r, js '' and attributes['', ar_key r, js ''] == '', ar_value r, []]"
    using split_pieces [of "[js ''metric.name == '', ar_metric r, js '' and attributes['', ar_key r, js ''] == '', ar_value r, []]" 34]
      plain_units [of "ar_metric r"] plain_units [of "ar_key r"] plain_units [of "ar_value r"]
    by (simp add: point_condition_def esc_plain js_def)
  show "plain svc \<Longrightarrow> split_on 34 (service_condition svc) = from_service svc []"
    using split_pieces [of "from_service svc []" 34] plain_units [of svc]
    by (simp add: service_condition_def from_service_def esc_plain js_def)
qed

lemma floor_text_units: "c \<in> set (floor_text f) \<Longrightarrow> c \<noteq> 34 \<and> c \<noteq> 10 \<and> c \<noteq> 39"
  by (cases f) (auto simp: floor_text_def js_def)

lemma floor_pieces:
  "plain (lr_service r) \<Longrightarrow> split_on 34 (floor_condition r) = from_service (lr_service r) (floor_text (lr_floor r))"
  using split_pieces [of "from_service (lr_service r) (floor_text (lr_floor r))" 34] plain_units [of "lr_service r"]
    floor_text_units [of 34 "lr_floor r"]
  by (auto simp: floor_condition_def service_condition_def from_service_def esc_plain js_def)

definition rule_plain :: "attr_rule \<Rightarrow> bool" where
  "rule_plain r \<longleftrightarrow> plain (ar_metric r) \<and> plain (ar_key r) \<and> plain (ar_value r)"

lemma condition_units:
  "plain p \<Longrightarrow> c \<in> {10, 39} \<Longrightarrow> c \<notin> set (prefix_condition p)"
  "plain nm \<Longrightarrow> c \<in> {10, 39} \<Longrightarrow> c \<notin> set (name_condition nm)"
  "rule_plain r \<Longrightarrow> c \<in> {10, 39} \<Longrightarrow> c \<notin> set (point_condition r)"
  "plain svc \<Longrightarrow> c \<in> {10, 39} \<Longrightarrow> c \<notin> set (service_condition svc)"
  "plain (lr_service l) \<Longrightarrow> c \<in> {10, 39} \<Longrightarrow> c \<notin> set (floor_condition l)"
proof -
  note d = prefix_condition_def name_condition_def point_condition_def service_condition_def floor_condition_def rule_plain_def
  show "plain p \<Longrightarrow> c \<in> {10, 39} \<Longrightarrow> c \<notin> set (prefix_condition p)" using escapeRe_units [of p] by (auto simp: d js_def)
  show "plain nm \<Longrightarrow> c \<in> {10, 39} \<Longrightarrow> c \<notin> set (name_condition nm)" using plain_units [of nm] by (auto simp: d js_def esc_plain)
  show "rule_plain r \<Longrightarrow> c \<in> {10, 39} \<Longrightarrow> c \<notin> set (point_condition r)"
    using plain_units [of "ar_metric r"] plain_units [of "ar_key r"] plain_units [of "ar_value r"]
    by (auto simp: d js_def esc_plain)
  show s: "plain svc \<Longrightarrow> c \<in> {10, 39} \<Longrightarrow> c \<notin> set (service_condition svc)" for svc
    using plain_units [of svc] by (auto simp: d js_def esc_plain)
  show "plain (lr_service l) \<Longrightarrow> c \<in> {10, 39} \<Longrightarrow> c \<notin> set (floor_condition l)"
    using s [of "lr_service l"] floor_text_units [of c "lr_floor l"] by (auto simp: floor_condition_def)
qed

lemma noise_append [simp]: "noise (a @ b) \<longleftrightarrow> noise a \<and> noise b"
  by (simp add: noise_def)

lemma noise_blocks:
  "noise (sampling_block pct sampled)" "noise (pipelines a b c d)"
  "noise [js ''# Drop this telemetry at your OpenTelemetry Collector, before it'',
       js ''# reaches '' @ product @ js ''. Conditions that match are dropped.'', js ''processors:'']"
  "noise [js ''  filter/sluicio-exclude:'', js ''    error_mode: ignore'']"
  "noise [[], js ''service:'', js ''  pipelines:'', js ''    # add each processor alongside your existing ones, before the'',
         js ''    # exporter that sends to '' @ product]"
  by (simp_all add: noise_def item_body_def starts_with_def SECTIONS_def sampling_block_def pipelines_def js_def)

text \<open>What follows a section does not depend on it.\<close>

definition settled :: "jstring list \<Rightarrow> bool" where
  "settled r \<longleftrightarrow> (\<forall>c. read_items c r = read_items [] r)"

lemma settled_noise: "noise ls \<Longrightarrow> settled r \<Longrightarrow> settled (ls @ r)"
  by (simp add: settled_def read_noise)

lemma settled_read: "settled r \<Longrightarrow> read_items c r = read_items [] r"
  by (simp add: settled_def)

lemma read_section:
  assumes "head \<noteq> [] \<and> noise (butlast head) \<and> last head \<in> set SECTIONS" "list_all (\<lambda>b. 39 \<notin> set b) bs" "settled r"
  shows "read_items cur (item_section head bs @ r) = map (\<lambda>b. (last head, split_on 34 b)) bs @ read_items [] r"
    "settled (item_section head bs @ r)"
proof -
  have "list_all (\<lambda>l. item_body l = None) SECTIONS" by code_simp
  then have "item_body (last head) = None" using assms(1) by (simp add: list_all_iff)
  then have "read_items c (last head # ls) = read_items (last head) ls" for c ls using assms(1) by simp
  moreover have "read_items c (head @ ls) = read_items c (last head # ls)" for c ls
    using assms(1) read_noise [of "butlast head" c "last head # ls"] append_butlast_last_id [of head]
    by (metis append.assoc append_Cons append_Nil)
  ultimately have r: "read_items c (item_section head bs @ r) = map (\<lambda>b. (last head, split_on 34 b)) bs @ read_items [] r" for c
    using settled_read [OF assms(3)] read_items_map [OF assms(2)]
    by (cases "bs = []") (simp_all add: item_section_def)
  show "read_items cur (item_section head bs @ r) = map (\<lambda>b. (last head, split_on 34 b)) bs @ read_items [] r" by (rule r)
  show "settled (item_section head bs @ r)" unfolding settled_def r by simp
qed

lemma heads:
  "metric_head \<noteq> [] \<and> noise (butlast metric_head) \<and> last metric_head \<in> set SECTIONS"
  "point_head \<noteq> [] \<and> noise (butlast point_head) \<and> last point_head \<in> set SECTIONS"
  "log_head \<noteq> [] \<and> noise (butlast log_head) \<and> last log_head \<in> set SECTIONS"
  "span_head product \<noteq> [] \<and> noise (butlast (span_head product)) \<and> last (span_head product) \<in> set SECTIONS"
  by (simp_all add: metric_head_def point_head_def log_head_def span_head_def noise_def item_body_def starts_with_def
       SECTIONS_def js_def)

lemma last_heads: "last metric_head = js ''      metric:''" "last point_head = js ''      datapoint:''"
  "last log_head = js ''      log_record:''" "last (span_head product) = js ''      span:''"
  by (simp_all add: metric_head_def point_head_def log_head_def span_head_def)

definition config_items :: "jstring list \<Rightarrow> jstring list \<Rightarrow> attr_rule list \<Rightarrow> log_rule list \<Rightarrow> span_rule list
    \<Rightarrow> (jstring \<times> jstring list) list" where
  "config_items pfx exact dp logs drops =
     map (\<lambda>b. (js ''      metric:'', split_on 34 b)) (map prefix_condition pfx @ map name_condition exact)
     @ map (\<lambda>b. (js ''      datapoint:'', split_on 34 b)) (map point_condition dp)
     @ map (\<lambda>b. (js ''      log_record:'', split_on 34 b)) (map floor_condition logs)
     @ map (\<lambda>b. (js ''      span:'', split_on 34 b)) (map (\<lambda>r. service_condition (sr_service r)) drops)"

definition all_plain :: "jstring list \<Rightarrow> jstring list \<Rightarrow> attr_rule list \<Rightarrow> log_rule list \<Rightarrow> span_rule list \<Rightarrow> bool" where
  "all_plain pfx names rules logs spans \<longleftrightarrow> list_all plain pfx \<and> list_all plain names \<and> list_all rule_plain rules
     \<and> list_all (\<lambda>r. plain (lr_service r)) logs \<and> list_all (\<lambda>r. plain (sr_service r)) spans"

lemma all_plain_conditions:
  assumes "all_plain pfx exact dp logs drops" "c \<in> {10, 39}"
  shows "list_all (\<lambda>b. c \<notin> set b) (map prefix_condition pfx @ map name_condition exact)"
    "list_all (\<lambda>b. c \<notin> set b) (map point_condition dp)" "list_all (\<lambda>b. c \<notin> set b) (map floor_condition logs)"
    "list_all (\<lambda>b. c \<notin> set b) (map (\<lambda>r. service_condition (sr_service r)) drops)"
  using assms condition_units [where c = c] by (auto simp: all_plain_def list_all_iff)

lemma read_config_lines:
  assumes "all_plain pfx exact dp logs drops"
  shows "read_items [] (config_lines product pct (metric_sections pfx exact dp) logs drops sampled)
     = config_items pfx exact dp logs drops"
proof -
  have q: "(39::nat) \<in> {10, 39}" by simp
  note q = all_plain_conditions [OF assms q]
  let ?m = "metric_sections pfx exact dp"
  define tail where "tail = (if sampled = [] then [] else sampling_block pct sampled)
      @ [[], js ''service:'', js ''  pipelines:'', js ''    # add each processor alongside your existing ones, before the'',
         js ''    # exporter that sends to '' @ product]
      @ pipelines (?m \<noteq> []) (logs \<noteq> []) (drops \<noteq> []) (sampled \<noteq> [])"
  have "noise tail" unfolding tail_def noise_append using noise_blocks by (simp add: noise_def)
  then have t: "settled tail" "read_items [] tail = []"
    using read_noise [of tail _ "[]"] by (simp_all add: settled_def)
  note sp = read_section [OF heads(4) q(4) t(1)]
  note lg = read_section [OF heads(3) q(3) sp(2)]
  note dp = read_section [OF heads(2) q(2) lg(2)]
  note mt = read_section [OF heads(1) q(1) dp(2)]
  let ?rest = "item_section log_head (map floor_condition logs)
     @ item_section (span_head product) (map (\<lambda>r. service_condition (sr_service r)) drops) @ tail"
  have body: "read_items [] (?m @ ?rest) = config_items pfx exact dp logs drops"
    unfolding metric_sections_def append.assoc mt(1) dp(1) lg(1) sp(1) t(2) config_items_def last_heads by simp
  have m: "read_items [] ((if ?m = [] then [] else js ''    metrics:'' # ?m) @ r) = read_items [] (?m @ r)" for r
    using read_noise [of "[js ''    metrics:'']" "[]" "?m @ r"]
    by (simp add: noise_def item_body_def starts_with_def SECTIONS_def js_def)
  have g: "read_items [] ((if s = [] then [] else [js ''  filter/sluicio-exclude:'', js ''    error_mode: ignore''] @ s) @ tail)
      = read_items [] (s @ tail)" for s
    using read_noise [OF noise_blocks(4), of "[]" "s @ tail"] by simp
  have "read_items [] (signal_sections product ?m logs drops @ tail) = config_items pfx exact dp logs drops"
    unfolding signal_sections_def append.assoc m by (rule body)
  then show ?thesis
    unfolding config_lines_def Let_def append.assoc read_noise [OF noise_blocks(3)]
    using g unfolding tail_def by simp
qed

definition one_line :: "jstring list \<Rightarrow> bool" where
  "one_line ls \<longleftrightarrow> list_all (\<lambda>l. 10 \<notin> set l) ls"

lemma one_line_append [simp]: "one_line (a @ b) \<longleftrightarrow> one_line a \<and> one_line b"
  by (simp add: one_line_def)

lemma one_line_section:
  "one_line head \<Longrightarrow> list_all (\<lambda>b. 10 \<notin> set b) bs \<Longrightarrow> one_line (item_section head bs)"
  by (auto simp: one_line_def item_section_def item_def js_def list_all_iff)

lemma join_units: "c \<in> set (join sep xs) \<Longrightarrow> c \<in> set sep \<or> (\<exists>x \<in> set xs. c \<in> set x)"
  by (induction sep xs rule: join.induct) auto

lemma sampled_values_line: "list_all (\<lambda>r. plain (sr_service r)) sampled \<Longrightarrow> 10 \<notin> set (sampled_values sampled)"
  using join_units [of 10 "js '', ''" "map (\<lambda>r. esc (sr_service r)) sampled"] plain_units
  by (auto simp: sampled_values_def esc_plain js_def list_all_iff)

lemma one_line_blocks:
  "list_all (\<lambda>r. plain (sr_service r)) sampled \<Longrightarrow> one_line (sampling_block pct sampled)" "one_line (pipelines a b c d)"
  "10 \<notin> set product \<Longrightarrow> one_line [js ''# Drop this telemetry at your OpenTelemetry Collector, before it'',
       js ''# reaches '' @ product @ js ''. Conditions that match are dropped.'', js ''processors:'']"
  "one_line [js ''  filter/sluicio-exclude:'', js ''    error_mode: ignore'']"
  "10 \<notin> set product \<Longrightarrow> one_line [[], js ''service:'', js ''  pipelines:'', js ''    # add each processor alongside your existing ones, before the'',
         js ''    # exporter that sends to '' @ product]"
  "one_line metric_head" "one_line point_head" "one_line log_head" "10 \<notin> set product \<Longrightarrow> one_line (span_head product)"
proof -
  have n: "10 \<notin> set (show_nat pct)" using show_nat_digits [of 10 pct] by (auto simp: is_digit_def)
  show "list_all (\<lambda>r. plain (sr_service r)) sampled \<Longrightarrow> one_line (sampling_block pct sampled)"
    using n sampled_values_line [of sampled] by (simp add: one_line_def sampling_block_def js_def)
qed (simp_all add: one_line_def pipelines_def js_def metric_head_def point_head_def log_head_def span_head_def emdash_def)

lemma one_line_config:
  assumes "all_plain pfx exact dp logs drops" "list_all (\<lambda>r. plain (sr_service r)) sampled" "10 \<notin> set product"
  shows "one_line (config_lines product pct (metric_sections pfx exact dp) logs drops sampled)"
proof -
  have ten: "(10::nat) \<in> {10, 39}" by simp
  note q = all_plain_conditions [OF assms(1) ten]
  have m: "one_line (metric_sections pfx exact dp)"
    unfolding metric_sections_def one_line_append
    by (intro conjI one_line_section one_line_blocks q)
  moreover have "one_line [js ''    metrics:'']" by (simp add: one_line_def js_def)
  ultimately have "one_line (signal_sections product (metric_sections pfx exact dp) logs drops)"
    unfolding signal_sections_def using one_line_append [of "[js ''    metrics:'']"]
    by (simp add: one_line_section one_line_blocks q assms(3) one_line_def [of "[]"])
  then show ?thesis
    unfolding config_lines_def Let_def one_line_append using assms one_line_blocks
    by (auto simp: one_line_def [of "[]"] simp del: append.simps)
qed

lemma config_reads_back:
  assumes "all_plain pfx exact dp logs drops" "list_all (\<lambda>r. plain (sr_service r)) sampled" "10 \<notin> set product"
  shows "items_of (join [10] (config_lines product pct (metric_sections pfx exact dp) logs drops sampled))
     = config_items pfx exact dp logs drops"
proof -
  let ?ls = "config_lines product pct (metric_sections pfx exact dp) logs drops sampled"
  have "?ls \<noteq> []" by (simp add: config_lines_def Let_def)
  then have "split_on 10 (join [10] ?ls) = ?ls"
    using one_line_config [OF assms, of pct] by (intro split_on_join) (auto simp: one_line_def list_all_iff)
  then show ?thesis unfolding items_of_def using read_config_lines [OF assms(1)] by simp
qed

lemma empty_text_reads: "items_of empty_text = []"
  by code_simp

section \<open>The configuration drops the selection\<close>

lemma item_pieces:
  assumes "all_plain pfx exact dp logs drops"
  shows "config_items pfx exact dp logs drops =
     map (\<lambda>p. (js ''      metric:'', [js ''IsMatch(name, '', 94 # escapeRe p, js '')''])) pfx
     @ map (\<lambda>nm. (js ''      metric:'', [js ''name == '', nm, []])) exact
     @ map (\<lambda>r. (js ''      datapoint:'', [js ''metric.name == '', ar_metric r, js '' and attributes['', ar_key r,
          js ''] == '', ar_value r, []])) dp
     @ map (\<lambda>r. (js ''      log_record:'', from_service (lr_service r) (floor_text (lr_floor r)))) logs
     @ map (\<lambda>r. (js ''      span:'', from_service (sr_service r) [])) drops"
  using assms unfolding config_items_def all_plain_def rule_plain_def
  by (simp add: condition_pieces floor_pieces list_all_iff)

text \<open>The severity below which a rule drops a service's records.\<close>

definition below_floor :: "log_floor \<Rightarrow> nat \<Rightarrow> bool" where
  "below_floor f sev \<longleftrightarrow> (case f of FloorAll \<Rightarrow> True | FloorWarn \<Rightarrow> sev < 13 | FloorError \<Rightarrow> sev < 17)"

lemma list_ex_map_pair: "list_ex P (map f xs) \<longleftrightarrow> list_ex (\<lambda>x. P (f x)) xs"
  by (induction xs) simp_all

lemma list_ex_simps: "\<not> list_ex (\<lambda>_. False) xs" "list_ex (\<lambda>x. g x = m) xs \<longleftrightarrow> m \<in> g ` set xs"
  by (auto simp: list_ex_iff)

lemma attr_rule_eq: "r = q \<longleftrightarrow> ar_metric r = ar_metric q \<and> ar_key r = ar_key q \<and> ar_value r = ar_value (q :: attr_rule)"
  by (cases r; cases q) simp

lemma section_items:
  assumes "all_plain pfx exact dp logs drops"
  shows "list_ex (item_drops_metric m) (config_items pfx exact dp logs drops) \<longleftrightarrow> m \<in> set exact \<or> covered pfx m"
    "list_ex (item_drops_point r) (config_items pfx exact dp logs drops) \<longleftrightarrow> r \<in> set dp"
    "list_ex (item_drops_log svc sev) (config_items pfx exact dp logs drops)
       \<longleftrightarrow> list_ex (\<lambda>r. lr_service r = svc \<and> below_floor (lr_floor r) sev) logs"
    "list_ex (item_drops_span svc) (config_items pfx exact dp logs drops) \<longleftrightarrow> svc \<in> sr_service ` set drops"
proof -
  note p = item_pieces [OF assms]
  have lit: "literal_prefix (94 # escapeRe q) = Some q" for q by (simp add: literal_prefix_def read_literal_escaped)
  show "list_ex (item_drops_metric m) (config_items pfx exact dp logs drops) \<longleftrightarrow> m \<in> set exact \<or> covered pfx m"
    using list_ex_simps(2) [of "\<lambda>x. x" m exact]
    by (auto simp: p item_drops_metric_def lit covered_def list_ex_map_pair list_ex_simps)
  have "list_ex (\<lambda>q. ar_metric q = ar_metric r \<and> ar_key q = ar_key r \<and> ar_value q = ar_value r) dp \<longleftrightarrow> r \<in> set dp"
    unfolding list_ex_iff attr_rule_eq [symmetric] by blast
  then show "list_ex (item_drops_point r) (config_items pfx exact dp logs drops) \<longleftrightarrow> r \<in> set dp"
    by (simp add: p item_drops_point_def list_ex_map_pair list_ex_simps)
  have "item_drops_log svc sev (js ''      log_record:'', from_service (lr_service r) (floor_text (lr_floor r)))
      \<longleftrightarrow> lr_service r = svc \<and> below_floor (lr_floor r) sev" for r :: log_rule
    by (auto simp: item_drops_log_def from_service_def below_floor_def floor_text_def split: log_floor.splits)
  moreover have "\<not> item_drops_log svc sev (h, q)" if "h \<noteq> js ''      log_record:''" for h q
    using that by (simp add: item_drops_log_def)
  ultimately show "list_ex (item_drops_log svc sev) (config_items pfx exact dp logs drops)
       \<longleftrightarrow> list_ex (\<lambda>r. lr_service r = svc \<and> below_floor (lr_floor r) sev) logs"
    by (simp add: p list_ex_map_pair list_ex_simps)
  show "list_ex (item_drops_span svc) (config_items pfx exact dp logs drops) \<longleftrightarrow> svc \<in> sr_service ` set drops"
    by (simp add: p item_drops_span_def from_service_def list_ex_map_pair list_ex_simps)
qed

lemma covered_sort [simp]: "covered (js_sort c pfx) = covered pfx"
  by (rule ext) (simp add: covered_def list_ex_iff)

lemma all_plain_built:
  assumes "all_plain prefixList names attrRules logRules traceRules"
  shows "all_plain (js_sort unit_compare prefixList) (exact_names (js_sort unit_compare prefixList) names)
     (point_rules coll names (js_sort unit_compare prefixList) attrRules) (js_sort (cmp_on lr_service coll) logRules)
     (mode_rules coll DropSpans traceRules) \<and> list_all (\<lambda>r. plain (sr_service r)) (mode_rules coll SampleSpans traceRules)"
  using assms by (auto simp: all_plain_def list_all_iff exact_names_def point_rules_def mode_rules_def)

lemma config_meaning:
  assumes "all_plain prefixList names attrRules logRules traceRules" "10 \<notin> set product"
  assumes config_def: "config = buildCollectorConfig coll names prefixList attrRules logRules traceRules pct product"
  shows "drops_metric config m \<longleftrightarrow> m \<in> set names \<or> covered prefixList m"
    "drops_point config r \<longleftrightarrow> ar_metric r \<in> set names \<or> covered prefixList (ar_metric r) \<or> r \<in> set attrRules"
    "drops_log config svc sev \<longleftrightarrow> list_ex (\<lambda>r. lr_service r = svc \<and> below_floor (lr_floor r) sev) logRules"
    "drops_span config svc \<longleftrightarrow> list_ex (\<lambda>r. sr_service r = svc \<and> sr_mode r = DropSpans) traceRules"
proof -
  define pfx where "pfx = js_sort unit_compare prefixList"
  define exact where "exact = exact_names pfx names"
  define dp where "dp = point_rules coll names pfx attrRules"
  define logs where "logs = js_sort (cmp_on lr_service coll) logRules"
  define drops where "drops = mode_rules coll DropSpans traceRules"
  define sampled where "sampled = mode_rules coll SampleSpans traceRules"
  have ok: "all_plain pfx exact dp logs drops" "list_all (\<lambda>r. plain (sr_service r)) sampled"
    using all_plain_built [OF assms(1), of coll]
    by (simp_all add: pfx_def exact_def dp_def logs_def drops_def sampled_def)
  have items: "items_of config = config_items pfx exact dp logs drops"
  proof (cases "pfx = [] \<and> exact = [] \<and> dp = [] \<and> logs = [] \<and> drops = [] \<and> sampled = []")
    case True
    have "config = empty_text"
      unfolding config_def buildCollectorConfig_def Let_def pfx_def [symmetric] exact_def [symmetric] dp_def [symmetric]
        logs_def [symmetric] drops_def [symmetric] sampled_def [symmetric] by (rule if_P [OF True])
    moreover have "config_items pfx exact dp logs drops = []" using True by (simp add: config_items_def)
    ultimately show ?thesis using empty_text_reads by simp
  next
    case False
    have "config = join [10] (config_lines product pct (metric_sections pfx exact dp) logs drops sampled)"
      unfolding config_def buildCollectorConfig_def Let_def pfx_def [symmetric] exact_def [symmetric] dp_def [symmetric]
        logs_def [symmetric] drops_def [symmetric] sampled_def [symmetric] by (rule if_not_P [OF False])
    then show ?thesis using config_reads_back [OF ok assms(2)] by simp
  qed
  note s = section_items [OF ok(1)]
  have cov: "covered pfx = covered prefixList" by (simp add: pfx_def)
  show m: "drops_metric config m \<longleftrightarrow> m \<in> set names \<or> covered prefixList m" for m
    unfolding drops_metric_def items s cov by (auto simp: exact_def exact_names_def cov)
  show "drops_point config r \<longleftrightarrow> ar_metric r \<in> set names \<or> covered prefixList (ar_metric r) \<or> r \<in> set attrRules"
    unfolding drops_point_def m items s by (auto simp: dp_def point_rules_def cov)
  show "drops_log config svc sev \<longleftrightarrow> list_ex (\<lambda>r. lr_service r = svc \<and> below_floor (lr_floor r) sev) logRules"
    unfolding drops_log_def items s by (simp add: logs_def list_ex_iff)
  show "drops_span config svc \<longleftrightarrow> list_ex (\<lambda>r. sr_service r = svc \<and> sr_mode r = DropSpans) traceRules"
    unfolding drops_span_def items s by (auto simp: drops_def mode_rules_def list_ex_iff)
qed

section \<open>The panel\<close>

text \<open>A \<open>Set\<close> is the list of its elements in insertion order, a \<open>Map\<close> the list of its entries.\<close>

record trim_panel =
  tp_excluded :: "jstring list"
  tp_prefixes :: "jstring list"
  tp_attr_rules :: "attr_rule list"
  tp_attr_open :: "jstring option"
  tp_log_rules :: "log_rule list"
  tp_trace_rules :: "span_rule list"
  tp_sample_pct :: nat
  tp_feeds :: "(jstring \<times> jstring list) list"

definition open_panel :: trim_panel where
  "open_panel = \<lparr>tp_excluded = [], tp_prefixes = [], tp_attr_rules = [], tp_attr_open = None, tp_log_rules = [],
     tp_trace_rules = [], tp_sample_pct = 10, tp_feeds = []\<rparr>"

definition set_add :: "'a list \<Rightarrow> 'a \<Rightarrow> 'a list" where
  "set_add xs x = (if x \<in> set xs then xs else xs @ [x])"

definition set_flip :: "'a list \<Rightarrow> 'a \<Rightarrow> 'a list" where
  "set_flip xs x = (if x \<in> set xs then removeAll x xs else xs @ [x])"

definition toggleLogRule :: "jstring \<Rightarrow> log_rule list \<Rightarrow> log_rule list" where
  "toggleLogRule svc prev =
     (if list_ex (\<lambda>r. lr_service r = svc) prev then filter (\<lambda>r. lr_service r \<noteq> svc) prev
      else prev @ [\<lparr>lr_service = svc, lr_floor = FloorWarn\<rparr>])"

definition setLogFloor :: "jstring \<Rightarrow> log_floor \<Rightarrow> log_rule list \<Rightarrow> log_rule list" where
  "setLogFloor svc f prev = map (\<lambda>r. if lr_service r = svc then r\<lparr>lr_floor := f\<rparr> else r) prev"

definition toggleTraceRule :: "(jstring \<times> jstring list) list \<Rightarrow> jstring \<Rightarrow> span_rule list \<Rightarrow> span_rule list" where
  "toggleTraceRule feeds svc prev =
     (if list_ex (\<lambda>r. sr_service r = svc) prev then filter (\<lambda>r. sr_service r \<noteq> svc) prev
      else prev @ [\<lparr>sr_service = svc, sr_mode = (if map_of feeds svc \<noteq> None then SampleSpans else DropSpans)\<rparr>])"

definition setTraceMode :: "jstring \<Rightarrow> span_mode \<Rightarrow> span_rule list \<Rightarrow> span_rule list" where
  "setTraceMode svc m prev = map (\<lambda>r. if sr_service r = svc then r\<lparr>sr_mode := m\<rparr> else r) prev"

text \<open>The integrations a service feeds, from the list of integrations: \<open>Some\<close> is the loaded list, \<open>None\<close> a failure.\<close>

definition feeds_of :: "(jstring \<times> jstring list) list option \<Rightarrow> (jstring \<times> jstring list) list" where
  "feeds_of ints =
     foldl (\<lambda>m i. foldl (\<lambda>m svc. map_push m svc (fst i)) m (snd i)) [] (coalesce ints [])"

datatype trim_action =
    ToggleMetric jstring | ExcludeShown "jstring list" | AddPrefix jstring | RemovePrefix jstring | ClearAll
  | ToggleAttrs jstring | AddAttrRule jstring jstring jstring | RemoveAttrRule attr_rule
  | ToggleLogRule jstring | SetLogFloor jstring log_floor
  | ToggleTraceRule jstring | SetTraceMode jstring span_mode | SetSamplePct nat
  | IntegrationsLoaded "(jstring \<times> jstring list) list option"

fun trim_step :: "trim_panel \<Rightarrow> trim_action \<Rightarrow> trim_panel" where
  "trim_step s (ToggleMetric nm) = s\<lparr>tp_excluded := set_flip (tp_excluded s) nm\<rparr>"
| "trim_step s (ExcludeShown nms) = s\<lparr>tp_excluded := dedupe (tp_excluded s @ nms)\<rparr>"
| "trim_step s (AddPrefix p) = s\<lparr>tp_prefixes := set_add (tp_prefixes s) p\<rparr>"
| "trim_step s (RemovePrefix p) = s\<lparr>tp_prefixes := removeAll p (tp_prefixes s)\<rparr>"
| "trim_step s ClearAll = s\<lparr>tp_excluded := [], tp_prefixes := [], tp_attr_rules := [], tp_attr_open := None,
     tp_log_rules := [], tp_trace_rules := []\<rparr>"
| "trim_step s (ToggleAttrs nm) = s\<lparr>tp_attr_open := (if tp_attr_open s = Some nm then None else Some nm)\<rparr>"
| "trim_step s (AddAttrRule m k v) = s\<lparr>tp_attr_rules := set_add (tp_attr_rules s) \<lparr>ar_metric = m, ar_key = k, ar_value = v\<rparr>\<rparr>"
| "trim_step s (RemoveAttrRule r) = s\<lparr>tp_attr_rules := removeAll r (tp_attr_rules s)\<rparr>"
| "trim_step s (ToggleLogRule svc) = s\<lparr>tp_log_rules := toggleLogRule svc (tp_log_rules s)\<rparr>"
| "trim_step s (SetLogFloor svc f) = s\<lparr>tp_log_rules := setLogFloor svc f (tp_log_rules s)\<rparr>"
| "trim_step s (ToggleTraceRule svc) = s\<lparr>tp_trace_rules := toggleTraceRule (tp_feeds s) svc (tp_trace_rules s)\<rparr>"
| "trim_step s (SetTraceMode svc m) = s\<lparr>tp_trace_rules := setTraceMode svc m (tp_trace_rules s)\<rparr>"
| "trim_step s (SetSamplePct n) = s\<lparr>tp_sample_pct := n\<rparr>"
| "trim_step s (IntegrationsLoaded ints) = s\<lparr>tp_feeds := feeds_of ints\<rparr>"

definition panel_config :: "(jstring \<Rightarrow> jstring \<Rightarrow> int) \<Rightarrow> jstring \<Rightarrow> trim_panel \<Rightarrow> jstring" where
  "panel_config coll product s =
     buildCollectorConfig coll (js_sort unit_compare (tp_excluded s)) (tp_prefixes s) (tp_attr_rules s)
       (tp_log_rules s) (tp_trace_rules s) (tp_sample_pct s) product"

definition panel_plain :: "trim_panel \<Rightarrow> bool" where
  "panel_plain s \<longleftrightarrow> all_plain (tp_prefixes s) (tp_excluded s) (tp_attr_rules s) (tp_log_rules s) (tp_trace_rules s)"

text \<open>Every set and rule list of a reachable panel has each of its elements, or services, once.\<close>

definition panel_ok :: "trim_panel \<Rightarrow> bool" where
  "panel_ok s \<longleftrightarrow> distinct (tp_excluded s) \<and> distinct (tp_prefixes s) \<and> distinct (tp_attr_rules s)
     \<and> distinct (map lr_service (tp_log_rules s)) \<and> distinct (map sr_service (tp_trace_rules s))"

lemma map_update_service:
  "map lr_service (setLogFloor svc f rs) = map lr_service rs" "map sr_service (setTraceMode svc m qs) = map sr_service qs"
  by (simp_all add: setLogFloor_def setTraceMode_def)

lemma distinct_map_filter_key: "distinct (map f xs) \<Longrightarrow> distinct (map f (filter P xs))"
  by (induction xs) auto

lemma trim_step_ok: "panel_ok s \<Longrightarrow> panel_ok (trim_step s a)"
  by (cases a)
     (auto simp: panel_ok_def set_add_def set_flip_def distinct_removeAll map_update_service toggleLogRule_def toggleTraceRule_def
        distinct_map_filter_key list_ex_iff)

lemma reachable_panel_ok: "panel_ok s \<Longrightarrow> panel_ok (foldl trim_step s as)"
  by (induction as arbitrary: s) (simp_all add: trim_step_ok)

text \<open>A service that feeds an integration is sampled unless its mode is set by hand.\<close>

definition sampled_only :: "jstring \<Rightarrow> trim_panel \<Rightarrow> bool" where
  "sampled_only svc s \<longleftrightarrow> svc \<in> fst ` set (tp_feeds s) \<and> (\<forall>r \<in> set (tp_trace_rules s). sr_service r = svc \<longrightarrow> sr_mode r = SampleSpans)"

definition keeps_sampling :: "jstring \<Rightarrow> trim_action \<Rightarrow> bool" where
  "keeps_sampling svc a \<longleftrightarrow> a \<noteq> SetTraceMode svc DropSpans
     \<and> (case a of IntegrationsLoaded ints \<Rightarrow> svc \<in> fst ` set (feeds_of ints) | _ \<Rightarrow> True)"

lemma trim_step_sampled_only: "sampled_only svc s \<Longrightarrow> keeps_sampling svc a \<Longrightarrow> sampled_only svc (trim_step s a)"
  by (cases a)
     (auto simp: sampled_only_def keeps_sampling_def toggleTraceRule_def setTraceMode_def map_of_eq_None_iff
        split: if_splits; force intro: span_mode.exhaust)+

lemma sampled_only_run:
  "sampled_only svc s \<Longrightarrow> list_all (keeps_sampling svc) as \<Longrightarrow> sampled_only svc (foldl trim_step s as)"
  by (induction as arbitrary: s) (simp_all add: trim_step_sampled_only)

section \<open>Suggestions\<close>

definition separator :: "nat \<Rightarrow> bool" where
  "separator c \<longleftrightarrow> c \<in> set (js ''._:-'')"

text \<open>The prefixes of a name that end at a separator, but for its first and last character.\<close>

definition bounded_prefixes :: "jstring \<Rightarrow> jstring list" where
  "bounded_prefixes nm = map (\<lambda>i. take (Suc i) nm) (filter (\<lambda>i. separator (nm ! i)) [1..<length nm - 1])"

definition count_up :: "(jstring \<times> nat) list \<Rightarrow> jstring \<Rightarrow> (jstring \<times> nat) list" where
  "count_up counts p = AList.update p (coalesce (map_of counts p) 0 + 1) counts"

definition prefix_counts :: "jstring list \<Rightarrow> (jstring \<times> nat) list" where
  "prefix_counts names = foldl count_up [] (concat (map bounded_prefixes names))"

definition prefix_candidates :: "jstring list \<Rightarrow> jstring list \<Rightarrow> (jstring \<times> nat) list" where
  "prefix_candidates names active =
     filter (\<lambda>e. \<not> list_ex (starts_with (fst e)) active)
       (filter (\<lambda>e. 3 \<le> snd e \<and> 3 \<le> length (fst e)) (prefix_counts names))"

definition suggestPrefixes :: "jstring list \<Rightarrow> jstring list \<Rightarrow> (jstring \<times> nat) list" where
  "suggestPrefixes names active =
     (let cands = prefix_candidates names active;
          specific = filter (\<lambda>c. \<not> list_ex (\<lambda>o'. o' \<noteq> c \<and> starts_with (fst o') (fst c) \<and> snd c \<le> snd o') cands) cands
      in take 3 (js_sort (cmp_then (cmp_desc (\<lambda>c. int (snd c))) (cmp_desc (\<lambda>c. int (length (fst c))))) specific))"

lemma foldl_count_up:
  "distinct (map fst m) \<Longrightarrow>
     distinct (map fst (foldl count_up m ps)) \<and>
     map_of (foldl count_up m ps) p
       = (if p \<in> set ps \<or> map_of m p \<noteq> None then Some (coalesce (map_of m p) 0 + count_list ps p) else None)"
proof (induction ps arbitrary: m)
  case Nil
  then show ?case by (cases "map_of m p") simp_all
next
  case (Cons q ps)
  have "distinct (map fst (count_up m q))" using Cons.prems by (simp add: count_up_def distinct_update)
  from Cons.IH [OF this] show ?case by (auto simp: count_up_def update_conv')
qed

lemma prefix_counts_map:
  "map_of (prefix_counts names) p
     = (let n = count_list (concat (map bounded_prefixes names)) p in if n = 0 then None else Some n)"
  "distinct (map fst (prefix_counts names))"
  using foldl_count_up [of "[]" "concat (map bounded_prefixes names)" p]
  by (auto simp: prefix_counts_def Let_def count_list_0_iff)

lemma distinct_bounded_prefixes: "distinct (bounded_prefixes nm)"
proof -
  have "inj_on (\<lambda>i. take (Suc i) nm) (set (filter (\<lambda>i. separator (nm ! i)) [1..<length nm - 1]))"
    by (intro inj_onI) (drule arg_cong [of _ _ length], auto)
  then show ?thesis by (simp add: bounded_prefixes_def distinct_map)
qed

definition bounded :: "jstring \<Rightarrow> bool" where
  "bounded p \<longleftrightarrow> 2 \<le> length p \<and> separator (last p)"

lemma set_bounded_prefixes: "p \<in> set (bounded_prefixes nm) \<longleftrightarrow> bounded p \<and> strict_prefix p nm"
proof
  assume "p \<in> set (bounded_prefixes nm)"
  then obtain i where i: "1 \<le> i" "i < length nm - 1" "separator (nm ! i)" "p = take (Suc i) nm"
    by (auto simp: bounded_prefixes_def)
  have "last p = nm ! i" using i by (simp add: take_Suc_conv_app_nth)
  moreover have "strict_prefix p nm"
    using i by (auto simp: strict_prefix_def take_is_prefix dest: arg_cong [of _ _ length])
  ultimately show "bounded p \<and> strict_prefix p nm" using i by (simp add: bounded_def)
next
  assume a: "bounded p \<and> strict_prefix p nm"
  then obtain r where r: "nm = p @ r" "r \<noteq> []" by (auto simp: strict_prefix_def prefix_def)
  define i where "i = length p - 1"
  have "0 < length r" using r by simp
  then have p: "p \<noteq> []" "1 \<le> i" "i < length nm - 1" using a r(1) unfolding bounded_def i_def by (auto, linarith)
  moreover have "take (Suc i) nm = p" using p r by (simp add: i_def)
  moreover have "nm ! i = last p" using p(1) r by (simp add: i_def nth_append last_conv_nth)
  ultimately show "p \<in> set (bounded_prefixes nm)"
    using a by (auto simp: bounded_prefixes_def bounded_def intro!: image_eqI [of _ _ i])
qed

lemma count_list_distinct: "distinct xs \<Longrightarrow> count_list xs x = (if x \<in> set xs then 1 else 0)"
  by (induction xs) auto

lemma prefix_count:
  "count_list (concat (map bounded_prefixes names)) p
     = (if bounded p then length (filter (strict_prefix p) names) else 0)"
proof (induction names)
  case (Cons nm names)
  have "count_list (bounded_prefixes nm) p = (if bounded p \<and> strict_prefix p nm then 1 else 0)"
    using distinct_bounded_prefixes [of nm] set_bounded_prefixes [of p nm]
    by (simp add: count_list_distinct)
  then show ?case using Cons by simp
qed simp

lemma set_candidates:
  "(p, n) \<in> set (prefix_candidates names active) \<longleftrightarrow>
     bounded p \<and> 3 \<le> length p \<and> n = length (filter (strict_prefix p) names) \<and> 3 \<le> n \<and> \<not> covered active p"
proof -
  have "(p, n) \<in> set (prefix_counts names) \<longleftrightarrow> map_of (prefix_counts names) p = Some n"
    using prefix_counts_map(2) by simp
  then show ?thesis
    by (auto simp: prefix_candidates_def prefix_counts_map(1) Let_def prefix_count covered_def)
qed

lemma longest_exists:
  assumes "x \<in> set xs"
  shows "\<exists>y \<in> set xs. \<forall>z \<in> set xs. length (fst z) \<le> length (fst y)"
proof -
  let ?L = "(\<lambda>e. length (fst e)) ` set xs"
  have "Max ?L \<in> ?L" using assms by (intro Max_in) auto
  moreover have "length (fst z) \<le> Max ?L" if "z \<in> set xs" for z using that by simp
  ultimately show ?thesis by (metis (no_types, lifting) imageE)
qed

text \<open>A suggested prefix is one the user would otherwise write rules for by hand.  At most three are
  suggested, none twice; each ends at a separator, has at least three characters, is not covered by an
  active prefix rule, and the count shown with it is the number of selected metrics it is a proper prefix
  of, at least three; and as long as some prefix is like that, one is suggested.\<close>

theorem suggestions_collapse_selected_metrics:
  "length (suggestPrefixes names active) \<le> 3 \<and> distinct (map fst (suggestPrefixes names active))
   \<and> (\<forall>p n. (p, n) \<in> set (suggestPrefixes names active) \<longrightarrow>
        separator (last p) \<and> 3 \<le> length p \<and> \<not> covered active p
        \<and> n = length (filter (strict_prefix p) names) \<and> 3 \<le> n)
   \<and> (suggestPrefixes names active = [] \<longleftrightarrow>
        \<not> (\<exists>p. separator (last p) \<and> 3 \<le> length p \<and> \<not> covered active p
             \<and> 3 \<le> length (filter (strict_prefix p) names)))"
proof -
  define cands where "cands = prefix_candidates names active"
  define P where "P c \<longleftrightarrow> \<not> list_ex (\<lambda>o'. o' \<noteq> c \<and> starts_with (fst o') (fst c) \<and> snd c \<le> snd o') cands" for c
  define cmp where "cmp = cmp_then (cmp_desc (\<lambda>c. int (snd c))) (cmp_desc (\<lambda>c :: jstring \<times> nat. int (length (fst c))))"
  have s: "suggestPrefixes names active = take 3 (js_sort cmp (filter P cands))"
    by (simp add: suggestPrefixes_def Let_def cands_def P_def [abs_def] cmp_def)
  have sub: "set (suggestPrefixes names active) \<subseteq> set cands" unfolding s by (auto dest: in_set_takeD)
  have "distinct (map fst cands)"
    by (simp add: cands_def prefix_candidates_def distinct_map_filter_key prefix_counts_map(2))
  then have "distinct (map fst (js_sort cmp (filter P cands)))"
    using distinct_map_filter_key [of fst cands P] by (simp add: distinct_map)
  then have d: "distinct (map fst (suggestPrefixes names active))" unfolding s by (simp add: take_map [symmetric] distinct_take)
  have "\<exists>c \<in> set cands. P c" if ne: "cands \<noteq> []"
  proof -
    obtain y where y: "y \<in> set cands" "\<forall>z \<in> set cands. length (fst z) \<le> length (fst y)"
      using longest_exists [OF last_in_set [OF ne]] by blast
    have "z = y" if z: "z \<in> set cands" "starts_with (fst z) (fst y)" for z
    proof -
      have "fst z = fst y"
        using z(2) y(2) z(1) by (auto simp: starts_with_def prefix_def)
      moreover have "inj_on fst (set cands)" using \<open>distinct (map fst cands)\<close> by (simp add: distinct_map)
      ultimately show "z = y" using z(1) y(1) by (blast dest: inj_onD)
    qed
    then have "P y" unfolding P_def list_ex_iff by blast
    then show ?thesis using y(1) by blast
  qed
  then have "suggestPrefixes names active = [] \<longleftrightarrow> cands = []"
    unfolding s by (auto simp: filter_empty_conv)
  moreover have "cands = [] \<longleftrightarrow> (\<nexists>p n. (p, n) \<in> set cands)" by (cases cands) auto
  ultimately have e: "suggestPrefixes names active = [] \<longleftrightarrow>
        \<not> (\<exists>p. separator (last p) \<and> 3 \<le> length p \<and> \<not> covered active p
             \<and> 3 \<le> length (filter (strict_prefix p) names))"
    unfolding cands_def set_candidates bounded_def by auto
  have "separator (last p) \<and> 3 \<le> length p \<and> \<not> covered active p \<and> n = length (filter (strict_prefix p) names) \<and> 3 \<le> n"
    if "(p, n) \<in> set (suggestPrefixes names active)" for p n
    using that sub set_candidates [of p n names active] unfolding cands_def bounded_def by blast
  then show ?thesis using d e by (intro conjI allI impI) (auto simp: s)
qed

theorem suggestions_collapse_selected_metrics_ex:
  "suggestPrefixes (map js [''rabbitmq.node.cpu'', ''rabbitmq.node.mem'', ''rabbitmq.node.disk'', ''up'']) [] = [(js ''rabbitmq.node.'', 3)]
   \<and> separator (last (js ''rabbitmq.node.''))"
proof -
  let ?n = "map js [''rabbitmq.node.cpu'', ''rabbitmq.node.mem'', ''rabbitmq.node.disk'', ''up'']"
  have s: "suggestPrefixes ?n [] = [(js ''rabbitmq.node.'', 3)]" by code_simp
  then have "(js ''rabbitmq.node.'', 3) \<in> set (suggestPrefixes ?n [])" by simp
  then show ?thesis using s suggestions_collapse_selected_metrics [of ?n "[]"] by blast
qed

section \<open>What the panel's configuration drops\<close>


definition demo_panel :: trim_panel where
  "demo_panel = foldl trim_step open_panel
     [ToggleMetric (js ''up''), AddPrefix (js ''a.b''), AddAttrRule (js ''up'') (js ''k'') (js ''v''), ToggleLogRule (js ''api''),
      IntegrationsLoaded (Some [(js ''Orders'', [js ''shop''])]), ToggleTraceRule (js ''shop''), ToggleTraceRule (js ''noisy'')]"

lemma demo_panel_plain: "panel_plain demo_panel" "10 \<notin> set (js ''P'')"
  by code_simp+




text \<open>Toggled before the list is there, or after it failed to load, such a service is dropped, and stays so.\<close>

lemma early_toggle_drops:
  "map (\<lambda>r. (sr_service r, sr_mode r)) (tp_trace_rules (foldl trim_step open_panel
     [ToggleTraceRule (js ''shop''), IntegrationsLoaded (Some [(js ''Orders'', [js ''shop''])])])) = [(js ''shop'', DropSpans)]"
  "map (\<lambda>r. (sr_service r, sr_mode r)) (tp_trace_rules (foldl trim_step open_panel
     [IntegrationsLoaded None, ToggleTraceRule (js ''shop'')])) = [(js ''shop'', DropSpans)]"
  by code_simp+

text \<open>An apostrophe ends the YAML scalar early: the item of such a name is not the condition.\<close>

lemma apostrophe_breaks_the_item: "39 \<in> set nm \<Longrightarrow> item_body (item (name_condition nm)) = None"
proof -
  assume "39 \<in> set nm"
  then have "39 \<in> set (esc nm)" by (auto simp: esc_def intro!: bexI [of _ 39])
  then show ?thesis by (simp add: item_body_def item_def name_condition_def js_def starts_with_def butlast_append)
qed

end
