(* ===== verification/TrimPanels.thy ===== *)
theory TrimPanels
  imports Trim ApiTypes
begin

text \<open>
  The two trim panels that start from one thing on screen: the spans of a trace, by service and span
  name (\<open>components/traces/TraceTrimPanel.tsx\<close>), and a log record, by the conditions it satisfies
  (\<open>components/logs/LogTrimPanel.tsx\<close>).  The generated text and its reader are those of \<open>Trim\<close>.
\<close>

section \<open>Spans of a trace\<close>

record span_group =
  sg_service :: jstring
  sg_name :: jstring
  sg_kind :: jstring
  sg_count :: nat

text \<open>The separator of the template literal is a NUL character.\<close>

definition groupKey :: "jstring \<Rightarrow> jstring \<Rightarrow> jstring" where
  "groupKey service name = service @ [0] @ name"

definition span_key :: "span_summary \<Rightarrow> jstring" where
  "span_key s = groupKey (ss_service_name s) (ss_span_name s)"

definition count_span :: "(jstring \<times> span_group) list \<Rightarrow> span_summary \<Rightarrow> (jstring \<times> span_group) list" where
  "count_span m s =
     (let g = coalesce (map_of m (span_key s))
        \<lparr>sg_service = ss_service_name s, sg_name = ss_span_name s, sg_kind = ss_span_kind s, sg_count = 0\<rparr>
      in AList.update (span_key s) (g\<lparr>sg_count := sg_count g + 1\<rparr>) m)"

definition span_groups :: "(jstring \<Rightarrow> jstring \<Rightarrow> int) \<Rightarrow> span_summary list \<Rightarrow> span_group list" where
  "span_groups coll spans =
     js_sort (cmp_then (cmp_on sg_service coll) (cmp_on sg_name coll)) (map_values (foldl count_span [] spans))"

definition visible_groups :: "(jstring \<Rightarrow> jstring) \<Rightarrow> span_group list \<Rightarrow> jstring \<Rightarrow> span_group list" where
  "visible_groups uni groups filt =
     (let q = to_lower uni (trim filt) in
      if q = [] then groups
      else filter (\<lambda>g. str_includes (to_lower uni (sg_name g)) q \<or> str_includes (to_lower uni (sg_service g)) q) groups)"

definition selected_groups :: "span_group list \<Rightarrow> jstring list \<Rightarrow> span_group list" where
  "selected_groups groups excluded = filter (\<lambda>g. groupKey (sg_service g) (sg_name g) \<in> set excluded) groups"

definition exclude_shown :: "span_group list \<Rightarrow> jstring list \<Rightarrow> jstring list" where
  "exclude_shown visible excluded = dedupe (excluded @ map (\<lambda>g. groupKey (sg_service g) (sg_name g)) visible)"

definition group_condition :: "span_group \<Rightarrow> jstring" where
  "group_condition g =
     js ''name == \"'' @ esc (sg_name g) @ js ''\" and resource.attributes[\"service.name\"] == \"'' @ esc (sg_service g) @ js ''\"''"

definition traces_lines :: "span_group list \<Rightarrow> jstring list" where
  "traces_lines groups =
     [js ''# Drop these spans at your OpenTelemetry Collector, before they'',
      js ''# reach Sluicio. Conditions that match are dropped.'',
      js ''processors:'',
      js ''  filter/sluicio-exclude:'',
      js ''    error_mode: ignore'',
      js ''    traces:'',
      js ''      span:'']
     @ map (item \<circ> group_condition) groups
     @ [[],
      js ''service:'',
      js ''  pipelines:'',
      js ''    traces:'',
      js ''      # add the processor alongside your existing ones, before the'',
      js ''      # exporter that sends to Sluicio'',
      js ''      processors: [filter/sluicio-exclude]'']"

definition buildTracesConfig :: "span_group list \<Rightarrow> jstring" where
  "buildTracesConfig groups =
     (if groups = [] then js ''# Select spans on the left to generate a collector config'' @ [ellipsis]
      else join [10] (traces_lines groups))"

text \<open>Reading it: an item names a span and its service.\<close>

definition item_drops_named :: "jstring \<Rightarrow> jstring \<Rightarrow> jstring \<times> jstring list \<Rightarrow> bool" where
  "item_drops_named svc nm i \<longleftrightarrow> fst i = js ''      span:''
     \<and> snd i = [js ''name == '', nm, js '' and resource.attributes['', js ''service.name'', js ''] == '', svc, []]"

definition drops_named_span :: "jstring \<Rightarrow> span_summary \<Rightarrow> bool" where
  "drops_named_span config s \<longleftrightarrow> list_ex (item_drops_named (ss_service_name s) (ss_span_name s)) (items_of config)"

lemma groupKey_inject:
  assumes "0 \<notin> set a" "0 \<notin> set b"
  shows "groupKey a x = groupKey b y \<longleftrightarrow> a = b \<and> x = y"
proof -
  have "length a = length b" if "groupKey a x = groupKey b y"
    using arg_cong [OF that, of "index_of 0"] index_of_Some_append [OF assms(1), of x] index_of_Some_append [OF assms(2), of y]
    by (simp add: groupKey_def)
  then show ?thesis by (auto simp: groupKey_def)
qed

lemma count_span_keys: "set (map fst (count_span m s)) = insert (span_key s) (set (map fst m))"
  unfolding count_span_def Let_def keys_update by auto

lemma count_span_distinct: "distinct (map fst m) \<Longrightarrow> distinct (map fst (count_span m s))"
  by (simp add: count_span_def Let_def distinct_update)

text \<open>What the grouping holds of each key: the names behind it and how many spans have it.\<close>

definition group_ok :: "span_summary list \<Rightarrow> jstring \<Rightarrow> span_group \<Rightarrow> bool" where
  "group_ok spans k g \<longleftrightarrow> groupKey (sg_service g) (sg_name g) = k \<and> sg_count g = length (filter (\<lambda>s. span_key s = k) spans)
     \<and> (\<exists>s \<in> set spans. sg_service g = ss_service_name s \<and> sg_name g = ss_span_name s)"

lemma count_span_ok:
  assumes "\<And>k g. map_of m k = Some g \<Longrightarrow> group_ok spans k g" "set (map fst m) = span_key ` set spans"
    and "map_of (count_span m s) k = Some g"
  shows "group_ok (spans @ [s]) k g"
proof (cases "k = span_key s")
  case False
  then have "map_of m k = Some g" using assms(3) by (simp add: count_span_def Let_def update_conv')
  then show ?thesis using assms(1) [of k g] False by (auto simp: group_ok_def)
next
  case True
  show ?thesis
  proof (cases "map_of m (span_key s)")
    case None
    then have "span_key s \<notin> span_key ` set spans" using assms(2) by (simp add: map_of_eq_None_iff)
    then have "filter (\<lambda>t. span_key t = span_key s) spans = []" unfolding filter_empty_conv by (metis image_eqI)
    then show ?thesis
      using assms(3) True None by (auto simp: group_ok_def count_span_def update_conv' span_key_def)
  next
    case (Some g')
    then show ?thesis using assms(1) [OF Some] assms(3) True by (auto simp: group_ok_def count_span_def update_conv')
  qed
qed

lemma count_spans:
  "distinct (map fst (foldl count_span [] spans)) \<and> set (map fst (foldl count_span [] spans)) = span_key ` set spans
   \<and> (\<forall>k g. map_of (foldl count_span [] spans) k = Some g \<longrightarrow> group_ok spans k g)"
proof (induction spans rule: rev_induct)
  case (snoc s spans)
  let ?m = "foldl count_span [] spans"
  have "group_ok (spans @ [s]) k g" if "map_of (count_span ?m s) k = Some g" for k g
    by (rule count_span_ok [OF _ _ that]) (use snoc in auto)
  moreover have "set (map fst (count_span ?m s)) = span_key ` set (spans @ [s])"
    unfolding count_span_keys using snoc by auto
  moreover have "distinct (map fst (count_span ?m s))" using snoc by (intro count_span_distinct) blast
  ultimately show ?case by simp
qed simp

lemma groups_facts:
  "mset (span_groups coll spans) = mset (map_values (foldl count_span [] spans))"
  "g \<in> set (span_groups coll spans) \<longleftrightarrow> (\<exists>k. map_of (foldl count_span [] spans) k = Some g)"
proof -
  show "mset (span_groups coll spans) = mset (map_values (foldl count_span [] spans))" by (simp add: span_groups_def)
  have "distinct (map fst (foldl count_span [] spans))" using count_spans by blast
  then have "(\<exists>k. map_of (foldl count_span [] spans) k = Some g) \<longleftrightarrow> (\<exists>k. (k, g) \<in> set (foldl count_span [] spans))"
    by simp
  also have "\<dots> \<longleftrightarrow> g \<in> set (map_values (foldl count_span [] spans))" by (force simp: map_values_def)
  finally show "g \<in> set (span_groups coll spans) \<longleftrightarrow> (\<exists>k. map_of (foldl count_span [] spans) k = Some g)"
    by (simp add: span_groups_def)
qed

lemma group_pieces:
  "plain (sg_service g) \<Longrightarrow> plain (sg_name g) \<Longrightarrow>
     split_on 34 (group_condition g)
       = [js ''name == '', sg_name g, js '' and resource.attributes['', js ''service.name'', js ''] == '', sg_service g, []]"
  using split_pieces [of "[js ''name == '', sg_name g, js '' and resource.attributes['', js ''service.name'', js ''] == '', sg_service g, []]" 34]
    plain_units [of "sg_service g"] plain_units [of "sg_name g"]
  by (simp add: group_condition_def esc_plain js_def)

definition group_plain :: "span_group \<Rightarrow> bool" where
  "group_plain g \<longleftrightarrow> plain (sg_service g) \<and> plain (sg_name g)"

lemma group_condition_units: "group_plain g \<Longrightarrow> c \<in> {10, 39} \<Longrightarrow> c \<notin> set (group_condition g)"
  using plain_units [of "sg_service g"] plain_units [of "sg_name g"]
  by (auto simp: group_plain_def group_condition_def esc_plain js_def)

lemma traces_config_reads_back:
  assumes "list_all group_plain gs" "gs \<noteq> []"
  shows "items_of (buildTracesConfig gs) = map (\<lambda>g. (js ''      span:'', split_on 34 (group_condition g))) gs"
proof -
  let ?head = "[js ''# Drop these spans at your OpenTelemetry Collector, before they'',
      js ''# reach Sluicio. Conditions that match are dropped.'', js ''processors:'', js ''  filter/sluicio-exclude:'',
      js ''    error_mode: ignore'', js ''    traces:'', js ''      span:'']"
  let ?tail = "[[], js ''service:'', js ''  pipelines:'', js ''    traces:'',
      js ''      # add the processor alongside your existing ones, before the'', js ''      # exporter that sends to Sluicio'',
      js ''      processors: [filter/sluicio-exclude]'']"
  have l: "traces_lines gs = item_section ?head (map group_condition gs) @ ?tail"
    using assms(2) by (simp add: traces_lines_def item_section_def)
  have "noise ?tail" by (simp add: noise_def item_body_def starts_with_def SECTIONS_def js_def)
  then have t: "settled ?tail" "read_items [] ?tail = []"
    using read_noise [of ?tail _ "[]"] unfolding settled_def by (simp_all del: read_items.simps(2))
  have h: "?head \<noteq> [] \<and> noise (butlast ?head) \<and> last ?head \<in> set SECTIONS"
    by (simp add: noise_def item_body_def starts_with_def SECTIONS_def js_def)
  have q: "list_all (\<lambda>b. c \<notin> set b) (map group_condition gs)" if "c \<in> {10, 39}" for c
    using assms(1) group_condition_units that by (auto simp: list_all_iff)
  have "one_line ?head" "one_line ?tail" by (simp_all add: one_line_def js_def)
  then have "one_line (traces_lines gs)" unfolding l one_line_append by (simp add: one_line_section q)
  moreover have "traces_lines gs \<noteq> []" by (simp add: traces_lines_def)
  ultimately have "split_on 10 (join [10] (traces_lines gs)) = traces_lines gs"
    by (intro split_on_join) (auto simp: one_line_def list_all_iff)
  moreover have q39: "list_all (\<lambda>b. 39 \<notin> set b) (map group_condition gs)" by (rule q) simp
  have "read_items [] (traces_lines gs) = map (\<lambda>b. (last ?head, split_on 34 b)) (map group_condition gs) @ read_items [] ?tail"
    unfolding l by (rule read_section(1) [OF h q39 t(1)])
  ultimately show ?thesis using assms(2) t(2) by (simp add: items_of_def buildTracesConfig_def)
qed


text \<open>The groups of a set of keys hold as many spans as have one of them.\<close>

lemma groups_count:
  "sum_list (map sg_count (filter (\<lambda>g. groupKey (sg_service g) (sg_name g) \<in> E) (span_groups coll spans)))
     = length (filter (\<lambda>s. span_key s \<in> E) spans)"
proof -
  let ?m = "foldl count_span [] spans"
  note c = count_spans [of spans]
  let ?P = "\<lambda>g. groupKey (sg_service g) (sg_name g) \<in> E"
  have ok: "group_ok spans (fst e) (snd e)" if "e \<in> set ?m" for e
    using c that by (metis map_of_eq_Some_iff prod.collapse)
  have "mset (map sg_count (filter ?P (span_groups coll spans))) = mset (map sg_count (filter ?P (map snd ?m)))"
    using groups_facts(1) [of coll spans] by (simp add: map_values_def)
  then have "sum_list (map sg_count (filter ?P (span_groups coll spans))) = sum_list (map sg_count (filter ?P (map snd ?m)))"
    unfolding sum_mset_sum_list [symmetric] by (rule arg_cong)
  also have "\<dots> = sum_list (map (\<lambda>e. sg_count (snd e)) (filter (\<lambda>e. ?P (snd e)) ?m))"
    by (simp add: filter_map comp_def)
  also have "\<dots> = sum_list (map (\<lambda>e. length (filter (\<lambda>s. span_key s = fst e) (filter (\<lambda>s. span_key s \<in> E) spans)))
      (filter (\<lambda>e. ?P (snd e)) ?m))"
  proof (rule arg_cong [of _ _ sum_list], rule map_cong [OF refl])
    fix e assume e: "e \<in> set (filter (\<lambda>e. ?P (snd e)) ?m)"
    then have g: "group_ok spans (fst e) (snd e)" "fst e \<in> E" using ok [of e] by (auto simp: group_ok_def)
    then have "filter (\<lambda>s. span_key s = fst e) (filter (\<lambda>s. span_key s \<in> E) spans) = filter (\<lambda>s. span_key s = fst e) spans"
      by (auto simp: intro!: filter_cong)
    then show "sg_count (snd e) = length (filter (\<lambda>s. span_key s = fst e) (filter (\<lambda>s. span_key s \<in> E) spans))"
      using g by (simp add: group_ok_def)
  qed
  also have "filter (\<lambda>e. ?P (snd e)) ?m = filter (\<lambda>e. fst e \<in> E) ?m"
    using ok by (intro filter_cong) (auto simp: group_ok_def)
  also have "sum_list (map (\<lambda>e. length (filter (\<lambda>s. span_key s = fst e) (filter (\<lambda>s. span_key s \<in> E) spans))) (filter (\<lambda>e. fst e \<in> E) ?m))
     = sum_list (map (\<lambda>k. length (filter (\<lambda>s. span_key s = k) (filter (\<lambda>s. span_key s \<in> E) spans))) (filter (\<lambda>k. k \<in> E) (map fst ?m)))"
    by (simp add: filter_map comp_def)
  also have "\<dots> = length (concat (map (\<lambda>k. filter (\<lambda>s. span_key s = k) (filter (\<lambda>s. span_key s \<in> E) spans)) (filter (\<lambda>k. k \<in> E) (map fst ?m))))"
    by (simp add: length_concat comp_def)
  also have "\<dots> = length (filter (\<lambda>s. span_key s \<in> E) spans)"
  proof -
    have "distinct (filter (\<lambda>k. k \<in> E) (map fst ?m))" using c by simp
    moreover have "span_key ` set (filter (\<lambda>s. span_key s \<in> E) spans) \<subseteq> set (filter (\<lambda>k. k \<in> E) (map fst ?m))" using c by auto
    ultimately show ?thesis using mset_concat_filter_keys by (metis size_mset)
  qed
  finally show ?thesis .
qed

definition span_plain :: "span_summary \<Rightarrow> bool" where
  "span_plain s \<longleftrightarrow> plain (ss_service_name s) \<and> plain (ss_span_name s) \<and> 0 \<notin> set (ss_service_name s)"

text \<open>The trace panel's configuration drops exactly the spans of the trace whose kind, by service and
  span name, is ticked, and the counts it shows are true: those of the ticked kinds add up to the
  spans dropped, those of all kinds to the spans of the trace.  This holds for names without quotes,
  backslashes, newlines and NULs.\<close>

theorem traces_config_drops_the_ticked_kinds:
  assumes "list_all span_plain spans"
  shows "filter (drops_named_span (buildTracesConfig (selected_groups (span_groups coll spans) excluded))) spans
       = filter (\<lambda>s. span_key s \<in> set excluded) spans
    \<and> sum_list (map sg_count (selected_groups (span_groups coll spans) excluded))
       = length (filter (\<lambda>s. span_key s \<in> set excluded) spans)
    \<and> sum_list (map sg_count (span_groups coll spans)) = length spans"
proof -
  let ?sel = "selected_groups (span_groups coll spans) excluded"
  have g: "group_ok spans (groupKey (sg_service g) (sg_name g)) g" if "g \<in> set (span_groups coll spans)" for g
    using that count_spans [of spans] unfolding groups_facts(2) group_ok_def by blast
  have plain: "group_plain g \<and> 0 \<notin> set (sg_service g)" if "g \<in> set (span_groups coll spans)" for g
    using g [OF that] assms by (auto simp: group_ok_def group_plain_def span_plain_def list_all_iff)
  then have pl: "list_all group_plain ?sel" by (auto simp: selected_groups_def list_all_iff)
  have drops: "drops_named_span (buildTracesConfig ?sel) s \<longleftrightarrow> span_key s \<in> set excluded" if s: "s \<in> set spans" for s
  proof (cases "?sel = []")
    case True
    have "items_of (buildTracesConfig []) = []" by (simp add: buildTracesConfig_def items_of_def) code_simp
    moreover have "\<exists>g \<in> set (span_groups coll spans). groupKey (sg_service g) (sg_name g) = span_key s"
      using s count_spans [of spans] groups_facts(2) [of _ coll spans] unfolding group_ok_def
      by (metis (no_types, lifting) imageI map_of_eq_None_iff not_Some_eq set_map)
    ultimately show ?thesis using True by (auto simp: drops_named_span_def selected_groups_def filter_empty_conv)
  next
    case False
    have "drops_named_span (buildTracesConfig ?sel) s
        \<longleftrightarrow> (\<exists>g \<in> set ?sel. sg_service g = ss_service_name s \<and> sg_name g = ss_span_name s)"
      unfolding drops_named_span_def traces_config_reads_back [OF pl False] list_ex_map_pair
      using pl by (auto simp: item_drops_named_def list_ex_iff list_all_iff group_plain_def group_pieces)
    also have "\<dots> \<longleftrightarrow> (\<exists>g \<in> set ?sel. groupKey (sg_service g) (sg_name g) = span_key s)"
      using plain assms s by (auto simp: span_key_def groupKey_inject span_plain_def list_all_iff selected_groups_def)
    also have "\<dots> \<longleftrightarrow> span_key s \<in> set excluded"
    proof
      assume e: "span_key s \<in> set excluded"
      obtain g where "g \<in> set (span_groups coll spans)" "groupKey (sg_service g) (sg_name g) = span_key s"
        using s count_spans [of spans] groups_facts(2) [of _ coll spans] unfolding group_ok_def
        by (metis (no_types, lifting) imageI map_of_eq_None_iff not_Some_eq set_map)
      then show "\<exists>g \<in> set ?sel. groupKey (sg_service g) (sg_name g) = span_key s"
        using e by (auto simp: selected_groups_def)
    qed (auto simp: selected_groups_def)
    finally show ?thesis .
  qed
  have "filter (drops_named_span (buildTracesConfig ?sel)) spans = filter (\<lambda>s. span_key s \<in> set excluded) spans"
    by (rule filter_cong [OF refl drops])
  moreover have "sum_list (map sg_count ?sel) = length (filter (\<lambda>s. span_key s \<in> set excluded) spans)"
    unfolding selected_groups_def by (rule groups_count)
  moreover have "sum_list (map sg_count (span_groups coll spans)) = length spans"
    using groups_count [of UNIV coll spans] by simp
  ultimately show ?thesis by blast
qed

definition demo_trace :: "span_summary list" where
  "demo_trace = [plain_span (js ''1'') None (js ''api'') (js ''GET /'') [] 1, plain_span (js ''2'') None (js ''db'') (js ''select'') [] 1,
     plain_span (js ''3'') None (js ''db'') (js ''select'') [] 1]"

theorem traces_config_drops_the_ticked_kinds_ex:
  "map ss_span_id (filter (drops_named_span (buildTracesConfig (selected_groups (span_groups unit_compare demo_trace)
     [groupKey (js ''db'') (js ''select'')]))) demo_trace) = [js ''2'', js ''3'']"
proof -
  have p: "list_all span_plain demo_trace" by code_simp
  have k: "map ss_span_id (filter (\<lambda>s. span_key s \<in> set [groupKey (js ''db'') (js ''select'')]) demo_trace) = [js ''2'', js ''3'']"
    by code_simp
  show ?thesis
    using traces_config_drops_the_ticked_kinds [OF p, of unit_compare "[groupKey (js ''db'') (js ''select'')]"] k by metis
qed

section \<open>A log record\<close>

text \<open>Of a log entry, what the panel reads.\<close>

record trim_log =
  tl_severity :: int
  tl_service :: jstring
  tl_body :: "jstring option"
  tl_log_attributes :: "(jstring \<times> jstring) list option"
  tl_resource_attributes :: "(jstring \<times> jstring) list option"

datatype attr_scope = InLog | InResource

record attr_choice =
  ac_scope :: attr_scope
  ac_key :: jstring
  ac_value :: jstring

record log_trim =
  lt_service :: bool
  lt_severity :: bool
  lt_body :: bool
  lt_body_text :: jstring
  lt_attrs :: "jstring list"

definition open_log_trim :: "trim_log \<Rightarrow> log_trim" where
  "open_log_trim l = \<lparr>lt_service = True, lt_severity = False, lt_body = False, lt_body_text = coalesce (tl_body l) [], lt_attrs = []\<rparr>"

definition attrChoices :: "trim_log \<Rightarrow> attr_choice list" where
  "attrChoices l =
     map (\<lambda>(k, v). \<lparr>ac_scope = InLog, ac_key = k, ac_value = v\<rparr>) (coalesce (tl_log_attributes l) [])
     @ map (\<lambda>(k, v). \<lparr>ac_scope = InResource, ac_key = k, ac_value = v\<rparr>)
         (filter (\<lambda>(k, v). k \<noteq> js ''service.name'') (coalesce (tl_resource_attributes l) []))"

definition choice_id :: "attr_choice \<Rightarrow> jstring" where
  "choice_id a = (case ac_scope a of InLog \<Rightarrow> js ''log'' | InResource \<Rightarrow> js ''resource'') @ js '':'' @ ac_key a"

text \<open>\<open>.replace(/[.*+?^${}()|[\]\\]/g, "\\$&").replace(/"/g, '\\"')\<close>\<close>

definition escape_pattern :: "jstring \<Rightarrow> jstring" where
  "escape_pattern s = esc (escapeRe s)"

text \<open>The conditions, and their text.\<close>

datatype drop_condition =
    OfService jstring | SeverityAtMost int | BodyMatches jstring | HasLogAttr jstring jstring | HasResourceAttr jstring jstring

fun condition_text :: "drop_condition \<Rightarrow> jstring" where
  "condition_text (OfService s) = js ''resource.attributes[\"service.name\"] == \"'' @ esc s @ js ''\"''"
| "condition_text (SeverityAtMost n) = js ''severity_number <= '' @ show_int n"
| "condition_text (BodyMatches p) = js ''IsMatch(body, \"'' @ p @ js ''\")''"
| "condition_text (HasLogAttr k v) = js ''attributes[\"'' @ esc k @ js ''\"] == \"'' @ esc v @ js ''\"''"
| "condition_text (HasResourceAttr k v) = js ''resource.attributes[\"'' @ esc k @ js ''\"] == \"'' @ esc v @ js ''\"''"

definition attr_condition :: "attr_choice \<Rightarrow> drop_condition" where
  "attr_condition a =
     (case ac_scope a of InLog \<Rightarrow> HasLogAttr (ac_key a) (ac_value a) | InResource \<Rightarrow> HasResourceAttr (ac_key a) (ac_value a))"

definition log_conditions :: "trim_log \<Rightarrow> log_trim \<Rightarrow> drop_condition list" where
  "log_conditions l s =
     (if lt_service s \<and> tl_service l \<noteq> [] then [OfService (tl_service l)] else [])
     @ (if lt_severity s then [SeverityAtMost (tl_severity l)] else [])
     @ (if lt_body s \<and> trim (lt_body_text s) \<noteq> [] then [BodyMatches (escape_pattern (trim (lt_body_text s)))] else [])
     @ map attr_condition (filter (\<lambda>a. choice_id a \<in> set (lt_attrs s)) (attrChoices l))"

definition buildLogsConfig :: "jstring list \<Rightarrow> jstring \<Rightarrow> jstring" where
  "buildLogsConfig conditions product =
     (if conditions = [] then js ''# Toggle conditions on the left to generate a collector config'' @ [ellipsis]
      else join [10]
        [js ''# Drop logs matching this rule at your OpenTelemetry Collector,'',
         js ''# before they reach '' @ product @ js ''. Records matching the condition are dropped.'',
         js ''processors:'',
         js ''  filter/sluicio-exclude:'',
         js ''    error_mode: ignore'',
         js ''    logs:'',
         js ''      log_record:'',
         item (join (js '' and '') conditions),
         [],
         js ''service:'',
         js ''  pipelines:'',
         js ''    logs:'',
         js ''      # add the processor alongside your existing ones, before the'',
         js ''      # exporter that sends to '' @ product,
         js ''      processors: [filter/sluicio-exclude]''])"

definition log_trim_config :: "trim_log \<Rightarrow> jstring \<Rightarrow> log_trim \<Rightarrow> jstring" where
  "log_trim_config l product s = buildLogsConfig (map condition_text (log_conditions l s)) product"

text \<open>Which records satisfy a condition; a pattern matches anywhere in the body.\<close>

fun condition_holds :: "trim_log \<Rightarrow> drop_condition \<Rightarrow> bool" where
  "condition_holds l (OfService s) = (tl_service l = s)"
| "condition_holds l (SeverityAtMost n) = (tl_severity l \<le> n)"
| "condition_holds l (BodyMatches p) = (case read_literal p of Some t \<Rightarrow> str_includes (coalesce (tl_body l) []) t | None \<Rightarrow> False)"
| "condition_holds l (HasLogAttr k v) = (map_of (coalesce (tl_log_attributes l) []) k = Some v)"
| "condition_holds l (HasResourceAttr k v) = (map_of (coalesce (tl_resource_attributes l) []) k = Some v)"

text \<open>What the panel does to its state.\<close>

datatype log_trim_action = TickService bool | TickSeverity bool | TickBody bool | FocusBody | EditBody jstring | TickAttr jstring

fun log_trim_step :: "log_trim \<Rightarrow> log_trim_action \<Rightarrow> log_trim" where
  "log_trim_step s (TickService b) = s\<lparr>lt_service := b\<rparr>"
| "log_trim_step s (TickSeverity b) = s\<lparr>lt_severity := b\<rparr>"
| "log_trim_step s (TickBody b) = s\<lparr>lt_body := b\<rparr>"
| "log_trim_step s FocusBody = s\<lparr>lt_body := True\<rparr>"
| "log_trim_step s (EditBody t) = s\<lparr>lt_body_text := t\<rparr>"
| "log_trim_step s (TickAttr i) = s\<lparr>lt_attrs := set_flip (lt_attrs s) i\<rparr>"

lemma read_literal_pattern: "read_literal (escape_pattern p) = Some p"
proof (induction p)
  case Nil
  show ?case by (simp add: escape_pattern_def escapeRe_def esc_def)
next
  case (Cons c p)
  have "escape_pattern (c # p) = (if re_special c then [92, c] else if c = 34 then [92, 34] else [c]) @ escape_pattern p"
  proof -
    have "\<not> re_special 34" by (simp add: re_special_def js_def)
    then show ?thesis by (auto simp: escape_pattern_def escapeRe_def esc_def)
  qed
  moreover have "c = 92 \<Longrightarrow> re_special c" by (simp add: re_special_def)
  ultimately show ?case using Cons by auto
qed

lemma trim_sublist: "sublist (trim s) s"
proof -
  have "suffix (trim_start s) s" by (simp add: trim_start_def suffix_dropWhile)
  moreover have "prefix (trim_end t) t" for t
    using suffix_dropWhile [of is_space "rev t"] by (simp add: trim_end_def suffix_to_prefix)
  ultimately show ?thesis unfolding trim_def
    by (meson prefix_imp_sublist sublist_order.order.trans suffix_imp_sublist)
qed

definition snippet_of :: "trim_log \<Rightarrow> log_trim \<Rightarrow> bool" where
  "snippet_of l s \<longleftrightarrow> str_includes (coalesce (tl_body l) []) (trim (lt_body_text s))"

lemma snippet_kept:
  "snippet_of l s \<Longrightarrow> list_all (\<lambda>a. case a of EditBody t \<Rightarrow> str_includes (coalesce (tl_body l) []) (trim t) | _ \<Rightarrow> True) clicks \<Longrightarrow>
     snippet_of l (foldl log_trim_step s clicks)"
proof (induction clicks arbitrary: s)
  case (Cons a clicks)
  have "snippet_of l (log_trim_step s a)" using Cons.prems by (cases a) (simp_all add: snippet_of_def)
  then show ?case using Cons by simp
qed simp

lemma attr_conditions_hold:
  assumes "distinct (map fst (coalesce (tl_log_attributes l) []))" "distinct (map fst (coalesce (tl_resource_attributes l) []))"
    and "a \<in> set (attrChoices l)"
  shows "condition_holds l (attr_condition a)"
  using assms by (auto simp: attrChoices_def attr_condition_def)

lemma rule_matches:
  assumes "distinct (map fst (coalesce (tl_log_attributes l) []))" "distinct (map fst (coalesce (tl_resource_attributes l) []))"
    and "snippet_of l s"
  shows "list_all (condition_holds l) (log_conditions l s)"
proof -
  have "list_all (condition_holds l) (map attr_condition (filter (\<lambda>a. choice_id a \<in> set (lt_attrs s)) (attrChoices l)))"
    using attr_conditions_hold [OF assms(1,2)] by (auto simp: list_all_iff)
  then show ?thesis
    using assms(3) by (simp add: log_conditions_def snippet_of_def read_literal_pattern)
qed

text \<open>A drop rule built from a log record matches that record.  Whatever boxes are ticked, and
  however the body text is cut down to a part of the record's body, every condition of the rule
  holds of the record the panel was opened on; in particular the escaped body text is matched literally,
  with no character of it read as a pattern.\<close>

theorem trim_rule_matches_its_record:
  assumes "distinct (map fst (coalesce (tl_log_attributes l) []))" "distinct (map fst (coalesce (tl_resource_attributes l) []))"
    and "list_all (\<lambda>a. case a of EditBody t \<Rightarrow> str_includes (coalesce (tl_body l) []) (trim t) | _ \<Rightarrow> True) clicks"
  shows "list_all (condition_holds l) (log_conditions l (foldl log_trim_step (open_log_trim l) clicks))"
proof (rule rule_matches [OF assms(1,2) snippet_kept [OF _ assms(3)]])
  show "snippet_of l (open_log_trim l)" by (simp add: snippet_of_def open_log_trim_def str_includes_def trim_sublist)
qed

definition demo_log :: trim_log where
  "demo_log = \<lparr>tl_severity = 9, tl_service = js ''api'', tl_body = Some (js '' took 3.5s (cached)''),
     tl_log_attributes = Some [(js ''http.route'', js ''/a'')], tl_resource_attributes = Some [(js ''service.name'', js ''api''), (js ''host'', js ''h'')]\<rparr>"

theorem trim_rule_matches_its_record_ex:
  "list_all (condition_holds demo_log)
     [OfService (js ''api''), SeverityAtMost 9, BodyMatches (js ''3'' @ [92] @ js ''.5s''), HasLogAttr (js ''http.route'') (js ''/a'')]"
proof -
  let ?clicks = "[TickSeverity True, FocusBody, EditBody (js ''3.5s ''), TickAttr (js ''log:http.route'')]"
  have c: "log_conditions demo_log (foldl log_trim_step (open_log_trim demo_log) ?clicks)
     = [OfService (js ''api''), SeverityAtMost 9, BodyMatches (js ''3'' @ [92] @ js ''.5s''), HasLogAttr (js ''http.route'') (js ''/a'')]"
    by code_simp
  have "distinct (map fst (coalesce (tl_log_attributes demo_log) []))" "distinct (map fst (coalesce (tl_resource_attributes demo_log) []))"
    "list_all (\<lambda>a. case a of EditBody t \<Rightarrow> str_includes (coalesce (tl_body demo_log) []) (trim t) | _ \<Rightarrow> True) ?clicks"
    by code_simp+
  from trim_rule_matches_its_record [OF this] show ?thesis unfolding c .
qed

text \<open>The field is labelled a regular expression, and what is typed there is matched literally.\<close>

lemma body_patterns_are_literal:
  "log_conditions l (s\<lparr>lt_service := False, lt_severity := False, lt_body := True, lt_body_text := js ''time.*out'', lt_attrs := []\<rparr>)
     = [BodyMatches (escape_pattern (js ''time.*out''))]"
  "condition_holds l (BodyMatches (escape_pattern (js ''time.*out''))) \<longleftrightarrow> str_includes (coalesce (tl_body l) []) (js ''time.*out'')"
proof -
  have t: "trim (js ''time.*out'') = js ''time.*out''" "js ''time.*out'' \<noteq> []" by code_simp+
  show "log_conditions l (s\<lparr>lt_service := False, lt_severity := False, lt_body := True, lt_body_text := js ''time.*out'', lt_attrs := []\<rparr>)
     = [BodyMatches (escape_pattern (js ''time.*out''))]" by (simp add: log_conditions_def t)
qed (simp add: read_literal_pattern)

end
