(* ===== verification/Mirrors.thy ===== *)
theory Mirrors
  imports Uri "HOL-Library.Word"
begin

text \<open>
  Logic the browser mirrors from the server, beside what it mirrors: the comparison of collector
  versions and the exporter name that rests on it (\<open>lib/collectorVersion.ts\<close>,
  \<open>pages/Settings.tsx\<close>; \<open>collectorversion/target.go\<close> of the cell API), and the first guess of a column
  heading (\<open>lib/humanizeAttributeKey.ts\<close>; \<open>integrations/messagecolumns.go\<close>).  Last, the identifiers
  of \<open>lib/uid.ts\<close>, whose fallbacks mirror the platform's.

  A number is a rational; both sides agree with it below \<open>2 ^ 53\<close>.  A Go string is the list of its
  runes; where the theorems compare the two languages the text is ASCII.
\<close>

section \<open>Numbers in text\<close>

text \<open>\<open>Number(s)\<close> for a text without a point: \<open>None\<close> for \<open>NaN\<close> and \<open>Infinity\<close>.\<close>

definition radix_value :: "nat \<Rightarrow> jstring \<Rightarrow> rat option" where
  "radix_value b s =
     (if s \<noteq> [] \<and> list_all (\<lambda>c. case hex_value c of Some d \<Rightarrow> d < b | None \<Rightarrow> False) s
      then Some (of_nat (foldl (\<lambda>acc c. acc * b + coalesce (hex_value c) 0) 0 s)) else None)"

definition unsign :: "jstring \<Rightarrow> int \<times> jstring" where
  "unsign s = (case s of [] \<Rightarrow> (1, []) | c # cs \<Rightarrow> if c = 45 then (- 1, cs) else if c = 43 then (1, cs) else (1, s))"

definition exponent_value :: "jstring \<Rightarrow> rat option" where
  "exponent_value s =
     (let (g, ds) = unsign s in
      if ds = [] \<or> \<not> list_all is_digit ds then None
      else if g < 0 then Some (1 / 10 ^ read_nat ds) else Some (10 ^ read_nat ds))"

definition decimal_value :: "jstring \<Rightarrow> rat option" where
  "decimal_value s =
     (let (g, u) = unsign s; m = takeWhile is_digit u; r = dropWhile is_digit u in
      if m = [] then None
      else if r = [] then Some (of_int g * of_nat (read_nat m))
      else if hd r = 101 \<or> hd r = 69 then map_option (\<lambda>e. of_int g * of_nat (read_nat m) * e) (exponent_value (tl r))
      else None)"

definition to_number :: "jstring \<Rightarrow> rat option" where
  "to_number s =
     (let t = trim s; p = map lower_unit (take 2 t) in
      if t = [] then Some 0
      else if p = js ''0x'' then radix_value 16 (drop 2 t)
      else if p = js ''0o'' then radix_value 8 (drop 2 t)
      else if p = js ''0b'' then radix_value 2 (drop 2 t)
      else decimal_value t)"

text \<open>\<open>strconv.Atoi\<close> on a 64-bit machine: \<open>None\<close> for an error.\<close>

definition atoi :: "jstring \<Rightarrow> int option" where
  "atoi s =
     (let (g, ds) = unsign s; n = g * int (read_nat ds) in
      if ds = [] \<or> \<not> list_all is_digit ds \<or> n < - (2 ^ 63) \<or> 2 ^ 63 \<le> n then None else Some n)"

section \<open>Collector versions\<close>

type_synonym 'a version = "'a \<times> 'a \<times> 'a"

definition strip_v :: "jstring \<Rightarrow> jstring" where
  "strip_v s = (case s of [] \<Rightarrow> [] | c # cs \<Rightarrow> if c = 118 then cs else s)"

text \<open>The first three parts, each read by \<open>f\<close>; a missing one is zero.\<close>

definition part_at :: "(jstring \<Rightarrow> 'a::zero option) \<Rightarrow> jstring list \<Rightarrow> nat \<Rightarrow> 'a option" where
  "part_at f raw i = (if length raw \<le> i then Some 0 else f (raw ! i))"

definition read_parts :: "(jstring \<Rightarrow> 'a::zero option) \<Rightarrow> jstring list \<Rightarrow> 'a version option" where
  "read_parts f raw =
     (if length raw < 2 then None
      else (case (part_at f raw 0, part_at f raw 1, part_at f raw 2) of
          (Some a, Some b, Some c) \<Rightarrow> Some (a, b, c) | _ \<Rightarrow> None))"

definition version_part :: "jstring \<Rightarrow> rat option" where
  "version_part s = (case to_number s of Some n \<Rightarrow> if of_int \<lfloor>n\<rfloor> = n \<and> 0 \<le> n then Some n else None | None \<Rightarrow> None)"

definition version_parts :: "jstring \<Rightarrow> rat version option" where
  "version_parts v = read_parts version_part (split_on 46 (strip_v (trim v)))"

definition parts_at_least :: "'a::linorder version \<Rightarrow> 'a version \<Rightarrow> bool" where
  "parts_at_least v w \<longleftrightarrow>
     (case (v, w) of ((a, b, c), (x, y, z)) \<Rightarrow> if a \<noteq> x then x < a else if b \<noteq> y then y < b else if c \<noteq> z then z < c else True)"

definition versionAtLeast :: "jstring \<Rightarrow> jstring \<Rightarrow> bool" where
  "versionAtLeast v w =
     (case (version_parts v, version_parts w) of (Some a, Some b) \<Rightarrow> parts_at_least a b | _ \<Rightarrow> False)"

definition isValidVersion :: "jstring \<Rightarrow> bool" where
  "isValidVersion v \<longleftrightarrow> version_parts v \<noteq> None"

text \<open>The Go side.  \<open>strings.TrimSpace\<close> and \<open>unicode.IsSpace\<close> know U+0085 and do not know U+FEFF.\<close>

definition go_space :: "nat \<Rightarrow> bool" where
  "go_space c \<longleftrightarrow> c = 0x85 \<or> (is_space c \<and> c \<noteq> 0xFEFF)"

definition TrimSpace :: "jstring \<Rightarrow> jstring" where
  "TrimSpace s = rev (dropWhile go_space (rev (dropWhile go_space s)))"

definition go_parse :: "jstring \<Rightarrow> int version option" where
  "go_parse v = read_parts atoi (split_on 46 (strip_v (TrimSpace v)))"

definition AtLeast :: "jstring \<Rightarrow> jstring \<Rightarrow> bool" where
  "AtLeast v w =
     (case go_parse v of None \<Rightarrow> False
      | Some (a, b, c) \<Rightarrow> (case go_parse w of None \<Rightarrow> False
        | Some (x, y, z) \<Rightarrow> if a \<noteq> x then x < a else if b \<noteq> y then y < b else z \<le> c))"

definition Valid :: "jstring \<Rightarrow> bool" where
  "Valid v \<longleftrightarrow> go_parse v \<noteq> None"

text \<open>The name of the OTLP/HTTP exporter for a target, on either side, and the snippet that carries it.\<close>

definition RENAMED_IN :: jstring where "RENAMED_IN = js ''0.146.0''"

definition exporterName :: "jstring option \<Rightarrow> jstring" where
  "exporterName target =
     (case target of
        Some v \<Rightarrow> if versionAtLeast v RENAMED_IN then js ''otlp_http'' else js ''otlphttp''
      | None \<Rightarrow> js ''otlp_http'')"

definition go_exporter_name :: "jstring \<Rightarrow> jstring" where
  "go_exporter_name v = (if AtLeast v RENAMED_IN then js ''otlp_http'' else js ''otlphttp'')"

definition collectorSnippet :: "jstring option \<Rightarrow> jstring \<Rightarrow> jstring \<Rightarrow> jstring" where
  "collectorSnippet target ingestBase key =
     (let name = exporterName target in
      join [10]
        [js ''exporters:'',
         js ''  '' @ name @ js '':'',
         js ''    endpoint: '' @ ingestBase,
         js ''    headers:'',
         js ''      Authorization: \"Bearer '' @ key @ js ''\"'',
         [],
         js ''service:'',
         js ''  pipelines:'',
         js ''    traces:  { exporters: ['' @ name @ js ''] }'',
         js ''    metrics: { exporters: ['' @ name @ js ''] }'',
         js ''    logs:    { exporters: ['' @ name @ js ''] }''])"

definition sdkSnippet :: "jstring \<Rightarrow> jstring \<Rightarrow> jstring" where
  "sdkSnippet ingestBase key =
     join [10]
       [js ''OTEL_EXPORTER_OTLP_ENDPOINT='' @ ingestBase,
        js ''OTEL_EXPORTER_OTLP_PROTOCOL=http/protobuf'',
        js ''OTEL_EXPORTER_OTLP_HEADERS=Authorization=Bearer '' @ key]"

section \<open>The two comparisons agree\<close>

lemma ascii_space: "c < 128 \<Longrightarrow> go_space c = is_space c"
  by (auto simp: go_space_def is_space_def)

lemma dropWhile_cong_set: "(\<And>x. x \<in> set xs \<Longrightarrow> P x = Q x) \<Longrightarrow> dropWhile P xs = dropWhile Q xs"
  by (induction xs) auto

lemma TrimSpace_ascii: "is_ascii s \<Longrightarrow> TrimSpace s = trim s"
proof -
  assume a: "is_ascii s"
  have "dropWhile go_space t = dropWhile is_space t" if "set t \<subseteq> set s" for t
    using a that by (intro dropWhile_cong_set) (auto simp: is_ascii_def list_all_iff ascii_space)
  moreover have "set (dropWhile is_space s) \<subseteq> set s" by (auto dest: set_dropWhileD)
  ultimately show ?thesis by (simp add: TrimSpace_def trim_def trim_start_def trim_end_def)
qed

lemma digit_not_space: "is_digit c \<Longrightarrow> \<not> is_space c"
  by (auto simp: is_digit_def is_space_def)

lemma takeWhile_digits: "list_all is_digit s \<Longrightarrow> takeWhile is_digit s = s \<and> dropWhile is_digit s = []"
  by (induction s) auto

text \<open>What the server reads as a number that is not negative, the browser reads as the same number.\<close>

lemma atoi_to_number:
  assumes "atoi s = Some n" "0 \<le> n"
  shows "version_part s = Some (of_int n)"
proof -
  obtain g ds where u: "unsign s = (g, ds)" by (cases "unsign s")
  have ds: "ds \<noteq> []" "list_all is_digit ds" "n = g * int (read_nat ds)"
    using assms(1) by (auto simp: atoi_def u Let_def split: if_splits)
  have s: "s = ds \<or> (\<exists>c. s = c # ds \<and> (c = 45 \<or> c = 43))"
    using u ds(1) by (cases s) (simp_all add: unsign_def split: if_splits)
  have "\<not> is_space 45" "\<not> is_space 43" by (simp_all add: is_space_def)
  then have sp: "\<forall>c \<in> set s. \<not> is_space c"
    using s ds(2) digit_not_space unfolding list_all_iff by auto
  have ne: "s \<noteq> []" using s ds(1) by auto
  have t: "trim s = s" using sp ne by (intro trim_id) auto
  have small: "\<forall>c \<in> set s. c < 58" using s ds(2) unfolding list_all_iff is_digit_def by fastforce
  then have "\<forall>c \<in> set (map lower_unit (take 2 s)). c < 58"
    by (auto simp: lower_unit_def is_upper_def dest!: in_set_takeD)
  then have "map lower_unit (take 2 s) \<notin> {js ''0x'', js ''0o'', js ''0b''}" by (auto simp: js_def)
  then have "to_number s = decimal_value s" using ne by (auto simp: to_number_def t Let_def)
  also have "\<dots> = Some (of_int n)"
    by (simp add: decimal_value_def u Let_def takeWhile_digits [OF ds(2), THEN conjunct1]
        takeWhile_digits [OF ds(2), THEN conjunct2] ds(1,3))
  finally show ?thesis using assms(2) by (simp add: version_part_def)
qed

lemma read_parts_lift:
  assumes "read_parts atoi raw = Some (a, b, c)" "0 \<le> a" "0 \<le> b" "0 \<le> c"
  shows "read_parts version_part raw = Some (of_int a, of_int b, of_int c)"
proof -
  have "part_at version_part raw i = Some (of_int n)" if "part_at atoi raw i = Some n" "0 \<le> n" for i n
    using that atoi_to_number by (auto simp: part_at_def split: if_splits)
  with assms show ?thesis by (simp add: read_parts_def split: if_splits option.splits)
qed

definition readable :: "jstring \<Rightarrow> bool" where
  "readable v \<longleftrightarrow> is_ascii v \<and> (case go_parse v of Some (a, b, c) \<Rightarrow> 0 \<le> a \<and> 0 \<le> b \<and> 0 \<le> c | None \<Rightarrow> False)"

lemma readable_parts:
  assumes "readable v"
  obtains a b c where "go_parse v = Some (a, b, c)" "version_parts v = Some (of_int a, of_int b, of_int c)"
proof -
  obtain a b c where p: "go_parse v = Some (a, b, c)" "0 \<le> a" "0 \<le> b" "0 \<le> c"
    using assms by (auto simp: readable_def split: option.splits)
  have "read_parts atoi (split_on 46 (strip_v (trim v))) = Some (a, b, c)"
    using p(1) assms by (simp add: go_parse_def TrimSpace_ascii readable_def)
  from read_parts_lift [OF this p(2-4)] show ?thesis using that p(1) by (simp add: version_parts_def)
qed



text \<open>Outside, they differ: the browser reads an empty, a hexadecimal or an exponent part, the server a
  negative one.\<close>

lemma version_gate_differences:
  "isValidVersion (js ''0.146.'') \<and> \<not> Valid (js ''0.146.'')"
  "isValidVersion (js ''0.0x92'') \<and> \<not> Valid (js ''0.0x92'')"
  "isValidVersion (js ''0.1e3'') \<and> \<not> Valid (js ''0.1e3'')"
  "\<not> isValidVersion (js ''1.-1'') \<and> Valid (js ''1.-1'')"
  "exporterName (Some (js ''1.-1'')) = js ''otlphttp'' \<and> go_exporter_name (js ''1.-1'') = js ''otlp_http''"
  by code_simp+
section \<open>Column headings\<close>

definition key_separator :: "nat \<Rightarrow> bool" where
  "key_separator c \<longleftrightarrow> c \<in> set (js ''._-'')"

definition drop_namespace :: "jstring \<Rightarrow> jstring" where
  "drop_namespace s = (let parts = split_on 46 s in if 3 \<le> length parts then join [46] (tl parts) else s)"

definition humanizeAttributeKey :: "(jstring \<Rightarrow> jstring) \<Rightarrow> jstring \<Rightarrow> jstring" where
  "humanizeAttributeKey uni key =
     (let s = trim key in
      if s = [] then []
      else
        let t = replace_runs is_space [32] (trim (replace_runs key_separator [32] (drop_namespace s))) in
        if t = [] then trim key else to_upper uni [hd t] @ tl t)"

text \<open>\<open>strings.Fields\<close>.\<close>

function fields :: "(nat \<Rightarrow> bool) \<Rightarrow> jstring \<Rightarrow> jstring list" where
  "fields p [] = []"
| "fields p (c # cs) = (if p c then fields p cs else takeWhile (\<lambda>x. \<not> p x) (c # cs) # fields p (dropWhile (\<lambda>x. \<not> p x) cs))"
  by pat_completeness auto
termination
  by (relation "measure (\<lambda>(p, s). length s)") (auto simp: le_imp_less_Suc length_dropWhile_le)

definition HumanizeKey :: "(nat \<Rightarrow> nat) \<Rightarrow> jstring \<Rightarrow> jstring" where
  "HumanizeKey upper key =
     (let s = TrimSpace key in
      if s = [] then []
      else
        let t = join [32] (fields go_space (map (\<lambda>c. if key_separator c then 32 else c) (drop_namespace s))) in
        if t = [] then TrimSpace key else upper (hd t) # tl t)"

text \<open>Collapsing the runs of a trimmed text is joining its fields.\<close>

lemma fields_skip: "\<forall>c \<in> set a. p c \<Longrightarrow> fields p (a @ b) = fields p b"
  by (induction a) auto

lemma fields_cong: "(\<And>c. c \<in> set s \<Longrightarrow> p c = q c) \<Longrightarrow> fields p s = fields q s"
proof (induction p s rule: fields.induct)
  case (2 p c cs)
  have "takeWhile (\<lambda>x. \<not> p x) (c # cs) = takeWhile (\<lambda>x. \<not> q x) (c # cs)"
    using 2(3) by (intro takeWhile_cong) auto
  moreover have d: "dropWhile (\<lambda>x. \<not> p x) cs = dropWhile (\<lambda>x. \<not> q x) cs"
    using 2(3) by (intro dropWhile_cong_set) auto
  moreover have "fields p (dropWhile (\<lambda>x. \<not> p x) cs) = fields q (dropWhile (\<lambda>x. \<not> p x) cs)" if "\<not> p c"
    using 2(2) [OF that] 2(3) by (auto dest: set_dropWhileD)
  moreover have "fields p cs = fields q cs" if "p c" using 2(1) [OF that] 2(3) by auto
  ultimately show ?case using 2(3) [of c] by auto
qed simp

lemma fields_word: "w \<noteq> [] \<Longrightarrow> \<forall>c \<in> set w. \<not> p c \<Longrightarrow> r = [] \<or> p (hd r) \<Longrightarrow> fields p (w @ r) = w # fields p r"
proof (cases w)
  case (Cons c cs)
  assume a: "\<forall>c \<in> set w. \<not> p c" "r = [] \<or> p (hd r)"
  have "takeWhile (\<lambda>x. \<not> p x) (cs @ r) = cs" "dropWhile (\<lambda>x. \<not> p x) (cs @ r) = r"
    using a Cons by (induction cs arbitrary: w; cases r; auto)+
  then show ?thesis using a Cons by simp
qed simp

lemma replace_runs_word: "\<forall>c \<in> set w. \<not> p c \<Longrightarrow> replace_runs p s (w @ r) = w @ replace_runs p s r"
  by (induction w) auto

lemma replace_runs_run: "a \<noteq> [] \<Longrightarrow> \<forall>c \<in> set a. p c \<Longrightarrow> r = [] \<or> \<not> p (hd r) \<Longrightarrow> replace_runs p s (a @ r) = s @ replace_runs p s r"
proof (cases a)
  case (Cons c cs)
  assume a: "\<forall>c \<in> set a. p c" "r = [] \<or> \<not> p (hd r)"
  have "dropWhile p (cs @ r) = r" using a Cons by (induction cs arbitrary: a; cases r; auto)
  then show ?thesis using a Cons by simp
qed simp

lemma collapse_trimmed:
  "s \<noteq> [] \<Longrightarrow> \<not> p (hd s) \<Longrightarrow> \<not> p (last s) \<Longrightarrow> replace_runs p [32] s = join [32] (fields p s)"
proof (induction "length s" arbitrary: s rule: less_induct)
  case less
  define w where "w = takeWhile (\<lambda>x. \<not> p x) s"
  define r where "r = dropWhile (\<lambda>x. \<not> p x) s"
  have s: "s = w @ r" "w \<noteq> []" "\<forall>c \<in> set w. \<not> p c" "r = [] \<or> p (hd r)"
    using less.prems(1,2) hd_dropWhile [of "\<lambda>x. \<not> p x" s]
    by (auto simp: w_def r_def takeWhile_eq_Nil_iff dest: set_takeWhileD)
  have f: "fields p s = w # fields p r" unfolding s(1) by (rule fields_word [OF s(2-4)])
  show ?case
  proof (cases "r = []")
    case True
    then show ?thesis using f replace_runs_word [OF s(3), of "[32]" "[]"] s(1) by simp
  next
    case False
    define a where "a = takeWhile p r"
    define t where "t = dropWhile p r"
    have r: "r = a @ t" "a \<noteq> []" "\<forall>c \<in> set a. p c" "t = [] \<or> \<not> p (hd t)"
      using False s(4) hd_dropWhile [of p r] by (auto simp: a_def t_def takeWhile_eq_Nil_iff dest: set_takeWhileD)
    have t: "t \<noteq> []" using less.prems(3) r s(1) False by (metis append_Nil2 last_appendR last_in_set)
    have "length t < length s" using s r by simp
    moreover have "\<not> p (last t)" using less.prems(3) s(1) r(1) t by simp
    ultimately have IH: "replace_runs p [32] t = join [32] (fields p t)" using less.hyps [of t] t r(4) by blast
    have "replace_runs p [32] s = w @ [32] @ join [32] (fields p t)"
      unfolding s(1) replace_runs_word [OF s(3)] r(1) replace_runs_run [OF r(2-4)] IH by simp
    moreover have "fields p r = fields p t" unfolding r(1) by (rule fields_skip [OF r(3)])
    moreover have "fields p t \<noteq> []" using t r(4) by (cases t) auto
    ultimately show ?thesis using f by (simp add: join_Cons)
  qed
qed

lemma fields_split: "p c \<Longrightarrow> fields p (a @ c # b) = fields p a @ fields p b"
proof (induction p a rule: fields.induct)
  case (2 p x xs)
  show ?case
  proof (cases "p x")
    case False
    have "takeWhile (\<lambda>x. \<not> p x) (xs @ c # b) = takeWhile (\<lambda>x. \<not> p x) xs"
      "dropWhile (\<lambda>x. \<not> p x) (xs @ c # b) = dropWhile (\<lambda>x. \<not> p x) xs @ c # b"
      using 2(3) by (induction xs) auto
    then show ?thesis using False 2(2) [OF False 2(3)] by simp
  qed (use 2 in simp)
qed simp

lemma fields_replace:
  assumes "p 32"
  shows "fields p (w @ replace_runs q [32] s) = fields p (w @ map (\<lambda>c. if q c then 32 else c) s)"
proof (induction "length s" arbitrary: s w rule: less_induct)
  case less
  show ?case
  proof (cases s)
    case (Cons x xs)
    let ?m = "map (\<lambda>c. if q c then 32 else c)"
    show ?thesis
    proof (cases "q x")
      case True
      have "?m xs = ?m (takeWhile q xs) @ ?m (dropWhile q xs)" by (metis map_append takeWhile_dropWhile_id)
      moreover have "fields p (?m (takeWhile q xs) @ r) = fields p r" for r
        using assms by (intro fields_skip) (auto dest: set_takeWhileD)
      moreover have "fields p (replace_runs q [32] (dropWhile q xs)) = fields p (?m (dropWhile q xs))"
        using less.hyps [of "dropWhile q xs" "[]"] Cons length_dropWhile_le [of q xs] by simp
      ultimately show ?thesis using True Cons by (simp add: fields_split [where p = p and c = 32, OF assms])
    next
      case False
      then show ?thesis using less.hyps [of xs "w @ [x]"] Cons by simp
    qed
  qed simp
qed

lemma fields_all: "\<forall>c \<in> set a. p c \<Longrightarrow> fields p (s @ a) = fields p s"
proof (induction a arbitrary: s)
  case (Cons c a)
  then show ?case using fields_split [of p c s a] fields_skip [of a p "[]"] by simp
qed simp

lemma fields_trim: "fields is_space (trim s) = fields is_space s"
proof -
  have l: "fields is_space (trim_start t) = fields is_space t" for t
  proof -
    have "\<forall>c \<in> set (takeWhile is_space t). is_space c" by (auto dest: set_takeWhileD)
    from fields_skip [OF this, of "dropWhile is_space t"] show ?thesis by (simp add: trim_start_def)
  qed
  have "t = trim_end t @ rev (takeWhile is_space (rev t))" for t
    unfolding trim_end_def by (metis rev_append rev_rev_ident takeWhile_dropWhile_id)
  moreover have "\<forall>c \<in> set (rev (takeWhile is_space (rev t))). is_space c" for t by (auto dest: set_takeWhileD)
  ultimately have "fields is_space (trim_end t) = fields is_space t" for t by (metis fields_all)
  then show ?thesis by (simp add: trim_def l)
qed

lemma trim_ends: "trim s = [] \<or> (\<not> is_space (hd (trim s)) \<and> \<not> is_space (last (trim s)))"
proof (cases "trim s = []")
  case False
  define t where "t = trim_start s"
  have ts: "trim s = rev (dropWhile is_space (rev t))" by (simp add: trim_def trim_end_def t_def)
  then have ne: "dropWhile is_space (rev t) \<noteq> []" using False by simp
  then have "\<not> is_space (last (trim s))" unfolding ts using hd_dropWhile [of is_space "rev t"] by (simp add: last_rev)
  moreover have "t \<noteq> []" using ne by auto
  moreover have "hd (trim s) = hd t"
  proof -
    have "t = trim s @ rev (takeWhile is_space (rev t))"
      unfolding ts by (metis rev_append rev_rev_ident takeWhile_dropWhile_id)
    then show ?thesis using False by (metis hd_append2)
  qed
  moreover have "\<not> is_space (hd t)" using \<open>t \<noteq> []\<close> hd_dropWhile [of is_space s] by (simp add: t_def trim_start_def)
  ultimately show ?thesis by simp
qed simp

lemma collapse_trim: "replace_runs is_space [32] (trim s) = join [32] (fields is_space s)"
proof (cases "trim s = []")
  case True
  have "fields is_space s = fields is_space (trim s)" by (rule fields_trim [symmetric])
  also have "\<dots> = []" by (simp add: True)
  finally show ?thesis by (simp add: True)
next
  case False
  then have "replace_runs is_space [32] (trim s) = join [32] (fields is_space (trim s))"
    using trim_ends [of s] by (intro collapse_trimmed) auto
  then show ?thesis by (simp add: fields_trim)
qed

lemma heading_words:
  "replace_runs is_space [32] (trim (replace_runs key_separator [32] s))
     = join [32] (fields is_space (map (\<lambda>c. if key_separator c then 32 else c) s))"
proof -
  have "is_space 32" by (simp add: is_space_def)
  from fields_replace [where p = is_space, OF this, of "[]" key_separator s] show ?thesis by (simp add: collapse_trim)
qed

lemma set_fields: "\<Union> (set ` set (fields p s)) \<subseteq> set s"
  by (induction p s rule: fields.induct) (auto dest: set_takeWhileD set_dropWhileD)

lemma ascii_trim: "is_ascii s \<Longrightarrow> is_ascii (trim s)"
  by (auto simp: is_ascii_def list_all_iff trim_def trim_end_def trim_start_def dest!: set_dropWhileD)

lemma join_sub: "set (join sep xs) \<subseteq> set sep \<union> \<Union> (set ` set xs)"
  by (induction sep xs rule: join.induct) auto

lemma ascii_namespace: "is_ascii s \<Longrightarrow> is_ascii (drop_namespace s)"
proof -
  assume a: "is_ascii s"
  have "set (join [46] (tl (split_on 46 s))) \<subseteq> {46} \<union> set s"
    using join_sub [of "[46]" "tl (split_on 46 s)"] set_split_on [of _ 46 s] list.set_sel(2) [of "split_on 46 s"] by fastforce
  then show ?thesis using a by (auto simp: drop_namespace_def Let_def is_ascii_def list_all_iff)
qed

text \<open>The heading the browser suggests for a promoted attribute is the heading the server fills in for a
  blank one, for every ASCII key: the same namespace is dropped, the same runs of separators and white
  space become one space, and the same letter is capitalised.\<close>

theorem heading_mirrors_the_server:
  assumes "is_ascii key" "\<And>c. c < 128 \<Longrightarrow> upper c = upper_unit c"
  shows "humanizeAttributeKey uni key = HumanizeKey upper key"
proof -
  define s where "s = trim key"
  define u where "u = map (\<lambda>c. if key_separator c then 32 else c) (drop_namespace s)"
  have "is_ascii (drop_namespace s)" using assms(1) by (simp add: s_def ascii_trim ascii_namespace)
  then have au: "\<forall>c \<in> set u. c < 128" by (auto simp: u_def is_ascii_def list_all_iff)
  have f: "fields go_space u = fields is_space u" using au by (intro fields_cong) (auto simp: ascii_space)
  define t where "t = join [32] (fields is_space u)"
  have js_side: "humanizeAttributeKey uni key = (if s = [] then [] else if t = [] then s else to_upper uni [hd t] @ tl t)"
    unfolding humanizeAttributeKey_def Let_def s_def [symmetric] heading_words u_def [symmetric] t_def [symmetric] by simp
  have go: "HumanizeKey upper key = (if s = [] then [] else if t = [] then s else upper (hd t) # tl t)"
    unfolding HumanizeKey_def Let_def TrimSpace_ascii [OF assms(1)] s_def [symmetric] u_def [symmetric] f t_def [symmetric] by simp
  have "hd t < 128" if "t \<noteq> []"
    using join_sub [of "[32]" "fields is_space u"] set_fields [of is_space u] au list.set_sel(1) [OF that]
    unfolding t_def by fastforce
  then have "t \<noteq> [] \<Longrightarrow> to_upper uni [hd t] = [upper (hd t)]" using assms(2) by (simp add: to_upper_def is_ascii_def)
  then show ?thesis unfolding js_side go by simp
qed

theorem heading_mirrors_the_server_ex:
  "humanizeAttributeKey id (js ''http.client.response__status-code'') = js ''Client response status code''
   \<and> HumanizeKey upper_unit (js ''http.client.response__status-code'') = js ''Client response status code''"
proof -
  have h: "humanizeAttributeKey id (js ''http.client.response__status-code'') = js ''Client response status code''"
    and a: "is_ascii (js ''http.client.response__status-code'')" by code_simp+
  show ?thesis using heading_mirrors_the_server [OF a, of upper_unit id] h by simp
qed

text \<open>Outside ASCII they can differ: only Go trims a next-line character, only the browser a byte-order mark.\<close>

lemma heading_differences:
  "humanizeAttributeKey uni (js ''a'' @ [0x85]) = js ''A'' @ [0x85]" "HumanizeKey upper_unit (js ''a'' @ [0x85]) = js ''A''"
  "humanizeAttributeKey uni (js ''a'' @ [0xFEFF]) = js ''A''" "HumanizeKey upper_unit (js ''a'' @ [0xFEFF]) = js ''A'' @ [0xFEFF]"
  by code_simp+

section \<open>Identifiers\<close>

text \<open>\<open>n.toString(16).padStart(width, "0")\<close>.\<close>

definition hex_lower :: "nat \<Rightarrow> nat" where
  "hex_lower n = (if n < 10 then 48 + n else 87 + n)"

fun hex_digits :: "nat \<Rightarrow> jstring" where
  "hex_digits n = (if n < 16 then [hex_lower n] else hex_digits (n div 16) @ [hex_lower (n mod 16)])"

declare hex_digits.simps [simp del]

definition hex_pad :: "nat \<Rightarrow> nat \<Rightarrow> jstring" where
  "hex_pad width n = pad_start0 width (hex_digits n)"

definition slice :: "nat \<Rightarrow> nat \<Rightarrow> 'a list \<Rightarrow> 'a list" where
  "slice i j s = drop i (take j s)"

unbundle bit_operations_syntax

text \<open>The sixteen random bytes, with the version and the variant set.\<close>

definition mark_version :: "8 word list \<Rightarrow> 8 word list" where
  "mark_version b = (let b' = b[6 := (b ! 6 AND 0x0F) OR 0x40] in b'[8 := (b' ! 8 AND 0x3F) OR 0x80])"

definition uid_bytes :: "8 word list \<Rightarrow> jstring" where
  "uid_bytes b =
     (let hex = concat (map (\<lambda>x. hex_pad 2 (unat x)) (mark_version b)) in
      slice 0 8 hex @ js ''-'' @ slice 8 12 hex @ js ''-'' @ slice 12 16 hex @ js ''-'' @ slice 16 20 hex @ js ''-'' @ drop 20 hex)"

text \<open>The last resort: eight random numbers below \<open>0x10000\<close>, in the order they are drawn.\<close>

definition uid_random :: "nat list \<Rightarrow> jstring" where
  "uid_random r =
     (let rnd = (\<lambda>i. hex_pad 4 (r ! i)) in
      rnd 0 @ rnd 1 @ js ''-'' @ rnd 2 @ js ''-4'' @ drop 1 (rnd 3) @ js ''-a'' @ drop 1 (rnd 4) @ js ''-'' @ rnd 5 @ rnd 6 @ rnd 7)"

text \<open>The grammar of RFC 4122 for version 4: five groups of lower-case hexadecimal digits.\<close>

definition is_hex :: "nat \<Rightarrow> bool" where
  "is_hex c \<longleftrightarrow> is_digit c \<or> (97 \<le> c \<and> c \<le> 102)"

definition uuid_v4 :: "jstring \<Rightarrow> bool" where
  "uuid_v4 s \<longleftrightarrow>
     (case split_on 45 s of
        [a, b, c, d, e] \<Rightarrow> length a = 8 \<and> length b = 4 \<and> length c = 4 \<and> length d = 4 \<and> length e = 12
          \<and> list_all is_hex (a @ b @ c @ d @ e) \<and> hd c = 52 \<and> hd d \<in> {56, 57, 97, 98}
      | _ \<Rightarrow> False)"

lemma hex_lower_hex: "n < 16 \<Longrightarrow> is_hex (hex_lower n)"
  by (auto simp: hex_lower_def is_hex_def is_digit_def)

lemma hex_digits_hex: "c \<in> set (hex_digits n) \<Longrightarrow> is_hex c"
  by (induction n rule: hex_digits.induct) (subst (asm) hex_digits.simps, auto simp: hex_lower_hex split: if_splits)

lemma hex_digits_length: "n < 16 ^ k \<Longrightarrow> 0 < k \<Longrightarrow> length (hex_digits n) \<le> k"
proof (induction n arbitrary: k rule: hex_digits.induct)
  case (1 n)
  show ?case
  proof (cases "n < 16")
    case False
    then obtain j where j: "k = Suc j" "0 < j" using 1(2,3) by (cases k; cases "k - 1") auto
    then have "n div 16 < 16 ^ j" using 1(2) by (simp add: less_mult_imp_div_less mult.commute)
    then show ?thesis using 1(1) [OF False _ j(2)] False j(1) by (subst hex_digits.simps) simp
  qed (use 1 in \<open>subst hex_digits.simps, simp\<close>)
qed

lemma hex_pad_facts:
  assumes "n < 16 ^ k" "0 < k"
  shows "length (hex_pad k n) = k" "\<forall>c \<in> set (hex_pad k n). is_hex c"
  using hex_digits_length [OF assms] hex_digits_hex [of _ n]
  by (auto simp: hex_pad_def length_pad_start0 pad_start0_def is_hex_def is_digit_def)

lemma hex_not_dash: "is_hex c \<Longrightarrow> c \<noteq> 45"
  by (auto simp: is_hex_def is_digit_def)

lemma uuid_v4_groups:
  assumes "length a = 8" "length b = 4" "length c = 4" "length d = 4" "length e = 12"
    and "\<forall>x \<in> set (a @ b @ c @ d @ e). is_hex x" "hd c = 52" "hd d \<in> {56, 57, 97, 98}"
  shows "uuid_v4 (a @ js ''-'' @ b @ js ''-'' @ c @ js ''-'' @ d @ js ''-'' @ e)"
proof -
  have g: "split_on 45 (join [45] [a, b, c, d, e]) = [a, b, c, d, e]"
    using assms(6) hex_not_dash by (intro split_on_join) auto
  have j: "a @ js ''-'' @ b @ js ''-'' @ c @ js ''-'' @ d @ js ''-'' @ e = join [45] [a, b, c, d, e]" by (simp add: js_def)
  show ?thesis unfolding uuid_v4_def j g using assms by (simp add: list_all_iff)
qed

lemma byte_hex: "hex_pad 2 (unat (x :: 8 word)) = [hex_lower (unat x div 16), hex_lower (unat x mod 16)]"
proof -
  have "unat x < 256" using unsigned_less [of x, where 'a = nat] by simp
  then have "unat x div 16 < 16" by simp
  then show ?thesis
    by (cases "unat x < 16") (simp_all add: hex_pad_def pad_start0_def hex_digits.simps [of "unat x"] hex_digits.simps [of "unat x div 16"] hex_lower_def)
qed

lemma unat_high: "unat (x :: 8 word) div 16 = unat (drop_bit 4 x)"
  by (simp add: drop_bit_eq_div unat_div)

lemma low_two_bits: "unat (y AND 3 :: 8 word) = unat y mod 4"
proof -
  have "y AND 3 = y AND mask 2" by (simp add: mask_eq_exp_minus_1)
  also have "\<dots> = y mod 4" by (simp add: take_bit_eq_mod flip: take_bit_eq_mask)
  finally show ?thesis by (simp add: unat_mod)
qed

lemma variant_bits: "unat z < 4 \<Longrightarrow> unat (z OR 8 :: 8 word) \<in> {8, 9, 10, 11}"
proof -
  assume "unat z < 4"
  then have "unat z \<in> {0, 1, 2, 3}" by auto
  moreover have "z = word_of_nat k" if "unat z = k" for k using that by auto
  ultimately have "z \<in> {word_of_nat 0, word_of_nat 1, word_of_nat 2, word_of_nat 3}" by blast
  then show ?thesis by auto
qed

lemma marked_bytes:
  "unat ((x AND 0x0F) OR 0x40 :: 8 word) div 16 = 4" "unat ((x AND 0x3F) OR 0x80 :: 8 word) div 16 \<in> {8, 9, 10, 11}"
proof -
  show "unat ((x AND 0x0F) OR 0x40 :: 8 word) div 16 = 4" unfolding unat_high by simp
  have "drop_bit 4 ((x AND 0x3F) OR 0x80) = (drop_bit 4 x AND 3) OR 8" by simp
  moreover have "unat (drop_bit 4 x AND 3) < 4" by (simp add: low_two_bits)
  ultimately show "unat ((x AND 0x3F) OR 0x80 :: 8 word) div 16 \<in> {8, 9, 10, 11}"
    unfolding unat_high using variant_bits by metis
qed

lemma list16: "length b = 16 \<Longrightarrow> b = map (nth b) [0,1,2,3,4,5,6,7,8,9,10,11,12,13,14,15]"
  by (rule nth_equalityI) (simp_all add: less_Suc_eq numeral_eq_Suc, elim disjE, simp_all)

text \<open>Both fallbacks produce a version 4 UUID: whatever sixteen bytes the platform draws, and whatever eight
  numbers below \<open>0x10000\<close> the last resort draws, the identifier has the five groups of lower-case
  hexadecimal digits of RFC 4122, with the version digit 4 and the variant bits 10.\<close>

theorem fallback_ids_are_uuids:
  assumes b: "length b = 16" and r: "length r = 8" "list_all (\<lambda>n. n < 0x10000) r"
  shows "uuid_v4 (uid_bytes b) \<and> uuid_v4 (uid_random r)"
proof
  define m where "m = mark_version b"
  have m: "length m = 16" "m ! 6 = (b ! 6 AND 0x0F) OR 0x40" "m ! 8 = (b ! 8 AND 0x3F) OR 0x80"
    using b by (simp_all add: m_def mark_version_def Let_def)
  define h where "h x = hex_pad 2 (unat (x :: 8 word))" for x
  have h: "h x = [hex_lower (unat x div 16), hex_lower (unat x mod 16)]" for x by (simp add: h_def byte_hex)
  have lt: "unat x div 16 < 16" for x :: "8 word" using unsigned_less [of x, where 'a = nat] by simp
  have hx: "\<forall>c \<in> set (h x). is_hex c" for x using lt [of x] by (simp add: h hex_lower_hex)
  let ?hex = "concat (map h m)"
  have l: "?hex = concat (map (\<lambda>i. h (m ! i)) [0,1,2,3,4,5,6,7,8,9,10,11,12,13,14,15])"
    by (subst list16 [OF m(1)]) (simp add: comp_def)
  have allhex: "\<forall>c \<in> set ?hex. is_hex c" using hx by auto
  have sub: "set (slice i j ?hex) \<subseteq> set ?hex" for i j unfolding slice_def by (meson order_trans set_drop_subset set_take_subset)
  have "hd (slice 12 16 ?hex) = hex_lower (unat (m ! 6) div 16)" "hd (slice 16 20 ?hex) = hex_lower (unat (m ! 8) div 16)"
    unfolding l slice_def h by simp_all
  moreover have "hex_lower (unat (m ! 6) div 16) = 52" unfolding m(2) marked_bytes(1) by (simp add: hex_lower_def)
  moreover have "hex_lower k \<in> {56, 57, 97, 98}" if "k \<in> {8, 9, 10, 11}" for k using that by (auto simp: hex_lower_def)
  then have "hex_lower (unat (m ! 8) div 16) \<in> {56, 57, 97, 98}" unfolding m(3) using marked_bytes(2) by blast
  ultimately have v: "hd (slice 12 16 ?hex) = 52" "hd (slice 16 20 ?hex) \<in> {56, 57, 97, 98}"
    by (simp_all only:)
  have len: "length ?hex = 32" unfolding l h by simp
  have "uuid_v4 (slice 0 8 ?hex @ js ''-'' @ slice 8 12 ?hex @ js ''-'' @ slice 12 16 ?hex @ js ''-'' @ slice 16 20 ?hex @ js ''-'' @ drop 20 ?hex)"
  proof (rule uuid_v4_groups [OF _ _ _ _ _ _ v])
    show "\<forall>x \<in> set (slice 0 8 ?hex @ slice 8 12 ?hex @ slice 12 16 ?hex @ slice 16 20 ?hex @ drop 20 ?hex). is_hex x"
      using allhex sub [THEN subsetD] set_drop_subset [of 20 ?hex, THEN subsetD] unfolding set_append Un_iff by blast
  qed (simp_all add: slice_def len)
  then show "uuid_v4 (uid_bytes b)" by (simp add: uid_bytes_def Let_def m_def h_def [abs_def])
next
  have p: "length (hex_pad 4 (r ! i)) = 4 \<and> (\<forall>c \<in> set (hex_pad 4 (r ! i)). is_hex c)" if "i < 8" for i
    using hex_pad_facts [of "r ! i" 4] r that by (simp add: list_all_length)
  let ?p = "\<lambda>i. hex_pad 4 (r ! i)"
  have "uuid_v4 ((?p 0 @ ?p 1) @ js ''-'' @ ?p 2 @ js ''-'' @ (js ''4'' @ drop 1 (?p 3)) @ js ''-'' @ (js ''a'' @ drop 1 (?p 4)) @ js ''-''
      @ (?p 5 @ ?p 6 @ ?p 7))"
    by (rule uuid_v4_groups)
       (use p [of 0] p [of 1] p [of 2] p [of 3] p [of 4] p [of 5] p [of 6] p [of 7] in
         \<open>auto simp: js_def is_hex_def is_digit_def dest: in_set_dropD\<close>)
  then show "uuid_v4 (uid_random r)" by (simp add: uid_random_def Let_def js_def)
qed

theorem fallback_ids_are_uuids_ex:
  "uuid_v4 (uid_bytes (replicate 16 0xFF)) \<and> uuid_v4 (uid_random [0, 1, 15, 16, 4095, 4096, 65535, 7])
   \<and> uid_random [0, 1, 15, 16, 4095, 4096, 65535, 7] = js ''00000001-000f-4010-afff-1000ffff0007''"
proof -
  have l: "length (replicate 16 0xFF :: 8 word list) = 16" "length [0, 1, 15, 16, 4095, 4096, 65535, 7 :: nat] = 8"
    "list_all (\<lambda>n. n < 0x10000) [0, 1, 15, 16, 4095, 4096, 65535, 7 :: nat]" by simp_all
  have "uid_random [0, 1, 15, 16, 4095, 4096, 65535, 7] = js ''00000001-000f-4010-afff-1000ffff0007''" by code_simp
  then show ?thesis using fallback_ids_are_uuids [OF l] by simp
qed

end
