(* ===== verification/ApiCalls.thy ===== *)
theory ApiCalls
  imports Query Session
begin

text \<open>
  The \<open>api\<close> object of \<open>api/client.ts\<close>: one definition per endpoint wrapper, with the method, the
  template literal of the path, the query and the body it passes to \<open>request\<close>.  A template literal is
  its list of pieces: literal text (\<open>T\<close>), a value under \<open>encodeURIComponent\<close> (\<open>P\<close>) and a value as it
  is (\<open>R\<close>); it is cut where its query begins.

  An argument with a default is an option; an argument the wrapper only passes on to
  \<open>JSON.stringify\<close> is a value of type \<open>json\<close>.  What the endpoints answer is the server's; \<open>request\<close>
  itself is in \<open>Session\<close>.
\<close>

section \<open>Calls\<close>

datatype piece = T string | P jstring | R jstring

datatype api_call =
  ApiCall (ac_method: string) (ac_path: "piece list") (ac_query: "piece list") (ac_body: "json option")

definition get :: "piece list \<Rightarrow> piece list \<Rightarrow> api_call" where
  "get p q = ApiCall ''GET'' p q None"

definition post :: "piece list \<Rightarrow> piece list \<Rightarrow> json \<Rightarrow> api_call" where
  "post p q body = ApiCall ''POST'' p q (Some body)"

definition postEmpty :: "piece list \<Rightarrow> piece list \<Rightarrow> api_call" where
  "postEmpty p q = ApiCall ''POST'' p q None"

definition put :: "piece list \<Rightarrow> piece list \<Rightarrow> json \<Rightarrow> api_call" where
  "put p q body = ApiCall ''PUT'' p q (Some body)"

definition patch :: "piece list \<Rightarrow> piece list \<Rightarrow> json \<Rightarrow> api_call" where
  "patch p q body = ApiCall ''PATCH'' p q (Some body)"

definition del :: "piece list \<Rightarrow> piece list \<Rightarrow> api_call" where
  "del p q = ApiCall ''DELETE'' p q None"

lemmas method_defs = get_def post_def postEmpty_def put_def patch_def del_def

text \<open>The idioms of the wrappers: a text behind a flag, behind a truthy string, a parameter set when its
  value is given, the fields \<open>JSON.stringify\<close> keeps.\<close>

definition flag :: "bool \<Rightarrow> string \<Rightarrow> piece list" where
  "flag b t = (if b then [T t] else [])"

definition given :: "jstring option \<Rightarrow> (jstring \<Rightarrow> 'b list) \<Rightarrow> 'b list" where
  "given x f = (case x of None \<Rightarrow> [] | Some s \<Rightarrow> if s \<noteq> [] then f s else [])"

definition param_given :: "string \<Rightarrow> jstring option \<Rightarrow> params \<Rightarrow> params" where
  "param_given k v ps = (case v of None \<Rightarrow> ps | Some s \<Rightarrow> if s \<noteq> [] then params_set ps (js k) s else ps)"

definition param_number :: "string \<Rightarrow> nat option \<Rightarrow> params \<Rightarrow> params" where
  "param_number k v ps = (case v of None \<Rightarrow> ps | Some n \<Rightarrow> if n \<noteq> 0 then params_set ps (js k) (show_nat n) else ps)"

definition optional_query :: "params \<Rightarrow> piece list" where
  "optional_query ps = (let qs = to_query ps in if qs \<noteq> [] then [T ''?'', R qs] else [])"

definition query_text :: "params \<Rightarrow> piece list" where
  "query_text ps = [T ''?'', R (to_query ps)]"

definition defined :: "string \<Rightarrow> jstring option \<Rightarrow> (jstring \<times> json) list" where
  "defined k v = (case v of None \<Rightarrow> [] | Some s \<Rightarrow> [(js k, JStr s)])"

text \<open>The options object of the telemetry searches; each wrapper reads the fields its own type has.
  \<open>str\<close> is \<open>JSON.stringify\<close> on an attribute filter.\<close>

record log_cursor =
  lc_ts :: jstring
  lc_ord :: jstring

record 'f search_opts =
  so_q :: "jstring option"
  so_type :: "jstring option"
  so_key :: "jstring option"
  so_minSeverity :: "nat option"
  so_service :: "jstring option"
  so_integration :: "jstring option"
  so_traceId :: "jstring option"
  so_limit :: "nat option"
  so_buckets :: "nat option"
  so_cursor :: "log_cursor option"
  so_attrs :: "'f list option"

definition param_cursor :: "log_cursor option \<Rightarrow> params \<Rightarrow> params" where
  "param_cursor c ps =
     (case c of None \<Rightarrow> ps
      | Some k \<Rightarrow> params_set (params_set ps (js ''before_ts'') (lc_ts k)) (js ''before_ord'') (lc_ord k))"

definition param_type :: "jstring option \<Rightarrow> params \<Rightarrow> params" where
  "param_type v ps = (if v = Some (js ''all'') then ps else param_given ''type'' v ps)"

definition append_attrs :: "('f \<Rightarrow> jstring) \<Rightarrow> 'f list option \<Rightarrow> params \<Rightarrow> params" where
  "append_attrs str attrs ps = ps @ map (\<lambda>a. (js ''attr'', str a)) (coalesce attrs [])"

section \<open>Advisor, services and systems\<close>

definition api_listAdvisorSuggestions :: "jstring option \<Rightarrow> jstring option \<Rightarrow> api_call" where
  "api_listAdvisorSuggestions advisor state =
     get [T ''/advisor/suggestions''] (optional_query (param_given ''state'' state (param_given ''advisor'' advisor [])))"

definition api_acceptAdvisorSuggestion :: "jstring \<Rightarrow> jstring option \<Rightarrow> api_call" where
  "api_acceptAdvisorSuggestion i note =
     post [T ''/advisor/suggestions/'', P i, T ''/accept''] [] (JObj [(js ''note'', JStr (coalesce note []))])"

definition api_dismissAdvisorSuggestion :: "jstring \<Rightarrow> jstring option \<Rightarrow> api_call" where
  "api_dismissAdvisorSuggestion i note =
     post [T ''/advisor/suggestions/'', P i, T ''/dismiss''] [] (JObj [(js ''note'', JStr (coalesce note []))])"

definition api_runAdvisor :: "api_call" where "api_runAdvisor = post [T ''/advisor/run''] [] (JObj [])"

definition api_markAlertInstanceOpened :: "jstring \<Rightarrow> api_call" where
  "api_markAlertInstanceOpened i =
     post [T ''/alert-instances/'', P i, T ''/opened''] [] (JObj [])"

definition api_listServices :: "jstring option \<Rightarrow> bool \<Rightarrow> jstring option \<Rightarrow> bool \<Rightarrow> api_call" where
  "api_listServices window withDependencies env environments =
     get [T ''/services''] ([T ''?range='', P (coalesce window (js ''1h''))] @ flag withDependencies ''&dependencies=1''
       @ (case env of None \<Rightarrow> [] | Some e \<Rightarrow> [T ''&env='', P (envToParam e)]) @ flag environments ''&environments=1'')"

definition api_listSystems :: "api_call" where "api_listSystems = get [T ''/systems''] []"

definition api_getSystem :: "jstring \<Rightarrow> jstring option \<Rightarrow> api_call" where
  "api_getSystem i window =
     get [T ''/systems/'', P i] [T ''?range='', P (coalesce window (js ''1h''))]"

definition api_createSystem :: "json \<Rightarrow> api_call" where
  "api_createSystem body = post [T ''/systems''] [] body"

definition api_updateSystem :: "jstring \<Rightarrow> json \<Rightarrow> api_call" where
  "api_updateSystem i body = put [T ''/systems/'', P i] [] body"

definition api_deleteSystem :: "jstring \<Rightarrow> api_call" where
  "api_deleteSystem i = del [T ''/systems/'', P i] []"

definition api_systemDeleteImpact :: "jstring \<Rightarrow> api_call" where
  "api_systemDeleteImpact i = get [T ''/systems/'', P i, T ''/delete-impact''] []"

definition api_attachSystemService :: "jstring \<Rightarrow> jstring \<Rightarrow> api_call" where
  "api_attachSystemService i serviceName =
     post [T ''/systems/'', P i, T ''/services''] [] (JObj [(js ''service_name'', JStr serviceName)])"

definition api_detachSystemService :: "jstring \<Rightarrow> jstring \<Rightarrow> api_call" where
  "api_detachSystemService i serviceName =
     del [T ''/systems/'', P i, T ''/services/'', P serviceName] []"

definition api_getSystemMetadata :: "jstring \<Rightarrow> api_call" where
  "api_getSystemMetadata i = get [T ''/systems/'', P i, T ''/metadata''] []"

definition api_putSystemMetadata :: "jstring \<Rightarrow> json \<Rightarrow> api_call" where
  "api_putSystemMetadata i vs = put [T ''/systems/'', P i, T ''/metadata''] [] vs"

definition api_applySystemTemplateAll :: "jstring \<Rightarrow> jstring list option \<Rightarrow> api_call" where
  "api_applySystemTemplateAll i channelIds =
     post [T ''/systems/'', P i, T ''/apply-template''] []
       (JObj [(js ''channel_ids'', JArr (map JStr (coalesce channelIds [])))])"

definition api_setServiceSystem :: "jstring \<Rightarrow> bool \<Rightarrow> jstring \<Rightarrow> api_call" where
  "api_setServiceSystem name isSystem systemKind =
     put [T ''/services/'', P name, T ''/system''] []
       (JObj [(js ''is_system'', JBool isSystem), (js ''system_kind'', JStr systemKind)])"

datatype badge_kind = BadgeIntegration | BadgeSystem | BadgeService

definition api_setBadgePublic :: "badge_kind \<Rightarrow> jstring \<Rightarrow> bool \<Rightarrow> api_call" where
  "api_setBadgePublic kind i isPublic =
     put (if kind = BadgeIntegration then [T ''/integrations/'', P i, T ''/badge'']
          else if kind = BadgeSystem then [T ''/systems/'', P i, T ''/badge'']
          else [T ''/services/'', P i, T ''/badge''])
       [] (JObj [(js ''public'', JBool isPublic)])"

definition api_setMessageColumns :: "jstring \<Rightarrow> json \<Rightarrow> api_call" where
  "api_setMessageColumns integrationID cols =
     put [T ''/integrations/'', P integrationID, T ''/message-columns''] [] (JObj [(js ''columns'', cols)])"

definition api_applySystemTemplate :: "jstring \<Rightarrow> jstring list option \<Rightarrow> api_call" where
  "api_applySystemTemplate name channelIds =
     post [T ''/services/'', P name, T ''/system/apply-template''] []
       (JObj [(js ''channel_ids'', JArr (map JStr (coalesce channelIds [])))])"

definition api_applyTemplate :: "jstring \<Rightarrow> jstring \<Rightarrow> jstring list option \<Rightarrow> api_call" where
  "api_applyTemplate name kind channelIds =
     post [T ''/services/'', P name, T ''/apply-template''] []
       (JObj [(js ''kind'', JStr kind), (js ''channel_ids'', JArr (map JStr (coalesce channelIds [])))])"

definition api_templateSuggestions :: "jstring \<Rightarrow> api_call" where
  "api_templateSuggestions name = get [T ''/services/'', P name, T ''/template-suggestions''] []"

definition api_removeTemplate :: "jstring \<Rightarrow> jstring option \<Rightarrow> jstring option \<Rightarrow> api_call" where
  "api_removeTemplate name kind templateId =
     post [T ''/services/'', P name, T ''/remove-template''] []
       (JObj (defined ''kind'' kind @ defined ''template_id'' templateId))"

definition api_applyCustomTemplate :: "jstring \<Rightarrow> jstring \<Rightarrow> jstring list option \<Rightarrow> api_call" where
  "api_applyCustomTemplate name templateId channelIds =
     post [T ''/services/'', P name, T ''/apply-template''] []
       (JObj [(js ''template_id'', JStr templateId),
               (js ''channel_ids'', JArr (map JStr (coalesce channelIds [])))])"

definition api_listMonitoringTemplates :: "api_call" where
  "api_listMonitoringTemplates = get [T ''/monitoring-templates''] []"

definition api_createMonitoringTemplate :: "json \<Rightarrow> api_call" where
  "api_createMonitoringTemplate body = post [T ''/monitoring-templates''] [] body"

definition api_updateMonitoringTemplate :: "jstring \<Rightarrow> json \<Rightarrow> api_call" where
  "api_updateMonitoringTemplate i body = put [T ''/monitoring-templates/'', P i] [] body"

definition api_deleteMonitoringTemplate :: "jstring \<Rightarrow> api_call" where
  "api_deleteMonitoringTemplate i = del [T ''/monitoring-templates/'', P i] []"

definition api_listSystemTypes :: "api_call" where "api_listSystemTypes = get [T ''/system-types''] []"

definition api_createSystemType :: "json \<Rightarrow> api_call" where
  "api_createSystemType body = post [T ''/system-types''] [] body"

definition api_updateSystemType :: "jstring \<Rightarrow> json \<Rightarrow> api_call" where
  "api_updateSystemType i body = put [T ''/system-types/'', P i] [] body"

definition api_deleteSystemType :: "jstring \<Rightarrow> api_call" where
  "api_deleteSystemType i = del [T ''/system-types/'', P i] []"

section \<open>Search, traces and preferences\<close>

definition api_errorsFeed :: "jstring option \<Rightarrow> api_call" where
  "api_errorsFeed window = get [T ''/errors''] [T ''?range='', P (coalesce window (js ''1h''))]"

definition api_getDigest :: "api_call" where "api_getDigest = get [T ''/digest''] []"

definition api_markDigestSeen :: "api_call" where "api_markDigestSeen = postEmpty [T ''/digest/seen''] []"

definition api_serviceDetail :: "jstring \<Rightarrow> jstring option \<Rightarrow> api_call" where
  "api_serviceDetail name window =
     get [T ''/services/'', P name] [T ''?range='', P (coalesce window (js ''1h''))]"

definition api_search :: "jstring \<Rightarrow> jstring option \<Rightarrow> jstring option \<Rightarrow> jstring option \<Rightarrow> bool \<Rightarrow> api_call" where
  "api_search q window integrationId serviceName onlyFailed =
     (let ps = [(js ''q'', q), (js ''range'', coalesce window (js ''1h''))];
          ps = (if truthy_str serviceName then params_set ps (js ''service'') (the serviceName)
                else param_given ''integration'' integrationId ps)
      in get [T ''/search''] (query_text (if onlyFailed then params_set ps (js ''only_failed'') (js ''true'') else ps)))"

definition api_globalSearch :: "jstring \<Rightarrow> jstring option \<Rightarrow> api_call" where
  "api_globalSearch q window =
     get [T ''/global-search''] [T ''?q='', P q, T ''&range='', P (coalesce window (js ''1h''))]"

definition api_traceDetail :: "jstring \<Rightarrow> api_call" where
  "api_traceDetail traceId = get [T ''/traces/'', P traceId] []"

definition api_traceChain :: "jstring \<Rightarrow> api_call" where
  "api_traceChain traceId = get [T ''/traces/'', P traceId, T ''/chain''] []"

definition api_getPreference :: "jstring \<Rightarrow> api_call" where
  "api_getPreference k = get [T ''/me/preferences/'', P k] []"

definition api_putPreference :: "jstring \<Rightarrow> json \<Rightarrow> api_call" where
  "api_putPreference k v = put [T ''/me/preferences/'', P k] [] (JObj [(js ''value'', v)])"

section \<open>Integrations\<close>

definition api_listIntegrations :: "jstring option \<Rightarrow> bool \<Rightarrow> bool \<Rightarrow> jstring list option \<Rightarrow> bool \<Rightarrow> api_call" where
  "api_listIntegrations window series deferred envs environments =
     get [T ''/integrations''] ([T ''?range='', P (coalesce window (js ''1h''))] @ flag series ''&series=1'' @ flag deferred ''&stats=defer''
       @ concat (map (\<lambda>e. [T ''&env='', P (envToParam e)]) (coalesce envs [])) @ flag environments ''&environments=1'')"

definition api_integrationStats :: "jstring list \<Rightarrow> jstring option \<Rightarrow> bool \<Rightarrow> bool \<Rightarrow> api_call" where
  "api_integrationStats ids window series environments =
     get [T ''/integrations/stats''] ([T ''?ids='', P (join (js '','') ids), T ''&range='', P (coalesce window (js ''1h''))]
       @ flag series ''&series=1'' @ flag environments ''&environments=1'')"

definition api_integrationEnvironments :: "jstring \<Rightarrow> jstring option \<Rightarrow> api_call" where
  "api_integrationEnvironments i window =
     get [T ''/integrations/'', P i, T ''/environments''] [T ''?range='', P (coalesce window (js ''1h'')), T ''&env='']"

definition api_setIntegrationSources :: "jstring \<Rightarrow> json \<Rightarrow> api_call" where
  "api_setIntegrationSources i srcs =
     put [T ''/integrations/'', P i, T ''/sources''] [] (JObj [(js ''sources'', srcs)])"

definition api_serviceEnvironments :: "jstring \<Rightarrow> jstring option \<Rightarrow> api_call" where
  "api_serviceEnvironments name window =
     get [T ''/services/'', P name, T ''/environments''] [T ''?range='', P (coalesce window (js ''1h'')), T ''&env='']"

definition api_setDeclaredEnvironments :: "jstring \<Rightarrow> jstring list \<Rightarrow> api_call" where
  "api_setDeclaredEnvironments i envs =
     put [T ''/integrations/'', P i, T ''/declared-environments''] []
       (JObj [(js ''environments'', JArr (map JStr envs))])"

definition api_listEnvironments :: "jstring option \<Rightarrow> api_call" where
  "api_listEnvironments window =
     get [T ''/environments''] [T ''?range='', P (coalesce window (js ''24h''))]"

definition api_getTelemetryEnvironment :: "api_call" where
  "api_getTelemetryEnvironment = get [T ''/cell-settings/telemetry-environment''] []"

definition api_setTelemetryEnvironment :: "json \<Rightarrow> api_call" where
  "api_setTelemetryEnvironment body = put [T ''/cell-settings/telemetry-environment''] [] body"

definition api_previewIntegrationRules :: "json \<Rightarrow> jstring option \<Rightarrow> api_call" where
  "api_previewIntegrationRules body window =
     post [T ''/integrations/preview''] [T ''?range='', P (coalesce window (js ''1h''))] body"

definition api_getIntegration :: "jstring \<Rightarrow> jstring option \<Rightarrow> api_call" where
  "api_getIntegration i window =
     get [T ''/integrations/'', P i] [T ''?range='', P (coalesce window (js ''1h''))]"

definition api_createIntegration :: "json \<Rightarrow> api_call" where
  "api_createIntegration req = post [T ''/integrations''] [] req"

definition api_updateIntegration :: "jstring \<Rightarrow> json \<Rightarrow> api_call" where
  "api_updateIntegration i body = put [T ''/integrations/'', P i] [] body"

definition api_deleteIntegration :: "jstring \<Rightarrow> api_call" where
  "api_deleteIntegration i = del [T ''/integrations/'', P i] []"

definition api_integrationDeleteImpact :: "jstring \<Rightarrow> api_call" where
  "api_integrationDeleteImpact i = get [T ''/integrations/'', P i, T ''/delete-impact''] []"

definition api_cloneIntegration :: "jstring \<Rightarrow> json \<Rightarrow> api_call" where
  "api_cloneIntegration i body = post [T ''/integrations/'', P i, T ''/clone''] [] body"

definition api_addMatcher :: "jstring \<Rightarrow> json \<Rightarrow> api_call" where
  "api_addMatcher i body = post [T ''/integrations/'', P i, T ''/matchers''] [] body"

definition api_removeMatcher :: "jstring \<Rightarrow> jstring \<Rightarrow> api_call" where
  "api_removeMatcher i matcherId = del [T ''/integrations/'', P i, T ''/matchers/'', P matcherId] []"

definition api_replaceMatchers :: "jstring \<Rightarrow> json \<Rightarrow> api_call" where
  "api_replaceMatchers i body = put [T ''/integrations/'', P i, T ''/matchers''] [] body"

definition api_removeServiceFromIntegration :: "jstring \<Rightarrow> jstring \<Rightarrow> api_call" where
  "api_removeServiceFromIntegration i serviceName =
     del [T ''/integrations/'', P i, T ''/services/'', P serviceName] []"

section \<open>Topology, branding and collectors\<close>

datatype topology_view = ServicesView | IntegrationsView

definition api_getTopology :: "jstring option \<Rightarrow> topology_view option \<Rightarrow> bool \<Rightarrow> api_call" where
  "api_getTopology window view historical =
     get [T ''/topology'']
       ([T ''?range='', P (coalesce window (js ''24h'')), T ''&view='',
         R (case coalesce view ServicesView of ServicesView \<Rightarrow> js ''services'' | IntegrationsView \<Rightarrow> js ''integrations'')]
        @ flag historical ''&historical=1'')"

definition api_getMetadataGraph :: "api_call" where "api_getMetadataGraph = get [T ''/metadata-graph''] []"

definition api_getNavigationReach :: "api_call" where
  "api_getNavigationReach = get [T ''/me/navigation''] []"

definition api_getBranding :: "api_call" where "api_getBranding = get [T ''/cell-settings/branding''] []"

definition api_getLoginBranding :: "api_call" where "api_getLoginBranding = get [T ''/branding/login''] []"

definition api_setBranding :: "json \<Rightarrow> api_call" where
  "api_setBranding body = put [T ''/cell-settings/branding''] [] body"

definition api_setIntegrationMessageFilters :: "jstring \<Rightarrow> json \<Rightarrow> api_call" where
  "api_setIntegrationMessageFilters i fs =
     put [T ''/integrations/'', P i, T ''/message-filters''] [] (JObj [(js ''filters'', fs)])"

definition api_getCollectorTarget :: "api_call" where
  "api_getCollectorTarget = get [T ''/collector-target''] []"

definition api_setCollectorTarget :: "json \<Rightarrow> api_call" where
  "api_setCollectorTarget body = patch [T ''/collector-target''] [] body"

definition api_getServiceCollectorTarget :: "jstring \<Rightarrow> api_call" where
  "api_getServiceCollectorTarget service =
     get [T ''/services/'', P service, T ''/collector-target''] []"

definition api_setServiceCollectorTarget :: "jstring \<Rightarrow> json \<Rightarrow> api_call" where
  "api_setServiceCollectorTarget service body =
     patch [T ''/services/'', P service, T ''/collector-target''] [] body"

definition api_integrationErrorBreakdown :: "jstring \<Rightarrow> jstring option \<Rightarrow> api_call" where
  "api_integrationErrorBreakdown i window =
     get [T ''/integrations/'', P i, T ''/error-breakdown''] [T ''?range='', P (coalesce window (js ''1h''))]"

definition api_integrationFlow :: "jstring \<Rightarrow> jstring option \<Rightarrow> jstring option \<Rightarrow> bool \<Rightarrow> api_call" where
  "api_integrationFlow i window trace historical =
     get [T ''/integrations/'', P i, T ''/flow''] ([T ''?range='', P (coalesce window (js ''1h''))]
       @ given trace (\<lambda>t. [T ''&trace='', P t]) @ flag historical ''&historical=1'')"

section \<open>Facets and service pages\<close>

definition api_listServiceFacets :: "api_call" where
  "api_listServiceFacets = get [T ''/service-facets''] []"

definition api_getServiceFacet :: "jstring \<Rightarrow> jstring option \<Rightarrow> api_call" where
  "api_getServiceFacet slug window =
     get [T ''/service-facets/'', P slug] [T ''?range='', P (coalesce window (js ''1h''))]"

definition api_createServiceFacet :: "json \<Rightarrow> api_call" where
  "api_createServiceFacet body = post [T ''/service-facets''] [] body"

definition api_updateServiceFacet :: "jstring \<Rightarrow> json \<Rightarrow> api_call" where
  "api_updateServiceFacet slug body = put [T ''/service-facets/'', P slug] [] body"

definition api_deleteServiceFacet :: "jstring \<Rightarrow> api_call" where
  "api_deleteServiceFacet slug = del [T ''/service-facets/'', P slug] []"

definition api_serviceWidgets :: "jstring \<Rightarrow> jstring option \<Rightarrow> api_call" where
  "api_serviceWidgets name window =
     get [T ''/services/'', P name, T ''/widgets''] [T ''?range='', P (coalesce window (js ''1h''))]"

definition api_serviceTraces :: "jstring \<Rightarrow> jstring option \<Rightarrow> bool \<Rightarrow> api_call" where
  "api_serviceTraces name window onlyFailed =
     get [T ''/services/'', P name, T ''/traces''] ([T ''?range='', P (coalesce window (js ''1h''))] @ flag onlyFailed ''&only_failed=1'')"

definition api_serviceNeighbors :: "jstring \<Rightarrow> jstring option \<Rightarrow> api_call" where
  "api_serviceNeighbors name window =
     get [T ''/services/'', P name, T ''/neighbors''] [T ''?range='', P (coalesce window (js ''1h''))]"

definition api_getServiceMetadata :: "jstring \<Rightarrow> api_call" where
  "api_getServiceMetadata name = get [T ''/services/'', P name, T ''/metadata''] []"

definition api_updateServiceMetadata :: "jstring \<Rightarrow> json \<Rightarrow> api_call" where
  "api_updateServiceMetadata name body = put [T ''/services/'', P name, T ''/metadata''] [] body"

section \<open>Metadata, schemas and maps\<close>

definition api_listMetadataFields :: "api_call" where
  "api_listMetadataFields = get [T ''/metadata-fields''] []"

definition api_createMetadataField :: "json \<Rightarrow> api_call" where
  "api_createMetadataField body = post [T ''/metadata-fields''] [] body"

definition api_updateMetadataField :: "jstring \<Rightarrow> json \<Rightarrow> api_call" where
  "api_updateMetadataField i body = patch [T ''/metadata-fields/'', P i] [] body"

definition api_deleteMetadataField :: "jstring \<Rightarrow> api_call" where
  "api_deleteMetadataField i = del [T ''/metadata-fields/'', P i] []"

definition api_setIntegrationMetadata :: "jstring \<Rightarrow> json \<Rightarrow> api_call" where
  "api_setIntegrationMetadata i vs = put [T ''/integrations/'', P i, T ''/metadata''] [] vs"

definition api_setServiceMetadataExtras :: "jstring \<Rightarrow> json \<Rightarrow> api_call" where
  "api_setServiceMetadataExtras name vs = put [T ''/services/'', P name, T ''/metadata-extras''] [] vs"

definition api_listSchemas :: "api_call" where "api_listSchemas = get [T ''/schemas''] []"

definition api_getSchema :: "jstring \<Rightarrow> api_call" where
  "api_getSchema i = get [T ''/schemas/'', P i] []"

definition api_createSchema :: "json \<Rightarrow> api_call" where
  "api_createSchema body = post [T ''/schemas''] [] body"

definition api_updateSchema :: "jstring \<Rightarrow> json \<Rightarrow> api_call" where
  "api_updateSchema i body = patch [T ''/schemas/'', P i] [] body"

definition api_deleteSchema :: "jstring \<Rightarrow> api_call" where
  "api_deleteSchema i = del [T ''/schemas/'', P i] []"

definition api_setServiceSchemas :: "jstring \<Rightarrow> json \<Rightarrow> api_call" where
  "api_setServiceSchemas name body = put [T ''/services/'', P name, T ''/schemas''] [] body"

definition api_listMaps :: "api_call" where "api_listMaps = get [T ''/maps''] []"

definition api_getMap :: "jstring \<Rightarrow> api_call" where "api_getMap i = get [T ''/maps/'', P i] []"

definition api_createMap :: "json \<Rightarrow> api_call" where
  "api_createMap body = post [T ''/maps''] [] body"

definition api_updateMap :: "jstring \<Rightarrow> json \<Rightarrow> api_call" where
  "api_updateMap i body = patch [T ''/maps/'', P i] [] body"

definition api_deleteMap :: "jstring \<Rightarrow> api_call" where
  "api_deleteMap i = del [T ''/maps/'', P i] []"

definition api_executeMap :: "jstring \<Rightarrow> json \<Rightarrow> api_call" where
  "api_executeMap i body = post [T ''/maps/'', P i, T ''/execute''] [] body"

section \<open>Facet mappings and readings\<close>

definition api_listFacetMappings :: "jstring \<Rightarrow> api_call" where
  "api_listFacetMappings name = get [T ''/services/'', P name, T ''/facet-mappings''] []"

definition api_createFacetMapping :: "jstring \<Rightarrow> json \<Rightarrow> api_call" where
  "api_createFacetMapping name req = post [T ''/services/'', P name, T ''/facet-mappings''] [] req"

definition api_deleteFacetMapping :: "jstring \<Rightarrow> jstring \<Rightarrow> api_call" where
  "api_deleteFacetMapping name i = del [T ''/services/'', P name, T ''/facet-mappings/'', P i] []"

definition api_getServiceFacetOverrides :: "jstring \<Rightarrow> api_call" where
  "api_getServiceFacetOverrides name = get [T ''/services/'', P name, T ''/facet-overrides''] []"

definition api_updateServiceFacetOverrides :: "jstring \<Rightarrow> json \<Rightarrow> api_call" where
  "api_updateServiceFacetOverrides name req =
     put [T ''/services/'', P name, T ''/facet-overrides''] [] req"

definition api_serviceReadings :: "jstring \<Rightarrow> api_call" where
  "api_serviceReadings name = get [T ''/services/'', P name, T ''/readings''] []"

definition api_pushHealthCheckValue :: "jstring \<Rightarrow> jstring \<Rightarrow> rat \<Rightarrow> api_call" where
  "api_pushHealthCheckValue name i v =
     post [T ''/services/'', P name, T ''/health-checks/'', P i, T ''/value''] []
       (JObj [(js ''value'', JNum v)])"

definition api_clearServiceErrors :: "jstring \<Rightarrow> jstring option \<Rightarrow> api_call" where
  "api_clearServiceErrors name comment =
     post [T ''/services/'', P name, T ''/clear-errors''] []
       (JObj [(js ''comment'', JStr (coalesce comment []))])"

definition api_unclearServiceErrors :: "jstring \<Rightarrow> api_call" where
  "api_unclearServiceErrors name = del [T ''/services/'', P name, T ''/clear-errors''] []"

section \<open>Logs and metrics\<close>

definition api_listServiceLogs :: "('f \<Rightarrow> jstring) \<Rightarrow> jstring \<Rightarrow> jstring option \<Rightarrow> 'f search_opts \<Rightarrow> api_call" where
  "api_listServiceLogs str name window opts =
     get [T ''/services/'', P name, T ''/logs'']
       (query_text (append_attrs str (so_attrs opts) (param_cursor (so_cursor opts) (param_number ''limit'' (so_limit opts)
         (param_given ''trace_id'' (so_traceId opts) (param_number ''min_severity'' (so_minSeverity opts) (param_given ''q'' (so_q opts)
           [(js ''range'', coalesce window (js ''1h''))])))))))"

definition api_listServiceMetricNames :: "jstring \<Rightarrow> jstring option \<Rightarrow> api_call" where
  "api_listServiceMetricNames name window =
     get [T ''/services/'', P name, T ''/metric-names''] [T ''?range='', P (coalesce window (js ''1h''))]"

definition api_serviceMetricSeries :: "jstring \<Rightarrow> jstring \<Rightarrow> jstring option \<Rightarrow> jstring option \<Rightarrow> nat option \<Rightarrow> api_call" where
  "api_serviceMetricSeries name metric window transform stepSeconds =
     get [T ''/services/'', P name, T ''/metric-series'']
       (query_text (param_number ''step'' stepSeconds (param_given ''transform'' transform
         [(js ''metric'', metric), (js ''range'', coalesce window (js ''1h''))])))"

definition api_searchLogs :: "('f \<Rightarrow> jstring) \<Rightarrow> jstring option \<Rightarrow> 'f search_opts \<Rightarrow> api_call" where
  "api_searchLogs str window opts =
     get [T ''/logs'']
       (query_text (append_attrs str (so_attrs opts) (param_cursor (so_cursor opts) (param_number ''limit'' (so_limit opts)
         (param_given ''trace_id'' (so_traceId opts) (param_given ''integration'' (so_integration opts)
           (param_given ''service'' (so_service opts) (param_number ''min_severity'' (so_minSeverity opts)
             (param_given ''q'' (so_q opts) [(js ''range'', coalesce window (js ''1h''))])))))))))"

definition api_getLog :: "jstring \<Rightarrow> api_call" where "api_getLog i = get [T ''/logs/'', P i] []"

definition api_logServices :: "jstring option \<Rightarrow> api_call" where
  "api_logServices window = get [T ''/log-services''] [T ''?range='', P (coalesce window (js ''1h''))]"

definition api_logFields :: "jstring option \<Rightarrow> jstring option \<Rightarrow> api_call" where
  "api_logFields window integration =
     get [T ''/log-fields''] ([T ''?range='', P (coalesce window (js ''1h''))] @ given integration (\<lambda>x. [T ''&integration='', P x]))"

definition api_logAttrValues :: "jstring \<Rightarrow> jstring option \<Rightarrow> nat option \<Rightarrow> jstring option \<Rightarrow> api_call" where
  "api_logAttrValues k window limit integration =
     get [T ''/log-attributes/'', P k, T ''/values'']
       ([T ''?range='', P (coalesce window (js ''1h'')), T ''&limit='', R (show_nat (coalesce limit 50))] @ given integration (\<lambda>x. [T ''&integration='', P x]))"

definition api_logVolume :: "('f \<Rightarrow> jstring) \<Rightarrow> jstring option \<Rightarrow> 'f search_opts \<Rightarrow> api_call" where
  "api_logVolume str window opts =
     get [T ''/logs/volume'']
       (query_text (append_attrs str (so_attrs opts) (param_number ''buckets'' (so_buckets opts)
         (param_given ''integration'' (so_integration opts) (param_given ''service'' (so_service opts)
           (param_number ''min_severity'' (so_minSeverity opts) (param_given ''q'' (so_q opts) [(js ''range'', coalesce window (js ''1h''))])))))))"

definition api_listMetricCatalog :: "jstring option \<Rightarrow> api_call" where
  "api_listMetricCatalog window =
     get [T ''/metric-names''] [T ''?range='', P (coalesce window (js ''1h''))]"

definition api_metricCatalog :: "('f \<Rightarrow> jstring) \<Rightarrow> jstring option \<Rightarrow> 'f search_opts \<Rightarrow> api_call" where
  "api_metricCatalog str window opts =
     get [T ''/metric-catalog'']
       (query_text (append_attrs str (so_attrs opts) (param_number ''limit'' (so_limit opts)
         (param_given ''integration'' (so_integration opts) (param_given ''service'' (so_service opts)
           (param_type (so_type opts) (param_given ''q'' (so_q opts) [(js ''range'', coalesce window (js ''1h''))])))))))"

definition api_metricGroups :: "('f \<Rightarrow> jstring) \<Rightarrow> jstring option \<Rightarrow> jstring \<Rightarrow> 'f search_opts \<Rightarrow> api_call" where
  "api_metricGroups str window axis opts =
     get [T ''/metric-groups'']
       (query_text (append_attrs str (so_attrs opts) (param_type (so_type opts)
         (param_given ''q'' (so_q opts) (param_given ''key'' (so_key opts) [(js ''range'', coalesce window (js ''1h'')), (js ''by'', axis)])))))"

definition api_logGroups :: "('f \<Rightarrow> jstring) \<Rightarrow> jstring option \<Rightarrow> jstring \<Rightarrow> 'f search_opts \<Rightarrow> api_call" where
  "api_logGroups str window axis opts =
     get [T ''/logs/groups'']
       (query_text (append_attrs str (so_attrs opts) (param_given ''integration'' (so_integration opts)
         (param_given ''service'' (so_service opts) (param_number ''min_severity'' (so_minSeverity opts)
           (param_given ''q'' (so_q opts) (param_given ''key'' (so_key opts) [(js ''range'', coalesce window (js ''1h'')), (js ''by'', axis)])))))))"

definition api_usageReport :: "jstring option \<Rightarrow> api_call" where
  "api_usageReport window =
     get [T ''/reports/usage''] [T ''?range='', P (coalesce window (js ''24h''))]"

definition api_usageVolume :: "jstring option \<Rightarrow> bool \<Rightarrow> api_call" where
  "api_usageVolume window windowed =
     get [T ''/usage/volume''] ([T ''?range='', P (coalesce window (js ''1h''))] @ flag windowed ''&windowed=1'')"

definition api_metricFields :: "jstring option \<Rightarrow> jstring option \<Rightarrow> jstring option \<Rightarrow> api_call" where
  "api_metricFields window metric integration =
     get [T ''/metric-fields''] ([T ''?range='', P (coalesce window (js ''1h''))] @ given metric (\<lambda>x. [T ''&metric='', P x])
       @ given integration (\<lambda>x. [T ''&integration='', P x]))"

definition api_metricAttributeValues :: "jstring \<Rightarrow> jstring option \<Rightarrow> nat option \<Rightarrow> jstring option \<Rightarrow> jstring option \<Rightarrow> jstring option \<Rightarrow> api_call" where
  "api_metricAttributeValues k window limit metric q integration =
     get [T ''/metric-attributes/'', P k, T ''/values'']
       ([T ''?range='', P (coalesce window (js ''1h'')), T ''&limit='', R (show_nat (coalesce limit 50))] @ given metric (\<lambda>x. [T ''&metric='', P x])
        @ given q (\<lambda>x. [T ''&q='', P x]) @ given integration (\<lambda>x. [T ''&integration='', P x]))"

section \<open>Alerting\<close>

definition api_listAlertRules :: "jstring option \<Rightarrow> jstring option \<Rightarrow> jstring option \<Rightarrow> api_call" where
  "api_listAlertRules service integration system =
     get [T ''/alert-rules'']
       (optional_query (param_given ''system'' system (param_given ''integration'' integration (param_given ''service'' service []))))"

definition api_createAlertRule :: "json \<Rightarrow> api_call" where
  "api_createAlertRule body = post [T ''/alert-rules''] [] body"

definition api_updateAlertRule :: "jstring \<Rightarrow> json \<Rightarrow> api_call" where
  "api_updateAlertRule i body = put [T ''/alert-rules/'', P i] [] body"

definition api_deleteAlertRule :: "jstring \<Rightarrow> api_call" where
  "api_deleteAlertRule i = del [T ''/alert-rules/'', P i] []"

definition api_previewAlertRule :: "json \<Rightarrow> jstring option \<Rightarrow> jstring option \<Rightarrow> jstring option \<Rightarrow> api_call" where
  "api_previewAlertRule spec serviceName integrationId systemId =
     post [T ''/alert-rules/preview''] []
       (JObj ((js ''spec'', spec) # defined ''service_name'' serviceName @ defined ''integration_id'' integrationId
              @ defined ''system_id'' systemId))"

definition api_getOrgNotificationTemplates :: "api_call" where
  "api_getOrgNotificationTemplates = get [T ''/settings/notification-templates''] []"

definition api_putOrgNotificationTemplates :: "json \<Rightarrow> api_call" where
  "api_putOrgNotificationTemplates body = put [T ''/settings/notification-templates''] [] body"

definition api_getGroupNotificationTemplate :: "jstring \<Rightarrow> api_call" where
  "api_getGroupNotificationTemplate groupId =
     get [T ''/settings/groups/'', P groupId, T ''/notification-template''] []"

definition api_putGroupNotificationTemplate :: "jstring \<Rightarrow> json \<Rightarrow> api_call" where
  "api_putGroupNotificationTemplate groupId body =
     put [T ''/settings/groups/'', P groupId, T ''/notification-template''] [] body"

definition api_templateContextSchema :: "jstring option \<Rightarrow> api_call" where
  "api_templateContextSchema scope =
     get [T ''/alerting/template-context-schema''] (given scope (\<lambda>x. [T ''?scope='', P x]))"

definition api_previewAlertTemplate :: "jstring \<Rightarrow> json \<Rightarrow> jstring option \<Rightarrow> api_call" where
  "api_previewAlertTemplate kind content bodyTemplate =
     post [T ''/alert-templates/preview''] []
       (JObj ([(js ''kind'', JStr kind), (js ''content'', content)] @ defined ''body_template'' bodyTemplate))"

definition api_listAlertInstances :: "nat option \<Rightarrow> api_call" where
  "api_listAlertInstances limit =
     get [T ''/alert-instances''] [T ''?limit='', R (show_nat (coalesce limit 100))]"

definition api_exportConfigBundle :: "api_call" where
  "api_exportConfigBundle = get [T ''/settings/config-export''] []"

datatype import_mode = StrictMode | ReplaceMode

definition api_importConfigBundle :: "json \<Rightarrow> import_mode \<Rightarrow> bool \<Rightarrow> bool option \<Rightarrow> api_call" where
  "api_importConfigBundle bundle mode dryRun matchMembersByEmail =
     post [T ''/settings/config-import'']
       [T ''?mode='', R (case mode of StrictMode \<Rightarrow> js ''strict'' | ReplaceMode \<Rightarrow> js ''replace''),
        T ''&dry_run='', R (if dryRun then js ''true'' else js ''false''),
        T ''&match_members_dimemail='', R (if truthy_bool matchMembersByEmail then js ''true'' else js ''false'')] bundle"

section \<open>Announcements, maintenance and deliveries\<close>

definition api_listMyAnnouncements :: "api_call" where
  "api_listMyAnnouncements = get [T ''/announcements''] []"

definition api_dismissAnnouncement :: "jstring \<Rightarrow> api_call" where
  "api_dismissAnnouncement i = post [T ''/announcements/'', P i, T ''/dismiss''] [] (JObj [])"

definition api_listCellAnnouncements :: "api_call" where
  "api_listCellAnnouncements = get [T ''/operator/announcements''] []"

definition api_createCellAnnouncement :: "json \<Rightarrow> api_call" where
  "api_createCellAnnouncement body = post [T ''/operator/announcements''] [] body"

definition api_deleteCellAnnouncement :: "jstring \<Rightarrow> api_call" where
  "api_deleteCellAnnouncement i = del [T ''/operator/announcements/'', P i] []"

definition api_listMaintenanceWindows :: "api_call" where
  "api_listMaintenanceWindows = get [T ''/maintenance-windows''] []"

definition api_createMaintenanceWindow :: "json \<Rightarrow> api_call" where
  "api_createMaintenanceWindow body = post [T ''/maintenance-windows''] [] body"

definition api_updateMaintenanceWindow :: "jstring \<Rightarrow> json \<Rightarrow> api_call" where
  "api_updateMaintenanceWindow i body = patch [T ''/maintenance-windows/'', P i] [] body"

definition api_endMaintenanceWindow :: "jstring \<Rightarrow> api_call" where
  "api_endMaintenanceWindow i = del [T ''/maintenance-windows/'', P i] []"

definition api_listMaintenanceSchedules :: "api_call" where
  "api_listMaintenanceSchedules = get [T ''/maintenance-schedules''] []"

definition api_createMaintenanceSchedule :: "json \<Rightarrow> api_call" where
  "api_createMaintenanceSchedule body = post [T ''/maintenance-schedules''] [] body"

definition api_updateMaintenanceSchedule :: "jstring \<Rightarrow> json \<Rightarrow> api_call" where
  "api_updateMaintenanceSchedule i body = patch [T ''/maintenance-schedules/'', P i] [] body"

definition api_deleteMaintenanceSchedule :: "jstring \<Rightarrow> api_call" where
  "api_deleteMaintenanceSchedule i = del [T ''/maintenance-schedules/'', P i] []"

definition api_retryAlertDelivery :: "jstring \<Rightarrow> api_call" where
  "api_retryAlertDelivery i = post [T ''/alert-deliveries/'', P i, T ''/retry''] [] (JObj [])"

definition api_listAlertDeliveries :: "jstring option \<Rightarrow> jstring option \<Rightarrow> jstring option \<Rightarrow> jstring option \<Rightarrow> jstring option \<Rightarrow> nat option \<Rightarrow> api_call" where
  "api_listAlertDeliveries window service integration system name limit =
     get [T ''/alert-deliveries'']
       (query_text (params_set (param_given ''name'' name (param_given ''system'' system (param_given ''integration'' integration
         (param_given ''service'' service (param_given ''range'' window []))))) (js ''limit'') (show_nat (coalesce limit 500))))"

definition api_acknowledgeAlertInstance :: "jstring \<Rightarrow> api_call" where
  "api_acknowledgeAlertInstance i = postEmpty [T ''/alert-instances/'', P i, T ''/acknowledge''] []"

definition api_resolveAlertInstance :: "jstring \<Rightarrow> api_call" where
  "api_resolveAlertInstance i = postEmpty [T ''/alert-instances/'', P i, T ''/resolve''] []"

section \<open>Keys, channels and events\<close>

definition api_listIngestKeys :: "api_call" where "api_listIngestKeys = get [T ''/ingest-keys''] []"

definition api_createIngestKey :: "jstring \<Rightarrow> api_call" where
  "api_createIngestKey name = post [T ''/ingest-keys''] [] (JObj [(js ''name'', JStr name)])"

definition api_revokeIngestKey :: "jstring \<Rightarrow> api_call" where
  "api_revokeIngestKey i = del [T ''/ingest-keys/'', P i] []"

definition api_listChannels :: "api_call" where "api_listChannels = get [T ''/notification-channels''] []"

definition api_listEventTypes :: "api_call" where "api_listEventTypes = get [T ''/event-types''] []"

definition api_listEventSubscriptions :: "api_call" where
  "api_listEventSubscriptions = get [T ''/event-subscriptions''] []"

definition api_createEventSubscription :: "json \<Rightarrow> api_call" where
  "api_createEventSubscription body = post [T ''/event-subscriptions''] [] body"

definition api_updateEventSubscription :: "jstring \<Rightarrow> json \<Rightarrow> api_call" where
  "api_updateEventSubscription i body = put [T ''/event-subscriptions/'', P i] [] body"

definition api_deleteEventSubscription :: "jstring \<Rightarrow> api_call" where
  "api_deleteEventSubscription i = del [T ''/event-subscriptions/'', P i] []"

definition api_listProposals :: "jstring option \<Rightarrow> api_call" where
  "api_listProposals state =
     get [T ''/proposals''] (given state (\<lambda>x. [T ''?state='', P x]))"

definition api_getProposal :: "jstring \<Rightarrow> api_call" where
  "api_getProposal i = get [T ''/proposals/'', P i] []"

definition api_approveProposal :: "jstring \<Rightarrow> json option \<Rightarrow> api_call" where
  "api_approveProposal i b =
     post [T ''/proposals/'', P i, T ''/approve''] [] (coalesce b (JObj []))"

definition api_rejectProposal :: "jstring \<Rightarrow> json option \<Rightarrow> api_call" where
  "api_rejectProposal i b =
     post [T ''/proposals/'', P i, T ''/reject''] [] (coalesce b (JObj []))"

definition api_listEventDeliveries :: "jstring \<Rightarrow> api_call" where
  "api_listEventDeliveries i = get [T ''/event-subscriptions/'', P i, T ''/deliveries''] []"

section \<open>Notification profiles\<close>

definition api_listNotificationProfiles :: "api_call" where
  "api_listNotificationProfiles = get [T ''/notification-profiles''] []"

definition api_createNotificationProfile :: "json \<Rightarrow> api_call" where
  "api_createNotificationProfile body = post [T ''/notification-profiles''] [] body"

definition api_updateNotificationProfile :: "jstring \<Rightarrow> json \<Rightarrow> api_call" where
  "api_updateNotificationProfile i body = put [T ''/notification-profiles/'', P i] [] body"

definition api_deleteNotificationProfile :: "jstring \<Rightarrow> api_call" where
  "api_deleteNotificationProfile i = del [T ''/notification-profiles/'', P i] []"

definition api_setNotificationProfileChannels :: "jstring \<Rightarrow> jstring list \<Rightarrow> api_call" where
  "api_setNotificationProfileChannels i channelIDs =
     put [T ''/notification-profiles/'', P i, T ''/channels''] []
       (JObj [(js ''channel_ids'', JArr (map JStr channelIDs))])"

definition api_getIntegrationProfile :: "jstring \<Rightarrow> api_call" where
  "api_getIntegrationProfile integrationID =
     get [T ''/integrations/'', P integrationID, T ''/notification-profile''] []"

definition api_assignIntegrationProfile :: "jstring \<Rightarrow> jstring option \<Rightarrow> api_call" where
  "api_assignIntegrationProfile integrationID profileID =
     put [T ''/integrations/'', P integrationID, T ''/notification-profile''] []
       (JObj [(js ''profile_id'', JStr (coalesce profileID []))])"

definition api_createChannel :: "json \<Rightarrow> api_call" where
  "api_createChannel body = post [T ''/notification-channels''] [] body"

definition api_updateChannel :: "jstring \<Rightarrow> json \<Rightarrow> api_call" where
  "api_updateChannel i body = put [T ''/notification-channels/'', P i] [] body"

definition api_deleteChannel :: "jstring \<Rightarrow> api_call" where
  "api_deleteChannel i = del [T ''/notification-channels/'', P i] []"

section \<open>Messages, tags and dashboards\<close>

definition api_metricSeriesByService :: "jstring \<Rightarrow> jstring option \<Rightarrow> jstring list option \<Rightarrow> jstring option \<Rightarrow> nat option \<Rightarrow> api_call" where
  "api_metricSeriesByService metric window services transform stepSeconds =
     get [T ''/metric-series'']
       (query_text (param_number ''step'' stepSeconds (param_given ''transform'' transform
         ([(js ''metric'', metric), (js ''range'', coalesce window (js ''1h''))]
          @ map (\<lambda>s. (js ''service'', s)) (coalesce services [])))))"

definition api_searchMessages :: "json \<Rightarrow> api_call" where
  "api_searchMessages req = post [T ''/messages/search''] [] req"

definition api_messageFields :: "jstring option \<Rightarrow> api_call" where
  "api_messageFields window =
     get [T ''/messages/fields''] [T ''?range='', P (coalesce window (js ''24h''))]"

definition api_listMessageViews :: "api_call" where "api_listMessageViews = get [T ''/message-views''] []"

definition api_createMessageView :: "json \<Rightarrow> api_call" where
  "api_createMessageView req = post [T ''/message-views''] [] req"

definition api_updateMessageView :: "jstring \<Rightarrow> json \<Rightarrow> api_call" where
  "api_updateMessageView i req = put [T ''/message-views/'', P i] [] req"

definition api_deleteMessageView :: "jstring \<Rightarrow> api_call" where
  "api_deleteMessageView i = del [T ''/message-views/'', P i] []"

definition api_listTags :: "api_call" where "api_listTags = get [T ''/tags''] []"

definition api_listTagsWithUsage :: "api_call" where
  "api_listTagsWithUsage = get [T ''/tags''] [T ''?include=usage'']"

definition api_createTag :: "json \<Rightarrow> api_call" where
  "api_createTag req = post [T ''/tags''] [] req"

definition api_updateTag :: "jstring \<Rightarrow> json \<Rightarrow> api_call" where
  "api_updateTag i req = patch [T ''/tags/'', P i] [] req"

definition api_deleteTag :: "jstring \<Rightarrow> api_call" where
  "api_deleteTag i = del [T ''/tags/'', P i] []"

definition api_listIntegrationTags :: "jstring \<Rightarrow> api_call" where
  "api_listIntegrationTags i = get [T ''/integrations/'', P i, T ''/tags''] []"

definition api_attachIntegrationTag :: "jstring \<Rightarrow> jstring \<Rightarrow> api_call" where
  "api_attachIntegrationTag i tagId = postEmpty [T ''/integrations/'', P i, T ''/tags/'', P tagId] []"

definition api_detachIntegrationTag :: "jstring \<Rightarrow> jstring \<Rightarrow> api_call" where
  "api_detachIntegrationTag i tagId = del [T ''/integrations/'', P i, T ''/tags/'', P tagId] []"

definition api_listServiceTags :: "jstring \<Rightarrow> api_call" where
  "api_listServiceTags name = get [T ''/services/'', P name, T ''/tags''] []"

definition api_attachServiceTag :: "jstring \<Rightarrow> jstring \<Rightarrow> api_call" where
  "api_attachServiceTag name tagId = postEmpty [T ''/services/'', P name, T ''/tags/'', P tagId] []"

definition api_detachServiceTag :: "jstring \<Rightarrow> jstring \<Rightarrow> api_call" where
  "api_detachServiceTag name tagId = del [T ''/services/'', P name, T ''/tags/'', P tagId] []"

definition api_listDashboards :: "api_call" where "api_listDashboards = get [T ''/dashboards''] []"

definition api_getDashboard :: "jstring \<Rightarrow> api_call" where
  "api_getDashboard i = get [T ''/dashboards/'', P i] []"

definition api_createDashboard :: "json \<Rightarrow> api_call" where
  "api_createDashboard req = post [T ''/dashboards''] [] req"

definition api_updateDashboard :: "jstring \<Rightarrow> json \<Rightarrow> api_call" where
  "api_updateDashboard i req = put [T ''/dashboards/'', P i] [] req"

definition api_deleteDashboard :: "jstring \<Rightarrow> api_call" where
  "api_deleteDashboard i = del [T ''/dashboards/'', P i] []"

section \<open>Sign-in and settings\<close>

definition api_login :: "json \<Rightarrow> api_call" where
  "api_login body = post [T ''/auth/login''] [] body"

definition api_logout :: "api_call" where "api_logout = post [T ''/auth/logout''] [] (JObj [])"

definition api_forgotPassword :: "jstring \<Rightarrow> api_call" where
  "api_forgotPassword email =
     post [T ''/auth/forgot-password''] [] (JObj [(js ''email'', JStr email)])"

definition api_resetPassword :: "jstring \<Rightarrow> jstring \<Rightarrow> api_call" where
  "api_resetPassword token newPassword =
     post [T ''/auth/reset-password''] []
       (JObj [(js ''token'', JStr token), (js ''new_password'', JStr newPassword)])"

definition api_mfaStatus :: "api_call" where "api_mfaStatus = get [T ''/account/mfa''] []"

definition api_mfaSetup :: "api_call" where "api_mfaSetup = post [T ''/account/mfa/setup''] [] (JObj [])"

definition api_mfaEnable :: "jstring \<Rightarrow> api_call" where
  "api_mfaEnable code = post [T ''/account/mfa/enable''] [] (JObj [(js ''code'', JStr code)])"

definition api_mfaDisable :: "jstring \<Rightarrow> api_call" where
  "api_mfaDisable code = post [T ''/account/mfa/disable''] [] (JObj [(js ''code'', JStr code)])"

definition api_mfaVerify :: "jstring \<Rightarrow> jstring \<Rightarrow> api_call" where
  "api_mfaVerify mfaToken code =
     post [T ''/auth/mfa-verify''] [] (JObj [(js ''mfa_token'', JStr mfaToken), (js ''code'', JStr code)])"

definition api_getSMTP :: "api_call" where "api_getSMTP = get [T ''/cell-settings/smtp''] []"

definition api_updateSMTP :: "json \<Rightarrow> api_call" where
  "api_updateSMTP body = patch [T ''/cell-settings/smtp''] [] body"

definition api_testSMTP :: "jstring option \<Rightarrow> api_call" where
  "api_testSMTP recipient =
     post [T ''/cell-settings/smtp/test''] [] (JObj (given recipient (\<lambda>x. [(js ''to'', JStr x)])))"

definition api_getSecuritySettings :: "api_call" where
  "api_getSecuritySettings = get [T ''/cell-settings/security''] []"

definition api_updateSecuritySettings :: "bool \<Rightarrow> api_call" where
  "api_updateSecuritySettings mfaRequired =
     patch [T ''/cell-settings/security''] [] (JObj [(js ''mfa_required'', JBool mfaRequired)])"

definition api_meAccess :: "api_call" where "api_meAccess = get [T ''/me/access''] []"

definition api_me :: "api_call" where "api_me = get [T ''/me''] []"

definition api_installState :: "api_call" where "api_installState = get [T ''/auth/install-state''] []"

definition api_bootstrapAdmin :: "json \<Rightarrow> api_call" where
  "api_bootstrapAdmin body = post [T ''/auth/bootstrap-admin''] [] body"

definition api_updateMe :: "json \<Rightarrow> api_call" where
  "api_updateMe body = patch [T ''/me''] [] body"

definition api_changePassword :: "json \<Rightarrow> api_call" where
  "api_changePassword body = post [T ''/me/password''] [] body"

definition api_getOrg :: "jstring \<Rightarrow> api_call" where "api_getOrg i = get [T ''/orgs/'', P i] []"

definition api_updateOrg :: "jstring \<Rightarrow> json \<Rightarrow> api_call" where
  "api_updateOrg i body = patch [T ''/orgs/'', P i] [] body"

definition api_license :: "api_call" where "api_license = get [T ''/license''] []"

definition api_listAuditLog :: "nat option \<Rightarrow> nat option \<Rightarrow> jstring option \<Rightarrow> jstring option \<Rightarrow> jstring option \<Rightarrow> jstring option \<Rightarrow> jstring option \<Rightarrow> api_call" where
  "api_listAuditLog limit before actor actorId action since until =
     get [T ''/audit-log'']
       (query_text (param_given ''to'' until (param_given ''from'' since (param_given ''action'' action
         (param_given ''actor_id'' actorId (param_given ''actor'' actor (param_number ''before'' before
           [(js ''limit'', show_nat (coalesce limit 100))])))))))"

definition api_verifyAuditChain :: "api_call" where
  "api_verifyAuditChain = get [T ''/audit-log/verify''] []"

definition api_getRetention :: "api_call" where
  "api_getRetention = get [T ''/cell-settings/retention''] []"

definition api_updateRetention :: "json \<Rightarrow> api_call" where
  "api_updateRetention body = patch [T ''/cell-settings/retention''] [] body"

definition api_getSystemSettings :: "api_call" where
  "api_getSystemSettings = get [T ''/cell-settings/system''] []"

definition api_updateSystemSettings :: "json \<Rightarrow> api_call" where
  "api_updateSystemSettings body = patch [T ''/cell-settings/system''] [] body"

section \<open>Trace completion\<close>

definition api_listTraceCompletionRules :: "jstring \<Rightarrow> api_call" where
  "api_listTraceCompletionRules integrationID =
     get [T ''/integrations/'', P integrationID, T ''/completion-rules''] []"

definition api_integrationSpanNames :: "jstring \<Rightarrow> jstring option \<Rightarrow> api_call" where
  "api_integrationSpanNames integrationID window =
     get [T ''/integrations/'', P integrationID, T ''/span-names''] [T ''?range='', P (coalesce window (js ''24h''))]"

definition api_integrationAttributeKeys :: "jstring \<Rightarrow> jstring option \<Rightarrow> api_call" where
  "api_integrationAttributeKeys integrationID window =
     get [T ''/integrations/'', P integrationID, T ''/attribute-keys''] [T ''?range='', P (coalesce window (js ''24h''))]"

definition api_integrationAttributeValues :: "jstring \<Rightarrow> jstring \<Rightarrow> jstring option \<Rightarrow> api_call" where
  "api_integrationAttributeValues integrationID k window =
     get [T ''/integrations/'', P integrationID, T ''/attribute-values''] [T ''?key='', P k, T ''&range='', P (coalesce window (js ''24h''))]"

definition api_createTraceCompletionRule :: "jstring \<Rightarrow> json \<Rightarrow> api_call" where
  "api_createTraceCompletionRule integrationID body =
     post [T ''/integrations/'', P integrationID, T ''/completion-rules''] [] body"

definition api_updateTraceCompletionRule :: "jstring \<Rightarrow> jstring \<Rightarrow> json \<Rightarrow> api_call" where
  "api_updateTraceCompletionRule integrationID ruleID body =
     patch [T ''/integrations/'', P integrationID, T ''/completion-rules/'', P ruleID] [] body"

definition api_deleteTraceCompletionRule :: "jstring \<Rightarrow> jstring \<Rightarrow> api_call" where
  "api_deleteTraceCompletionRule integrationID ruleID =
     del [T ''/integrations/'', P integrationID, T ''/completion-rules/'', P ruleID] []"

definition api_getCompletionCounts :: "jstring \<Rightarrow> api_call" where
  "api_getCompletionCounts integrationID =
     get [T ''/integrations/'', P integrationID, T ''/completion-counts''] []"

definition api_listCompletionFirings :: "jstring \<Rightarrow> jstring option \<Rightarrow> api_call" where
  "api_listCompletionFirings integrationID window =
     get [T ''/integrations/'', P integrationID, T ''/completion-firings''] [T ''?range='', P (coalesce window (js ''1h''))]"

definition api_listCompletionFiringsForTrace :: "jstring \<Rightarrow> api_call" where
  "api_listCompletionFiringsForTrace traceID =
     get [T ''/traces/'', P traceID, T ''/completion-firings''] []"

definition api_testChannel :: "jstring \<Rightarrow> api_call" where
  "api_testChannel i = postEmpty [T ''/notification-channels/'', P i, T ''/test''] []"

definition api_markCompletionFiringHandled :: "jstring \<Rightarrow> jstring \<Rightarrow> api_call" where
  "api_markCompletionFiringHandled integrationID instanceID =
     postEmpty [T ''/integrations/'', P integrationID, T ''/completion-firings/'', P instanceID, T ''/handle''] []"

definition api_getLimits :: "api_call" where "api_getLimits = get [T ''/limits''] []"

section \<open>Members, tokens and single sign-on\<close>

definition api_listMembers :: "api_call" where "api_listMembers = get [T ''/settings/members''] []"

definition api_addMember :: "json \<Rightarrow> api_call" where
  "api_addMember body = post [T ''/settings/members''] [] body"

definition api_updateMemberRole :: "jstring \<Rightarrow> jstring \<Rightarrow> api_call" where
  "api_updateMemberRole userId role =
     patch [T ''/settings/members/'', P userId] [] (JObj [(js ''role'', JStr role)])"

definition api_adminResetMemberPassword :: "jstring \<Rightarrow> jstring \<Rightarrow> bool \<Rightarrow> api_call" where
  "api_adminResetMemberPassword userId newPassword requireChange =
     post [T ''/settings/members/'', P userId, T ''/password''] []
       (JObj [(js ''new_password'', JStr newPassword), (js ''require_change'', JBool requireChange)])"

definition api_removeMember :: "jstring \<Rightarrow> api_call" where
  "api_removeMember userId = del [T ''/settings/members/'', P userId] []"

definition api_listTokens :: "api_call" where "api_listTokens = get [T ''/settings/tokens''] []"

definition api_createToken :: "jstring \<Rightarrow> jstring option \<Rightarrow> rat option \<Rightarrow> api_call" where
  "api_createToken name scopeRole expiresInDays =
     post [T ''/settings/tokens''] []
       (JObj [(js ''name'', JStr name), (js ''scope_role'', JStr (coalesce scopeRole [])),
               (js ''expires_in_days'', JNum (coalesce expiresInDays 0))])"

definition api_revokeToken :: "jstring \<Rightarrow> api_call" where
  "api_revokeToken i = del [T ''/settings/tokens/'', P i] []"

definition api_listServiceAccounts :: "api_call" where
  "api_listServiceAccounts = get [T ''/settings/service-accounts''] []"

definition api_createServiceAccount :: "json \<Rightarrow> api_call" where
  "api_createServiceAccount body = post [T ''/settings/service-accounts''] [] body"

definition api_updateServiceAccount :: "jstring \<Rightarrow> json \<Rightarrow> api_call" where
  "api_updateServiceAccount i body = put [T ''/settings/service-accounts/'', P i] [] body"

definition api_deleteServiceAccount :: "jstring \<Rightarrow> api_call" where
  "api_deleteServiceAccount i = del [T ''/settings/service-accounts/'', P i] []"

definition api_listServiceAccountGroups :: "jstring \<Rightarrow> api_call" where
  "api_listServiceAccountGroups i = get [T ''/settings/service-accounts/'', P i, T ''/groups''] []"

definition api_listServiceAccountTokens :: "jstring \<Rightarrow> api_call" where
  "api_listServiceAccountTokens i = get [T ''/settings/service-accounts/'', P i, T ''/tokens''] []"

definition api_createServiceAccountToken :: "jstring \<Rightarrow> jstring \<Rightarrow> jstring option \<Rightarrow> rat option \<Rightarrow> api_call" where
  "api_createServiceAccountToken i name scopeRole expiresInDays =
     post [T ''/settings/service-accounts/'', P i, T ''/tokens''] []
       (JObj [(js ''name'', JStr name), (js ''scope_role'', JStr (coalesce scopeRole [])),
               (js ''expires_in_days'', JNum (coalesce expiresInDays 0))])"

definition api_revokeServiceAccountToken :: "jstring \<Rightarrow> jstring \<Rightarrow> api_call" where
  "api_revokeServiceAccountToken i tid =
     del [T ''/settings/service-accounts/'', P i, T ''/tokens/'', P tid] []"

definition api_listSsoProviders :: "api_call" where
  "api_listSsoProviders = get [T ''/auth/sso/providers''] []"

definition api_listAuthProviders :: "api_call" where
  "api_listAuthProviders = get [T ''/settings/auth-providers''] []"

definition api_createAuthProvider :: "json \<Rightarrow> api_call" where
  "api_createAuthProvider body = post [T ''/settings/auth-providers''] [] body"

definition api_updateAuthProvider :: "jstring \<Rightarrow> json \<Rightarrow> api_call" where
  "api_updateAuthProvider i body = put [T ''/settings/auth-providers/'', P i] [] body"

definition api_deleteAuthProvider :: "jstring \<Rightarrow> api_call" where
  "api_deleteAuthProvider i = del [T ''/settings/auth-providers/'', P i] []"

definition api_listClaimMappings :: "jstring \<Rightarrow> api_call" where
  "api_listClaimMappings i = get [T ''/settings/auth-providers/'', P i, T ''/mappings''] []"

definition api_createClaimMapping :: "jstring \<Rightarrow> json \<Rightarrow> api_call" where
  "api_createClaimMapping i body =
     post [T ''/settings/auth-providers/'', P i, T ''/mappings''] [] body"

definition api_deleteClaimMapping :: "jstring \<Rightarrow> jstring \<Rightarrow> api_call" where
  "api_deleteClaimMapping i mid =
     del [T ''/settings/auth-providers/'', P i, T ''/mappings/'', P mid] []"

section \<open>Teams, policies and shares\<close>

definition api_listGroups :: "api_call" where "api_listGroups = get [T ''/settings/groups''] []"

definition api_getGroup :: "jstring \<Rightarrow> api_call" where
  "api_getGroup i = get [T ''/settings/groups/'', P i] []"

definition api_createGroup :: "json \<Rightarrow> api_call" where
  "api_createGroup body = post [T ''/settings/groups''] [] body"

definition api_updateGroup :: "jstring \<Rightarrow> json \<Rightarrow> api_call" where
  "api_updateGroup i body = patch [T ''/settings/groups/'', P i] [] body"

definition api_deleteGroup :: "jstring \<Rightarrow> api_call" where
  "api_deleteGroup i = del [T ''/settings/groups/'', P i] []"

definition api_listGroupMembers :: "jstring \<Rightarrow> api_call" where
  "api_listGroupMembers groupId = get [T ''/settings/groups/'', P groupId, T ''/members''] []"

definition api_addGroupMember :: "jstring \<Rightarrow> json \<Rightarrow> api_call" where
  "api_addGroupMember groupId body = post [T ''/settings/groups/'', P groupId, T ''/members''] [] body"

definition api_updateGroupMemberRole :: "jstring \<Rightarrow> jstring \<Rightarrow> jstring \<Rightarrow> api_call" where
  "api_updateGroupMemberRole groupId userId role =
     patch [T ''/settings/groups/'', P groupId, T ''/members/'', P userId] [] (JObj [(js ''role'', JStr role)])"

definition api_removeGroupMember :: "jstring \<Rightarrow> jstring \<Rightarrow> api_call" where
  "api_removeGroupMember groupId userId =
     del [T ''/settings/groups/'', P groupId, T ''/members/'', P userId] []"

definition api_updateGroupServiceAccountRole :: "jstring \<Rightarrow> jstring \<Rightarrow> jstring \<Rightarrow> api_call" where
  "api_updateGroupServiceAccountRole groupId saId role =
     patch [T ''/settings/groups/'', P groupId, T ''/service-accounts/'', P saId] []
       (JObj [(js ''role'', JStr role)])"

definition api_removeGroupServiceAccount :: "jstring \<Rightarrow> jstring \<Rightarrow> api_call" where
  "api_removeGroupServiceAccount groupId saId =
     del [T ''/settings/groups/'', P groupId, T ''/service-accounts/'', P saId] []"

definition api_listServiceGroups :: "jstring \<Rightarrow> api_call" where
  "api_listServiceGroups name = get [T ''/services/'', P name, T ''/groups''] []"

definition api_putServiceGroups :: "jstring \<Rightarrow> jstring list \<Rightarrow> api_call" where
  "api_putServiceGroups name groupIDs =
     put [T ''/services/'', P name, T ''/groups''] [] (JObj [(js ''group_ids'', JArr (map JStr groupIDs))])"

definition api_listGroupPolicies :: "jstring \<Rightarrow> api_call" where
  "api_listGroupPolicies groupId = get [T ''/settings/groups/'', P groupId, T ''/policies''] []"

definition api_createGroupPolicy :: "jstring \<Rightarrow> json \<Rightarrow> api_call" where
  "api_createGroupPolicy groupId body =
     post [T ''/settings/groups/'', P groupId, T ''/policies''] [] body"

definition api_updateGroupPolicy :: "jstring \<Rightarrow> jstring \<Rightarrow> json \<Rightarrow> api_call" where
  "api_updateGroupPolicy groupId policyId body =
     put [T ''/settings/groups/'', P groupId, T ''/policies/'', P policyId] [] body"

definition api_deleteGroupPolicy :: "jstring \<Rightarrow> jstring \<Rightarrow> api_call" where
  "api_deleteGroupPolicy groupId policyId =
     del [T ''/settings/groups/'', P groupId, T ''/policies/'', P policyId] []"

definition api_listIntegrationGroups :: "jstring \<Rightarrow> api_call" where
  "api_listIntegrationGroups i = get [T ''/integrations/'', P i, T ''/groups''] []"

definition api_setIntegrationGroups :: "jstring \<Rightarrow> jstring list \<Rightarrow> api_call" where
  "api_setIntegrationGroups i groupIDs =
     put [T ''/integrations/'', P i, T ''/groups''] [] (JObj [(js ''group_ids'', JArr (map JStr groupIDs))])"

definition api_listSystemGroups :: "jstring \<Rightarrow> api_call" where
  "api_listSystemGroups i = get [T ''/systems/'', P i, T ''/groups''] []"

definition api_setSystemGroups :: "jstring \<Rightarrow> jstring list \<Rightarrow> api_call" where
  "api_setSystemGroups i groupIDs =
     put [T ''/systems/'', P i, T ''/groups''] [] (JObj [(js ''group_ids'', JArr (map JStr groupIDs))])"

datatype share_kind = ShareIntegrations | ShareSystems

fun share_text :: "share_kind \<Rightarrow> string" where
  "share_text ShareIntegrations = ''integrations''"
| "share_text ShareSystems = ''systems''"

definition api_listResourceShares :: "share_kind \<Rightarrow> jstring \<Rightarrow> api_call" where
  "api_listResourceShares kind i = get [T ''/'', T (share_text kind), T ''/'', P i, T ''/shares''] []"

definition api_createResourceShare :: "share_kind \<Rightarrow> jstring \<Rightarrow> json \<Rightarrow> api_call" where
  "api_createResourceShare kind i b = post [T ''/'', T (share_text kind), T ''/'', P i, T ''/shares''] [] b"

definition api_deleteResourceShare :: "share_kind \<Rightarrow> jstring \<Rightarrow> jstring \<Rightarrow> api_call" where
  "api_deleteResourceShare kind i shareId = del [T ''/'', T (share_text kind), T ''/'', P i, T ''/shares/'', P shareId] []"

section \<open>Operator\<close>

definition api_operatorListOrgs :: "api_call" where "api_operatorListOrgs = get [T ''/operator/orgs''] []"

definition api_operatorCreateOrg :: "json \<Rightarrow> api_call" where
  "api_operatorCreateOrg body = post [T ''/operator/orgs''] [] body"

definition api_operatorUpdateOrg :: "jstring \<Rightarrow> json \<Rightarrow> api_call" where
  "api_operatorUpdateOrg i body = patch [T ''/operator/orgs/'', P i] [] body"

definition api_operatorDeleteOrg :: "jstring \<Rightarrow> api_call" where
  "api_operatorDeleteOrg i = del [T ''/operator/orgs/'', P i] []"

definition api_operatorListOrgMembers :: "jstring \<Rightarrow> api_call" where
  "api_operatorListOrgMembers i = get [T ''/operator/orgs/'', P i, T ''/members''] []"

definition api_operatorAddOrgMember :: "jstring \<Rightarrow> json \<Rightarrow> api_call" where
  "api_operatorAddOrgMember i body = post [T ''/operator/orgs/'', P i, T ''/members''] [] body"

definition api_operatorUpdateOrgMemberRole :: "jstring \<Rightarrow> jstring \<Rightarrow> jstring \<Rightarrow> api_call" where
  "api_operatorUpdateOrgMemberRole i userId role =
     patch [T ''/operator/orgs/'', P i, T ''/members/'', P userId] [] (JObj [(js ''role'', JStr role)])"

definition api_operatorRemoveOrgMember :: "jstring \<Rightarrow> jstring \<Rightarrow> api_call" where
  "api_operatorRemoveOrgMember i userId =
     del [T ''/operator/orgs/'', P i, T ''/members/'', P userId] []"

definition api_operatorListUsers :: "jstring option \<Rightarrow> nat option \<Rightarrow> nat option \<Rightarrow> api_call" where
  "api_operatorListUsers q offset limit =
     get [T ''/operator/users'']
       [T ''?q='', P (coalesce q []), T ''&limit='', R (show_nat (coalesce limit 50)),
        T ''&offset='', R (show_nat (coalesce offset 0))]"

definition api_operatorSetUserDemo :: "jstring \<Rightarrow> bool \<Rightarrow> api_call" where
  "api_operatorSetUserDemo userId isDemo =
     put [T ''/operator/users/'', P userId, T ''/demo''] [] (JObj [(js ''is_demo'', JBool isDemo)])"

definition api_operatorSetUserOperator :: "jstring \<Rightarrow> bool \<Rightarrow> api_call" where
  "api_operatorSetUserOperator userId isOperator =
     put [T ''/operator/users/'', P userId, T ''/operator''] [] (JObj [(js ''is_operator'', JBool isOperator)])"

text \<open>Every wrapper, for the proofs about all of them.\<close>

lemmas api_defs =
  api_listAdvisorSuggestions_def api_acceptAdvisorSuggestion_def api_dismissAdvisorSuggestion_def
  api_runAdvisor_def api_markAlertInstanceOpened_def api_listServices_def api_listSystems_def
  api_getSystem_def api_createSystem_def api_updateSystem_def api_deleteSystem_def
  api_systemDeleteImpact_def api_attachSystemService_def api_detachSystemService_def
  api_getSystemMetadata_def api_putSystemMetadata_def api_applySystemTemplateAll_def
  api_setServiceSystem_def api_setBadgePublic_def api_setMessageColumns_def api_applySystemTemplate_def
  api_applyTemplate_def api_templateSuggestions_def api_removeTemplate_def api_applyCustomTemplate_def
  api_listMonitoringTemplates_def api_createMonitoringTemplate_def api_updateMonitoringTemplate_def
  api_deleteMonitoringTemplate_def api_listSystemTypes_def api_createSystemType_def
  api_updateSystemType_def api_deleteSystemType_def api_errorsFeed_def api_getDigest_def
  api_markDigestSeen_def api_serviceDetail_def api_search_def api_globalSearch_def api_traceDetail_def
  api_traceChain_def api_getPreference_def api_putPreference_def api_listIntegrations_def
  api_integrationStats_def api_integrationEnvironments_def api_setIntegrationSources_def
  api_serviceEnvironments_def api_setDeclaredEnvironments_def api_listEnvironments_def
  api_getTelemetryEnvironment_def api_setTelemetryEnvironment_def api_previewIntegrationRules_def
  api_getIntegration_def api_createIntegration_def api_updateIntegration_def api_deleteIntegration_def
  api_integrationDeleteImpact_def api_cloneIntegration_def api_addMatcher_def api_removeMatcher_def
  api_replaceMatchers_def api_removeServiceFromIntegration_def api_getTopology_def api_getMetadataGraph_def
  api_getNavigationReach_def api_getBranding_def api_getLoginBranding_def api_setBranding_def
  api_setIntegrationMessageFilters_def api_getCollectorTarget_def api_setCollectorTarget_def
  api_getServiceCollectorTarget_def api_setServiceCollectorTarget_def api_integrationErrorBreakdown_def
  api_integrationFlow_def api_listServiceFacets_def api_getServiceFacet_def api_createServiceFacet_def
  api_updateServiceFacet_def api_deleteServiceFacet_def api_serviceWidgets_def api_serviceTraces_def
  api_serviceNeighbors_def api_getServiceMetadata_def api_updateServiceMetadata_def
  api_listMetadataFields_def api_createMetadataField_def api_updateMetadataField_def
  api_deleteMetadataField_def api_setIntegrationMetadata_def api_setServiceMetadataExtras_def
  api_listSchemas_def api_getSchema_def api_createSchema_def api_updateSchema_def api_deleteSchema_def
  api_setServiceSchemas_def api_listMaps_def api_getMap_def api_createMap_def api_updateMap_def
  api_deleteMap_def api_executeMap_def api_listFacetMappings_def api_createFacetMapping_def
  api_deleteFacetMapping_def api_getServiceFacetOverrides_def api_updateServiceFacetOverrides_def
  api_serviceReadings_def api_pushHealthCheckValue_def api_clearServiceErrors_def
  api_unclearServiceErrors_def api_listServiceLogs_def api_listServiceMetricNames_def
  api_serviceMetricSeries_def api_searchLogs_def api_getLog_def api_logServices_def api_logFields_def
  api_logAttrValues_def api_logVolume_def api_listMetricCatalog_def api_metricCatalog_def
  api_metricGroups_def api_logGroups_def api_usageReport_def api_usageVolume_def api_metricFields_def
  api_metricAttributeValues_def api_listAlertRules_def api_createAlertRule_def api_updateAlertRule_def
  api_deleteAlertRule_def api_previewAlertRule_def api_getOrgNotificationTemplates_def
  api_putOrgNotificationTemplates_def api_getGroupNotificationTemplate_def
  api_putGroupNotificationTemplate_def api_templateContextSchema_def api_previewAlertTemplate_def
  api_listAlertInstances_def api_exportConfigBundle_def api_importConfigBundle_def
  api_listMyAnnouncements_def api_dismissAnnouncement_def api_listCellAnnouncements_def
  api_createCellAnnouncement_def api_deleteCellAnnouncement_def api_listMaintenanceWindows_def
  api_createMaintenanceWindow_def api_updateMaintenanceWindow_def api_endMaintenanceWindow_def
  api_listMaintenanceSchedules_def api_createMaintenanceSchedule_def api_updateMaintenanceSchedule_def
  api_deleteMaintenanceSchedule_def api_retryAlertDelivery_def api_listAlertDeliveries_def
  api_acknowledgeAlertInstance_def api_resolveAlertInstance_def api_listIngestKeys_def
  api_createIngestKey_def api_revokeIngestKey_def api_listChannels_def api_listEventTypes_def
  api_listEventSubscriptions_def api_createEventSubscription_def api_updateEventSubscription_def
  api_deleteEventSubscription_def api_listProposals_def api_getProposal_def api_approveProposal_def
  api_rejectProposal_def api_listEventDeliveries_def api_listNotificationProfiles_def
  api_createNotificationProfile_def api_updateNotificationProfile_def api_deleteNotificationProfile_def
  api_setNotificationProfileChannels_def api_getIntegrationProfile_def api_assignIntegrationProfile_def
  api_createChannel_def api_updateChannel_def api_deleteChannel_def api_metricSeriesByService_def
  api_searchMessages_def api_messageFields_def api_listMessageViews_def api_createMessageView_def
  api_updateMessageView_def api_deleteMessageView_def api_listTags_def api_listTagsWithUsage_def
  api_createTag_def api_updateTag_def api_deleteTag_def api_listIntegrationTags_def
  api_attachIntegrationTag_def api_detachIntegrationTag_def api_listServiceTags_def
  api_attachServiceTag_def api_detachServiceTag_def api_listDashboards_def api_getDashboard_def
  api_createDashboard_def api_updateDashboard_def api_deleteDashboard_def api_login_def api_logout_def
  api_forgotPassword_def api_resetPassword_def api_mfaStatus_def api_mfaSetup_def api_mfaEnable_def
  api_mfaDisable_def api_mfaVerify_def api_getSMTP_def api_updateSMTP_def api_testSMTP_def
  api_getSecuritySettings_def api_updateSecuritySettings_def api_meAccess_def api_me_def
  api_installState_def api_bootstrapAdmin_def api_updateMe_def api_changePassword_def api_getOrg_def
  api_updateOrg_def api_license_def api_listAuditLog_def api_verifyAuditChain_def api_getRetention_def
  api_updateRetention_def api_getSystemSettings_def api_updateSystemSettings_def
  api_listTraceCompletionRules_def api_integrationSpanNames_def api_integrationAttributeKeys_def
  api_integrationAttributeValues_def api_createTraceCompletionRule_def api_updateTraceCompletionRule_def
  api_deleteTraceCompletionRule_def api_getCompletionCounts_def api_listCompletionFirings_def
  api_listCompletionFiringsForTrace_def api_testChannel_def api_markCompletionFiringHandled_def
  api_getLimits_def api_listMembers_def api_addMember_def api_updateMemberRole_def
  api_adminResetMemberPassword_def api_removeMember_def api_listTokens_def api_createToken_def
  api_revokeToken_def api_listServiceAccounts_def api_createServiceAccount_def api_updateServiceAccount_def
  api_deleteServiceAccount_def api_listServiceAccountGroups_def api_listServiceAccountTokens_def
  api_createServiceAccountToken_def api_revokeServiceAccountToken_def api_listSsoProviders_def
  api_listAuthProviders_def api_createAuthProvider_def api_updateAuthProvider_def
  api_deleteAuthProvider_def api_listClaimMappings_def api_createClaimMapping_def
  api_deleteClaimMapping_def api_listGroups_def api_getGroup_def api_createGroup_def api_updateGroup_def
  api_deleteGroup_def api_listGroupMembers_def api_addGroupMember_def api_updateGroupMemberRole_def
  api_removeGroupMember_def api_updateGroupServiceAccountRole_def api_removeGroupServiceAccount_def
  api_listServiceGroups_def api_putServiceGroups_def api_listGroupPolicies_def api_createGroupPolicy_def
  api_updateGroupPolicy_def api_deleteGroupPolicy_def api_listIntegrationGroups_def
  api_setIntegrationGroups_def api_listSystemGroups_def api_setSystemGroups_def api_listResourceShares_def
  api_createResourceShare_def api_deleteResourceShare_def api_operatorListOrgs_def
  api_operatorCreateOrg_def api_operatorUpdateOrg_def api_operatorDeleteOrg_def
  api_operatorListOrgMembers_def api_operatorAddOrgMember_def api_operatorUpdateOrgMemberRole_def
  api_operatorRemoveOrgMember_def api_operatorListUsers_def api_operatorSetUserDemo_def
  api_operatorSetUserOperator_def

end
