(* ===== verification/ApiRoutes.thy ===== *)
theory ApiRoutes
  imports ApiCalls
begin

text \<open>
  Where the calls of \<open>ApiCalls\<close> arrive: the routes the cell API registers
  (\<open>services/cell-api/internal/api/handlers.go\<close>, \<open>Mount\<close>, with authentication wired) and Go's
  \<open>ServeMux\<close>, which decodes the segments of a path one by one and prefers a literal segment to a
  wildcard.  Every wrapper reaches the handler meant for it, with its arguments as the path values,
  whatever its other arguments are and whatever environments are active.
\<close>

section \<open>The server\<close>

datatype pattern_seg = Word string | Wild string

type_synonym route = "string \<times> pattern_seg list \<times> string"
type_synonym route_table = "(pattern_seg list \<times> string) list"

text \<open>The patterns under \<open>/api/v1\<close>, by method, with the handler each registers.\<close>

definition api_routes :: "route list" where
  "api_routes =
     [
      (''GET'', [Word ''license''], ''licenseStatus''),
      (''GET'', [Word ''services''], ''listServices''),
      (''GET'', [Word ''systems''], ''listSystems''),
      (''GET'', [Word ''systems'', Wild ''id''], ''getSystem''),
      (''POST'', [Word ''systems''], ''createSystem''),
      (''PUT'', [Word ''systems'', Wild ''id''], ''updateSystem''),
      (''DELETE'', [Word ''systems'', Wild ''id''], ''deleteSystem''),
      (''GET'', [Word ''systems'', Wild ''id'', Word ''delete-impact''], ''systemDeleteImpact''),
      (''POST'', [Word ''systems'', Wild ''id'', Word ''services''], ''attachSystemService''),
      (''DELETE'', [Word ''systems'', Wild ''id'', Word ''services'', Wild ''name''], ''detachSystemService''),
      (''GET'', [Word ''integrations'', Wild ''id'', Word ''shares''], ''listShares Integration''),
      (''POST'', [Word ''integrations'', Wild ''id'', Word ''shares''], ''createShare Integration''),
      (''DELETE'', [Word ''integrations'', Wild ''id'', Word ''shares'', Wild ''shareId''], ''deleteShare Integration''),
      (''GET'', [Word ''systems'', Wild ''id'', Word ''shares''], ''listShares System''),
      (''POST'', [Word ''systems'', Wild ''id'', Word ''shares''], ''createShare System''),
      (''DELETE'', [Word ''systems'', Wild ''id'', Word ''shares'', Wild ''shareId''], ''deleteShare System''),
      (''GET'', [Word ''systems'', Wild ''id'', Word ''groups''], ''listSystemGroups''),
      (''PUT'', [Word ''systems'', Wild ''id'', Word ''groups''], ''putSystemGroups''),
      (''GET'', [Word ''integrations'', Wild ''id'', Word ''groups''], ''listIntegrationGroups''),
      (''PUT'', [Word ''integrations'', Wild ''id'', Word ''groups''], ''putIntegrationGroups''),
      (''GET'', [Word ''systems'', Wild ''id'', Word ''metadata''], ''getSystemMetadata''),
      (''PUT'', [Word ''systems'', Wild ''id'', Word ''metadata''], ''putSystemMetadata''),
      (''POST'', [Word ''mcp''], ''mcpEndpoint''),
      (''GET'', [Word ''mcp''], ''mcpStreamEndpoint''),
      (''DELETE'', [Word ''mcp''], ''mcpDeleteEndpoint''),
      (''POST'', [Word ''oauth'', Word ''register''], ''oauthRegister''),
      (''GET'', [Word ''oauth'', Word ''authorize''], ''oauthAuthorize''),
      (''POST'', [Word ''oauth'', Word ''authorize''], ''oauthAuthorizeDecision''),
      (''POST'', [Word ''oauth'', Word ''token''], ''oauthToken''),
      (''POST'', [Word ''systems'', Wild ''id'', Word ''apply-template''], ''applySystemTemplateAll''),
      (''GET'', [Word ''badges'', Wild ''kind'', Wild ''id''], ''badgeSVG''),
      (''PUT'', [Word ''integrations'', Wild ''id'', Word ''badge''], ''putIntegrationBadge''),
      (''PUT'', [Word ''integrations'', Wild ''id'', Word ''message-columns''], ''putIntegrationMessageColumns''),
      (''PUT'', [Word ''integrations'', Wild ''id'', Word ''message-filters''], ''putIntegrationMessageFilters''),
      (''GET'', [Word ''integrations'', Wild ''id'', Word ''environments''], ''integrationEnvironments''),
      (''PUT'', [Word ''integrations'', Wild ''id'', Word ''declared-environments''], ''putDeclaredEnvironments''),
      (''GET'', [Word ''environments''], ''listEnvironments''),
      (''PUT'', [Word ''systems'', Wild ''id'', Word ''badge''], ''putSystemBadge''),
      (''PUT'', [Word ''services'', Wild ''name'', Word ''badge''], ''putServiceBadge''),
      (''GET'', [Word ''errors''], ''errorsFeed''),
      (''GET'', [Word ''unhealthy''], ''unhealthyFeed''),
      (''GET'', [Word ''digest''], ''getDigest''),
      (''POST'', [Word ''digest'', Word ''seen''], ''markDigestSeen''),
      (''GET'', [Word ''services'', Wild ''name''], ''serviceDetail''),
      (''GET'', [Word ''services'', Wild ''name'', Word ''environments''], ''serviceEnvironments''),
      (''GET'', [Word ''services'', Wild ''name'', Word ''widgets''], ''serviceWidgets''),
      (''GET'', [Word ''services'', Wild ''name'', Word ''traces''], ''serviceTraces''),
      (''GET'', [Word ''services'', Wild ''name'', Word ''neighbors''], ''serviceNeighbors''),
      (''GET'', [Word ''services'', Wild ''name'', Word ''logs''], ''listServiceLogs''),
      (''GET'', [Word ''services'', Wild ''name'', Word ''metric-names''], ''listServiceMetricNames''),
      (''GET'', [Word ''services'', Wild ''name'', Word ''metric-series''], ''serviceMetricSeries''),
      (''GET'', [Word ''services'', Wild ''name'', Word ''facet-mappings''], ''listFacetMappings''),
      (''POST'', [Word ''services'', Wild ''name'', Word ''facet-mappings''], ''createFacetMapping''),
      (''DELETE'', [Word ''services'', Wild ''name'', Word ''facet-mappings'', Wild ''id''], ''deleteFacetMapping''),
      (''GET'', [Word ''services'', Wild ''name'', Word ''facet-overrides''], ''getFacetOverrides''),
      (''PUT'', [Word ''services'', Wild ''name'', Word ''facet-overrides''], ''putFacetOverrides''),
      (''GET'', [Word ''search''], ''search''),
      (''GET'', [Word ''global-search''], ''globalSearch''),
      (''GET'', [Word ''traces'', Wild ''traceId''], ''traceDetail''),
      (''GET'', [Word ''traces'', Wild ''traceId'', Word ''chain''], ''traceChain''),
      (''GET'', [Word ''service-facets''], ''listServiceFacets''),
      (''GET'', [Word ''service-facets'', Wild ''slug''], ''getServiceFacet''),
      (''POST'', [Word ''service-facets''], ''createServiceFacet''),
      (''PUT'', [Word ''service-facets'', Wild ''slug''], ''updateServiceFacet''),
      (''DELETE'', [Word ''service-facets'', Wild ''slug''], ''deleteServiceFacet''),
      (''GET'', [Word ''services'', Wild ''name'', Word ''readings''], ''serviceReadings''),
      (''POST'', [Word ''services'', Wild ''name'', Word ''health-checks'', Wild ''id'', Word ''value''], ''pushHealthCheckValue''),
      (''POST'', [Word ''services'', Wild ''name'', Word ''clear-errors''], ''clearServiceErrors''),
      (''DELETE'', [Word ''services'', Wild ''name'', Word ''clear-errors''], ''unclearServiceErrors''),
      (''GET'', [Word ''integrations''], ''listIntegrations''),
      (''GET'', [Word ''integrations'', Word ''stats''], ''integrationStats''),
      (''GET'', [Word ''integrations'', Wild ''id''], ''getIntegration''),
      (''GET'', [Word ''integrations'', Wild ''id'', Word ''span-names''], ''integrationSpanNames''),
      (''GET'', [Word ''integrations'', Wild ''id'', Word ''attribute-keys''], ''integrationAttributeKeys''),
      (''GET'', [Word ''integrations'', Wild ''id'', Word ''attribute-values''], ''integrationAttributeValues''),
      (''GET'', [Word ''integrations'', Wild ''id'', Word ''flow''], ''integrationFlow''),
      (''GET'', [Word ''integrations'', Wild ''id'', Word ''error-breakdown''], ''integrationErrorBreakdown''),
      (''GET'', [Word ''topology''], ''topologyGraph''),
      (''GET'', [Word ''metadata-graph''], ''metadataGraph''),
      (''POST'', [Word ''integrations''], ''createIntegration''),
      (''POST'', [Word ''integrations'', Word ''preview''], ''previewIntegrationRules''),
      (''POST'', [Word ''integrations'', Wild ''id'', Word ''clone''], ''cloneIntegration''),
      (''PUT'', [Word ''integrations'', Wild ''id''], ''updateIntegration''),
      (''DELETE'', [Word ''integrations'', Wild ''id''], ''deleteIntegration''),
      (''GET'', [Word ''integrations'', Wild ''id'', Word ''delete-impact''], ''integrationDeleteImpact''),
      (''POST'', [Word ''integrations'', Wild ''id'', Word ''matchers''], ''addMatcher''),
      (''PUT'', [Word ''integrations'', Wild ''id'', Word ''matchers''], ''replaceMatchers''),
      (''DELETE'', [Word ''integrations'', Wild ''id'', Word ''matchers'', Wild ''matcherId''], ''removeMatcher''),
      (''DELETE'', [Word ''integrations'', Wild ''id'', Word ''services'', Wild ''name''], ''removeServiceFromIntegration''),
      (''GET'', [Word ''logs''], ''listLogs''),
      (''GET'', [Word ''log-services''], ''logServices''),
      (''GET'', [Word ''log-fields''], ''logFields''),
      (''GET'', [Word ''log-attributes'', Wild ''key'', Word ''values''], ''logAttrValues''),
      (''GET'', [Word ''logs'', Word ''volume''], ''logVolume''),
      (''GET'', [Word ''logs'', Word ''groups''], ''logGroups''),
      (''GET'', [Word ''logs'', Wild ''id''], ''getLog''),
      (''GET'', [Word ''metric-names''], ''listMetricCatalog''),
      (''GET'', [Word ''metric-series''], ''listMetricSeries''),
      (''GET'', [Word ''metric-catalog''], ''metricCatalog''),
      (''GET'', [Word ''reports'', Word ''usage''], ''usageReport''),
      (''GET'', [Word ''metric-fields''], ''metricFields''),
      (''GET'', [Word ''metric-attributes'', Wild ''key'', Word ''values''], ''metricAttributeValues''),
      (''GET'', [Word ''metric-groups''], ''metricGroups''),
      (''GET'', [Word ''usage'', Word ''volume''], ''usageVolume''),
      (''GET'', [Word ''alert-rules''], ''listAlertRules''),
      (''POST'', [Word ''alert-rules'', Word ''preview''], ''previewAlertRule''),
      (''GET'', [Word ''alert-rules'', Wild ''id''], ''getAlertRule''),
      (''GET'', [Word ''alert-instances''], ''listAlertInstances''),
      (''GET'', [Word ''alert-deliveries''], ''listAlertDeliveries''),
      (''POST'', [Word ''alert-deliveries'', Wild ''id'', Word ''retry''], ''retryAlertDelivery''),
      (''GET'', [Word ''notification-channels''], ''listChannels''),
      (''POST'', [Word ''alert-templates'', Word ''preview''], ''previewAlertTemplate''),
      (''GET'', [Word ''notification-profiles''], ''listNotificationProfiles''),
      (''GET'', [Word ''integrations'', Wild ''id'', Word ''notification-profile''], ''getIntegrationProfile''),
      (''POST'', [Word ''notification-profiles''], ''createNotificationProfile''),
      (''PUT'', [Word ''notification-profiles'', Wild ''id''], ''updateNotificationProfile''),
      (''DELETE'', [Word ''notification-profiles'', Wild ''id''], ''deleteNotificationProfile''),
      (''PUT'', [Word ''notification-profiles'', Wild ''id'', Word ''channels''], ''setNotificationProfileChannels''),
      (''PUT'', [Word ''integrations'', Wild ''id'', Word ''notification-profile''], ''assignIntegrationProfile''),
      (''POST'', [Word ''alert-instances'', Wild ''id'', Word ''acknowledge''], ''acknowledgeAlertInstance''),
      (''POST'', [Word ''alert-instances'', Wild ''id'', Word ''resolve''], ''resolveAlertInstance''),
      (''POST'', [Word ''alert-rules''], ''createAlertRule''),
      (''PUT'', [Word ''alert-rules'', Wild ''id''], ''updateAlertRule''),
      (''DELETE'', [Word ''alert-rules'', Wild ''id''], ''deleteAlertRule''),
      (''POST'', [Word ''notification-channels''], ''createChannel''),
      (''PUT'', [Word ''notification-channels'', Wild ''id''], ''updateChannel''),
      (''DELETE'', [Word ''notification-channels'', Wild ''id''], ''deleteChannel''),
      (''POST'', [Word ''notification-channels'', Wild ''id'', Word ''test''], ''testChannel''),
      (''GET'', [Word ''integration-candidates''], ''integrationCandidates''),
      (''GET'', [Word ''me'', Word ''navigation''], ''getNavigation''),
      (''GET'', [Word ''collector-target''], ''getCollectorTarget''),
      (''GET'', [Word ''services'', Wild ''name'', Word ''collector-target''], ''getServiceCollectorTarget''),
      (''GET'', [Word ''ingest-keys''], ''listIngestKeys''),
      (''PATCH'', [Word ''collector-target''], ''patchCollectorTarget''),
      (''PATCH'', [Word ''services'', Wild ''name'', Word ''collector-target''], ''patchServiceCollectorTarget''),
      (''POST'', [Word ''ingest-keys''], ''createIngestKey''),
      (''DELETE'', [Word ''ingest-keys'', Wild ''id''], ''revokeIngestKey''),
      (''GET'', [Word ''messages'', Word ''fields''], ''fieldsCatalog''),
      (''POST'', [Word ''messages'', Word ''search''], ''searchMessages''),
      (''GET'', [Word ''message-views''], ''listMessageViews''),
      (''POST'', [Word ''message-views''], ''createMessageView''),
      (''GET'', [Word ''message-views'', Wild ''id''], ''getMessageView''),
      (''PUT'', [Word ''message-views'', Wild ''id''], ''updateMessageView''),
      (''DELETE'', [Word ''message-views'', Wild ''id''], ''deleteMessageView''),
      (''GET'', [Word ''dashboards''], ''listDashboards''),
      (''POST'', [Word ''dashboards''], ''createDashboard''),
      (''GET'', [Word ''dashboards'', Wild ''id''], ''getDashboard''),
      (''PUT'', [Word ''dashboards'', Wild ''id''], ''updateDashboard''),
      (''DELETE'', [Word ''dashboards'', Wild ''id''], ''deleteDashboard''),
      (''GET'', [Word ''tags''], ''listTags''),
      (''GET'', [Word ''tags'', Wild ''id''], ''getTag''),
      (''POST'', [Word ''tags''], ''createTag''),
      (''PATCH'', [Word ''tags'', Wild ''id''], ''updateTag''),
      (''DELETE'', [Word ''tags'', Wild ''id''], ''deleteTag''),
      (''GET'', [Word ''integrations'', Wild ''id'', Word ''tags''], ''listIntegrationTags''),
      (''POST'', [Word ''integrations'', Wild ''id'', Word ''tags'', Wild ''tagId''], ''attachIntegrationTag''),
      (''DELETE'', [Word ''integrations'', Wild ''id'', Word ''tags'', Wild ''tagId''], ''detachIntegrationTag''),
      (''GET'', [Word ''services'', Wild ''name'', Word ''metadata''], ''getServiceMetadata''),
      (''PUT'', [Word ''services'', Wild ''name'', Word ''metadata''], ''putServiceMetadata''),
      (''PUT'', [Word ''services'', Wild ''name'', Word ''metadata-extras''], ''putServiceMetadataExtras''),
      (''PUT'', [Word ''services'', Wild ''name'', Word ''system''], ''putServiceSystem''),
      (''POST'', [Word ''services'', Wild ''name'', Word ''system'', Word ''apply-template''], ''applySystemTemplate''),
      (''POST'', [Word ''services'', Wild ''name'', Word ''apply-template''], ''applyTemplate''),
      (''POST'', [Word ''services'', Wild ''name'', Word ''remove-template''], ''removeTemplate''),
      (''GET'', [Word ''services'', Wild ''name'', Word ''template-suggestions''], ''templateSuggestions''),
      (''GET'', [Word ''monitoring-templates''], ''listMonitoringTemplates''),
      (''POST'', [Word ''monitoring-templates''], ''createMonitoringTemplate''),
      (''PUT'', [Word ''monitoring-templates'', Wild ''id''], ''updateMonitoringTemplate''),
      (''DELETE'', [Word ''monitoring-templates'', Wild ''id''], ''deleteMonitoringTemplate''),
      (''GET'', [Word ''system-types''], ''listSystemTypes''),
      (''GET'', [Word ''system-types'', Wild ''key'', Word ''export''], ''exportSystemType''),
      (''POST'', [Word ''system-types'', Word ''import''], ''importSystemType''),
      (''POST'', [Word ''system-types''], ''createSystemType''),
      (''PUT'', [Word ''system-types'', Wild ''id''], ''updateSystemType''),
      (''DELETE'', [Word ''system-types'', Wild ''id''], ''deleteSystemType''),
      (''PUT'', [Word ''services'', Wild ''name'', Word ''schemas''], ''putServiceSchemas''),
      (''GET'', [Word ''schemas''], ''listSchemas''),
      (''GET'', [Word ''schemas'', Wild ''id''], ''getSchema''),
      (''POST'', [Word ''schemas''], ''createSchema''),
      (''PATCH'', [Word ''schemas'', Wild ''id''], ''updateSchema''),
      (''DELETE'', [Word ''schemas'', Wild ''id''], ''deleteSchema''),
      (''GET'', [Word ''maps''], ''listMaps''),
      (''GET'', [Word ''maps'', Wild ''id''], ''getMap''),
      (''POST'', [Word ''maps'', Wild ''id'', Word ''execute''], ''executeMap''),
      (''POST'', [Word ''maps''], ''createMap''),
      (''PATCH'', [Word ''maps'', Wild ''id''], ''updateMap''),
      (''DELETE'', [Word ''maps'', Wild ''id''], ''deleteMap''),
      (''POST'', [Word ''auth'', Word ''login''], ''login''),
      (''POST'', [Word ''auth'', Word ''logout''], ''logout''),
      (''GET'', [Word ''auth'', Word ''install-state''], ''installState''),
      (''POST'', [Word ''auth'', Word ''bootstrap-admin''], ''bootstrapAdmin''),
      (''POST'', [Word ''auth'', Word ''forgot-password''], ''forgotPassword''),
      (''POST'', [Word ''auth'', Word ''reset-password''], ''resetPassword''),
      (''POST'', [Word ''auth'', Word ''mfa-verify''], ''mfaVerify''),
      (''GET'', [Word ''auth'', Word ''sso'', Word ''providers''], ''ssoProviders''),
      (''GET'', [Word ''auth'', Word ''sso'', Wild ''id'', Word ''start''], ''ssoStart''),
      (''GET'', [Word ''auth'', Word ''sso'', Word ''callback''], ''ssoCallback''),
      (''GET'', [Word ''account'', Word ''mfa''], ''mfaStatus''),
      (''POST'', [Word ''account'', Word ''mfa'', Word ''setup''], ''mfaSetup''),
      (''POST'', [Word ''account'', Word ''mfa'', Word ''enable''], ''mfaEnable''),
      (''POST'', [Word ''account'', Word ''mfa'', Word ''disable''], ''mfaDisable''),
      (''GET'', [Word ''me''], ''me''),
      (''PATCH'', [Word ''me''], ''updateMe''),
      (''POST'', [Word ''me'', Word ''password''], ''changeMyPassword''),
      (''GET'', [Word ''orgs'', Wild ''id''], ''getOrg''),
      (''PATCH'', [Word ''orgs'', Wild ''id''], ''updateOrg''),
      (''PUT'', [Word ''cell-settings'', Word ''branding''], ''putBranding''),
      (''GET'', [Word ''operator'', Word ''orgs''], ''listOperatorOrgs''),
      (''POST'', [Word ''operator'', Word ''orgs''], ''createOperatorOrg''),
      (''PATCH'', [Word ''operator'', Word ''orgs'', Wild ''id''], ''updateOperatorOrg''),
      (''DELETE'', [Word ''operator'', Word ''orgs'', Wild ''id''], ''deleteOperatorOrg''),
      (''GET'', [Word ''operator'', Word ''orgs'', Wild ''id'', Word ''members''], ''listOperatorOrgMembers''),
      (''POST'', [Word ''operator'', Word ''orgs'', Wild ''id'', Word ''members''], ''addOperatorOrgMember''),
      (''PATCH'', [Word ''operator'', Word ''orgs'', Wild ''id'', Word ''members'', Wild ''user_id''], ''updateOperatorOrgMemberRole''),
      (''DELETE'', [Word ''operator'', Word ''orgs'', Wild ''id'', Word ''members'', Wild ''user_id''], ''removeOperatorOrgMember''),
      (''GET'', [Word ''operator'', Word ''users''], ''listOperatorUsers''),
      (''PUT'', [Word ''operator'', Word ''users'', Wild ''user_id'', Word ''operator''], ''setOperatorFlag''),
      (''PUT'', [Word ''operator'', Word ''users'', Wild ''user_id'', Word ''demo''], ''setDemoFlag''),
      (''GET'', [Word ''cell-settings'', Word ''retention''], ''getRetention''),
      (''GET'', [Word ''cell-settings'', Word ''system''], ''getSystemSettings''),
      (''GET'', [Word ''cell-settings'', Word ''branding''], ''getBranding''),
      (''GET'', [Word ''branding'', Word ''login''], ''publicBranding''),
      (''PATCH'', [Word ''cell-settings'', Word ''retention''], ''patchRetention''),
      (''PATCH'', [Word ''cell-settings'', Word ''system''], ''patchSystemSettings''),
      (''GET'', [Word ''cell-settings'', Word ''telemetry-environment''], ''getTelemetryEnvironment''),
      (''PUT'', [Word ''cell-settings'', Word ''telemetry-environment''], ''putTelemetryEnvironment''),
      (''GET'', [Word ''deployment'', Word ''usage''], ''deploymentUsage''),
      (''GET'', [Word ''third-party''], ''getThirdParty''),
      (''GET'', [Word ''limits''], ''getLimitsStatus''),
      (''GET'', [Word ''cell-health''], ''cellHealth''),
      (''GET'', [Word ''cell-capacity''], ''cellCapacity''),
      (''GET'', [Word ''cell-settings'', Word ''smtp''], ''getSMTP''),
      (''PATCH'', [Word ''cell-settings'', Word ''smtp''], ''patchSMTP''),
      (''POST'', [Word ''cell-settings'', Word ''smtp'', Word ''test''], ''testSMTP''),
      (''GET'', [Word ''cell-settings'', Word ''security''], ''getSecuritySettings''),
      (''PATCH'', [Word ''cell-settings'', Word ''security''], ''patchSecuritySettings''),
      (''GET'', [Word ''integrations'', Wild ''id'', Word ''completion-rules''], ''listTraceCompletionRules''),
      (''GET'', [Word ''integrations'', Wild ''id'', Word ''completion-counts''], ''completionCounts''),
      (''GET'', [Word ''integrations'', Wild ''id'', Word ''completion-firings''], ''listCompletionFirings''),
      (''GET'', [Word ''traces'', Wild ''id'', Word ''completion-firings''], ''listCompletionFiringsForTrace''),
      (''POST'', [Word ''integrations'', Wild ''id'', Word ''completion-rules''], ''createTraceCompletionRule''),
      (''PATCH'', [Word ''integrations'', Wild ''id'', Word ''completion-rules'', Wild ''rid''], ''updateTraceCompletionRule''),
      (''DELETE'', [Word ''integrations'', Wild ''id'', Word ''completion-rules'', Wild ''rid''], ''deleteTraceCompletionRule''),
      (''POST'', [Word ''integrations'', Wild ''id'', Word ''completion-firings'', Wild ''iid'', Word ''handle''], ''handleCompletionFiring''),
      (''GET'', [Word ''settings'', Word ''members''], ''listMembers''),
      (''GET'', [Word ''me'', Word ''access''], ''meAccess''),
      (''GET'', [Word ''me'', Word ''preferences'', Wild ''key''], ''getPreference''),
      (''PUT'', [Word ''me'', Word ''preferences'', Wild ''key''], ''putPreference''),
      (''GET'', [Word ''settings'', Word ''tokens''], ''listTokens''),
      (''POST'', [Word ''settings'', Word ''tokens''], ''createToken''),
      (''DELETE'', [Word ''settings'', Word ''tokens'', Wild ''id''], ''revokeToken''),
      (''POST'', [Word ''settings'', Word ''members''], ''addMember''),
      (''PATCH'', [Word ''settings'', Word ''members'', Wild ''user_id''], ''updateMemberRole''),
      (''DELETE'', [Word ''settings'', Word ''members'', Wild ''user_id''], ''removeMember''),
      (''POST'', [Word ''settings'', Word ''members'', Wild ''user_id'', Word ''password''], ''adminResetMemberPassword''),
      (''GET'', [Word ''settings'', Word ''service-accounts''], ''listServiceAccounts''),
      (''POST'', [Word ''settings'', Word ''service-accounts''], ''createServiceAccount''),
      (''PUT'', [Word ''settings'', Word ''service-accounts'', Wild ''id''], ''updateServiceAccount''),
      (''DELETE'', [Word ''settings'', Word ''service-accounts'', Wild ''id''], ''deleteServiceAccount''),
      (''GET'', [Word ''settings'', Word ''service-accounts'', Wild ''id'', Word ''groups''], ''listServiceAccountGroups''),
      (''GET'', [Word ''settings'', Word ''service-accounts'', Wild ''id'', Word ''tokens''], ''listServiceAccountTokens''),
      (''POST'', [Word ''settings'', Word ''service-accounts'', Wild ''id'', Word ''tokens''], ''createServiceAccountToken''),
      (''DELETE'', [Word ''settings'', Word ''service-accounts'', Wild ''id'', Word ''tokens'', Wild ''tid''], ''revokeServiceAccountToken''),
      (''GET'', [Word ''announcements''], ''listMyAnnouncements''),
      (''GET'', [Word ''announcements'', Word ''login''], ''loginAnnouncements''),
      (''POST'', [Word ''announcements'', Wild ''id'', Word ''dismiss''], ''dismissAnnouncement''),
      (''GET'', [Word ''event-types''], ''listEventTypes''),
      (''GET'', [Word ''cell-brief''], ''cellBrief''),
      (''POST'', [Word ''proposals''], ''createProposal''),
      (''GET'', [Word ''proposals''], ''listProposals''),
      (''GET'', [Word ''proposals'', Wild ''id''], ''getProposal''),
      (''POST'', [Word ''proposals'', Wild ''id'', Word ''approve''], ''approveProposal''),
      (''POST'', [Word ''proposals'', Wild ''id'', Word ''reject''], ''rejectProposal''),
      (''GET'', [Word ''event-subscriptions''], ''listEventSubscriptions''),
      (''POST'', [Word ''event-subscriptions''], ''createEventSubscription''),
      (''PUT'', [Word ''event-subscriptions'', Wild ''id''], ''updateEventSubscription''),
      (''DELETE'', [Word ''event-subscriptions'', Wild ''id''], ''deleteEventSubscription''),
      (''GET'', [Word ''event-subscriptions'', Wild ''id'', Word ''deliveries''], ''listEventDeliveries''),
      (''GET'', [Word ''settings'', Word ''notification-templates''], ''getOrgNotificationTemplates''),
      (''PUT'', [Word ''settings'', Word ''notification-templates''], ''putOrgNotificationTemplates''),
      (''GET'', [Word ''settings'', Word ''groups'', Wild ''id'', Word ''notification-template''], ''getGroupNotificationTemplates''),
      (''PUT'', [Word ''settings'', Word ''groups'', Wild ''id'', Word ''notification-template''], ''putGroupNotificationTemplates''),
      (''GET'', [Word ''alerting'', Word ''template-context-schema''], ''templateContextSchema''),
      (''GET'', [Word ''operator'', Word ''announcements''], ''listCellAnnouncements''),
      (''POST'', [Word ''operator'', Word ''announcements''], ''createCellAnnouncement''),
      (''DELETE'', [Word ''operator'', Word ''announcements'', Wild ''id''], ''deleteCellAnnouncement''),
      (''GET'', [Word ''settings'', Word ''config-export''], ''exportConfig''),
      (''POST'', [Word ''settings'', Word ''config-import''], ''importConfig''),
      (''GET'', [Word ''maintenance-windows''], ''listMaintenanceWindows''),
      (''POST'', [Word ''maintenance-windows''], ''createMaintenanceWindow''),
      (''PATCH'', [Word ''maintenance-windows'', Wild ''id''], ''updateMaintenanceWindow''),
      (''DELETE'', [Word ''maintenance-windows'', Wild ''id''], ''endMaintenanceWindow''),
      (''GET'', [Word ''maintenance-schedules''], ''listMaintenanceSchedules''),
      (''POST'', [Word ''maintenance-schedules''], ''createMaintenanceSchedule''),
      (''PATCH'', [Word ''maintenance-schedules'', Wild ''id''], ''updateMaintenanceSchedule''),
      (''DELETE'', [Word ''maintenance-schedules'', Wild ''id''], ''deleteMaintenanceSchedule''),
      (''GET'', [Word ''settings'', Word ''groups''], ''listGroupsAdmin''),
      (''GET'', [Word ''settings'', Word ''groups'', Wild ''id''], ''getGroupAdmin''),
      (''GET'', [Word ''settings'', Word ''groups'', Wild ''id'', Word ''members''], ''listGroupMembersAdmin''),
      (''POST'', [Word ''settings'', Word ''groups''], ''createGroupAdmin''),
      (''PATCH'', [Word ''settings'', Word ''groups'', Wild ''id''], ''updateGroupAdmin''),
      (''DELETE'', [Word ''settings'', Word ''groups'', Wild ''id''], ''deleteGroupAdmin''),
      (''POST'', [Word ''settings'', Word ''groups'', Wild ''id'', Word ''members''], ''addGroupMemberAdmin''),
      (''PATCH'', [Word ''settings'', Word ''groups'', Wild ''id'', Word ''members'', Wild ''user_id''], ''updateGroupMemberRoleAdmin''),
      (''DELETE'', [Word ''settings'', Word ''groups'', Wild ''id'', Word ''members'', Wild ''user_id''], ''removeGroupMemberAdmin''),
      (''PATCH'', [Word ''settings'', Word ''groups'', Wild ''id'', Word ''service-accounts'', Wild ''sa_id''], ''updateGroupServiceAccountRoleAdmin''),
      (''DELETE'', [Word ''settings'', Word ''groups'', Wild ''id'', Word ''service-accounts'', Wild ''sa_id''], ''removeGroupServiceAccountAdmin''),
      (''GET'', [Word ''settings'', Word ''groups'', Wild ''id'', Word ''policies''], ''listGroupPolicies''),
      (''POST'', [Word ''settings'', Word ''groups'', Wild ''id'', Word ''policies''], ''createGroupPolicy''),
      (''PUT'', [Word ''settings'', Word ''groups'', Wild ''id'', Word ''policies'', Wild ''policy_id''], ''updateGroupPolicy''),
      (''DELETE'', [Word ''settings'', Word ''groups'', Wild ''id'', Word ''policies'', Wild ''policy_id''], ''deleteGroupPolicy''),
      (''GET'', [Word ''audit-log''], ''listAuditLog''),
      (''GET'', [Word ''audit-log'', Word ''verify''], ''verifyAuditChain''),
      (''GET'', [Word ''advisor'', Word ''suggestions''], ''listAdvisorSuggestions''),
      (''POST'', [Word ''advisor'', Word ''suggestions'', Wild ''id'', Word ''accept''], ''decideAdvisorSuggestion accepted''),
      (''POST'', [Word ''advisor'', Word ''suggestions'', Wild ''id'', Word ''dismiss''], ''decideAdvisorSuggestion dismissed''),
      (''POST'', [Word ''advisor'', Word ''run''], ''runAdvisor''),
      (''POST'', [Word ''alert-instances'', Wild ''id'', Word ''opened''], ''alertInstanceOpened''),
      (''GET'', [Word ''settings'', Word ''auth-providers''], ''listAuthProviders''),
      (''POST'', [Word ''settings'', Word ''auth-providers''], ''createAuthProvider''),
      (''PUT'', [Word ''settings'', Word ''auth-providers'', Wild ''id''], ''updateAuthProvider''),
      (''DELETE'', [Word ''settings'', Word ''auth-providers'', Wild ''id''], ''deleteAuthProvider''),
      (''GET'', [Word ''settings'', Word ''auth-providers'', Wild ''id'', Word ''mappings''], ''listClaimMappings''),
      (''POST'', [Word ''settings'', Word ''auth-providers'', Wild ''id'', Word ''mappings''], ''createClaimMapping''),
      (''DELETE'', [Word ''settings'', Word ''auth-providers'', Wild ''id'', Word ''mappings'', Wild ''mid''], ''deleteClaimMapping''),
      (''GET'', [Word ''services'', Wild ''name'', Word ''groups''], ''listServiceGroupsHandler''),
      (''PUT'', [Word ''services'', Wild ''name'', Word ''groups''], ''putServiceGroupsHandler''),
      (''GET'', [Word ''metadata-fields''], ''listMetadataFields''),
      (''PUT'', [Word ''integrations'', Wild ''id'', Word ''metadata''], ''putIntegrationMetadata''),
      (''GET'', [Word ''integrations'', Wild ''id'', Word ''sources''], ''listIntegrationSources''),
      (''PUT'', [Word ''integrations'', Wild ''id'', Word ''sources''], ''putIntegrationSources''),
      (''POST'', [Word ''metadata-fields''], ''createMetadataField''),
      (''PATCH'', [Word ''metadata-fields'', Wild ''id''], ''updateMetadataField''),
      (''DELETE'', [Word ''metadata-fields'', Wild ''id''], ''deleteMetadataField''),
      (''GET'', [Word ''services'', Wild ''name'', Word ''tags''], ''listServiceTags''),
      (''POST'', [Word ''services'', Wild ''name'', Word ''tags'', Wild ''tagId''], ''attachServiceTag''),
      (''DELETE'', [Word ''services'', Wild ''name'', Word ''tags'', Wild ''tagId''], ''detachServiceTag''),
      (''GET'', [Word ''openapi.json''], ''openapiSpec''),
      (''GET'', [Word ''llms.txt''], ''llmsSpec'')]"

definition other_routes :: "route list" where
  "other_routes =
     [
      (''GET'', [Word ''.well-known'', Word ''oauth-protected-resource''], ''oauthProtectedResource''),
      (''GET'', [Word ''.well-known'', Word ''oauth-protected-resource'', Word ''api'', Word ''v1'', Word ''mcp''], ''oauthProtectedResource''),
      (''GET'', [Word ''.well-known'', Word ''oauth-authorization-server''], ''oauthASMetadata''),
      (''GET'', [Word ''.well-known'', Word ''oauth-authorization-server'', Word ''api'', Word ''v1'', Word ''mcp''], ''oauthASMetadata''),
      (''GET'', [Word ''.well-known'', Word ''openid-configuration''], ''oauthASMetadata''),
      (''GET'', [Word ''healthz''], ''healthz''),
      (''GET'', [Word ''readyz''], ''readyz''),
      (''GET'', [Word ''api'', Word ''docs''], ''apiDocs''),
      (''GET'', [Word ''api'', Word ''docs'', Word ''scalar.js''], ''scalarAsset'')]"

definition server_routes :: "route list" where
  "server_routes = map (\<lambda>r. (fst r, Word ''api'' # Word ''v1'' # fst (snd r), snd (snd r))) api_routes @ other_routes"

text \<open>The comparison and the filter below evaluate quickly.\<close>

fun same :: "string \<Rightarrow> string \<Rightarrow> bool" where
  "same [] t = (t = [])"
| "same (c # s) [] = False"
| "same (c # s) (d # t) = (if c = d then same s t else False)"

lemma same_iff [simp]: "same s t \<longleftrightarrow> s = t"
  by (induction s t rule: same.induct) auto

fun keep :: "bool \<Rightarrow> 'a \<Rightarrow> 'a list \<Rightarrow> 'a list" where
  "keep True x xs = x # xs"
| "keep False x xs = xs"

fun route_table :: "route list \<Rightarrow> string \<Rightarrow> route_table" where
  "route_table [] m = []"
| "route_table ((k, r) # rs) m = keep (same k m) r (route_table rs m)"

text \<open>The routes that go on after a segment: those with that literal, those with a wildcard.\<close>

fun words :: "jstring \<Rightarrow> route_table \<Rightarrow> route_table" where
  "words s [] = []"
| "words s ((Word w # q, t) # rs) = keep (js w = s) (q, t) (words s rs)"
| "words s (r # rs) = words s rs"

fun wilds :: "route_table \<Rightarrow> route_table" where
  "wilds [] = []"
| "wilds ((Wild n # q, t) # rs) = (q, t) # wilds rs"
| "wilds (r # rs) = wilds rs"

fun lookup :: "route_table \<Rightarrow> jstring list \<Rightarrow> (string \<times> jstring list) option" where
  "lookup rs [] = map_option (\<lambda>r. (snd r, [])) (find (\<lambda>r. fst r = []) rs)"
| "lookup rs (s # ss) =
     (case lookup (words s rs) ss of
        Some x \<Rightarrow> Some x
      | None \<Rightarrow> map_option (\<lambda>x. (fst x, s # snd x)) (lookup (wilds rs) ss))"

text \<open>A path with an empty or a dot segment is not served: the browser resolves the dots before it
  sends the path, and the mux redirects to the cleaned path.\<close>

definition dot_segment :: "jstring \<Rightarrow> bool" where
  "dot_segment s \<longleftrightarrow> s = [] \<or> s = js ''.'' \<or> s = js ''..''"

definition dispatch :: "route list \<Rightarrow> string \<Rightarrow> jstring \<Rightarrow> (string \<times> jstring list) option" where
  "dispatch rs m path =
     (case split_on 47 path of
        [] \<Rightarrow> None
      | s # segs \<Rightarrow>
          if s \<noteq> [] \<or> list_ex dot_segment segs then None
          else Option.bind (those (map decodeURIComponent segs)) (lookup (route_table rs m)))"

definition serve :: "route list \<Rightarrow> string \<Rightarrow> jstring \<Rightarrow> (string \<times> jstring list) option" where
  "serve rs m url = dispatch rs m (takeWhile (\<lambda>c. c \<noteq> 63) url)"

section \<open>The URL of a call\<close>

fun render :: "piece list \<Rightarrow> jstring option" where
  "render [] = Some []"
| "render (T s # ps) = map_option (\<lambda>r. js s @ r) (render ps)"
| "render (P x # ps) = (case encodeURIComponent x of None \<Rightarrow> None | Some e \<Rightarrow> map_option (\<lambda>r. e @ r) (render ps))"
| "render (R s # ps) = map_option (\<lambda>r. s @ r) (render ps)"

definition call_url :: "jstring list option \<Rightarrow> api_call \<Rightarrow> jstring option" where
  "call_url envs c =
     Option.bind (render (ac_path c)) (\<lambda>p. Option.bind (render (ac_query c)) (\<lambda>q.
       map_option (\<lambda>u. js ''/api/v1'' @ u) (request_path envs (p @ q) (js (ac_method c)))))"

section \<open>A path as a template\<close>

text \<open>The segments of a path before encoding: what the mux sees of it.\<close>

datatype call_seg = Fixed string | Slot jstring

fun seg_value :: "call_seg \<Rightarrow> jstring" where
  "seg_value (Fixed l) = js l"
| "seg_value (Slot x) = x"

text \<open>The path as symbols, a character of the literal text or a whole encoded value, split at the slashes.\<close>

fun split_at :: "'a \<Rightarrow> 'a list \<Rightarrow> 'a list list" where
  "split_at c [] = [[]]"
| "split_at c (x # xs) =
     (if x = c then [] # split_at c xs
      else (case split_at c xs of [] \<Rightarrow> [[x]] | y # ys \<Rightarrow> (x # y) # ys))"

fun symbols :: "piece list \<Rightarrow> (jstring + char) list option" where
  "symbols [] = Some []"
| "symbols (T s # ps) =
     (if list_all (\<lambda>c. c \<noteq> CHR ''?'' \<and> c \<noteq> CHR ''%'') s then map_option (\<lambda>r. map Inr s @ r) (symbols ps) else None)"
| "symbols (P x # ps) = map_option (\<lambda>r. Inl x # r) (symbols ps)"
| "symbols (R s # ps) = None"

fun chars_of :: "(jstring + char) list \<Rightarrow> string option" where
  "chars_of [] = Some []"
| "chars_of (Inr c # xs) = map_option (\<lambda>r. c # r) (chars_of xs)"
| "chars_of (Inl s # xs) = None"

definition fixed_seg :: "(jstring + char) list \<Rightarrow> call_seg option" where
  "fixed_seg xs =
     (case chars_of xs of None \<Rightarrow> None
      | Some l \<Rightarrow> if l = [] \<or> l = ''.'' \<or> l = ''..'' then None else Some (Fixed l))"

fun seg_of :: "(jstring + char) list \<Rightarrow> call_seg option" where
  "seg_of [Inl x] = Some (Slot x)"
| "seg_of xs = fixed_seg xs"

definition template :: "piece list \<Rightarrow> call_seg list option" where
  "template ps =
     (case symbols ps of None \<Rightarrow> None
      | Some ss \<Rightarrow>
          (case split_at (Inr CHR ''/'') ss of [] \<Rightarrow> None
           | g # gs \<Rightarrow> if g \<noteq> [] then None else those (map seg_of gs)))"

text \<open>The mux on a template.  A slot never equals a literal of the table, except where its value is one of
  the \<open>reserved\<close> words: the literals that stand beside a wildcard.\<close>

fun literal_words :: "string \<Rightarrow> route_table \<Rightarrow> route_table" where
  "literal_words l [] = []"
| "literal_words l ((Word w # q, t) # rs) = keep (same w l) (q, t) (literal_words l rs)"
| "literal_words l (r # rs) = literal_words l rs"

fun heads :: "route_table \<Rightarrow> string list" where
  "heads [] = []"
| "heads ((Word w # q, t) # rs) = w # heads rs"
| "heads (r # rs) = heads rs"

fun first_of :: "'a option \<Rightarrow> 'a option \<Rightarrow> 'a option" where
  "first_of None y = y"
| "first_of (Some x) y = Some x"

fun literal_step :: "call_seg \<Rightarrow> bool \<times> (string \<times> call_seg list) option \<Rightarrow>
    bool \<times> (string \<times> call_seg list) option \<Rightarrow> bool \<times> (string \<times> call_seg list) option" where
  "literal_step s (p, x) (q, y) = (p \<and> q, first_of x (map_option (\<lambda>z. (fst z, s # snd z)) y))"

fun slot_step :: "call_seg \<Rightarrow> bool \<Rightarrow> bool \<times> (string \<times> call_seg list) option \<Rightarrow>
    bool \<times> (string \<times> call_seg list) option" where
  "slot_step s p (q, y) = (p \<and> q, map_option (\<lambda>z. (fst z, s # snd z)) y)"

fun scan :: "string list \<Rightarrow> route_table \<Rightarrow> call_seg list \<Rightarrow> bool \<times> (string \<times> call_seg list) option" where
  "scan res rs [] = (True, map_option (\<lambda>r. (snd r, [])) (find (\<lambda>r. fst r = []) rs))"
| "scan res rs (Fixed l # ss) = literal_step (Fixed l) (scan res (literal_words l rs) ss) (scan res (wilds rs) ss)"
| "scan res rs (Slot x # ss) =
     slot_step (Slot x) (list_all (\<lambda>w. w \<in> set res \<or> scan res (literal_words w rs) ss = (True, None)) (heads rs))
       (scan res (wilds rs) ss)"

definition reserved :: "string list" where
  "reserved = [''stats'', ''volume'', ''groups'']"

fun reaches_at :: "route_table \<Rightarrow> call_seg list option \<Rightarrow> string \<times> jstring list \<Rightarrow> bool" where
  "reaches_at rs None y = False"
| "reaches_at rs (Some ss) y = (scan reserved rs ss = (True, Some (fst y, map Slot (snd y))))"

definition reaches :: "route_table \<Rightarrow> piece list \<times> string \<times> jstring list \<Rightarrow> bool" where
  "reaches rs x = reaches_at rs (template (fst x)) (snd x)"

text \<open>An argument that can be one segment of a path.\<close>

definition segment_ok :: "jstring \<Rightarrow> bool" where
  "segment_ok x \<longleftrightarrow> well_formed x \<and> \<not> dot_segment x \<and> list_all (\<lambda>w. x \<noteq> js w) reserved"

section \<open>A template stands for its texts\<close>

lemma words_js: "words (js l) rs = literal_words l rs"
  by (induction l rs rule: literal_words.induct) (auto simp: js_eq_iff)

lemma keep_if: "keep b x xs = (if b then x # xs else xs)"
  by simp

lemma words_cases: "words x rs = [] \<or> (\<exists>w \<in> set (heads rs). x = js w)"
  by (induction x rs rule: words.induct) (auto simp: keep_if)

lemma lookup_empty: "lookup [] ss = None"
  by (induction ss) auto

lemma scan_lookup:
  assumes "fst (scan res rs ss)" "\<forall>x. Slot x \<in> set ss \<longrightarrow> list_all (\<lambda>w. x \<noteq> js w) res"
  shows "lookup rs (map seg_value ss) = map_option (\<lambda>y. (fst y, map seg_value (snd y))) (snd (scan res rs ss))"
  using assms
proof (induction res rs ss rule: scan.induct)
  case (1 res rs)
  then show ?case by (simp add: option.map_comp comp_def)
next
  case (2 res rs l ss)
  obtain p x q y where s: "scan res (literal_words l rs) ss = (p, x)" "scan res (wilds rs) ss = (q, y)" by fastforce
  with 2 show ?case by (cases x; cases y) (auto simp: words_js)
next
  case (3 res rs x ss)
  obtain q y where s: "scan res (wilds rs) ss = (q, y)" by fastforce
  have "lookup (words x rs) (map seg_value ss) = None"
    using words_cases [of x rs]
  proof
    assume "\<exists>w \<in> set (heads rs). x = js w"
    then obtain w where w: "w \<in> set (heads rs)" "x = js w" by blast
    with 3(4) have "w \<notin> set res" by (auto simp: list_all_iff)
    with 3(3) w(1) have n: "scan res (literal_words w rs) ss = (True, None)" by (auto simp: s list_all_iff)
    from 3(1) [OF w(1)] n 3(4) show ?thesis by (simp add: w(2) words_js)
  qed (simp add: lookup_empty)
  with 3 s show ?case by (cases y) auto
qed

definition symbol_text :: "jstring + char \<Rightarrow> jstring" where
  "symbol_text x = (case x of Inl s \<Rightarrow> coalesce (encodeURIComponent s) [] | Inr c \<Rightarrow> [cu c])"

lemma symbol_text_simps [simp]:
  "symbol_text (Inl s) = coalesce (encodeURIComponent s) []"
  "symbol_text (Inr c) = [cu c]"
  by (simp_all add: symbol_text_def)

lemma js_char: "cu c \<in> set (js s) \<longleftrightarrow> c \<in> set s"
  by (auto simp: js_def of_char_eq_iff)

lemma render_symbols:
  "symbols ps = Some ss \<Longrightarrow> \<forall>x. Inl x \<in> set ss \<longrightarrow> encodeURIComponent x \<noteq> None
    \<Longrightarrow> render ps = Some (concat (map symbol_text ss))"
proof (induction ps arbitrary: ss rule: symbols.induct)
  case (2 s ps)
  have "js s = concat (map (symbol_text \<circ> Inr) s)" by (induction s) (auto simp: js_def)
  with 2 show ?case by (auto split: if_splits)
qed (auto split: option.splits)

lemma split_at_nonempty [simp]: "split_at c xs \<noteq> []"
  by (induction xs) (auto split: list.splits)

lemma set_split_at: "x \<in> set xs \<Longrightarrow> x \<noteq> c \<Longrightarrow> \<exists>g \<in> set (split_at c xs). x \<in> set g"
  by (induction xs) (auto split: list.splits)

lemma split_at_sub: "g \<in> set (split_at c xs) \<Longrightarrow> set g \<subseteq> set xs"
proof (induction xs arbitrary: g)
  case (Cons y ys)
  obtain z zs where z: "split_at c ys = z # zs" by (cases "split_at c ys") auto
  then have z1: "set z \<subseteq> set ys" and z2: "\<forall>h \<in> set zs. set h \<subseteq> set ys" using Cons(1) by auto
  have "g \<in> set ([] # z # zs) \<or> g = y # z" using Cons(2) z by (auto split: if_splits)
  with z1 z2 show ?case by auto
qed simp

lemma split_on_prefix: "c \<notin> set t \<Longrightarrow> split_on c (t @ r) = (t @ hd (split_on c r)) # tl (split_on c r)"
proof (induction t)
  case Nil
  then show ?case by (cases "split_on c r") auto
qed auto

lemma split_texts:
  assumes "\<forall>x. Inl x \<in> set ss \<longrightarrow> 47 \<notin> set (symbol_text (Inl x))"
  shows "split_on 47 (concat (map symbol_text ss)) = map (\<lambda>g. concat (map symbol_text g)) (split_at (Inr CHR ''/'') ss)"
  using assms
proof (induction ss)
  case (Cons x ss)
  obtain g gs where g: "split_at (Inr CHR ''/'') ss = g # gs" by (cases "split_at (Inr CHR ''/'') ss") auto
  have slash: "cu c = 47 \<longleftrightarrow> c = CHR ''/''" for c
    using of_char_eq_iff [of c "CHR ''/''", where 'a = nat] by simp
  from Cons have ih: "split_on 47 (concat (map symbol_text ss)) = concat (map symbol_text g) # map (\<lambda>g. concat (map symbol_text g)) gs"
    by (simp add: g)
  show ?case
  proof (cases "x = Inr CHR ''/''")
    case True
    then show ?thesis using ih by (simp add: g)
  next
    case False
    with Cons(2) slash have "47 \<notin> set (symbol_text x)" by (cases x) auto
    then show ?thesis using False ih by (simp add: g split_on_prefix)
  qed
qed simp

lemma chars_of_Some: "chars_of g = Some l \<Longrightarrow> g = map Inr l"
  by (induction g arbitrary: l rule: chars_of.induct) auto

lemma seg_of_cases:
  "seg_of g = Some s \<Longrightarrow> (\<exists>x. g = [Inl x] \<and> s = Slot x) \<or>
     (\<exists>l. g = map Inr l \<and> s = Fixed l \<and> l \<noteq> [] \<and> l \<noteq> ''.'' \<and> l \<noteq> ''..'')"
  by (cases g rule: seg_of.cases) (auto simp: fixed_seg_def dest!: chars_of_Some split: option.splits if_splits)

lemma decode_plain: "37 \<notin> set s \<Longrightarrow> decodeURIComponent s = Some s"
  by (induction s) auto

lemma literal_text: "concat (map symbol_text (map Inr l)) = js l"
  by (induction l) (auto simp: js_def)

lemma segment_encoded:
  assumes "segment_ok x"
  obtains e where "encodeURIComponent x = Some e" "decodeURIComponent e = Some x" "47 \<notin> set e" "63 \<notin> set e" "\<not> dot_segment e"
proof -
  from assms obtain e where e: "encodeURIComponent x = Some e" "\<forall>u \<in> set x. u < 0x10000"
    by (auto simp: segment_ok_def well_formed_def encodeURIComponent_def)
  have d: "decodeURIComponent e = Some x" by (rule decode_encode [OF e])
  have u: "c \<noteq> 47 \<and> c \<noteq> 63" if "c \<in> set e" for c
    using encode_units [OF e that]
    by (auto simp: escaped_unit_def unreserved_def is_digit_def is_lower_def is_upper_def js_def)
  have "decodeURIComponent e = Some e" if "dot_segment e"
    using that by (intro decode_plain) (auto simp: dot_segment_def js_def)
  with assms d have "\<not> dot_segment e" by (auto simp: segment_ok_def)
  with e d u show ?thesis by (intro that [of e]) auto
qed

lemma seg_text:
  assumes "seg_of g = Some s" "\<forall>x. Inl x \<in> set g \<longrightarrow> segment_ok x" "Inr CHR ''%'' \<notin> set g"
  shows "decodeURIComponent (concat (map symbol_text g)) = Some (seg_value s)"
    "\<not> dot_segment (concat (map symbol_text g))"
proof -
  have "decodeURIComponent (concat (map symbol_text g)) = Some (seg_value s) \<and> \<not> dot_segment (concat (map symbol_text g))"
    using seg_of_cases [OF assms(1)]
  proof (elim disjE exE conjE)
    fix x assume x: "g = [Inl x]" "s = Slot x"
    with assms(2) obtain e where "encodeURIComponent x = Some e" "decodeURIComponent e = Some x" "\<not> dot_segment e"
      by (auto elim: segment_encoded)
    then show ?thesis by (simp add: x)
  next
    fix l assume l: "g = map Inr l" "s = Fixed l" "l \<noteq> []" "l \<noteq> ''.''" "l \<noteq> ''..''"
    have "cu CHR ''%'' \<notin> set (js l)" unfolding js_char using assms(3) by (auto simp: l(1))
    then have "37 \<notin> set (js l)" by simp
    with l(3-) show ?thesis unfolding l(1,2) literal_text seg_value.simps
      by (simp add: decode_plain dot_segment_def js_eq_iff)
  qed
  then show "decodeURIComponent (concat (map symbol_text g)) = Some (seg_value s)"
    "\<not> dot_segment (concat (map symbol_text g))" by simp_all
qed

lemma those_map_Some: "those (map Some ys) = Some ys"
  by (induction ys) auto

lemma those_SomeD: "those xs = Some ys \<Longrightarrow> xs = map Some ys"
  by (induction xs arbitrary: ys) (auto split: option.splits)

lemma symbols_plain: "symbols ps = Some ss \<Longrightarrow> Inr CHR ''%'' \<notin> set ss \<and> Inr CHR ''?'' \<notin> set ss"
proof (induction ps arbitrary: ss rule: symbols.induct)
  case (2 s ps)
  from 2(2) obtain r where r: "symbols ps = Some r" "ss = map Inr s @ r" and l: "list_all (\<lambda>c. c \<noteq> CHR ''?'' \<and> c \<noteq> CHR ''%'') s"
    by (auto split: if_splits)
  from l have "CHR ''%'' \<notin> set s" "CHR ''?'' \<notin> set s" unfolding list_all_iff by blast+
  with 2(1) [OF l r(1)] show ?case by (simp add: r(2) image_iff)
qed auto

lemma template_path:
  assumes "template ps = Some segs" "\<forall>x. Slot x \<in> set segs \<longrightarrow> segment_ok x"
  obtains u ts where "render ps = Some u" "63 \<notin> set u" "split_on 47 u = [] # ts" "\<not> list_ex dot_segment ts"
    "those (map decodeURIComponent ts) = Some (map seg_value segs)"
proof -
  from assms(1) obtain ss gs where ss: "symbols ps = Some ss" "split_at (Inr CHR ''/'') ss = [] # gs"
    and segs: "map seg_of gs = map Some segs"
    by (auto simp: template_def dest!: those_SomeD split: option.splits list.splits if_splits)
  have ok: "segment_ok x" if "Inl x \<in> set ss" for x
  proof -
    from set_split_at [OF that, of "Inr CHR ''/''"] obtain g where g: "g \<in> set gs" "Inl x \<in> set g" by (auto simp: ss(2))
    from g(1) have "seg_of g \<in> set (map Some segs)" unfolding segs [symmetric] by simp
    then obtain s where s: "s \<in> set segs" "seg_of g = Some s" by auto
    with seg_of_cases [OF s(2)] g(2) have "s = Slot x" by auto
    with s(1) assms(2) show ?thesis by blast
  qed
  have units: "encodeURIComponent x \<noteq> None \<and> 47 \<notin> set (symbol_text (Inl x)) \<and> 63 \<notin> set (symbol_text (Inl x))"
    if "Inl x \<in> set ss" for x
    using ok [OF that] by (rule segment_encoded) simp
  let ?u = "concat (map symbol_text ss)" and ?t = "\<lambda>g. concat (map symbol_text g)"
  have r: "render ps = Some ?u" by (rule render_symbols [OF ss(1)]) (use units in blast)
  have q: "63 \<notin> set (symbol_text x)" if "x \<in> set ss" for x
  proof (cases x)
    case (Inl y)
    with units [of y] that show ?thesis by simp
  next
    case (Inr c)
    with symbols_plain [OF ss(1)] that have "c \<noteq> CHR ''?''" by auto
    then have "cu c \<noteq> 63" using of_char_eq_iff [of c "CHR ''?''", where 'a = nat] by simp
    then show ?thesis by (simp add: Inr)
  qed
  have sp: "split_on 47 ?u = [] # map ?t gs" by (subst split_texts) (use units in \<open>auto simp: ss(2)\<close>)
  have g: "decodeURIComponent (?t g) = Some (seg_value s) \<and> \<not> dot_segment (?t g)" if "g \<in> set gs" "seg_of g = Some s" for g s
  proof -
    have "set g \<subseteq> set ss" using split_at_sub [of g "Inr CHR ''/''" ss] that(1) ss(2) by auto
    with ok symbols_plain [OF ss(1)] seg_text [OF that(2)] show ?thesis by blast
  qed
  have d: "map decodeURIComponent (map ?t gs) = map Some (map seg_value segs) \<and> \<not> list_ex dot_segment (map ?t gs)"
    using segs g
  proof (induction gs arbitrary: segs)
    case (Cons h hs)
    then obtain s ts where s: "segs = s # ts" "seg_of h = Some s" "map seg_of hs = map Some ts" by (cases segs) auto
    with Cons(1) [OF s(3)] Cons(3) show ?case by (auto simp: s)
  qed simp
  then have "those (map decodeURIComponent (map ?t gs)) = Some (map seg_value segs)" by (simp only: those_map_Some)
  with r sp q d show ?thesis by (intro that [of ?u "map ?t gs"]) auto
qed

section \<open>Prefix and query\<close>

lemma literal_words_append: "literal_words l (xs @ ys) = literal_words l xs @ literal_words l ys"
  by (induction l xs rule: literal_words.induct) (auto simp: keep_if)

lemma route_table_append: "route_table (xs @ ys) m = route_table xs m @ route_table ys m"
  by (induction xs m rule: route_table.induct) (auto simp: keep_if)

lemma table_under_api:
  "literal_words ''v1'' (literal_words ''api''
     (route_table (map (\<lambda>r. (fst r, Word ''api'' # Word ''v1'' # fst (snd r), snd (snd r))) rs) m)) = route_table rs m"
  by (induction rs m rule: route_table.induct) (auto simp: keep_if)

lemma other_routes_apart: "literal_words ''v1'' (literal_words ''api'' (route_table other_routes m)) = []"
  by (simp add: other_routes_def keep_if)

lemma server_lookup:
  "lookup (route_table api_routes m) ss = Some r
    \<Longrightarrow> lookup (route_table server_routes m) (js ''api'' # js ''v1'' # ss) = Some r"
  by (simp add: words_js server_routes_def route_table_append literal_words_append table_under_api other_routes_apart)

fun query_start :: "piece list \<Rightarrow> bool" where
  "query_start [] = True"
| "query_start (T (c # s) # ps) = (c = CHR ''?'')"
| "query_start ps = False"

lemma query_start_text: "query_start q \<Longrightarrow> render q = Some t \<Longrightarrow> t = [] \<or> (\<exists>r. t = 63 # r)"
  by (cases q rule: query_start.cases) (auto simp: js_def)

lemma before_query: "63 \<notin> set p \<Longrightarrow> takeWhile (\<lambda>x. x \<noteq> 63) (p @ 63 # s) = p"
  by (induction p) auto

lemma call_url_path:
  assumes "call_url envs c = Some url" "render (ac_path c) = Some p" "63 \<notin> set p" "query_start (ac_query c)"
  shows "takeWhile (\<lambda>x. x \<noteq> 63) url = js ''/api/v1'' @ p"
proof -
  from assms(1,2) obtain t r where t: "render (ac_query c) = Some t" "url = js ''/api/v1'' @ r"
    "request_path envs (p @ t) (js (ac_method c)) = Some r" by (auto simp: call_url_def bind_eq_Some_conv)
  from query_start_text [OF assms(4) t(1)] t(3) assms(3) have "r = p \<or> (\<exists>s. r = p @ 63 # s)"
    by (auto simp: request_path_def js_def split: option.splits if_splits)
  then show ?thesis using assms(3) by (auto simp: t(2) js_def before_query takeWhile_eq_all_conv)
qed

lemma call_reaches:
  assumes "reaches (route_table api_routes (ac_method c)) (ac_path c, h, xs)" "query_start (ac_query c)" "list_all segment_ok xs"
  shows "case call_url envs c of
      Some url \<Rightarrow> serve server_routes (ac_method c) url = Some (h, xs)
    | None \<Rightarrow> render (ac_query c) = None \<or> (\<exists>es. envs = Some es \<and> encode_all es = None)"
proof -
  from assms(1) obtain ss where ss: "template (ac_path c) = Some ss"
    "scan reserved (route_table api_routes (ac_method c)) ss = (True, Some (h, map Slot xs))"
    by (cases "template (ac_path c)") (auto simp: reaches_def)
  have slots: "segment_ok x" if "Slot x \<in> set ss" for x
  proof -
    have "Slot x \<in> set ss \<Longrightarrow> scan res rs ss = (p, Some y) \<Longrightarrow> Slot x \<in> set (snd y)" for res rs p y
    proof (induction res rs ss arbitrary: p y rule: scan.induct)
      case (2 res rs l ss)
      obtain p1 x1 p2 x2 where "scan res (literal_words l rs) ss = (p1, x1)" "scan res (wilds rs) ss = (p2, x2)" by fastforce
      with 2 show ?case by (cases x1; cases x2) auto
    next
      case (3 res rs z ss)
      obtain p2 x2 where "scan res (wilds rs) ss = (p2, x2)" by fastforce
      with 3 show ?case by (cases x2) auto
    qed simp
    from this [OF that ss(2)] assms(3) show ?thesis by (auto simp: list_all_iff)
  qed
  then obtain u ts where u: "render (ac_path c) = Some u" "63 \<notin> set u" "split_on 47 u = [] # ts" "\<not> list_ex dot_segment ts"
    "those (map decodeURIComponent ts) = Some (map seg_value ss)"
    using template_path [OF ss(1)] by blast
  have "lookup (route_table api_routes (ac_method c)) (map seg_value ss) = Some (h, xs)"
    using scan_lookup [of reserved "route_table api_routes (ac_method c)" ss] slots
    by (simp add: ss(2) segment_ok_def comp_def)
  then have l: "lookup (route_table server_routes (ac_method c)) (js ''api'' # js ''v1'' # map seg_value ss) = Some (h, xs)"
    by (rule server_lookup)
  have sp: "split_on 47 (js ''/api/v1'' @ u) = [] # js ''api'' # js ''v1'' # ts"
    using u(3) split_on_prefix [of 47 "js ''v1''" u] split_on_append [of 47 "js ''api''" "js ''v1'' @ u"]
    by (simp add: js_def)
  have dots: "\<not> dot_segment (js ''api'')" "\<not> dot_segment (js ''v1'')"
    "decodeURIComponent (js ''api'') = Some (js ''api'')" "decodeURIComponent (js ''v1'') = Some (js ''v1'')"
    by code_simp+
  have "dispatch server_routes (ac_method c) (js ''/api/v1'' @ u) = Some (h, xs)"
    unfolding dispatch_def sp using u(4,5) l dots by simp
  then show ?thesis
    using call_url_path [OF _ u(1,2) assms(2), of envs]
    by (auto simp: serve_def call_url_def u(1) request_path_def bind_eq_None_conv split: option.splits if_splits)
qed

section \<open>Every wrapper with its handler\<close>

text \<open>The wrappers with arbitrary arguments: \<open>a\<close> and \<open>b\<close> for the values put into the path, the
  functions of \<open>v\<close> for all the others.  Beside each the handler meant for it and the path values it is
  meant to receive.\<close>

record 'f call_inputs =
  in_text :: "nat \<Rightarrow> jstring"
  in_opt :: "nat \<Rightarrow> jstring option"
  in_flag :: "nat \<Rightarrow> bool"
  in_flag_opt :: "bool option"
  in_nat :: "nat \<Rightarrow> nat option"
  in_rat :: rat
  in_rat_opt :: "rat option"
  in_json :: json
  in_json_opt :: "json option"
  in_texts :: "jstring list"
  in_texts_opt :: "jstring list option"
  in_view :: "topology_view option"
  in_mode :: import_mode
  in_stringify :: "'f \<Rightarrow> jstring"
  in_search :: "'f search_opts"

definition surface :: "jstring \<Rightarrow> jstring \<Rightarrow> 'f call_inputs \<Rightarrow> (api_call \<times> string \<times> jstring list) list" where
  "surface a b v =
     [
      (api_listAdvisorSuggestions (in_opt v 0) (in_opt v 1), ''listAdvisorSuggestions'', []),
      (api_acceptAdvisorSuggestion a (in_opt v 0), ''decideAdvisorSuggestion accepted'', [a]),
      (api_dismissAdvisorSuggestion a (in_opt v 0), ''decideAdvisorSuggestion dismissed'', [a]),
      (api_runAdvisor, ''runAdvisor'', []),
      (api_markAlertInstanceOpened a, ''alertInstanceOpened'', [a]),
      (api_listServices (in_opt v 0) (in_flag v 0) (in_opt v 1) (in_flag v 1), ''listServices'', []),
      (api_listSystems, ''listSystems'', []),
      (api_getSystem a (in_opt v 0), ''getSystem'', [a]),
      (api_createSystem (in_json v), ''createSystem'', []),
      (api_updateSystem a (in_json v), ''updateSystem'', [a]),
      (api_deleteSystem a, ''deleteSystem'', [a]),
      (api_systemDeleteImpact a, ''systemDeleteImpact'', [a]),
      (api_attachSystemService a (in_text v 0), ''attachSystemService'', [a]),
      (api_detachSystemService a b, ''detachSystemService'', [a, b]),
      (api_getSystemMetadata a, ''getSystemMetadata'', [a]),
      (api_putSystemMetadata a (in_json v), ''putSystemMetadata'', [a]),
      (api_applySystemTemplateAll a (in_texts_opt v), ''applySystemTemplateAll'', [a]),
      (api_setServiceSystem a (in_flag v 0) (in_text v 0), ''putServiceSystem'', [a]),
      (api_setBadgePublic BadgeIntegration a (in_flag v 0), ''putIntegrationBadge'', [a]),
      (api_setBadgePublic BadgeSystem a (in_flag v 0), ''putSystemBadge'', [a]),
      (api_setBadgePublic BadgeService a (in_flag v 0), ''putServiceBadge'', [a]),
      (api_setMessageColumns a (in_json v), ''putIntegrationMessageColumns'', [a]),
      (api_applySystemTemplate a (in_texts_opt v), ''applySystemTemplate'', [a]),
      (api_applyTemplate a (in_text v 0) (in_texts_opt v), ''applyTemplate'', [a]),
      (api_templateSuggestions a, ''templateSuggestions'', [a]),
      (api_removeTemplate a (in_opt v 0) (in_opt v 1), ''removeTemplate'', [a]),
      (api_applyCustomTemplate a (in_text v 0) (in_texts_opt v), ''applyTemplate'', [a]),
      (api_listMonitoringTemplates, ''listMonitoringTemplates'', []),
      (api_createMonitoringTemplate (in_json v), ''createMonitoringTemplate'', []),
      (api_updateMonitoringTemplate a (in_json v), ''updateMonitoringTemplate'', [a]),
      (api_deleteMonitoringTemplate a, ''deleteMonitoringTemplate'', [a]),
      (api_listSystemTypes, ''listSystemTypes'', []),
      (api_createSystemType (in_json v), ''createSystemType'', []),
      (api_updateSystemType a (in_json v), ''updateSystemType'', [a]),
      (api_deleteSystemType a, ''deleteSystemType'', [a]),
      (api_errorsFeed (in_opt v 0), ''errorsFeed'', []),
      (api_getDigest, ''getDigest'', []),
      (api_markDigestSeen, ''markDigestSeen'', []),
      (api_serviceDetail a (in_opt v 0), ''serviceDetail'', [a]),
      (api_search (in_text v 0) (in_opt v 0) (in_opt v 1) (in_opt v 2) (in_flag v 0), ''search'', []),
      (api_globalSearch (in_text v 0) (in_opt v 0), ''globalSearch'', []),
      (api_traceDetail a, ''traceDetail'', [a]),
      (api_traceChain a, ''traceChain'', [a]),
      (api_getPreference a, ''getPreference'', [a]),
      (api_putPreference a (in_json v), ''putPreference'', [a]),
      (api_listIntegrations (in_opt v 0) (in_flag v 0) (in_flag v 1) (in_texts_opt v) (in_flag v 2), ''listIntegrations'', []),
      (api_integrationStats (in_texts v) (in_opt v 0) (in_flag v 0) (in_flag v 1), ''integrationStats'', []),
      (api_integrationEnvironments a (in_opt v 0), ''integrationEnvironments'', [a]),
      (api_setIntegrationSources a (in_json v), ''putIntegrationSources'', [a]),
      (api_serviceEnvironments a (in_opt v 0), ''serviceEnvironments'', [a]),
      (api_setDeclaredEnvironments a (in_texts v), ''putDeclaredEnvironments'', [a]),
      (api_listEnvironments (in_opt v 0), ''listEnvironments'', []),
      (api_getTelemetryEnvironment, ''getTelemetryEnvironment'', []),
      (api_setTelemetryEnvironment (in_json v), ''putTelemetryEnvironment'', []),
      (api_previewIntegrationRules (in_json v) (in_opt v 0), ''previewIntegrationRules'', []),
      (api_getIntegration a (in_opt v 0), ''getIntegration'', [a]),
      (api_createIntegration (in_json v), ''createIntegration'', []),
      (api_updateIntegration a (in_json v), ''updateIntegration'', [a]),
      (api_deleteIntegration a, ''deleteIntegration'', [a]),
      (api_integrationDeleteImpact a, ''integrationDeleteImpact'', [a]),
      (api_cloneIntegration a (in_json v), ''cloneIntegration'', [a]),
      (api_addMatcher a (in_json v), ''addMatcher'', [a]),
      (api_removeMatcher a b, ''removeMatcher'', [a, b]),
      (api_replaceMatchers a (in_json v), ''replaceMatchers'', [a]),
      (api_removeServiceFromIntegration a b, ''removeServiceFromIntegration'', [a, b]),
      (api_getTopology (in_opt v 0) (in_view v) (in_flag v 0), ''topologyGraph'', []),
      (api_getMetadataGraph, ''metadataGraph'', []),
      (api_getNavigationReach, ''getNavigation'', []),
      (api_getBranding, ''getBranding'', []),
      (api_getLoginBranding, ''publicBranding'', []),
      (api_setBranding (in_json v), ''putBranding'', []),
      (api_setIntegrationMessageFilters a (in_json v), ''putIntegrationMessageFilters'', [a]),
      (api_getCollectorTarget, ''getCollectorTarget'', []),
      (api_setCollectorTarget (in_json v), ''patchCollectorTarget'', []),
      (api_getServiceCollectorTarget a, ''getServiceCollectorTarget'', [a]),
      (api_setServiceCollectorTarget a (in_json v), ''patchServiceCollectorTarget'', [a]),
      (api_integrationErrorBreakdown a (in_opt v 0), ''integrationErrorBreakdown'', [a]),
      (api_integrationFlow a (in_opt v 0) (in_opt v 1) (in_flag v 0), ''integrationFlow'', [a]),
      (api_listServiceFacets, ''listServiceFacets'', []),
      (api_getServiceFacet a (in_opt v 0), ''getServiceFacet'', [a]),
      (api_createServiceFacet (in_json v), ''createServiceFacet'', []),
      (api_updateServiceFacet a (in_json v), ''updateServiceFacet'', [a]),
      (api_deleteServiceFacet a, ''deleteServiceFacet'', [a]),
      (api_serviceWidgets a (in_opt v 0), ''serviceWidgets'', [a]),
      (api_serviceTraces a (in_opt v 0) (in_flag v 0), ''serviceTraces'', [a]),
      (api_serviceNeighbors a (in_opt v 0), ''serviceNeighbors'', [a]),
      (api_getServiceMetadata a, ''getServiceMetadata'', [a]),
      (api_updateServiceMetadata a (in_json v), ''putServiceMetadata'', [a]),
      (api_listMetadataFields, ''listMetadataFields'', []),
      (api_createMetadataField (in_json v), ''createMetadataField'', []),
      (api_updateMetadataField a (in_json v), ''updateMetadataField'', [a]),
      (api_deleteMetadataField a, ''deleteMetadataField'', [a]),
      (api_setIntegrationMetadata a (in_json v), ''putIntegrationMetadata'', [a]),
      (api_setServiceMetadataExtras a (in_json v), ''putServiceMetadataExtras'', [a]),
      (api_listSchemas, ''listSchemas'', []),
      (api_getSchema a, ''getSchema'', [a]),
      (api_createSchema (in_json v), ''createSchema'', []),
      (api_updateSchema a (in_json v), ''updateSchema'', [a]),
      (api_deleteSchema a, ''deleteSchema'', [a]),
      (api_setServiceSchemas a (in_json v), ''putServiceSchemas'', [a]),
      (api_listMaps, ''listMaps'', []),
      (api_getMap a, ''getMap'', [a]),
      (api_createMap (in_json v), ''createMap'', []),
      (api_updateMap a (in_json v), ''updateMap'', [a]),
      (api_deleteMap a, ''deleteMap'', [a]),
      (api_executeMap a (in_json v), ''executeMap'', [a]),
      (api_listFacetMappings a, ''listFacetMappings'', [a]),
      (api_createFacetMapping a (in_json v), ''createFacetMapping'', [a]),
      (api_deleteFacetMapping a b, ''deleteFacetMapping'', [a, b]),
      (api_getServiceFacetOverrides a, ''getFacetOverrides'', [a]),
      (api_updateServiceFacetOverrides a (in_json v), ''putFacetOverrides'', [a]),
      (api_serviceReadings a, ''serviceReadings'', [a]),
      (api_pushHealthCheckValue a b (in_rat v), ''pushHealthCheckValue'', [a, b]),
      (api_clearServiceErrors a (in_opt v 0), ''clearServiceErrors'', [a]),
      (api_unclearServiceErrors a, ''unclearServiceErrors'', [a]),
      (api_listServiceLogs (in_stringify v) a (in_opt v 0) (in_search v), ''listServiceLogs'', [a]),
      (api_listServiceMetricNames a (in_opt v 0), ''listServiceMetricNames'', [a]),
      (api_serviceMetricSeries a (in_text v 0) (in_opt v 0) (in_opt v 1) (in_nat v 0), ''serviceMetricSeries'', [a]),
      (api_searchLogs (in_stringify v) (in_opt v 0) (in_search v), ''listLogs'', []),
      (api_getLog a, ''getLog'', [a]),
      (api_logServices (in_opt v 0), ''logServices'', []),
      (api_logFields (in_opt v 0) (in_opt v 1), ''logFields'', []),
      (api_logAttrValues a (in_opt v 0) (in_nat v 0) (in_opt v 1), ''logAttrValues'', [a]),
      (api_logVolume (in_stringify v) (in_opt v 0) (in_search v), ''logVolume'', []),
      (api_listMetricCatalog (in_opt v 0), ''listMetricCatalog'', []),
      (api_metricCatalog (in_stringify v) (in_opt v 0) (in_search v), ''metricCatalog'', []),
      (api_metricGroups (in_stringify v) (in_opt v 0) (in_text v 0) (in_search v), ''metricGroups'', []),
      (api_logGroups (in_stringify v) (in_opt v 0) (in_text v 0) (in_search v), ''logGroups'', []),
      (api_usageReport (in_opt v 0), ''usageReport'', []),
      (api_usageVolume (in_opt v 0) (in_flag v 0), ''usageVolume'', []),
      (api_metricFields (in_opt v 0) (in_opt v 1) (in_opt v 2), ''metricFields'', []),
      (api_metricAttributeValues a (in_opt v 0) (in_nat v 0) (in_opt v 1) (in_opt v 2) (in_opt v 3), ''metricAttributeValues'', [a]),
      (api_listAlertRules (in_opt v 0) (in_opt v 1) (in_opt v 2), ''listAlertRules'', []),
      (api_createAlertRule (in_json v), ''createAlertRule'', []),
      (api_updateAlertRule a (in_json v), ''updateAlertRule'', [a]),
      (api_deleteAlertRule a, ''deleteAlertRule'', [a]),
      (api_previewAlertRule (in_json v) (in_opt v 0) (in_opt v 1) (in_opt v 2), ''previewAlertRule'', []),
      (api_getOrgNotificationTemplates, ''getOrgNotificationTemplates'', []),
      (api_putOrgNotificationTemplates (in_json v), ''putOrgNotificationTemplates'', []),
      (api_getGroupNotificationTemplate a, ''getGroupNotificationTemplates'', [a]),
      (api_putGroupNotificationTemplate a (in_json v), ''putGroupNotificationTemplates'', [a]),
      (api_templateContextSchema (in_opt v 0), ''templateContextSchema'', []),
      (api_previewAlertTemplate (in_text v 0) (in_json v) (in_opt v 0), ''previewAlertTemplate'', []),
      (api_listAlertInstances (in_nat v 0), ''listAlertInstances'', []),
      (api_exportConfigBundle, ''exportConfig'', []),
      (api_importConfigBundle (in_json v) (in_mode v) (in_flag v 0) (in_flag_opt v), ''importConfig'', []),
      (api_listMyAnnouncements, ''listMyAnnouncements'', []),
      (api_dismissAnnouncement a, ''dismissAnnouncement'', [a]),
      (api_listCellAnnouncements, ''listCellAnnouncements'', []),
      (api_createCellAnnouncement (in_json v), ''createCellAnnouncement'', []),
      (api_deleteCellAnnouncement a, ''deleteCellAnnouncement'', [a]),
      (api_listMaintenanceWindows, ''listMaintenanceWindows'', []),
      (api_createMaintenanceWindow (in_json v), ''createMaintenanceWindow'', []),
      (api_updateMaintenanceWindow a (in_json v), ''updateMaintenanceWindow'', [a]),
      (api_endMaintenanceWindow a, ''endMaintenanceWindow'', [a]),
      (api_listMaintenanceSchedules, ''listMaintenanceSchedules'', []),
      (api_createMaintenanceSchedule (in_json v), ''createMaintenanceSchedule'', []),
      (api_updateMaintenanceSchedule a (in_json v), ''updateMaintenanceSchedule'', [a]),
      (api_deleteMaintenanceSchedule a, ''deleteMaintenanceSchedule'', [a]),
      (api_retryAlertDelivery a, ''retryAlertDelivery'', [a]),
      (api_listAlertDeliveries (in_opt v 0) (in_opt v 1) (in_opt v 2) (in_opt v 3) (in_opt v 4) (in_nat v 0), ''listAlertDeliveries'', []),
      (api_acknowledgeAlertInstance a, ''acknowledgeAlertInstance'', [a]),
      (api_resolveAlertInstance a, ''resolveAlertInstance'', [a]),
      (api_listIngestKeys, ''listIngestKeys'', []),
      (api_createIngestKey (in_text v 0), ''createIngestKey'', []),
      (api_revokeIngestKey a, ''revokeIngestKey'', [a]),
      (api_listChannels, ''listChannels'', []),
      (api_listEventTypes, ''listEventTypes'', []),
      (api_listEventSubscriptions, ''listEventSubscriptions'', []),
      (api_createEventSubscription (in_json v), ''createEventSubscription'', []),
      (api_updateEventSubscription a (in_json v), ''updateEventSubscription'', [a]),
      (api_deleteEventSubscription a, ''deleteEventSubscription'', [a]),
      (api_listProposals (in_opt v 0), ''listProposals'', []),
      (api_getProposal a, ''getProposal'', [a]),
      (api_approveProposal a (in_json_opt v), ''approveProposal'', [a]),
      (api_rejectProposal a (in_json_opt v), ''rejectProposal'', [a]),
      (api_listEventDeliveries a, ''listEventDeliveries'', [a]),
      (api_listNotificationProfiles, ''listNotificationProfiles'', []),
      (api_createNotificationProfile (in_json v), ''createNotificationProfile'', []),
      (api_updateNotificationProfile a (in_json v), ''updateNotificationProfile'', [a]),
      (api_deleteNotificationProfile a, ''deleteNotificationProfile'', [a]),
      (api_setNotificationProfileChannels a (in_texts v), ''setNotificationProfileChannels'', [a]),
      (api_getIntegrationProfile a, ''getIntegrationProfile'', [a]),
      (api_assignIntegrationProfile a (in_opt v 0), ''assignIntegrationProfile'', [a]),
      (api_createChannel (in_json v), ''createChannel'', []),
      (api_updateChannel a (in_json v), ''updateChannel'', [a]),
      (api_deleteChannel a, ''deleteChannel'', [a]),
      (api_metricSeriesByService (in_text v 0) (in_opt v 0) (in_texts_opt v) (in_opt v 1) (in_nat v 0), ''listMetricSeries'', []),
      (api_searchMessages (in_json v), ''searchMessages'', []),
      (api_messageFields (in_opt v 0), ''fieldsCatalog'', []),
      (api_listMessageViews, ''listMessageViews'', []),
      (api_createMessageView (in_json v), ''createMessageView'', []),
      (api_updateMessageView a (in_json v), ''updateMessageView'', [a]),
      (api_deleteMessageView a, ''deleteMessageView'', [a]),
      (api_listTags, ''listTags'', []),
      (api_listTagsWithUsage, ''listTags'', []),
      (api_createTag (in_json v), ''createTag'', []),
      (api_updateTag a (in_json v), ''updateTag'', [a]),
      (api_deleteTag a, ''deleteTag'', [a]),
      (api_listIntegrationTags a, ''listIntegrationTags'', [a]),
      (api_attachIntegrationTag a b, ''attachIntegrationTag'', [a, b]),
      (api_detachIntegrationTag a b, ''detachIntegrationTag'', [a, b]),
      (api_listServiceTags a, ''listServiceTags'', [a]),
      (api_attachServiceTag a b, ''attachServiceTag'', [a, b]),
      (api_detachServiceTag a b, ''detachServiceTag'', [a, b]),
      (api_listDashboards, ''listDashboards'', []),
      (api_getDashboard a, ''getDashboard'', [a]),
      (api_createDashboard (in_json v), ''createDashboard'', []),
      (api_updateDashboard a (in_json v), ''updateDashboard'', [a]),
      (api_deleteDashboard a, ''deleteDashboard'', [a]),
      (api_login (in_json v), ''login'', []),
      (api_logout, ''logout'', []),
      (api_forgotPassword (in_text v 0), ''forgotPassword'', []),
      (api_resetPassword (in_text v 0) (in_text v 1), ''resetPassword'', []),
      (api_mfaStatus, ''mfaStatus'', []),
      (api_mfaSetup, ''mfaSetup'', []),
      (api_mfaEnable (in_text v 0), ''mfaEnable'', []),
      (api_mfaDisable (in_text v 0), ''mfaDisable'', []),
      (api_mfaVerify (in_text v 0) (in_text v 1), ''mfaVerify'', []),
      (api_getSMTP, ''getSMTP'', []),
      (api_updateSMTP (in_json v), ''patchSMTP'', []),
      (api_testSMTP (in_opt v 0), ''testSMTP'', []),
      (api_getSecuritySettings, ''getSecuritySettings'', []),
      (api_updateSecuritySettings (in_flag v 0), ''patchSecuritySettings'', []),
      (api_meAccess, ''meAccess'', []),
      (api_me, ''me'', []),
      (api_installState, ''installState'', []),
      (api_bootstrapAdmin (in_json v), ''bootstrapAdmin'', []),
      (api_updateMe (in_json v), ''updateMe'', []),
      (api_changePassword (in_json v), ''changeMyPassword'', []),
      (api_getOrg a, ''getOrg'', [a]),
      (api_updateOrg a (in_json v), ''updateOrg'', [a]),
      (api_license, ''licenseStatus'', []),
      (api_listAuditLog (in_nat v 0) (in_nat v 1) (in_opt v 0) (in_opt v 1) (in_opt v 2) (in_opt v 3) (in_opt v 4), ''listAuditLog'', []),
      (api_verifyAuditChain, ''verifyAuditChain'', []),
      (api_getRetention, ''getRetention'', []),
      (api_updateRetention (in_json v), ''patchRetention'', []),
      (api_getSystemSettings, ''getSystemSettings'', []),
      (api_updateSystemSettings (in_json v), ''patchSystemSettings'', []),
      (api_listTraceCompletionRules a, ''listTraceCompletionRules'', [a]),
      (api_integrationSpanNames a (in_opt v 0), ''integrationSpanNames'', [a]),
      (api_integrationAttributeKeys a (in_opt v 0), ''integrationAttributeKeys'', [a]),
      (api_integrationAttributeValues a (in_text v 0) (in_opt v 0), ''integrationAttributeValues'', [a]),
      (api_createTraceCompletionRule a (in_json v), ''createTraceCompletionRule'', [a]),
      (api_updateTraceCompletionRule a b (in_json v), ''updateTraceCompletionRule'', [a, b]),
      (api_deleteTraceCompletionRule a b, ''deleteTraceCompletionRule'', [a, b]),
      (api_getCompletionCounts a, ''completionCounts'', [a]),
      (api_listCompletionFirings a (in_opt v 0), ''listCompletionFirings'', [a]),
      (api_listCompletionFiringsForTrace a, ''listCompletionFiringsForTrace'', [a]),
      (api_testChannel a, ''testChannel'', [a]),
      (api_markCompletionFiringHandled a b, ''handleCompletionFiring'', [a, b]),
      (api_getLimits, ''getLimitsStatus'', []),
      (api_listMembers, ''listMembers'', []),
      (api_addMember (in_json v), ''addMember'', []),
      (api_updateMemberRole a (in_text v 0), ''updateMemberRole'', [a]),
      (api_adminResetMemberPassword a (in_text v 0) (in_flag v 0), ''adminResetMemberPassword'', [a]),
      (api_removeMember a, ''removeMember'', [a]),
      (api_listTokens, ''listTokens'', []),
      (api_createToken (in_text v 0) (in_opt v 0) (in_rat_opt v), ''createToken'', []),
      (api_revokeToken a, ''revokeToken'', [a]),
      (api_listServiceAccounts, ''listServiceAccounts'', []),
      (api_createServiceAccount (in_json v), ''createServiceAccount'', []),
      (api_updateServiceAccount a (in_json v), ''updateServiceAccount'', [a]),
      (api_deleteServiceAccount a, ''deleteServiceAccount'', [a]),
      (api_listServiceAccountGroups a, ''listServiceAccountGroups'', [a]),
      (api_listServiceAccountTokens a, ''listServiceAccountTokens'', [a]),
      (api_createServiceAccountToken a (in_text v 0) (in_opt v 0) (in_rat_opt v), ''createServiceAccountToken'', [a]),
      (api_revokeServiceAccountToken a b, ''revokeServiceAccountToken'', [a, b]),
      (api_listSsoProviders, ''ssoProviders'', []),
      (api_listAuthProviders, ''listAuthProviders'', []),
      (api_createAuthProvider (in_json v), ''createAuthProvider'', []),
      (api_updateAuthProvider a (in_json v), ''updateAuthProvider'', [a]),
      (api_deleteAuthProvider a, ''deleteAuthProvider'', [a]),
      (api_listClaimMappings a, ''listClaimMappings'', [a]),
      (api_createClaimMapping a (in_json v), ''createClaimMapping'', [a]),
      (api_deleteClaimMapping a b, ''deleteClaimMapping'', [a, b]),
      (api_listGroups, ''listGroupsAdmin'', []),
      (api_getGroup a, ''getGroupAdmin'', [a]),
      (api_createGroup (in_json v), ''createGroupAdmin'', []),
      (api_updateGroup a (in_json v), ''updateGroupAdmin'', [a]),
      (api_deleteGroup a, ''deleteGroupAdmin'', [a]),
      (api_listGroupMembers a, ''listGroupMembersAdmin'', [a]),
      (api_addGroupMember a (in_json v), ''addGroupMemberAdmin'', [a]),
      (api_updateGroupMemberRole a b (in_text v 0), ''updateGroupMemberRoleAdmin'', [a, b]),
      (api_removeGroupMember a b, ''removeGroupMemberAdmin'', [a, b]),
      (api_updateGroupServiceAccountRole a b (in_text v 0), ''updateGroupServiceAccountRoleAdmin'', [a, b]),
      (api_removeGroupServiceAccount a b, ''removeGroupServiceAccountAdmin'', [a, b]),
      (api_listServiceGroups a, ''listServiceGroupsHandler'', [a]),
      (api_putServiceGroups a (in_texts v), ''putServiceGroupsHandler'', [a]),
      (api_listGroupPolicies a, ''listGroupPolicies'', [a]),
      (api_createGroupPolicy a (in_json v), ''createGroupPolicy'', [a]),
      (api_updateGroupPolicy a b (in_json v), ''updateGroupPolicy'', [a, b]),
      (api_deleteGroupPolicy a b, ''deleteGroupPolicy'', [a, b]),
      (api_listIntegrationGroups a, ''listIntegrationGroups'', [a]),
      (api_setIntegrationGroups a (in_texts v), ''putIntegrationGroups'', [a]),
      (api_listSystemGroups a, ''listSystemGroups'', [a]),
      (api_setSystemGroups a (in_texts v), ''putSystemGroups'', [a]),
      (api_listResourceShares ShareIntegrations a, ''listShares Integration'', [a]),
      (api_listResourceShares ShareSystems a, ''listShares System'', [a]),
      (api_createResourceShare ShareIntegrations a (in_json v), ''createShare Integration'', [a]),
      (api_createResourceShare ShareSystems a (in_json v), ''createShare System'', [a]),
      (api_deleteResourceShare ShareIntegrations a b, ''deleteShare Integration'', [a, b]),
      (api_deleteResourceShare ShareSystems a b, ''deleteShare System'', [a, b]),
      (api_operatorListOrgs, ''listOperatorOrgs'', []),
      (api_operatorCreateOrg (in_json v), ''createOperatorOrg'', []),
      (api_operatorUpdateOrg a (in_json v), ''updateOperatorOrg'', [a]),
      (api_operatorDeleteOrg a, ''deleteOperatorOrg'', [a]),
      (api_operatorListOrgMembers a, ''listOperatorOrgMembers'', [a]),
      (api_operatorAddOrgMember a (in_json v), ''addOperatorOrgMember'', [a]),
      (api_operatorUpdateOrgMemberRole a b (in_text v 0), ''updateOperatorOrgMemberRole'', [a, b]),
      (api_operatorRemoveOrgMember a b, ''removeOperatorOrgMember'', [a, b]),
      (api_operatorListUsers (in_opt v 0) (in_nat v 0) (in_nat v 1), ''listOperatorUsers'', []),
      (api_operatorSetUserDemo a (in_flag v 0), ''setDemoFlag'', [a]),
      (api_operatorSetUserOperator a (in_flag v 0), ''setOperatorFlag'', [a])]"

type_synonym call_shape = "string \<times> piece list \<times> string \<times> jstring list"

definition call_shape :: "api_call \<times> string \<times> jstring list \<Rightarrow> call_shape" where
  "call_shape x = (ac_method (fst x), ac_path (fst x), snd x)"

fun calls_of :: "string \<Rightarrow> call_shape list \<Rightarrow> (piece list \<times> string \<times> jstring list) list" where
  "calls_of m [] = []"
| "calls_of m ((k, c) # cs) = keep (same k m) c (calls_of m cs)"

fun all_reach :: "route_table \<Rightarrow> (piece list \<times> string \<times> jstring list) list \<Rightarrow> bool" where
  "all_reach rs [] = True"
| "all_reach rs (c # cs) = (reaches rs c \<and> all_reach rs cs)"

definition method_reaches :: "route list \<Rightarrow> call_shape list \<Rightarrow> string \<Rightarrow> bool" where
  "method_reaches rs cs m = all_reach (route_table rs m) (calls_of m cs)"


lemma surface_get: "method_reaches api_routes (map call_shape (surface a b v)) ''GET''"
  unfolding surface_def list.map call_shape_def api_defs method_defs api_call.sel fst_conv snd_conv
  by code_simp

lemma surface_post: "method_reaches api_routes (map call_shape (surface a b v)) ''POST''"
  unfolding surface_def list.map call_shape_def api_defs method_defs api_call.sel fst_conv snd_conv
  by code_simp

lemma surface_put: "method_reaches api_routes (map call_shape (surface a b v)) ''PUT''"
  unfolding surface_def list.map call_shape_def api_defs method_defs api_call.sel fst_conv snd_conv
  by code_simp

lemma surface_patch: "method_reaches api_routes (map call_shape (surface a b v)) ''PATCH''"
  unfolding surface_def list.map call_shape_def api_defs method_defs api_call.sel fst_conv snd_conv
  by code_simp

lemma surface_delete: "method_reaches api_routes (map call_shape (surface a b v)) ''DELETE''"
  unfolding surface_def list.map call_shape_def api_defs method_defs api_call.sel fst_conv snd_conv
  by code_simp

lemmas surface_reaches = surface_get surface_post surface_put surface_patch surface_delete

lemma surface_methods:
  "list_all (\<lambda>x. ac_method (fst x) \<in> {''GET'', ''POST'', ''PUT'', ''PATCH'', ''DELETE''}) (surface a b v)"
  unfolding surface_def list.pred_inject api_defs method_defs api_call.sel fst_conv Let_def by simp

lemma surface_args: "list_all (\<lambda>x. set (snd (snd x)) \<subseteq> {a, b}) (surface a b v)"
  unfolding surface_def list.pred_inject snd_conv by simp

lemma query_start_simps:
  "query_start (given x f) \<longleftrightarrow> (\<forall>s. x = Some s \<longrightarrow> s \<noteq> [] \<longrightarrow> query_start (f s))"
  "query_start (optional_query ps)" "query_start (query_text ps)"
  by (auto simp: given_def optional_query_def query_text_def Let_def split: option.splits)

lemma surface_queries: "list_all (\<lambda>x. query_start (ac_query (fst x))) (surface a b v)"
  unfolding surface_def list.pred_inject api_defs method_defs api_call.sel fst_conv Let_def
  by (simp add: query_start_simps)

lemma method_reachesD:
  assumes "method_reaches rs (map call_shape cs) m" "(c, h, xs) \<in> set cs" "ac_method c = m"
  shows "reaches (route_table rs m) (ac_path c, h, xs)"
proof -
  have "all_reach t (calls_of m (map call_shape cs)) \<Longrightarrow> reaches t (ac_path c, h, xs)" for t
    using assms(2,3) by (induction cs) (auto simp: call_shape_def keep_if split: if_splits)
  with assms(1) show ?thesis by (simp add: method_reaches_def)
qed


definition demo_inputs :: "nat call_inputs" where
  "demo_inputs = \<lparr>in_text = \<lambda>_. js ''x'', in_opt = \<lambda>_. None, in_flag = \<lambda>_. False, in_flag_opt = None,
     in_nat = \<lambda>_. None, in_rat = 0, in_rat_opt = None, in_json = JNull, in_json_opt = None, in_texts = [],
     in_texts_opt = None, in_view = None, in_mode = StrictMode, in_stringify = show_nat,
     in_search = \<lparr>so_q = None, so_type = None, so_key = None, so_minSeverity = None, so_service = None,
       so_integration = None, so_traceId = None, so_limit = None, so_buckets = None, so_cursor = None,
       so_attrs = None\<rparr>\<rparr>"


text \<open>The names no wrapper can address: \<open>encodeURIComponent\<close> leaves dots alone, so a service named
  \<open>..\<close> moves the request to another path.\<close>

lemma dot_names_are_lost:
  "call_url None (api_getServiceMetadata (js ''..'')) = Some (js ''/api/v1/services/../metadata'')"
  "serve server_routes ''GET'' (js ''/api/v1/services/../metadata'') = None"
  by code_simp+

end
