(* ===== verification/PolicyRules.thy ===== *)
theory PolicyRules
  imports Collections
begin

text \<open>
  The boolean tree of an access policy: the type \<open>PolicyExpr\<close> of \<open>api/types.ts\<close>, the one-line
  summary and the recursive editor of \<open>pages/Settings.tsx\<close> (\<open>describeExpr\<close>, \<open>ExprNodeEditor\<close>), and what
  the server does with a tree (\<open>identity/policies_expr.go\<close>): \<open>ValidateExpr\<close>, \<open>validateNameOnlyExpr\<close> and
  the evaluator \<open>evalExpr\<close>.

  An edit of the editor is a \<open>node_edit\<close> at a path of child indices; it is \<open>None\<close> where the editor does
  not offer the control.  Go's \<open>regexp\<close> package is the parameter \<open>compile\<close>: \<open>None\<close> for a text it does not
  compile, otherwise the strings the expression matches.  The resource attributes of the services are the
  parameter \<open>attrs\<close>.
\<close>

section \<open>The tree, on both sides of the wire\<close>

datatype policy_expr = Expr
  (px_op: "jstring option") (px_children: "policy_expr list option") (px_attr: "jstring option")
  (px_match: "jstring option") (px_value: "jstring option") (px_values: "jstring list option")

datatype go_expr = GoExpr
  (gx_op: jstring) (gx_children: "go_expr list") (gx_attr: jstring)
  (gx_match: jstring) (gx_value: jstring) (gx_values: "jstring list")

text \<open>
  \<open>JSON.stringify\<close> leaves out what is \<open>undefined\<close> and Go's decoder leaves a missing field at its zero value;
  on the way back \<open>omitempty\<close> leaves the zero values out.
\<close>

fun to_go :: "policy_expr \<Rightarrow> go_expr" where
  "to_go (Expr oper cs a m v vs) =
     GoExpr (coalesce oper []) (case cs of None \<Rightarrow> [] | Some xs \<Rightarrow> map to_go xs) (coalesce a []) (coalesce m [])
       (coalesce v []) (coalesce vs [])"

definition given_text :: "jstring \<Rightarrow> jstring option" where
  "given_text s = (if s = [] then None else Some s)"

fun of_go :: "go_expr \<Rightarrow> policy_expr" where
  "of_go (GoExpr oper cs a m v vs) =
     Expr (given_text oper) (case cs of [] \<Rightarrow> None | x # xs \<Rightarrow> Some (of_go x # map of_go xs)) (given_text a) (given_text m)
       (given_text v) (if vs = [] then None else Some vs)"

section \<open>The server: validation\<close>

datatype expr_error =
    MissingTree | TooDeep | TooLarge | EmptyGroup jstring | NotNeedsOne | UnknownOperator jstring
  | LeafFieldsOnOperator | ChildrenOnLeaf | NeedsValue jstring | RegexNeedsValue | InvalidRegex jstring
  | EmptyValues | NeedsAttribute jstring | TakesNoValue jstring | NoMatch | UnknownMatch jstring
  | AttributeLeaf jstring

definition exprMaxDepth :: nat where "exprMaxDepth = 24"
definition exprMaxNodes :: nat where "exprMaxNodes = 256"

abbreviation t_and :: jstring where "t_and \<equiv> js ''and''"
abbreviation t_or :: jstring where "t_or \<equiv> js ''or''"
abbreviation t_not :: jstring where "t_not \<equiv> js ''not''"

text \<open>
  \<open>strings.ToLower(e.Op)\<close> is only compared with three ASCII words; no other letter lowers to one of theirs,
  so the ASCII conversion decides the comparisons alike.
\<close>

definition lower_op :: "jstring \<Rightarrow> jstring" where
  "lower_op s = map lower_unit s"

definition operator_error :: "go_expr \<Rightarrow> expr_error option" where
  "operator_error e =
     (let op = lower_op (gx_op e) in
      if (op = t_and \<or> op = t_or) \<and> gx_children e = [] then Some (EmptyGroup op)
      else if op = t_not \<and> length (gx_children e) \<noteq> 1 then Some NotNeedsOne
      else if op \<notin> {t_and, t_or, t_not} then Some (UnknownOperator (gx_op e))
      else if gx_match e \<noteq> [] \<or> gx_attr e \<noteq> [] \<or> gx_value e \<noteq> [] \<or> gx_values e \<noteq> [] then Some LeafFieldsOnOperator
      else None)"

definition scalar_matches :: "jstring list" where
  "scalar_matches = [js ''equals'', js ''not_equals'', js ''prefix'', js ''suffix'', js ''contains'']"

definition presence_matches :: "jstring list" where
  "presence_matches = [js ''exists'', js ''not_exists'']"

definition leaf_error :: "(jstring \<Rightarrow> (jstring \<Rightarrow> bool) option) \<Rightarrow> go_expr \<Rightarrow> expr_error option" where
  "leaf_error compile e =
     (let m = gx_match e in
      if gx_children e \<noteq> [] then Some ChildrenOnLeaf
      else if m \<in> set scalar_matches then (if gx_value e = [] then Some (NeedsValue m) else None)
      else if m = js ''regex'' then
        (if gx_value e = [] then Some RegexNeedsValue
         else if compile (gx_value e) = None then Some (InvalidRegex (gx_value e)) else None)
      else if m = js ''in'' then (if gx_values e = [] then Some EmptyValues else None)
      else if m \<in> set presence_matches then
        (if gx_attr e = [] then Some (NeedsAttribute m)
         else if gx_value e \<noteq> [] \<or> gx_values e \<noteq> [] then Some (TakesNoValue m) else None)
      else if m = [] then Some NoMatch
      else Some (UnknownMatch m))"

text \<open>A loop that stops at the first error and passes the node count on.\<close>

fun each_child :: "('a \<Rightarrow> nat \<Rightarrow> expr_error + nat) \<Rightarrow> 'a list \<Rightarrow> nat \<Rightarrow> expr_error + nat" where
  "each_child f [] n = Inr n"
| "each_child f (x # xs) n = (case f x n of Inl e \<Rightarrow> Inl e | Inr k \<Rightarrow> each_child f xs k)"

lemma each_child_cong [fundef_cong]:
  "xs = ys \<Longrightarrow> n = k \<Longrightarrow> (\<And>x i. x \<in> set ys \<Longrightarrow> f x i = g x i) \<Longrightarrow> each_child f xs n = each_child g ys k"
  by (induction ys arbitrary: xs n k) (auto split: sum.splits)

fun validateExprNode :: "(jstring \<Rightarrow> (jstring \<Rightarrow> bool) option) \<Rightarrow> nat \<Rightarrow> go_expr \<Rightarrow> nat \<Rightarrow> expr_error + nat" where
  "validateExprNode compile depth (GoExpr oper cs a m v vs) seen =
     (let e = GoExpr oper cs a m v vs; n = seen + 1 in
      if depth > exprMaxDepth then Inl TooDeep
      else if n > exprMaxNodes then Inl TooLarge
      else if oper \<noteq> [] then
        (case operator_error e of
           Some err \<Rightarrow> Inl err
         | None \<Rightarrow> each_child (validateExprNode compile (depth + 1)) cs n)
      else (case leaf_error compile e of Some err \<Rightarrow> Inl err | None \<Rightarrow> Inr n))"

definition ValidateExpr :: "(jstring \<Rightarrow> (jstring \<Rightarrow> bool) option) \<Rightarrow> go_expr option \<Rightarrow> expr_error option" where
  "ValidateExpr compile tree =
     (case tree of
        None \<Rightarrow> Some MissingTree
      | Some e \<Rightarrow> (case validateExprNode compile 1 e 0 of Inl err \<Rightarrow> Some err | Inr n \<Rightarrow> None))"

fun first_error :: "('a \<Rightarrow> expr_error option) \<Rightarrow> 'a list \<Rightarrow> expr_error option" where
  "first_error f [] = None"
| "first_error f (x # xs) = (case f x of Some e \<Rightarrow> Some e | None \<Rightarrow> first_error f xs)"

lemma first_error_cong [fundef_cong]:
  "xs = ys \<Longrightarrow> (\<And>x. x \<in> set ys \<Longrightarrow> f x = g x) \<Longrightarrow> first_error f xs = first_error g ys"
  by (induction ys arbitrary: xs) (auto split: option.splits)

fun forbidAttrLeaves :: "go_expr \<Rightarrow> expr_error option" where
  "forbidAttrLeaves (GoExpr oper cs a m v vs) =
     (if oper \<noteq> [] then first_error forbidAttrLeaves cs
      else if a \<noteq> [] then Some (AttributeLeaf a) else None)"

definition validateNameOnlyExpr :: "(jstring \<Rightarrow> (jstring \<Rightarrow> bool) option) \<Rightarrow> go_expr option \<Rightarrow> expr_error option" where
  "validateNameOnlyExpr compile tree =
     (case ValidateExpr compile tree of
        Some err \<Rightarrow> Some err
      | None \<Rightarrow> (case tree of None \<Rightarrow> None | Some e \<Rightarrow> forbidAttrLeaves e))"

section \<open>The server: evaluation\<close>

definition matchLeaf :: "go_expr \<Rightarrow> jstring \<Rightarrow> bool \<Rightarrow> (jstring \<Rightarrow> bool) option \<Rightarrow> bool" where
  "matchLeaf e subject present re =
     (let m = gx_match e in
      if m = js ''exists'' then present
      else if m = js ''not_exists'' then \<not> present
      else if m = js ''not_equals'' then \<not> present \<or> subject \<noteq> gx_value e
      else if \<not> present then False
      else if m = js ''equals'' then subject = gx_value e
      else if m = js ''prefix'' then starts_with subject (gx_value e)
      else if m = js ''suffix'' then ends_with subject (gx_value e)
      else if m = js ''contains'' then str_includes subject (gx_value e)
      else if m = js ''regex'' then (case re of None \<Rightarrow> False | Some matches \<Rightarrow> matches subject)
      else if m = js ''in'' then subject \<in> set (gx_values e)
      else False)"

definition evalLeaf :: "(jstring \<Rightarrow> (jstring \<Rightarrow> bool) option) \<Rightarrow> (jstring \<Rightarrow> jstring \<Rightarrow> jstring option) \<Rightarrow> jstring list \<Rightarrow> go_expr \<Rightarrow> jstring set" where
  "evalLeaf compile attrs universe e =
     (let re = (if gx_match e = js ''regex'' then compile (gx_value e) else None) in
      if gx_match e = js ''regex'' \<and> re = None then {}
      else set (filter (\<lambda>name.
        if gx_attr e = [] then matchLeaf e name True re
        else (case attrs name (gx_attr e) of
                None \<Rightarrow> matchLeaf e [] False re
              | Some v \<Rightarrow> matchLeaf e v True re)) universe))"

fun evalExpr :: "(jstring \<Rightarrow> (jstring \<Rightarrow> bool) option) \<Rightarrow> (jstring \<Rightarrow> jstring \<Rightarrow> jstring option) \<Rightarrow> jstring list \<Rightarrow> go_expr \<Rightarrow> jstring set" where
  "evalExpr compile attrs universe (GoExpr oper cs a m v vs) =
     (if oper = [] then evalLeaf compile attrs universe (GoExpr oper cs a m v vs)
      else if lower_op oper = t_and then
        (case cs of
           [] \<Rightarrow> {}
         | c # rest \<Rightarrow> foldl (\<lambda>acc d. acc \<inter> evalExpr compile attrs universe d) (evalExpr compile attrs universe c) rest)
      else if lower_op oper = t_or then
        foldl (\<lambda>acc d. acc \<union> evalExpr compile attrs universe d) {} cs
      else if lower_op oper = t_not then
        (case cs of
           [c] \<Rightarrow> set (filter (\<lambda>name. name \<notin> evalExpr compile attrs universe c) universe)
         | _ \<Rightarrow> {})
      else {})"

section \<open>The summary line\<close>

definition op_text :: "jstring option \<Rightarrow> jstring" where
  "op_text m =
     (case map_of [(js ''equals'', js ''=''), (js ''not_equals'', [ne_sign]), (js ''prefix'', js ''prefix''),
                   (js ''suffix'', js ''suffix''), (js ''contains'', js ''contains''), (js ''regex'', js ''matches''),
                   (js ''in'', js ''in''), (js ''exists'', js ''exists''), (js ''not_exists'', js ''not set'')] (coalesce m []) of
        Some t \<Rightarrow> t | None \<Rightarrow> coalesce m (js ''?''))"

definition describe_leaf :: "jstring \<Rightarrow> policy_expr \<Rightarrow> jstring" where
  "describe_leaf nameSubject e =
     (let subject = or_str (px_attr e) nameSubject in
      if px_match e = Some (js ''exists'') \<or> px_match e = Some (js ''not_exists'') then subject @ [32] @ op_text (px_match e)
      else if px_match e = Some (js ''in'') then subject @ js '' in ['' @ join (js '', '') (coalesce (px_values e) []) @ js '']''
      else subject @ [32] @ op_text (px_match e) @ js '' \"'' @ coalesce (px_value e) [] @ js ''\"'')"

fun describeExpr :: "policy_expr \<Rightarrow> nat \<Rightarrow> jstring \<Rightarrow> jstring" where
  "describeExpr (Expr oper cs a m v vs) depth nameSubject =
     (if oper = Some t_and \<or> oper = Some t_or then
        (let joined = join (if oper = Some t_and then js '' AND '' else js '' OR '')
               (case cs of None \<Rightarrow> [] | Some xs \<Rightarrow> map (\<lambda>c. describeExpr c (depth + 1) nameSubject) xs) in
         if depth > 0 then js ''('' @ joined @ js '')'' else joined)
      else if oper = Some t_not then
        js ''NOT '' @ (case cs of
           Some (c # _) \<Rightarrow> describeExpr c (depth + 1) nameSubject
         | _ \<Rightarrow> describe_leaf nameSubject (Expr None None None None None None))
      else describe_leaf nameSubject (Expr oper cs a m v vs))"

section \<open>The editor\<close>

record match_option =
  mo_value :: jstring
  mo_label :: jstring
  mo_attrOnly :: bool
  mo_noValue :: bool
  mo_list :: bool

definition EXPR_MATCHES :: "match_option list" where
  "EXPR_MATCHES =
     [\<lparr>mo_value = js ''equals'', mo_label = js ''equals'', mo_attrOnly = False, mo_noValue = False, mo_list = False\<rparr>,
      \<lparr>mo_value = js ''not_equals'', mo_label = js ''not equals'', mo_attrOnly = False, mo_noValue = False, mo_list = False\<rparr>,
      \<lparr>mo_value = js ''prefix'', mo_label = js ''starts with'', mo_attrOnly = False, mo_noValue = False, mo_list = False\<rparr>,
      \<lparr>mo_value = js ''suffix'', mo_label = js ''ends with'', mo_attrOnly = False, mo_noValue = False, mo_list = False\<rparr>,
      \<lparr>mo_value = js ''contains'', mo_label = js ''contains'', mo_attrOnly = False, mo_noValue = False, mo_list = False\<rparr>,
      \<lparr>mo_value = js ''regex'', mo_label = js ''matches regex'', mo_attrOnly = False, mo_noValue = False, mo_list = False\<rparr>,
      \<lparr>mo_value = js ''in'', mo_label = js ''is one of'', mo_attrOnly = False, mo_noValue = False, mo_list = True\<rparr>,
      \<lparr>mo_value = js ''exists'', mo_label = js ''exists'', mo_attrOnly = True, mo_noValue = True, mo_list = False\<rparr>,
      \<lparr>mo_value = js ''not_exists'', mo_label = js ''is not set'', mo_attrOnly = True, mo_noValue = True, mo_list = False\<rparr>]"

definition match_meta :: "jstring option \<Rightarrow> match_option option" where
  "match_meta m = find (\<lambda>x. Some (mo_value x) = m) EXPR_MATCHES"

definition no_value :: "jstring option \<Rightarrow> bool" where
  "no_value m \<longleftrightarrow> (case match_meta m of None \<Rightarrow> False | Some x \<Rightarrow> mo_noValue x)"

definition takes_list :: "jstring option \<Rightarrow> bool" where
  "takes_list m \<longleftrightarrow> (case match_meta m of None \<Rightarrow> False | Some x \<Rightarrow> mo_list x)"

definition emptyLeaf :: policy_expr where
  "emptyLeaf = Expr None None None (Some (js ''equals'')) (Some []) None"

definition parseList :: "jstring \<Rightarrow> jstring list" where
  "parseList text = filter (\<lambda>s. s \<noteq> []) (map trim (split_on 44 text))"

datatype node_type = Leaf | Group | Negation

definition isOp :: "policy_expr \<Rightarrow> bool" where
  "isOp e \<longleftrightarrow> px_op e = Some t_and \<or> px_op e = Some t_or \<or> px_op e = Some t_not"

definition nodeType :: "policy_expr \<Rightarrow> node_type" where
  "nodeType e = (if px_op e = Some t_not then Negation else if isOp e then Group else Leaf)"

definition operator_node :: "jstring \<Rightarrow> policy_expr list \<Rightarrow> policy_expr" where
  "operator_node oper kids = Expr (Some oper) (Some kids) None None None None"

definition setType :: "node_type \<Rightarrow> policy_expr \<Rightarrow> policy_expr" where
  "setType t e =
     (case t of
        Leaf \<Rightarrow> emptyLeaf
      | Negation \<Rightarrow> operator_node t_not
          [if isOp e then (case px_children e of Some (c # _) \<Rightarrow> c | _ \<Rightarrow> emptyLeaf) else e]
      | Group \<Rightarrow>
          (let kids = (case px_children e of Some cs \<Rightarrow> cs | None \<Rightarrow> (if isOp e then [] else [e])) in
           operator_node (if px_op e = Some t_or then t_or else t_and) (if kids = [] then [emptyLeaf] else kids)))"

definition with_attr :: "jstring option \<Rightarrow> policy_expr \<Rightarrow> policy_expr" where
  "with_attr a e = Expr (px_op e) (px_children e) a (px_match e) (px_value e) (px_values e)"

definition with_value :: "jstring \<Rightarrow> policy_expr \<Rightarrow> policy_expr" where
  "with_value v e = Expr (px_op e) (px_children e) (px_attr e) (px_match e) (Some v) (px_values e)"

definition with_values :: "jstring list \<Rightarrow> policy_expr \<Rightarrow> policy_expr" where
  "with_values vs e = Expr (px_op e) (px_children e) (px_attr e) (px_match e) (px_value e) (Some vs)"

definition pick_match :: "jstring \<Rightarrow> policy_expr \<Rightarrow> policy_expr" where
  "pick_match m e =
     (if no_value (Some m) then Expr (px_op e) (px_children e) (px_attr e) (Some m) None None
      else if takes_list (Some m) then
        Expr (px_op e) (px_children e) (px_attr e) (Some m) None
          (Some (case px_values e of Some vs \<Rightarrow> vs | None \<Rightarrow> (if truthy_str (px_value e) then [coalesce (px_value e) []] else [])))
      else
        Expr (px_op e) (px_children e) (px_attr e) (Some m)
          (Some (case px_value e of Some v \<Rightarrow> v | None \<Rightarrow> (case px_values e of Some (v # _) \<Rightarrow> v | _ \<Rightarrow> []))) None)"

definition with_op :: "jstring \<Rightarrow> policy_expr \<Rightarrow> policy_expr" where
  "with_op oper e = Expr (Some oper) (px_children e) (px_attr e) (px_match e) (px_value e) (px_values e)"

definition with_children :: "policy_expr list \<Rightarrow> policy_expr \<Rightarrow> policy_expr" where
  "with_children cs e = Expr (px_op e) (Some cs) (px_attr e) (px_match e) (px_value e) (px_values e)"

definition children_of :: "policy_expr \<Rightarrow> policy_expr list" where
  "children_of e = coalesce (px_children e) []"

definition drop_nth :: "nat \<Rightarrow> 'a list \<Rightarrow> 'a list" where
  "drop_nth i xs = take i xs @ drop (Suc i) xs"

text \<open>
  The controls of one node.  \<open>by_attr\<close>: the policy is about services, so a leaf may name an attribute;
  \<open>options\<close>: the existing names a name leaf picks from (\<open>ListValueInput\<close>), \<open>None\<close> where the list is typed.
\<close>

datatype node_edit =
    SwitchType node_type | PickSubject bool | TypeAttr jstring | PickMatch jstring | TypeValue jstring
  | TypeList jstring | AddName jstring | DropName jstring
  | PickOp jstring | AddCondition | AddGroup | RemoveChild nat

definition edit_leaf :: "bool \<Rightarrow> jstring list option \<Rightarrow> node_edit \<Rightarrow> policy_expr \<Rightarrow> policy_expr option" where
  "edit_leaf by_attr options ed e =
     (let attrLeaf = (px_attr e \<noteq> None); m = px_match e; vs = coalesce (px_values e) [];
          picks = (if attrLeaf then None else options) in
      case ed of
        SwitchType t \<Rightarrow> Some (setType t e)
      | PickSubject to_attr \<Rightarrow>
          (if by_attr then Some (with_attr (if to_attr then Some (or_str (px_attr e) []) else None) e) else None)
      | TypeAttr s \<Rightarrow> (if attrLeaf then Some (with_attr (Some s) e) else None)
      | PickMatch m' \<Rightarrow>
          (case match_meta (Some m') of
             None \<Rightarrow> None
           | Some x \<Rightarrow> (if \<not> mo_attrOnly x \<or> attrLeaf then Some (pick_match m' e) else None))
      | TypeValue v \<Rightarrow> (if \<not> no_value m \<and> \<not> takes_list m then Some (with_value v e) else None)
      | TypeList text \<Rightarrow> (if takes_list m \<and> picks = None then Some (with_values (parseList text) e) else None)
      | AddName v \<Rightarrow>
          (if takes_list m \<and> v \<noteq> [] \<and> v \<notin> set vs \<and> (case picks of None \<Rightarrow> False | Some os \<Rightarrow> v \<in> set os)
           then Some (with_values (vs @ [v]) e) else None)
      | DropName v \<Rightarrow>
          (if takes_list m \<and> picks \<noteq> None then Some (with_values (filter (\<lambda>x. x \<noteq> v) vs) e) else None)
      | _ \<Rightarrow> None)"

definition edit_operator :: "node_edit \<Rightarrow> policy_expr \<Rightarrow> policy_expr option" where
  "edit_operator ed e =
     (case ed of
        SwitchType t \<Rightarrow> Some (setType t e)
      | PickOp oper \<Rightarrow>
          (if nodeType e = Group \<and> (oper = t_and \<or> oper = t_or) then Some (with_op oper e) else None)
      | AddCondition \<Rightarrow>
          (if nodeType e = Group then Some (with_children (children_of e @ [emptyLeaf]) e) else None)
      | AddGroup \<Rightarrow>
          (if nodeType e = Group then Some (with_children (children_of e @ [operator_node t_and [emptyLeaf]]) e) else None)
      | RemoveChild i \<Rightarrow>
          (if nodeType e = Group \<and> i < length (children_of e) then Some (with_children (drop_nth i (children_of e)) e) else None)
      | _ \<Rightarrow> None)"

definition edit_node :: "bool \<Rightarrow> jstring list option \<Rightarrow> node_edit \<Rightarrow> policy_expr \<Rightarrow> policy_expr option" where
  "edit_node by_attr options ed e =
     (if nodeType e = Leaf then edit_leaf by_attr options ed e else edit_operator ed e)"

text \<open>The \<open>onChange\<close> of a child is the \<open>setChild\<close> of its parent, up to the root.\<close>

fun edit_at :: "bool \<Rightarrow> jstring list option \<Rightarrow> nat list \<Rightarrow> node_edit \<Rightarrow> policy_expr \<Rightarrow> policy_expr option" where
  "edit_at by_attr options [] ed e = edit_node by_attr options ed e"
| "edit_at by_attr options (i # path) ed e =
     (if nodeType e \<noteq> Leaf \<and> i < length (children_of e) then
        (case edit_at by_attr options path ed (children_of e ! i) of
           None \<Rightarrow> None
         | Some c \<Rightarrow> Some (with_children ((children_of e)[i := c]) e))
      else None)"

definition newExpr :: policy_expr where
  "newExpr = operator_node t_and [Expr None None None (Some (js ''prefix'')) (Some []) None]"

inductive edited :: "bool \<Rightarrow> jstring list option \<Rightarrow> policy_expr \<Rightarrow> policy_expr \<Rightarrow> bool"
  for by_attr options start where
  unedited: "edited by_attr options start start"
| edit: "edited by_attr options start e \<Longrightarrow> edit_at by_attr options path ed e = Some e' \<Longrightarrow> edited by_attr options start e'"


section \<open>What a tree says\<close>

text \<open>The reading of a rule: a leaf asks its subject, an absent attribute is no text at all.\<close>

definition leaf_reads :: "(jstring \<Rightarrow> (jstring \<Rightarrow> bool) option) \<Rightarrow> (jstring \<Rightarrow> jstring \<Rightarrow> jstring option) \<Rightarrow> policy_expr \<Rightarrow> jstring \<Rightarrow> bool" where
  "leaf_reads compile attrs e name =
     (let subject = (if truthy_str (px_attr e) then attrs name (coalesce (px_attr e) []) else Some name);
          holds = (\<lambda>p. case subject of None \<Rightarrow> False | Some x \<Rightarrow> p x);
          v = coalesce (px_value e) []; m = px_match e in
      if m = Some (js ''exists'') then subject \<noteq> None
      else if m = Some (js ''not_exists'') then subject = None
      else if m = Some (js ''equals'') then subject = Some v
      else if m = Some (js ''not_equals'') then subject \<noteq> Some v
      else if m = Some (js ''prefix'') then holds (\<lambda>x. starts_with x v)
      else if m = Some (js ''suffix'') then holds (\<lambda>x. ends_with x v)
      else if m = Some (js ''contains'') then holds (\<lambda>x. str_includes x v)
      else if m = Some (js ''regex'') then holds (coalesce (compile v) (\<lambda>x. False))
      else if m = Some (js ''in'') then holds (\<lambda>x. x \<in> set (coalesce (px_values e) []))
      else False)"

lemma size_child [termination_simp]:
  "x \<in> set (coalesce cs []) \<Longrightarrow> size x < Suc (size_option (size_list size) cs)" for x :: policy_expr
  by (cases cs) (auto simp: less_Suc_eq_le intro!: le_SucI size_list_estimation' [where f = size])

fun reads :: "(jstring \<Rightarrow> (jstring \<Rightarrow> bool) option) \<Rightarrow> (jstring \<Rightarrow> jstring \<Rightarrow> jstring option) \<Rightarrow> policy_expr \<Rightarrow> jstring \<Rightarrow> bool" where
  "reads compile attrs (Expr oper cs a m v vs) name =
     (case oper of
        None \<Rightarrow> leaf_reads compile attrs (Expr oper cs a m v vs) name
      | Some t \<Rightarrow>
          (if t = t_and then list_all (\<lambda>c. reads compile attrs c name) (coalesce cs [])
           else if t = t_or then list_ex (\<lambda>c. reads compile attrs c name) (coalesce cs [])
           else \<not> list_ex (\<lambda>c. reads compile attrs c name) (coalesce cs [])))"

text \<open>The shape the editor keeps, the size of a tree, and the trees that are filled in.\<close>

definition value_shaped :: "policy_expr \<Rightarrow> bool" where
  "value_shaped e \<longleftrightarrow> match_meta (px_match e) \<noteq> None \<and>
     (if no_value (px_match e) then px_value e = None \<and> px_values e = None
      else if takes_list (px_match e) then px_value e = None \<and> px_values e \<noteq> None
      else px_value e \<noteq> None \<and> px_values e = None)"

fun shaped :: "policy_expr \<Rightarrow> bool" where
  "shaped (Expr oper cs a m v vs) \<longleftrightarrow>
     (case oper of
        None \<Rightarrow> cs = None \<and> value_shaped (Expr oper cs a m v vs)
      | Some t \<Rightarrow> a = None \<and> m = None \<and> v = None \<and> vs = None \<and> cs \<noteq> None \<and> list_all shaped (coalesce cs [])
          \<and> (t = t_and \<or> t = t_or \<or> (t = t_not \<and> length (coalesce cs []) = 1)))"

fun nodes :: "policy_expr \<Rightarrow> nat" where
  "nodes (Expr oper cs a m v vs) = 1 + sum_list (map nodes (coalesce cs []))"

fun height :: "policy_expr \<Rightarrow> nat" where
  "height (Expr oper cs a m v vs) = 1 + fold max (map height (coalesce cs [])) 0"

fun complete :: "(jstring \<Rightarrow> (jstring \<Rightarrow> bool) option) \<Rightarrow> policy_expr \<Rightarrow> bool" where
  "complete compile (Expr oper cs a m v vs) \<longleftrightarrow>
     (if oper \<noteq> None then coalesce cs [] \<noteq> [] \<and> list_all (complete compile) (coalesce cs [])
      else if no_value m then truthy_str a
      else if takes_list m then coalesce vs [] \<noteq> []
      else truthy_str v \<and> (m \<noteq> Some (js ''regex'') \<or> compile (coalesce v []) \<noteq> None))"

fun names_only :: "policy_expr \<Rightarrow> bool" where
  "names_only (Expr oper cs a m v vs) \<longleftrightarrow> a = None \<and> list_all names_only (coalesce cs [])"

section \<open>Lemmas\<close>

lemma match_meta_simps:
  "match_meta None = None"
  "match_meta (Some m) = find (\<lambda>x. mo_value x = m) EXPR_MATCHES"
  by (simp_all add: match_meta_def EXPR_MATCHES_def)

lemma known_matches:
  assumes "match_meta m \<noteq> None"
  obtains "m = Some (js ''in'')" "takes_list m" "\<not> no_value m"
  | k where "m = Some k" "k \<in> set presence_matches" "no_value m" "\<not> takes_list m"
  | k where "m = Some k" "k \<in> set scalar_matches \<or> k = js ''regex''" "\<not> takes_list m" "\<not> no_value m"
  using assms
  by (cases m) (auto simp: match_meta_simps takes_list_def no_value_def EXPR_MATCHES_def presence_matches_def scalar_matches_def split: if_splits)

lemma sum_list_ge: "x \<in> set xs \<Longrightarrow> f x \<le> sum_list (map f xs)" for f :: "'a \<Rightarrow> nat"
  by (induction xs) auto

lemma fold_max_le: "fold max xs b \<le> k \<longleftrightarrow> b \<le> k \<and> (\<forall>x \<in> set xs. x \<le> k)" for b :: nat
  by (induction xs arbitrary: b) auto

lemma each_child_sums:
  assumes "\<forall>x \<in> set xs. \<forall>n k. f x n = Inr k \<longleftrightarrow> P x \<and> n + w x \<le> b \<and> k = n + w x"
  shows "n \<le> b \<Longrightarrow> each_child f xs n = Inr k \<longleftrightarrow> (\<forall>x \<in> set xs. P x) \<and> n + sum_list (map w xs) \<le> b \<and> k = n + sum_list (map w xs)"
  using assms
proof (induction xs arbitrary: n)
  case (Cons x xs)
  have step: "f x n = Inr j \<longleftrightarrow> P x \<and> n + w x \<le> b \<and> j = n + w x" for j
    using Cons.prems(2) by simp
  show ?case
  proof (cases "f x n")
    case (Inl err)
    then have "\<not> (P x \<and> n + w x \<le> b)" using step by auto
    with Inl show ?thesis by auto
  next
    case (Inr j)
    then have j: "P x" "n + w x \<le> b" "j = n + w x" using step by auto
    have "each_child f (x # xs) n = each_child f xs (n + w x)" using Inr j(3) by simp
    moreover have "\<dots> = Inr k \<longleftrightarrow> (\<forall>y \<in> set xs. P y) \<and> n + w x + sum_list (map w xs) \<le> b \<and> k = n + w x + sum_list (map w xs)"
      using Cons.IH [OF j(2)] Cons.prems(2) by simp
    ultimately show ?thesis using j(1) by (simp add: add.assoc)
  qed
qed auto

lemma lower_ops [simp]: "lower_op t_and = t_and" "lower_op t_or = t_or" "lower_op t_not = t_not"
  by (simp_all add: lower_op_def lower_unit_def is_upper_def js_def)

lemma operator_ok:
  assumes "t = t_and \<or> t = t_or \<or> (t = t_not \<and> length cs = 1)"
  shows "operator_error (GoExpr t cs [] [] [] []) = None \<longleftrightarrow> cs \<noteq> []"
  using assms by (elim disjE) (auto simp: operator_error_def Let_def)

lemma leaf_error_kinds:
  "leaf_error compile (GoExpr [] [] a (js ''in'') v vs) = (if vs = [] then Some EmptyValues else None)"
  "k \<in> set scalar_matches \<Longrightarrow> leaf_error compile (GoExpr [] [] a k v vs) = (if v = [] then Some (NeedsValue k) else None)"
  "leaf_error compile (GoExpr [] [] a (js ''regex'') v vs) =
     (if v = [] then Some RegexNeedsValue else if compile v = None then Some (InvalidRegex v) else None)"
  "k \<in> set presence_matches \<Longrightarrow> leaf_error compile (GoExpr [] [] a k v vs) =
     (if a = [] then Some (NeedsAttribute k) else if v \<noteq> [] \<or> vs \<noteq> [] then Some (TakesNoValue k) else None)"
  by (auto simp: leaf_error_def scalar_matches_def presence_matches_def)

lemma scalar_not_regex: "k \<in> set scalar_matches \<Longrightarrow> k \<noteq> js ''regex''"
  by (auto simp: scalar_matches_def)

lemma truthy_coalesce: "truthy_str s \<longleftrightarrow> coalesce s [] \<noteq> []"
  by (cases s) auto

lemma leaf_ok:
  assumes "shaped (Expr None cs a m v vs)"
  shows "leaf_error compile (to_go (Expr None cs a m v vs)) = None \<longleftrightarrow> complete compile (Expr None cs a m v vs)"
proof -
  from assms have cs: "cs = None" and shape: "value_shaped (Expr None None a m v vs)" by auto
  from shape have known: "match_meta m \<noteq> None" by (simp add: value_shaped_def)
  from known show ?thesis
  proof (cases rule: known_matches)
    case 1
    then show ?thesis by (simp add: cs leaf_error_kinds)
  next
    case (2 k)
    with shape have "v = None" "vs = None" by (simp_all add: value_shaped_def)
    with 2 show ?thesis by (simp add: cs leaf_error_kinds truthy_coalesce)
  next
    case (3 k)
    then consider "k \<in> set scalar_matches" "k \<noteq> js ''regex''" | "k = js ''regex''" using scalar_not_regex by blast
    then show ?thesis
      by cases (use 3 in \<open>simp_all add: cs leaf_error_kinds truthy_coalesce\<close>)
  qed
qed

lemma each_child_map: "each_child f (map g xs) n = each_child (\<lambda>x. f (g x)) xs n"
  by (induction xs arbitrary: n) (auto split: sum.splits)

lemma validate_leaf:
  "validateExprNode compile d (GoExpr [] cs a m v vs) n = Inr k \<longleftrightarrow>
     d \<le> 24 \<and> n + 1 \<le> 256 \<and> leaf_error compile (GoExpr [] cs a m v vs) = None \<and> k = n + 1"
  by (auto simp: Let_def exprMaxDepth_def exprMaxNodes_def split: option.splits)

lemma validate_operator:
  "t \<noteq> [] \<Longrightarrow> validateExprNode compile d (GoExpr t cs a m v vs) n = Inr k \<longleftrightarrow>
     d \<le> 24 \<and> n + 1 \<le> 256 \<and> operator_error (GoExpr t cs a m v vs) = None
     \<and> each_child (validateExprNode compile (d + 1)) cs (n + 1) = Inr k"
  by (auto simp: Let_def exprMaxDepth_def exprMaxNodes_def split: option.splits)

lemmas validate_unfold = validate_leaf validate_operator

declare validateExprNode.simps [simp del]

lemma validate_counts:
  "shaped e \<Longrightarrow> validateExprNode compile d (to_go e) n = Inr k \<longleftrightarrow>
     complete compile e \<and> d + height e \<le> 25 \<and> n + nodes e \<le> 256 \<and> k = n + nodes e"
proof (induction e arbitrary: d n k)
  case (Expr oper cs a m v vs)
  show ?case
  proof (cases oper)
    case None
    with Expr.prems have "cs = None" by simp
    with None leaf_ok [of cs a m v vs compile] Expr.prems show ?thesis
      by (auto simp: validate_leaf simp del: complete.simps)
  next
    case (Some t)
    with Expr.prems obtain xs where xs: "cs = Some xs" "a = None" "m = None" "v = None" "vs = None" "list_all shaped xs"
      and t: "t = t_and \<or> t = t_or \<or> (t = t_not \<and> length (map to_go xs) = 1)" by auto
    have ne: "t \<noteq> []" using t by auto
    have step: "\<forall>x \<in> set xs. \<forall>i j. validateExprNode compile (d + 1) (to_go x) i = Inr j \<longleftrightarrow>
        (complete compile x \<and> d + 1 + height x \<le> 25) \<and> i + nodes x \<le> 256 \<and> j = i + nodes x"
      using Expr.IH xs by (fastforce simp: list_all_iff)
    have h: "d + height (Expr oper cs a m v vs) \<le> 25 \<longleftrightarrow> d \<le> 24 \<and> (\<forall>x \<in> set xs. d + 1 + height x \<le> 25)"
    proof (cases "d \<le> 24")
      case True
      then have "d + (1 + b) \<le> 25 \<longleftrightarrow> b \<le> 24 - d" "d + 1 + b \<le> 25 \<longleftrightarrow> b \<le> 24 - d" for b by arith+
      then show ?thesis using True by (simp only: xs(1) height.simps coalesce_simps fold_max_le ball_simps set_map) auto
    qed auto
    have c: "validateExprNode compile d (to_go (Expr oper cs a m v vs)) n = Inr k \<longleftrightarrow>
        d \<le> 24 \<and> n + 1 \<le> 256 \<and> xs \<noteq> [] \<and> each_child (\<lambda>x. validateExprNode compile (d + 1) (to_go x)) xs (n + 1) = Inr k"
      using operator_ok [OF t] ne by (simp add: Some xs validate_operator each_child_map)
    show ?thesis
      unfolding c h using each_child_sums [OF step, of "n + 1" k] ne
      by (auto simp: Some xs list_all_iff)
  qed
qed

lemma foldl_inter: "foldl (\<lambda>acc d. acc \<inter> f d) b xs = b \<inter> (\<Inter>x \<in> set xs. f x)"
  by (induction xs arbitrary: b) auto

lemma foldl_union: "foldl (\<lambda>acc d. acc \<union> f d) b xs = b \<union> (\<Union>x \<in> set xs. f x)"
  by (induction xs arbitrary: b) auto

lemma eval_leaf: "evalExpr compile attrs universe (GoExpr [] cs a m v vs) = evalLeaf compile attrs universe (GoExpr [] cs a m v vs)"
  by simp

lemma eval_operator:
  assumes "oper \<noteq> []"
  shows "evalExpr compile attrs universe (GoExpr oper cs a m v vs) =
     (if lower_op oper = t_and \<and> cs \<noteq> [] then (\<Inter>c \<in> set cs. evalExpr compile attrs universe c)
      else if lower_op oper = t_or then (\<Union>c \<in> set cs. evalExpr compile attrs universe c)
      else if lower_op oper = t_not \<and> length cs = 1 then set universe - evalExpr compile attrs universe (hd cs)
      else {})"
  using assms by (auto simp: foldl_inter foldl_union split: list.splits)

declare evalExpr.simps [simp del]

text \<open>Whatever tree is stored, its value stays within the organisation's own names.\<close>

lemma evaluated_in_universe: "evalExpr compile attrs universe g \<subseteq> set universe"
proof (induction g)
  case (GoExpr oper cs a m v vs)
  have leaf: "evalLeaf compile attrs universe g \<subseteq> set universe" for g by (auto simp: evalLeaf_def Let_def)
  show ?case
  proof (cases "oper = []")
    case True
    then show ?thesis using leaf by (simp add: eval_leaf)
  next
    case False
    have "(\<Inter>c \<in> set cs. evalExpr compile attrs universe c) \<subseteq> set universe" if "cs \<noteq> []"
      using GoExpr.IH [of "hd cs"] that by (auto dest: bspec [OF _ hd_in_set [OF that]])
    moreover have "(\<Union>c \<in> set cs. evalExpr compile attrs universe c) \<subseteq> set universe" using GoExpr.IH by auto
    ultimately show ?thesis by (auto simp: eval_operator [OF False])
  qed
qed

lemma matchLeaf_kinds:
  "matchLeaf (GoExpr oper cs a (js ''exists'') v vs) x p re = p"
  "matchLeaf (GoExpr oper cs a (js ''not_exists'') v vs) x p re = (\<not> p)"
  "matchLeaf (GoExpr oper cs a (js ''equals'') v vs) x p re = (p \<and> x = v)"
  "matchLeaf (GoExpr oper cs a (js ''not_equals'') v vs) x p re = (\<not> p \<or> x \<noteq> v)"
  "matchLeaf (GoExpr oper cs a (js ''prefix'') v vs) x p re = (p \<and> starts_with x v)"
  "matchLeaf (GoExpr oper cs a (js ''suffix'') v vs) x p re = (p \<and> ends_with x v)"
  "matchLeaf (GoExpr oper cs a (js ''contains'') v vs) x p re = (p \<and> str_includes x v)"
  "matchLeaf (GoExpr oper cs a (js ''regex'') v vs) x p re = (p \<and> (case re of None \<Rightarrow> False | Some f \<Rightarrow> f x))"
  "matchLeaf (GoExpr oper cs a (js ''in'') v vs) x p re = (p \<and> x \<in> set vs)"
  by (auto simp: matchLeaf_def)

definition subject_of :: "(jstring \<Rightarrow> jstring \<Rightarrow> jstring option) \<Rightarrow> jstring option \<Rightarrow> jstring \<Rightarrow> jstring option" where
  "subject_of attrs a name = (if truthy_str a then attrs name (coalesce a []) else Some name)"

abbreviation on_subject :: "jstring option \<Rightarrow> (jstring \<Rightarrow> bool) \<Rightarrow> bool" where
  "on_subject s p \<equiv> (case s of None \<Rightarrow> False | Some x \<Rightarrow> p x)"

lemma leaf_reads_kinds:
  "leaf_reads compile attrs (Expr oper cs a (Some (js ''exists'')) v vs) x = (subject_of attrs a x \<noteq> None)"
  "leaf_reads compile attrs (Expr oper cs a (Some (js ''not_exists'')) v vs) x = (subject_of attrs a x = None)"
  "leaf_reads compile attrs (Expr oper cs a (Some (js ''equals'')) v vs) x = (subject_of attrs a x = Some (coalesce v []))"
  "leaf_reads compile attrs (Expr oper cs a (Some (js ''not_equals'')) v vs) x = (subject_of attrs a x \<noteq> Some (coalesce v []))"
  "leaf_reads compile attrs (Expr oper cs a (Some (js ''prefix'')) v vs) x = on_subject (subject_of attrs a x) (\<lambda>y. starts_with y (coalesce v []))"
  "leaf_reads compile attrs (Expr oper cs a (Some (js ''suffix'')) v vs) x = on_subject (subject_of attrs a x) (\<lambda>y. ends_with y (coalesce v []))"
  "leaf_reads compile attrs (Expr oper cs a (Some (js ''contains'')) v vs) x = on_subject (subject_of attrs a x) (\<lambda>y. str_includes y (coalesce v []))"
  "leaf_reads compile attrs (Expr oper cs a (Some (js ''regex'')) v vs) x = on_subject (subject_of attrs a x) (coalesce (compile (coalesce v [])) (\<lambda>y. False))"
  "leaf_reads compile attrs (Expr oper cs a (Some (js ''in'')) v vs) x = on_subject (subject_of attrs a x) (\<lambda>y. y \<in> set (coalesce vs []))"
  by (simp_all add: leaf_reads_def subject_of_def Let_def del: option.case_eq_if)

lemma evalLeaf_subjects:
  "evalLeaf compile attrs universe (GoExpr [] cs (coalesce a []) m v vs) =
     (let re = (if m = js ''regex'' then compile v else None) in
      if m = js ''regex'' \<and> re = None then {}
      else set (filter (\<lambda>name. case subject_of attrs a name of
                 None \<Rightarrow> matchLeaf (GoExpr [] cs (coalesce a []) m v vs) [] False re
               | Some x \<Rightarrow> matchLeaf (GoExpr [] cs (coalesce a []) m v vs) x True re) universe))"
  unfolding evalLeaf_def go_expr.sel subject_of_def truthy_coalesce Let_def
  by (intro if_cong refl arg_cong [where f = set] filter_cong) simp_all

lemma leaf_value:
  assumes "value_shaped (Expr None None a m v vs)"
  shows "evalLeaf compile attrs universe (to_go (Expr None None a m v vs)) =
           set (filter (leaf_reads compile attrs (Expr None None a m v vs)) universe)"
proof -
  from assms have known: "match_meta m \<noteq> None" by (simp add: value_shaped_def)
  from known obtain k where m: "m = Some k"
    and "k \<in> {js ''in'', js ''exists'', js ''not_exists'', js ''equals'', js ''not_equals'', js ''prefix'', js ''suffix'', js ''contains'', js ''regex''}"
    by (cases rule: known_matches) (auto simp: presence_matches_def scalar_matches_def)
  then show ?thesis
    by (elim insertE emptyE; hypsubst_thin)
       (auto simp: evalLeaf_subjects Let_def matchLeaf_kinds leaf_reads_kinds split: option.splits)
qed

lemma value_of_rule:
  "shaped e \<Longrightarrow> complete compile e \<Longrightarrow>
     evalExpr compile attrs universe (to_go e) = set (filter (reads compile attrs e) universe)"
proof (induction e)
  case (Expr oper cs a m v vs)
  show ?case
  proof (cases oper)
    case None
    with Expr.prems have "cs = None" "value_shaped (Expr None None a m v vs)" by auto
    with None leaf_value [of a m v vs compile attrs universe] show ?thesis by (simp add: eval_leaf)
  next
    case (Some t)
    with Expr.prems obtain xs where xs: "cs = Some xs" "list_all shaped xs" "xs \<noteq> []" "list_all (complete compile) xs"
      and t: "t = t_and \<or> t = t_or \<or> (t = t_not \<and> length xs = 1)" by auto
    have ih: "\<forall>c \<in> set xs. evalExpr compile attrs universe (to_go c) = set (filter (reads compile attrs c) universe)"
      using Expr.IH xs by (auto simp: list_all_iff)
    have sub: "(\<Inter>c \<in> set xs. evalExpr compile attrs universe (to_go c)) = {x \<in> set universe. list_all (\<lambda>c. reads compile attrs c x) xs}"
      using ih hd_in_set [OF xs(3)] by (auto simp: list_all_iff)
    from t show ?thesis
    proof (elim disjE conjE)
      assume "t = t_and"
      with sub xs(3) show ?thesis by (simp add: Some xs(1) eval_operator)
    next
      assume "t = t_or"
      with ih show ?thesis by (auto simp: Some xs(1) eval_operator list_ex_iff)
    next
      assume "t = t_not" "length xs = 1"
      moreover from this obtain c where "xs = [c]" by (cases xs) auto
      ultimately show ?thesis using ih by (auto simp: Some xs(1) eval_operator)
    qed
  qed
qed
lemma match_meta_equals [simp]: "match_meta (Some (js ''equals'')) \<noteq> None" "\<not> no_value (Some (js ''equals''))" "\<not> takes_list (Some (js ''equals''))"
  by (simp_all add: match_meta_simps no_value_def takes_list_def EXPR_MATCHES_def)

lemma match_meta_prefix [simp]: "match_meta (Some (js ''prefix'')) \<noteq> None" "\<not> no_value (Some (js ''prefix''))" "\<not> takes_list (Some (js ''prefix''))"
  by (simp_all add: match_meta_simps no_value_def takes_list_def EXPR_MATCHES_def)

lemma shaped_emptyLeaf [simp]: "shaped emptyLeaf" "names_only emptyLeaf"
  by (simp_all add: emptyLeaf_def value_shaped_def)

lemma shaped_newExpr: "shaped newExpr" "names_only newExpr"
  by (simp_all add: newExpr_def operator_node_def value_shaped_def)

lemma shaped_leaf:
  "shaped e \<Longrightarrow> nodeType e = Leaf \<longleftrightarrow> px_op e = None"
  by (cases e) (auto simp: nodeType_def isOp_def split: option.splits if_splits)

text \<open>What both invariants ask of an operator node: its children, one by one.\<close>

lemma shaped_operator:
  "shaped (operator_node t kids) \<longleftrightarrow> list_all shaped kids \<and> (t = t_and \<or> t = t_or \<or> (t = t_not \<and> length kids = 1))"
  "names_only (operator_node t kids) = list_all names_only kids"
  by (auto simp: operator_node_def)

lemma shaped_is_operator:
  assumes "shaped e" "nodeType e \<noteq> Leaf"
  obtains t kids where "e = operator_node t kids" "list_all shaped kids" "children_of e = kids"
    "t = t_and \<or> t = t_or \<or> (t = t_not \<and> length kids = 1)"
    "nodeType e = (if t = t_not then Negation else Group)"
proof (cases e)
  case (Expr oper cs a m v vs)
  with assms shaped_leaf [OF assms(1)] obtain t kids where "oper = Some t" "cs = Some kids" by (cases oper; cases cs) auto
  with Expr assms that [of t kids] show ?thesis
    by (auto simp: operator_node_def children_of_def nodeType_def isOp_def)
qed

lemma shaped_is_leaf:
  assumes "shaped e" "nodeType e = Leaf"
  obtains a m v vs where "e = Expr None None a m v vs" "value_shaped e"
  using assms shaped_leaf [OF assms(1)] by (cases e) auto

lemma shaped_setType: "shaped e \<Longrightarrow> shaped (setType t e)"
proof (cases "nodeType e = Leaf")
  case True
  assume e: "shaped e"
  with True have "px_op e = None" "px_children e = None"
    using e by (auto elim: shaped_is_leaf)
  with e show ?thesis by (cases t) (auto simp: setType_def isOp_def shaped_operator)
next
  case False
  assume e: "shaped e"
  with False obtain u kids where "e = operator_node u kids" "list_all shaped kids" "u = t_and \<or> u = t_or \<or> (u = t_not \<and> length kids = 1)"
    by (elim shaped_is_operator)
  then show ?thesis
    by (cases t) (auto simp: setType_def isOp_def shaped_operator operator_node_def split: list.splits)
qed

lemma names_only_setType: "names_only e \<Longrightarrow> names_only (setType t e)"
  by (cases e; cases t) (auto simp: setType_def shaped_operator split: option.splits list.splits)

lemma no_value_no_list: "no_value m \<Longrightarrow> \<not> takes_list m"
  by (rule known_matches [of m]) (auto simp: no_value_def split: option.splits)

lemma shaped_edit_leaf:
  assumes "shaped e" "nodeType e = Leaf" "edit_leaf by_attr options ed e = Some e'"
  shows "shaped e'"
proof -
  from assms(1,2) obtain a m v vs where e: "e = Expr None None a m v vs" "value_shaped e" by (elim shaped_is_leaf)
  with assms show ?thesis
    by (cases ed)
       (auto simp: edit_leaf_def Let_def shaped_setType with_attr_def with_value_def with_values_def pick_match_def value_shaped_def
          dest: no_value_no_list split: if_splits option.splits)
qed

lemma names_only_edit_leaf:
  assumes "names_only e" "edit_leaf False options ed e = Some e'"
  shows "names_only e'"
  using assms
  by (cases e; cases ed)
     (auto simp: edit_leaf_def Let_def names_only_setType with_attr_def with_value_def with_values_def pick_match_def
        split: if_splits option.splits)

lemma list_all_drop_nth: "list_all P xs \<Longrightarrow> list_all P (drop_nth i xs)"
  by (auto simp: list_all_iff drop_nth_def dest: in_set_takeD in_set_dropD)

lemma with_children_operator: "with_children cs (operator_node t kids) = operator_node t cs"
  "with_op u (operator_node t kids) = operator_node u kids"
  by (simp_all add: with_children_def with_op_def operator_node_def)

lemma edit_operator_keeps:
  assumes "shaped e" "nodeType e \<noteq> Leaf" "edit_operator ed e = Some e'"
  shows "shaped e'" and "names_only e \<Longrightarrow> names_only e'"
proof -
  from assms(1,2) obtain t kids where e: "e = operator_node t kids" "list_all shaped kids" "children_of e = kids"
    "t = t_and \<or> t = t_or \<or> (t = t_not \<and> length kids = 1)" "nodeType e = (if t = t_not then Negation else Group)"
    by (elim shaped_is_operator)
  show "shaped e'"
    using assms(3) e assms(1)
    by (cases ed) (auto simp: edit_operator_def shaped_setType with_children_operator shaped_operator list_all_drop_nth split: if_splits)
  show "names_only e'" if "names_only e"
    using assms(3) e that
    by (cases ed) (auto simp: edit_operator_def names_only_setType with_children_operator shaped_operator list_all_drop_nth split: if_splits)
qed

lemma edit_at_keeps:
  "shaped e \<Longrightarrow> edit_at by_attr options path ed e = Some e' \<Longrightarrow> shaped e' \<and> (\<not> by_attr \<longrightarrow> names_only e \<longrightarrow> names_only e')"
proof (induction path arbitrary: e e')
  case Nil
  then show ?case
    by (auto simp: edit_node_def split: if_splits
        intro: shaped_edit_leaf names_only_edit_leaf edit_operator_keeps(1) edit_operator_keeps(2) [where e = e])
next
  case (Cons i path)
  then have node: "nodeType e \<noteq> Leaf" and i: "i < length (children_of e)" by (auto split: if_splits)
  from Cons.prems(2) node i obtain c where c: "edit_at by_attr options path ed (children_of e ! i) = Some c"
    and e': "e' = with_children ((children_of e)[i := c]) e" by (auto split: option.splits)
  from Cons.prems(1) node obtain t kids where e: "e = operator_node t kids" "list_all shaped kids" "children_of e = kids"
    "t = t_and \<or> t = t_or \<or> (t = t_not \<and> length kids = 1)" by (elim shaped_is_operator)
  have child: "shaped c \<and> (\<not> by_attr \<longrightarrow> names_only (kids ! i) \<longrightarrow> names_only c)"
    using Cons.IH [of "kids ! i" c] c e i by (auto simp: list_all_length)
  then have "list_all shaped (kids[i := c])"
    using e(2) by (auto simp: list_all_iff dest!: subsetD [OF set_update_subset_insert])
  moreover have "names_only e \<Longrightarrow> \<not> by_attr \<Longrightarrow> list_all names_only (kids[i := c])"
    using child e(1,3) i by (auto simp: shaped_operator list_all_length nth_list_update)
  ultimately show ?case
    using e e' by (auto simp: with_children_operator shaped_operator)
qed

lemma edited_keeps:
  assumes "edited by_attr options start e" "shaped start"
  shows "shaped e \<and> (\<not> by_attr \<longrightarrow> names_only start \<longrightarrow> names_only e)"
  using assms by (induction) (auto dest: edit_at_keeps)

lemma names_only_allowed: "shaped e \<Longrightarrow> names_only e \<Longrightarrow> forbidAttrLeaves (to_go e) = None"
proof (induction e)
  case (Expr oper cs a m v vs)
  have first: "first_error forbidAttrLeaves (map to_go xs) = None" if "\<forall>x \<in> set xs. forbidAttrLeaves (to_go x) = None" for xs
    using that by (induction xs) auto
  show ?case
    using Expr.prems Expr.IH first by (cases oper; cases cs) (auto simp: list_all_iff)
qed

lemma accepted_iff:
  assumes "shaped e"
  shows "ValidateExpr compile (Some (to_go e)) = None \<longleftrightarrow> complete compile e \<and> height e \<le> 24 \<and> nodes e \<le> 256"
proof -
  have "ValidateExpr compile (Some (to_go e)) = None \<longleftrightarrow> (\<exists>k. validateExprNode compile 1 (to_go e) 0 = Inr k)"
    by (auto simp: ValidateExpr_def split: sum.splits)
  then show ?thesis by (auto simp: validate_counts [OF assms])
qed

section \<open>Properties\<close>

text \<open>C29: An edited rule keeps the shape the server expects, so the server refuses it only where a
  condition is left unfinished or the tree is too big: every scalar and list condition needs a value, a
  regular expression has to compile, an attribute test that takes no value needs the attribute's name, and
  every group needs a condition.  A rule that is edited for an integration or a system never names an
  attribute, so that the stricter check of those kinds comes to the same.\<close>

theorem edited_rule_is_accepted_when_complete:
  assumes "edited by_attr options start e" "shaped start"
  shows "shaped e
    \<and> (ValidateExpr compile (Some (to_go e)) = None \<longleftrightarrow> complete compile e \<and> height e \<le> exprMaxDepth \<and> nodes e \<le> exprMaxNodes)
    \<and> (names_only start \<and> \<not> by_attr \<longrightarrow> validateNameOnlyExpr compile (Some (to_go e)) = ValidateExpr compile (Some (to_go e)))"
  using edited_keeps [OF assms] accepted_iff [of e compile] names_only_allowed [of e]
  by (auto simp: exprMaxDepth_def exprMaxNodes_def validateNameOnlyExpr_def split: option.splits)

definition sample_rule :: policy_expr where
  "sample_rule = operator_node t_and [Expr None None None (Some (js ''prefix'')) (Some (js ''ABC'')) None, emptyLeaf]"

lemma sample_rule_edited: "edited False None newExpr sample_rule"
proof -
  have "edited False None newExpr (operator_node t_and [Expr None None None (Some (js ''prefix'')) (Some (js ''ABC'')) None])"
    by (rule edited.edit [OF edited.unedited, where path = "[0]" and ed = "TypeValue (js ''ABC'')"]) code_simp
  then show ?thesis
    by (rule edited.edit [where path = "[]" and ed = AddCondition]) code_simp
qed

lemma edited_rule_is_accepted_when_complete_ex:
  "ValidateExpr (\<lambda>s. None) (Some (to_go sample_rule)) \<noteq> None
   \<and> validateNameOnlyExpr (\<lambda>s. None) (Some (to_go sample_rule)) = ValidateExpr (\<lambda>s. None) (Some (to_go sample_rule))"
  using edited_rule_is_accepted_when_complete [OF sample_rule_edited shaped_newExpr(1), of "\<lambda>s. None"] shaped_newExpr(2)
  by (auto simp: sample_rule_def operator_node_def emptyLeaf_def)

text \<open>C28: A rule made in the editor that the server accepts grants exactly the names of the organisation for
  which the rule, read as the boolean expression it is, holds: ALL is every condition, ANY is some condition,
  NOT is the opposite within the organisation's own names, a comparison asks for the attribute to be there, and
  "not equal" and "not set" also hold where it is not.  No stored tree whatever grants a name outside the
  organisation.\<close>

theorem policy_grants_what_the_rule_says:
  assumes "edited by_attr options start e" "shaped start" "ValidateExpr compile (Some (to_go e)) = None"
  shows "(name \<in> evalExpr compile attrs universe (to_go e) \<longleftrightarrow> name \<in> set universe \<and> reads compile attrs e name)
    \<and> evalExpr compile attrs universe g \<subseteq> set universe"
  using edited_keeps [OF assms(1,2)] accepted_iff [of e compile] assms(3) value_of_rule [of e compile attrs universe]
    evaluated_in_universe [of compile attrs universe g] by auto

lemma policy_grants_what_the_rule_says_ex:
  "evalExpr (\<lambda>s. None) (\<lambda>s k. None) [js ''ABC-api'', js ''billing'']
     (to_go (operator_node t_and [Expr None None None (Some (js ''prefix'')) (Some (js ''ABC'')) None])) = {js ''ABC-api''}"
proof -
  let ?e = "operator_node t_and [Expr None None None (Some (js ''prefix'')) (Some (js ''ABC'')) None]"
  have ed: "edited False None newExpr ?e"
    by (rule edited.edit [OF edited.unedited, where path = "[0]" and ed = "TypeValue (js ''ABC'')"]) code_simp
  have ok: "ValidateExpr (\<lambda>s. None) (Some (to_go ?e)) = None" by code_simp
  note grants = policy_grants_what_the_rule_says [OF ed shaped_newExpr(1) ok, of _ "\<lambda>s k. None" "[js ''ABC-api'', js ''billing'']" "to_go ?e"]
  have "reads (\<lambda>s. None) (\<lambda>s k. None) ?e (js ''ABC-api'')" "\<not> reads (\<lambda>s. None) (\<lambda>s k. None) ?e (js ''billing'')" by code_simp+
  with grants [of "js ''ABC-api''"] grants [of "js ''billing''"] grants show ?thesis by auto
qed

end
