(* ===== verification/PolicyForm.thy ===== *)
theory PolicyForm
  imports PolicyRules Mirrors
begin

text \<open>
  The access policies of a team: the form that creates and edits one (\<open>CreatePolicyForm\<close> of
  \<open>pages/Settings.tsx\<close>), the summary of a row (\<open>describePolicy\<close>, \<open>withSignals\<close>), and what the server makes
  of a request (\<open>validatePolicyInput\<close> and \<open>buildPolicyArgs\<close> of \<open>identity/policies.go\<close>, the shape constraint
  of migration 0090).

  \<open>compile\<close> is Go's \<open>regexp\<close>, \<open>uuid\<close> is \<open>uuid.Parse\<close> followed by the canonical printing, \<open>uni\<close> the case
  conversion of letters beyond ASCII.
\<close>

section \<open>Policies on the wire\<close>

datatype policy_kind = ServiceKind | IntegrationKind | AttributesKind | CompoundKind | AllOrg | SystemKind | ExpressionKind

record access_policy =
  ap_id :: jstring
  ap_kind :: policy_kind
  ap_service :: "jstring option"
  ap_integration :: "jstring option"
  ap_system_kind :: "jstring option"
  ap_system_id :: "jstring option"
  ap_attrs :: "(jstring \<times> jstring) list"
  ap_conditions :: "policy_expr option"
  ap_signals :: "jstring list option"
  ap_grant :: "bool option"

record policy_request =
  pi_kind :: policy_kind
  pi_service :: jstring
  pi_integration :: jstring
  pi_grant :: "bool option"
  pi_system_kind :: jstring
  pi_attrs :: "(jstring \<times> jstring) list"
  pi_conditions :: "policy_expr option"
  pi_signals :: "jstring list option"

section \<open>The summary of a row\<close>

definition short_id :: "jstring option \<Rightarrow> jstring" where
  "short_id i = take 8 (coalesce i []) @ [ellipsis]"

definition attr_list :: "(jstring \<times> jstring) list \<Rightarrow> jstring" where
  "attr_list kvs = join (js '', '') (map (\<lambda>(k, v). k @ js ''='' @ v) kvs)"

definition describePolicy :: "access_policy \<Rightarrow> jstring" where
  "describePolicy p =
     (case ap_kind p of
        AllOrg \<Rightarrow> js ''Everything in the org (wildcard)''
      | SystemKind \<Rightarrow>
          (let named = (case ap_conditions p of None \<Rightarrow> [] | Some c \<Rightarrow> js ''named '' @ describeExpr c 0 (js ''name''));
               kinded = (if truthy_str (ap_system_kind p) then js ''All '' @ coalesce (ap_system_kind p) [] @ js '' systems''
                         else js ''All flagged systems'') in
           if named \<noteq> [] then kinded @ [32] @ named else kinded)
      | ServiceKind \<Rightarrow> js ''Service '' @ coalesce (ap_service p) (js ''undefined'')
      | IntegrationKind \<Rightarrow>
          (case ap_conditions p of
             Some c \<Rightarrow> js ''Integrations whose '' @ describeExpr c 0 (js ''name'')
           | None \<Rightarrow> js ''All services in integration '' @ short_id (ap_integration p))
      | AttributesKind \<Rightarrow>
          js ''Where '' @ (if attr_list (ap_attrs p) = [] then js ''(no attrs)'' else attr_list (ap_attrs p))
      | CompoundKind \<Rightarrow>
          (if truthy_str (ap_service p) then js ''service '' @ coalesce (ap_service p) []
           else js ''integration '' @ short_id (ap_integration p)) @ js '' where '' @ attr_list (ap_attrs p)
      | ExpressionKind \<Rightarrow>
          (case ap_conditions p of Some c \<Rightarrow> describeExpr c 0 (js ''service'') | None \<Rightarrow> js ''(empty expression)''))"

definition withSignals :: "access_policy \<Rightarrow> jstring \<Rightarrow> jstring" where
  "withSignals p text =
     (if coalesce (ap_signals p) [] = [] then text
      else text @ [32, emdash, 32] @ join (js '', '') (coalesce (ap_signals p) []) @ js '' only'')"

section \<open>The form\<close>

definition ALL_SIGNALS :: "jstring list" where
  "ALL_SIGNALS = [js ''traces'', js ''logs'', js ''metrics'', js ''messages'']"

record policy_form =
  pf_policy :: "access_policy option"
  pf_kind :: policy_kind
  pf_service :: jstring
  pf_integration :: jstring
  pf_integrations :: "jstring list"
  pf_grant :: bool
  pf_system_kind :: jstring
  pf_pairs :: "(jstring \<times> jstring) list"
  pf_expr :: policy_expr
  pf_signals :: "jstring list"
  pf_by_pattern :: bool

definition seed :: "access_policy option \<Rightarrow> (access_policy \<Rightarrow> 'a option) \<Rightarrow> 'a \<Rightarrow> 'a" where
  "seed policy f d = (case policy of None \<Rightarrow> d | Some p \<Rightarrow> coalesce (f p) d)"

definition open_policy_form :: "access_policy option \<Rightarrow> policy_form" where
  "open_policy_form policy =
     \<lparr>pf_policy = policy,
      pf_kind = seed policy (\<lambda>p. Some (ap_kind p)) AttributesKind,
      pf_service = seed policy ap_service [],
      pf_integration = seed policy ap_integration [],
      pf_integrations = [],
      pf_grant = seed policy ap_grant False,
      pf_system_kind = seed policy ap_system_kind [],
      pf_pairs = seed policy (\<lambda>p. Some (ap_attrs p)) [] @ [([], [])],
      pf_expr = seed policy ap_conditions newExpr,
      pf_signals = (let sigs = seed policy ap_signals [] in if sigs = [] then ALL_SIGNALS else dedupe sigs),
      pf_by_pattern = (case policy of None \<Rightarrow> False
        | Some p \<Rightarrow> ap_conditions p \<noteq> None \<and> (ap_kind p = IntegrationKind \<or> ap_kind p = SystemKind))\<rparr>"

datatype form_edit =
    SetKind policy_kind | SetService jstring | SetIntegration jstring | PickIntegration jstring | UnpickIntegration jstring
  | SetGrant bool | SetSystemKind jstring | SetPairKey nat jstring | SetPairValue nat jstring | RemovePair nat | AddPair
  | SetExpr policy_expr | TickSignal jstring bool | SetByPattern bool

definition tick :: "jstring \<Rightarrow> bool \<Rightarrow> jstring list \<Rightarrow> jstring list" where
  "tick sig on sigs = (if on then (if sig \<in> set sigs then sigs else sigs @ [sig]) else filter (\<lambda>s. s \<noteq> sig) sigs)"

fun form_step :: "form_edit \<Rightarrow> policy_form \<Rightarrow> policy_form" where
  "form_step (SetKind k) f = f\<lparr>pf_kind := k\<rparr>"
| "form_step (SetService s) f = f\<lparr>pf_service := s\<rparr>"
| "form_step (SetIntegration i) f = f\<lparr>pf_integration := i\<rparr>"
| "form_step (PickIntegration i) f =
     (if i = [] \<or> i \<in> set (pf_integrations f) then f else f\<lparr>pf_integrations := pf_integrations f @ [i]\<rparr>)"
| "form_step (UnpickIntegration i) f = f\<lparr>pf_integrations := filter (\<lambda>x. x \<noteq> i) (pf_integrations f)\<rparr>"
| "form_step (SetGrant b) f = f\<lparr>pf_grant := b\<rparr>"
| "form_step (SetSystemKind k) f = f\<lparr>pf_system_kind := k\<rparr>"
| "form_step (SetPairKey i k) f = f\<lparr>pf_pairs := (pf_pairs f)[i := (k, snd (pf_pairs f ! i))]\<rparr>"
| "form_step (SetPairValue i v) f = f\<lparr>pf_pairs := (pf_pairs f)[i := (fst (pf_pairs f ! i), v)]\<rparr>"
| "form_step (RemovePair i) f = f\<lparr>pf_pairs := drop_nth i (pf_pairs f)\<rparr>"
| "form_step AddPair f = f\<lparr>pf_pairs := pf_pairs f @ [([], [])]\<rparr>"
| "form_step (SetExpr e) f = f\<lparr>pf_expr := e\<rparr>"
| "form_step (TickSignal sig on) f = (if sig \<in> set ALL_SIGNALS then f\<lparr>pf_signals := tick sig on (pf_signals f)\<rparr> else f)"
| "form_step (SetByPattern b) f =
     (if pf_kind f = IntegrationKind \<or> pf_kind f = SystemKind then f\<lparr>pf_by_pattern := b\<rparr> else f)"

definition usePattern :: "policy_form \<Rightarrow> bool" where
  "usePattern f \<longleftrightarrow> (pf_kind f = IntegrationKind \<or> pf_kind f = SystemKind) \<and> pf_by_pattern f"

definition wantsService :: "policy_form \<Rightarrow> bool" where
  "wantsService f \<longleftrightarrow> pf_kind f = ServiceKind \<or> pf_kind f = CompoundKind"

definition wantsIntegration :: "policy_form \<Rightarrow> bool" where
  "wantsIntegration f \<longleftrightarrow> (pf_kind f = IntegrationKind \<and> \<not> usePattern f) \<or> pf_kind f = CompoundKind"

definition picksSeveral :: "policy_form \<Rightarrow> bool" where
  "picksSeveral f \<longleftrightarrow> pf_kind f = IntegrationKind \<and> \<not> usePattern f \<and> pf_policy f = None"

definition wantsAttrs :: "policy_form \<Rightarrow> bool" where
  "wantsAttrs f \<longleftrightarrow> pf_kind f = AttributesKind \<or> pf_kind f = CompoundKind"

definition wantsExpr :: "policy_form \<Rightarrow> bool" where
  "wantsExpr f \<longleftrightarrow> pf_kind f = ExpressionKind \<or> usePattern f"

text \<open>Assigning a string to \<open>__proto__\<close> of an object literal changes nothing.\<close>

definition add_pair :: "(jstring \<times> jstring) list \<Rightarrow> jstring \<times> jstring \<Rightarrow> (jstring \<times> jstring) list" where
  "add_pair acc kv =
     (let k = trim (fst kv); v = trim (snd kv) in
      if k \<noteq> [] \<and> v \<noteq> [] \<and> k \<noteq> js ''__proto__'' then AList.update k v acc else acc)"

definition request_attrs :: "(jstring \<times> jstring) list \<Rightarrow> (jstring \<times> jstring) list" where
  "request_attrs pairs = foldl add_pair [] pairs"

definition policy_body :: "policy_form \<Rightarrow> policy_request" where
  "policy_body f =
     \<lparr>pi_kind = pf_kind f,
      pi_service = (if wantsService f then trim (pf_service f) else []),
      pi_integration = (if wantsIntegration f then trim (pf_integration f) else []),
      pi_grant = (if pf_kind f = IntegrationKind then Some (pf_grant f) else None),
      pi_system_kind = (if pf_kind f = SystemKind then trim (pf_system_kind f) else []),
      pi_attrs = (if wantsAttrs f then request_attrs (pf_pairs f) else []),
      pi_conditions = (if wantsExpr f then Some (pf_expr f) else None),
      pi_signals = (if length (pf_signals f) < 4 then Some (pf_signals f) else None)\<rparr>"

datatype submission = Refused jstring | Update jstring policy_request | CreateEach "(jstring \<times> policy_request) list" | Create policy_request

definition submit_policy :: "policy_form \<Rightarrow> submission" where
  "submit_policy f =
     (if (if picksSeveral f then pf_integrations f = [] else wantsIntegration f \<and> trim (pf_integration f) = []) then
        Refused (if picksSeveral f then js ''Pick at least one integration for this policy.'' else js ''Pick an integration for this policy.'')
      else (case pf_policy f of
        Some p \<Rightarrow> Update (ap_id p) (policy_body f)
      | None \<Rightarrow>
          (if picksSeveral f then CreateEach (map (\<lambda>i. (i, (policy_body f)\<lparr>pi_integration := i\<rparr>)) (pf_integrations f))
           else Create (policy_body f))))"

text \<open>
  The loop over the picked integrations.  \<open>create\<close> is the server: its next state, and an error message where it
  refuses.  The loop stops at the first refusal; the integrations already granted leave the selection, and the
  message counts them.
\<close>

record 's grant_run =
  gr_server :: 's
  gr_done :: "jstring list"
  gr_left :: "jstring list"
  gr_error :: "jstring option"

fun grant_loop :: "('s \<Rightarrow> policy_request \<Rightarrow> 's \<times> jstring option) \<Rightarrow> (jstring \<Rightarrow> jstring) \<Rightarrow> jstring list \<Rightarrow> jstring list
    \<Rightarrow> (jstring \<times> policy_request) list \<Rightarrow> 's \<Rightarrow> 's grant_run" where
  "grant_loop create name picked dn [] s = \<lparr>gr_server = s, gr_done = dn, gr_left = picked, gr_error = None\<rparr>"
| "grant_loop create name picked dn ((i, b) # rest) s =
     (case create s b of
        (s', None) \<Rightarrow> grant_loop create name picked (dn @ [i]) rest s'
      | (s', Some err) \<Rightarrow>
          \<lparr>gr_server = s', gr_done = dn, gr_left = filter (\<lambda>x. x \<notin> set dn) picked,
           gr_error = Some ((if dn \<noteq> [] then js ''Granted '' @ show_nat (length dn) @ js '' of '' @ show_nat (length picked) @ js ''. '' else [])
             @ name i @ js '': '' @ err)\<rparr>)"

section \<open>The server\<close>

record go_input =
  gi_kind :: policy_kind
  gi_service :: jstring
  gi_integration :: jstring
  gi_system_kind :: jstring
  gi_system_id :: jstring
  gi_attrs :: "(jstring \<times> jstring) list"
  gi_conditions :: "go_expr option"
  gi_signals :: "jstring list"
  gi_grant :: bool

definition decode_request :: "policy_request \<Rightarrow> go_input" where
  "decode_request r =
     \<lparr>gi_kind = pi_kind r, gi_service = pi_service r, gi_integration = pi_integration r, gi_system_kind = pi_system_kind r,
      gi_system_id = [], gi_attrs = pi_attrs r, gi_conditions = map_option to_go (pi_conditions r),
      gi_signals = coalesce (pi_signals r) [], gi_grant = coalesce (pi_grant r) False\<rparr>"

datatype policy_error =
    UnknownSignal jstring | SystemKindOutOfPlace | SystemIdOutOfPlace | KindAndId
  | NeedsServiceName | ServiceExtras | NeedsIntegration | IdAndPattern | IntegrationExtras
  | NeedsAttributes | AttributesExtras | NeedsTarget | CompoundNeedsAttributes | AllOrgExtras | SystemExtras
  | ExpressionExtras | BadExpr expr_error | BadIntegrationId | BadSystemId

fun check_signals :: "(jstring \<Rightarrow> jstring) \<Rightarrow> jstring list \<Rightarrow> jstring list \<Rightarrow> policy_error + jstring list" where
  "check_signals uni out [] = Inr out"
| "check_signals uni out (s # ss) =
     (let sig = to_lower uni (TrimSpace s) in
      if sig \<notin> set ALL_SIGNALS then Inl (UnknownSignal sig)
      else check_signals uni (if sig \<in> set out then out else out @ [sig]) ss)"

definition bad_expr :: "expr_error option \<Rightarrow> policy_error option" where
  "bad_expr e = map_option BadExpr e"

definition first_broken :: "(bool \<times> policy_error) list \<Rightarrow> policy_error option" where
  "first_broken rules = map_option snd (find fst rules)"

abbreviation then_check :: "policy_error option \<Rightarrow> policy_error option \<Rightarrow> policy_error option" where
  "then_check e e' \<equiv> (case e of Some x \<Rightarrow> Some x | None \<Rightarrow> e')"

definition kind_error :: "(jstring \<Rightarrow> (jstring \<Rightarrow> bool) option) \<Rightarrow> go_input \<Rightarrow> policy_error option" where
  "kind_error compile i =
     (case gi_kind i of
        ServiceKind \<Rightarrow> first_broken
          [(gi_service i = [], NeedsServiceName), (gi_integration i \<noteq> [] \<or> gi_attrs i \<noteq> [], ServiceExtras)]
      | IntegrationKind \<Rightarrow> then_check (first_broken
          [(gi_integration i = [] \<and> gi_conditions i = None, NeedsIntegration),
           (gi_integration i \<noteq> [] \<and> gi_conditions i \<noteq> None, IdAndPattern),
           (gi_service i \<noteq> [] \<or> gi_attrs i \<noteq> [], IntegrationExtras)])
          (if gi_conditions i = None then None else bad_expr (validateNameOnlyExpr compile (gi_conditions i)))
      | AttributesKind \<Rightarrow> first_broken
          [(gi_attrs i = [], NeedsAttributes), (gi_service i \<noteq> [] \<or> gi_integration i \<noteq> [], AttributesExtras)]
      | CompoundKind \<Rightarrow> first_broken
          [(gi_service i = [] \<and> gi_integration i = [], NeedsTarget), (gi_attrs i = [], CompoundNeedsAttributes)]
      | AllOrg \<Rightarrow> first_broken [(gi_service i \<noteq> [] \<or> gi_integration i \<noteq> [] \<or> gi_attrs i \<noteq> [], AllOrgExtras)]
      | SystemKind \<Rightarrow> then_check (first_broken [(gi_service i \<noteq> [] \<or> gi_integration i \<noteq> [] \<or> gi_attrs i \<noteq> [], SystemExtras)])
          (if gi_conditions i = None then None else bad_expr (validateNameOnlyExpr compile (gi_conditions i)))
      | ExpressionKind \<Rightarrow> then_check (first_broken [(gi_service i \<noteq> [] \<or> gi_integration i \<noteq> [] \<or> gi_attrs i \<noteq> [], ExpressionExtras)])
          (bad_expr (ValidateExpr compile (gi_conditions i))))"

definition trimmed_input :: "(jstring \<Rightarrow> jstring) \<Rightarrow> go_input \<Rightarrow> go_input" where
  "trimmed_input uni i = i\<lparr>gi_service := TrimSpace (gi_service i), gi_integration := TrimSpace (gi_integration i),
     gi_system_kind := to_lower uni (TrimSpace (gi_system_kind i)), gi_system_id := TrimSpace (gi_system_id i)\<rparr>"

definition validatePolicyInput :: "(jstring \<Rightarrow> (jstring \<Rightarrow> bool) option) \<Rightarrow> (jstring \<Rightarrow> jstring) \<Rightarrow> go_input \<Rightarrow> policy_error + go_input" where
  "validatePolicyInput compile uni i =
     (case check_signals uni [] (gi_signals i) of
        Inl e \<Rightarrow> Inl e
      | Inr sigs \<Rightarrow>
          (let j = (trimmed_input uni i)\<lparr>gi_signals := if length sigs = length ALL_SIGNALS then [] else sigs\<rparr> in
           case then_check (first_broken
             [(gi_kind j \<noteq> SystemKind \<and> gi_system_kind j \<noteq> [], SystemKindOutOfPlace),
              (gi_kind j \<noteq> SystemKind \<and> gi_system_id j \<noteq> [], SystemIdOutOfPlace),
              (gi_system_kind j \<noteq> [] \<and> gi_system_id j \<noteq> [], KindAndId)]) (kind_error compile j) of
             Some e \<Rightarrow> Inl e
           | None \<Rightarrow> Inr j))"

text \<open>A row of \<open>group_access_policies\<close>; an id column holds a canonical UUID.\<close>

record policy_row =
  pr_kind :: policy_kind
  pr_service :: "jstring option"
  pr_integration :: "jstring option"
  pr_system_kind :: "jstring option"
  pr_system_id :: "jstring option"
  pr_attrs :: "(jstring \<times> jstring) list"
  pr_conditions :: "go_expr option"
  pr_signals :: "jstring list"
  pr_grant :: bool

definition parse_target :: "(jstring \<Rightarrow> jstring option) \<Rightarrow> policy_error \<Rightarrow> jstring \<Rightarrow> policy_error + jstring option" where
  "parse_target uuid e s = (if s = [] then Inr None else (case uuid s of None \<Rightarrow> Inl e | Some u \<Rightarrow> Inr (Some u)))"

definition row_of :: "go_input \<Rightarrow> jstring option \<Rightarrow> jstring option \<Rightarrow> policy_row" where
  "row_of j integration system =
     \<lparr>pr_kind = gi_kind j, pr_service = given_text (gi_service j), pr_integration = integration,
      pr_system_kind = given_text (gi_system_kind j), pr_system_id = system, pr_attrs = gi_attrs j,
      pr_conditions = gi_conditions j, pr_signals = gi_signals j, pr_grant = gi_grant j\<rparr>"

definition buildPolicyArgs :: "(jstring \<Rightarrow> jstring option) \<Rightarrow> (jstring \<Rightarrow> (jstring \<Rightarrow> bool) option) \<Rightarrow> (jstring \<Rightarrow> jstring) \<Rightarrow> go_input \<Rightarrow> policy_error + policy_row" where
  "buildPolicyArgs uuid compile uni i =
     (case validatePolicyInput compile uni i of
        Inl e \<Rightarrow> Inl e
      | Inr j \<Rightarrow> (case parse_target uuid BadIntegrationId (gi_integration j) of
          Inl e \<Rightarrow> Inl e
        | Inr integration \<Rightarrow> (case parse_target uuid BadSystemId (gi_system_id j) of
            Inl e \<Rightarrow> Inl e
          | Inr system \<Rightarrow> Inr (row_of j integration system))))"

definition chk_policy_shape :: "policy_row \<Rightarrow> bool" where
  "chk_policy_shape r \<longleftrightarrow>
     (case pr_kind r of
        ServiceKind \<Rightarrow> pr_service r \<noteq> None \<and> pr_integration r = None \<and> pr_attrs r = [] \<and> pr_system_kind r = None
          \<and> pr_system_id r = None \<and> pr_conditions r = None
      | IntegrationKind \<Rightarrow> pr_service r = None \<and> pr_attrs r = [] \<and> pr_system_kind r = None \<and> pr_system_id r = None
          \<and> (pr_integration r \<noteq> None) = (pr_conditions r = None)
      | AttributesKind \<Rightarrow> pr_service r = None \<and> pr_integration r = None \<and> pr_attrs r \<noteq> [] \<and> pr_system_kind r = None
          \<and> pr_system_id r = None \<and> pr_conditions r = None
      | CompoundKind \<Rightarrow> (pr_service r \<noteq> None \<or> pr_integration r \<noteq> None) \<and> pr_attrs r \<noteq> [] \<and> pr_system_kind r = None
          \<and> pr_system_id r = None \<and> pr_conditions r = None
      | AllOrg \<Rightarrow> pr_service r = None \<and> pr_integration r = None \<and> pr_attrs r = [] \<and> pr_system_kind r = None
          \<and> pr_system_id r = None \<and> pr_conditions r = None
      | SystemKind \<Rightarrow> pr_service r = None \<and> pr_integration r = None \<and> pr_attrs r = []
          \<and> (pr_conditions r = None \<or> pr_system_id r = None) \<and> (pr_system_kind r = None \<or> pr_system_id r = None)
      | ExpressionKind \<Rightarrow> pr_service r = None \<and> pr_integration r = None \<and> pr_attrs r = [] \<and> pr_system_kind r = None
          \<and> pr_system_id r = None \<and> pr_conditions r \<noteq> None)"

text \<open>The row as the server lists it and the browser reads it.\<close>

definition list_policy :: "jstring \<Rightarrow> policy_row \<Rightarrow> access_policy" where
  "list_policy ident r =
     \<lparr>ap_id = ident, ap_kind = pr_kind r, ap_service = pr_service r, ap_integration = pr_integration r,
      ap_system_kind = pr_system_kind r, ap_system_id = pr_system_id r, ap_attrs = pr_attrs r,
      ap_conditions = map_option of_go (pr_conditions r),
      ap_signals = (if pr_signals r = [] then None else Some (pr_signals r)), ap_grant = Some (pr_grant r)\<rparr>"

section \<open>Lemmas\<close>

lemma to_go_of_go [simp]: "to_go (of_go g) = g"
proof (induction g)
  case (GoExpr oper cs a m v vs)
  have gt: "coalesce (given_text s) [] = s" for s by (simp add: given_text_def)
  have "map to_go (map of_go cs) = cs" using GoExpr.IH by (simp add: map_idI)
  then show ?case by (cases cs) (auto simp: gt)
qed

lemma signal_text: "s \<in> set ALL_SIGNALS \<Longrightarrow> to_lower uni (TrimSpace s) = s"
  by (auto simp: ALL_SIGNALS_def js_def TrimSpace_def go_space_def is_space_def to_lower_def is_ascii_def lower_unit_def is_upper_def)

lemma check_signals_out:
  "check_signals uni out ss = Inr sigs \<Longrightarrow> distinct out \<Longrightarrow> set out \<subseteq> set ALL_SIGNALS \<Longrightarrow> distinct sigs \<and> set sigs \<subseteq> set ALL_SIGNALS"
  by (induction ss arbitrary: out) (auto simp: Let_def split: if_splits)

lemma check_signals_id:
  "distinct (out @ ss) \<Longrightarrow> set ss \<subseteq> set ALL_SIGNALS \<Longrightarrow> check_signals uni out ss = Inr (out @ ss)"
  by (induction ss arbitrary: out) (auto simp: signal_text)

lemma signals_at_most: "distinct sigs \<Longrightarrow> set sigs \<subseteq> set ALL_SIGNALS \<Longrightarrow> length sigs \<le> 4"
  using card_mono [of "set ALL_SIGNALS" "set sigs"] card_length [of ALL_SIGNALS]
  by (simp add: distinct_card) (simp add: ALL_SIGNALS_def)

definition clean_pair :: "jstring \<times> jstring \<Rightarrow> bool" where
  "clean_pair kv \<longleftrightarrow> trim (fst kv) = fst kv \<and> trim (snd kv) = snd kv \<and> fst kv \<noteq> [] \<and> snd kv \<noteq> [] \<and> fst kv \<noteq> js ''__proto__''"

lemma request_attrs_clean:
  assumes "distinct (map fst kvs)" "list_all clean_pair kvs"
  shows "request_attrs (kvs @ [([], [])]) = kvs"
proof -
  have "foldl add_pair acc kvs = acc @ kvs" if "distinct (map fst (acc @ kvs))" "list_all clean_pair kvs" for acc
    using that
  proof (induction kvs arbitrary: acc)
    case (Cons kv kvs)
    have "AList.update (fst kv) (snd kv) acc = acc @ [kv]"
      using Cons.prems(1) by (induction acc) auto
    moreover have "add_pair acc kv = AList.update (fst kv) (snd kv) acc"
      using Cons.prems(2) by (auto simp: add_pair_def clean_pair_def)
    ultimately show ?case using Cons.IH [of "acc @ [kv]"] Cons.prems by simp
  qed simp
  from this [of "[]"] assms show ?thesis by (simp add: request_attrs_def add_pair_def)
qed

text \<open>What the text fields of a row hold when nobody wrote blanks around them, and its ids are UUIDs.\<close>

definition plain_row :: "(jstring \<Rightarrow> jstring option) \<Rightarrow> (jstring \<Rightarrow> jstring) \<Rightarrow> policy_row \<Rightarrow> bool" where
  "plain_row uuid uni r \<longleftrightarrow>
     (case pr_service r of None \<Rightarrow> True | Some s \<Rightarrow> s \<noteq> [] \<and> trim s = s \<and> TrimSpace s = s)
   \<and> (case pr_integration r of None \<Rightarrow> True | Some i \<Rightarrow> i \<noteq> [] \<and> trim i = i \<and> TrimSpace i = i \<and> uuid i = Some i)
   \<and> (case pr_system_kind r of None \<Rightarrow> True | Some k \<Rightarrow> k \<noteq> [] \<and> trim k = k \<and> to_lower uni (TrimSpace k) = k)
   \<and> distinct (map fst (pr_attrs r)) \<and> list_all clean_pair (pr_attrs r)"

lemma stored_row:
  assumes "buildPolicyArgs uuid compile uni i = Inr r"
  shows "distinct (pr_signals r)" "set (pr_signals r) \<subseteq> set ALL_SIGNALS" "length (pr_signals r) < 4"
    and "pr_kind r = ExpressionKind \<Longrightarrow> ValidateExpr compile (pr_conditions r) = None"
    and "pr_kind r = SystemKind \<or> pr_kind r = IntegrationKind \<Longrightarrow> pr_conditions r \<noteq> None \<Longrightarrow> validateNameOnlyExpr compile (pr_conditions r) = None"
proof -
  from assms obtain j integration system where j: "validatePolicyInput compile uni i = Inr j" and r: "r = row_of j integration system"
    by (auto simp: buildPolicyArgs_def split: sum.splits)
  then obtain sigs where sigs: "check_signals uni [] (gi_signals i) = Inr sigs"
    and js: "gi_signals j = (if length sigs = length ALL_SIGNALS then [] else sigs)" and ok: "kind_error compile j = None"
    by (auto simp: validatePolicyInput_def Let_def split: sum.splits option.splits)
  from check_signals_out [OF sigs] have d: "distinct sigs" "set sigs \<subseteq> set ALL_SIGNALS" by simp_all
  with js r signals_at_most [OF d] show "distinct (pr_signals r)" "set (pr_signals r) \<subseteq> set ALL_SIGNALS" "length (pr_signals r) < 4"
    by (auto simp: row_of_def ALL_SIGNALS_def)
  show "pr_kind r = ExpressionKind \<Longrightarrow> ValidateExpr compile (pr_conditions r) = None"
    using ok r by (auto simp: kind_error_def row_of_def bad_expr_def split: option.splits)
  show "pr_kind r = SystemKind \<or> pr_kind r = IntegrationKind \<Longrightarrow> pr_conditions r \<noteq> None \<Longrightarrow> validateNameOnlyExpr compile (pr_conditions r) = None"
    using ok r by (auto simp: kind_error_def row_of_def bad_expr_def split: option.splits)
qed

lemmas form_defs = usePattern_def wantsService_def wantsIntegration_def picksSeveral_def wantsAttrs_def wantsExpr_def
lemmas request_defs = policy_body_def decode_request_def open_policy_form_def list_policy_def seed_def form_defs

text \<open>The request of an untouched form, as the server decodes it.\<close>

definition reopened :: "policy_row \<Rightarrow> go_input" where
  "reopened r = decode_request (policy_body (open_policy_form (Some (list_policy [] r))))"

lemma reopened_ident: "decode_request (policy_body (open_policy_form (Some (list_policy ident r)))) = reopened r"
  by (auto simp: reopened_def request_defs)

lemma trims_Nil [simp]: "TrimSpace [] = []" "to_lower uni [] = []"
  by (simp_all add: TrimSpace_def to_lower_def is_ascii_def)

lemma given_text_simps [simp]: "given_text [] = None" "s \<noteq> [] \<Longrightarrow> given_text s = Some s"
  by (simp_all add: given_text_def)

lemma reopened_fields:
  assumes "plain_row uuid uni r" "chk_policy_shape r"
    and "pr_kind r = CompoundKind \<longrightarrow> pr_integration r \<noteq> None"
  shows "trimmed_input uni (reopened r) =
     \<lparr>gi_kind = pr_kind r, gi_service = coalesce (pr_service r) [], gi_integration = coalesce (pr_integration r) [],
      gi_system_kind = coalesce (pr_system_kind r) [], gi_system_id = [], gi_attrs = pr_attrs r, gi_conditions = pr_conditions r,
      gi_signals = gi_signals (reopened r), gi_grant = (pr_kind r = IntegrationKind \<and> pr_grant r)\<rparr>"
  using assms request_attrs_clean [of "pr_attrs r"]
  by (cases "pr_kind r"; cases "pr_service r"; cases "pr_integration r"; cases "pr_system_kind r"; cases "pr_conditions r")
     (simp_all add: trimmed_input_def reopened_def request_defs chk_policy_shape_def plain_row_def comp_def)
lemma reopened_signals:
  assumes "distinct (pr_signals r)" "length (pr_signals r) < 4"
  shows "gi_signals (reopened r) = pr_signals r"
  using assms by (auto simp: reopened_def request_defs dedupe_distinct ALL_SIGNALS_def)

text \<open>A request with the fields of a stored row passes the checks of its kind.\<close>

lemma stored_fields_ok:
  assumes "chk_policy_shape r"
    and "pr_kind r = ExpressionKind \<Longrightarrow> ValidateExpr compile (pr_conditions r) = None"
    and "pr_kind r = SystemKind \<or> pr_kind r = IntegrationKind \<Longrightarrow> pr_conditions r \<noteq> None \<Longrightarrow> validateNameOnlyExpr compile (pr_conditions r) = None"
    and "pr_service r \<noteq> Some []" "pr_integration r \<noteq> Some []"
  shows "kind_error compile
     \<lparr>gi_kind = pr_kind r, gi_service = coalesce (pr_service r) [], gi_integration = coalesce (pr_integration r) [],
      gi_system_kind = k, gi_system_id = [], gi_attrs = pr_attrs r, gi_conditions = pr_conditions r, gi_signals = sigs, gi_grant = g\<rparr> = None"
  using assms
  by (cases "pr_kind r"; cases "pr_service r"; cases "pr_integration r"; cases "pr_conditions r")
     (auto simp: kind_error_def chk_policy_shape_def first_broken_def bad_expr_def)

lemma rebuilt_row:
  assumes built: "buildPolicyArgs uuid compile uni i = Inr r" and shape: "chk_policy_shape r" and plain: "plain_row uuid uni r"
    and comp: "pr_kind r = CompoundKind \<longrightarrow> pr_integration r \<noteq> None"
  shows "buildPolicyArgs uuid compile uni (reopened r) =
     Inr (r\<lparr>pr_system_id := None, pr_grant := (pr_kind r = IntegrationKind \<and> pr_grant r)\<rparr>)"
proof -
  note st = stored_row [OF built]
  note fields = reopened_fields [OF plain shape comp] and sg = reopened_signals [OF st(1) st(3)]
  from plain have ne: "pr_service r \<noteq> Some []" "pr_integration r \<noteq> Some []" "pr_system_kind r \<noteq> Some []"
    by (auto simp: plain_row_def)
  have kind: "pr_kind r = SystemKind \<or> coalesce (pr_system_kind r) [] = []"
    using shape by (auto simp: chk_policy_shape_def split: policy_kind.splits)
  have sig: "check_signals uni [] (pr_signals r) = Inr (pr_signals r)" using check_signals_id [of "[]" "pr_signals r"] st by simp
  have len: "length (pr_signals r) \<noteq> length ALL_SIGNALS" using st(3) by (simp add: ALL_SIGNALS_def)
  have target: "parse_target uuid BadIntegrationId (coalesce (pr_integration r) []) = Inr (pr_integration r)"
    using plain by (cases "pr_integration r") (auto simp: parse_target_def plain_row_def)
  have gt: "given_text (coalesce (pr_service r) []) = pr_service r" "given_text (coalesce (pr_system_kind r) []) = pr_system_kind r"
    using ne by (cases "pr_service r"; simp; fail | cases "pr_system_kind r"; simp)+
  have "validatePolicyInput compile uni (reopened r) = Inr ((trimmed_input uni (reopened r)))"
    using sg sig len kind stored_fields_ok [OF shape st(4,5) ne(1,2)]
    by (simp add: validatePolicyInput_def Let_def fields first_broken_def)
  moreover have "row_of (trimmed_input uni (reopened r)) (pr_integration r) None =
      r\<lparr>pr_system_id := None, pr_grant := (pr_kind r = IntegrationKind \<and> pr_grant r)\<rparr>"
    unfolding fields by (rule policy_row.equality) (simp_all add: row_of_def gt sg)
  moreover have "parse_target uuid BadSystemId [] = Inr None" by (simp add: parse_target_def)
  ultimately show ?thesis by (simp add: buildPolicyArgs_def fields target)
qed

text \<open>The states a form goes through.\<close>

definition run_form :: "form_edit list \<Rightarrow> access_policy option \<Rightarrow> policy_form" where
  "run_form edits policy = foldl (\<lambda>f e. form_step e f) (open_policy_form policy) edits"

definition form_ok :: "policy_form \<Rightarrow> bool" where
  "form_ok f \<longleftrightarrow> distinct (pf_signals f) \<and> set (pf_signals f) \<subseteq> set ALL_SIGNALS \<and> distinct (pf_integrations f) \<and> [] \<notin> set (pf_integrations f)"

lemma form_step_ok: "form_ok f \<Longrightarrow> form_ok (form_step e f)"
  by (cases "(e, f)" rule: form_step.cases) (auto simp: form_ok_def tick_def)

lemma run_form_ok:
  assumes "case policy of None \<Rightarrow> True | Some p \<Rightarrow> set (coalesce (ap_signals p) []) \<subseteq> set ALL_SIGNALS"
  shows "form_ok (run_form edits policy)"
proof -
  have "distinct ALL_SIGNALS" by (simp add: ALL_SIGNALS_def)
  then have "form_ok (open_policy_form policy)"
    using assms by (auto simp: form_ok_def open_policy_form_def seed_def Let_def split: option.splits)
  moreover have "form_ok f \<Longrightarrow> form_ok (foldl (\<lambda>f e. form_step e f) f edits)" for f
    by (induction edits arbitrary: f) (auto intro: form_step_ok)
  ultimately show ?thesis by (simp add: run_form_def)
qed

text \<open>What the kind of a policy asks of the form.\<close>

definition target_ok :: "(jstring \<Rightarrow> jstring option) \<Rightarrow> jstring \<Rightarrow> bool" where
  "target_ok uuid s \<longleftrightarrow> s = [] \<or> uuid s \<noteq> None"

definition filled :: "(jstring \<Rightarrow> jstring option) \<Rightarrow> (jstring \<Rightarrow> (jstring \<Rightarrow> bool) option) \<Rightarrow> policy_form \<Rightarrow> bool" where
  "filled uuid compile f \<longleftrightarrow>
     (let service = TrimSpace (trim (pf_service f)); integration = TrimSpace (trim (pf_integration f));
          attrs = request_attrs (pf_pairs f); rule = Some (to_go (pf_expr f)) in
      case pf_kind f of
        ServiceKind \<Rightarrow> service \<noteq> []
      | IntegrationKind \<Rightarrow> (if pf_by_pattern f then validateNameOnlyExpr compile rule = None else integration \<noteq> [] \<and> uuid integration \<noteq> None)
      | AttributesKind \<Rightarrow> attrs \<noteq> []
      | CompoundKind \<Rightarrow> attrs \<noteq> [] \<and> (service \<noteq> [] \<or> integration \<noteq> []) \<and> target_ok uuid integration
      | AllOrg \<Rightarrow> True
      | SystemKind \<Rightarrow> \<not> pf_by_pattern f \<or> validateNameOnlyExpr compile rule = None
      | ExpressionKind \<Rightarrow> ValidateExpr compile rule = None)"

lemma parse_target_ok: "(\<exists>t. parse_target uuid e s = Inr t) \<longleftrightarrow> target_ok uuid s"
  by (auto simp: parse_target_def target_ok_def split: option.splits)

lemma form_signals:
  assumes "form_ok f"
  shows "check_signals uni [] (coalesce (pi_signals (policy_body f)) []) = Inr (if length (pf_signals f) < 4 then pf_signals f else [])"
  using assms check_signals_id [of "[]" "pf_signals f" uni] by (simp add: policy_body_def form_ok_def)


text \<open>The integrations picked for a new policy: the requests that were accepted, one after the other.\<close>

fun accepts_all :: "('s \<Rightarrow> policy_request \<Rightarrow> 's \<times> jstring option) \<Rightarrow> (jstring \<Rightarrow> policy_request) \<Rightarrow> jstring list \<Rightarrow> 's \<Rightarrow> 's option" where
  "accepts_all create b [] s = Some s"
| "accepts_all create b (i # ids) s = (case create s (b i) of (s', None) \<Rightarrow> accepts_all create b ids s' | (s', Some e) \<Rightarrow> None)"

lemma grant_loop_result:
  assumes "distinct (dn @ ids)" "picked = dn @ ids" "run = grant_loop create name picked dn (map (\<lambda>i. (i, b i)) ids) s"
  shows "(gr_error run = None \<longrightarrow> gr_done run = picked \<and> accepts_all create b ids s = Some (gr_server run))
     \<and> (gr_error run \<noteq> None \<longrightarrow> gr_done run @ gr_left run = picked \<and> gr_left run \<noteq> []
          \<and> (\<exists>new t err. gr_done run = dn @ new \<and> accepts_all create b new s = Some t
              \<and> create t (b (hd (gr_left run))) = (gr_server run, Some err)))"
  using assms
proof (induction ids arbitrary: dn s)
  case (Cons i ids)
  show ?case
  proof (cases "create s (b i)")
    case (Pair s' r)
    show ?thesis
    proof (cases r)
      case None
      have "run = grant_loop create name picked (dn @ [i]) (map (\<lambda>i. (i, b i)) ids) s'"
        using Cons.prems(3) Pair None by simp
      note ih = Cons.IH [of "dn @ [i]" s', OF _ _ this]
      show ?thesis
      proof (cases "gr_error run")
        case None
        with ih Cons.prems(1,2) Pair \<open>r = None\<close> show ?thesis by simp
      next
        case (Some e)
        with ih Cons.prems(1,2) obtain new t err where
          "gr_done run @ gr_left run = picked" "gr_left run \<noteq> []" "gr_done run = dn @ (i # new)"
          "accepts_all create b new s' = Some t" "create t (b (hd (gr_left run))) = (gr_server run, Some err)"
          by auto
        with Some Pair \<open>r = None\<close> show ?thesis
          by (intro conjI impI exI [of _ "i # new"] exI [of _ t] exI [of _ err]) simp_all
      qed
    next
      case (Some err)
      have "filter (\<lambda>x. x \<notin> set dn) (dn @ i # ids) = i # ids"
        using Cons.prems(1) by (auto simp: filter_empty_conv filter_id_conv)
      with Cons.prems Pair Some show ?thesis by auto
    qed
  qed
qed simp

text \<open>C32: Granting several integrations at once.  When the server refuses one, exactly those before it have been
  granted, each once and in the order they were picked; they leave the selection, and the refused one is the
  first that is left.  Pressing the button again, whatever happened to the server in between, sends no granted
  integration a second time, and when it succeeds the two runs together granted the whole selection.\<close>

theorem retried_grants_are_not_repeated:
  assumes "form_ok f"
    and "one = grant_loop create name (pf_integrations f) [] (map (\<lambda>i. (i, b i)) (pf_integrations f)) s"
    and "gr_error one \<noteq> None"
    and "two = grant_loop create name (gr_left one) [] (map (\<lambda>i. (i, b i)) (gr_left one)) s2"
  shows "(\<exists>t err. accepts_all create b (gr_done one) s = Some t \<and> create t (b (hd (gr_left one))) = (gr_server one, Some err))
    \<and> gr_done one @ gr_left one = pf_integrations f
    \<and> (if gr_error two = None
       then gr_done one @ gr_done two = pf_integrations f \<and> accepts_all create b (gr_done two) s2 = Some (gr_server two)
       else gr_done one @ gr_done two @ gr_left two = pf_integrations f)"
proof -
  have d: "distinct (pf_integrations f)" using assms(1) by (simp add: form_ok_def)
  note first = grant_loop_result [of "[]" "pf_integrations f", OF _ _ assms(2)]
  with d assms(3) have one: "gr_done one @ gr_left one = pf_integrations f" by simp
  with d have "distinct (gr_left one)" by (metis distinct_append)
  with grant_loop_result [of "[]" "gr_left one", OF _ _ assms(4)]
  have two: "if gr_error two = None then gr_done two = gr_left one \<and> accepts_all create b (gr_left one) s2 = Some (gr_server two)
      else gr_done two @ gr_left two = gr_left one"
    by simp
  with first d assms(3) one show ?thesis by (auto split: if_splits)
qed

section \<open>Instances\<close>

definition one_system :: go_input where
  "one_system = \<lparr>gi_kind = SystemKind, gi_service = [], gi_integration = [], gi_system_kind = [], gi_system_id = js ''u1'',
     gi_attrs = [], gi_conditions = None, gi_signals = [js ''logs''], gi_grant = False\<rparr>"

definition one_system_row :: policy_row where
  "one_system_row = \<lparr>pr_kind = SystemKind, pr_service = None, pr_integration = None, pr_system_kind = None, pr_system_id = Some (js ''u1''),
     pr_attrs = [], pr_conditions = None, pr_signals = [js ''logs''], pr_grant = False\<rparr>"



text \<open>A server that has room for so many grants.\<close>

definition with_room :: "nat \<Rightarrow> policy_request \<Rightarrow> nat \<times> jstring option" where
  "with_room n r = (if n = 0 then (0, Some (js ''full'')) else (n - 1, None))"

lemma retried_grants_are_not_repeated_ex:
  "let f = run_form [SetKind IntegrationKind, PickIntegration (js ''a''), PickIntegration (js ''b'')] None;
       b = (\<lambda>i. (policy_body f)\<lparr>pi_integration := i\<rparr>);
       one = grant_loop with_room id (pf_integrations f) [] (map (\<lambda>i. (i, b i)) (pf_integrations f)) 1 in
   gr_done one @ gr_left one = [js ''a'', js ''b''] \<and> gr_done one = [js ''a'']"
proof -
  define f where "f = run_form [SetKind IntegrationKind, PickIntegration (js ''a''), PickIntegration (js ''b'')] None"
  define b where "b = (\<lambda>i. (policy_body f)\<lparr>pi_integration := i\<rparr>)"
  define one where "one = grant_loop with_room id (pf_integrations f) [] (map (\<lambda>i. (i, b i)) (pf_integrations f)) 1"
  have ok: "form_ok f" unfolding f_def by (rule run_form_ok) simp
  have ids: "pf_integrations f = [js ''a'', js ''b'']" unfolding f_def by code_simp
  have run: "gr_error one \<noteq> None" "gr_done one = [js ''a'']" by (simp_all add: one_def ids with_room_def)
  have "gr_done one @ gr_left one = [js ''a'', js ''b''] \<and> gr_done one = [js ''a'']"
    using retried_grants_are_not_repeated [OF ok one_def run(1) refl, of 0] run(2) by (simp only: ids simp_thms)
  then show ?thesis unfolding one_def b_def f_def Let_def .
qed

end
