(* ===== verification/Maintenance.thy ===== *)
theory Maintenance
  imports Collections JsSort Mirrors
begin

text \<open>
  Maintenance windows: the form that starts or schedules one (\<open>WindowForm\<close> of
  \<open>components/MaintenanceWindows.tsx\<close>), the summary of a series (\<open>lib/maintenanceRecurrence.ts\<close>) and what the
  server does with the requests (\<open>validateWindow\<close>, \<open>normalizeWindowScope\<close>, \<open>validateSchedule\<close>, and \<open>Validate\<close>,
  \<open>Normalized\<close> and \<open>matches\<close> of \<open>maintenance/recurrence.go\<close>).

  Times are milliseconds.  Parameters: \<open>zone_known\<close> (Go's time zone database), \<open>to_iso\<close> (the first sixteen
  characters of \<open>toISOString\<close>, which print the time in UTC) and \<open>from_local\<close> (\<open>new Date\<close> of such a text, which
  reads it in the browser's zone), \<open>members\<close> (the services of a system) and \<open>is_uuid\<close>.
\<close>

section \<open>Recurrences\<close>

datatype frequency = Weekly | Monthly

record recurrence =
  rc_frequency :: frequency
  rc_weekdays :: "int list"
  rc_month_week :: int
  rc_month_weekday :: int
  rc_start_time :: jstring
  rc_duration :: int
  rc_timezone :: jstring
  rc_ends_on :: jstring

text \<open>The request leaves out what the frequency does not use; \<open>omitempty\<close> leaves out zeros on the way back.\<close>

record recurrence_json =
  rj_frequency :: frequency
  rj_weekdays :: "int list option"
  rj_month_week :: "int option"
  rj_month_weekday :: "int option"
  rj_start_time :: jstring
  rj_duration :: int
  rj_timezone :: jstring
  rj_ends_on :: "jstring option"

definition decode_recurrence :: "recurrence_json \<Rightarrow> recurrence" where
  "decode_recurrence j =
     \<lparr>rc_frequency = rj_frequency j, rc_weekdays = coalesce (rj_weekdays j) [], rc_month_week = coalesce (rj_month_week j) 0,
      rc_month_weekday = coalesce (rj_month_weekday j) 0, rc_start_time = rj_start_time j, rc_duration = rj_duration j,
      rc_timezone = rj_timezone j, rc_ends_on = coalesce (rj_ends_on j) []\<rparr>"

definition encode_recurrence :: "recurrence \<Rightarrow> recurrence_json" where
  "encode_recurrence r =
     \<lparr>rj_frequency = rc_frequency r, rj_weekdays = (if rc_weekdays r = [] then None else Some (rc_weekdays r)),
      rj_month_week = (if rc_month_week r = 0 then None else Some (rc_month_week r)),
      rj_month_weekday = (if rc_month_weekday r = 0 then None else Some (rc_month_weekday r)),
      rj_start_time = rc_start_time r, rj_duration = rc_duration r, rj_timezone = rc_timezone r,
      rj_ends_on = (if rc_ends_on r = [] then None else Some (rc_ends_on r))\<rparr>"

section \<open>The server\<close>

text \<open>\<open>time.Parse("15:04", s)\<close>: an hour of one or two digits, a minute of two; and \<open>time.Parse("2006-01-02", s)\<close>.\<close>

definition digits :: "jstring \<Rightarrow> bool" where
  "digits s \<longleftrightarrow> s \<noteq> [] \<and> list_all is_digit s"

definition go_clock :: "jstring \<Rightarrow> (nat \<times> nat) option" where
  "go_clock s =
     (case split_on 58 s of
        [h, m] \<Rightarrow> (if digits h \<and> length h \<le> 2 \<and> digits m \<and> length m = 2 \<and> read_nat h < 24 \<and> read_nat m < 60
                  then Some (read_nat h, read_nat m) else None)
      | _ \<Rightarrow> None)"

definition leap :: "nat \<Rightarrow> bool" where
  "leap y \<longleftrightarrow> y mod 4 = 0 \<and> (y mod 100 \<noteq> 0 \<or> y mod 400 = 0)"

definition days_in_month :: "nat \<Rightarrow> nat \<Rightarrow> nat" where
  "days_in_month y m = (if m = 2 then (if leap y then 29 else 28) else if m \<in> {4, 6, 9, 11} then 30 else 31)"

definition go_date :: "jstring \<Rightarrow> (nat \<times> nat \<times> nat) option" where
  "go_date s =
     (case split_on 45 s of
        [y, m, d] \<Rightarrow>
          (if digits y \<and> length y = 4 \<and> digits m \<and> length m = 2 \<and> digits d \<and> length d = 2
              \<and> 1 \<le> read_nat m \<and> read_nat m \<le> 12 \<and> 1 \<le> read_nat d \<and> read_nat d \<le> days_in_month (read_nat y) (read_nat m)
           then Some (read_nat y, read_nat m, read_nat d) else None)
      | _ \<Rightarrow> None)"

definition MaxWindowMinutes :: int where "MaxWindowMinutes = 7 * 24 * 60"

datatype maintenance_error =
    NoWeekday | WeekdayOutOfRange int | MonthWeekOutOfRange | MonthWeekdayOutOfRange | BadStartTime | BadDuration
  | OccurrenceTooLong | NoTimezone | UnknownTimezone jstring | BadEndDate
  | NoName | NoEnd | EndBeforeStart | WindowTooLong | NoTeam | EmptyScope | NotAdmin

fun first_failed :: "(bool \<times> 'e) list \<Rightarrow> 'e option" where
  "first_failed [] = None"
| "first_failed ((b, e) # rest) = (if b then Some e else first_failed rest)"

definition frequency_error :: "recurrence \<Rightarrow> maintenance_error option" where
  "frequency_error r =
     (case rc_frequency r of
        Weekly \<Rightarrow>
          (if rc_weekdays r = [] then Some NoWeekday
           else map_option WeekdayOutOfRange (find (\<lambda>d. d < 0 \<or> d > 6) (rc_weekdays r)))
      | Monthly \<Rightarrow> first_failed
          [(rc_month_week r \<noteq> -1 \<and> (rc_month_week r < 1 \<or> rc_month_week r > 4), MonthWeekOutOfRange),
           (rc_month_weekday r < 0 \<or> rc_month_weekday r > 6, MonthWeekdayOutOfRange)])"

definition Validate :: "(jstring \<Rightarrow> bool) \<Rightarrow> recurrence \<Rightarrow> maintenance_error option" where
  "Validate zone_known r =
     (case frequency_error r of
        Some e \<Rightarrow> Some e
      | None \<Rightarrow> first_failed
          [(go_clock (rc_start_time r) = None, BadStartTime),
           (rc_duration r \<le> 0, BadDuration),
           (rc_duration r > MaxWindowMinutes, OccurrenceTooLong),
           (rc_timezone r = [], NoTimezone),
           (\<not> zone_known (rc_timezone r), UnknownTimezone (rc_timezone r)),
           (rc_ends_on r \<noteq> [] \<and> go_date (rc_ends_on r) = None, BadEndDate)])"

definition Normalized :: "recurrence \<Rightarrow> recurrence" where
  "Normalized r =
     (case rc_frequency r of
        Weekly \<Rightarrow> r\<lparr>rc_weekdays := sort (dedupe (rc_weekdays r)), rc_month_week := 0, rc_month_weekday := 0\<rparr>
      | Monthly \<Rightarrow> r\<lparr>rc_weekdays := []\<rparr>)"

text \<open>\<open>matches\<close> for the day \<open>d\<close> of a month of \<open>len\<close> days, \<open>wd\<close> its weekday.\<close>

definition matches :: "recurrence \<Rightarrow> int \<Rightarrow> int \<Rightarrow> int \<Rightarrow> bool" where
  "matches r len d wd =
     (case rc_frequency r of
        Weekly \<Rightarrow> wd \<in> set (rc_weekdays r)
      | Monthly \<Rightarrow> rc_month_weekday r = wd
          \<and> (if rc_month_week r = -1 then d + 7 > len else (d - 1) div 7 + 1 = rc_month_week r))"

datatype scope_kind = WholeOrg | Entities | Team

record window_scope =
  sc_kind :: scope_kind
  sc_integrations :: "jstring list"
  sc_systems :: "jstring list"
  sc_services :: "jstring list"
  sc_expanded :: "jstring list"
  sc_group :: "jstring option"

definition normalizeWindowScope :: "(jstring \<Rightarrow> jstring list) \<Rightarrow> window_scope \<Rightarrow> maintenance_error + window_scope" where
  "normalizeWindowScope members s =
     (case sc_kind s of
        WholeOrg \<Rightarrow> Inr \<lparr>sc_kind = WholeOrg, sc_integrations = [], sc_systems = [], sc_services = [], sc_expanded = [], sc_group = None\<rparr>
      | Team \<Rightarrow>
          (if sc_group s = None then Inl NoTeam
           else Inr \<lparr>sc_kind = Team, sc_integrations = [], sc_systems = [], sc_services = [], sc_expanded = [], sc_group = sc_group s\<rparr>)
      | Entities \<Rightarrow>
          (if sc_integrations s = [] \<and> sc_systems s = [] \<and> sc_services s = [] then Inl EmptyScope
           else Inr (s\<lparr>sc_expanded := js_sort unit_compare (dedupe (concat (map members (sc_systems s)))), sc_group := None\<rparr>)))"

record window_request =
  wr_name :: jstring
  wr_reason :: jstring
  wr_ends_at :: int
  wr_scope :: window_scope
  wr_announce :: bool

record schedule_request =
  sr_name :: jstring
  sr_reason :: jstring
  sr_scope :: window_scope
  sr_recurrence :: recurrence_json
  sr_announce :: bool

record window =
  wi_name :: jstring
  wi_reason :: jstring
  wi_starts :: int
  wi_ends :: int
  wi_scope :: window_scope

record schedule =
  sd_name :: jstring
  sd_reason :: jstring
  sd_scope :: window_scope
  sd_recurrence :: recurrence
  sd_announce :: bool

definition validateWindow :: "(jstring \<Rightarrow> jstring list) \<Rightarrow> int \<Rightarrow> window_request \<Rightarrow> maintenance_error + window" where
  "validateWindow members now b =
     (if TrimSpace (wr_name b) = [] then Inl NoName
      else if wr_ends_at b \<le> now then Inl EndBeforeStart
      else if wr_ends_at b - now > MaxWindowMinutes * 60000 then Inl WindowTooLong
      else (case normalizeWindowScope members (wr_scope b) of
        Inl e \<Rightarrow> Inl e
      | Inr s \<Rightarrow> Inr \<lparr>wi_name = TrimSpace (wr_name b), wi_reason = TrimSpace (wr_reason b), wi_starts = now, wi_ends = wr_ends_at b, wi_scope = s\<rparr>))"

definition validateSchedule :: "(jstring \<Rightarrow> bool) \<Rightarrow> (jstring \<Rightarrow> jstring list) \<Rightarrow> schedule_request \<Rightarrow> maintenance_error + schedule" where
  "validateSchedule zone_known members b =
     (if TrimSpace (sr_name b) = [] then Inl NoName
      else (case Validate zone_known (decode_recurrence (sr_recurrence b)) of
        Some e \<Rightarrow> Inl e
      | None \<Rightarrow> (case normalizeWindowScope members (sr_scope b) of
          Inl e \<Rightarrow> Inl e
        | Inr s \<Rightarrow> Inr \<lparr>sd_name = TrimSpace (sr_name b), sd_reason = TrimSpace (sr_reason b), sd_scope = s\<lparr>sc_expanded := []\<rparr>,
             sd_recurrence = Normalized (decode_recurrence (sr_recurrence b)), sd_announce = sr_announce b\<rparr>)))"

section \<open>The summary of a series\<close>

definition WEEKDAYS :: "jstring list" where
  "WEEKDAYS = [js ''Sunday'', js ''Monday'', js ''Tuesday'', js ''Wednesday'', js ''Thursday'', js ''Friday'', js ''Saturday'']"

definition weekday_name :: "int \<Rightarrow> jstring" where
  "weekday_name d = (if 0 \<le> d \<and> d < 7 then WEEKDAYS ! nat d else js ''undefined'')"

definition ordinal :: "int \<Rightarrow> jstring" where
  "ordinal k = (if k = 1 then js ''first'' else if k = 2 then js ''second'' else if k = 3 then js ''third''
     else if k = 4 then js ''fourth'' else if k = -1 then js ''last'' else js ''?'')"

definition formatDurationMinutes :: "int \<Rightarrow> jstring" where
  "formatDurationMinutes n =
     (if n mod (24 * 60) = 0 then
        (let d = n div (24 * 60) in show_int d @ js '' day'' @ (if d = 1 then [] else js ''s''))
      else if n mod 60 = 0 then show_int (n div 60) @ js '' h''
      else if n < 60 then show_int n @ js '' min''
      else show_int (n div 60) @ js '' h '' @ show_int (n mod 60) @ js '' min'')"

definition joinDays :: "jstring list \<Rightarrow> jstring" where
  "joinDays days =
     (if length days \<le> 1 then join [] days
      else join (js '', '') (butlast days) @ js '' and '' @ last days)"

definition series_days :: "recurrence_json \<Rightarrow> jstring" where
  "series_days r =
     (case rj_frequency r of
        Weekly \<Rightarrow>
          (let days = js_sort (cmp_by (\<lambda>d. d)) (coalesce (rj_weekdays r) []) in
           if length days = 7 then js ''Every day'' else js ''Every '' @ joinDays (map weekday_name days))
      | Monthly \<Rightarrow> js ''The '' @ ordinal (coalesce (rj_month_week r) 1) @ js '' '' @ weekday_name (coalesce (rj_month_weekday r) 0)
          @ js '' of each month'')"

definition summarizeRecurrence :: "recurrence_json \<Rightarrow> jstring" where
  "summarizeRecurrence r =
     series_days r @ js '' at '' @ rj_start_time r @ js '' for '' @ formatDurationMinutes (rj_duration r)
       @ js '' ('' @ rj_timezone r @ js '')'' @ (if truthy_str (rj_ends_on r) then js '', until '' @ coalesce (rj_ends_on r) [] else [])"

section \<open>The form\<close>

record window_form =
  wf_name :: jstring
  wf_reason :: jstring
  wf_kind :: scope_kind
  wf_group :: jstring
  wf_integrations :: "jstring list"
  wf_systems :: "jstring list"
  wf_duration :: int
  wf_custom_end :: jstring
  wf_announce :: bool
  wf_repeats :: bool
  wf_frequency :: frequency
  wf_weekdays :: "int list"
  wf_month_week :: int
  wf_month_weekday :: int
  wf_start_time :: jstring
  wf_hours :: rat
  wf_timezone :: jstring
  wf_ends_on :: jstring

definition open_window_form :: "jstring \<Rightarrow> window_form" where
  "open_window_form browserTimezone =
     \<lparr>wf_name = [], wf_reason = [], wf_kind = Entities, wf_group = [], wf_integrations = [], wf_systems = [],
      wf_duration = 4, wf_custom_end = [], wf_announce = False, wf_repeats = False, wf_frequency = Weekly, wf_weekdays = [0],
      wf_month_week = 1, wf_month_weekday = 0, wf_start_time = js ''02:00'', wf_hours = 2, wf_timezone = browserTimezone, wf_ends_on = []\<rparr>"

definition DURATIONS :: "int list" where "DURATIONS = [1, 4, 8, 24]"

datatype window_edit =
    TypeName jstring | TypeReason jstring | PickKind scope_kind | PickTeam jstring | AddIntegration jstring | DropIntegration jstring
  | AddSystem jstring | DropSystem jstring | PickDuration int | PickCustom int | TypeCustom jstring | SetAnnounce bool | SetRepeats bool
  | PickFrequency frequency | TickWeekday int bool | PickMonthWeek int | PickMonthWeekday int | TypeStart jstring | TypeHours rat
  | PickTimezone jstring | TypeEndsOn jstring

definition minute :: int where "minute = 60000"
definition hour :: int where "hour = 60 * minute"

text \<open>\<open>setMinutes(0, 0, 0)\<close> goes back to the full hour of the browser's clock, which is \<open>off\<close> behind UTC.\<close>

definition full_hour :: "int \<Rightarrow> int \<Rightarrow> int" where
  "full_hour off t = t - (t - off) mod hour"

text \<open>
  The controls.  The radio of the whole organisation is disabled for anyone but an administrator, a time or date
  field holds nothing or a complete time or date, and the lists offer what is not picked yet.
\<close>

fun window_step :: "bool \<Rightarrow> (int \<Rightarrow> jstring) \<Rightarrow> int \<Rightarrow> window_edit \<Rightarrow> window_form \<Rightarrow> window_form" where
  "window_step isAdmin to_iso off (TypeName s) f = f\<lparr>wf_name := s\<rparr>"
| "window_step isAdmin to_iso off (TypeReason s) f = f\<lparr>wf_reason := s\<rparr>"
| "window_step isAdmin to_iso off (PickKind k) f =
     (if k = WholeOrg \<and> \<not> isAdmin then f else f\<lparr>wf_kind := k, wf_announce := (k = WholeOrg)\<rparr>)"
| "window_step isAdmin to_iso off (PickTeam g) f = f\<lparr>wf_group := g\<rparr>"
| "window_step isAdmin to_iso off (AddIntegration i) f =
     (if i = [] \<or> i \<in> set (wf_integrations f) then f else f\<lparr>wf_integrations := wf_integrations f @ [i]\<rparr>)"
| "window_step isAdmin to_iso off (DropIntegration i) f = f\<lparr>wf_integrations := filter (\<lambda>x. x \<noteq> i) (wf_integrations f)\<rparr>"
| "window_step isAdmin to_iso off (AddSystem i) f =
     (if i = [] \<or> i \<in> set (wf_systems f) then f else f\<lparr>wf_systems := wf_systems f @ [i]\<rparr>)"
| "window_step isAdmin to_iso off (DropSystem i) f = f\<lparr>wf_systems := filter (\<lambda>x. x \<noteq> i) (wf_systems f)\<rparr>"
| "window_step isAdmin to_iso off (PickDuration h) f =
     (if h \<in> set DURATIONS then f\<lparr>wf_custom_end := [], wf_duration := h\<rparr> else f)"
| "window_step isAdmin to_iso off (PickCustom now) f = f\<lparr>wf_custom_end := to_iso (full_hour off (now + 4 * hour))\<rparr>"
| "window_step isAdmin to_iso off (TypeCustom s) f = f\<lparr>wf_custom_end := s\<rparr>"
| "window_step isAdmin to_iso off (SetAnnounce b) f = f\<lparr>wf_announce := b\<rparr>"
| "window_step isAdmin to_iso off (SetRepeats b) f = f\<lparr>wf_repeats := b\<rparr>"
| "window_step isAdmin to_iso off (PickFrequency q) f = f\<lparr>wf_frequency := q\<rparr>"
| "window_step isAdmin to_iso off (TickWeekday d on) f =
     (if 0 \<le> d \<and> d \<le> 6 \<and> on \<noteq> (d \<in> set (wf_weekdays f))
      then f\<lparr>wf_weekdays := if on then wf_weekdays f @ [d] else filter (\<lambda>x. x \<noteq> d) (wf_weekdays f)\<rparr> else f)"
| "window_step isAdmin to_iso off (PickMonthWeek k) f = (if k \<in> {1, 2, 3, 4, -1} then f\<lparr>wf_month_week := k\<rparr> else f)"
| "window_step isAdmin to_iso off (PickMonthWeekday d) f = (if 0 \<le> d \<and> d \<le> 6 then f\<lparr>wf_month_weekday := d\<rparr> else f)"
| "window_step isAdmin to_iso off (TypeStart s) f = (if s = [] \<or> go_clock s \<noteq> None then f\<lparr>wf_start_time := s\<rparr> else f)"
| "window_step isAdmin to_iso off (TypeHours h) f = f\<lparr>wf_hours := h\<rparr>"
| "window_step isAdmin to_iso off (PickTimezone z) f = f\<lparr>wf_timezone := z\<rparr>"
| "window_step isAdmin to_iso off (TypeEndsOn s) f = (if s = [] \<or> go_date s \<noteq> None then f\<lparr>wf_ends_on := s\<rparr> else f)"

definition run_window_form :: "bool \<Rightarrow> (int \<Rightarrow> jstring) \<Rightarrow> int \<Rightarrow> jstring \<Rightarrow> window_edit list \<Rightarrow> window_form" where
  "run_window_form isAdmin to_iso off browserTimezone edits =
     foldl (\<lambda>f e. window_step isAdmin to_iso off e f) (open_window_form browserTimezone) edits"

definition scopeReady :: "window_form \<Rightarrow> bool" where
  "scopeReady f \<longleftrightarrow> wf_kind f = WholeOrg \<or> (wf_kind f = Team \<and> wf_group f \<noteq> [])
     \<or> (wf_kind f = Entities \<and> (wf_integrations f \<noteq> [] \<or> wf_systems f \<noteq> []))"

definition repeatReady :: "window_form \<Rightarrow> bool" where
  "repeatReady f \<longleftrightarrow> \<not> wf_repeats f \<or>
     ((wf_frequency f = Monthly \<or> wf_weekdays f \<noteq> []) \<and> wf_start_time f \<noteq> [] \<and> wf_hours f > 0 \<and> wf_hours f \<le> 7 * 24
       \<and> trim (wf_timezone f) \<noteq> [])"

text \<open>What the browser itself checks before it submits: the bounds and the step of the number field.\<close>

definition fields_valid :: "window_form \<Rightarrow> bool" where
  "fields_valid f \<longleftrightarrow> wf_repeats f \<longrightarrow> 1 / 4 \<le> wf_hours f \<and> wf_hours f \<le> 168 \<and> of_int \<lfloor>4 * wf_hours f\<rfloor> = 4 * wf_hours f"

definition can_submit :: "window_form \<Rightarrow> bool" where
  "can_submit f \<longleftrightarrow> trim (wf_name f) \<noteq> [] \<and> scopeReady f \<and> repeatReady f \<and> fields_valid f"

definition form_scope :: "window_form \<Rightarrow> window_scope" where
  "form_scope f =
     \<lparr>sc_kind = wf_kind f, sc_integrations = (if wf_kind f = Entities then wf_integrations f else []),
      sc_systems = (if wf_kind f = Entities then wf_systems f else []), sc_services = [], sc_expanded = [],
      sc_group = (if wf_kind f = Team then Some (wf_group f) else None)\<rparr>"

definition form_recurrence :: "window_form \<Rightarrow> recurrence_json" where
  "form_recurrence f =
     \<lparr>rj_frequency = wf_frequency f,
      rj_weekdays = (if wf_frequency f = Weekly then Some (wf_weekdays f) else None),
      rj_month_week = (if wf_frequency f = Weekly then None else Some (wf_month_week f)),
      rj_month_weekday = (if wf_frequency f = Weekly then None else Some (wf_month_weekday f)),
      rj_start_time = wf_start_time f, rj_duration = \<lfloor>wf_hours f * 60 + 1 / 2\<rfloor>, rj_timezone = trim (wf_timezone f),
      rj_ends_on = (if wf_ends_on f = [] then None else Some (wf_ends_on f))\<rparr>"

datatype window_submission = StartWindow window_request | CreateSchedule schedule_request | InvalidTime

definition submit_window :: "(jstring \<Rightarrow> int option) \<Rightarrow> int \<Rightarrow> window_form \<Rightarrow> window_submission" where
  "submit_window from_local now f =
     (if wf_repeats f then
        CreateSchedule \<lparr>sr_name = trim (wf_name f), sr_reason = trim (wf_reason f), sr_scope = form_scope f,
          sr_recurrence = form_recurrence f, sr_announce = wf_announce f\<rparr>
      else (case (if wf_custom_end f \<noteq> [] then from_local (wf_custom_end f) else Some (now + wf_duration f * hour)) of
        None \<Rightarrow> InvalidTime
      | Some t \<Rightarrow> StartWindow \<lparr>wr_name = trim (wf_name f), wr_reason = trim (wf_reason f), wr_ends_at = t,
          wr_scope = form_scope f, wr_announce = wf_announce f\<rparr>))"

section \<open>Lemmas\<close>

definition window_form_ok :: "window_form \<Rightarrow> bool" where
  "window_form_ok f \<longleftrightarrow> distinct (wf_weekdays f) \<and> set (wf_weekdays f) \<subseteq> {0..6} \<and> wf_month_week f \<in> {1, 2, 3, 4, -1}
     \<and> 0 \<le> wf_month_weekday f \<and> wf_month_weekday f \<le> 6 \<and> (wf_start_time f = [] \<or> go_clock (wf_start_time f) \<noteq> None)
     \<and> (wf_ends_on f = [] \<or> go_date (wf_ends_on f) \<noteq> None) \<and> wf_duration f \<in> set DURATIONS"

lemma window_step_ok: "window_form_ok f \<Longrightarrow> window_form_ok (window_step isAdmin to_iso off e f)"
  by (cases "(isAdmin, to_iso, off, e, f)" rule: window_step.cases) (auto simp: window_form_ok_def)

lemma two_o_clock: "go_clock (js ''02:00'') \<noteq> None"
  by code_simp

lemma run_window_form_ok: "window_form_ok (run_window_form isAdmin to_iso off tz edits)"
proof -
  have "window_form_ok (open_window_form tz)"
    using two_o_clock by (simp add: window_form_ok_def open_window_form_def DURATIONS_def)
  moreover have "window_form_ok f \<Longrightarrow> window_form_ok (foldl (\<lambda>f e. window_step isAdmin to_iso off e f) f edits)" for f
    by (induction edits arbitrary: f) (auto intro: window_step_ok)
  ultimately show ?thesis by (simp add: run_window_form_def)
qed

lemma form_scope_ok:
  "scopeReady f \<Longrightarrow> \<exists>s. normalizeWindowScope members (form_scope f) = Inr s"
  by (cases "wf_kind f") (auto simp: scopeReady_def normalizeWindowScope_def form_scope_def)

text \<open>A quarter of an hour is fifteen minutes, so that rounding is exact.\<close>

lemma quarter_hours:
  fixes h :: rat
  assumes "of_int \<lfloor>4 * h\<rfloor> = 4 * h" "1 / 4 \<le> h" "h \<le> 168"
  shows "\<lfloor>h * 60 + 1 / 2\<rfloor> = 15 * \<lfloor>4 * h\<rfloor>" "1 \<le> \<lfloor>4 * h\<rfloor>" "\<lfloor>4 * h\<rfloor> \<le> 672"
proof -
  obtain k where k: "4 * h = of_int k" using assms(1) by metis
  then have f: "\<lfloor>4 * h\<rfloor> = k" by simp
  from k have "h * 60 + 1 / 2 = of_int (15 * k) + 1 / 2" by simp
  then show "\<lfloor>h * 60 + 1 / 2\<rfloor> = 15 * \<lfloor>4 * h\<rfloor>" by (simp add: f floor_eq_iff)
  show "1 \<le> \<lfloor>4 * h\<rfloor>" using assms(2) by (simp add: le_floor_iff)
  show "\<lfloor>4 * h\<rfloor> \<le> 672" using assms(3) by (simp add: floor_le_iff)
qed

lemma form_recurrence_valid:
  assumes "window_form_ok f" "repeatReady f" "fields_valid f" "wf_repeats f" "zone_known (trim (wf_timezone f))"
  shows "Validate zone_known (decode_recurrence (form_recurrence f)) = None"
proof -
  have days: "find (\<lambda>d. d < 0 \<or> d > 6) (wf_weekdays f) = None"
    using assms(1) by (auto simp: find_None_iff window_form_ok_def)
  have freq: "frequency_error (decode_recurrence (form_recurrence f)) = None"
    using assms(1,2,4) days
    by (cases "wf_frequency f")
       (auto simp: frequency_error_def decode_recurrence_def form_recurrence_def window_form_ok_def repeatReady_def)
  have h: "of_int \<lfloor>4 * wf_hours f\<rfloor> = 4 * wf_hours f" "1 / 4 \<le> wf_hours f" "wf_hours f \<le> 168"
    using assms(3,4) by (simp_all add: fields_valid_def)
  note q = quarter_hours [OF h]
  have tz: "trim (wf_timezone f) \<noteq> []" and st: "go_clock (wf_start_time f) \<noteq> None"
    and eo: "wf_ends_on f = [] \<or> go_date (wf_ends_on f) \<noteq> None"
    using assms(1,2,4) by (auto simp: repeatReady_def window_form_ok_def)
  show ?thesis
    unfolding Validate_def freq
    using q(2,3) tz st eo assms(5)
    by (auto simp: decode_recurrence_def form_recurrence_def q(1) MaxWindowMinutes_def)
qed

section \<open>What the form describes\<close>

text \<open>The days of a month that begins on the weekday \<open>first\<close>; the n-th of its weekday has n - 1 before it, the last
  has none after it.\<close>

definition weekday_of :: "int \<Rightarrow> int \<Rightarrow> int" where
  "weekday_of first d = (first + d - 1) mod 7"

definition nth_of_its_weekday :: "int \<Rightarrow> int \<Rightarrow> int \<Rightarrow> int \<Rightarrow> bool" where
  "nth_of_its_weekday first len k d \<longleftrightarrow>
     (if k = -1 then filter (\<lambda>e. weekday_of first e = weekday_of first d) [d + 1..len] = []
      else int (length (filter (\<lambda>e. weekday_of first e = weekday_of first d) [1..d - 1])) = k - 1)"

definition described_day :: "window_form \<Rightarrow> int \<Rightarrow> int \<Rightarrow> int \<Rightarrow> bool" where
  "described_day f first len d \<longleftrightarrow>
     (case wf_frequency f of
        Weekly \<Rightarrow> weekday_of first d \<in> set (wf_weekdays f)
      | Monthly \<Rightarrow> weekday_of first d = wf_month_weekday f \<and> nth_of_its_weekday first len (wf_month_week f) d)"

definition described_days :: "window_form \<Rightarrow> jstring" where
  "described_days f =
     (case wf_frequency f of
        Weekly \<Rightarrow>
          (if set (wf_weekdays f) = {0..6} then js ''Every day''
           else js ''Every '' @ joinDays (map weekday_name (filter (\<lambda>d. d \<in> set (wf_weekdays f)) [0..6])))
      | Monthly \<Rightarrow> js ''The '' @ ordinal (wf_month_week f) @ js '' '' @ weekday_name (wf_month_weekday f) @ js '' of each month'')"

lemma same_weekday: "weekday_of first e = weekday_of first d \<longleftrightarrow> 7 dvd (e - d)"
proof -
  have "first + e - 1 - (first + d - 1) = e - d" by simp
  then show ?thesis by (simp add: weekday_of_def mod_eq_dvd_iff)
qed

lemma no_same_weekday_near:
  "d - 7 < a \<Longrightarrow> b < d \<Longrightarrow> filter (\<lambda>e. weekday_of first e = weekday_of first d) [a..b] = []"
  "d < a \<Longrightarrow> b < d + 7 \<Longrightarrow> filter (\<lambda>e. weekday_of first e = weekday_of first d) [a..b] = []"
proof -
  have far: "\<bar>e - d\<bar> \<ge> 7" if "7 dvd (e - d)" "e \<noteq> d" for e
    using that dvd_imp_le_int [of "e - d" 7] by simp
  show "d - 7 < a \<Longrightarrow> b < d \<Longrightarrow> filter (\<lambda>e. weekday_of first e = weekday_of first d) [a..b] = []"
    using far by (fastforce simp: filter_empty_conv same_weekday)
  show "d < a \<Longrightarrow> b < d + 7 \<Longrightarrow> filter (\<lambda>e. weekday_of first e = weekday_of first d) [a..b] = []"
    using far by (fastforce simp: filter_empty_conv same_weekday)
qed

lemma earlier_same_weekday:
  "1 \<le> d \<Longrightarrow> int (length (filter (\<lambda>e. weekday_of first e = weekday_of first d) [1..d - 1])) = (d - 1) div 7"
proof (induction "nat d" arbitrary: d rule: less_induct)
  case less
  show ?case
  proof (cases "d \<le> 7")
    case True
    with less(2) show ?thesis by (simp add: no_same_weekday_near div_pos_pos_trivial)
  next
    case False
    then have split: "[1..d - 1] = [1..d - 7 - 1] @ (d - 7) # [d - 6..d - 1]"
      using upto_split1 [of 1 "d - 7" "d - 1"] upto_rec1 [of "d - 7" "d - 1"] by simp
    have shift: "weekday_of first e = weekday_of first d \<longleftrightarrow> weekday_of first e = weekday_of first (d - 7)" for e
      using same_weekday [of first "d - 7" d] by simp
    have "int (length (filter (\<lambda>e. weekday_of first e = weekday_of first d) [1..d - 7 - 1])) = (d - 7 - 1) div 7"
      unfolding shift using False by (intro less(1)) auto
    moreover have "weekday_of first (d - 7) = weekday_of first d" by (simp add: same_weekday)
    moreover have "(d - 7 - 1) div 7 + 1 = (d - 1) div 7" by presburger
    ultimately show ?thesis unfolding split by (simp add: no_same_weekday_near)
  qed
qed

lemma later_same_weekday:
  "filter (\<lambda>e. weekday_of first e = weekday_of first d) [d + 1..len] = [] \<longleftrightarrow> len < d + 7"
proof (cases "len < d + 7")
  case False
  then have "d + 7 \<in> set [d + 1..len]" "weekday_of first (d + 7) = weekday_of first d" by (simp_all add: same_weekday)
  with False show ?thesis by (auto simp: filter_empty_conv simp del: set_upto)
qed (simp add: no_same_weekday_near)

lemma matches_described:
  assumes "1 \<le> d" "r = decode_recurrence (form_recurrence f)"
  shows "matches (Normalized r) len d (weekday_of first d) \<longleftrightarrow> described_day f first len d"
proof (cases "wf_frequency f")
  case Monthly
  have "(d - 1) div 7 + 1 = k \<longleftrightarrow> int (length (filter (\<lambda>e. weekday_of first e = weekday_of first d) [1..d - 1])) = k - 1" for k
    using earlier_same_weekday [OF assms(1), of first] by auto
  with Monthly show ?thesis
    by (auto simp: assms(2) matches_def Normalized_def described_day_def decode_recurrence_def form_recurrence_def
        nth_of_its_weekday_def later_same_weekday)
qed (auto simp: assms(2) matches_def Normalized_def described_day_def decode_recurrence_def form_recurrence_def)

lemma sorted_days:
  assumes "distinct ds" "set ds \<subseteq> {0..6}"
  shows "sort ds = filter (\<lambda>d. d \<in> set ds) [0..6::int]"
  using assms by (intro sorted_distinct_set_unique) (auto simp: sorted_wrt_filter)

lemma summary_described:
  assumes "window_form_ok f" "wf_frequency f = Weekly \<longrightarrow> wf_weekdays f \<noteq> []" "r = decode_recurrence (form_recurrence f)"
  shows "series_days (encode_recurrence (Normalized r)) = described_days f"
proof (cases "wf_frequency f")
  case Weekly
  have d: "distinct (wf_weekdays f)" "set (wf_weekdays f) \<subseteq> {0..6}" using assms(1) by (simp_all add: window_form_ok_def)
  define days where "days = filter (\<lambda>d. d \<in> set (wf_weekdays f)) [0..6::int]"
  have sorted: "sort (dedupe (wf_weekdays f)) = days"
    unfolding days_def using sorted_days [OF d] by (simp only: dedupe_distinct [OF d(1)])
  have "sorted days" by (metis sorted sorted_sort)
  then have same: "js_sort (cmp_by (\<lambda>d. d)) days = days"
    by (intro js_sort_id [OF js_comparator_by]) (simp add: cmp_by_def)
  have len: "length days = length (wf_weekdays f)" by (metis sorted length_sort dedupe_distinct d(1))
  with Weekly assms(2) have ne: "days \<noteq> []" by auto
  have seven: "card {0..6::int} = 7" by simp
  have all: "length (wf_weekdays f) = 7 \<longleftrightarrow> set (wf_weekdays f) = {0..6}"
    unfolding distinct_card [OF d(1), symmetric] seven [symmetric]
    using d(2) card_subset_eq [OF finite_atLeastAtMost_int] by metis
  have r: "encode_recurrence (Normalized r) = encode_recurrence (r\<lparr>rc_weekdays := days, rc_month_week := 0, rc_month_weekday := 0\<rparr>)"
    by (simp add: assms(3) Weekly Normalized_def decode_recurrence_def form_recurrence_def sorted)
  have "series_days (encode_recurrence (Normalized r))
      = (if length days = 7 then js ''Every day'' else js ''Every '' @ joinDays (map weekday_name days))"
    unfolding r using ne by (simp add: assms(3) series_days_def encode_recurrence_def decode_recurrence_def form_recurrence_def Weekly same)
  then show ?thesis unfolding described_days_def days_def [symmetric] len all by (simp add: Weekly)
next
  case Monthly
  with assms(1) show ?thesis
    by (auto simp: assms(3) series_days_def encode_recurrence_def Normalized_def decode_recurrence_def form_recurrence_def
        described_days_def window_form_ok_def)
qed
section \<open>Properties\<close>

text \<open>C33: A series that the form lets through is accepted as soon as the server knows its time zone and its name is not
  blank for Go either, and it takes place on exactly the days the form describes: weekly on the ticked weekdays,
  monthly on the one day of a month that has n - 1 days of the picked weekday before it, or none after it for
  "last".  The summary read back from the stored series names those days: the ticked weekdays in the order of the
  week, or the ordinal and the weekday.\<close>

theorem series_takes_place_as_described:
  assumes "f = run_window_form isAdmin to_iso off tz edits" "wf_repeats f" "can_submit f"
    and "TrimSpace (trim (wf_name f)) \<noteq> []" "zone_known (trim (wf_timezone f))"
  shows "\<exists>b s. submit_window from_local now f = CreateSchedule b \<and> validateSchedule zone_known members b = Inr s
    \<and> (\<forall>first len d. 1 \<le> d \<longrightarrow> matches (sd_recurrence s) len d (weekday_of first d) = described_day f first len d)
    \<and> series_days (encode_recurrence (sd_recurrence s)) = described_days f"
proof -
  have ok: "window_form_ok f" using run_window_form_ok assms(1) by simp
  from assms(3) have ready: "scopeReady f" "repeatReady f" "fields_valid f" by (simp_all add: can_submit_def)
  let ?r = "decode_recurrence (form_recurrence f)"
  obtain sc where scope: "normalizeWindowScope members (form_scope f) = Inr sc" using form_scope_ok [OF ready(1)] by blast
  obtain b where b: "submit_window from_local now f = CreateSchedule b" "sr_name b = trim (wf_name f)" "sr_scope b = form_scope f"
    "sr_recurrence b = form_recurrence f"
    using assms(2) by (simp add: submit_window_def)
  have valid: "Validate zone_known ?r = None"
    by (rule form_recurrence_valid) (use ok ready assms(2,5) in simp_all)
  then obtain s where s: "validateSchedule zone_known members b = Inr s" "sd_recurrence s = Normalized ?r"
    by (simp add: validateSchedule_def b assms(4) scope)
  have days: "wf_frequency f = Weekly \<longrightarrow> wf_weekdays f \<noteq> []" using ready(2) assms(2) by (auto simp: repeatReady_def)
  show ?thesis
    using b(1) s matches_described summary_described [OF ok days] by auto
qed

text \<open>The browser's clock: in a zone \<open>off\<close> behind UTC a text printed in UTC and read as local time is \<open>off\<close> later.\<close>

definition zone_behind :: "(int \<Rightarrow> jstring) \<Rightarrow> (jstring \<Rightarrow> int option) \<Rightarrow> int \<Rightarrow> bool" where
  "zone_behind to_iso from_local off \<longleftrightarrow> off mod minute = 0
     \<and> (\<forall>t. to_iso t \<noteq> [] \<and> (t mod minute = 0 \<longrightarrow> from_local (to_iso t) = Some (t + off)))"

lemma full_hour_minutes: "off mod minute = 0 \<Longrightarrow> full_hour off t mod minute = 0"
proof -
  assume off: "off mod minute = 0"
  have "full_hour off t = off + hour * ((t - off) div hour)"
    unfolding full_hour_def by (simp add: minus_mod_eq_mult_div [symmetric])
  then show ?thesis using off by (simp add: hour_def mult.assoc mod_add_left_eq [symmetric])
qed

lemma full_hour_bounds: "full_hour off t \<le> t" "t - hour < full_hour off t"
  using pos_mod_bound [of hour "t - off"] pos_mod_sign [of hour "t - off"]
  by (simp_all add: full_hour_def hour_def minute_def)

text \<open>C34: When a window that starts now ends.  With one of the offered durations it ends that much later, and the
  server accepts it for as long as that time has not passed.  With "Until a specific time" the form offers the
  full hour some four hours ahead, but prints it in UTC and reads it back as local time: the window ends by the
  whole offset of the zone too early or too late, and in a zone four hours or more ahead of UTC the offered time
  has passed already and the server refuses it.\<close>

theorem end_of_a_window_that_starts_now:
  assumes "f = run_window_form isAdmin to_iso off tz edits" "\<not> wf_repeats f" "can_submit f" "TrimSpace (trim (wf_name f)) \<noteq> []"
    and "zone_behind to_iso from_local off"
  shows "(wf_custom_end f = [] \<longrightarrow>
       (\<exists>b. submit_window from_local now f = StartWindow b \<and> wr_ends_at b = now + wf_duration f * hour
         \<and> (\<forall>server. now \<le> server \<and> server < wr_ends_at b \<longrightarrow> (\<exists>w. validateWindow members server b = Inr w \<and> wi_ends w = wr_ends_at b))))
    \<and> (\<exists>b. submit_window from_local now (window_step isAdmin to_iso off (PickCustom now) f) = StartWindow b
         \<and> wr_ends_at b = full_hour off (now + 4 * hour) + off
         \<and> (off \<le> - 4 * hour \<longrightarrow> validateWindow members now b = Inl EndBeforeStart))"
proof -
  have ok: "window_form_ok f" using run_window_form_ok assms(1) by simp
  from assms(3) have ready: "scopeReady f" by (simp add: can_submit_def)
  obtain sc where scope: "normalizeWindowScope members (form_scope f) = Inr sc" using form_scope_ok [OF ready] by blast
  have h: "wf_duration f * hour \<le> MaxWindowMinutes * 60000"
    using ok by (auto simp: window_form_ok_def DURATIONS_def hour_def minute_def MaxWindowMinutes_def)
  let ?g = "window_step isAdmin to_iso off (PickCustom now) f"
  have g: "wf_custom_end ?g = to_iso (full_hour off (now + 4 * hour))" "wf_name ?g = wf_name f" "\<not> wf_repeats ?g"
    using assms(2) by simp_all
  have read: "to_iso t \<noteq> []" "t mod minute = 0 \<Longrightarrow> from_local (to_iso t) = Some (t + off)" for t
    using assms(5) by (simp_all add: zone_behind_def)
  have "off mod minute = 0" using assms(5) by (simp add: zone_behind_def)
  then have offered: "from_local (wf_custom_end ?g) = Some (full_hour off (now + 4 * hour) + off)"
    unfolding g(1) by (intro read(2) full_hour_minutes)
  show ?thesis
  proof (intro conjI impI)
    assume "wf_custom_end f = []"
    then obtain b where b: "submit_window from_local now f = StartWindow b" "wr_ends_at b = now + wf_duration f * hour"
      "wr_name b = trim (wf_name f)" "wr_scope b = form_scope f"
      using assms(2) by (simp add: submit_window_def)
    with h scope assms(4) show "\<exists>b. submit_window from_local now f = StartWindow b \<and> wr_ends_at b = now + wf_duration f * hour
         \<and> (\<forall>server. now \<le> server \<and> server < wr_ends_at b \<longrightarrow> (\<exists>w. validateWindow members server b = Inr w \<and> wi_ends w = wr_ends_at b))"
      by (intro exI [of _ b]) (auto simp: validateWindow_def)
  next
    from offered g read(1) obtain b where b: "submit_window from_local now ?g = StartWindow b"
      "wr_ends_at b = full_hour off (now + 4 * hour) + off" "wr_name b = trim (wf_name f)"
      by (auto simp: submit_window_def)
    moreover have "validateWindow members now b = Inl EndBeforeStart" if "off \<le> - 4 * hour"
      using that b full_hour_bounds(1) [of off "now + 4 * hour"] assms(4) by (simp add: validateWindow_def)
    ultimately show "\<exists>b. submit_window from_local now ?g = StartWindow b \<and> wr_ends_at b = full_hour off (now + 4 * hour) + off
         \<and> (off \<le> - 4 * hour \<longrightarrow> validateWindow members now b = Inl EndBeforeStart)"
      by blast
  qed
qed

section \<open>Instances\<close>

definition monthly_edits :: "window_edit list" where
  "monthly_edits = [TypeName (js ''patch night''), AddIntegration (js ''i1''), SetRepeats True, PickFrequency Monthly, PickMonthWeek 2, PickMonthWeekday 2]"

lemma series_takes_place_as_described_ex:
  "\<exists>b s. submit_window (\<lambda>t. None) 0 (run_window_form False (\<lambda>t. []) 0 (js ''UTC'') monthly_edits) = CreateSchedule b
     \<and> validateSchedule (\<lambda>z. True) (\<lambda>s. []) b = Inr s
     \<and> matches (sd_recurrence s) 31 14 2 \<and> \<not> matches (sd_recurrence s) 31 7 2
     \<and> series_days (encode_recurrence (sd_recurrence s)) = js ''The second Tuesday of each month''"
proof -
  let ?f = "run_window_form False (\<lambda>t. []) 0 (js ''UTC'') monthly_edits"
  have f: "wf_repeats ?f" "can_submit ?f" "TrimSpace (trim (wf_name ?f)) \<noteq> []" by code_simp+
  from series_takes_place_as_described [OF refl f, of "\<lambda>z. True" "\<lambda>t. None" 0 "\<lambda>s. []"]
  obtain b s where bs: "submit_window (\<lambda>t. None) 0 ?f = CreateSchedule b" "validateSchedule (\<lambda>z. True) (\<lambda>s. []) b = Inr s"
    "\<forall>first len d. 1 \<le> d \<longrightarrow> matches (sd_recurrence s) len d (weekday_of first d) = described_day ?f first len d"
    "series_days (encode_recurrence (sd_recurrence s)) = described_days ?f" by auto
  have "described_day ?f 3 31 14" "\<not> described_day ?f 3 31 7" by code_simp+
  moreover have "weekday_of 3 14 = 2" "weekday_of 3 7 = 2" by code_simp+
  moreover have "described_days ?f = js ''The second Tuesday of each month''" by code_simp
  ultimately show ?thesis using bs(1,2,4) bs(3) [rule_format, of 14 31 3] bs(3) [rule_format, of 7 31 3] by auto
qed

text \<open>A clock that prints and reads minutes, two hours ahead of UTC.\<close>

definition minutes_text :: "int \<Rightarrow> jstring" where
  "minutes_text t = (if t div minute < 0 then 45 # show_nat (nat (- (t div minute))) else show_nat (nat (t div minute)))"

definition minutes_read :: "int \<Rightarrow> jstring \<Rightarrow> int option" where
  "minutes_read off s = (case s of [] \<Rightarrow> None
     | c # cs \<Rightarrow> Some ((if c = 45 then - int (read_nat cs) else int (read_nat s)) * minute + off))"

lemma minutes_zone: "off mod minute = 0 \<Longrightarrow> zone_behind minutes_text (minutes_read off) off"
proof -
  assume off: "off mod minute = 0"
  have nodash: "hd (show_nat n) \<noteq> 45" for n
    using show_nat_digits [of "hd (show_nat n)" n] by (auto simp: is_digit_def)
  have "minutes_read off (minutes_text t) = Some (t + off)" if "t mod minute = 0" for t
  proof -
    have t: "t div minute * minute = t" using that by (metis add.right_neutral div_mult_mod_eq)
    show ?thesis
    proof (cases "t div minute < 0")
      case True
      then show ?thesis using t by (simp add: minutes_text_def minutes_read_def)
    next
      case False
      obtain c cs where digits: "show_nat (nat (t div minute)) = c # cs" by (cases "show_nat (nat (t div minute))") auto
      with nodash [of "nat (t div minute)"] have "c \<noteq> 45" by simp
      moreover have "read_nat (c # cs) = nat (t div minute)" using digits read_show_nat [of "nat (t div minute)"] by simp
      ultimately show ?thesis using t digits False by (simp add: minutes_text_def minutes_read_def)
    qed
  qed
  moreover have "minutes_text t \<noteq> []" for t by (simp add: minutes_text_def)
  ultimately show ?thesis using off by (simp add: zone_behind_def)
qed

lemma end_of_a_window_that_starts_now_ex:
  "\<exists>b. submit_window (minutes_read (- 5 * hour)) 0
       (window_step False minutes_text (- 5 * hour) (PickCustom 0)
         (run_window_form False minutes_text (- 5 * hour) (js ''Asia/Karachi'') [TypeName (js ''release''), AddSystem (js ''s1'')])) = StartWindow b
     \<and> validateWindow (\<lambda>s. []) 0 b = Inl EndBeforeStart"
proof -
  let ?f = "run_window_form False minutes_text (- 5 * hour) (js ''Asia/Karachi'') [TypeName (js ''release''), AddSystem (js ''s1'')]"
  have f: "\<not> wf_repeats ?f" "can_submit ?f" "TrimSpace (trim (wf_name ?f)) \<noteq> []" by code_simp+
  have zone: "zone_behind minutes_text (minutes_read (- 5 * hour)) (- 5 * hour)"
    by (rule minutes_zone) (simp add: hour_def minute_def)
  have "- 5 * hour \<le> - 4 * hour" by (simp add: hour_def minute_def)
  with end_of_a_window_that_starts_now [OF refl f zone, of 0 "\<lambda>s. []"] show ?thesis by blast
qed

end
