(* ===== verification/ListFilters.thy ===== *)
theory ListFilters
  imports Query Tables Mirrors
begin

text \<open>
  The lists of integrations and of services: the filter rows (\<open>components/integrations/IntegrationFilterBar.tsx\<close>),
  the filters, tags, facet, status and grouping the two pages keep in the address (\<open>pages/Integrations.tsx\<close>,
  \<open>pages/Services.tsx\<close>), the rows they show, the values their pickers offer and their groups.

  Parameters: \<open>uni\<close> (case conversion outside ASCII), \<open>num\<close> (\<open>Number\<close> of a text, \<open>None\<close> for NaN), \<open>str\<close>
  (\<open>String\<close> of a number), \<open>coll\<close> (\<open>localeCompare\<close>) and \<open>uid\<close> of a new row.
\<close>

section \<open>Filter rows\<close>

datatype filter_operator =
    FContains | FEquals | FIsEmpty | FIsSet | FIsTrue | FIsFalse | FIs | FEq | FGt | FLt
  | FUnknown jstring

definition operator_names :: "(filter_operator \<times> jstring) list" where
  "operator_names =
     [(FEquals, js ''equals''), (FContains, js ''contains''), (FIsEmpty, js ''is_empty''), (FIsSet, js ''is_set''),
      (FIsTrue, js ''is_true''), (FIsFalse, js ''is_false''), (FIs, js ''is''), (FEq, js ''eq''), (FGt, js ''gt''), (FLt, js ''lt'')]"

text \<open>An operator is a text in the code; a link may carry one the program does not know.\<close>

fun list_op_name :: "filter_operator \<Rightarrow> jstring" where
  "list_op_name (FUnknown s) = s"
| "list_op_name f = coalesce (map_of operator_names f) []"

definition operator_of :: "jstring \<Rightarrow> filter_operator" where
  "operator_of s = (case find (\<lambda>p. snd p = s) operator_names of Some p \<Rightarrow> fst p | None \<Rightarrow> FUnknown s)"

record list_filter =
  lf_id :: jstring
  lf_field :: jstring
  lf_op :: filter_operator
  lf_value :: jstring

datatype field_kind = KText | KBoolean | KNumber | KSelect | KStatus

record field_spec =
  fd_field :: jstring
  fd_label :: jstring
  fd_kind :: field_kind
  fd_options :: "jstring list option"

record metadata_field =
  mf_key :: jstring
  mf_label :: jstring
  mf_kind :: field_kind
  mf_options :: "jstring list option"

definition STATUS_OPTIONS :: "jstring list" where
  "STATUS_OPTIONS = [js ''ok'', js ''errors'', js ''unhealthy'', js ''quiet'']"

definition static_field :: "string \<Rightarrow> string \<Rightarrow> field_spec" where
  "static_field field label = \<lparr>fd_field = js field, fd_label = js label, fd_kind = KText, fd_options = None\<rparr>"

definition status_field :: field_spec where
  "status_field = \<lparr>fd_field = js ''status'', fd_label = js ''Status'', fd_kind = KStatus, fd_options = Some STATUS_OPTIONS\<rparr>"

definition DEFAULT_STATIC_FIELDS :: "field_spec list" where
  "DEFAULT_STATIC_FIELDS =
     [static_field ''name'' ''Name'', static_field ''description'' ''Description'', static_field ''slug'' ''Slug'', status_field]"

definition SERVICE_STATIC_FIELDS :: "field_spec list" where
  "SERVICE_STATIC_FIELDS =
     [static_field ''name'' ''Name'', static_field ''namespace'' ''Namespace'', status_field, static_field ''system_kind'' ''System'']"

fun opsFor :: "field_kind \<Rightarrow> filter_operator list" where
  "opsFor KText = [FContains, FEquals, FIsSet, FIsEmpty]"
| "opsFor KSelect = [FContains, FEquals, FIsSet, FIsEmpty]"
| "opsFor KBoolean = [FIsTrue, FIsFalse]"
| "opsFor KNumber = [FEq, FGt, FLt, FIsSet, FIsEmpty]"
| "opsFor KStatus = [FIs]"

definition opNeedsValue :: "filter_operator \<Rightarrow> bool" where
  "opNeedsValue op \<longleftrightarrow> op \<notin> {FIsTrue, FIsFalse, FIsSet, FIsEmpty}"

definition meta_prefix :: jstring where
  "meta_prefix = js ''meta:''"

definition fieldSpecs :: "field_spec list \<Rightarrow> metadata_field list \<Rightarrow> field_spec list" where
  "fieldSpecs static metas =
     static @ map (\<lambda>f. \<lparr>fd_field = meta_prefix @ mf_key f, fd_label = mf_label f, fd_kind = mf_kind f, fd_options = mf_options f\<rparr>) metas"

definition byField :: "field_spec list \<Rightarrow> jstring \<Rightarrow> field_spec option" where
  "byField specs field = map_of (map_of_entries fd_field (\<lambda>s. s) specs) field"

text \<open>The handlers of the bar; \<open>'i\<close> is how an edit names its row, in the code by its id.\<close>

datatype 'i bar_edit =
    AddRow jstring
  | PickField 'i jstring
  | PickOp 'i filter_operator
  | TypeValue 'i jstring
  | RemoveRow 'i
  | ClearRows

definition update_row :: "jstring \<Rightarrow> (list_filter \<Rightarrow> list_filter) \<Rightarrow> list_filter list \<Rightarrow> list_filter list" where
  "update_row i patch fs = map (\<lambda>f. if lf_id f = i then patch f else f) fs"

fun bar_step :: "field_spec list \<Rightarrow> jstring bar_edit \<Rightarrow> list_filter list \<Rightarrow> list_filter list" where
  "bar_step specs (AddRow uid) fs =
     fs @ [\<lparr>lf_id = uid, lf_field = fd_field (hd specs), lf_op = hd (opsFor (fd_kind (hd specs))), lf_value = []\<rparr>]"
| "bar_step specs (PickField i field) fs =
     (let op = (case byField specs field of Some s \<Rightarrow> hd (opsFor (fd_kind s)) | None \<Rightarrow> FContains)
      in update_row i (\<lambda>f. f\<lparr>lf_field := field, lf_op := op, lf_value := []\<rparr>) fs)"
| "bar_step specs (PickOp i op) fs = update_row i (\<lambda>f. f\<lparr>lf_op := op\<rparr>) fs"
| "bar_step specs (TypeValue i v) fs = update_row i (\<lambda>f. f\<lparr>lf_value := v\<rparr>) fs"
| "bar_step specs (RemoveRow i) fs = filter (\<lambda>f. lf_id f \<noteq> i) fs"
| "bar_step specs ClearRows fs = []"

text \<open>How a row's value is entered: a list to pick from, or a field for a number or a text.\<close>

datatype value_entry = PickFrom "jstring list" | NumberField | TextField

definition ValueInput :: "field_spec \<Rightarrow> filter_operator \<Rightarrow> jstring list \<Rightarrow> value_entry" where
  "ValueInput spec op knownValues =
     (if fd_kind spec = KStatus then PickFrom (coalesce (fd_options spec) STATUS_OPTIONS)
      else if fd_kind spec = KSelect \<and> coalesce (fd_options spec) [] \<noteq> [] then PickFrom (coalesce (fd_options spec) [])
      else if fd_kind spec = KText \<and> op = FEquals \<and> knownValues \<noteq> [] then PickFrom knownValues
      else if fd_kind spec = KNumber then NumberField
      else TextField)"

text \<open>The value of a cell: text, a number or nothing.\<close>

datatype cell = CText jstring | CNumber rat | CNull

fun cell_text :: "(rat \<Rightarrow> jstring) \<Rightarrow> cell \<Rightarrow> jstring" where
  "cell_text str (CText s) = s"
| "cell_text str (CNumber x) = str x"
| "cell_text str CNull = []"

fun cell_number :: "(jstring \<Rightarrow> jnum) \<Rightarrow> cell \<Rightarrow> jnum" where
  "cell_number num (CText s) = num s"
| "cell_number num (CNumber x) = Some x"
| "cell_number num CNull = Some 0"

fun operator_holds :: "filter_operator \<Rightarrow> jstring \<Rightarrow> jstring \<Rightarrow> jnum \<Rightarrow> jnum \<Rightarrow> bool" where
  "operator_holds FContains s v x y = str_includes s v"
| "operator_holds FEquals s v x y = (s = v)"
| "operator_holds FIs s v x y = (s = v)"
| "operator_holds FIsSet s v x y = (s \<noteq> [])"
| "operator_holds FIsEmpty s v x y = (s = [])"
| "operator_holds FIsTrue s v x y = (s = js ''true'')"
| "operator_holds FIsFalse s v x y = (s = js ''false'')"
| "operator_holds FEq s v x y = (x \<noteq> None \<and> x = y)"
| "operator_holds FGt s v x y = jlt y x"
| "operator_holds FLt s v x y = jlt x y"
| "operator_holds (FUnknown _) s v x y = False"

definition matchesFilter ::
  "(jstring \<Rightarrow> jstring) \<Rightarrow> (rat \<Rightarrow> jstring) \<Rightarrow> (jstring \<Rightarrow> jnum) \<Rightarrow> list_filter \<Rightarrow> cell \<Rightarrow> bool" where
  "matchesFilter uni str num f c =
     operator_holds (lf_op f) (to_lower uni (cell_text str c)) (to_lower uni (lf_value f)) (cell_number num c) (num (lf_value f))"

section \<open>Filters in the address\<close>

text \<open>\<open>encodeURIComponent\<close> throws on a lone surrogate and \<open>decodeURIComponent\<close> on a malformed escape: \<open>None\<close>.\<close>

fun all_some :: "'a option list \<Rightarrow> 'a list option" where
  "all_some [] = Some []"
| "all_some (None # xs) = None"
| "all_some (Some x # xs) = map_option (\<lambda>ys. x # ys) (all_some xs)"

definition filter_chunk :: "list_filter \<Rightarrow> jstring option" where
  "filter_chunk f = map_option (\<lambda>v. lf_field f @ [124] @ list_op_name (lf_op f) @ [124] @ v) (encodeURIComponent (lf_value f))"

definition serializeFilters :: "list_filter list \<Rightarrow> jstring option" where
  "serializeFilters fs = map_option (join [44]) (all_some (map filter_chunk fs))"

definition row_id :: "nat \<Rightarrow> jstring \<Rightarrow> jstring \<Rightarrow> jstring" where
  "row_id idx field op = show_nat idx @ [124] @ field @ [124] @ op"

text \<open>A chunk with no separator is dropped; \<open>Some None\<close> is such a chunk.\<close>

definition parse_row_chunk :: "nat \<Rightarrow> jstring \<Rightarrow> list_filter option option" where
  "parse_row_chunk idx chunk =
     (case split_on 124 chunk of
        field # op # rest \<Rightarrow>
          map_option (\<lambda>v. Some \<lparr>lf_id = row_id idx field op, lf_field = field, lf_op = operator_of op, lf_value = v\<rparr>)
            (decodeURIComponent (join [124] rest))
      | _ \<Rightarrow> Some None)"

definition parseFilters :: "jstring option \<Rightarrow> list_filter list option" where
  "parseFilters raw =
     (if truthy_str raw
      then map_option (\<lambda>xs. map the (filter (\<lambda>x. x \<noteq> None) xs))
             (all_some (map (\<lambda>(i, c). parse_row_chunk i c) (enumerate 0 (split_on 44 (coalesce raw [])))))
      else Some [])"


section \<open>The address\<close>

text \<open>
  Both pages keep their filters in the query of the address, and a handler writes a new address from the
  parameters of the old one.  \<open>setSearchParams\<close> and \<open>useSearchParams\<close> are the text form of \<open>URLSearchParams\<close>.
\<close>

definition put_or_delete :: "jstring \<Rightarrow> jstring \<Rightarrow> params \<Rightarrow> params" where
  "put_or_delete k v ps = (if v \<noteq> [] then params_set ps k v else params_delete ps k)"

definition activeSlugs :: "params \<Rightarrow> jstring list" where
  "activeSlugs ps =
     (let raw = (case params_get ps (js ''tags'') of Some t \<Rightarrow> Some t | None \<Rightarrow> params_get ps (js ''tag'')) in
      if truthy_str raw then filter (\<lambda>s. s \<noteq> []) (map trim (split_on 44 (coalesce raw []))) else [])"

definition setActiveSlugs :: "jstring list \<Rightarrow> params \<Rightarrow> params" where
  "setActiveSlugs next ps =
     (let ps' = params_delete ps (js ''tag'') in
      if next = [] then params_delete ps' (js ''tags'') else params_set ps' (js ''tags'') (join [44] next))"

definition toggled :: "'a \<Rightarrow> 'a list \<Rightarrow> 'a list" where
  "toggled x xs = (if x \<in> set xs then filter (\<lambda>y. y \<noteq> x) xs else xs @ [x])"

definition setFilters :: "list_filter list \<Rightarrow> params \<Rightarrow> params option" where
  "setFilters next ps = map_option (\<lambda>enc. put_or_delete (js ''filter'') enc ps) (serializeFilters next)"

definition groupKeys :: "jstring list \<Rightarrow> params \<Rightarrow> jstring list" where
  "groupKeys known ps =
     take 2 (filter (\<lambda>k. k \<in> set known)
       (filter (\<lambda>k. k \<noteq> []) (split_on 44 (coalesce (params_get ps (js ''group'')) []))))"

definition setGroupKeys :: "jstring list \<Rightarrow> params \<Rightarrow> params" where
  "setGroupKeys keys ps =
     (let clean = filter (\<lambda>k. k \<noteq> []) keys in
      if clean \<noteq> [] then params_set ps (js ''group'') (join [44] clean) else params_delete ps (js ''group''))"

text \<open>The two pickers of the integrations page.\<close>

definition firstGroup :: "jstring \<Rightarrow> jstring list \<Rightarrow> jstring list" where
  "firstGroup k groups =
     (if k \<noteq> [] then k # (case groups of _ # g1 # _ \<Rightarrow> (if g1 \<noteq> [] \<and> g1 \<noteq> k then [g1] else []) | _ \<Rightarrow> []) else [])"

definition secondGroup :: "jstring \<Rightarrow> jstring list \<Rightarrow> jstring list" where
  "secondGroup k groups = (if k \<noteq> [] then [hd groups, k] else [hd groups])"

definition plain_param :: "string \<Rightarrow> params \<Rightarrow> jstring" where
  "plain_param k ps = coalesce (params_get ps (js k)) []"

text \<open>The controls of the two pages.\<close>

datatype 'i list_edit =
    EditFilters "'i bar_edit"
  | ToggleSlug jstring
  | ClearSlugs
  | PickFacet jstring
  | ClearStatus
  | PickFirstGroup jstring
  | PickSecondGroup jstring
  | PickGroup jstring
  | PickDep jstring

fun list_step :: "field_spec list \<Rightarrow> jstring list \<Rightarrow> jstring list_edit \<Rightarrow> params \<Rightarrow> params option" where
  "list_step specs known (EditFilters e) ps =
     Option.bind (parseFilters (params_get ps (js ''filter''))) (\<lambda>fs. setFilters (bar_step specs e fs) ps)"
| "list_step specs known (ToggleSlug s) ps = Some (setActiveSlugs (toggled s (activeSlugs ps)) ps)"
| "list_step specs known ClearSlugs ps = Some (setActiveSlugs [] ps)"
| "list_step specs known (PickFacet s) ps = Some (put_or_delete (js ''facet'') s ps)"
| "list_step specs known ClearStatus ps = Some (params_delete ps (js ''status''))"
| "list_step specs known (PickFirstGroup k) ps = Some (setGroupKeys (firstGroup k (groupKeys known ps)) ps)"
| "list_step specs known (PickSecondGroup k) ps = Some (setGroupKeys (secondGroup k (groupKeys known ps)) ps)"
| "list_step specs known (PickGroup g) ps = Some (put_or_delete (js ''group'') g ps)"
| "list_step specs known (PickDep d) ps = Some (put_or_delete (js ''dep'') d ps)"

definition address_step :: "(jstring \<Rightarrow> jstring) \<Rightarrow> field_spec list \<Rightarrow> jstring list \<Rightarrow> jstring list_edit \<Rightarrow> jstring \<Rightarrow> jstring option" where
  "address_step lenient specs known e address = map_option to_query (list_step specs known e (parse_query lenient address))"

section \<open>The rows shown\<close>

record list_tag =
  lt_id :: jstring
  lt_slug :: jstring
  lt_name :: jstring

record integration_item =
  ii_id :: jstring
  ii_name :: jstring
  ii_slug :: jstring
  ii_description :: "jstring option"
  ii_status :: "jstring option"
  ii_facets :: "jstring list option"
  ii_tags :: "list_tag list option"
  ii_metadata :: "(jstring \<times> jstring) list option"
  ii_traces :: "nat option"
  ii_errors :: "nat option"

record service_item =
  si_name :: jstring
  si_namespace :: "jstring option"
  si_status :: "jstring option"
  si_system_kind :: "jstring option"
  si_tags :: "list_tag list option"
  si_integrations :: "jstring list option"
  si_metadata :: "(jstring \<times> jstring) list option"
  si_traces :: nat
  si_upstream :: "nat option"
  si_downstream :: "nat option"

definition metadata_value :: "(jstring \<times> jstring) list option \<Rightarrow> jstring \<Rightarrow> jstring" where
  "metadata_value m key = coalesce (Option.bind m (\<lambda>kvs. map_of kvs key)) []"

definition integrationCell :: "integration_item \<Rightarrow> jstring \<Rightarrow> jstring" where
  "integrationCell i field =
     (if field = js ''name'' then ii_name i
      else if field = js ''description'' then coalesce (ii_description i) []
      else if field = js ''slug'' then ii_slug i
      else if field = js ''status'' then coalesce (ii_status i) []
      else if starts_with field meta_prefix then metadata_value (ii_metadata i) (drop 5 field)
      else [])"

definition serviceCell :: "service_item \<Rightarrow> jstring \<Rightarrow> jstring" where
  "serviceCell s field =
     (if field = js ''name'' then si_name s
      else if field = js ''namespace'' then coalesce (si_namespace s) []
      else if field = js ''status'' then coalesce (si_status s) []
      else if field = js ''system_kind'' then coalesce (si_system_kind s) []
      else if starts_with field meta_prefix then metadata_value (si_metadata s) (drop 5 field)
      else [])"

definition activeTagIds :: "list_tag list \<Rightarrow> jstring list \<Rightarrow> jstring list" where
  "activeTagIds allTags slugs = dedupe (map lt_id (filter (\<lambda>t. lt_slug t \<in> set slugs) allTags))"

definition carries_all :: "jstring list \<Rightarrow> list_tag list option \<Rightarrow> bool" where
  "carries_all need tags \<longleftrightarrow> list_all (\<lambda>i. i \<in> lt_id ` set (coalesce tags [])) need"

definition status_hit :: "jstring \<Rightarrow> jstring \<Rightarrow> bool" where
  "status_hit statusFilter s \<longleftrightarrow>
     (if statusFilter = js ''unhealthy'' then s = js ''unhealthy'' \<or> s = js ''errors'' else s = statusFilter)"

definition integrationVisible ::
  "(jstring \<Rightarrow> jstring) \<Rightarrow> (jstring \<Rightarrow> jnum) \<Rightarrow> jstring list \<Rightarrow> list_filter list \<Rightarrow> jstring \<Rightarrow> jstring \<Rightarrow> integration_item \<Rightarrow> bool" where
  "integrationVisible uni num need filters statusFilter facetFilter i \<longleftrightarrow>
     (statusFilter \<noteq> [] \<longrightarrow> status_hit statusFilter (coalesce (ii_status i) []))
     \<and> (facetFilter \<noteq> [] \<longrightarrow> facetFilter \<in> set (coalesce (ii_facets i) []))
     \<and> carries_all need (ii_tags i)
     \<and> list_all (\<lambda>f. matchesFilter uni (\<lambda>x. []) num f (CText (integrationCell i (lf_field f)))) filters"

definition visibleItems ::
  "(jstring \<Rightarrow> jstring) \<Rightarrow> (jstring \<Rightarrow> jnum) \<Rightarrow> list_tag list \<Rightarrow> params \<Rightarrow> integration_item list \<Rightarrow> integration_item list option" where
  "visibleItems uni num allTags ps items =
     map_option (\<lambda>fs. filter (integrationVisible uni num (activeTagIds allTags (activeSlugs ps)) fs
         (plain_param ''status'' ps) (plain_param ''facet'' ps)) items)
       (parseFilters (params_get ps (js ''filter'')))"

text \<open>The dependency filter waits for an answer that carries the degrees.\<close>

definition depMatches :: "jstring \<Rightarrow> bool \<Rightarrow> service_item \<Rightarrow> bool" where
  "depMatches dep depsLoaded s =
     (if dep = [] then True
      else if \<not> depsLoaded then True
      else if si_traces s = 0 then False
      else (let up = coalesce (si_upstream s) 0; down = coalesce (si_downstream s) 0 in
        if dep = js ''has-upstream'' then up > 0
        else if dep = js ''has-downstream'' then down > 0
        else if dep = js ''has-any'' then up > 0 \<or> down > 0
        else if dep = js ''no-upstream'' then up = 0
        else if dep = js ''no-downstream'' then down = 0
        else if dep = js ''isolated'' then up = 0 \<and> down = 0
        else True))"

definition visibleServices ::
  "(jstring \<Rightarrow> jstring) \<Rightarrow> (jstring \<Rightarrow> jnum) \<Rightarrow> list_tag list \<Rightarrow> bool \<Rightarrow> params \<Rightarrow> service_item list \<Rightarrow> service_item list option" where
  "visibleServices uni num allTags depsLoaded ps services =
     map_option (\<lambda>fs. filter (\<lambda>s. carries_all (activeTagIds allTags (activeSlugs ps)) (si_tags s)
         \<and> list_all (\<lambda>f. matchesFilter uni (\<lambda>x. []) num f (CText (serviceCell s (lf_field f)))) fs
         \<and> depMatches (plain_param ''dep'' ps) depsLoaded s) services)
       (parseFilters (params_get ps (js ''filter'')))"

section \<open>The values offered\<close>

text \<open>\<open>push\<close> for every value of every row, one set per field; a set is the list of its values.\<close>

definition push_value :: "(jstring \<times> jstring list) list \<Rightarrow> jstring \<times> jstring \<Rightarrow> (jstring \<times> jstring list) list" where
  "push_value sets p =
     (let v = trim (snd p); cur = coalesce (map_of sets (fst p)) [] in
      if v = [] then sets
      else AList.update (fst p) (if v \<in> set cur then cur else cur @ [v]) sets)"

definition metadata_pushes :: "(jstring \<times> jstring) list option \<Rightarrow> (jstring \<times> jstring) list" where
  "metadata_pushes m = map (\<lambda>(k, v). (meta_prefix @ k, v)) (coalesce m [])"

definition integrationPushes :: "integration_item \<Rightarrow> (jstring \<times> jstring) list" where
  "integrationPushes i =
     [(js ''name'', ii_name i)]
     @ (if truthy_str (ii_description i) then [(js ''description'', coalesce (ii_description i) [])] else [])
     @ (if ii_slug i \<noteq> [] then [(js ''slug'', ii_slug i)] else [])
     @ metadata_pushes (ii_metadata i)"

definition servicePushes :: "service_item \<Rightarrow> (jstring \<times> jstring) list" where
  "servicePushes s =
     [(js ''name'', si_name s)]
     @ (if truthy_str (si_namespace s) then [(js ''namespace'', coalesce (si_namespace s) [])] else [])
     @ metadata_pushes (si_metadata s)"

definition distinctValues ::
  "(jstring \<Rightarrow> jstring \<Rightarrow> int) \<Rightarrow> ('r \<Rightarrow> (jstring \<times> jstring) list) \<Rightarrow> 'r list \<Rightarrow> (jstring \<times> jstring list) list" where
  "distinctValues coll pushes rows =
     map (\<lambda>(field, vs). (field, js_sort coll vs)) (foldl push_value [] (concat (map pushes rows)))"

section \<open>Groups\<close>

datatype igroup = IGroup
  (ig_value: jstring) (ig_rows: "integration_item list") (ig_traces: nat) (ig_errors: nat) (ig_children: "igroup list option")

definition group_compare :: "(jstring \<Rightarrow> jstring \<Rightarrow> int) \<Rightarrow> igroup \<Rightarrow> igroup \<Rightarrow> int" where
  "group_compare coll =
     cmp_then (cmp_desc (\<lambda>g. int (ig_traces g)))
       (cmp_then (cmp_by (\<lambda>g. if ig_value g = [] then 1 else 0)) (cmp_on ig_value coll))"

fun build_groups :: "(jstring \<Rightarrow> jstring \<Rightarrow> int) \<Rightarrow> jstring list \<Rightarrow> integration_item list \<Rightarrow> igroup list" where
  "build_groups coll [] rows = []"
| "build_groups coll (k # ks) rows =
     js_sort (group_compare coll)
       (map (\<lambda>(v, rws). IGroup v rws (sum_list (map (\<lambda>x. coalesce (ii_traces x) 0) rws)) (sum_list (map (\<lambda>x. coalesce (ii_errors x) 0) rws))
            (if ks \<noteq> [] then Some (build_groups coll ks rws) else None))
         (group_by (\<lambda>r. metadata_value (ii_metadata r) k) rows))"

datatype render_entry = GroupHeader nat jstring igroup | ItemRow integration_item

definition renderEntries :: "(jstring \<Rightarrow> jstring \<Rightarrow> int) \<Rightarrow> jstring list \<Rightarrow> integration_item list \<Rightarrow> render_entry list" where
  "renderEntries coll groups rows =
     (if groups = [] then map ItemRow rows
      else concat (map (\<lambda>g. GroupHeader 0 (groups ! 0) g #
        (case ig_children g of
           Some cs \<Rightarrow> concat (map (\<lambda>c. GroupHeader 1 (groups ! 1) c # map ItemRow (ig_rows c)) cs)
         | None \<Rightarrow> map ItemRow (ig_rows g))) (build_groups coll groups rows)))"

definition UNGROUPED :: jstring where
  "UNGROUPED = emdash # js '' none '' @ [emdash]"

definition groupKeysFor :: "service_item \<Rightarrow> jstring \<Rightarrow> jstring list" where
  "groupKeysFor s by =
     (if by = js ''integration'' then coalesce (si_integrations s) []
      else if by = js ''namespace'' then (if truthy_str (si_namespace s) then [coalesce (si_namespace s) []] else [])
      else if by = js ''status'' then [coalesce (si_status s) []]
      else if by = js ''tag'' then map lt_name (coalesce (si_tags s) [])
      else if starts_with by meta_prefix then
        (let v = metadata_value (si_metadata s) (drop 5 by) in if v \<noteq> [] then [v] else [])
      else [])"

definition labels_of :: "jstring \<Rightarrow> service_item \<Rightarrow> jstring list" where
  "labels_of by s = (if groupKeysFor s by \<noteq> [] then groupKeysFor s by else [UNGROUPED])"

definition label_compare :: "(jstring \<Rightarrow> jstring \<Rightarrow> int) \<Rightarrow> jstring \<times> 'a \<Rightarrow> jstring \<times> 'a \<Rightarrow> int" where
  "label_compare coll a b = (if fst a = UNGROUPED then 1 else if fst b = UNGROUPED then -1 else coll (fst a) (fst b))"

definition groupedServices :: "(jstring \<Rightarrow> jstring \<Rightarrow> int) \<Rightarrow> jstring \<Rightarrow> service_item list \<Rightarrow> (jstring \<times> service_item list) list" where
  "groupedServices coll by rows =
     js_sort (label_compare coll)
       (map (\<lambda>(l, ps). (l, map snd ps)) (group_by fst (concat (map (\<lambda>s. map (\<lambda>l. (l, s)) (labels_of by s)) rows))))"


section \<open>Well-formed text\<close>

lemma well_formed_append: "well_formed a \<Longrightarrow> well_formed b \<Longrightarrow> well_formed (a @ b)"
proof -
  have "code_points (a @ b) \<noteq> None" if "code_points a \<noteq> None" "code_points b \<noteq> None"
    using that(1)
  proof (induction a rule: code_points.induct)
    case (2 u us)
    then show ?case by (cases us) (auto split: if_splits)
  qed (use that(2) in simp)
  then show "well_formed a \<Longrightarrow> well_formed b \<Longrightarrow> well_formed (a @ b)" by (auto simp: well_formed_def)
qed

lemma well_formed_join: "\<forall>s \<in> set xs. well_formed s \<Longrightarrow> well_formed (join [44] xs)"
proof (induction xs)
  case (Cons x xs)
  have "well_formed [44]" by (rule well_formed_ascii) simp
  with Cons show ?case by (cases xs) (auto intro: well_formed_append [of x "44 # _", unfolded append_Cons] well_formed_append [of "[44]", simplified])
qed (simp add: well_formed_def)

definition clean_params :: "params \<Rightarrow> bool" where
  "clean_params ps \<longleftrightarrow> list_all (\<lambda>p. well_formed (fst p) \<and> well_formed (snd p)) ps"

lemma clean_params_delete: "clean_params ps \<Longrightarrow> clean_params (params_delete ps k)"
  by (auto simp: clean_params_def params_delete_def list_all_iff)

lemma set_params_set: "set (params_set ps k v) \<subseteq> insert (k, v) (set ps)"
  by (induction ps) (auto simp: params_delete_def)

lemma clean_params_set: "clean_params ps \<Longrightarrow> well_formed k \<Longrightarrow> well_formed v \<Longrightarrow> clean_params (params_set ps k v)"
  using set_params_set [of ps k v] by (auto simp: clean_params_def list_all_iff)

definition list_params :: "jstring list" where
  "list_params = map js [''filter'', ''tags'', ''tag'', ''facet'', ''status'', ''group'', ''dep'']"

lemma well_formed_list_params: "list_all well_formed list_params"
  by code_simp

lemma well_formed_keys [simp]:
  "well_formed (js ''filter'')" "well_formed (js ''tags'')" "well_formed (js ''facet'')" "well_formed (js ''group'')" "well_formed (js ''dep'')"
  using well_formed_list_params by (simp_all add: list_params_def)

section \<open>Rows in the address\<close>

definition bare_row :: "list_filter \<Rightarrow> jstring \<times> filter_operator \<times> jstring" where
  "bare_row f = (lf_field f, lf_op f, lf_value f)"

definition name_ok :: "jstring \<Rightarrow> bool" where
  "name_ok s \<longleftrightarrow> well_formed s \<and> 44 \<notin> set s \<and> 124 \<notin> set s"

fun row_ok :: "jstring \<times> filter_operator \<times> jstring \<Rightarrow> bool" where
  "row_ok (field, op, v) \<longleftrightarrow> name_ok field \<and> name_ok (list_op_name op) \<and> operator_of (list_op_name op) = op \<and> well_formed v"

definition known_operators :: "filter_operator list" where
  "known_operators = map fst operator_names"

lemma known_operator_names:
  "list_all (\<lambda>op. operator_of (list_op_name op) = op \<and> list_all (\<lambda>c. c < 128 \<and> c \<noteq> 44 \<and> c \<noteq> 124) (list_op_name op)) known_operators"
  by code_simp

lemma opsFor_known: "op \<in> set (opsFor kind) \<Longrightarrow> op \<in> set known_operators"
  by (cases kind) (auto simp: known_operators_def operator_names_def)

lemma operators_ok_known:
  assumes "op \<in> set known_operators"
  shows "row_ok (field, op, v) \<longleftrightarrow> name_ok field \<and> well_formed v"
proof -
  have "operator_of (list_op_name op) = op" "list_all (\<lambda>c. c < 128 \<and> c \<noteq> 44 \<and> c \<noteq> 124) (list_op_name op)"
    using known_operator_names assms by (simp_all add: list_all_iff)
  moreover from this(2) have "name_ok (list_op_name op)"
    unfolding name_ok_def by (auto simp: list_all_iff intro!: well_formed_ascii)
  ultimately show ?thesis by simp
qed

lemma opsFor_nonempty [simp]: "opsFor kind \<noteq> []"
  by (cases kind) auto

lemma hd_operator_ok: "row_ok (field, hd (opsFor kind), v) \<longleftrightarrow> name_ok field \<and> well_formed v"
  by (rule operators_ok_known [OF opsFor_known [OF list.set_sel(1)]]) simp

lemma all_some_map: "(\<And>x. x \<in> set xs \<Longrightarrow> f x = Some (g x)) \<Longrightarrow> all_some (map f xs) = Some (map g xs)"
  by (induction xs) auto

lemma all_some_iff: "all_some xs = Some ys \<longleftrightarrow> xs = map Some ys"
proof (induction xs arbitrary: ys)
  case (Cons x xs)
  then show ?case by (cases x; cases ys) auto
qed auto

lemma encode_well_formed:
  assumes "well_formed v"
  obtains e where "encodeURIComponent v = Some e" "decodeURIComponent e = Some v" "\<forall>c \<in> set e. escaped_unit c"
proof -
  obtain e where e: "encodeURIComponent v = Some e"
    using assms by (auto simp: well_formed_def encodeURIComponent_def)
  then show ?thesis
    using that decode_encode [OF e] encode_units [OF e] assms by (auto simp: well_formed_def)
qed

lemma escaped_not_bar: "escaped_unit c \<Longrightarrow> c \<noteq> 124 \<and> c \<noteq> 44 \<and> c < 0x80"
  by (auto simp: escaped_unit_def unreserved_def is_digit_def is_lower_def is_upper_def js_def)

lemma filter_chunk_parses:
  assumes "row_ok (bare_row f)"
  obtains c where "filter_chunk f = Some c" "44 \<notin> set c" "c \<noteq> []" "well_formed c"
    "\<And>i. parse_row_chunk i c = Some (Some (f\<lparr>lf_id := row_id i (lf_field f) (list_op_name (lf_op f))\<rparr>))"
proof -
  obtain e where e: "encodeURIComponent (lf_value f) = Some e" "decodeURIComponent e = Some (lf_value f)" "\<forall>c \<in> set e. escaped_unit c"
    using assms by (auto simp: bare_row_def elim: encode_well_formed)
  let ?c = "lf_field f @ 124 # list_op_name (lf_op f) @ 124 # e"
  have n: "124 \<notin> set (lf_field f)" "124 \<notin> set (list_op_name (lf_op f))" "124 \<notin> set e" "44 \<notin> set e"
    using assms e(3) escaped_not_bar by (auto simp: bare_row_def name_ok_def)
  then have split: "split_on 124 ?c = [lf_field f, list_op_name (lf_op f), e]"
    by (simp add: split_on_append split_on_no_sep)
  show ?thesis
  proof
    show "filter_chunk f = Some ?c" by (simp add: filter_chunk_def e)
    show "44 \<notin> set ?c" using assms n(4) by (auto simp: bare_row_def name_ok_def)
    have "well_formed [124]" "well_formed e"
      using e(3) escaped_not_bar by (auto intro!: well_formed_ascii simp: list_all_iff)
    with assms have "well_formed (lf_field f @ [124] @ list_op_name (lf_op f) @ [124] @ e)"
      by (intro well_formed_append) (simp_all add: bare_row_def name_ok_def)
    then show "well_formed ?c" by simp
    show "parse_row_chunk i ?c = Some (Some (f\<lparr>lf_id := row_id i (lf_field f) (list_op_name (lf_op f))\<rparr>))" for i
      using assms unfolding parse_row_chunk_def split by (simp add: e(2) bare_row_def)
  qed simp
qed

lemma chunks_parse:
  assumes "list_all (\<lambda>f. row_ok (bare_row f)) fs"
  obtains cs where "map filter_chunk fs = map Some cs" "\<forall>c \<in> set cs. 44 \<notin> set c \<and> c \<noteq> [] \<and> well_formed c" "length cs = length fs"
    "\<And>n. \<exists>fs'. all_some (map (\<lambda>(i, c). parse_row_chunk i c) (enumerate n cs)) = Some (map Some fs') \<and> map bare_row fs' = map bare_row fs"
  using assms
proof (induction fs arbitrary: thesis)
  case (Cons f fs)
  obtain c where c: "filter_chunk f = Some c" "44 \<notin> set c" "c \<noteq> []" "well_formed c"
    "\<And>i. parse_row_chunk i c = Some (Some (f\<lparr>lf_id := row_id i (lf_field f) (list_op_name (lf_op f))\<rparr>))"
    using Cons.prems(2) by (auto elim: filter_chunk_parses)
  obtain cs where cs: "map filter_chunk fs = map Some cs" "\<forall>c \<in> set cs. 44 \<notin> set c \<and> c \<noteq> [] \<and> well_formed c" "length cs = length fs"
    "\<And>n. \<exists>fs'. all_some (map (\<lambda>(i, c). parse_row_chunk i c) (enumerate n cs)) = Some (map Some fs') \<and> map bare_row fs' = map bare_row fs"
    using Cons.prems(2) by (auto intro: Cons.IH)
  show ?case
  proof (rule Cons.prems(1))
    show "map filter_chunk (f # fs) = map Some (c # cs)" using c cs by simp
    show "\<exists>fs'. all_some (map (\<lambda>(i, c). parse_row_chunk i c) (enumerate n (c # cs))) = Some (map Some fs')
        \<and> map bare_row fs' = map bare_row (f # fs)" for n
    proof -
      obtain fs' where "all_some (map (\<lambda>(i, c). parse_row_chunk i c) (enumerate (Suc n) cs)) = Some (map Some fs')" "map bare_row fs' = map bare_row fs"
        using cs(4) by blast
      then show ?thesis
        by (intro exI [of _ "f\<lparr>lf_id := row_id n (lf_field f) (list_op_name (lf_op f))\<rparr> # fs'"]) (simp add: c(5) bare_row_def)
    qed
  qed (use c cs in auto)
qed simp

text \<open>Rows written to the address are read back as the same rows, with the ids their places give them.\<close>

lemma rows_read_back:
  assumes "list_all (\<lambda>f. row_ok (bare_row f)) fs"
  obtains ps' fs' where "setFilters fs ps = Some ps'" "parseFilters (params_get ps' (js ''filter'')) = Some fs'" "map bare_row fs' = map bare_row fs"
    "\<And>k. k \<noteq> js ''filter'' \<Longrightarrow> params_get ps' k = params_get ps k" "clean_params ps \<Longrightarrow> clean_params ps'"
proof -
  obtain cs where cs: "map filter_chunk fs = map Some cs" "\<forall>c \<in> set cs. 44 \<notin> set c \<and> c \<noteq> [] \<and> well_formed c" "length cs = length fs"
    "\<And>n. \<exists>fs'. all_some (map (\<lambda>(i, c). parse_row_chunk i c) (enumerate n cs)) = Some (map Some fs') \<and> map bare_row fs' = map bare_row fs"
    using assms by (auto elim: chunks_parse)
  have ser: "serializeFilters fs = Some (join [44] cs)"
    unfolding serializeFilters_def cs(1) by (simp add: all_some_iff)
  show ?thesis
  proof (cases "fs = []")
    case True
    then show ?thesis
      using that [of "params_delete ps (js ''filter'')" "[]"] ser cs(3)
      by (simp add: setFilters_def put_or_delete_def get_delete parseFilters_def clean_params_delete)
  next
    case False
    then have ne: "cs \<noteq> []" using cs(3) by auto
    then have split: "split_on 44 (join [44] cs) = cs" using cs(2) by (intro split_on_join) auto
    have j: "join [44] cs \<noteq> []" using ne cs(2) by (cases cs; cases "tl cs") auto
    obtain fs' where fs': "all_some (map (\<lambda>(i, c). parse_row_chunk i c) (enumerate 0 cs)) = Some (map Some fs')" "map bare_row fs' = map bare_row fs"
      using cs(4) by blast
    have "parseFilters (Some (join [44] cs)) = Some fs'"
      using j fs'(1) by (simp add: parseFilters_def split filter_True)
    then show ?thesis
      using that [of "params_set ps (js ''filter'') (join [44] cs)" fs'] ser j fs'(2) cs(2)
      by (simp add: setFilters_def put_or_delete_def get_set clean_params_set well_formed_join well_formed_keys)
  qed
qed

text \<open>The ids of the parsed rows name their places, so no two rows share one.\<close>

definition id_place :: "jstring \<Rightarrow> nat" where
  "id_place s = read_nat (takeWhile (\<lambda>c. c \<noteq> 124) s)"

lemma id_place_row: "id_place (row_id i field op) = i"
proof -
  have "c \<noteq> 124" if "c \<in> set (show_nat i)" for c using show_nat_digits [OF that] by (auto simp: is_digit_def)
  then show ?thesis by (simp add: id_place_def row_id_def takeWhile_append2)
qed

lemma parsed_ids:
  "all_some (map (\<lambda>(i, c). parse_row_chunk i c) (enumerate n cs)) = Some xs \<Longrightarrow>
     sorted_wrt (<) (map (\<lambda>x. id_place (lf_id (the x))) (filter (\<lambda>x. x \<noteq> None) xs))
     \<and> (\<forall>x \<in> set xs. x \<noteq> None \<longrightarrow> n \<le> id_place (lf_id (the x)))"
proof (induction cs arbitrary: n xs)
  case (Cons c cs)
  then obtain x ys where x: "parse_row_chunk n c = Some x" and ys: "all_some (map (\<lambda>(i, c). parse_row_chunk i c) (enumerate (Suc n) cs)) = Some ys"
    and xs: "xs = x # ys"
    by (cases "parse_row_chunk n c") auto
  have "id_place (lf_id f) = n" if "x = Some f" for f
    using x that by (auto simp: parse_row_chunk_def id_place_row split: list.splits)
  with Cons.IH [OF ys] show ?case by (cases x) (auto simp: xs Suc_le_eq less_imp_le)
qed auto

lemma parsed_ids_distinct: "parseFilters raw = Some fs \<Longrightarrow> distinct (map lf_id fs)"
proof -
  assume "parseFilters raw = Some fs"
  then consider "fs = []" | xs cs where "all_some (map (\<lambda>(i, c). parse_row_chunk i c) (enumerate 0 cs)) = Some xs" "fs = map the (filter (\<lambda>x. x \<noteq> None) xs)"
    by (auto simp: parseFilters_def split: if_splits)
  then show ?thesis
  proof cases
    case 2
    from parsed_ids [OF 2(1)] have "distinct (map id_place (map lf_id fs))"
      by (simp add: 2(2) comp_def strict_sorted_iff)
    then show ?thesis by (rule distinct_mapI)
  qed simp
qed

lemma update_at:
  "distinct (map g fs) \<Longrightarrow> k < length fs \<Longrightarrow> map (\<lambda>f. if g f = g (fs ! k) then p f else f) fs = fs[k := p (fs ! k)]"
  by (rule nth_equalityI) (auto simp: nth_list_update distinct_conv_nth)

lemma remove_at:
  assumes "distinct (map g fs)" "k < length fs"
  shows "filter (\<lambda>f. g f \<noteq> g (fs ! k)) fs = take k fs @ drop (Suc k) fs"
proof -
  have fs: "fs = take k fs @ fs ! k # drop (Suc k) fs" using assms(2) by (rule id_take_nth_drop)
  have "distinct (map g (take k fs @ fs ! k # drop (Suc k) fs))" using assms(1) fs by simp
  then have "g (fs ! k) \<notin> g ` set (take k fs @ drop (Suc k) fs)" by auto
  then have "filter (\<lambda>f. g f \<noteq> g (fs ! k)) (take k fs @ drop (Suc k) fs) = take k fs @ drop (Suc k) fs"
    by (intro filter_True ballI notI) (metis imageI)
  then show ?thesis by (subst fs) simp
qed


section \<open>What the page reads from its address\<close>

text \<open>The abstract state: the filter rows without their ids, and what each other control reads.\<close>

record list_view =
  vw_rows :: "(jstring \<times> filter_operator \<times> jstring) list"
  vw_slugs :: "jstring list"
  vw_status :: jstring
  vw_facet :: jstring
  vw_groups :: "jstring list"
  vw_group_by :: jstring
  vw_dep :: jstring

definition read_params :: "jstring list \<Rightarrow> params \<Rightarrow> list_view option" where
  "read_params known ps =
     map_option (\<lambda>fs. \<lparr>vw_rows = map bare_row fs, vw_slugs = activeSlugs ps, vw_status = plain_param ''status'' ps,
         vw_facet = plain_param ''facet'' ps, vw_groups = groupKeys known ps, vw_group_by = plain_param ''group'' ps,
         vw_dep = plain_param ''dep'' ps\<rparr>)
       (parseFilters (params_get ps (js ''filter'')))"

fun row_edit :: "field_spec list \<Rightarrow> nat bar_edit \<Rightarrow> (jstring \<times> filter_operator \<times> jstring) list \<Rightarrow> (jstring \<times> filter_operator \<times> jstring) list" where
  "row_edit specs (AddRow uid) rows = rows @ [(fd_field (hd specs), hd (opsFor (fd_kind (hd specs))), [])]"
| "row_edit specs (PickField k field) rows =
     rows[k := (field, (case byField specs field of Some s \<Rightarrow> hd (opsFor (fd_kind s)) | None \<Rightarrow> FContains), [])]"
| "row_edit specs (PickOp k op) rows = rows[k := (fst (rows ! k), op, snd (snd (rows ! k)))]"
| "row_edit specs (TypeValue k v) rows = rows[k := (fst (rows ! k), fst (snd (rows ! k)), v)]"
| "row_edit specs (RemoveRow k) rows = take k rows @ drop (Suc k) rows"
| "row_edit specs ClearRows rows = []"

definition known_groups :: "jstring list \<Rightarrow> jstring \<Rightarrow> jstring list" where
  "known_groups known raw = take 2 (filter (\<lambda>k. k \<in> set known) (filter (\<lambda>k. k \<noteq> []) (split_on 44 raw)))"

fun view_step :: "field_spec list \<Rightarrow> jstring list \<Rightarrow> nat list_edit \<Rightarrow> list_view \<Rightarrow> list_view" where
  "view_step specs known (EditFilters e) v = v\<lparr>vw_rows := row_edit specs e (vw_rows v)\<rparr>"
| "view_step specs known (ToggleSlug s) v = v\<lparr>vw_slugs := toggled s (vw_slugs v)\<rparr>"
| "view_step specs known ClearSlugs v = v\<lparr>vw_slugs := []\<rparr>"
| "view_step specs known (PickFacet s) v = v\<lparr>vw_facet := s\<rparr>"
| "view_step specs known ClearStatus v = v\<lparr>vw_status := []\<rparr>"
| "view_step specs known (PickFirstGroup k) v =
     (let gs = firstGroup k (vw_groups v) in v\<lparr>vw_groups := gs, vw_group_by := join [44] gs\<rparr>)"
| "view_step specs known (PickSecondGroup k) v =
     (let gs = secondGroup k (vw_groups v) in v\<lparr>vw_groups := gs, vw_group_by := join [44] gs\<rparr>)"
| "view_step specs known (PickGroup g) v = v\<lparr>vw_groups := known_groups known g, vw_group_by := g\<rparr>"
| "view_step specs known (PickDep d) v = v\<lparr>vw_dep := d\<rparr>"

text \<open>What the pickers offer: fields of the catalogue, operators of a kind, known groups, slugs and typed text.\<close>

definition slug_ok :: "jstring \<Rightarrow> bool" where
  "slug_ok s \<longleftrightarrow> well_formed s \<and> 44 \<notin> set s \<and> trim s = s \<and> s \<noteq> []"

fun bar_edit_ok :: "field_spec list \<Rightarrow> nat \<Rightarrow> nat bar_edit \<Rightarrow> bool" where
  "bar_edit_ok specs n (AddRow uid) = True"
| "bar_edit_ok specs n (PickField k field) \<longleftrightarrow> k < n \<and> field \<in> fd_field ` set specs"
| "bar_edit_ok specs n (PickOp k op) \<longleftrightarrow> k < n \<and> op \<in> set known_operators"
| "bar_edit_ok specs n (TypeValue k v) \<longleftrightarrow> k < n \<and> well_formed v"
| "bar_edit_ok specs n (RemoveRow k) \<longleftrightarrow> k < n"
| "bar_edit_ok specs n ClearRows = True"

fun edit_ok :: "field_spec list \<Rightarrow> jstring list \<Rightarrow> list_view \<Rightarrow> nat list_edit \<Rightarrow> bool" where
  "edit_ok specs known v (EditFilters e) = bar_edit_ok specs (length (vw_rows v)) e"
| "edit_ok specs known v (ToggleSlug s) = slug_ok s"
| "edit_ok specs known v (PickFacet s) = well_formed s"
| "edit_ok specs known v (PickFirstGroup k) \<longleftrightarrow> k = [] \<or> k \<in> set known"
| "edit_ok specs known v (PickSecondGroup k) \<longleftrightarrow> vw_groups v \<noteq> [] \<and> (k = [] \<or> k \<in> set known)"
| "edit_ok specs known v (PickGroup g) = well_formed g"
| "edit_ok specs known v (PickDep d) = well_formed d"
| "edit_ok specs known v _ = True"

definition specs_ok :: "field_spec list \<Rightarrow> jstring list \<Rightarrow> bool" where
  "specs_ok specs known \<longleftrightarrow> specs \<noteq> [] \<and> list_all (\<lambda>s. name_ok (fd_field s)) specs
     \<and> list_all (\<lambda>k. well_formed k \<and> 44 \<notin> set k \<and> k \<noteq> []) known"

lemma clean_params_put: "clean_params ps \<Longrightarrow> well_formed k \<Longrightarrow> well_formed v \<Longrightarrow> clean_params (put_or_delete k v ps)"
  by (simp add: put_or_delete_def clean_params_set clean_params_delete)

lemma get_put: "coalesce (params_get (put_or_delete k v ps) k) [] = v"
  "j \<noteq> k \<Longrightarrow> params_get (put_or_delete k v ps) j = params_get ps j"
  by (simp_all add: put_or_delete_def get_set get_delete)

lemma groupKeys_eq: "groupKeys known ps = known_groups known (plain_param ''group'' ps)"
  by (simp add: groupKeys_def known_groups_def plain_param_def)

lemma put_group: "setGroupKeys keys ps = put_or_delete (js ''group'') (join [44] (filter (\<lambda>k. k \<noteq> []) keys)) ps"
proof -
  define ks where "ks = filter (\<lambda>k. k \<noteq> []) keys"
  have "\<forall>k \<in> set ks. k \<noteq> []" by (simp add: ks_def)
  then have "join [44] ks \<noteq> []" if "ks \<noteq> []" using that by (cases ks; cases "tl ks") auto
  then show ?thesis
    unfolding setGroupKeys_def put_or_delete_def Let_def ks_def [symmetric] by (cases "ks = []") auto
qed

lemma known_groups_join:
  assumes "set gs \<subseteq> set known" "length gs \<le> 2" "list_all (\<lambda>k. 44 \<notin> set k \<and> k \<noteq> []) known"
  shows "known_groups known (join [44] gs) = gs"
proof (cases "gs = []")
  case False
  have "split_on 44 (join [44] gs) = gs"
    using False assms(1,3) by (intro split_on_join) (auto simp: list_all_iff)
  moreover have "filter (\<lambda>k. k \<noteq> []) gs = gs" "filter (\<lambda>k. k \<in> set known) gs = gs"
    using assms(1,3) by (auto intro!: filter_True simp: list_all_iff)
  ultimately show ?thesis using assms(2) by (simp add: known_groups_def)
qed (simp add: known_groups_def)

lemma slugs_read_back:
  assumes "list_all slug_ok next" "clean_params ps"
  shows "activeSlugs (setActiveSlugs next ps) = next" "clean_params (setActiveSlugs next ps)"
    "j \<noteq> js ''tags'' \<Longrightarrow> j \<noteq> js ''tag'' \<Longrightarrow> params_get (setActiveSlugs next ps) j = params_get ps j"
proof -
  have "well_formed (join [44] next)" using assms(1) by (intro well_formed_join) (auto simp: slug_ok_def list_all_iff)
  with assms(2) show "clean_params (setActiveSlugs next ps)"
    by (simp add: setActiveSlugs_def Let_def clean_params_set clean_params_delete)
  show "j \<noteq> js ''tags'' \<Longrightarrow> j \<noteq> js ''tag'' \<Longrightarrow> params_get (setActiveSlugs next ps) j = params_get ps j"
    by (simp add: setActiveSlugs_def Let_def get_set get_delete)
  show "activeSlugs (setActiveSlugs next ps) = next"
  proof (cases "next = []")
    case True
    then show ?thesis by (simp add: activeSlugs_def setActiveSlugs_def Let_def get_delete)
  next
    case False
    have "split_on 44 (join [44] next) = next" using False assms(1) by (intro split_on_join) (auto simp: slug_ok_def list_all_iff)
    moreover have "join [44] next \<noteq> []" using False assms(1) by (cases "next"; cases "tl next") (auto simp: slug_ok_def)
    moreover have "map trim next = next" "filter (\<lambda>s. s \<noteq> []) next = next"
      using assms(1) by (auto intro!: map_idI filter_True simp: slug_ok_def list_all_iff)
    ultimately show ?thesis using False by (simp add: activeSlugs_def setActiveSlugs_def Let_def get_set)
  qed
qed

text \<open>An edit of the filter bar changes the one row it names.\<close>

definition named :: "list_filter list \<Rightarrow> nat \<Rightarrow> jstring" where
  "named fs k = lf_id (fs ! k)"

lemma bar_step_rows:
  assumes "distinct (map lf_id fs)" "bar_edit_ok specs (length fs) e"
  shows "map bare_row (bar_step specs (map_bar_edit (named fs) e) fs) = row_edit specs e (map bare_row fs)"
  using assms(2)
  by (cases e) (simp_all add: named_def update_row_def update_at [OF assms(1)] remove_at [OF assms(1)] map_update bare_row_def
      take_map drop_map Let_def)

lemma row_edit_ok:
  assumes "list_all row_ok rows" "bar_edit_ok specs (length rows) e" "specs \<noteq> []" "list_all (\<lambda>s. name_ok (fd_field s)) specs"
  shows "list_all row_ok (row_edit specs e rows)"
proof -
  have set: "list_all row_ok (rows[k := r])" if "row_ok r" for k r
    using assms(1) that set_update_subset_insert [of rows k r] by (auto simp: list_all_iff)
  have nth: "row_ok (rows ! k)" if "k < length rows" for k using assms(1) that by (simp add: list_all_length)
  have wf: "well_formed []" by (simp add: well_formed_def)
  have op: "row_ok (field, op, v) \<longleftrightarrow> name_ok field \<and> well_formed v" if "op \<in> set known_operators" for field op v
    using that operators_ok_known by blast
  show ?thesis
  proof (cases e)
    case (PickField k field)
    then have "name_ok field" using assms(2,4) by (auto simp: list_all_iff)
    moreover have "(case byField specs field of Some s \<Rightarrow> hd (opsFor (fd_kind s)) | None \<Rightarrow> FContains) \<in> set known_operators"
      by (auto split: option.split intro!: opsFor_known [OF list.set_sel(1)]) (simp add: known_operators_def operator_names_def)
    ultimately show ?thesis unfolding PickField row_edit.simps by (intro set) (simp only: op wf)
  next
    case (PickOp k op')
    have "row_ok (fst (rows ! k), op', snd (snd (rows ! k)))"
      using PickOp assms(2) nth [of k] op [of op'] by (cases "rows ! k") auto
    with PickOp show ?thesis by (simp add: set)
  next
    case (TypeValue k v)
    with assms(2) nth [of k] show ?thesis by (cases "rows ! k") (auto intro!: set)
  next
    case (RemoveRow k)
    with assms(1) show ?thesis by (auto simp: list_all_iff dest: in_set_takeD in_set_dropD)
  next
    case (AddRow uid)
    have "row_ok (fd_field (hd specs), hd (opsFor (fd_kind (hd specs))), [])"
      unfolding hd_operator_ok using assms(3,4) wf by (simp add: list_all_iff)
    with AddRow assms(1) show ?thesis by simp
  qed simp
qed


definition view_ok :: "list_view \<Rightarrow> bool" where
  "view_ok v \<longleftrightarrow> list_all row_ok (vw_rows v) \<and> list_all slug_ok (vw_slugs v)"

definition row_ids :: "params \<Rightarrow> nat \<Rightarrow> jstring" where
  "row_ids ps = named (the (parseFilters (params_get ps (js ''filter''))))"

text \<open>The edit as the page performs it names the row in the place \<open>k\<close> by the id it was parsed with.  One edit: it is written, everything it does not name keeps its value, and the address reads as the edited view.\<close>

definition simulated :: "field_spec list \<Rightarrow> jstring list \<Rightarrow> nat list_edit \<Rightarrow> params \<Rightarrow> list_view \<Rightarrow> params \<Rightarrow> bool" where
  "simulated specs known e ps v ps' \<longleftrightarrow>
     list_step specs known (map_list_edit (row_ids ps) e) ps = Some ps' \<and> clean_params ps'
     \<and> read_params known ps' = Some (view_step specs known e v) \<and> view_ok (view_step specs known e v)
     \<and> (\<forall>k. k \<notin> set list_params \<longrightarrow> params_get ps' k = params_get ps k)"

lemma other_params: "k \<notin> set list_params \<longleftrightarrow> k \<noteq> js ''filter'' \<and> k \<noteq> js ''tags'' \<and> k \<noteq> js ''tag'' \<and> k \<noteq> js ''facet''
    \<and> k \<noteq> js ''status'' \<and> k \<noteq> js ''group'' \<and> k \<noteq> js ''dep''"
  by (simp add: list_params_def)

lemma activeSlugs_cong:
  assumes "params_get ps' (js ''tags'') = params_get ps (js ''tags'')" "params_get ps' (js ''tag'') = params_get ps (js ''tag'')"
  shows "activeSlugs ps' = activeSlugs ps"
  unfolding activeSlugs_def assms ..

lemma activeSlugs_other:
  "k \<noteq> js ''tags'' \<Longrightarrow> k \<noteq> js ''tag'' \<Longrightarrow> activeSlugs (put_or_delete k v ps) = activeSlugs ps"
  "k \<noteq> js ''tags'' \<Longrightarrow> k \<noteq> js ''tag'' \<Longrightarrow> activeSlugs (params_delete ps k) = activeSlugs ps"
  by (rule activeSlugs_cong; simp add: get_put get_delete)+

lemma put_simulated:
  assumes "clean_params ps" "read_params known ps = Some v" "view_ok v" "well_formed s"
  shows "simulated specs known (PickFacet s) ps v (put_or_delete (js ''facet'') s ps)"
    "simulated specs known (PickDep s) ps v (put_or_delete (js ''dep'') s ps)"
    "simulated specs known (PickGroup s) ps v (put_or_delete (js ''group'') s ps)"
  using assms
  by (auto simp: simulated_def read_params_def view_ok_def other_params clean_params_put get_put activeSlugs_other groupKeys_eq plain_param_def)

lemma group_simulated:
  assumes "clean_params ps" "read_params known ps = Some v" "view_ok v" "specs_ok specs known"
    and "set gs \<subseteq> set known" "length gs \<le> 2" "view_step specs known e v = v\<lparr>vw_groups := gs, vw_group_by := join [44] gs\<rparr>"
    and "list_step specs known (map_list_edit (row_ids ps) e) ps = Some (setGroupKeys gs ps)"
  shows "simulated specs known e ps v (setGroupKeys gs ps)"
proof -
  have k: "list_all (\<lambda>k. 44 \<notin> set k \<and> k \<noteq> []) known" "\<forall>k \<in> set gs. k \<noteq> [] \<and> well_formed k"
    using assms(4,5) by (auto simp: specs_ok_def list_all_iff)
  then have gs: "setGroupKeys gs ps = put_or_delete (js ''group'') (join [44] gs) ps" "well_formed (join [44] gs)"
    by (simp_all add: put_group well_formed_join)
  have "activeSlugs (setGroupKeys gs ps) = activeSlugs ps" by (intro activeSlugs_cong) (simp_all add: gs(1) get_put)
  with assms(2) have "read_params known (setGroupKeys gs ps) = Some (view_step specs known e v)"
    unfolding assms(7) read_params_def groupKeys_eq plain_param_def
    by (auto simp: gs(1) get_put known_groups_join [OF assms(5,6) k(1)])
  then show ?thesis
    using assms(1,3,7,8) gs(2) by (simp add: simulated_def view_ok_def other_params gs(1) clean_params_put get_put)
qed

lemma slugs_simulated:
  assumes "clean_params ps" "read_params known ps = Some v" "view_ok v" "list_all slug_ok next"
    and "view_step specs known e v = v\<lparr>vw_slugs := next\<rparr>"
    and "list_step specs known (map_list_edit (row_ids ps) e) ps = Some (setActiveSlugs next ps)"
  shows "simulated specs known e ps v (setActiveSlugs next ps)"
  using assms slugs_read_back [OF assms(4,1)]
  by (auto simp: simulated_def read_params_def view_ok_def other_params groupKeys_eq plain_param_def)


lemma groups_known: "set (known_groups known raw) \<subseteq> set known" "length (known_groups known raw) \<le> 2"
  by (auto simp: known_groups_def dest: in_set_takeD)

lemma firstGroup_known: "set gs \<subseteq> set known \<Longrightarrow> k = [] \<or> k \<in> set known \<Longrightarrow> set (firstGroup k gs) \<subseteq> set known \<and> length (firstGroup k gs) \<le> 2"
  by (auto simp: firstGroup_def split: list.splits)

lemma secondGroup_known:
  "set gs \<subseteq> set known \<Longrightarrow> gs \<noteq> [] \<Longrightarrow> k = [] \<or> k \<in> set known \<Longrightarrow> set (secondGroup k gs) \<subseteq> set known \<and> length (secondGroup k gs) \<le> 2"
  by (auto simp: secondGroup_def)

lemma filters_simulated:
  assumes "clean_params ps" "read_params known ps = Some v" "view_ok v" "specs_ok specs known"
    and "bar_edit_ok specs (length (vw_rows v)) b"
  shows "\<exists>ps'. simulated specs known (EditFilters b) ps v ps'"
proof -
  obtain fs where fs: "parseFilters (params_get ps (js ''filter'')) = Some fs" "vw_rows v = map bare_row fs"
    using assms(2) by (auto simp: read_params_def)
  let ?fs = "bar_step specs (map_bar_edit (named fs) b) fs"
  have rows: "map bare_row ?fs = row_edit specs b (vw_rows v)"
    using bar_step_rows [OF parsed_ids_distinct [OF fs(1)]] assms(5) fs(2) by simp
  have ok: "list_all row_ok (row_edit specs b (vw_rows v))"
    using assms(3-5) by (intro row_edit_ok) (simp_all add: view_ok_def specs_ok_def)
  then have "list_all (\<lambda>f. row_ok (bare_row f)) ?fs" unfolding rows [symmetric] by (simp add: list_all_iff)
  then obtain ps' fs' where ps': "setFilters ?fs ps = Some ps'" "parseFilters (params_get ps' (js ''filter'')) = Some fs'"
    "map bare_row fs' = map bare_row ?fs" "\<And>k. k \<noteq> js ''filter'' \<Longrightarrow> params_get ps' k = params_get ps k" "clean_params ps \<Longrightarrow> clean_params ps'"
    using rows_read_back by blast
  have "read_params known ps' = Some (view_step specs known (EditFilters b) v)"
    using assms(2) ps'(2) activeSlugs_cong [of ps' ps] unfolding read_params_def groupKeys_eq plain_param_def
    by (auto simp: ps'(3,4) rows fs)
  then show ?thesis
    using ps' assms(1,3) ok by (intro exI [of _ ps']) (simp add: simulated_def fs(1) row_ids_def other_params view_ok_def)
qed

lemma edit_simulated:
  assumes "clean_params ps" "read_params known ps = Some v" "view_ok v" "specs_ok specs known" "edit_ok specs known v e"
  shows "\<exists>ps'. simulated specs known e ps v ps'"
proof -
  have v: "vw_slugs v = activeSlugs ps" "vw_groups v = groupKeys known ps" using assms(2) by (auto simp: read_params_def)
  have gs: "set (vw_groups v) \<subseteq> set known" by (simp add: v groupKeys_eq groups_known)
  show ?thesis
  proof (cases e)
    case (EditFilters b)
    with assms filters_simulated [OF assms(1-4)] show ?thesis by simp
  next
    case (ToggleSlug s)
    have "list_all slug_ok (toggled s (vw_slugs v))" using assms(3,5) ToggleSlug by (auto simp: view_ok_def toggled_def list_all_iff)
    from slugs_simulated [OF assms(1-3) this, of specs e] show ?thesis using ToggleSlug v by auto
  next
    case ClearSlugs
    from slugs_simulated [OF assms(1-3), of "[]" specs e] show ?thesis using ClearSlugs by auto
  next
    case (PickFirstGroup k)
    with assms(5) firstGroup_known [OF gs] have "set (firstGroup k (vw_groups v)) \<subseteq> set known" "length (firstGroup k (vw_groups v)) \<le> 2" by auto
    from group_simulated [OF assms(1-4) this, of e] show ?thesis using PickFirstGroup v by (auto simp: Let_def)
  next
    case (PickSecondGroup k)
    with assms(5) secondGroup_known [OF gs] have "set (secondGroup k (vw_groups v)) \<subseteq> set known" "length (secondGroup k (vw_groups v)) \<le> 2" by auto
    from group_simulated [OF assms(1-4) this, of e] show ?thesis using PickSecondGroup v by (auto simp: Let_def)
  next
    case ClearStatus
    with assms(1-3) show ?thesis
      by (auto simp: simulated_def read_params_def view_ok_def other_params clean_params_delete get_delete activeSlugs_other groupKeys_eq plain_param_def)
  qed (use assms(5) put_simulated [OF assms(1-3)] in \<open>simp, blast\<close>)+
qed

text \<open>A run of edits, each written to the address and read back from it.\<close>

definition view_of :: "(jstring \<Rightarrow> jstring) \<Rightarrow> jstring list \<Rightarrow> jstring \<Rightarrow> list_view option" where
  "view_of lenient known address = read_params known (parse_query lenient address)"

fun address_run :: "(jstring \<Rightarrow> jstring) \<Rightarrow> field_spec list \<Rightarrow> jstring list \<Rightarrow> nat list_edit list \<Rightarrow> jstring \<Rightarrow> jstring option" where
  "address_run lenient specs known [] address = Some address"
| "address_run lenient specs known (e # es) address =
     Option.bind (address_step lenient specs known (map_list_edit (row_ids (parse_query lenient address)) e) address)
       (address_run lenient specs known es)"

fun edits_ok :: "field_spec list \<Rightarrow> jstring list \<Rightarrow> list_view \<Rightarrow> nat list_edit list \<Rightarrow> bool" where
  "edits_ok specs known v [] = True"
| "edits_ok specs known v (e # es) \<longleftrightarrow> edit_ok specs known v e \<and> edits_ok specs known (view_step specs known e v) es"

section \<open>Properties of the address\<close>

text \<open>C35: The address is the state of the two list pages, and it holds it faithfully.  Whatever sequence of edits
  is made, with each one written to the address and the page read from that address again, nothing throws, and the
  page reads what the edits say: an edit of the filter bar changes the one row it names (by the id that row was
  parsed with, so ids that change with every address never hit a second row), every other control
  keeps what it was last set to, and the parameters of other controls (columns, range, environment) stay.  In
  particular reloading or sharing the address opens the same filters.\<close>

theorem list_pages_live_in_their_address:
  assumes "specs_ok specs known" "clean_params (parse_query lenient address)"
    and "view_of lenient known address = Some v" "view_ok v" "edits_ok specs known v es"
  shows "\<exists>address'. address_run lenient specs known es address = Some address'
    \<and> view_of lenient known address' = Some (foldl (\<lambda>v e. view_step specs known e v) v es)
    \<and> (\<forall>k. k \<notin> set list_params \<longrightarrow> params_get (parse_query lenient address') k = params_get (parse_query lenient address) k)"
  using assms(2-5)
proof (induction es arbitrary: address v)
  case (Cons e es)
  let ?ps = "parse_query lenient address"
  obtain ps' where sim: "simulated specs known e ?ps v ps'"
    using edit_simulated [OF Cons.prems(1) _ Cons.prems(3) assms(1)] Cons.prems(2,4) by (auto simp: view_of_def)
  then have read: "parse_query lenient (to_query ps') = ps'" by (auto simp: simulated_def clean_params_def intro: parse_to_query)
  have "\<exists>address'. address_run lenient specs known es (to_query ps') = Some address'
      \<and> view_of lenient known address' = Some (foldl (\<lambda>v e. view_step specs known e v) (view_step specs known e v) es)
      \<and> (\<forall>k. k \<notin> set list_params \<longrightarrow> params_get (parse_query lenient address') k = params_get (parse_query lenient (to_query ps')) k)"
    by (rule Cons.IH) (use sim Cons.prems(4) in \<open>simp_all add: read simulated_def view_of_def\<close>)
  with sim show ?case by (auto simp: address_step_def read simulated_def)
qed simp


definition demo_specs :: "field_spec list" where
  "demo_specs = fieldSpecs DEFAULT_STATIC_FIELDS [\<lparr>mf_key = js ''country'', mf_label = js ''Country'', mf_kind = KText, mf_options = None\<rparr>]"

definition demo_edits :: "nat list_edit list" where
  "demo_edits =
     [EditFilters (AddRow (js ''u1'')), EditFilters (AddRow (js ''u2'')), EditFilters (PickField 1 (js ''meta:country'')),
      EditFilters (PickOp 1 FEquals), EditFilters (TypeValue 1 (js ''a|b, 100%'')), EditFilters (RemoveRow 0),
      ToggleSlug (js ''hr''), PickFirstGroup (js ''country'')]"

definition demo_address :: jstring where
  "demo_address = js ''tag=prod&cols=name''"

definition demo_view :: list_view where
  "demo_view = \<lparr>vw_rows = [], vw_slugs = [js ''prod''], vw_status = [], vw_facet = [], vw_groups = [], vw_group_by = [], vw_dep = []\<rparr>"

lemma list_pages_live_in_their_address_ex:
  "\<exists>a. address_run (\<lambda>t. t) demo_specs [js ''country''] demo_edits demo_address = Some a
     \<and> map_option vw_rows (view_of (\<lambda>t. t) [js ''country''] a) = Some [(js ''meta:country'', FEquals, js ''a|b, 100%'')]
     \<and> map_option vw_slugs (view_of (\<lambda>t. t) [js ''country''] a) = Some [js ''prod'', js ''hr'']"
proof -
  have "specs_ok demo_specs [js ''country'']" "clean_params (parse_query (\<lambda>t. t) demo_address)" "view_ok demo_view"
    "view_of (\<lambda>t. t) [js ''country''] demo_address = Some demo_view"
    "edits_ok demo_specs [js ''country''] demo_view demo_edits"
    by code_simp+
  from list_pages_live_in_their_address [OF this(1,2,4,3,5)] obtain a where
    "address_run (\<lambda>t. t) demo_specs [js ''country''] demo_edits demo_address = Some a"
    "view_of (\<lambda>t. t) [js ''country''] a = Some (foldl (\<lambda>v e. view_step demo_specs [js ''country''] e v) demo_view demo_edits)"
    by auto
  moreover have "vw_rows (foldl (\<lambda>v e. view_step demo_specs [js ''country''] e v) demo_view demo_edits) = [(js ''meta:country'', FEquals, js ''a|b, 100%'')]"
    "vw_slugs (foldl (\<lambda>v e. view_step demo_specs [js ''country''] e v) demo_view demo_edits) = [js ''prod'', js ''hr'']"
    by code_simp+
  ultimately show ?thesis by auto
qed

text \<open>
  The comment on the filters calls \<open>parseFilters\<close> lenient: malformed chunks are dropped.  A chunk without a
  separator is; a value that is not a percent-encoding makes \<open>decodeURIComponent\<close> throw while the page
  renders.  And a metadata key may hold a comma: the server asks of a key only that it is not blank.
\<close>

lemma malformed_value_throws:
  "parseFilters (Some (js ''nonsense'')) = Some []" "parseFilters (Some (js ''name|contains|100%'')) = None"
  by code_simp+

lemma key_with_a_comma_is_lost:
  "let f = \<lparr>lf_id = [], lf_field = js ''meta:cost, eur'', lf_op = FEquals, lf_value = js ''5''\<rparr>
   in map_option (\<lambda>ps. map_option (map bare_row) (parseFilters (params_get ps (js ''filter'')))) (setFilters [f] [])
      = Some (Some [(js '' eur'', FEquals, js ''5'')])"
  by code_simp

text \<open>A number filter takes a missing value for zero: \<open>Number("")\<close> is 0.\<close>

lemma unset_number_is_zero:
  "matchesFilter (\<lambda>x. x) (\<lambda>x. []) to_number \<lparr>lf_id = [], lf_field = js ''meta:cost'', lf_op = FLt, lf_value = js ''5''\<rparr> (CText [])"
  by code_simp

section \<open>The values offered\<close>

lemma push_value_set:
  "set (coalesce (map_of (push_value sets p) field) []) =
     set (coalesce (map_of sets field) []) \<union> (if fst p = field \<and> trim (snd p) \<noteq> [] then {trim (snd p)} else {})"
  by (auto simp: push_value_def Let_def update_conv')

lemma pushed_values:
  "set (coalesce (map_of (foldl push_value sets ps) field) []) =
     set (coalesce (map_of sets field) []) \<union> {trim x | x. (field, x) \<in> set ps \<and> trim x \<noteq> []}"
  by (induction ps arbitrary: sets) (auto simp: push_value_set)

lemma push_value_distinct:
  "distinct (map fst sets) \<and> list_all (\<lambda>p. distinct (snd p)) sets \<Longrightarrow>
     distinct (map fst (push_value sets p)) \<and> list_all (\<lambda>p. distinct (snd p)) (push_value sets p)"
proof -
  assume a: "distinct (map fst sets) \<and> list_all (\<lambda>p. distinct (snd p)) sets"
  have cur: "distinct (coalesce (map_of sets (fst p)) [])"
    using a by (cases "map_of sets (fst p)") (auto simp: list_all_iff dest: map_of_SomeD)
  have "set (AList.update k v sets) \<subseteq> insert (k, v) (set sets)" for k v
    by (induction sets) auto
  with a have upd: "list_all (\<lambda>p. distinct (snd p)) (AList.update k v sets)" if "distinct v" for k v
    using that by (fastforce simp: list_all_iff)
  show ?thesis using a cur by (simp add: push_value_def Let_def distinct_update upd)
qed

lemma pushed_distinct:
  "distinct (map fst sets) \<and> list_all (\<lambda>p. distinct (snd p)) sets \<Longrightarrow>
     distinct (map fst (foldl push_value sets ps)) \<and> list_all (\<lambda>p. distinct (snd p)) (foldl push_value sets ps)"
  by (induction ps arbitrary: sets) (simp_all add: push_value_distinct)

lemma offered_values:
  assumes "(field, vs) \<in> set (distinctValues coll pushes rows)"
  shows "distinct vs" "set vs = {trim x | r x. r \<in> set rows \<and> (field, x) \<in> set (pushes r) \<and> trim x \<noteq> []}"
proof -
  let ?sets = "foldl push_value [] (concat (map pushes rows))"
  obtain us where us: "(field, us) \<in> set ?sets" "vs = js_sort coll us" using assms by (auto simp: distinctValues_def)
  have d: "distinct (map fst ?sets)" "list_all (\<lambda>p. distinct (snd p)) ?sets" using pushed_distinct [of "[]"] by simp_all
  then show "distinct vs" using us by (auto simp: list_all_iff)
  have "map_of ?sets field = Some us" using us(1) d(1) by simp
  with pushed_values [of "[]" "concat (map pushes rows)" field] us(2)
  show "set vs = {trim x | r x. r \<in> set rows \<and> (field, x) \<in> set (pushes r) \<and> trim x \<noteq> []}" by auto
qed

lemma meta_names: "meta_prefix @ k \<noteq> js ''name''" "meta_prefix @ k \<noteq> js ''description''" "meta_prefix @ k \<noteq> js ''slug''"
  "meta_prefix @ k \<noteq> js ''status''" "meta_prefix @ k \<noteq> js ''namespace''" "meta_prefix @ k \<noteq> js ''system_kind''"
  by (simp_all add: meta_prefix_def js_def)

lemma drop_meta: "drop 5 meta_prefix = []" "length meta_prefix = 5"
  by (simp_all add: meta_prefix_def js_def)

lemma integration_cells:
  assumes "distinct (map fst (coalesce (ii_metadata i) []))"
  shows "(field, x) \<in> set (integrationPushes i) \<Longrightarrow> integrationCell i field = x"
  using assms
  by (cases "ii_metadata i"; cases "ii_description i")
    (auto simp: integrationPushes_def integrationCell_def metadata_pushes_def meta_names metadata_value_def drop_meta split: if_splits)

lemma service_cells:
  assumes "distinct (map fst (coalesce (si_metadata s) []))"
  shows "(field, x) \<in> set (servicePushes s) \<Longrightarrow> serviceCell s field = x"
  using assms
  by (cases "si_metadata s"; cases "si_namespace s")
    (auto simp: servicePushes_def serviceCell_def metadata_pushes_def meta_names metadata_value_def drop_meta split: if_splits)


definition equals_row :: "jstring \<Rightarrow> jstring \<Rightarrow> list_filter" where
  "equals_row field v = \<lparr>lf_id = [], lf_field = field, lf_op = FEquals, lf_value = v\<rparr>"

text \<open>What the two pages share: the value a row pushes for a field is the value its cell has there.\<close>

definition trimmed_values :: "('r \<Rightarrow> (jstring \<times> jstring) list) \<Rightarrow> 'r \<Rightarrow> bool" where
  "trimmed_values pushes r \<longleftrightarrow> (\<forall>p \<in> set (pushes r). trim (snd p) = snd p)"

locale list_page =
  fixes keyed :: "'r \<Rightarrow> bool"
    and pushes :: "'r \<Rightarrow> (jstring \<times> jstring) list"
    and cell :: "'r \<Rightarrow> jstring \<Rightarrow> jstring"
  assumes pushed_cell: "keyed r \<Longrightarrow> (field, x) \<in> set (pushes r) \<Longrightarrow> cell r field = x"
begin

lemma offered:
  assumes "\<And>r. r \<in> set rows \<Longrightarrow> keyed r \<and> trimmed_values pushes r"
  shows "\<forall>(field, vs) \<in> set (distinctValues coll pushes rows). distinct vs
    \<and> (\<forall>v \<in> set vs. \<exists>r \<in> set rows. matchesFilter uni str num (equals_row field v) (CText (cell r field)))
    \<and> (\<forall>r \<in> set rows. \<forall>x. (field, x) \<in> set (pushes r) \<and> x \<noteq> [] \<longrightarrow> x \<in> set vs)"
proof (clarify, intro conjI ballI allI impI)
  fix field vs
  assume o: "(field, vs) \<in> set (distinctValues coll pushes rows)"
  show "distinct vs" by (rule offered_values(1) [OF o])
  have stored: "trim x = x \<and> cell r field = x" if "r \<in> set rows" "(field, x) \<in> set (pushes r)" for r x
    using assms [OF that(1)] that(2) pushed_cell by (force simp: trimmed_values_def)
  { fix v assume "v \<in> set vs"
    then obtain r x where r: "r \<in> set rows" "(field, x) \<in> set (pushes r)" "v = trim x" using offered_values(2) [OF o] by auto
    with stored [OF r(1,2)] show "\<exists>r \<in> set rows. matchesFilter uni str num (equals_row field v) (CText (cell r field))"
      by (auto simp: matchesFilter_def equals_row_def intro!: bexI [of _ r]) }
  { fix r x assume r: "r \<in> set rows" and x: "(field, x) \<in> set (pushes r) \<and> x \<noteq> []"
    with stored [OF r] have "x = trim x \<and> r \<in> set rows \<and> (field, x) \<in> set (pushes r) \<and> trim x \<noteq> []" by simp
    then show "x \<in> set vs" unfolding offered_values(2) [OF o] by blast }
qed

end

definition distinct_keys :: "(jstring \<times> jstring) list option \<Rightarrow> bool" where
  "distinct_keys m \<longleftrightarrow> distinct (map fst (coalesce m []))"

interpretation il: list_page "\<lambda>i. distinct_keys (ii_metadata i)" integrationPushes integrationCell
  by unfold_locales (simp add: distinct_keys_def integration_cells)

interpretation sl: list_page "\<lambda>s. distinct_keys (si_metadata s)" servicePushes serviceCell
  by unfold_locales (simp add: distinct_keys_def service_cells)

text \<open>C42: A value the picker offers is never a dead end.  On both pages, every value offered for "equals" on a
  field is a value some loaded row has, so picking it shows at least that row; no value is offered twice, and every
  value a row has in one of the offered fields is offered.  Object keys are distinct, and this needs the
  values to carry no white space at their ends: the picker trims what it offers, the comparison does not trim.\<close>

theorem offered_values_find_a_row:
  assumes "\<And>i. i \<in> set items \<Longrightarrow> distinct_keys (ii_metadata i) \<and> trimmed_values integrationPushes i"
    and "\<And>s. s \<in> set services \<Longrightarrow> distinct_keys (si_metadata s) \<and> trimmed_values servicePushes s"
  shows "(\<forall>(field, vs) \<in> set (distinctValues coll integrationPushes items). distinct vs
        \<and> (\<forall>v \<in> set vs. \<exists>i \<in> set items. matchesFilter uni str num (equals_row field v) (CText (integrationCell i field)))
        \<and> (\<forall>i \<in> set items. \<forall>x. (field, x) \<in> set (integrationPushes i) \<and> x \<noteq> [] \<longrightarrow> x \<in> set vs))
    \<and> (\<forall>(field, vs) \<in> set (distinctValues coll servicePushes services). distinct vs
        \<and> (\<forall>v \<in> set vs. \<exists>s \<in> set services. matchesFilter uni str num (equals_row field v) (CText (serviceCell s field)))
        \<and> (\<forall>s \<in> set services. \<forall>x. (field, x) \<in> set (servicePushes s) \<and> x \<noteq> [] \<longrightarrow> x \<in> set vs))"
  by (intro conjI il.offered sl.offered assms)

section \<open>Groups\<close>

fun rows_under :: "nat \<Rightarrow> render_entry list \<Rightarrow> integration_item list" where
  "rows_under l [] = []"
| "rows_under l (ItemRow i # es) = i # rows_under l es"
| "rows_under l (GroupHeader l' k g # es) = (if l' \<le> l then [] else rows_under l es)"

fun shown_items :: "render_entry list \<Rightarrow> integration_item list" where
  "shown_items [] = []"
| "shown_items (ItemRow i # es) = i # shown_items es"
| "shown_items (GroupHeader l k g # es) = shown_items es"

text \<open>A header tells the truth about the rows below it: their number, their traces and errors, their common value.\<close>

definition traces_of :: "integration_item list \<Rightarrow> nat" where
  "traces_of rows = sum_list (map (\<lambda>x. coalesce (ii_traces x) 0) rows)"

definition errors_of :: "integration_item list \<Rightarrow> nat" where
  "errors_of rows = sum_list (map (\<lambda>x. coalesce (ii_errors x) 0) rows)"

definition header_true :: "jstring \<Rightarrow> igroup \<Rightarrow> integration_item list \<Rightarrow> bool" where
  "header_true k g below \<longleftrightarrow> mset (ig_rows g) = mset below \<and> below \<noteq> []
     \<and> ig_traces g = traces_of below \<and> ig_errors g = errors_of below
     \<and> list_all (\<lambda>i. metadata_value (ii_metadata i) k = ig_value g) below"

fun headers_true :: "render_entry list \<Rightarrow> bool" where
  "headers_true [] = True"
| "headers_true (ItemRow i # es) = headers_true es"
| "headers_true (GroupHeader l k g # es) \<longleftrightarrow> header_true k g (rows_under l es) \<and> headers_true es"


lemma mset_totals:
  assumes "mset a = mset b"
  shows "traces_of a = traces_of b" "errors_of a = errors_of b" "list_all P a = list_all P b" "a = [] \<longleftrightarrow> b = []"
  using assms by (auto simp: traces_of_def errors_of_def list_all_iff simp flip: sum_mset_sum_list dest: mset_eq_setD)

definition group_ok :: "jstring \<Rightarrow> igroup \<Rightarrow> bool" where
  "group_ok k g \<longleftrightarrow> header_true k g (ig_rows g)"

lemma group_ok_mset: "group_ok k g \<Longrightarrow> mset (ig_rows g) = mset below \<Longrightarrow> header_true k g below"
  unfolding group_ok_def header_true_def using mset_totals [of "ig_rows g" below] by metis

lemma mset_concat_sort: "mset (concat (map f (js_sort c xs))) = mset (concat (map f xs))"
proof -
  have "mset (concat (map f ys)) = \<Sum>\<^sub># (image_mset (\<lambda>x. mset (f x)) (mset ys))" for ys
    by (induction ys) auto
  then show ?thesis by simp
qed

abbreviation meta_of :: "jstring \<Rightarrow> integration_item \<Rightarrow> jstring" where
  "meta_of k \<equiv> \<lambda>i. metadata_value (ii_metadata i) k"

definition group_of :: "(jstring \<Rightarrow> jstring \<Rightarrow> int) \<Rightarrow> jstring \<Rightarrow> jstring list \<Rightarrow> integration_item list \<Rightarrow> jstring \<Rightarrow> igroup" where
  "group_of coll k ks rows v =
     (let rws = filter (\<lambda>i. meta_of k i = v) rows
      in IGroup v rws (traces_of rws) (errors_of rws) (if ks \<noteq> [] then Some (build_groups coll ks rws) else None))"

lemma build_groups_alt:
  "build_groups coll (k # ks) rows = js_sort (group_compare coll) (map (group_of coll k ks rows) (dedupe (map (meta_of k) rows)))"
  by (simp add: group_by_alt comp_def group_of_def [abs_def] Let_def traces_of_def errors_of_def)

declare build_groups.simps(2) [simp del]

lemma built_group_ok: "g \<in> set (build_groups coll (k # ks) rows) \<Longrightarrow> group_ok k g"
  by (auto simp: build_groups_alt group_of_def group_ok_def header_true_def Let_def filter_empty_conv list_all_iff)

lemma built_children: "g \<in> set (build_groups coll (k # ks) rows) \<Longrightarrow>
    ig_children g = (if ks \<noteq> [] then Some (build_groups coll ks (ig_rows g)) else None)"
  by (auto simp: build_groups_alt group_of_def Let_def)

lemma built_rows: "mset (concat (map ig_rows (build_groups coll (k # ks) rows))) = mset rows"
proof -
  have "mset (concat (map ig_rows (build_groups coll (k # ks) rows)))
      = mset (concat (map (\<lambda>v. filter (\<lambda>i. meta_of k i = v) rows) (dedupe (map (meta_of k) rows))))"
    unfolding build_groups_alt mset_concat_sort by (simp add: comp_def group_of_def Let_def)
  also have "\<dots> = mset rows" by (rule mset_concat_filter_keys) auto
  finally show ?thesis .
qed

lemma built_values: "distinct (map ig_value (build_groups coll (k # ks) rows))"
proof -
  have "mset (map ig_value (build_groups coll (k # ks) rows)) = mset (dedupe (map (meta_of k) rows))"
    unfolding build_groups_alt by (simp add: multiset.map_comp comp_def group_of_def Let_def)
  then show ?thesis by (metis distinct_dedupe mset_eq_imp_distinct_iff)
qed

text \<open>Rows that agree on the key of a level stand in one group of it, in their order.\<close>

lemma concat_one_group:
  assumes "distinct (map val gs)" "\<forall>g \<in> set gs. \<forall>x \<in> set (L g). f x = val g" "\<And>x. P x \<Longrightarrow> f x = v"
  shows "filter P (concat (map L gs)) = (case find (\<lambda>g. val g = v) gs of Some g \<Rightarrow> filter P (L g) | None \<Rightarrow> [])"
  using assms(1,2)
proof (induction gs)
  case (Cons g gs)
  have other: "filter P (L h) = []" if "h \<in> set (g # gs)" "val h \<noteq> v" for h
    using that Cons.prems(2) assms(3) by (fastforce simp: filter_empty_conv)
  have "find (\<lambda>g. val g = v) gs = None" if "val g = v" using Cons.prems(1) that by (simp add: find_None_iff) (metis imageI)
  with Cons other [of g] show ?case by auto
qed simp

lemma built_order:
  assumes "\<And>x. P x \<Longrightarrow> meta_of k x = v"
  shows "(case find (\<lambda>g. ig_value g = v) (build_groups coll (k # ks) rows) of Some g \<Rightarrow> filter P (ig_rows g) | None \<Rightarrow> []) = filter P rows"
proof (cases "find (\<lambda>g. ig_value g = v) (build_groups coll (k # ks) rows)")
  case None
  then have "v \<notin> meta_of k ` set rows" by (auto simp: find_None_iff build_groups_alt group_of_def Let_def)
  with assms have "filter P rows = []" by (force simp: filter_empty_conv)
  with None show ?thesis by simp
next
  case (Some g)
  then have "g \<in> set (build_groups coll (k # ks) rows)" "ig_value g = v" by (auto simp: find_Some_iff in_set_conv_nth)
  then have "ig_rows g = filter (\<lambda>i. meta_of k i = v) rows" by (auto simp: build_groups_alt group_of_def Let_def)
  moreover have "(\<lambda>x. meta_of k x = v \<and> P x) = P" using assms by auto
  ultimately show ?thesis using Some by (simp add: conj_commute)
qed

lemma built_rows_order:
  assumes "\<And>x. P x \<Longrightarrow> meta_of k x = v"
  shows "filter P (concat (map ig_rows (build_groups coll (k # ks) rows))) = filter P rows"
  using concat_one_group [OF built_values [of coll k ks rows], of ig_rows "meta_of k" P v] built_order [OF assms] built_group_ok assms
  by (simp add: group_ok_def header_true_def list_all_iff)


definition leaf_block :: "jstring \<Rightarrow> nat \<Rightarrow> igroup \<Rightarrow> render_entry list" where
  "leaf_block k l g = GroupHeader l k g # map ItemRow (ig_rows g)"

definition block_end :: "nat \<Rightarrow> render_entry list \<Rightarrow> bool" where
  "block_end l es \<longleftrightarrow> (case es of [] \<Rightarrow> True | GroupHeader l' _ _ # _ \<Rightarrow> l' \<le> l | ItemRow _ # _ \<Rightarrow> False)"

lemma block_end_empty: "block_end l es \<Longrightarrow> rows_under l es = []"
  by (cases es; cases "hd es") (auto simp: block_end_def)

lemma walk_items:
  "rows_under l (map ItemRow xs @ es) = xs @ rows_under l es" "headers_true (map ItemRow xs @ es) = headers_true es"
  "shown_items (map ItemRow xs @ es) = xs @ shown_items es"
  by (induction xs) auto

lemma walk_leaves:
  assumes "block_end l rest" "\<forall>g \<in> set gs. group_ok k g"
  shows "headers_true (concat (map (leaf_block k l) gs) @ rest) = headers_true rest"
    "block_end l (concat (map (leaf_block k l) gs) @ rest)"
    "shown_items (concat (map (leaf_block k l) gs) @ rest) = concat (map ig_rows gs) @ shown_items rest"
    "l' < l \<Longrightarrow> rows_under l' (concat (map (leaf_block k l) gs) @ rest) = concat (map ig_rows gs) @ rows_under l' rest"
proof -
  show "block_end l (concat (map (leaf_block k l) gs) @ rest)"
    using assms(1) by (cases gs) (auto simp: leaf_block_def block_end_def)
  show "shown_items (concat (map (leaf_block k l) gs) @ rest) = concat (map ig_rows gs) @ shown_items rest"
    by (induction gs) (auto simp: leaf_block_def walk_items)
  show "l' < l \<Longrightarrow> rows_under l' (concat (map (leaf_block k l) gs) @ rest) = concat (map ig_rows gs) @ rows_under l' rest"
    by (induction gs) (auto simp: leaf_block_def walk_items)
  show "headers_true (concat (map (leaf_block k l) gs) @ rest) = headers_true rest"
    using assms(2)
  proof (induction gs)
    case (Cons g gs)
    have one: "headers_true (leaf_block k l g @ es) = headers_true es" if "block_end l es" for es
      using that Cons.prems by (simp add: leaf_block_def walk_items block_end_empty group_ok_def)
    have "block_end l (concat (map (leaf_block k l) gs) @ rest)"
      using assms(1) by (cases gs) (auto simp: leaf_block_def block_end_def)
    with Cons one show ?case by simp
  qed simp
qed

definition nested_block :: "(jstring \<Rightarrow> jstring \<Rightarrow> int) \<Rightarrow> jstring \<Rightarrow> jstring \<Rightarrow> igroup \<Rightarrow> render_entry list" where
  "nested_block coll k0 k1 g = GroupHeader 0 k0 g # concat (map (leaf_block k1 1) (build_groups coll [k1] (ig_rows g)))"

lemma walk_nested:
  assumes "\<forall>g \<in> set gs. group_ok k0 g"
  shows "headers_true (concat (map (nested_block coll k0 k1) gs))"
    "shown_items (concat (map (nested_block coll k0 k1) gs)) = concat (map (\<lambda>g. concat (map ig_rows (build_groups coll [k1] (ig_rows g)))) gs)"
    "block_end 0 (concat (map (nested_block coll k0 k1) gs))"
proof -
  have ends: "block_end 0 (concat (map (nested_block coll k0 k1) gs))" for gs
    by (cases gs) (auto simp: nested_block_def block_end_def)
  then show "block_end 0 (concat (map (nested_block coll k0 k1) gs))" .
  have c1: "block_end 1 (concat (map (nested_block coll k0 k1) gs))" for gs
    by (cases gs) (auto simp: nested_block_def block_end_def)
  show "headers_true (concat (map (nested_block coll k0 k1) gs))"
    using assms
  proof (induction gs)
    case (Cons g gs)
    define rest where "rest = concat (map (nested_block coll k0 k1) gs)"
    have rest: "block_end 1 rest" "rows_under 0 rest = []" using c1 block_end_empty [OF ends] by (simp_all add: rest_def)
    have "header_true k0 g (concat (map ig_rows (build_groups coll [k1] (ig_rows g))))"
      using Cons.prems built_rows [of coll k1 "[]"] by (intro group_ok_mset) auto
    moreover have "headers_true rest" using Cons by (simp add: rest_def)
    ultimately have "headers_true (nested_block coll k0 k1 g @ rest)"
      using walk_leaves [OF rest(1) ballI [OF built_group_ok]] rest(2) by (simp add: nested_block_def del: One_nat_def)
    then show ?case by (simp add: rest_def)
  qed simp
  have shown: "shown_items (nested_block coll k0 k1 g @ rest) = concat (map ig_rows (build_groups coll [k1] (ig_rows g))) @ shown_items rest"
    if "block_end 1 rest" for g rest
    using walk_leaves(3) [OF that ballI [OF built_group_ok]] by (simp add: nested_block_def del: One_nat_def)
  show "shown_items (concat (map (nested_block coll k0 k1) gs)) = concat (map (\<lambda>g. concat (map ig_rows (build_groups coll [k1] (ig_rows g)))) gs)"
    by (induction gs) (simp_all add: shown c1 del: One_nat_def)
qed

lemma render_one: "renderEntries coll [k] rows = concat (map (leaf_block k 0) (build_groups coll [k] rows))"
  unfolding renderEntries_def using built_children [of _ coll k "[]" rows]
  by (auto intro!: arg_cong [of _ _ concat] map_cong simp: leaf_block_def)

lemma render_two: "renderEntries coll [k0, k1] rows = concat (map (nested_block coll k0 k1) (build_groups coll [k0, k1] rows))"
  unfolding renderEntries_def using built_children [of _ coll k0 "[k1]" rows]
  by (auto intro!: arg_cong [of _ _ concat] map_cong simp: nested_block_def leaf_block_def)


text \<open>The traffic of the outer headers, in the order of the page.\<close>

fun top_traces :: "render_entry list \<Rightarrow> nat list" where
  "top_traces [] = []"
| "top_traces (ItemRow i # es) = top_traces es"
| "top_traces (GroupHeader l k g # es) = (if l = 0 then ig_traces g # top_traces es else top_traces es)"

lemma top_append: "top_traces (a @ b) = top_traces a @ top_traces b"
  by (induction a rule: top_traces.induct) auto

lemma plain_top: "top_traces (map ItemRow xs) = []"
  by (induction xs) auto

lemma top_blocks: "top_traces (concat (map (leaf_block k 0) gs)) = map ig_traces gs"
  "top_traces (concat (map (leaf_block k 1) gs)) = []" "top_traces (concat (map (nested_block coll k0 k1) gs)) = map ig_traces gs"
proof -
  show "top_traces (concat (map (leaf_block k 0) gs)) = map ig_traces gs"
    by (induction gs) (auto simp: leaf_block_def top_append plain_top)
  have one: "top_traces (concat (map (leaf_block k 1) gs)) = []" for k gs
    by (induction gs) (auto simp: leaf_block_def top_append plain_top)
  then show "top_traces (concat (map (leaf_block k 1) gs)) = []" .
  have "top_traces (nested_block coll k0 k1 g @ es) = ig_traces g # top_traces es" for g es
    by (simp add: nested_block_def top_append one del: One_nat_def)
  then show "top_traces (concat (map (nested_block coll k0 k1) gs)) = map ig_traces gs"
    by (induction gs) simp_all
qed

lemma built_sorted:
  assumes "js_comparator coll"
  shows "sorted_wrt (\<ge>) (map ig_traces (build_groups coll (k # ks) rows))"
proof -
  have "js_comparator (group_compare coll)" unfolding group_compare_def by (intro js_comparator_intros assms)
  from js_sort_sorted [OF this] have "sorted_wrt (\<lambda>a b. group_compare coll a b \<le> 0) (build_groups coll (k # ks) rows)"
    unfolding build_groups_alt .
  then show ?thesis unfolding sorted_wrt_map
    by (rule sorted_wrt_mono_rel [rotated]) (auto simp: group_compare_def cmp_then_def cmp_desc_def split: if_splits)
qed

definition same_group :: "jstring list \<Rightarrow> integration_item \<Rightarrow> integration_item \<Rightarrow> bool" where
  "same_group keys i j \<longleftrightarrow> (\<forall>k \<in> set keys. meta_of k i = meta_of k j)"

lemma nested_order:
  assumes "\<And>x. P x \<Longrightarrow> meta_of k0 x = v0" "\<And>x. P x \<Longrightarrow> meta_of k1 x = v1"
  shows "filter P (concat (map (\<lambda>g. concat (map ig_rows (build_groups coll [k1] (ig_rows g)))) (build_groups coll [k0, k1] rows))) = filter P rows"
proof -
  let ?L = "\<lambda>g. concat (map ig_rows (build_groups coll [k1] (ig_rows g)))"
  have L: "set (?L g) = set (ig_rows g)" for g using built_rows [of coll k1 "[]" "ig_rows g"] mset_eq_setD by blast
  have "\<forall>g \<in> set (build_groups coll [k0, k1] rows). \<forall>x \<in> set (?L g). meta_of k0 x = ig_value g"
    unfolding L using built_group_ok by (force simp: group_ok_def header_true_def list_all_iff)
  from concat_one_group [OF built_values this, of P v0] assms(1)
  have "filter P (concat (map ?L (build_groups coll [k0, k1] rows)))
      = (case find (\<lambda>g. ig_value g = v0) (build_groups coll [k0, k1] rows) of Some g \<Rightarrow> filter P (?L g) | None \<Rightarrow> [])" by blast
  also have "\<dots> = (case find (\<lambda>g. ig_value g = v0) (build_groups coll [k0, k1] rows) of Some g \<Rightarrow> filter P (ig_rows g) | None \<Rightarrow> [])"
    by (simp add: built_rows_order [OF assms(2)] split: option.split)
  also have "\<dots> = filter P rows" by (rule built_order [OF assms(1)])
  finally show ?thesis .
qed

text \<open>C36: Grouping the list of integrations loses no row and every header tells the truth.  Whether the list is grouped
  by no key, by one or by two, exactly the rows of the table are shown, each once, and rows of the same groups keep
  the order the table's sort gave them; the rows below a header, up to the next header of its level,
  are as many as it says, all carry the value it names, and their traces and errors add up to its totals; no
  header is empty; and the outer groups stand in the order of their traffic.\<close>

theorem grouping_keeps_every_integration:
  assumes "js_comparator coll" "length groups \<le> 2"
  shows "mset (shown_items (renderEntries coll groups rows)) = mset rows
    \<and> headers_true (renderEntries coll groups rows)
    \<and> sorted_wrt (\<ge>) (top_traces (renderEntries coll groups rows))
    \<and> filter (same_group groups i) (shown_items (renderEntries coll groups rows)) = filter (same_group groups i) rows"
proof -
  consider "groups = []" | k where "groups = [k]" | k0 k1 where "groups = [k0, k1]"
    using assms(2) by (cases groups; cases "tl groups"; cases "tl (tl groups)") auto
  then show ?thesis
  proof cases
    case 1
    show ?thesis using walk_items(2,3) [of rows "[]"] by (simp add: 1 renderEntries_def plain_top)
  next
    case (2 k)
    show ?thesis
      using walk_leaves [of 0 "[]", OF _ ballI [OF built_group_ok [of _ coll k "[]" rows]]] built_rows_order [of "same_group [k] i" k "meta_of k i" coll "[]" rows]
      by (simp add: 2 render_one top_blocks built_sorted [OF assms(1)] built_rows block_end_def same_group_def)
  next
    case (3 k0 k1)
    have groups: "\<forall>g \<in> set (build_groups coll [k0, k1] rows). group_ok k0 g" using built_group_ok by blast
    note nested = walk_nested [OF groups, of coll k1]
    have inner: "mset (concat (map ig_rows (build_groups coll [k1] (ig_rows g)))) = mset (ig_rows g)" for g by (rule built_rows)
    have "mset (concat (map (\<lambda>g. concat (map ig_rows (build_groups coll [k1] (ig_rows g)))) gs)) = mset (concat (map ig_rows gs))" for gs
      by (induction gs) (simp_all add: inner)
    then have "mset (shown_items (renderEntries coll groups rows)) = mset rows"
      unfolding 3 render_two nested(2) by (simp only: built_rows)
    moreover have "headers_true (renderEntries coll groups rows)" unfolding 3 render_two by (rule nested(1))
    moreover have "sorted_wrt (\<ge>) (top_traces (renderEntries coll groups rows))"
      unfolding 3 render_two top_blocks(3) by (rule built_sorted [OF assms(1)])
    moreover have "filter (same_group groups i) (shown_items (renderEntries coll groups rows)) = filter (same_group groups i) rows"
      unfolding 3 render_two nested(2) by (rule nested_order [of _ k0 "meta_of k0 i" k1 "meta_of k1 i"]) (simp_all add: same_group_def)
    ultimately show ?thesis by blast
  qed
qed


definition demo_item :: "string \<Rightarrow> string \<Rightarrow> nat \<Rightarrow> integration_item" where
  "demo_item name country traces =
     \<lparr>ii_id = js name, ii_name = js name, ii_slug = js name, ii_description = None, ii_status = None, ii_facets = None, ii_tags = None,
      ii_metadata = Some [(js ''country'', js country)], ii_traces = Some traces, ii_errors = None\<rparr>"

definition demo_items :: "integration_item list" where
  "demo_items = [demo_item ''orders'' ''SE'' 1, demo_item ''invoices'' ''DK'' 5, demo_item ''payroll'' ''SE'' 3]"

lemma grouping_keeps_every_integration_ex:
  "mset (shown_items (renderEntries unit_compare [js ''country''] demo_items)) = mset demo_items
     \<and> top_traces (renderEntries unit_compare [js ''country''] demo_items) = [5, 4]"
proof -
  have "top_traces (renderEntries unit_compare [js ''country''] demo_items) = [5, 4]" by code_simp
  with grouping_keeps_every_integration [OF units.js_comparator_axioms, of "[js ''country'']" demo_items] show ?thesis by simp
qed

lemma offered_values_find_a_row_ex:
  "map_of (distinctValues unit_compare integrationPushes demo_items) (js ''meta:country'') = Some [js ''DK'', js ''SE'']
     \<and> (\<exists>i \<in> set demo_items. matchesFilter (\<lambda>x. x) (\<lambda>x. []) to_number (equals_row (js ''meta:country'') (js ''SE'')) (CText (integrationCell i (js ''meta:country''))))"
proof -
  have offered: "map_of (distinctValues unit_compare integrationPushes demo_items) (js ''meta:country'') = Some [js ''DK'', js ''SE'']"
    by code_simp
  have "list_all (\<lambda>i. distinct_keys (ii_metadata i) \<and> list_all (\<lambda>p. trim (snd p) = snd p) (integrationPushes i)) demo_items" by code_simp
  then have "distinct_keys (ii_metadata i) \<and> trimmed_values integrationPushes i" if "i \<in> set demo_items" for i
    using that by (auto simp: list_all_iff trimmed_values_def)
  then have "\<forall>(field, vs) \<in> set (distinctValues unit_compare integrationPushes demo_items). distinct vs
        \<and> (\<forall>v \<in> set vs. \<exists>i \<in> set demo_items. matchesFilter (\<lambda>x. x) (\<lambda>x. []) to_number (equals_row field v) (CText (integrationCell i field)))
        \<and> (\<forall>i \<in> set demo_items. \<forall>x. (field, x) \<in> set (integrationPushes i) \<and> x \<noteq> [] \<longrightarrow> x \<in> set vs)"
    by (intro conjunct1 [OF offered_values_find_a_row [of demo_items "[]"]]) simp_all
  from bspec [OF this map_of_SomeD [OF offered]] offered show ?thesis by simp
qed

text \<open>With white space at its end a name is offered without it, and then nothing equals it.\<close>

lemma offered_value_can_match_nothing:
  "let i = demo_item ''orders '' ''SE'' 1 in
   map_of (distinctValues unit_compare integrationPushes [i]) (js ''name'') = Some [js ''orders'']
   \<and> \<not> matchesFilter (\<lambda>x. x) (\<lambda>x. []) to_number (equals_row (js ''name'') (js ''orders'')) (CText (integrationCell i (js ''name'')))"
  by code_simp

text \<open>The list of services: a service stands under each of its labels, as often as it carries it.\<close>

lemma labelled_row: "map snd (filter (\<lambda>p. fst p = l) (map (\<lambda>l. (l, s)) ls)) = replicate (count_list ls l) s"
  by (induction ls) auto

lemma labelled_rows:
  "map snd (filter (\<lambda>p. fst p = l) (concat (map (\<lambda>s. map (\<lambda>l. (l, s)) (labels s)) rows)))
     = concat (map (\<lambda>s. replicate (count_list (labels s) l) s) rows)"
  by (induction rows) (simp_all add: labelled_row)

theorem grouping_keeps_every_service:
  "(\<forall>(l, rs) \<in> set (groupedServices coll by rows). rs = concat (map (\<lambda>s. replicate (count_list (labels_of by s) l) s) rows))
    \<and> distinct (map fst (groupedServices coll by rows))
    \<and> (\<forall>s \<in> set rows. \<exists>(l, rs) \<in> set (groupedServices coll by rows). s \<in> set rs)"
proof -
  define pairs where "pairs = concat (map (\<lambda>s. map (\<lambda>l. (l, s)) (labels_of by s)) rows)"
  have "groupedServices coll by rows
      = js_sort (label_compare coll) (map (\<lambda>l. (l, map snd (filter (\<lambda>p. fst p = l) pairs))) (dedupe (map fst pairs)))"
    unfolding groupedServices_def pairs_def [symmetric] group_by_alt by (simp add: comp_def)
  then have groups: "set (groupedServices coll by rows) = (\<lambda>l. (l, map snd (filter (\<lambda>p. fst p = l) pairs))) ` fst ` set pairs"
    and labels: "mset (map fst (groupedServices coll by rows)) = mset (dedupe (map fst pairs))"
    by (simp_all add: multiset.map_comp comp_def)
  have "\<exists>(l, rs) \<in> set (groupedServices coll by rows). s \<in> set rs" if "s \<in> set rows" for s
  proof -
    have "labels_of by s \<noteq> []" by (simp add: labels_of_def)
    then obtain l where "l \<in> set (labels_of by s)" by (meson list.set_sel(1))
    with that have "(l, s) \<in> set pairs" by (auto simp: pairs_def)
    then have "l \<in> fst ` set pairs" "s \<in> set (map snd (filter (\<lambda>p. fst p = l) pairs))" by force+
    then show ?thesis unfolding groups by blast
  qed
  moreover have "distinct (map fst (groupedServices coll by rows))"
    by (metis labels distinct_dedupe mset_eq_imp_distinct_iff)
  moreover have "\<forall>(l, rs) \<in> set (groupedServices coll by rows). rs = concat (map (\<lambda>s. replicate (count_list (labels_of by s) l) s) rows)"
    unfolding groups labelled_rows [symmetric] pairs_def by blast
  ultimately show ?thesis by blast
qed

text \<open>Two integrations of one name list a service of both twice in their group.\<close>

lemma same_name_lists_twice:
  "let s = \<lparr>si_name = js ''api'', si_namespace = None, si_status = None, si_system_kind = None, si_tags = None,
        si_integrations = Some [js ''orders'', js ''orders''], si_metadata = None, si_traces = 1, si_upstream = None, si_downstream = None\<rparr>
   in groupedServices unit_compare (js ''integration'') [s] = [(js ''orders'', [s, s])]"
  by code_simp

end
