(* ===== verification/ListLoads.thy ===== *)
theory ListLoads
  imports ListFilters
begin

text \<open>
  How the two list pages load: \<open>refresh\<close> and \<open>fillStats\<close> of \<open>pages/Integrations.tsx\<close> (the names first, then the
  numbers ten rows at a time, under a run token), the ids the server accepts in one request of numbers
  (\<open>integrationStats\<close> of \<open>handlers_integrations.go\<close>), and \<open>refresh\<close> of \<open>pages/Services.tsx\<close> (dependency degrees only
  when the filter that reads them is set).

  Each callback is one step.  \<open>truth w i\<close> are the numbers of integration \<open>i\<close> in the window \<open>w\<close> (the server's answer),
  and \<open>uuid\<close> is \<open>uuid.Parse\<close>.  The fields \<open>ip_shown\<close> and \<open>sp_shown\<close> record which request's answer is on screen; no
  step reads them, they are there for the statements.
\<close>

section \<open>Numbers in batches\<close>

definition STATS_BATCH :: nat where "STATS_BATCH = 10"

definition maxStatsIDs :: nat where "maxStatsIDs = 25"

function batches :: "jstring list \<Rightarrow> jstring list list" where
  "batches ids = (if ids = [] then [] else take STATS_BATCH ids # batches (drop STATS_BATCH ids))"
  by pat_completeness auto
termination
  by (relation "measure length") (auto simp: STATS_BATCH_def)

declare batches.simps [simp del]

datatype stats_error = NoIds | BadId jstring | TooManyIds

fun read_ids :: "(jstring \<Rightarrow> jstring option) \<Rightarrow> jstring list \<Rightarrow> jstring list \<Rightarrow> stats_error + jstring list" where
  "read_ids uuid seen [] = Inr seen"
| "read_ids uuid seen (p # ps) =
     (case uuid (TrimSpace p) of
        None \<Rightarrow> Inl (BadId p)
      | Some u \<Rightarrow>
          (let seen' = (if u \<in> set seen then seen else seen @ [u]) in
           if length seen' > maxStatsIDs then Inl TooManyIds else read_ids uuid seen' ps))"

definition integrationStats_ids :: "(jstring \<Rightarrow> jstring option) \<Rightarrow> jstring \<Rightarrow> stats_error + jstring list" where
  "integrationStats_ids uuid raw = (let t = TrimSpace raw in if t = [] then Inl NoIds else read_ids uuid [] (split_on 44 t))"

section \<open>The page of integrations\<close>

record 's loaded_row =
  lr_id :: jstring
  lr_stats :: "'s option"

record ('w, 's) integrations_page =
  ip_items :: "'s loaded_row list option"
  ip_error :: "jstring option"
  ip_loading :: bool
  ip_pending :: "jstring list"
  ip_run :: nat
  ip_window :: 'w
  ip_lists :: "(nat \<times> 'w) list"
  ip_fills :: "(nat \<times> 'w \<times> jstring list) list"
  ip_shown :: nat

definition drop_at :: "nat \<Rightarrow> 'a list \<Rightarrow> 'a list" where
  "drop_at k xs = take k xs @ drop (Suc k) xs"

definition refresh_integrations :: "'w \<Rightarrow> ('w, 's) integrations_page \<Rightarrow> ('w, 's) integrations_page" where
  "refresh_integrations w s =
     s\<lparr>ip_loading := True, ip_error := None, ip_run := Suc (ip_run s), ip_window := w, ip_lists := ip_lists s @ [(Suc (ip_run s), w)]\<rparr>"

text \<open>The effect of the first render.\<close>

definition open_integrations :: "'w \<Rightarrow> ('w, 's) integrations_page" where
  "open_integrations w = refresh_integrations w
     \<lparr>ip_items = None, ip_error = None, ip_loading = True, ip_pending = [], ip_run = 0, ip_window = w, ip_lists = [], ip_fills = [], ip_shown = 0\<rparr>"

text \<open>The list arrives; \<open>fillStats\<close> runs up to its first request, and not at all without rows.\<close>

definition list_arrives :: "nat \<Rightarrow> 's loaded_row list \<Rightarrow> bool \<Rightarrow> ('w, 's) integrations_page \<Rightarrow> ('w, 's) integrations_page" where
  "list_arrives k rows stats_pending s =
     (let (run, w) = ip_lists s ! k;
          s' = s\<lparr>ip_items := Some rows, ip_loading := False, ip_lists := drop_at k (ip_lists s), ip_shown := run\<rparr> in
      if \<not> stats_pending then s'\<lparr>ip_pending := []\<rparr>
      else s'\<lparr>ip_pending := map lr_id rows,
              ip_fills := (if rows = [] then ip_fills s else ip_fills s @ [(run, w, map lr_id rows)])\<rparr>)"

definition list_fails :: "nat \<Rightarrow> jstring \<Rightarrow> ('w, 's) integrations_page \<Rightarrow> ('w, 's) integrations_page" where
  "list_fails k e s = s\<lparr>ip_error := Some e, ip_loading := False, ip_lists := drop_at k (ip_lists s)\<rparr>"

definition merge_stats :: "(jstring \<times> 's) list \<Rightarrow> 's loaded_row \<Rightarrow> 's loaded_row" where
  "merge_stats stats row =
     (case map_of (map_of_entries fst snd stats) (lr_id row) of Some n \<Rightarrow> row\<lparr>lr_stats := Some n\<rparr> | None \<Rightarrow> row)"

text \<open>After a batch: its rows are no longer pending, and the next batch is asked for, or the pass ends.\<close>

definition batch_over :: "nat \<Rightarrow> ('w, 's) integrations_page \<Rightarrow> ('w, 's) integrations_page" where
  "batch_over k s =
     (let (run, w, ids) = ip_fills s ! k in
      s\<lparr>ip_pending := filter (\<lambda>i. i \<notin> set (take STATS_BATCH ids)) (ip_pending s),
        ip_fills := (if drop STATS_BATCH ids = [] then drop_at k (ip_fills s) else (ip_fills s)[k := (run, w, drop STATS_BATCH ids)])\<rparr>)"

definition stale :: "nat \<Rightarrow> ('w, 's) integrations_page \<Rightarrow> bool" where
  "stale k s \<longleftrightarrow> ip_run s \<noteq> fst (ip_fills s ! k)"

definition end_pass :: "nat \<Rightarrow> ('w, 's) integrations_page \<Rightarrow> ('w, 's) integrations_page" where
  "end_pass k s = s\<lparr>ip_fills := drop_at k (ip_fills s)\<rparr>"

definition batch_arrives :: "nat \<Rightarrow> (jstring \<times> 's) list \<Rightarrow> ('w, 's) integrations_page \<Rightarrow> ('w, 's) integrations_page" where
  "batch_arrives k stats s =
     (if stale k s then end_pass k s
      else batch_over k (s\<lparr>ip_items := Some (map (merge_stats stats) (coalesce (ip_items s) []))\<rparr>))"

definition batch_fails :: "nat \<Rightarrow> ('w, 's) integrations_page \<Rightarrow> ('w, 's) integrations_page" where
  "batch_fails k s = (if stale k s then end_pass k s else batch_over k s)"

definition deferred_rows :: "jstring list \<Rightarrow> 's loaded_row list" where
  "deferred_rows ids = map (\<lambda>i. \<lparr>lr_id = i, lr_stats = None\<rparr>) ids"

text \<open>What can happen: the server answers a deferred list without numbers, and a batch with the numbers of some of its ids.\<close>

inductive load_step :: "('w \<Rightarrow> jstring \<Rightarrow> 's) \<Rightarrow> ('w, 's) integrations_page \<Rightarrow> ('w, 's) integrations_page \<Rightarrow> bool" for truth where
  Refresh: "load_step truth s (refresh_integrations w s)"
| ListArrives: "k < length (ip_lists s) \<Longrightarrow> load_step truth s (list_arrives k (deferred_rows ids) True s)"
| ListFails: "k < length (ip_lists s) \<Longrightarrow> load_step truth s (list_fails k e s)"
| BatchArrives: "ip_fills s ! k = (run, w, ids) \<Longrightarrow> k < length (ip_fills s) \<Longrightarrow> set found \<subseteq> set (take STATS_BATCH ids) \<Longrightarrow>
    load_step truth s (batch_arrives k (map (\<lambda>i. (i, truth w i)) found) s)"
| BatchFails: "k < length (ip_fills s) \<Longrightarrow> load_step truth s (batch_fails k s)"

inductive load_reachable :: "('w \<Rightarrow> jstring \<Rightarrow> 's) \<Rightarrow> ('w, 's) integrations_page \<Rightarrow> bool" for truth where
  Open: "load_reachable truth (open_integrations w)"
| Step: "load_reachable truth s \<Longrightarrow> load_step truth s s' \<Longrightarrow> load_reachable truth s'"

section \<open>The page of services\<close>

record services_page =
  sp_services :: "service_item list option"
  sp_deps_loaded :: bool
  sp_error :: "jstring option"
  sp_loading :: bool
  sp_dep :: jstring
  sp_requests :: "(nat \<times> bool) list"
  sp_count :: nat
  sp_shown :: nat

definition refresh_services :: "services_page \<Rightarrow> services_page" where
  "refresh_services s =
     s\<lparr>sp_loading := True, sp_error := None, sp_count := Suc (sp_count s), sp_requests := sp_requests s @ [(Suc (sp_count s), sp_dep s \<noteq> [])]\<rparr>"

definition open_services :: "jstring \<Rightarrow> services_page" where
  "open_services dep = refresh_services
     \<lparr>sp_services = None, sp_deps_loaded = False, sp_error = None, sp_loading = True, sp_dep = dep, sp_requests = [], sp_count = 0, sp_shown = 0\<rparr>"

text \<open>The effect is keyed on whether degrees are wanted.\<close>

definition pick_dep :: "jstring \<Rightarrow> services_page \<Rightarrow> services_page" where
  "pick_dep d s = (let s' = s\<lparr>sp_dep := d\<rparr> in if (d \<noteq> []) \<noteq> (sp_dep s \<noteq> []) then refresh_services s' else s')"

definition services_arrive :: "nat \<Rightarrow> service_item list \<Rightarrow> services_page \<Rightarrow> services_page" where
  "services_arrive k rows s =
     (let (n, wantDeps) = sp_requests s ! k in
      s\<lparr>sp_services := Some rows, sp_deps_loaded := wantDeps, sp_loading := False, sp_requests := drop_at k (sp_requests s), sp_shown := n\<rparr>)"

definition services_fail :: "nat \<Rightarrow> jstring \<Rightarrow> services_page \<Rightarrow> services_page" where
  "services_fail k e s = s\<lparr>sp_error := Some e, sp_loading := False, sp_requests := drop_at k (sp_requests s)\<rparr>"

definition with_degrees :: "service_item \<Rightarrow> bool" where
  "with_degrees r \<longleftrightarrow> si_upstream r \<noteq> None \<and> si_downstream r \<noteq> None"

inductive services_step :: "services_page \<Rightarrow> services_page \<Rightarrow> bool" where
  Again: "services_step s (refresh_services s)"
| Pick: "services_step s (pick_dep d s)"
| Arrive: "k < length (sp_requests s) \<Longrightarrow> (snd (sp_requests s ! k) \<Longrightarrow> list_all with_degrees rows) \<Longrightarrow> services_step s (services_arrive k rows s)"
| Fail: "k < length (sp_requests s) \<Longrightarrow> services_step s (services_fail k e s)"

inductive services_reachable :: "services_page \<Rightarrow> bool" where
  Open: "services_reachable (open_services dep)"
| Step: "services_reachable s \<Longrightarrow> services_step s s' \<Longrightarrow> services_reachable s'"

section \<open>Lemmas\<close>

lemma set_drop_at: "set (drop_at k xs) \<subseteq> set xs"
  by (auto simp: drop_at_def dest: in_set_takeD in_set_dropD)

lemma concat_batches: "concat (batches ids) = ids"
proof (induction ids rule: batches.induct)
  case (1 ids)
  then show ?case by (subst batches.simps) simp
qed

lemma batch_sizes: "b \<in> set (batches ids) \<Longrightarrow> b \<noteq> [] \<and> length b \<le> STATS_BATCH"
proof (induction ids rule: batches.induct)
  case (1 ids)
  then show ?case by (subst (asm) (2) batches.simps) (auto simp: STATS_BATCH_def split: if_splits)
qed

text \<open>An id as the server writes it: lower-case hexadecimal digits and dashes.\<close>

definition plain_id :: "jstring \<Rightarrow> bool" where
  "plain_id i \<longleftrightarrow> i \<noteq> [] \<and> list_all (\<lambda>c. is_digit c \<or> is_lower c \<or> c = 45) i"

lemma plain_id_trim: "plain_id i \<Longrightarrow> TrimSpace i = i"
proof -
  assume p: "plain_id i"
  then have "is_ascii i" by (auto simp: plain_id_def is_ascii_def list_all_iff is_digit_def is_lower_def)
  moreover have "\<not> is_space c" if "c \<in> set i" for c
    using p that by (auto simp: plain_id_def list_all_iff is_digit_def is_lower_def is_space_def)
  ultimately show ?thesis using p by (simp add: TrimSpace_ascii trim_id plain_id_def)
qed

lemma read_plain_ids:
  assumes "\<forall>i \<in> set ids. plain_id i \<and> uuid i = Some i" "distinct (seen @ ids)" "length seen + length ids \<le> maxStatsIDs"
  shows "read_ids uuid seen ids = Inr (seen @ ids)"
  using assms by (induction ids arbitrary: seen) (auto simp: plain_id_trim)

lemma plain_ids_join:
  assumes "\<forall>i \<in> set ids. plain_id i" "ids \<noteq> []"
  shows "TrimSpace (join [44] ids) = join [44] ids" "join [44] ids \<noteq> []" "split_on 44 (join [44] ids) = ids"
proof -
  have no: "44 \<notin> set i" if "plain_id i" for i
    using that by (auto simp: plain_id_def list_all_iff is_digit_def is_lower_def)
  show "split_on 44 (join [44] ids) = ids" using assms no by (intro split_on_join) auto
  show ne: "join [44] ids \<noteq> []" using assms by (cases ids; cases "tl ids") (auto simp: plain_id_def)
  have units: "c \<in> set (join [44] ids) \<Longrightarrow> is_digit c \<or> is_lower c \<or> c = 45 \<or> c = 44" for c
    using assms(1)
  proof (induction ids)
    case (Cons i ids)
    then show ?case by (cases ids) (auto simp: plain_id_def list_all_iff)
  qed simp
  then have "is_ascii (join [44] ids)" by (auto simp: is_ascii_def list_all_iff is_digit_def is_lower_def dest!: units)
  moreover have "\<not> is_space c" if "c \<in> set (join [44] ids)" for c
    using units [OF that] by (auto simp: is_digit_def is_lower_def is_space_def)
  ultimately show "TrimSpace (join [44] ids) = join [44] ids" using ne by (simp add: TrimSpace_ascii trim_id)
qed


text \<open>The invariant: which window each request and each number on screen belongs to, and who will clear what is pending.\<close>

definition numbers_of :: "('w \<Rightarrow> jstring \<Rightarrow> 's) \<Rightarrow> 'w \<Rightarrow> ('w, 's) integrations_page \<Rightarrow> bool" where
  "numbers_of truth w s \<longleftrightarrow>
     list_all (\<lambda>r. case lr_stats r of None \<Rightarrow> True | Some n \<Rightarrow> n = truth w (lr_id r)) (coalesce (ip_items s) [])"

definition runs_inv :: "('w, 's) integrations_page \<Rightarrow> bool" where
  "runs_inv s \<longleftrightarrow> (\<forall>(r, w) \<in> set (ip_lists s). r \<le> ip_run s \<and> (r = ip_run s \<longrightarrow> w = ip_window s))
     \<and> (\<forall>(r, w, ids) \<in> set (ip_fills s). r \<le> ip_run s \<and> (r = ip_run s \<longrightarrow> w = ip_window s)) \<and> ip_shown s \<le> ip_run s"

definition filling :: "('w, 's) integrations_page \<Rightarrow> bool" where
  "filling s \<longleftrightarrow> (\<exists>(r, w, ids) \<in> set (ip_fills s). r = ip_run s)"

definition numbers_inv :: "('w \<Rightarrow> jstring \<Rightarrow> 's) \<Rightarrow> ('w, 's) integrations_page \<Rightarrow> bool" where
  "numbers_inv truth s \<longleftrightarrow> (\<exists>w. numbers_of truth w s) \<and> (filling s \<or> ip_shown s = ip_run s \<longrightarrow> numbers_of truth (ip_window s) s)"

definition pending_inv :: "('w, 's) integrations_page \<Rightarrow> bool" where
  "pending_inv s \<longleftrightarrow> (ip_shown s = ip_run s \<longrightarrow> (\<forall>i \<in> set (ip_pending s). \<exists>(r, w, ids) \<in> set (ip_fills s). r = ip_run s \<and> i \<in> set ids))"

lemma numbers_deferred: "ip_items s = Some (deferred_rows ids) \<Longrightarrow> numbers_of truth w s"
  by (auto simp: numbers_of_def deferred_rows_def list_all_iff)

lemma numbers_cong: "ip_items s' = ip_items s \<Longrightarrow> numbers_of truth w s' = numbers_of truth w s"
  by (simp add: numbers_of_def)

lemma find_numbers: "map_option snd (find (\<lambda>x. fst x = k) (map (\<lambda>i. (i, f i)) xs)) = (if k \<in> set xs then Some (f k) else None)"
  by (induction xs) auto

lemma merge_truth:
  "merge_stats (map (\<lambda>i. (i, truth w i)) found) row = (if lr_id row \<in> set found then row\<lparr>lr_stats := Some (truth w (lr_id row))\<rparr> else row)"
  unfolding merge_stats_def map_of_map_of_entries rev_map find_numbers by simp

lemma numbers_merge:
  "numbers_of truth w s \<Longrightarrow> numbers_of truth w (s\<lparr>ip_items := Some (map (merge_stats (map (\<lambda>i. (i, truth w i)) found)) (coalesce (ip_items s) []))\<rparr>)"
  by (auto simp: numbers_of_def list_all_iff merge_truth)

lemma set_at:
  assumes "k < length xs"
  shows "set xs = insert (xs ! k) (set (drop_at k xs))" "set (xs[k := y]) = insert y (set (drop_at k xs))"
proof -
  show "set xs = insert (xs ! k) (set (drop_at k xs))"
    by (subst id_take_nth_drop [OF assms]) (simp add: drop_at_def)
  show "set (xs[k := y]) = insert y (set (drop_at k xs))"
    using assms by (simp add: upd_conv_take_nth_drop drop_at_def)
qed

text \<open>What a finished batch leaves of the passes: the others, and the rest of its own.\<close>

lemma batch_over_fills:
  assumes "k < length (ip_fills s)" "ip_fills s ! k = (r, w, ids)"
  shows "set (ip_fills (batch_over k s)) = set (drop_at k (ip_fills s)) \<union> (if drop STATS_BATCH ids = [] then {} else {(r, w, drop STATS_BATCH ids)})"
  using set_at(2) [OF assms(1)] by (simp add: batch_over_def assms(2))

lemma batch_over_pending:
  assumes "pending_inv s" "k < length (ip_fills s)"
  shows "pending_inv (batch_over k s)"
proof -
  obtain r w ids where f: "ip_fills s ! k = (r, w, ids)" by (cases "ip_fills s ! k")
  have fills: "set (ip_fills s) = insert (r, w, ids) (set (drop_at k (ip_fills s)))" using set_at(1) [OF assms(2)] f by simp
  have rest: "i \<in> set (drop STATS_BATCH ids)" if "i \<in> set ids" "i \<notin> set (take STATS_BATCH ids)" for i
    using that by (metis Un_iff append_take_drop_id set_append)
  have same: "ip_shown (batch_over k s) = ip_shown s" "ip_run (batch_over k s) = ip_run s"
    "ip_pending (batch_over k s) = filter (\<lambda>i. i \<notin> set (take STATS_BATCH ids)) (ip_pending s)"
    by (simp_all add: batch_over_def f)
  show ?thesis
    using assms(1) rest unfolding pending_inv_def same batch_over_fills [OF assms(2) f] fills by fastforce
qed


lemma lists_left: "x \<in> set (drop_at k xs) \<Longrightarrow> x \<in> set xs"
  using set_drop_at [of k xs] by auto

definition page_inv :: "('w \<Rightarrow> jstring \<Rightarrow> 's) \<Rightarrow> ('w, 's) integrations_page \<Rightarrow> bool" where
  "page_inv truth s \<longleftrightarrow> runs_inv s \<and> numbers_inv truth s \<and> pending_inv s"

lemma inv_refresh:
  assumes "page_inv truth s"
  shows "page_inv truth (refresh_integrations w s)"
proof -
  let ?t = "refresh_integrations w s"
  have r: "runs_inv s" and n: "\<exists>v. numbers_of truth v s" using assms by (simp_all add: page_inv_def numbers_inv_def)
  have old: "x \<in> set (ip_lists s) \<Longrightarrow> fst x \<le> ip_run s" "y \<in> set (ip_fills s) \<Longrightarrow> fst y \<le> ip_run s" "ip_shown s \<le> ip_run s" for x y
    using r by (auto simp: runs_inv_def)
  have new: "ip_run ?t = Suc (ip_run s)" "ip_fills ?t = ip_fills s" "ip_shown ?t = ip_shown s" "ip_items ?t = ip_items s"
    "ip_lists ?t = ip_lists s @ [(Suc (ip_run s), w)]" "ip_window ?t = w"
    by (simp_all add: refresh_integrations_def)
  have "runs_inv ?t" unfolding runs_inv_def new using old by fastforce
  moreover have "\<not> filling ?t" unfolding filling_def new using old(2) by fastforce
  ultimately show ?thesis
    using n old(3) by (simp add: page_inv_def numbers_inv_def pending_inv_def new numbers_cong [OF new(4)])
qed

text \<open>A step that only answers list requests keeps the invariant.\<close>

lemma inv_same_fills:
  assumes "page_inv truth s" "ip_run t = ip_run s" "ip_fills t = ip_fills s" "ip_shown t = ip_shown s" "ip_items t = ip_items s"
    and "ip_window t = ip_window s" "ip_pending t = ip_pending s" "set (ip_lists t) \<subseteq> set (ip_lists s)"
  shows "page_inv truth t"
  using assms(1,8) unfolding page_inv_def runs_inv_def numbers_inv_def pending_inv_def filling_def assms(2-4,6,7) numbers_cong [OF assms(5)]
  by blast

lemma inv_list_fails: "page_inv truth s \<Longrightarrow> page_inv truth (list_fails k e s)"
  by (erule inv_same_fills) (simp_all add: list_fails_def set_drop_at)

lemma inv_list_arrives:
  assumes "page_inv truth s" "k < length (ip_lists s)"
  shows "page_inv truth (list_arrives k (deferred_rows ids) True s)"
proof -
  obtain r w where f: "ip_lists s ! k = (r, w)" by (cases "ip_lists s ! k")
  with assms(2) have "(r, w) \<in> set (ip_lists s)" by (metis nth_mem)
  with assms(1) have "r \<le> ip_run s" "r = ip_run s \<longrightarrow> w = ip_window s" by (auto simp: page_inv_def runs_inv_def)
  moreover have "numbers_of truth v (list_arrives k (deferred_rows ids) True s)" for v
    by (rule numbers_deferred) (simp add: list_arrives_def f Let_def)
  moreover have "map lr_id (deferred_rows ids) = ids" "deferred_rows ids = [] \<longleftrightarrow> ids = []" by (simp_all add: deferred_rows_def comp_def)
  ultimately show ?thesis
    using assms(1) by (auto simp: page_inv_def runs_inv_def numbers_inv_def pending_inv_def list_arrives_def f Let_def dest!: lists_left)
qed

lemma inv_end_pass:
  assumes "page_inv truth s" "k < length (ip_fills s)" "stale k s"
  shows "page_inv truth (end_pass k s)"
proof -
  let ?t = "end_pass k s"
  have new: "ip_run ?t = ip_run s" "ip_fills ?t = drop_at k (ip_fills s)" "ip_shown ?t = ip_shown s" "ip_items ?t = ip_items s"
    "ip_lists ?t = ip_lists s" "ip_window ?t = ip_window s" "ip_pending ?t = ip_pending s"
    by (simp_all add: end_pass_def)
  have fills: "set (ip_fills s) = insert (ip_fills s ! k) (set (drop_at k (ip_fills s)))" by (rule set_at(1) [OF assms(2)])
  have "fst (ip_fills s ! k) \<noteq> ip_run s" using assms(3) by (simp add: stale_def)
  then have current: "(\<exists>(r, w, ids) \<in> set (ip_fills s). r = ip_run s \<and> P ids) = (\<exists>(r, w, ids) \<in> set (drop_at k (ip_fills s)). r = ip_run s \<and> P ids)" for P
    unfolding fills by (auto split: prod.splits)
  have "runs_inv ?t" using assms(1) unfolding page_inv_def runs_inv_def new by (auto dest: lists_left)
  moreover have "numbers_inv truth ?t"
    using assms(1) current [of "\<lambda>_. True"] unfolding page_inv_def numbers_inv_def numbers_cong [OF new(4)] filling_def new by simp
  moreover have "pending_inv ?t"
    using assms(1) unfolding page_inv_def pending_inv_def new current by blast
  ultimately show ?thesis by (simp add: page_inv_def)
qed

lemma inv_batch_over:
  assumes "page_inv truth s" "k < length (ip_fills s)" "\<not> stale k s"
  shows "page_inv truth (batch_over k s)"
proof -
  obtain r w ids where f: "ip_fills s ! k = (r, w, ids)" by (cases "ip_fills s ! k")
  have fills: "set (ip_fills s) = insert (r, w, ids) (set (drop_at k (ip_fills s)))" using set_at(1) [OF assms(2)] f by simp
  have r: "r = ip_run s" using assms(3) f by (simp add: stale_def)
  have same: "ip_shown (batch_over k s) = ip_shown s" "ip_run (batch_over k s) = ip_run s" "ip_window (batch_over k s) = ip_window s"
    "ip_items (batch_over k s) = ip_items s" "ip_lists (batch_over k s) = ip_lists s"
    by (simp_all add: batch_over_def f)
  have "runs_inv (batch_over k s)"
    using assms(1) unfolding page_inv_def runs_inv_def same batch_over_fills [OF assms(2) f] fills by auto
  moreover have "numbers_inv truth (batch_over k s)"
    using assms(1) r unfolding page_inv_def numbers_inv_def numbers_cong [OF same(4)] same filling_def fills by auto
  moreover have "pending_inv (batch_over k s)" using assms(1,2) by (intro batch_over_pending) (simp_all add: page_inv_def)
  ultimately show ?thesis by (simp add: page_inv_def)
qed

lemma inv_items:
  assumes "page_inv truth s" "\<And>w. numbers_of truth w s \<Longrightarrow> w = ip_window s \<Longrightarrow> numbers_of truth w (s\<lparr>ip_items := items\<rparr>)" "numbers_of truth (ip_window s) s"
  shows "page_inv truth (s\<lparr>ip_items := items\<rparr>)"
  using assms by (auto simp: page_inv_def runs_inv_def numbers_inv_def pending_inv_def filling_def)

lemma inv_step: "load_step truth s s' \<Longrightarrow> page_inv truth s \<Longrightarrow> page_inv truth s'"
proof (induction rule: load_step.induct)
  case (BatchArrives s k r w ids found)
  show ?case
  proof (cases "stale k s")
    case True
    with BatchArrives show ?thesis by (simp add: batch_arrives_def inv_end_pass)
  next
    case False
    let ?s = "s\<lparr>ip_items := Some (map (merge_stats (map (\<lambda>i. (i, truth w i)) found)) (coalesce (ip_items s) []))\<rparr>"
    have "(r, w, ids) \<in> set (ip_fills s)" "r = ip_run s" using BatchArrives(1,2) False by (auto simp: stale_def) (metis nth_mem)
    then have "w = ip_window s" "numbers_of truth (ip_window s) s"
      using BatchArrives(4) by (auto simp: page_inv_def runs_inv_def numbers_inv_def filling_def)
    with BatchArrives(4) numbers_merge have "page_inv truth ?s" by (intro inv_items) auto
    moreover have "\<not> stale k ?s" using False by (simp add: stale_def)
    ultimately show ?thesis using BatchArrives(2) False by (simp add: batch_arrives_def inv_batch_over)
  qed
next
  case (BatchFails k s)
  then show ?case by (simp add: batch_fails_def inv_end_pass inv_batch_over)
qed (auto intro: inv_refresh inv_list_fails inv_list_arrives)

lemma reachable_inv: "load_reachable truth s \<Longrightarrow> page_inv truth s"
proof (induction rule: load_reachable.induct)
  case (Open w)
  show ?case
    by (auto simp: page_inv_def runs_inv_def numbers_inv_def pending_inv_def filling_def open_integrations_def refresh_integrations_def numbers_of_def)
qed (rule inv_step)

section \<open>Properties\<close>

text \<open>C38: The numbers in the list of integrations are never mixed.  Whatever the order of window changes, answers and
  failures, all the numbers on screen at one moment were read for one window: a slow batch of an older pass never
  writes over the current one.  Once the list asked for by the newest refresh is the one on screen, that window is
  the one picked.\<close>

theorem numbers_of_one_window:
  assumes "load_reachable truth s"
  shows "(\<exists>w. \<forall>r \<in> set (coalesce (ip_items s) []). \<forall>n. lr_stats r = Some n \<longrightarrow> n = truth w (lr_id r))
    \<and> (ip_shown s = ip_run s \<longrightarrow>
        (\<forall>r \<in> set (coalesce (ip_items s) []). \<forall>n. lr_stats r = Some n \<longrightarrow> n = truth (ip_window s) (lr_id r)))"
proof -
  have "numbers_of truth w s \<longleftrightarrow> (\<forall>r \<in> set (coalesce (ip_items s) []). \<forall>n. lr_stats r = Some n \<longrightarrow> n = truth w (lr_id r))" for w
    by (auto simp: numbers_of_def list_all_iff split: option.splits)
  with reachable_inv [OF assms] show ?thesis by (auto simp: page_inv_def numbers_inv_def)
qed

text \<open>C37: No row is left waiting.  When no request is in flight and the list on screen is the one the newest
  refresh asked for, no row says its numbers are on their way, whatever batches failed.  The condition is
  needed: the answer of an older refresh is shown whenever it arrives, and a failed refresh ends the passes of the
  one before it.\<close>

theorem no_row_is_left_pending:
  assumes "load_reachable truth s" "ip_lists s = []" "ip_fills s = []" "ip_shown s = ip_run s"
  shows "ip_pending s = []"
  using reachable_inv [OF assms(1)] assms(3,4) by (auto simp: page_inv_def pending_inv_def intro: ccontr)

text \<open>C39: Filling in the numbers asks for every row exactly once, in the order of the list, ten at a time, and each
  request stays within what the server accepts: for distinct ids the server parses exactly the ids of the batch.\<close>

theorem batches_cover_the_list:
  assumes "list_all (\<lambda>i. plain_id i \<and> uuid i = Some i) ids" "distinct ids"
  shows "concat (batches ids) = ids
    \<and> (\<forall>b \<in> set (batches ids). b \<noteq> [] \<and> length b \<le> STATS_BATCH \<and> integrationStats_ids uuid (join [44] b) = Inr b)"
proof -
  have "integrationStats_ids uuid (join [44] b) = Inr b" if b: "b \<in> set (batches ids)" for b
  proof -
    have sub: "set b \<subseteq> set ids" using b by (subst concat_batches [symmetric]) auto
    have ne: "b \<noteq> []" "length b \<le> STATS_BATCH" using batch_sizes [OF b] by auto
    have "distinct b" using assms(2) b by (subst (asm) concat_batches [symmetric]) (auto simp: distinct_concat_iff)
    moreover have p: "\<forall>i \<in> set b. plain_id i \<and> uuid i = Some i" using assms(1) sub by (auto simp: list_all_iff)
    ultimately have "read_ids uuid [] b = Inr b"
      using read_plain_ids [of b uuid "[]"] ne(2) by (simp add: STATS_BATCH_def maxStatsIDs_def)
    then show ?thesis using plain_ids_join [of b] p ne(1) by (simp add: integrationStats_ids_def Let_def)
  qed
  then show ?thesis using concat_batches batch_sizes by auto
qed


text \<open>The dependency filter of the services: what it means on known degrees.\<close>

definition dep_table :: "nat \<Rightarrow> nat \<Rightarrow> (jstring \<times> bool) list" where
  "dep_table up down =
     [(js ''has-upstream'', 0 < up), (js ''has-downstream'', 0 < down), (js ''has-any'', 0 < up + down),
      (js ''no-upstream'', up = 0), (js ''no-downstream'', down = 0), (js ''isolated'', up + down = 0)]"

lemma depMatches_table:
  assumes "si_upstream r = Some up" "si_downstream r = Some down" "dep \<noteq> []"
  shows "depMatches dep True r \<longleftrightarrow> si_traces r \<noteq> 0 \<and> coalesce (map_of (dep_table up down) dep) True"
  using assms by (auto simp: depMatches_def dep_table_def)

definition services_inv :: "services_page \<Rightarrow> bool" where
  "services_inv s \<longleftrightarrow> (sp_deps_loaded s \<longrightarrow> list_all with_degrees (coalesce (sp_services s) []))
     \<and> (\<forall>(n, wanted) \<in> set (sp_requests s). n \<le> sp_count s \<and> (n = sp_count s \<longrightarrow> wanted = (sp_dep s \<noteq> [])))
     \<and> sp_shown s \<le> sp_count s \<and> (sp_shown s = sp_count s \<longrightarrow> sp_deps_loaded s = (sp_dep s \<noteq> []))"

lemma services_refresh_inv:
  assumes "sp_deps_loaded s \<longrightarrow> list_all with_degrees (coalesce (sp_services s) [])" "\<forall>x \<in> set (sp_requests s). fst x \<le> sp_count s" "sp_shown s \<le> sp_count s"
  shows "services_inv (refresh_services s)"
  using assms by (fastforce simp: services_inv_def refresh_services_def)

lemma services_step_inv: "services_step s s' \<Longrightarrow> services_inv s \<Longrightarrow> services_inv s'"
proof (induction rule: services_step.induct)
  case (Again s)
  then show ?case by (intro services_refresh_inv) (auto simp: services_inv_def)
next
  case (Pick s d)
  have "services_inv (refresh_services (s\<lparr>sp_dep := d\<rparr>))" using Pick by (intro services_refresh_inv) (auto simp: services_inv_def)
  with Pick show ?case by (auto simp: pick_dep_def Let_def services_inv_def)
next
  case (Arrive k s rows)
  obtain n wanted where f: "sp_requests s ! k = (n, wanted)" by (cases "sp_requests s ! k")
  with Arrive(1) have "(n, wanted) \<in> set (sp_requests s)" by (metis nth_mem)
  with Arrive f show ?case by (auto simp: services_inv_def services_arrive_def dest!: lists_left)
next
  case (Fail k s e)
  then show ?case by (auto simp: services_inv_def services_fail_def dest!: lists_left)
qed

lemma services_reachable_inv: "services_reachable s \<Longrightarrow> services_inv s"
proof (induction rule: services_reachable.induct)
  case (Open dep)
  show ?case unfolding open_services_def by (rule services_refresh_inv) simp_all
qed (rule services_step_inv)

text \<open>The dependency filter judges a service on degrees the server sent, never on missing ones read as zero; and when
  the answer on screen is the newest request's, it is on exactly when a filter is chosen.\<close>

theorem dependency_filter_has_its_degrees:
  assumes "services_reachable s"
  shows "(sp_dep s \<noteq> [] \<and> sp_deps_loaded s \<longrightarrow> (\<forall>r \<in> set (coalesce (sp_services s) []). \<exists>up down.
        si_upstream r = Some up \<and> si_downstream r = Some down
        \<and> (depMatches (sp_dep s) True r \<longleftrightarrow> si_traces r \<noteq> 0 \<and> coalesce (map_of (dep_table up down) (sp_dep s)) True)))
    \<and> (sp_shown s = sp_count s \<longrightarrow> sp_deps_loaded s = (sp_dep s \<noteq> []))"
  using services_reachable_inv [OF assms] depMatches_table
  by (fastforce simp: services_inv_def list_all_iff with_degrees_def)

section \<open>Instances\<close>

definition demo_truth :: "nat \<Rightarrow> jstring \<Rightarrow> nat" where
  "demo_truth w i = 100 * w + length i"

lemma reach_refresh: "load_reachable truth s \<Longrightarrow> load_reachable truth (refresh_integrations w s)"
  by (rule load_reachable.Step [OF _ load_step.Refresh])

lemma reach_list: "load_reachable truth s \<Longrightarrow> k < length (ip_lists s) \<Longrightarrow> load_reachable truth (list_arrives k (deferred_rows ids) True s)"
  by (rule load_reachable.Step [OF _ load_step.ListArrives])

lemma reach_fails: "load_reachable truth s \<Longrightarrow> k < length (ip_fills s) \<Longrightarrow> load_reachable truth (batch_fails k s)"
  by (rule load_reachable.Step [OF _ load_step.BatchFails])

lemma reach_batch:
  assumes "load_reachable truth s" "k < length (ip_fills s)"
    and "list_all (\<lambda>i. i \<in> set (take STATS_BATCH (snd (snd (ip_fills s ! k))))) found"
  shows "load_reachable truth (batch_arrives k (map (\<lambda>i. (i, truth (fst (snd (ip_fills s ! k))) i)) found) s)"
proof (rule load_reachable.Step [OF assms(1) load_step.BatchArrives])
  show "ip_fills s ! k = (fst (ip_fills s ! k), fst (snd (ip_fills s ! k)), snd (snd (ip_fills s ! k)))" by simp
qed (use assms(2,3) in \<open>auto simp: list_all_iff\<close>)

text \<open>A pass that is finished, a refresh, and the new pass finished too.\<close>

definition refreshed_page :: "(nat, nat) integrations_page" where
  "refreshed_page = list_arrives 0 (deferred_rows [js ''a'', js ''b'']) True (refresh_integrations 1
       (batch_fails 0 (list_arrives 0 (deferred_rows [js ''a'', js ''b'']) True (open_integrations 0))))"

definition demo_page :: "(nat, nat) integrations_page" where
  "demo_page = batch_arrives 0 (map (\<lambda>i. (i, demo_truth 1 i)) [js ''a'', js ''b'']) refreshed_page"

lemma refreshed_reachable: "load_reachable demo_truth refreshed_page"
  unfolding refreshed_page_def by (rule reach_list reach_refresh reach_fails load_reachable.Open | code_simp)+

lemma demo_reachable: "load_reachable demo_truth demo_page"
proof -
  have "0 < length (ip_fills refreshed_page)" "list_all (\<lambda>i. i \<in> set (take STATS_BATCH (snd (snd (ip_fills refreshed_page ! 0))))) [js ''a'', js ''b'']"
    "fst (snd (ip_fills refreshed_page ! 0)) = 1"
    by code_simp+
  from reach_batch [OF refreshed_reachable this(1,2)] this(3) show ?thesis by (simp add: demo_page_def)
qed

lemma numbers_of_one_window_ex:
  "list_all (\<lambda>r. case lr_stats r of None \<Rightarrow> True | Some n \<Rightarrow> n = demo_truth 1 (lr_id r)) (coalesce (ip_items demo_page) [])"
proof -
  have "ip_shown demo_page = ip_run demo_page" "ip_window demo_page = 1" by code_simp+
  with numbers_of_one_window [OF demo_reachable] show ?thesis by (simp add: list_all_iff split: option.split)
qed

lemma no_row_is_left_pending_ex: "ip_pending demo_page = []"
proof -
  have "ip_lists demo_page = []" "ip_fills demo_page = []" "ip_shown demo_page = ip_run demo_page" by code_simp+
  with no_row_is_left_pending [OF demo_reachable] show ?thesis by simp
qed

definition demo_ids :: "jstring list" where
  "demo_ids = map (\<lambda>n. js ''0f'' @ show_nat n) [0..<23]"

lemma demo_batches: "map length (batches demo_ids) = [10, 10, 3]"
  by code_simp

lemma batches_cover_the_list_ex:
  "map length (batches demo_ids) = [10, 10, 3] \<and> list_all (\<lambda>b. integrationStats_ids Some (join [44] b) = Inr b) (batches demo_ids)"
proof -
  have "list_all (\<lambda>i. plain_id i \<and> Some i = Some i) demo_ids" "distinct demo_ids" by code_simp+
  from batches_cover_the_list [OF this] show ?thesis by (auto simp: demo_batches list_all_iff)
qed

text \<open>The list of an older refresh that arrives when the newer one is done: it takes the numbers off the page, and its
  own pass ends at the first batch, so the row says for good that its numbers are on their way.\<close>

definition newer_list :: "(nat, nat) integrations_page" where
  "newer_list = list_arrives 1 (deferred_rows [js ''a'']) True (refresh_integrations 1 (open_integrations 0))"

definition newer_done :: "(nat, nat) integrations_page" where
  "newer_done = batch_arrives 0 (map (\<lambda>i. (i, demo_truth 1 i)) [js ''a'']) newer_list"

definition late_page :: "(nat, nat) integrations_page" where
  "late_page = batch_fails 0 (list_arrives 0 (deferred_rows [js ''a'']) True newer_done)"

lemma newer_reachable: "load_reachable demo_truth newer_done"
proof -
  have "load_reachable demo_truth newer_list"
    unfolding newer_list_def by (rule reach_list reach_refresh load_reachable.Open | code_simp)+
  moreover have "0 < length (ip_fills newer_list)" "list_all (\<lambda>i. i \<in> set (take STATS_BATCH (snd (snd (ip_fills newer_list ! 0))))) [js ''a'']"
    "fst (snd (ip_fills newer_list ! 0)) = 1"
    by code_simp+
  ultimately show ?thesis using reach_batch [of demo_truth newer_list 0] by (fastforce simp: newer_done_def)
qed

lemma late_list_stays_pending:
  "ip_items newer_done = Some [\<lparr>lr_id = js ''a'', lr_stats = Some 101\<rparr>]" "ip_pending newer_done = []"
  "load_reachable demo_truth late_page" "ip_lists late_page = []" "ip_fills late_page = []" "ip_pending late_page = [js ''a'']"
  "ip_items late_page = Some (deferred_rows [js ''a''])" "ip_error late_page = None"
proof -
  show "load_reachable demo_truth late_page"
    unfolding late_page_def by (rule reach_list reach_fails newer_reachable | code_simp)+
qed (code_simp+)

text \<open>While the numbers are on their way no row has a status, so a list opened on a status shows none and says so.\<close>

lemma status_filter_before_the_numbers:
  "let i = (demo_item ''orders'' ''SE'' 0)\<lparr>ii_status := None, ii_traces := None\<rparr> in
   visibleItems (\<lambda>x. x) to_number [] [(js ''status'', js ''unhealthy'')] [i] = Some []"
  by code_simp

text \<open>An answer without degrees that arrives last switches the chosen filter off, with nothing in flight.\<close>

lemma dependency_filter_left_off:
  "\<exists>s. services_reachable s \<and> sp_dep s = js ''isolated'' \<and> sp_requests s = [] \<and> \<not> sp_deps_loaded s \<and> \<not> sp_loading s"
proof -
  let ?s = "services_arrive 0 [] (services_arrive 1 [] (pick_dep (js ''isolated'') (open_services [])))"
  have "services_reachable ?s"
    by (rule services_reachable.Step [OF _ services_step.Arrive] services_reachable.Step [OF _ services_step.Pick] services_reachable.Open
        | code_simp | simp)+
  moreover have "sp_dep ?s = js ''isolated'' \<and> sp_requests ?s = [] \<and> \<not> sp_deps_loaded ?s \<and> \<not> sp_loading ?s" by code_simp
  ultimately show ?thesis by blast
qed

end
