(* ===== verification/Spec2Isabelle.thy ===== *)
theory Spec2Isabelle
  imports TraceTree ServiceFlow FlowLayout Membership FilterUrl Dashboards Session SharedCache Csv Tables
    Liquid RuleSwitches CheckViews TrimPanels Mirrors ApiRoutes PolicyForm Maintenance
    ListLoads
begin

text \<open>
  Verification of the decision logic of the Sluicio web frontend (\<open>src/frontend/src\<close>), with the parts of the cell
  API (\<open>src/services/cell-api\<close>, Go) that the frontend mirrors or relies on.  Paths below are relative to
  \<open>src/frontend/src\<close> unless they name a Go package.

  THE PROGRAM.  A single-page React application reads telemetry (traces, logs, metrics) and its inventory (services,
  integrations, systems) from the cell API over JSON, and lets people group services into integrations, define
  health checks, grant access, silence alerts and trim ingestion.  A page keeps its filters in the query of its
  address, loads its data with wrappers of one \<open>api\<close> object, folds the answers into what it draws, and writes
  back whole objects.  The logic worth verifying sits in the functions between the answers and the markup, in the
  handlers between the controls and the requests, and in the order in which answers arrive.  React rendering is not
  modelled: a component is its state, its handlers as functions on that state, and the values it derives.

  FOUNDATIONS.
  \<^item> \<open>Prelude\<close>: JavaScript text as UTF-16 code units (\<open>jstring\<close>), \<open>trim\<close>, \<open>split\<close>, \<open>join\<close>, \<open>includes\<close>, case
    conversion, the nullish operators, numbers with NaN (\<open>jnum\<close>).
  \<^item> \<open>Collections\<close>: \<open>Map\<close> and \<open>Set\<close> as insertion-ordered lists; the locales \<open>keyed_store\<close> and \<open>bucket_store\<close> state
    what the code relies on and are interpreted on that model; grouping loses no element.
  \<^item> \<open>JsSort\<close>: \<open>Array.prototype.sort\<close> as the stable sort it is; the locale \<open>js_comparator\<close> is what a consistent
    comparator must satisfy; it is interpreted on the comparators the code combines.
  \<^item> \<open>Uri\<close>, \<open>Query\<close>: percent-encoding and the text form of \<open>URLSearchParams\<close>, with the proofs that decoding undoes
    encoding.  \<open>ApiTypes\<close>: wire types of \<open>api/types.ts\<close> several components read.

  TRACES AND MAPS.
  \<^item> \<open>SpanGraph\<close> (\<open>lib/spanGraph.ts\<close>): repeated spans fold into nodes, parents and links into edges; every span is
    counted once and the edges are those of the spans (a refinement).
  \<^item> \<open>TraceTree\<close> (\<open>components/TraceWaterfall.tsx\<close>, \<open>lib/spanSelection.ts\<close>): the rows of the waterfall are a
    permutation of the spans in tree order, cycles included.
  \<^item> \<open>ServiceFlow\<close> (\<open>lib/serviceFlow.ts\<close>, \<open>lib/serviceSignature.ts\<close>, \<open>lib/traceNodeVisual.ts\<close>): calls between services.
  \<^item> \<open>FlowLayout\<close> (\<open>components/ServiceFlowGraph.tsx\<close>, \<open>components/IntegrationFlow.tsx\<close>): boxes that never overlap.

  GROUPING AND FILTERING.
  \<^item> \<open>Matchers\<close>, \<open>Membership\<close> (\<open>components/MatcherRules.tsx\<close>, \<open>components/matcher/membership.ts\<close>): rules against stored
    matcher rows, both ways, and what an edited rule covers.
  \<^item> \<open>FilterUrl\<close> (\<open>components/search/FilterEditor.tsx\<close>, \<open>lib/messageFilterUrl.ts\<close>): filters of messages in a link.
  \<^item> \<open>ListFilters\<close>, \<open>ListLoads\<close> (\<open>components/integrations/IntegrationFilterBar.tsx\<close>, \<open>pages/Integrations.tsx\<close>,
    \<open>pages/Services.tsx\<close>): the address as the state of the two list pages (a simulation between edits of the address
    and an abstract view), the values their pickers offer (locale \<open>list_page\<close>, one interpretation per page), groups,
    and the loading of names and numbers as a step relation in which answers arrive in any order.
  \<^item> \<open>Tables\<close>, \<open>Csv\<close>, \<open>Liquid\<close>: sorting and columns of tables, the CSV export and its reader, the check of template
    variables.
  \<^item> \<open>Dashboards\<close> (\<open>lib/dashboardItems.ts\<close>, \<open>lib/dashboardPick.ts\<close>, \<open>pages/Health.tsx\<close>): what removing a card writes.

  SESSION AND REQUESTS.
  \<^item> \<open>Session\<close> (\<open>api/client.ts\<close> \<open>request\<close>, \<open>components/UserProvider.tsx\<close>, \<open>lib/useAccess.ts\<close> and others): headers,
    errors as the left side of a sum, the authentication gate, roles.
  \<^item> \<open>SharedCache\<close> (\<open>lib/useBranding.ts\<close> and three more): a step relation over mounts, answers, failures and refreshes.
  \<^item> \<open>ApiCalls\<close>, \<open>ApiRoutes\<close>: every wrapper of the \<open>api\<close> object, and the routes of the server they reach.

  HEALTH CHECKS.
  \<^item> \<open>Rules\<close>, \<open>RuleStore\<close>: a rule on the wire and what a PUT of the cell API makes of it.  \<open>RuleEditors\<close>,
    \<open>RuleSwitches\<close>: every writer in the browser; what saving without an edit keeps and what it loses.
  \<^item> \<open>ErrorsPage\<close>, \<open>CheckViews\<close>: the page of everything in trouble, links to a check and its telemetry, warnings.

  OPERATIONS.
  \<^item> \<open>Trim\<close>, \<open>TrimPanels\<close>: the collector configuration a selection turns into, read back as what it drops.
  \<^item> \<open>Mirrors\<close>: code written once in TypeScript and once in Go, compared.
  \<^item> \<open>PolicyRules\<close>, \<open>PolicyForm\<close> (\<open>pages/Settings.tsx\<close>, Go \<open>identity\<close>): the boolean tree of an access policy, its editor,
    its validation and evaluation on the server; the form and the requests it sends.
  \<^item> \<open>Maintenance\<close> (\<open>components/MaintenanceWindows.tsx\<close>, Go \<open>maintenance\<close>): windows and recurring series.

  HOW STATE AND OPERATIONS CORRESPOND.  A TypeScript interface or a component's \<open>useState\<close> fields are a record; a union
  of strings is a datatype, with a constructor for an unknown text where one can arrive; a handler is a constructor
  of an edit type and an equation of a step function; promises are steps of an inductive relation, one per
  callback.  An exception, an early return and a refusal of the server are values of an option or a sum.  Fields that
  only serve a statement say so where they are declared (\<open>ip_shown\<close>, \<open>sh_requests\<close>).

  LEMMA GROUPS.  Each component first has the facts of its operations, then an invariant with one lemma per step or
  operation, then the theorems, and last the instances at which they are applied.  Theorems of the kinds
  refinement and simulation state an abstract meaning first (\<open>list_view\<close>, \<open>described_day\<close>, \<open>header_true\<close>).  Lemmas after a
  theorem that show a concrete input are behaviour the theorem's hypotheses exclude; the notable ones are the
  findings of the manifest.

  BOUNDS AND FUEL.  The export loop of \<open>Csv\<close> carries the code's own limit of 1000 pages and is proved complete when the
  result fits; policy trees carry the server's limits (depth 24, 256 nodes), which cut the recursion of the
  validator; batches of numbers are ten ids (\<open>STATS_BATCH\<close>) against the server's 25 (\<open>maxStatsIDs\<close>).  All other recursion is
  structural or has a termination proof; no definition stops for lack of fuel.

  PARAMETERS.  What the code takes from the platform or from outside the repository is an argument: \<open>ms\<close> (\<open>Date.parse\<close>),
  \<open>coll\<close> (\<open>localeCompare\<close>; theorems that sort assume \<open>js_comparator coll\<close>), \<open>re\<close> and \<open>compile\<close> (the regular expression
  engines), \<open>uni\<close> and \<open>upper\<close> (case conversion outside ASCII), \<open>wall\<close> and the clock functions of \<open>Maintenance\<close>, \<open>num\<close>, \<open>str\<close>,
  \<open>stringify\<close>, \<open>parse\<close>, \<open>parse_json\<close> (numbers and JSON as text), \<open>lenient\<close> (malformed escapes in a query), \<open>letter\<close>, \<open>ids\<close>,
  \<open>uuid\<close>, \<open>now\<close>, \<open>cell_api\<close> (the parsers of the server), \<open>members\<close>, \<open>attrs\<close> and \<open>truth\<close> (the server's data).  Numbers are
  rationals or naturals where the code has doubles: the values are counts, milliseconds and pixels far below \<open>2 ^ 53\<close>.
  Go's \<open>ServeMux\<close> is modelled from its documentation.  Object keys are distinct, and a key such as
  \<open>constructor\<close> that JavaScript objects inherit is not considered.

  NOT MODELLED.  Markup, styling, drawing and DOM effects; the application shell and its routing table; sign-in,
  account and administration forms that send one request per button and decide nothing; charts, log and metric
  viewers beyond the links, windows and filters they share; small display helpers that delegate to the platform's
  locale (\<open>toLocaleString\<close>); the tests.  Of the Go services only what is named above: their authorization, queries and
  evaluation of rules run against ClickHouse and Postgres.
\<close>

end
